(* ===== verification/Dibs_Prelude.thy ===== *)
theory Dibs_Prelude
  imports Complex_Main "HOL-Library.AList"
begin

text \<open>
  Shared vocabulary of the development: instants and durations, Python dictionaries, Python
  slicing and rounding, decimal rendering of integers, and the collections of facts the component
  proofs rewrite with.

  \<^item> An aware \<^verbatim>\<open>datetime\<close> is a \<open>time\<close>: an integral number of microseconds since the epoch, the
    resolution of the Python type.
  \<^item> A \<^verbatim>\<open>float\<close> number of seconds is an exact rational (\<open>seconds\<close>); IEEE rounding is not modelled.
    \<open>timedelta_seconds\<close> is \<^verbatim>\<open>timedelta(seconds=x)\<close>, which rounds half to even to a microsecond.
  \<^item> A Python \<^verbatim>\<open>dict\<close> is an association list in insertion order (\<open>pydict\<close>): storing an existing key
    keeps its position, a new key goes to the end, which is what the library operations
    \<open>AList.update\<close> and \<open>AList.delete\<close> do.
\<close>

section \<open>Collections of facts\<close>

named_theorems dict_simps \<open>equations of dictionaries after an update\<close>
named_theorems frame_simps \<open>what an operation leaves unchanged\<close>
named_theorems op_defs \<open>definitions of the operations of a component\<close>

section \<open>Instants and durations\<close>

type_synonym time = int
type_synonym seconds = rat

text \<open>Python's \<^verbatim>\<open>round\<close>: to the nearest integer, ties to the even one.\<close>

definition py_round :: "rat \<Rightarrow> int" where
  "py_round x =
     (let f = \<lfloor>x\<rfloor>; d = x - of_int f
      in if d < 1 / 2 then f
         else if 1 / 2 < d then f + 1
         else if even f then f else f + 1)"

definition timedelta_seconds :: "seconds \<Rightarrow> int" where
  "timedelta_seconds s = py_round (s * 1000000)"

text \<open>\<^verbatim>\<open>timedelta.total_seconds()\<close> of a difference in microseconds.\<close>

definition total_seconds :: "int \<Rightarrow> seconds" where
  "total_seconds us = of_int us / 1000000"

lemma py_round_of_int [simp]: "py_round (of_int n) = n"
  by (simp add: py_round_def)

lemma py_round_floor: "py_round x = \<lfloor>x\<rfloor> \<or> py_round x = \<lfloor>x\<rfloor> + 1"
  by (simp add: py_round_def Let_def)

lemma py_round_mono:
  assumes "x \<le> y"
  shows "py_round x \<le> py_round y"
proof (cases "\<lfloor>x\<rfloor> = \<lfloor>y\<rfloor>")
  case True
  with assms show ?thesis by (auto simp: py_round_def Let_def)
next
  case False
  with floor_mono [OF assms] have "\<lfloor>x\<rfloor> + 1 \<le> \<lfloor>y\<rfloor>" by simp
  then show ?thesis using py_round_floor [of x] py_round_floor [of y] by linarith
qed

lemma timedelta_total_seconds [simp]: "timedelta_seconds (total_seconds us) = us"
  by (simp add: timedelta_seconds_def total_seconds_def)

lemma timedelta_seconds_mono: "a \<le> b \<Longrightarrow> timedelta_seconds a \<le> timedelta_seconds b"
  by (simp add: timedelta_seconds_def py_round_mono)

lemma timedelta_seconds_of_int [simp]: "timedelta_seconds (of_int n) = n * 1000000"
proof -
  have "(of_int n * 1000000 :: rat) = of_int (n * 1000000)" by simp
  then show ?thesis unfolding timedelta_seconds_def by (simp only: py_round_of_int)
qed

lemma timedelta_seconds_le_total: "a \<le> total_seconds us \<Longrightarrow> timedelta_seconds a \<le> us"
  using timedelta_seconds_mono [of a "total_seconds us"] by simp

lemma timedelta_seconds_ge_int: "of_int n \<le> a \<Longrightarrow> n * 1000000 \<le> timedelta_seconds a"
  using timedelta_seconds_mono [of "of_int n" a] by simp

section \<open>Dictionaries\<close>

type_synonym ('k, 'v) pydict = "('k \<times> 'v) list"

abbreviation dict_get :: "('k, 'v) pydict \<Rightarrow> 'k \<Rightarrow> 'v option" where
  "dict_get d \<equiv> map_of d"

abbreviation dict_set :: "'k \<Rightarrow> 'v \<Rightarrow> ('k, 'v) pydict \<Rightarrow> ('k, 'v) pydict" where
  "dict_set \<equiv> AList.update"

abbreviation dict_pop :: "'k \<Rightarrow> ('k, 'v) pydict \<Rightarrow> ('k, 'v) pydict" where
  "dict_pop \<equiv> AList.delete"

abbreviation dict_keys :: "('k, 'v) pydict \<Rightarrow> 'k list" where
  "dict_keys d \<equiv> map fst d"

abbreviation dict_ok :: "('k, 'v) pydict \<Rightarrow> bool" where
  "dict_ok d \<equiv> distinct (dict_keys d)"

lemmas dict_lookup [simp, dict_simps] = update_conv' delete_conv'

lemma dict_ok_set [simp, intro]: "dict_ok d \<Longrightarrow> dict_ok (dict_set k v d)"
  by (rule distinct_update)

lemma dict_ok_pop [simp, intro]: "dict_ok d \<Longrightarrow> dict_ok (dict_pop k d)"
  by (rule distinct_delete)

lemma dict_get_in_set: "dict_ok d \<Longrightarrow> (k, v) \<in> set d \<longleftrightarrow> dict_get d k = Some v"
  by (auto intro: map_of_is_SomeI map_of_SomeD)

lemma dict_keys_dom: "k \<in> set (dict_keys d) \<longleftrightarrow> dict_get d k \<noteq> None"
  by (metis domIff dom_map_of_conv_image_fst image_set)

lemma dict_pop_length: "dict_get d k \<noteq> None \<Longrightarrow> length (dict_pop k d) < length d"
  by (induction d) (auto split: if_splits intro: le_less_trans [OF length_delete_le])

lemma dict_set_length:
  "length (dict_set k v d) = (if dict_get d k = None then Suc (length d) else length d)"
  by (induction d) auto

section \<open>Slices\<close>

text \<open>\<^verbatim>\<open>xs[:n]\<close>: a negative bound counts from the end.\<close>

definition py_take :: "int \<Rightarrow> 'a list \<Rightarrow> 'a list" where
  "py_take n xs = (if 0 \<le> n then take (nat n) xs else take (nat (int (length xs) + n)) xs)"

lemma set_py_take: "set (py_take n xs) \<subseteq> set xs"
  by (auto simp: py_take_def dest: in_set_takeD)

lemma length_py_take: "0 \<le> n \<Longrightarrow> int (length (py_take n xs)) \<le> n"
  by (simp add: py_take_def)

lemma distinct_py_take: "distinct xs \<Longrightarrow> distinct (py_take n xs)"
  by (simp add: py_take_def)

section \<open>Decimal rendering\<close>

text \<open>\<^verbatim>\<open>str(n)\<close> of an integer, as used inside f-strings.\<close>

definition digit_char :: "nat \<Rightarrow> char" where
  "digit_char d = char_of (48 + d)"

fun show_nat :: "nat \<Rightarrow> string" where
  "show_nat n = (if n < 10 then [digit_char n] else show_nat (n div 10) @ [digit_char (n mod 10)])"

declare show_nat.simps [simp del]

definition show_int :: "int \<Rightarrow> string" where
  "show_int n = (if n < 0 then ''-'' @ show_nat (nat (- n)) else show_nat (nat n))"

lemma digit_char_inj: "a < 10 \<Longrightarrow> b < 10 \<Longrightarrow> digit_char a = digit_char b \<longleftrightarrow> a = b"
  by (simp add: digit_char_def char_of_eq_iff take_bit_eq_mod)

lemma digit_char_not_minus: "d < 10 \<Longrightarrow> digit_char d \<noteq> CHR ''-''"
  by (simp add: digit_char_def char_of_eq_iff take_bit_eq_mod)

lemma show_nat_nonempty [simp]: "show_nat n \<noteq> []"
  by (subst show_nat.simps) simp

lemma show_nat_inj: "show_nat m = show_nat n \<Longrightarrow> m = n"
proof (induction m arbitrary: n rule: show_nat.induct)
  case (1 m)
  show ?case
  proof (cases "m < 10")
    case True
    with 1 show ?thesis
      by (cases "n < 10") (auto simp: show_nat.simps [of m] show_nat.simps [of n] digit_char_inj
        dest: sym [of "[]"])
  next
    case m: False
    with 1 have "\<not> n < 10"
      by (cases "n < 10") (auto simp: show_nat.simps [of m] show_nat.simps [of n])
    with m 1 have eq: "show_nat (m div 10) = show_nat (n div 10)"
      and last: "m mod 10 = n mod 10"
      by (auto simp: show_nat.simps [of m] show_nat.simps [of n] digit_char_inj)
    from m 1 eq have "m div 10 = n div 10" by simp
    with last show ?thesis by (metis div_mult_mod_eq)
  qed
qed

lemma show_nat_no_minus: "hd (show_nat n) \<noteq> CHR ''-''"
proof (induction n rule: show_nat.induct)
  case (1 n)
  then show ?case
    by (cases "n < 10") (simp_all add: show_nat.simps [of n] digit_char_not_minus)
qed

lemma show_int_inj [simp]: "show_int m = show_int n \<longleftrightarrow> m = n"
proof
  assume eq: "show_int m = show_int n"
  have sign: "(m < 0) = (n < 0)"
    using eq show_nat_no_minus [of "nat m"] show_nat_no_minus [of "nat n"]
    by (auto simp: show_int_def split: if_splits) (metis list.sel(1))+
  with eq show "m = n"
    by (auto simp: show_int_def split: if_splits dest!: show_nat_inj)
qed simp

text \<open>A rendered integer holds no separator, so the last field of a joined key can be read back.\<close>

lemma digit_char_not_colon: "d < 10 \<Longrightarrow> digit_char d \<noteq> CHR '':''"
  by (simp add: digit_char_def char_of_eq_iff take_bit_eq_mod)

lemma show_nat_no_colon: "CHR '':'' \<notin> set (show_nat n)"
proof (induction n rule: show_nat.induct)
  case (1 n)
  then show ?case
    by (cases "n < 10")
       (simp_all add: show_nat.simps [of n] digit_char_not_colon digit_char_not_colon [symmetric])
qed

lemma show_int_no_colon [simp]: "CHR '':'' \<notin> set (show_int n)"
  by (simp add: show_int_def show_nat_no_colon)

lemma last_field_inj:
  assumes "a @ c # x = b @ c # y" and "c \<notin> set x" "c \<notin> set y"
  shows "a = b \<and> x = y"
proof -
  have "takeWhile (\<lambda>d. d \<noteq> c) (List.rev (z @ c # v)) = List.rev v" if "c \<notin> set v" for z v :: "'a list"
    using that by (auto simp: takeWhile_append2 takeWhile_tail)
  with assms have "List.rev x = List.rev y" by metis
  with assms(1) show ?thesis by simp
qed

section \<open>Options\<close>

abbreviation is_none :: "'a option \<Rightarrow> bool" where
  "is_none x \<equiv> x = None"

text \<open>Python's \<^verbatim>\<open>a or b\<close> where \<^verbatim>\<open>a\<close> is an optional value that is never falsy.\<close>

definition or_else :: "'a option \<Rightarrow> 'a option \<Rightarrow> 'a option" where
  "or_else a b = (case a of None \<Rightarrow> b | Some _ \<Rightarrow> a)"

lemma or_else_simps [simp]:
  "or_else None b = b"
  "or_else (Some x) b = Some x"
  by (simp_all add: or_else_def)

text \<open>The elements an optional value holds.\<close>

definition opt_list :: "'a option \<Rightarrow> 'a list" where
  "opt_list x = (case x of None \<Rightarrow> [] | Some y \<Rightarrow> [y])"

lemma opt_list_simps [simp]:
  "opt_list None = []"
  "opt_list (Some y) = [y]"
  by (simp_all add: opt_list_def)

lemma length_opt_list: "length (opt_list x) = (if x = None then 0 else 1)"
  by (cases x) simp_all

end
