(* ===== verification/Calendar.thy ===== *)
theory Calendar
  imports Dibs_Prelude "HOL-Library.List_Lexorder" "HOL-Library.Char_ord"
begin

text \<open>
  The part of Python's \<^verbatim>\<open>datetime.date\<close> the sources use: the proleptic Gregorian calendar, ISO
  dates, ordinals and weekdays, and the two string shapes the request schemas accept
  (\<^verbatim>\<open>IsoDate\<close> and \<^verbatim>\<open>HourMinute\<close> of \<^verbatim>\<open>backend/orchestrator/schemas.py\<close>). Wall-clock times stay strings,
  compared lexicographically exactly as the sources compare them.
\<close>

section \<open>Digits\<close>

definition is_digit :: "char \<Rightarrow> bool" where
  "is_digit c \<longleftrightarrow> 48 \<le> (of_char c :: nat) \<and> (of_char c :: nat) \<le> 57"

definition digit_val :: "char \<Rightarrow> int" where
  "digit_val c = int (of_char c) - 48"

fun digits_val :: "int \<Rightarrow> string \<Rightarrow> int" where
  "digits_val acc [] = acc"
| "digits_val acc (c # cs) = digits_val (acc * 10 + digit_val c) cs"

lemma digit_val_range: "is_digit c \<Longrightarrow> 0 \<le> digit_val c \<and> digit_val c \<le> 9"
  unfolding is_digit_def digit_val_def by linarith

section \<open>The Gregorian calendar\<close>

datatype date = Date (dt_year: int) (dt_month: int) (dt_day: int)

text \<open>Python compares dates field by field; so does this order.\<close>

instantiation date :: linorder
begin

fun less_eq_date :: "date \<Rightarrow> date \<Rightarrow> bool" where
  "less_eq_date (Date y m d) (Date y' m' d') \<longleftrightarrow>
     y < y' \<or> y = y' \<and> (m < m' \<or> m = m' \<and> d \<le> d')"

definition less_date :: "date \<Rightarrow> date \<Rightarrow> bool" where
  "less_date a b \<longleftrightarrow> a \<le> b \<and> \<not> b \<le> a"

instance
proof
  fix a b c :: date
  show "a < b \<longleftrightarrow> a \<le> b \<and> \<not> b \<le> a" by (simp add: less_date_def)
  show "a \<le> a" by (cases a) simp
  show "a \<le> b \<Longrightarrow> b \<le> c \<Longrightarrow> a \<le> c" by (cases a; cases b; cases c) auto
  show "a \<le> b \<Longrightarrow> b \<le> a \<Longrightarrow> a = b" by (cases a; cases b) auto
  show "a \<le> b \<or> b \<le> a" by (cases a; cases b) auto
qed

end

definition is_leap :: "int \<Rightarrow> bool" where
  "is_leap y \<longleftrightarrow> y mod 4 = 0 \<and> (y mod 100 \<noteq> 0 \<or> y mod 400 = 0)"

definition days_in_month :: "int \<Rightarrow> int \<Rightarrow> int" where
  "days_in_month y m =
     (if m = 2 then (if is_leap y then 29 else 28)
      else if m \<in> {4, 6, 9, 11} then 30 else 31)"

definition days_before_year :: "int \<Rightarrow> int" where
  "days_before_year y = (y - 1) * 365 + (y - 1) div 4 - (y - 1) div 100 + (y - 1) div 400"

definition days_before_month :: "int \<Rightarrow> int \<Rightarrow> int" where
  "days_before_month y m =
     [0, 31, 59, 90, 120, 151, 181, 212, 243, 273, 304, 334] ! nat (m - 1)
     + (if 2 < m \<and> is_leap y then 1 else 0)"

definition date_valid :: "date \<Rightarrow> bool" where
  "date_valid d \<longleftrightarrow>
     1 \<le> dt_year d \<and> dt_year d \<le> 9999 \<and> 1 \<le> dt_month d \<and> dt_month d \<le> 12 \<and>
     1 \<le> dt_day d \<and> dt_day d \<le> days_in_month (dt_year d) (dt_month d)"

definition toordinal :: "date \<Rightarrow> int" where
  "toordinal d = days_before_year (dt_year d) + days_before_month (dt_year d) (dt_month d) + dt_day d"

definition weekday :: "date \<Rightarrow> int" where
  "weekday d = (toordinal d + 6) mod 7"

lemma weekday_range: "0 \<le> weekday d \<and> weekday d < 7"
  by (simp add: weekday_def)

section \<open>Accepted string shapes\<close>

text \<open>\<^verbatim>\<open>^\d{4}-\d{2}-\d{2}$\<close>.\<close>

fun iso_date_shape :: "string \<Rightarrow> bool" where
  "iso_date_shape [y1, y2, y3, y4, s1, m1, m2, s2, d1, d2] \<longleftrightarrow>
     is_digit y1 \<and> is_digit y2 \<and> is_digit y3 \<and> is_digit y4 \<and> s1 = CHR ''-'' \<and>
     is_digit m1 \<and> is_digit m2 \<and> s2 = CHR ''-'' \<and> is_digit d1 \<and> is_digit d2"
| "iso_date_shape _ \<longleftrightarrow> False"

text \<open>
  \<^verbatim>\<open>date.fromisoformat\<close> on a string of that shape; \<open>None\<close> is the \<^verbatim>\<open>ValueError\<close>. (Every caller has
  matched the shape first, so the other ISO spellings the method accepts never reach it.)
\<close>

definition fromisoformat :: "string \<Rightarrow> date option" where
  "fromisoformat s =
     (if iso_date_shape s then
        (let d = Date (digits_val 0 (take 4 s)) (digits_val 0 (take 2 (drop 5 s)))
                      (digits_val 0 (drop 8 s))
         in if date_valid d then Some d else None)
      else None)"

text \<open>\<^verbatim>\<open>^(?:[01]\d|2[0-3]):[0-5]\d$\<close>.\<close>

fun hour_minute_shape :: "string \<Rightarrow> bool" where
  "hour_minute_shape [h1, h2, c, m1, m2] \<longleftrightarrow>
     ((h1 \<in> {CHR ''0'', CHR ''1''} \<and> is_digit h2) \<or>
      (h1 = CHR ''2'' \<and> is_digit h2 \<and> digit_val h2 \<le> 3)) \<and>
     c = CHR '':'' \<and> is_digit m1 \<and> digit_val m1 \<le> 5 \<and> is_digit m2"
| "hour_minute_shape _ \<longleftrightarrow> False"

lemma fromisoformat_valid: "fromisoformat s = Some d \<Longrightarrow> date_valid d"
  by (auto simp: fromisoformat_def Let_def split: if_splits)

lemma fromisoformat_shape: "fromisoformat s = Some d \<Longrightarrow> iso_date_shape s"
  by (auto simp: fromisoformat_def split: if_splits)

end
