(* ===== verification/Reservation_Models.thy ===== *)
theory Reservation_Models
  imports Calendar
begin

text \<open>
  Request and reservation contracts: the enumerations and \<^verbatim>\<open>TimeWindow\<close> of
  \<^verbatim>\<open>backend/orchestrator/schemas.py\<close> and the models of \<^verbatim>\<open>backend/models/reservation.py\<close>. A Pydantic
  model is a record; its field constraints and model validators together are a predicate
  \<open>..._valid\<close>, true exactly when constructing the model does not raise \<^verbatim>\<open>ValidationError\<close>.
  Whitespace stripping happens before construction: a record holds the stripped strings.
\<close>

datatype venue_type = RESTAURANT | RECREATION | UNKNOWN_VENUE_TYPE

record time_window =
  tw_start :: string
  tw_end :: string

definition time_window_valid :: "time_window \<Rightarrow> bool" where
  "time_window_valid tw \<longleftrightarrow> hour_minute_shape (tw_start tw) \<and> hour_minute_shape (tw_end tw)"

definition MARKET :: string where
  "MARKET = ''Kitchener-Waterloo-Cambridge, ON''"

record availability_query =
  q_venue_name :: string
  q_venue_type :: venue_type
  q_market :: string
  q_party_size :: int
  q_date :: string
  q_preferred_time :: "string option"
  q_time_window :: "time_window option"
  q_duration_minutes :: "int option"
  q_special_requests :: "string list"

text \<open>\<^verbatim>\<open>AvailabilityQuery.validate_time_preference\<close>.\<close>

definition validate_time_preference :: "availability_query \<Rightarrow> bool" where
  "validate_time_preference q \<longleftrightarrow>
     \<not> (q_preferred_time q = None \<and> q_time_window q = None) \<and>
     (case (q_preferred_time q, q_time_window q) of
        (Some t, Some tw) \<Rightarrow> tw_start tw \<le> t \<and> t \<le> tw_end tw
      | _ \<Rightarrow> True)"

definition query_valid :: "availability_query \<Rightarrow> bool" where
  "query_valid q \<longleftrightarrow>
     1 \<le> length (q_venue_name q) \<and> length (q_venue_name q) \<le> 200 \<and>
     q_market q = MARKET \<and>
     1 \<le> q_party_size q \<and> q_party_size q \<le> 100 \<and>
     fromisoformat (q_date q) \<noteq> None \<and>
     (case q_preferred_time q of None \<Rightarrow> True | Some t \<Rightarrow> hour_minute_shape t) \<and>
     (case q_time_window q of None \<Rightarrow> True | Some tw \<Rightarrow> time_window_valid tw) \<and>
     (case q_duration_minutes q of None \<Rightarrow> True | Some d \<Rightarrow> 15 \<le> d \<and> d \<le> 720) \<and>
     length (q_special_requests q) \<le> 10 \<and>
     list_all (\<lambda>s. 1 \<le> length s \<and> length s \<le> 200) (q_special_requests q) \<and>
     validate_time_preference q"

record availability_slot =
  slot_id :: string
  slot_provider :: string
  slot_venue_name :: string
  slot_venue_type :: venue_type
  slot_date :: string
  slot_start_time :: string
  slot_end_time :: "string option"
  slot_party_size :: int
  slot_max_party_size :: int
  slot_available :: bool

text \<open>\<^verbatim>\<open>^[a-z0-9][a-z0-9_-]*$\<close> with one to forty characters.\<close>

definition provider_char :: "char \<Rightarrow> bool" where
  "provider_char c \<longleftrightarrow>
     is_digit c \<or> (97 \<le> (of_char c :: nat) \<and> (of_char c :: nat) \<le> 122)"

definition provider_name_valid :: "string \<Rightarrow> bool" where
  "provider_name_valid s \<longleftrightarrow>
     1 \<le> length s \<and> length s \<le> 40 \<and> provider_char (hd s) \<and>
     list_all (\<lambda>c. provider_char c \<or> c = CHR ''_'' \<or> c = CHR ''-'') (tl s)"

definition slot_valid :: "availability_slot \<Rightarrow> bool" where
  "slot_valid s \<longleftrightarrow>
     1 \<le> length (slot_id s) \<and> length (slot_id s) \<le> 200 \<and>
     provider_name_valid (slot_provider s) \<and>
     1 \<le> length (slot_venue_name s) \<and> length (slot_venue_name s) \<le> 200 \<and>
     iso_date_shape (slot_date s) \<and> hour_minute_shape (slot_start_time s) \<and>
     (case slot_end_time s of None \<Rightarrow> True | Some t \<Rightarrow> hour_minute_shape t) \<and>
     1 \<le> slot_party_size s \<and> slot_party_size s \<le> 100 \<and>
     1 \<le> slot_max_party_size s \<and> slot_max_party_size s \<le> 100 \<and>
     slot_available s \<and> slot_party_size s \<le> slot_max_party_size s"

datatype booking_status = MOCK_CONFIRMED | CONFIRMED_BOOKING

record booking_confirmation =
  booking_id :: string
  bk_provider :: string
  bk_status :: booking_status
  bk_slot :: availability_slot
  bk_created_at :: time

definition confirmation_valid :: "booking_confirmation \<Rightarrow> bool" where
  "confirmation_valid b \<longleftrightarrow>
     1 \<le> length (booking_id b) \<and> length (booking_id b) \<le> 200 \<and>
     provider_name_valid (bk_provider b) \<and> slot_valid (bk_slot b)"

end
