(* ===== verification/Watch_Models.thy ===== *)
theory Watch_Models
  imports Reservation_Models
begin

text \<open>
  Watch documents: \<^verbatim>\<open>backend/models/watch.py\<close> (the public \<^verbatim>\<open>Watch\<close> and poll results),
  \<^verbatim>\<open>backend/models/watch_runtime.py\<close> (the internal sidecar) and
  \<^verbatim>\<open>backend/db/repositories/watch_decisions.py\<close> (the decisions both stores return). A model's
  constraints and validators are its \<open>..._valid\<close> predicate; \<^verbatim>\<open>model_copy(update=...)\<close>, which does not
  re-validate, is a record update.
\<close>

section \<open>Watch documents (models/watch.py)\<close>

datatype watch_status = ACTIVE | FOUND | BOOKED | EXPIRED | CANCELLED

definition is_terminal :: "watch_status \<Rightarrow> bool" where
  "is_terminal s \<longleftrightarrow> s \<noteq> ACTIVE"

lemma is_terminal_simps [simp]:
  "\<not> is_terminal ACTIVE" "is_terminal FOUND" "is_terminal BOOKED"
  "is_terminal EXPIRED" "is_terminal CANCELLED"
  by (simp_all add: is_terminal_def)

lemma not_terminal_iff: "\<not> is_terminal s \<longleftrightarrow> s = ACTIVE"
  by (simp add: is_terminal_def)

datatype poll_outcome =
  Outcome_NO_AVAILABILITY | Outcome_FOUND | Outcome_BOOKED | Outcome_EXPIRED
| Outcome_ALREADY_FINISHED | Outcome_UNKNOWN_WATCH

record watch =
  watch_id :: string
  w_status :: watch_status
  w_query :: availability_query
  auto_book :: bool
  created_at :: time
  updated_at :: time
  w_expires_at :: time
  attempts :: int
  max_attempts :: int
  last_checked_at :: "time option"
  next_check_at :: "time option"
  found_slots :: "availability_slot list"
  w_booking :: "booking_confirmation option"
  last_error :: "string option"

text \<open>\<^verbatim>\<open>Watch.validate_state\<close>: the model validator.\<close>

definition validate_state :: "watch \<Rightarrow> bool" where
  "validate_state w \<longleftrightarrow>
     \<not> (w_status w = BOOKED \<and> w_booking w = None) \<and>
     \<not> (w_status w = FOUND \<and> found_slots w = []) \<and>
     \<not> (is_terminal (w_status w) \<and> next_check_at w \<noteq> None) \<and>
     \<not> (max_attempts w < attempts w)"

definition watch_valid :: "watch \<Rightarrow> bool" where
  "watch_valid w \<longleftrightarrow>
     1 \<le> length (watch_id w) \<and> length (watch_id w) \<le> 200 \<and>
     query_valid (w_query w) \<and>
     0 \<le> attempts w \<and> 1 \<le> max_attempts w \<and>
     length (found_slots w) \<le> 32 \<and> list_all slot_valid (found_slots w) \<and>
     (case w_booking w of None \<Rightarrow> True | Some b \<Rightarrow> confirmation_valid b) \<and>
     (case last_error w of None \<Rightarrow> True | Some e \<Rightarrow> 1 \<le> length e \<and> length e \<le> 500) \<and>
     validate_state w"

definition is_exhausted :: "watch \<Rightarrow> time \<Rightarrow> bool" where
  "is_exhausted w now \<longleftrightarrow> max_attempts w \<le> attempts w \<or> w_expires_at w \<le> now"

record poll_result =
  pr_outcome :: poll_outcome
  pr_watch :: "watch option"
  retry_in_seconds :: "seconds option"

text \<open>\<^verbatim>\<open>WatchPollResult.validate_scheduling\<close> and its field constraint.\<close>

definition poll_result_valid :: "poll_result \<Rightarrow> bool" where
  "poll_result_valid p \<longleftrightarrow>
     (case retry_in_seconds p of None \<Rightarrow> True | Some s \<Rightarrow> 0 \<le> s) \<and>
     (pr_outcome p = Outcome_NO_AVAILABILITY \<longleftrightarrow> retry_in_seconds p \<noteq> None) \<and>
     (pr_outcome p = Outcome_UNKNOWN_WATCH \<longleftrightarrow> pr_watch p = None)"

text \<open>The errors a model constructor or a date computation raises.\<close>

datatype model_error = ValidationError | OverflowError | ValueError

text \<open>\<^verbatim>\<open>date.max.toordinal()\<close>; adding a day to it raises \<^verbatim>\<open>OverflowError\<close>.\<close>

definition max_ordinal :: int where
  "max_ordinal = 3652059"

text \<open>
  \<^verbatim>\<open>default_expiry\<close>. The time-zone database is not part of the sources: \<open>midnight n\<close> is the UTC
  instant of local midnight on the day with ordinal \<open>n\<close> in the zone the caller selected.
\<close>

definition default_expiry :: "(int \<Rightarrow> time) \<Rightarrow> availability_query \<Rightarrow> time \<Rightarrow> model_error + time" where
  "default_expiry midnight q created =
     (case fromisoformat (q_date q) of
        None \<Rightarrow> Inl ValueError
      | Some d \<Rightarrow>
          if max_ordinal < toordinal d + 1 then Inl OverflowError
          else Inr (max (midnight (toordinal d + 1)) (created + 60 * 1000000)))"

section \<open>The runtime sidecar (models/watch\_runtime.py)\<close>

datatype runtime_phase = POLLING | BOOKING

definition window_id_for :: "string \<Rightarrow> int \<Rightarrow> string" where
  "window_id_for wid n = wid @ '':'' @ show_int n"

record watch_runtime =
  schema_version :: int
  revision :: int
  required_attempts :: int
  rt_supports_deadline :: bool
  consecutive_outages :: int
  cadence_sequence :: int
  rt_window_id :: "string option"
  rt_scheduled_for :: "time option"
  rt_phase :: "runtime_phase option"
  cancel_requested :: bool
  rt_terminal_delete_at :: "time option"

definition MAX_COUNT :: int where "MAX_COUNT = 1000000000"
definition MAX_REQUIRED_ATTEMPTS :: int where "MAX_REQUIRED_ATTEMPTS = 10000000000"

definition runtime_valid :: "watch_runtime \<Rightarrow> bool" where
  "runtime_valid rt \<longleftrightarrow>
     0 \<le> revision rt \<and> revision rt \<le> MAX_COUNT \<and>
     1 \<le> required_attempts rt \<and> required_attempts rt \<le> MAX_REQUIRED_ATTEMPTS \<and>
     0 \<le> consecutive_outages rt \<and> consecutive_outages rt \<le> MAX_COUNT \<and>
     0 \<le> cadence_sequence rt \<and> cadence_sequence rt \<le> MAX_COUNT \<and>
     (case rt_window_id rt of None \<Rightarrow> True | Some s \<Rightarrow> length s \<le> 256)"

definition checked_runtime :: "watch_runtime \<Rightarrow> model_error + watch_runtime" where
  "checked_runtime rt = (if runtime_valid rt then Inr rt else Inl ValidationError)"

definition initial_runtime ::
  "watch \<Rightarrow> int \<Rightarrow> bool \<Rightarrow> runtime_phase option \<Rightarrow> model_error + watch_runtime" where
  "initial_runtime w required supports ph =
     checked_runtime
       \<lparr>schema_version = 2, revision = 0, required_attempts = required,
        rt_supports_deadline = supports, consecutive_outages = 0, cadence_sequence = 0,
        rt_window_id = Some (window_id_for (watch_id w) 0), rt_scheduled_for = next_check_at w,
        rt_phase = ph, cancel_requested = False, rt_terminal_delete_at = None\<rparr>"

text \<open>\<^verbatim>\<open>_forward_required\<close>: one check plus the ceiling of the remaining lifetime over the delay.\<close>

definition forward_required :: "watch \<Rightarrow> seconds \<Rightarrow> time \<Rightarrow> int" where
  "forward_required w earliest_delay_seconds now =
     (let earliest_us = max 1 (py_round (earliest_delay_seconds * 1000000));
          remaining_us = max 0 (w_expires_at w - now);
          interval_count = - ((- remaining_us) div earliest_us)
      in interval_count + 1)"

definition migrate_legacy_watch ::
  "watch \<Rightarrow> seconds \<Rightarrow> time \<Rightarrow> model_error + watch_runtime" where
  "migrate_legacy_watch w earliest_delay_seconds now =
     (let total = attempts w + forward_required w earliest_delay_seconds now;
          supports = (total \<le> max_attempts w);
          base = \<lparr>schema_version = 2, revision = 0, required_attempts = total,
             rt_supports_deadline = supports, consecutive_outages = 0, cadence_sequence = 0,
             rt_window_id = None, rt_scheduled_for = None,
             rt_phase = None, cancel_requested = False, rt_terminal_delete_at = None\<rparr>
      in if is_terminal (w_status w) then checked_runtime base
         else checked_runtime
           (base\<lparr>rt_window_id := Some (window_id_for (watch_id w) 0),
                 rt_scheduled_for := Some (case next_check_at w of Some t \<Rightarrow> t | None \<Rightarrow> now)\<rparr>))"

text \<open>Two cadence windows of one watch never share an identity.\<close>

lemma window_id_for_inj [simp]: "window_id_for wid m = window_id_for wid n \<longleftrightarrow> m = n"
  by (simp add: window_id_for_def)

end
