(* ===== verification/Watch_Decisions.thy ===== *)
theory Watch_Decisions
  imports Watch_Models
begin

text \<open>
  The typed decisions of \<^verbatim>\<open>backend/db/repositories/watch_decisions.py\<close>, which both the in-memory and
  the Redis store return, and the leases of \<^verbatim>\<open>backend/db/repositories/watches.py\<close>. Constructors carry
  the enumeration's name as a prefix because several enumerations share member names.
\<close>

datatype create_status = Create_CREATED | Create_ALREADY_EXISTS

record create_result =
  crt_status :: create_status
  crt_watch :: "watch option"
  crt_runtime :: "watch_runtime option"

datatype claim_status =
  Claim_OWNED | Claim_BUSY | Claim_EARLY | Claim_STALE | Claim_TERMINAL | Claim_UNKNOWN

record window_claim =
  wc_watch :: watch
  wc_runtime :: watch_runtime
  wc_owner_id :: string
  wc_window_id :: string
  wc_token :: int
  wc_lease_expires_at :: time

record claim_result =
  cl_status :: claim_status
  cl_claim :: "window_claim option"

datatype permit_status = Permit_GRANTED | Permit_CANCELLED | Permit_FENCED

record booking_permit =
  bp_status :: permit_status
  permit_id :: "string option"

datatype commit_status = Commit_COMMITTED | Commit_FENCED | Commit_TERMINAL | Commit_UNKNOWN

record commit_result =
  cm_status :: commit_status
  cm_watch :: "watch option"
  cm_event_id :: "string option"

datatype transition_status =
  Transition_APPLIED | Transition_NOOP | Transition_NOT_ELIGIBLE | Transition_FENCED
| Transition_UNKNOWN

record transition_result =
  tr_status :: transition_status
  tr_watch :: "watch option"
  tr_event_id :: "string option"
  tr_revision :: int

record schedule_marker =
  mk_watch_id :: string
  mk_window_id :: string
  mk_scheduled_for :: time

datatype dispatch_status = Dispatch_CLAIMED | Dispatch_BUSY | Dispatch_STALE

record dispatch_claim =
  dc_watch_id :: string
  dc_window_id :: string
  dc_scheduled_for :: time
  dc_owner_id :: string
  dc_generation :: int
  dc_lease_expires_at :: time

record dispatch_result =
  dr_status :: dispatch_status
  dr_claim :: "dispatch_claim option"

record recovery_candidate =
  rc_watch_id :: string
  rc_watch :: "watch option"
  rc_runtime :: "watch_runtime option"
  has_marker :: bool
  has_live_claim :: bool

record cleanup_result =
  removed :: int
  remaining :: bool

text \<open>\<^verbatim>\<open>_ClaimLease\<close> and \<^verbatim>\<open>_DispatchLease\<close>.\<close>

record claim_lease =
  ls_window_id :: string
  ls_owner_id :: string
  ls_token :: int
  ls_expires_at :: time

record dispatch_lease =
  dl_window_id :: string
  dl_owner_id :: string
  dl_generation :: int
  dl_expires_at :: time

text \<open>\<^verbatim>\<open>_TERMINAL_EVENT_STATUSES\<close> and \<^verbatim>\<open>terminal_event_id\<close>; \<open>sha1hex\<close> is the digest function.\<close>

definition terminal_event_status :: "watch_status \<Rightarrow> bool" where
  "terminal_event_status s \<longleftrightarrow> s \<in> {FOUND, BOOKED, EXPIRED}"

fun status_value :: "watch_status \<Rightarrow> string" where
  "status_value ACTIVE = ''ACTIVE''"
| "status_value FOUND = ''FOUND''"
| "status_value BOOKED = ''BOOKED''"
| "status_value EXPIRED = ''EXPIRED''"
| "status_value CANCELLED = ''CANCELLED''"

definition terminal_event_id :: "(string \<Rightarrow> string) \<Rightarrow> string \<Rightarrow> watch_status \<Rightarrow> int \<Rightarrow> string" where
  "terminal_event_id sha1hex wid st rvn =
     sha1hex (wid @ '':'' @ status_value st @ '':'' @ show_int rvn)"

text \<open>Answers that carry nothing but a decision.\<close>

abbreviation claim_refused :: "claim_status \<Rightarrow> claim_result" where
  "claim_refused s \<equiv> \<lparr>cl_status = s, cl_claim = None\<rparr>"

abbreviation permit_refused :: "permit_status \<Rightarrow> booking_permit" where
  "permit_refused s \<equiv> \<lparr>bp_status = s, permit_id = None\<rparr>"

abbreviation commit_refused :: "commit_status \<Rightarrow> watch option \<Rightarrow> commit_result" where
  "commit_refused s w \<equiv> \<lparr>cm_status = s, cm_watch = w, cm_event_id = None\<rparr>"

abbreviation transition_refused :: "transition_status \<Rightarrow> watch option \<Rightarrow> transition_result" where
  "transition_refused s w \<equiv> \<lparr>tr_status = s, tr_watch = w, tr_event_id = None, tr_revision = -1\<rparr>"

abbreviation dispatch_refused :: "dispatch_status \<Rightarrow> dispatch_result" where
  "dispatch_refused s \<equiv> \<lparr>dr_status = s, dr_claim = None\<rparr>"

end
