(* ===== verification/Watch_Repository.thy ===== *)
theory Watch_Repository
  imports Watch_Decisions
begin

text \<open>
  \<^verbatim>\<open>InMemoryWatchRepository\<close> of \<^verbatim>\<open>backend/db/repositories/watches.py\<close>, one definition per method. Every
  method of the class runs as one critical section under \<^verbatim>\<open>self._lock\<close>, so each is a function from
  the store to its answer and the new store; \<open>now\<close> is what the injected clock reads in that section.
\<close>

record watch_repo =
  retention :: int
  watches :: "(string, watch) pydict"
  runtimes :: "(string, watch_runtime) pydict"
  fence :: "(string, int) pydict"
  claims :: "(string, claim_lease) pydict"
  dispatch_fence :: "(string, int) pydict"
  dispatch_leases :: "(string, dispatch_lease) pydict"
  markers :: "(string, schedule_marker) pydict"
  terminal_delete_ats :: "(string, time) pydict"
  events :: "string set"

definition empty_repo :: "seconds \<Rightarrow> watch_repo" where
  "empty_repo terminal_retention_seconds =
     \<lparr>retention = timedelta_seconds terminal_retention_seconds, watches = [], runtimes = [],
      fence = [], claims = [], dispatch_fence = [], dispatch_leases = [], markers = [],
      terminal_delete_ats = [], events = {}\<rparr>"

section \<open>Documents\<close>

definition repo_save :: "watch \<Rightarrow> watch_repo \<Rightarrow> watch \<times> watch_repo" where
  "repo_save w r = (w, r\<lparr>watches := dict_set (watch_id w) w (watches r)\<rparr>)"

definition repo_get :: "string \<Rightarrow> watch_repo \<Rightarrow> watch option" where
  "repo_get wid r = dict_get (watches r) wid"

text \<open>\<^verbatim>\<open>sorted(..., key=created_at, reverse=True)\<close> is stable: newest first, ties in dictionary order.\<close>

definition list_all_watches :: "watch_repo \<Rightarrow> watch list" where
  "list_all_watches r = sort_key (\<lambda>w. - created_at w) (map snd (watches r))"

definition list_active :: "watch_repo \<Rightarrow> watch list" where
  "list_active r = filter (\<lambda>w. w_status w = ACTIVE) (list_all_watches r)"

text \<open>The eight \<^verbatim>\<open>pop\<close> calls shared by \<^verbatim>\<open>delete\<close> and \<^verbatim>\<open>cleanup_due\<close>.\<close>

definition forget :: "string \<Rightarrow> watch_repo \<Rightarrow> watch_repo" where
  "forget wid r =
     r\<lparr>watches := dict_pop wid (watches r),
       runtimes := dict_pop wid (runtimes r),
       fence := dict_pop wid (fence r),
       claims := dict_pop wid (claims r),
       dispatch_fence := dict_pop wid (dispatch_fence r),
       dispatch_leases := dict_pop wid (dispatch_leases r),
       markers := dict_pop wid (markers r),
       terminal_delete_ats := dict_pop wid (terminal_delete_ats r)\<rparr>"

definition repo_delete :: "string \<Rightarrow> watch_repo \<Rightarrow> bool \<times> watch_repo" where
  "repo_delete wid r = (dict_get (watches r) wid \<noteq> None, forget wid r)"

section \<open>Internals\<close>

definition get_runtime :: "string \<Rightarrow> watch_repo \<Rightarrow> watch_runtime option" where
  "get_runtime wid r = dict_get (runtimes r) wid"

definition repo_schedule_marker :: "string \<Rightarrow> watch_repo \<Rightarrow> schedule_marker option" where
  "repo_schedule_marker wid r = dict_get (markers r) wid"

definition set_marker :: "string \<Rightarrow> watch_runtime \<Rightarrow> watch_repo \<Rightarrow> watch_repo" where
  "set_marker wid rt r =
     (case (rt_window_id rt, rt_scheduled_for rt) of
        (Some win, Some due) \<Rightarrow>
          r\<lparr>markers := dict_set wid
              \<lparr>mk_watch_id = wid, mk_window_id = win, mk_scheduled_for = due\<rparr> (markers r)\<rparr>
      | _ \<Rightarrow> r\<lparr>markers := dict_pop wid (markers r)\<rparr>)"

definition owns :: "time \<Rightarrow> window_claim \<Rightarrow> watch_runtime \<Rightarrow> watch_repo \<Rightarrow> bool" where
  "owns now cl current r \<longleftrightarrow>
     revision current = revision (wc_runtime cl) \<and>
     (case dict_get (claims r) (watch_id (wc_watch cl)) of
        None \<Rightarrow> False
      | Some held \<Rightarrow>
          ls_token held = wc_token cl \<and> ls_owner_id held = wc_owner_id cl \<and>
          now < ls_expires_at held)"

definition owns_dispatch :: "dispatch_claim \<Rightarrow> dispatch_lease \<Rightarrow> bool" where
  "owns_dispatch cl held \<longleftrightarrow>
     dl_generation held = dc_generation cl \<and> dl_owner_id held = dc_owner_id cl"

definition issue_event ::
  "(string \<Rightarrow> string) \<Rightarrow> string \<Rightarrow> watch_status \<Rightarrow> int \<Rightarrow> watch_repo \<Rightarrow> string option \<times> watch_repo" where
  "issue_event sha1hex wid st rvn r =
     (if \<not> terminal_event_status st then (None, r)
      else let e = terminal_event_id sha1hex wid st rvn
           in (Some e, r\<lparr>events := insert e (events r)\<rparr>))"

definition apply_terminal ::
  "string \<Rightarrow> watch \<Rightarrow> watch_runtime option \<Rightarrow> time \<Rightarrow> watch_repo \<Rightarrow> int \<times> watch_repo" where
  "apply_terminal wid terminal_watch rt now r =
     (let rvn = (case rt of Some x \<Rightarrow> revision x + 1 | None \<Rightarrow> 0);
          deadline = now + retention r;
          rts = (case rt of
                   None \<Rightarrow> runtimes r
                 | Some x \<Rightarrow> dict_set wid
                     (x\<lparr>revision := rvn, rt_window_id := None, rt_scheduled_for := None,
                        rt_phase := None, cancel_requested := False,
                        rt_terminal_delete_at := Some deadline\<rparr>) (runtimes r))
      in (rvn,
          r\<lparr>watches := dict_set wid terminal_watch (watches r),
            runtimes := rts,
            claims := dict_pop wid (claims r),
            dispatch_leases := dict_pop wid (dispatch_leases r),
            markers := dict_pop wid (markers r),
            terminal_delete_ats := dict_set wid deadline (terminal_delete_ats r)\<rparr>))"

section \<open>Creation, claims and commits\<close>

definition create_with_schedule ::
  "watch \<Rightarrow> watch_runtime \<Rightarrow> watch_repo \<Rightarrow> create_result \<times> watch_repo" where
  "create_with_schedule w rt r =
     (case dict_get (watches r) (watch_id w) of
        Some old \<Rightarrow>
          (\<lparr>crt_status = Create_ALREADY_EXISTS, crt_watch = Some old,
            crt_runtime = dict_get (runtimes r) (watch_id w)\<rparr>, r)
      | None \<Rightarrow>
          (\<lparr>crt_status = Create_CREATED, crt_watch = Some w, crt_runtime = Some rt\<rparr>,
           set_marker (watch_id w) rt
             (r\<lparr>watches := dict_set (watch_id w) w (watches r),
                runtimes := dict_set (watch_id w) rt (runtimes r),
                fence := dict_set (watch_id w) 0 (fence r)\<rparr>)))"

definition claim_window ::
  "time \<Rightarrow> string \<Rightarrow> string \<Rightarrow> string \<Rightarrow> seconds \<Rightarrow> bool \<Rightarrow> watch_repo \<Rightarrow> claim_result \<times> watch_repo" where
  "claim_window now wid win owner lease_seconds ignore_schedule r =
     (case (dict_get (watches r) wid, dict_get (runtimes r) wid) of
        (Some w, Some rt) \<Rightarrow>
          if is_terminal (w_status w) then (claim_refused Claim_TERMINAL, r)
          else if rt_window_id rt \<noteq> Some win then (claim_refused Claim_STALE, r)
          else if \<not> ignore_schedule \<and>
                  (case rt_scheduled_for rt of None \<Rightarrow> False | Some t \<Rightarrow> now < t)
               then (claim_refused Claim_EARLY, r)
          else if (case dict_get (claims r) wid of
                     None \<Rightarrow> False
                   | Some held \<Rightarrow> ls_window_id held = win \<and> now < ls_expires_at held)
               then (claim_refused Claim_BUSY, r)
          else
            (let token = (case dict_get (fence r) wid of None \<Rightarrow> 0 | Some n \<Rightarrow> n) + 1;
                 lease_expires = now + timedelta_seconds lease_seconds
             in (\<lparr>cl_status = Claim_OWNED,
                  cl_claim = Some \<lparr>wc_watch = w, wc_runtime = rt, wc_owner_id = owner,
                     wc_window_id = win, wc_token = token, wc_lease_expires_at = lease_expires\<rparr>\<rparr>,
                 r\<lparr>fence := dict_set wid token (fence r),
                   claims := dict_set wid
                     \<lparr>ls_window_id = win, ls_owner_id = owner, ls_token = token,
                      ls_expires_at = lease_expires\<rparr> (claims r)\<rparr>))
      | _ \<Rightarrow> (claim_refused Claim_UNKNOWN, r))"

definition begin_booking ::
  "time \<Rightarrow> window_claim \<Rightarrow> watch_repo \<Rightarrow> booking_permit \<times> watch_repo" where
  "begin_booking now cl r =
     (let wid = watch_id (wc_watch cl) in
      case (dict_get (watches r) wid, dict_get (runtimes r) wid) of
        (Some w, Some rt) \<Rightarrow>
          if is_terminal (w_status w) then (permit_refused Permit_FENCED, r)
          else if \<not> owns now cl rt r then (permit_refused Permit_FENCED, r)
          else if cancel_requested rt then (permit_refused Permit_CANCELLED, r)
          else (\<lparr>bp_status = Permit_GRANTED, permit_id = Some (wid @ '':'' @ show_int (wc_token cl))\<rparr>,
                r\<lparr>runtimes := dict_set wid (rt\<lparr>rt_phase := Some BOOKING\<rparr>) (runtimes r)\<rparr>)
      | _ \<Rightarrow> (permit_refused Permit_FENCED, r))"

definition commit_window ::
  "(string \<Rightarrow> string) \<Rightarrow> time \<Rightarrow> window_claim \<Rightarrow> watch \<Rightarrow> watch_runtime \<Rightarrow> watch_repo
     \<Rightarrow> commit_result \<times> watch_repo" where
  "commit_window sha1hex now cl new_watch new_runtime r =
     (let wid = watch_id (wc_watch cl) in
      case (dict_get (watches r) wid, dict_get (runtimes r) wid) of
        (Some w, Some rt) \<Rightarrow>
          if is_terminal (w_status w) then (commit_refused Commit_TERMINAL (Some w), r)
          else if \<not> owns now cl rt r then (commit_refused Commit_FENCED None, r)
          else
            (let rvn = revision rt + 1;
                 terminal = is_terminal (w_status new_watch);
                 deadline = now + retention r;
                 stored = (let x = new_runtime\<lparr>revision := rvn, rt_phase := None\<rparr>
                           in if terminal then x\<lparr>rt_terminal_delete_at := Some deadline\<rparr> else x);
                 r1 = r\<lparr>watches := dict_set wid new_watch (watches r),
                        runtimes := dict_set wid stored (runtimes r),
                        claims := dict_pop wid (claims r)\<rparr>
             in if terminal then
                  (let r2 = r1\<lparr>markers := dict_pop wid (markers r1),
                               dispatch_leases := dict_pop wid (dispatch_leases r1),
                               terminal_delete_ats :=
                                 dict_set wid deadline (terminal_delete_ats r1)\<rparr>;
                       (ev, r3) = issue_event sha1hex wid (w_status new_watch) rvn r2
                   in (\<lparr>cm_status = Commit_COMMITTED, cm_watch = Some new_watch,
                        cm_event_id = ev\<rparr>, r3))
                else (\<lparr>cm_status = Commit_COMMITTED, cm_watch = Some new_watch,
                       cm_event_id = None\<rparr>, set_marker wid stored r1))
      | _ \<Rightarrow> (commit_refused Commit_UNKNOWN None, r))"

section \<open>Cancellation, expiry and release\<close>

definition cancel_if_active :: "time \<Rightarrow> string \<Rightarrow> watch_repo \<Rightarrow> transition_result \<times> watch_repo" where
  "cancel_if_active now wid r =
     (case dict_get (watches r) wid of
        None \<Rightarrow> (transition_refused Transition_UNKNOWN None, r)
      | Some w \<Rightarrow>
          if is_terminal (w_status w) then (transition_refused Transition_NOOP (Some w), r)
          else
            (let cancelled = w\<lparr>w_status := CANCELLED, next_check_at := None, updated_at := now\<rparr>;
                 finish = (\<lambda>rt. let (rvn, r') = apply_terminal wid cancelled rt now r
                            in (\<lparr>tr_status = Transition_APPLIED, tr_watch = Some cancelled,
                                 tr_event_id = None, tr_revision = rvn\<rparr>, r'))
             in case dict_get (runtimes r) wid of
                  None \<Rightarrow> finish None
                | Some rt \<Rightarrow>
                    if rt_phase rt = Some BOOKING then
                      (transition_refused Transition_NOT_ELIGIBLE (Some w),
                       r\<lparr>runtimes := dict_set wid (rt\<lparr>cancel_requested := True\<rparr>) (runtimes r)\<rparr>)
                    else finish (Some rt)))"

definition expire_if_eligible ::
  "(string \<Rightarrow> string) \<Rightarrow> time \<Rightarrow> string \<Rightarrow> int option \<Rightarrow> bool \<Rightarrow> watch_repo
     \<Rightarrow> transition_result \<times> watch_repo" where
  "expire_if_eligible sha1hex now wid expected_revision force r =
     (case dict_get (watches r) wid of
        None \<Rightarrow> (transition_refused Transition_UNKNOWN None, r)
      | Some w \<Rightarrow>
          if is_terminal (w_status w) then (transition_refused Transition_NOOP (Some w), r)
          else
            (let rt = dict_get (runtimes r) wid in
             if (case (expected_revision, rt) of
                   (Some n, Some x) \<Rightarrow> revision x \<noteq> n
                 | _ \<Rightarrow> False)
             then (transition_refused Transition_FENCED None, r)
             else if \<not> force \<and> \<not> is_exhausted w now
             then (transition_refused Transition_NOT_ELIGIBLE (Some w), r)
             else
               (let expired = w\<lparr>w_status := EXPIRED, next_check_at := None, updated_at := now\<rparr>;
                    (rvn, r1) = apply_terminal wid expired rt now r;
                    (ev, r2) = issue_event sha1hex wid EXPIRED rvn r1
                in (\<lparr>tr_status = Transition_APPLIED, tr_watch = Some expired,
                     tr_event_id = ev, tr_revision = rvn\<rparr>, r2))))"

definition release_claim :: "window_claim \<Rightarrow> watch_repo \<Rightarrow> bool \<times> watch_repo" where
  "release_claim cl r =
     (let wid = watch_id (wc_watch cl) in
      case dict_get (claims r) wid of
        None \<Rightarrow> (False, r)
      | Some held \<Rightarrow>
          if ls_token held = wc_token cl \<and> ls_owner_id held = wc_owner_id cl
          then (True, r\<lparr>claims := dict_pop wid (claims r)\<rparr>)
          else (False, r))"

section \<open>Retention cleanup\<close>

definition due_deletions :: "time \<Rightarrow> watch_repo \<Rightarrow> string list" where
  "due_deletions now r =
     map fst (sort_key snd (filter (\<lambda>(k, deadline). deadline \<le> now) (terminal_delete_ats r)))"

definition cleanup_one :: "string \<Rightarrow> int \<times> watch_repo \<Rightarrow> int \<times> watch_repo" where
  "cleanup_one wid st =
     (let (n, r) = st in
      case dict_get (watches r) wid of
        Some w \<Rightarrow>
          if is_terminal (w_status w) then (n + 1, forget wid r)
          else (n, r\<lparr>terminal_delete_ats := dict_pop wid (terminal_delete_ats r)\<rparr>)
      | None \<Rightarrow> (n, r\<lparr>terminal_delete_ats := dict_pop wid (terminal_delete_ats r)\<rparr>))"

definition cleanup_due :: "time \<Rightarrow> int \<Rightarrow> watch_repo \<Rightarrow> cleanup_result \<times> watch_repo" where
  "cleanup_due now batch_size r =
     (let (n, r') = fold cleanup_one (py_take batch_size (due_deletions now r)) (0, r)
      in (\<lparr>removed = n,
           remaining = list_ex (\<lambda>(k, deadline). deadline \<le> now) (terminal_delete_ats r')\<rparr>, r'))"

section \<open>Recovery reconciliation surface\<close>

definition list_recovery_candidates :: "time \<Rightarrow> watch_repo \<Rightarrow> recovery_candidate list" where
  "list_recovery_candidates now r =
     map (\<lambda>(wid, w).
            \<lparr>rc_watch_id = wid, rc_watch = Some w, rc_runtime = dict_get (runtimes r) wid,
             has_marker = (dict_get (markers r) wid \<noteq> None),
             has_live_claim = (case dict_get (claims r) wid of
                                 None \<Rightarrow> False | Some held \<Rightarrow> now < ls_expires_at held)\<rparr>)
         (filter (\<lambda>(wid, w). w_status w = ACTIVE) (watches r))"

definition prune_index_member :: "string \<Rightarrow> bool \<Rightarrow> watch_repo \<Rightarrow> watch_repo" where
  "prune_index_member wid from_all r =
     (if from_all then
        r\<lparr>watches := dict_pop wid (watches r),
          runtimes := dict_pop wid (runtimes r),
          fence := dict_pop wid (fence r),
          claims := dict_pop wid (claims r),
          markers := dict_pop wid (markers r),
          terminal_delete_ats := dict_pop wid (terminal_delete_ats r)\<rparr>
      else r)"

definition synthesize_marker ::
  "time \<Rightarrow> string \<Rightarrow> watch_runtime \<Rightarrow> watch_repo \<Rightarrow> bool \<times> watch_repo" where
  "synthesize_marker now wid rt r =
     (case dict_get (watches r) wid of
        None \<Rightarrow> (False, r)
      | Some w \<Rightarrow>
          if is_terminal (w_status w) then (False, r)
          else if (case dict_get (claims r) wid of
                     None \<Rightarrow> False | Some held \<Rightarrow> now < ls_expires_at held) then (False, r)
          else if dict_get (markers r) wid \<noteq> None then (False, r)
          else
            (let r' = set_marker wid rt
                        (r\<lparr>runtimes := dict_set wid rt (runtimes r),
                           fence := (case dict_get (fence r) wid of
                                       None \<Rightarrow> dict_set wid 0 (fence r) | Some _ \<Rightarrow> fence r)\<rparr>)
             in (dict_get (markers r') wid \<noteq> None, r')))"

section \<open>Dispatch leases\<close>

definition due_schedule_markers ::
  "time \<Rightarrow> seconds \<Rightarrow> int \<Rightarrow> watch_repo \<Rightarrow> schedule_marker list" where
  "due_schedule_markers now horizon_seconds limit r =
     (let cutoff = now + timedelta_seconds horizon_seconds
      in py_take limit (sort_key mk_scheduled_for
           (filter (\<lambda>m. mk_scheduled_for m \<le> cutoff) (map snd (markers r)))))"

definition claim_dispatch ::
  "time \<Rightarrow> schedule_marker \<Rightarrow> string \<Rightarrow> seconds \<Rightarrow> watch_repo \<Rightarrow> dispatch_result \<times> watch_repo" where
  "claim_dispatch now m owner lease_seconds r =
     (let wid = mk_watch_id m in
      case (dict_get (watches r) wid, dict_get (markers r) wid) of
        (Some w, Some current) \<Rightarrow>
          if is_terminal (w_status w) \<or> mk_window_id current \<noteq> mk_window_id m
          then (dispatch_refused Dispatch_STALE, r)
          else if (case dict_get (dispatch_leases r) wid of
                     None \<Rightarrow> False
                   | Some held \<Rightarrow> dl_window_id held = mk_window_id m \<and> now < dl_expires_at held)
          then (dispatch_refused Dispatch_BUSY, r)
          else
            (let gen = (case dict_get (dispatch_fence r) wid of None \<Rightarrow> 0 | Some n \<Rightarrow> n) + 1;
                 expires = now + timedelta_seconds lease_seconds
             in (\<lparr>dr_status = Dispatch_CLAIMED,
                  dr_claim = Some \<lparr>dc_watch_id = wid, dc_window_id = mk_window_id m,
                     dc_scheduled_for = mk_scheduled_for current, dc_owner_id = owner,
                     dc_generation = gen, dc_lease_expires_at = expires\<rparr>\<rparr>,
                 r\<lparr>dispatch_fence := dict_set wid gen (dispatch_fence r),
                   dispatch_leases := dict_set wid
                     \<lparr>dl_window_id = mk_window_id m, dl_owner_id = owner, dl_generation = gen,
                      dl_expires_at = expires\<rparr> (dispatch_leases r)\<rparr>))
      | _ \<Rightarrow> (dispatch_refused Dispatch_STALE, r))"

definition mark_dispatched :: "dispatch_claim \<Rightarrow> time \<Rightarrow> watch_repo \<Rightarrow> bool \<times> watch_repo" where
  "mark_dispatched cl redispatch_after r =
     (case dict_get (dispatch_leases r) (dc_watch_id cl) of
        None \<Rightarrow> (False, r)
      | Some held \<Rightarrow>
          if \<not> owns_dispatch cl held then (False, r)
          else (True, r\<lparr>dispatch_leases := dict_set (dc_watch_id cl)
                          (held\<lparr>dl_expires_at := redispatch_after\<rparr>) (dispatch_leases r)\<rparr>))"

definition release_dispatch :: "dispatch_claim \<Rightarrow> watch_repo \<Rightarrow> bool \<times> watch_repo" where
  "release_dispatch cl r =
     (case dict_get (dispatch_leases r) (dc_watch_id cl) of
        None \<Rightarrow> (False, r)
      | Some held \<Rightarrow>
          if owns_dispatch cl held
          then (True, r\<lparr>dispatch_leases := dict_pop (dc_watch_id cl) (dispatch_leases r)\<rparr>)
          else (False, r))"

end
