(* ===== verification/Watch_Cell.thy ===== *)
theory Watch_Cell
  imports Watch_Decisions
begin

text \<open>
  The abstract specification of watch storage. A store is a family of independent cells, one per
  watch id, and the storage contract of \<^verbatim>\<open>class WatchRepository(Protocol)\<close> (\<^verbatim>\<open>watches.py\<close>) is the step
  relation \<open>cell_step\<close> on one cell: what a granted claim, a booking permit, a fenced commit, a
  cancellation, an expiry, a marker repair and a dispatch lease may change, and under which
  condition. A step carries the terminal events it issues. The locale \<open>watch_store\<close> is the interface a
  client of a store relies on; its lemmas are the safety properties every implementation inherits.
\<close>

record cell =
  c_watch :: "watch option"
  c_runtime :: "watch_runtime option"
  c_fence :: "int option"
  c_claim :: "claim_lease option"
  c_dispatch_fence :: "int option"
  c_dispatch_lease :: "dispatch_lease option"
  c_marker :: "schedule_marker option"
  c_delete_at :: "time option"

definition c_active :: "cell \<Rightarrow> bool" where
  "c_active c \<longleftrightarrow> (case c_watch c of None \<Rightarrow> False | Some w \<Rightarrow> w_status w = ACTIVE)"

definition c_terminal :: "cell \<Rightarrow> bool" where
  "c_terminal c \<longleftrightarrow> (case c_watch c of None \<Rightarrow> False | Some w \<Rightarrow> is_terminal (w_status w))"

definition live_claim :: "time \<Rightarrow> cell \<Rightarrow> bool" where
  "live_claim now c \<longleftrightarrow> (case c_claim c of None \<Rightarrow> False | Some l \<Rightarrow> now < ls_expires_at l)"

text \<open>A claim owns the cell: the revision it read is current and its lease is held and unexpired.\<close>

definition c_owned :: "time \<Rightarrow> window_claim \<Rightarrow> cell \<Rightarrow> bool" where
  "c_owned now cl c \<longleftrightarrow>
     c_active c \<and>
     (\<exists>rt l. c_runtime c = Some rt \<and> revision rt = revision (wc_runtime cl) \<and>
        c_claim c = Some l \<and> ls_token l = wc_token cl \<and> ls_owner_id l = wc_owner_id cl \<and>
        now < ls_expires_at l)"

text \<open>The durable marker a sidecar calls for.\<close>

definition marker_for :: "string \<Rightarrow> watch_runtime \<Rightarrow> schedule_marker option" where
  "marker_for wid rt =
     (case (rt_window_id rt, rt_scheduled_for rt) of
        (Some win, Some due) \<Rightarrow>
          Some \<lparr>mk_watch_id = wid, mk_window_id = win, mk_scheduled_for = due\<rparr>
      | _ \<Rightarrow> None)"

text \<open>The sidecar a terminal transition leaves behind.\<close>

definition retired_runtime :: "int \<Rightarrow> time \<Rightarrow> watch_runtime \<Rightarrow> watch_runtime" where
  "retired_runtime rvn deadline rt =
     rt\<lparr>revision := rvn, rt_window_id := None, rt_scheduled_for := None, rt_phase := None,
        cancel_requested := False, rt_terminal_delete_at := Some deadline\<rparr>"

definition next_token :: "int option \<Rightarrow> int" where
  "next_token f = (case f of None \<Rightarrow> 0 | Some n \<Rightarrow> n) + 1"

inductive cell_step :: "time \<Rightarrow> string \<Rightarrow> cell \<Rightarrow> string list \<Rightarrow> cell \<Rightarrow> bool" where
  stutter: "cell_step now k c [] c"
| claim: "\<lbrakk>c_active c; c_runtime c = Some rt; rt_window_id rt = Some win;
     \<not> (\<exists>l. c_claim c = Some l \<and> ls_window_id l = win \<and> now < ls_expires_at l)\<rbrakk> \<Longrightarrow>
     cell_step now k c []
       (c\<lparr>c_fence := Some (next_token (c_fence c)),
          c_claim := Some \<lparr>ls_window_id = recorded, ls_owner_id = own, ls_token = next_token (c_fence c),
                           ls_expires_at = expires\<rparr>\<rparr>)"
| permit: "\<lbrakk>c_owned now cl c; c_runtime c = Some rt; \<not> cancel_requested rt\<rbrakk> \<Longrightarrow>
     cell_step now k c [] (c\<lparr>c_runtime := Some (rt\<lparr>rt_phase := Some BOOKING\<rparr>)\<rparr>)"
| reschedule: "\<lbrakk>c_owned now cl c; c_runtime c = Some rt; watch_valid w; watch_id w = k;
     w_status w = ACTIVE; revision rt' = revision rt + 1; rt_phase rt' = None\<rbrakk> \<Longrightarrow>
     cell_step now k c []
       (c\<lparr>c_watch := Some w, c_runtime := Some rt', c_claim := None,
          c_marker := marker_for k rt'\<rparr>)"
| finish: "\<lbrakk>c_owned now cl c; c_runtime c = Some rt; watch_valid w; watch_id w = k;
     is_terminal (w_status w); revision rt' = revision rt + 1; rt_phase rt' = None;
     rt_terminal_delete_at rt' \<noteq> None; length evs \<le> 1\<rbrakk> \<Longrightarrow>
     cell_step now k c evs
       (c\<lparr>c_watch := Some w, c_runtime := Some rt', c_claim := None, c_marker := None,
          c_dispatch_lease := None, c_delete_at := Some deadline\<rparr>)"
| cancel_pending: "\<lbrakk>c_active c; c_runtime c = Some rt; rt_phase rt = Some BOOKING\<rbrakk> \<Longrightarrow>
     cell_step now k c [] (c\<lparr>c_runtime := Some (rt\<lparr>cancel_requested := True\<rparr>)\<rparr>)"
| retire: "\<lbrakk>c_active c; c_watch c = Some w \<or> watch_valid w \<and> watch_id w = k;
     st \<in> {CANCELLED, EXPIRED}; length evs \<le> 1;
     rt' = map_option (\<lambda>rt. retired_runtime (revision rt + 1) retired_at rt) (c_runtime c)\<rbrakk> \<Longrightarrow>
     cell_step now k c evs
       (c\<lparr>c_watch := Some (w\<lparr>w_status := st, next_check_at := None, updated_at := t\<rparr>),
          c_runtime := rt', c_claim := None, c_marker := None, c_dispatch_lease := None,
          c_delete_at := Some deadline\<rparr>)"
| burn: "cell_step now k c [] (c\<lparr>c_fence := Some (next_token (c_fence c))\<rparr>)"
| release: "cell_step now k c [] (c\<lparr>c_claim := None\<rparr>)"
| synthesize: "\<lbrakk>c_active c; \<not> live_claim now c; c_marker c = None; 0 \<le> revision rt';
     \<And>rt. c_runtime c = Some rt \<Longrightarrow> revision rt \<le> revision rt'\<rbrakk> \<Longrightarrow>
     cell_step now k c []
       (c\<lparr>c_runtime := Some rt',
          c_fence := (case c_fence c of None \<Rightarrow> Some 0 | Some n \<Rightarrow> Some n),
          c_marker := marker_for k rt'\<rparr>)"
| dispatch: "\<lbrakk>c_active c; c_marker c = Some m;
     \<not> (\<exists>l. c_dispatch_lease c = Some l \<and> dl_window_id l = mk_window_id m \<and>
          now < dl_expires_at l)\<rbrakk> \<Longrightarrow>
     cell_step now k c []
       (c\<lparr>c_dispatch_fence := Some (next_token (c_dispatch_fence c)),
          c_dispatch_lease := Some \<lparr>dl_window_id = mk_window_id m, dl_owner_id = own,
             dl_generation = next_token (c_dispatch_fence c), dl_expires_at = expires\<rparr>\<rparr>)"
| deferral: "c_dispatch_lease c = Some l \<Longrightarrow>
     cell_step now k c [] (c\<lparr>c_dispatch_lease := Some (l\<lparr>dl_expires_at := t\<rparr>)\<rparr>)"
| undispatch: "cell_step now k c [] (c\<lparr>c_dispatch_lease := None\<rparr>)"

text \<open>A step into an equal cell.\<close>

lemma cell_step_eq: "cell_step now k c evs c' \<Longrightarrow> c'' = c' \<Longrightarrow> cell_step now k c evs c''"
  by simp

text \<open>Histories of one cell between its creation and its removal.\<close>

inductive cell_run :: "string \<Rightarrow> cell \<Rightarrow> string list \<Rightarrow> cell \<Rightarrow> bool" where
  idle: "cell_run k c [] c"
| more: "cell_step now k c evs c' \<Longrightarrow> cell_run k c' evs' c'' \<Longrightarrow> cell_run k c (evs @ evs') c''"

section \<open>The well-formedness invariant of a cell\<close>

definition cell_ok :: "string \<Rightarrow> cell \<Rightarrow> bool" where
  "cell_ok k c \<longleftrightarrow>
     (case c_watch c of
        None \<Rightarrow> c_runtime c = None \<and> c_marker c = None \<and> c_claim c = None \<and> c_delete_at c = None
      | Some w \<Rightarrow>
          watch_id w = k \<and> watch_valid w \<and>
          (if is_terminal (w_status w)
           then c_claim c = None \<and> c_marker c = None \<and> c_dispatch_lease c = None \<and>
                c_delete_at c \<noteq> None
           else c_delete_at c = None \<and>
                c_marker c = (case c_runtime c of None \<Rightarrow> None | Some rt \<Rightarrow> marker_for k rt))) \<and>
     (case c_claim c of
        None \<Rightarrow> True
      | Some l \<Rightarrow> (case c_fence c of None \<Rightarrow> False | Some f \<Rightarrow> 1 \<le> ls_token l \<and> ls_token l \<le> f)) \<and>
     (case c_fence c of None \<Rightarrow> True | Some f \<Rightarrow> 0 \<le> f)"

text \<open>Cancelling or expiring a valid document leaves a valid document.\<close>

lemma watch_valid_retire:
  "watch_valid w \<Longrightarrow> st \<in> {CANCELLED, EXPIRED} \<Longrightarrow>
   watch_valid (w\<lparr>w_status := st, next_check_at := None, updated_at := t\<rparr>)"
  by (auto simp: watch_valid_def validate_state_def split: option.splits)

lemma c_active_not_terminal: "c_active c \<Longrightarrow> \<not> c_terminal c"
  by (auto simp: c_active_def c_terminal_def split: option.splits)

lemma cell_step_terminal_watch:
  "cell_step now k c evs c' \<Longrightarrow> c_terminal c \<Longrightarrow> c_watch c' = c_watch c \<and> evs = []"
  by (induction rule: cell_step.induct)
     (auto simp: c_owned_def dest: c_active_not_terminal)

theorem cell_step_ok: "cell_step now k c evs c' \<Longrightarrow> cell_ok k c \<Longrightarrow> cell_ok k c'"
proof (induction rule: cell_step.induct)
  case (retire c w st evs rt' deadline now k)
  then show ?case
    by (auto simp: cell_ok_def c_active_def watch_valid_retire split: option.splits)
qed (auto simp: cell_ok_def c_active_def c_owned_def next_token_def marker_for_def is_terminal_def
          split: option.splits if_splits)

lemma cell_run_ok: "cell_run k c evs c' \<Longrightarrow> cell_ok k c \<Longrightarrow> cell_ok k c'"
  by (induction rule: cell_run.induct) (auto dest: cell_step_ok)

section \<open>Terminal states absorb\<close>

lemma cell_step_terminal: "cell_step now k c evs c' \<Longrightarrow> c_terminal c \<Longrightarrow> c_terminal c'"
  using cell_step_terminal_watch [of now k c evs c'] by (simp add: c_terminal_def)

lemma cell_run_terminal:
  "cell_run k c evs c' \<Longrightarrow> c_terminal c \<Longrightarrow> c_watch c' = c_watch c \<and> evs = []"
proof (induction rule: cell_run.induct)
  case (more now k c evs c' evs' c'')
  then show ?case
    using cell_step_terminal_watch [of now k c evs c'] cell_step_terminal [of now k c evs c'] by simp
qed simp

lemma cell_step_events: "cell_step now k c evs c' \<Longrightarrow> evs = [] \<or> length evs \<le> 1 \<and> c_terminal c'"
  by (induction rule: cell_step.induct) (auto simp: c_terminal_def)

text \<open>A watch announces at most one terminal event in its whole life.\<close>

lemma cell_run_events: "cell_run k c evs c' \<Longrightarrow> length evs \<le> 1"
proof (induction rule: cell_run.induct)
  case (more now k c evs c' evs' c'')
  from cell_step_events [OF more.hyps(1)] show ?case
    using more.IH cell_run_terminal [OF more.hyps(2)] by auto
qed simp

section \<open>Revisions and tokens only grow\<close>

definition rank :: "cell \<Rightarrow> int" where
  "rank c = (case c_runtime c of None \<Rightarrow> -1 | Some rt \<Rightarrow> revision rt)"

lemma cell_step_rank: "cell_step now k c evs c' \<Longrightarrow> rank c \<le> rank c'"
  by (induction rule: cell_step.induct)
     (auto simp: rank_def retired_runtime_def split: option.splits)

lemma cell_run_rank: "cell_run k c evs c' \<Longrightarrow> rank c \<le> rank c'"
  by (induction rule: cell_run.induct) (auto dest: cell_step_rank)

lemma c_owned_rank: "c_owned now cl c \<Longrightarrow> rank c = revision (wc_runtime cl)"
  by (auto simp: c_owned_def rank_def)

text \<open>Every lease still held was granted at or after the lease with token \<open>t\<close>.\<close>

definition tokens_from :: "int \<Rightarrow> cell \<Rightarrow> bool" where
  "tokens_from t c \<longleftrightarrow>
     (\<exists>f. c_fence c = Some f \<and> t \<le> f) \<and> (\<forall>l. c_claim c = Some l \<longrightarrow> t \<le> ls_token l)"

lemma cell_step_tokens: "cell_step now k c evs c' \<Longrightarrow> tokens_from t c \<Longrightarrow> tokens_from t c'"
  by (induction rule: cell_step.induct) (auto simp: tokens_from_def next_token_def)

lemma cell_run_tokens: "cell_run k c evs c' \<Longrightarrow> tokens_from t c \<Longrightarrow> tokens_from t c'"
  by (induction rule: cell_run.induct) (auto dest: cell_step_tokens)

lemma tokens_from_owned: "tokens_from t c \<Longrightarrow> c_owned now cl c \<Longrightarrow> t \<le> wc_token cl"
  by (auto simp: tokens_from_def c_owned_def)

section \<open>The interface of a watch store\<close>

text \<open>
  What a client of either store relies on: \<open>cell s k\<close> is the store's view of one watch, \<open>run k\<close> its
  histories in which watch \<open>k\<close> is never removed, \<open>storable\<close> the successors it accepts, and the answers of the coordination operations mean
  what the decisions of \<^verbatim>\<open>watch_decisions.py\<close> say.
\<close>

locale watch_store =
  fixes cell :: "'s \<Rightarrow> string \<Rightarrow> cell"
    and wf :: "'s \<Rightarrow> bool"
    and run :: "string \<Rightarrow> 's \<Rightarrow> string list \<Rightarrow> 's \<Rightarrow> bool"
    and claim :: "time \<Rightarrow> string \<Rightarrow> string \<Rightarrow> string \<Rightarrow> seconds \<Rightarrow> bool \<Rightarrow> 's \<Rightarrow> claim_result \<times> 's"
    and begin_bk :: "time \<Rightarrow> window_claim \<Rightarrow> 's \<Rightarrow> booking_permit \<times> 's"
    and commit :: "time \<Rightarrow> window_claim \<Rightarrow> watch \<Rightarrow> watch_runtime \<Rightarrow> 's \<Rightarrow> commit_result \<times> 's"
    and cancel :: "time \<Rightarrow> string \<Rightarrow> 's \<Rightarrow> transition_result \<times> 's"
    and expire :: "time \<Rightarrow> string \<Rightarrow> int option \<Rightarrow> bool \<Rightarrow> 's \<Rightarrow> transition_result \<times> 's"
    and storable :: "watch \<Rightarrow> watch_runtime \<Rightarrow> bool"
  assumes wf_cell: "wf s \<Longrightarrow> cell_ok k (cell s k)"
    and run_cell: "run k s evs s' \<Longrightarrow> wf s \<Longrightarrow> cell_run k (cell s k) evs (cell s' k)"
    and run_wf: "run k s evs s' \<Longrightarrow> wf s \<Longrightarrow> wf s'"
    and claim_granted:
      "claim now k win own secs ign s = (\<lparr>cl_status = Claim_OWNED, cl_claim = Some cl\<rparr>, s') \<Longrightarrow>
       wf s \<Longrightarrow>
       wf s' \<and> watch_id (wc_watch cl) = k \<and> tokens_from (wc_token cl) (cell s' k) \<and>
       c_fence (cell s' k) = Some (wc_token cl) \<and>
       c_watch (cell s k) = Some (wc_watch cl) \<and> c_runtime (cell s k) = Some (wc_runtime cl)"
    and begin_granted:
      "bp_status (fst (begin_bk now cl s)) = Permit_GRANTED \<Longrightarrow> wf s \<Longrightarrow>
       c_owned now cl (cell s (watch_id (wc_watch cl)))"
    and commit_owned:
      "cm_status (fst (commit now cl w rt s)) = Commit_COMMITTED \<Longrightarrow> wf s \<Longrightarrow>
       c_owned now cl (cell s (watch_id (wc_watch cl)))"
    and commit_advances:
      "cm_status (fst (commit now cl w rt s)) = Commit_COMMITTED \<Longrightarrow> wf s \<Longrightarrow>
       watch_valid w \<Longrightarrow> watch_id w = watch_id (wc_watch cl) \<Longrightarrow> storable w rt \<Longrightarrow>
       wf (snd (commit now cl w rt s)) \<and>
       rank (cell (snd (commit now cl w rt s)) (watch_id (wc_watch cl))) =
         revision (wc_runtime cl) + 1"
    and cancel_applied:
      "tr_status (fst (cancel now k s)) = Transition_APPLIED \<Longrightarrow> wf s \<Longrightarrow>
       wf (snd (cancel now k s)) \<and> c_active (cell s k) \<and> c_terminal (cell (snd (cancel now k s)) k)"
    and cancel_needs_active:
      "tr_status (fst (cancel now k s)) \<in> {Transition_APPLIED, Transition_NOT_ELIGIBLE} \<Longrightarrow> wf s \<Longrightarrow>
       c_active (cell s k)"
    and expire_applied:
      "tr_status (fst (expire now k n force s)) = Transition_APPLIED \<Longrightarrow> wf s \<Longrightarrow>
       wf (snd (expire now k n force s)) \<and> c_active (cell s k) \<and>
       c_terminal (cell (snd (expire now k n force s)) k)"
begin

text \<open>Once a later owner was granted the window, an earlier owner can neither commit nor book.\<close>

lemma stale_owner_fenced:
  assumes wf: "wf s"
    and granted: "claim now k win own secs ign s =
      (\<lparr>cl_status = Claim_OWNED, cl_claim = Some new\<rparr>, s1)"
    and later: "run k s1 evs s2"
    and old: "watch_id (wc_watch old) = k" "wc_token old < wc_token new"
  shows "cm_status (fst (commit t old w rt s2)) \<noteq> Commit_COMMITTED"
    and "bp_status (fst (begin_bk t old s2)) \<noteq> Permit_GRANTED"
proof -
  from claim_granted [OF granted wf] have "wf s1" and "tokens_from (wc_token new) (cell s1 k)" by auto
  with run_cell [OF later] run_wf [OF later] have wf2: "wf s2"
    and from2: "tokens_from (wc_token new) (cell s2 k)" by (auto dest: cell_run_tokens)
  have no: "\<not> c_owned t old (cell s2 k)" using tokens_from_owned [OF from2] old(2) by fastforce
  then show "cm_status (fst (commit t old w rt s2)) \<noteq> Commit_COMMITTED"
    using commit_owned [OF _ wf2] old(1) by blast
  from no show "bp_status (fst (begin_bk t old s2)) \<noteq> Permit_GRANTED"
    using begin_granted [OF _ wf2] old(1) by blast
qed

text \<open>A window's revision is committed at most once, whoever asks.\<close>

lemma commit_at_most_once:
  assumes wf: "wf s"
    and first: "commit now a w rt s = (res, s1)" "cm_status res = Commit_COMMITTED"
    and doc: "watch_valid w" "watch_id w = watch_id (wc_watch a)" "storable w rt"
    and later: "run (watch_id (wc_watch a)) s1 evs s2"
    and again: "watch_id (wc_watch b) = watch_id (wc_watch a)"
      "revision (wc_runtime b) = revision (wc_runtime a)"
  shows "cm_status (fst (commit t b w' rt' s2)) \<noteq> Commit_COMMITTED"
proof
  assume "cm_status (fst (commit t b w' rt' s2)) = Commit_COMMITTED"
  moreover from commit_advances [of now a w rt s] wf first doc
  have "wf s1" and r1: "rank (cell s1 (watch_id (wc_watch a))) = revision (wc_runtime a) + 1" by auto
  with later have "wf s2" by (blast intro: run_wf)
  ultimately have "rank (cell s2 (watch_id (wc_watch a))) = revision (wc_runtime a)"
    using commit_owned [of t b w' rt' s2] again by (auto dest: c_owned_rank)
  moreover have "rank (cell s1 (watch_id (wc_watch a))) \<le> rank (cell s2 (watch_id (wc_watch a)))"
    using run_cell [OF later \<open>wf s1\<close>] by (rule cell_run_rank)
  ultimately show False using r1 by simp
qed

text \<open>After a terminal transition nothing is booked, committed, cancelled or expired any more.\<close>

lemma terminal_is_final:
  assumes wf: "wf s" and fin: "c_terminal (cell s k)" and later: "run k s evs s'"
  shows "c_watch (cell s' k) = c_watch (cell s k)"
    and "evs = []"
    and "watch_id (wc_watch cl) = k \<Longrightarrow>
      cm_status (fst (commit t cl w rt s')) \<noteq> Commit_COMMITTED \<and>
      bp_status (fst (begin_bk t cl s')) \<noteq> Permit_GRANTED"
    and "tr_status (fst (cancel t k s')) \<noteq> Transition_APPLIED"
    and "tr_status (fst (expire t k n force s')) \<noteq> Transition_APPLIED"
proof -
  note wf' = run_wf [OF later wf]
  from cell_run_terminal [OF run_cell [OF later wf] fin]
  show same: "c_watch (cell s' k) = c_watch (cell s k)" and "evs = []" by auto
  with fin have no: "\<not> c_active (cell s' k)" by (auto simp: c_terminal_def c_active_def split: option.splits)
  then have nown: "\<not> c_owned t cl (cell s' k)" by (simp add: c_owned_def)
  show "watch_id (wc_watch cl) = k \<Longrightarrow>
      cm_status (fst (commit t cl w rt s')) \<noteq> Commit_COMMITTED \<and>
      bp_status (fst (begin_bk t cl s')) \<noteq> Permit_GRANTED"
    using nown commit_owned [OF _ wf', of t cl w rt] begin_granted [OF _ wf', of t cl] by blast
  show "tr_status (fst (cancel t k s')) \<noteq> Transition_APPLIED"
    using cancel_applied [of t k s'] no wf' by blast
  show "tr_status (fst (expire t k n force s')) \<noteq> Transition_APPLIED"
    using expire_applied [of t k n force s'] no wf' by blast
qed

lemma one_terminal_event: "wf s \<Longrightarrow> run k s evs s' \<Longrightarrow> length evs \<le> 1"
  by (blast dest: run_cell cell_run_events)

end

end
