(* ===== verification/Watch_Protocol.thy ===== *)
theory Watch_Protocol
  imports Watch_Repository Watch_Cell
begin

text \<open>
  The in-memory store implements the contract of \<open>Watch_Cell\<close>: every method refines one step of the
  cell of the watch it names and leaves every other cell alone. \<open>repo_step\<close> collects the coordinated
  methods (the pre-sidecar document writes of \<^verbatim>\<open>save\<close> are outside the protocol), \<open>repo_run k\<close> the
  histories that never remove watch \<open>k\<close>, under arbitrary interleaving of arbitrary callers. The
  interpretation \<open>mem\<close> of the locale \<open>watch_store\<close> discharges the contract for the code's model.
\<close>

section \<open>The store as a family of cells\<close>

definition cell_of :: "watch_repo \<Rightarrow> string \<Rightarrow> cell" where
  "cell_of r k =
     \<lparr>c_watch = dict_get (watches r) k, c_runtime = dict_get (runtimes r) k,
      c_fence = dict_get (fence r) k, c_claim = dict_get (claims r) k,
      c_dispatch_fence = dict_get (dispatch_fence r) k,
      c_dispatch_lease = dict_get (dispatch_leases r) k,
      c_marker = dict_get (markers r) k, c_delete_at = dict_get (terminal_delete_ats r) k\<rparr>"

definition dicts_ok :: "watch_repo \<Rightarrow> bool" where
  "dicts_ok r \<longleftrightarrow>
     dict_ok (watches r) \<and> dict_ok (runtimes r) \<and> dict_ok (fence r) \<and> dict_ok (claims r) \<and>
     dict_ok (dispatch_fence r) \<and> dict_ok (dispatch_leases r) \<and> dict_ok (markers r) \<and>
     dict_ok (terminal_delete_ats r)"

definition repo_ok :: "watch_repo \<Rightarrow> bool" where
  "repo_ok r \<longleftrightarrow> dicts_ok r \<and> (\<forall>k. cell_ok k (cell_of r k))"

lemma cell_of_simps [simp]:
  "c_watch (cell_of r k) = dict_get (watches r) k"
  "c_runtime (cell_of r k) = dict_get (runtimes r) k"
  "c_fence (cell_of r k) = dict_get (fence r) k"
  "c_claim (cell_of r k) = dict_get (claims r) k"
  "c_dispatch_fence (cell_of r k) = dict_get (dispatch_fence r) k"
  "c_dispatch_lease (cell_of r k) = dict_get (dispatch_leases r) k"
  "c_marker (cell_of r k) = dict_get (markers r) k"
  "c_delete_at (cell_of r k) = dict_get (terminal_delete_ats r) k"
  by (simp_all add: cell_of_def)

lemma set_marker_simps [simp, frame_simps]:
  "watches (set_marker wid rt r) = watches r"
  "runtimes (set_marker wid rt r) = runtimes r"
  "fence (set_marker wid rt r) = fence r"
  "claims (set_marker wid rt r) = claims r"
  "dispatch_fence (set_marker wid rt r) = dispatch_fence r"
  "dispatch_leases (set_marker wid rt r) = dispatch_leases r"
  "terminal_delete_ats (set_marker wid rt r) = terminal_delete_ats r"
  "events (set_marker wid rt r) = events r"
  "retention (set_marker wid rt r) = retention r"
  "dict_get (markers (set_marker wid rt r)) k =
     (if k = wid then marker_for wid rt else dict_get (markers r) k)"
  "dict_ok (markers r) \<Longrightarrow> dict_ok (markers (set_marker wid rt r))"
  by (auto simp: set_marker_def marker_for_def split: option.splits)

lemma issue_event_simps [simp, frame_simps]:
  "watches (snd (issue_event sha wid st n r)) = watches r"
  "runtimes (snd (issue_event sha wid st n r)) = runtimes r"
  "fence (snd (issue_event sha wid st n r)) = fence r"
  "claims (snd (issue_event sha wid st n r)) = claims r"
  "dispatch_fence (snd (issue_event sha wid st n r)) = dispatch_fence r"
  "dispatch_leases (snd (issue_event sha wid st n r)) = dispatch_leases r"
  "markers (snd (issue_event sha wid st n r)) = markers r"
  "terminal_delete_ats (snd (issue_event sha wid st n r)) = terminal_delete_ats r"
  "retention (snd (issue_event sha wid st n r)) = retention r"
  by (simp_all add: issue_event_def Let_def)

lemma cell_of_issue_event [simp]: "cell_of (snd (issue_event sha wid st n r)) k = cell_of r k"
  by (simp add: cell_of_def)

lemma dicts_ok_issue_event [simp]: "dicts_ok (snd (issue_event sha wid st n r)) = dicts_ok r"
  by (simp add: dicts_ok_def)

lemma cell_of_apply_terminal:
  "cell_of (snd (apply_terminal wid tw rt now r)) k =
     (if k = wid then
        (cell_of r wid)\<lparr>c_watch := Some tw,
          c_runtime := (case rt of None \<Rightarrow> dict_get (runtimes r) wid
                        | Some x \<Rightarrow> Some (retired_runtime (revision x + 1) (now + retention r) x)),
          c_claim := None, c_marker := None, c_dispatch_lease := None,
          c_delete_at := Some (now + retention r)\<rparr>
      else cell_of r k)"
  by (auto simp: apply_terminal_def Let_def cell_of_def retired_runtime_def split: option.splits)

lemma dicts_ok_apply_terminal [simp]:
  "dicts_ok r \<Longrightarrow> dicts_ok (snd (apply_terminal wid tw rt now r))"
  by (auto simp: dicts_ok_def apply_terminal_def Let_def split: option.splits)

lemma c_active_cell_of:
  "c_active (cell_of r k) \<longleftrightarrow> (\<exists>w. dict_get (watches r) k = Some w \<and> w_status w = ACTIVE)"
  by (auto simp: c_active_def split: option.splits)

section \<open>Every method refines a cell step\<close>

text \<open>
  How a method can answer, as elimination rules: either it refuses and leaves the store alone, or
  every guard of the code holds and the effect is the stated one.
\<close>

abbreviation claim_busy :: "time \<Rightarrow> string \<Rightarrow> claim_lease option \<Rightarrow> bool" where
  "claim_busy now win h \<equiv>
     (case h of None \<Rightarrow> False | Some held \<Rightarrow> ls_window_id held = win \<and> now < ls_expires_at held)"

abbreviation not_due :: "time \<Rightarrow> watch_runtime \<Rightarrow> bool" where
  "not_due now rt \<equiv> (case rt_scheduled_for rt of None \<Rightarrow> False | Some t \<Rightarrow> now < t)"

lemma claim_window_cases:
  obtains (refused) st where "claim_window now wid win own secs ign r = (claim_refused st, r)"
      "st \<noteq> Claim_OWNED"
  | (granted) w rt where "dict_get (watches r) wid = Some w" "dict_get (runtimes r) wid = Some rt"
      "w_status w = ACTIVE" "rt_window_id rt = Some win" "ign \<or> \<not> not_due now rt"
      "\<not> claim_busy now win (dict_get (claims r) wid)"
      "claim_window now wid win own secs ign r =
         (\<lparr>cl_status = Claim_OWNED,
           cl_claim = Some \<lparr>wc_watch = w, wc_runtime = rt, wc_owner_id = own, wc_window_id = win,
              wc_token = next_token (dict_get (fence r) wid),
              wc_lease_expires_at = now + timedelta_seconds secs\<rparr>\<rparr>,
          r\<lparr>fence := dict_set wid (next_token (dict_get (fence r) wid)) (fence r),
            claims := dict_set wid
              \<lparr>ls_window_id = win, ls_owner_id = own, ls_token = next_token (dict_get (fence r) wid),
               ls_expires_at = now + timedelta_seconds secs\<rparr> (claims r)\<rparr>)"
proof (cases "dict_get (watches r) wid")
  case None
  then show thesis by (intro refused [of Claim_UNKNOWN]) (simp_all add: claim_window_def)
next
  case w: (Some w)
  show thesis
  proof (cases "dict_get (runtimes r) wid")
    case None
    then show thesis by (intro refused [of Claim_UNKNOWN]) (simp_all add: claim_window_def w)
  next
    case rt: (Some rt)
    consider (term_) "is_terminal (w_status w)"
      | (stale) "\<not> is_terminal (w_status w)" "rt_window_id rt \<noteq> Some win"
      | (early) "\<not> is_terminal (w_status w)" "rt_window_id rt = Some win" "\<not> ign" "not_due now rt"
      | (busy) "\<not> is_terminal (w_status w)" "rt_window_id rt = Some win" "ign \<or> \<not> not_due now rt"
          "claim_busy now win (dict_get (claims r) wid)"
      | (free) "\<not> is_terminal (w_status w)" "rt_window_id rt = Some win" "ign \<or> \<not> not_due now rt"
          "\<not> claim_busy now win (dict_get (claims r) wid)"
      by blast
    then show thesis
    proof cases
      case term_
      with w rt show thesis by (intro refused [of Claim_TERMINAL]) (simp_all add: claim_window_def)
    next
      case stale
      with w rt show thesis by (intro refused [of Claim_STALE]) (simp_all add: claim_window_def)
    next
      case early
      with w rt show thesis by (intro refused [of Claim_EARLY]) (simp_all add: claim_window_def)
    next
      case busy
      with w rt show thesis by (intro refused [of Claim_BUSY]) (auto simp: claim_window_def)
    next
      case free
      with w rt show thesis
        by (intro granted [OF w rt]) (auto simp: claim_window_def Let_def next_token_def not_terminal_iff)
    qed
  qed
qed

lemma claim_window_cell:
  "cell_step now k (cell_of r k) [] (cell_of (snd (claim_window now wid win own secs ign r)) k)"
proof (cases rule: claim_window_cases [of now wid win own secs ign r])
  case (refused st)
  then show ?thesis by (simp add: cell_step.stutter)
next
  case (granted w rt)
  show ?thesis
  proof (cases "k = wid")
    case True
    with granted(1,3) have "c_active (cell_of r k)" by (simp add: c_active_cell_of)
    from cell_step.claim [OF this, of rt win now k win own "now + timedelta_seconds secs"]
    show ?thesis
      by (rule cell_step_eq) (use True granted in \<open>auto simp: cell_of_def split: option.splits\<close>)
  next
    case False
    then have "cell_of (snd (claim_window now wid win own secs ign r)) k = cell_of r k"
      by (simp add: granted(7) cell_of_def)
    then show ?thesis by (simp add: cell_step.stutter)
  qed
qed

lemma c_owned_cell_of:
  "c_owned now cl (cell_of r (watch_id (wc_watch cl))) \<longleftrightarrow>
     (\<exists>w rt. dict_get (watches r) (watch_id (wc_watch cl)) = Some w \<and> w_status w = ACTIVE \<and>
        dict_get (runtimes r) (watch_id (wc_watch cl)) = Some rt \<and> owns now cl rt r)"
  by (auto simp: c_owned_def c_active_cell_of owns_def split: option.splits)

lemma begin_booking_cases:
  obtains (refused) st where "begin_booking now cl r = (permit_refused st, r)" "st \<noteq> Permit_GRANTED"
  | (granted) rt where "c_owned now cl (cell_of r (watch_id (wc_watch cl)))"
      "dict_get (runtimes r) (watch_id (wc_watch cl)) = Some rt" "\<not> cancel_requested rt"
      "begin_booking now cl r =
        (\<lparr>bp_status = Permit_GRANTED,
          permit_id = Some (watch_id (wc_watch cl) @ '':'' @ show_int (wc_token cl))\<rparr>,
         r\<lparr>runtimes := dict_set (watch_id (wc_watch cl)) (rt\<lparr>rt_phase := Some BOOKING\<rparr>) (runtimes r)\<rparr>)"
proof (cases "dict_get (watches r) (watch_id (wc_watch cl))")
  case None
  then show thesis by (intro refused [of Permit_FENCED]) (simp_all add: begin_booking_def)
next
  case w: (Some w)
  show thesis
  proof (cases "dict_get (runtimes r) (watch_id (wc_watch cl))")
    case None
    then show thesis by (intro refused [of Permit_FENCED]) (simp_all add: begin_booking_def w)
  next
    case rt: (Some rt)
    consider (no) "is_terminal (w_status w) \<or> \<not> owns now cl rt r"
      | (cancelled) "\<not> is_terminal (w_status w)" "owns now cl rt r" "cancel_requested rt"
      | (ok) "\<not> is_terminal (w_status w)" "owns now cl rt r" "\<not> cancel_requested rt"
      by blast
    then show thesis
    proof cases
      case no
      with w rt show thesis by (intro refused [of Permit_FENCED]) (auto simp: begin_booking_def Let_def)
    next
      case cancelled
      with w rt show thesis by (intro refused [of Permit_CANCELLED]) (auto simp: begin_booking_def Let_def)
    next
      case ok
      with w rt have "c_owned now cl (cell_of r (watch_id (wc_watch cl)))"
        by (auto simp: c_owned_cell_of not_terminal_iff)
      from granted [OF this rt ok(3)] ok w rt show thesis by (simp add: begin_booking_def Let_def)
    qed
  qed
qed

lemma begin_booking_cell:
  "cell_step now k (cell_of r k) [] (cell_of (snd (begin_booking now cl r)) k)"
proof (cases rule: begin_booking_cases [of now cl r])
  case (refused st)
  then show ?thesis by (simp add: cell_step.stutter)
next
  case (granted rt)
  show ?thesis
  proof (cases "k = watch_id (wc_watch cl)")
    case True
    from cell_step.permit [OF granted(1), of rt k] granted(2,3) show ?thesis
      unfolding True by (auto elim!: cell_step_eq simp: granted(4) cell_of_def)
  next
    case False
    then have "cell_of (snd (begin_booking now cl r)) k = cell_of r k"
      by (simp add: granted(4) cell_of_def)
    then show ?thesis by (simp add: cell_step.stutter)
  qed
qed

definition stored_runtime :: "time \<Rightarrow> watch \<Rightarrow> watch_runtime \<Rightarrow> watch_runtime \<Rightarrow> watch_repo \<Rightarrow> watch_runtime" where
  "stored_runtime now new_watch new_runtime rt r =
     (let x = new_runtime\<lparr>revision := revision rt + 1, rt_phase := None\<rparr>
      in if is_terminal (w_status new_watch)
         then x\<lparr>rt_terminal_delete_at := Some (now + retention r)\<rparr> else x)"

lemma stored_runtime_simps [simp]:
  "revision (stored_runtime now nw nrt rt r) = revision rt + 1"
  "rt_phase (stored_runtime now nw nrt rt r) = None"
  "is_terminal (w_status nw) \<Longrightarrow>
     rt_terminal_delete_at (stored_runtime now nw nrt rt r) = Some (now + retention r)"
  by (simp_all add: stored_runtime_def Let_def)

lemma commit_window_cases:
  fixes cl :: window_claim
  defines "wid \<equiv> watch_id (wc_watch cl)"
  obtains (refused) st w where "commit_window sha now cl nw nrt r = (commit_refused st w, r)"
      "st \<noteq> Commit_COMMITTED"
  | (committed) rt where "c_owned now cl (cell_of r wid)" "dict_get (runtimes r) wid = Some rt"
      "fst (commit_window sha now cl nw nrt r) =
         \<lparr>cm_status = Commit_COMMITTED, cm_watch = Some nw,
          cm_event_id = (if terminal_event_status (w_status nw)
             then Some (terminal_event_id sha wid (w_status nw) (revision rt + 1)) else None)\<rparr>"
      "dicts_ok r \<Longrightarrow> dicts_ok (snd (commit_window sha now cl nw nrt r))"
      "\<And>k. cell_of (snd (commit_window sha now cl nw nrt r)) k =
         (if k = wid then
            (cell_of r wid)\<lparr>c_watch := Some nw, c_runtime := Some (stored_runtime now nw nrt rt r),
               c_claim := None,
               c_marker := (if is_terminal (w_status nw) then None
                            else marker_for wid (stored_runtime now nw nrt rt r)),
               c_dispatch_lease := (if is_terminal (w_status nw) then None
                                    else dict_get (dispatch_leases r) wid),
               c_delete_at := (if is_terminal (w_status nw) then Some (now + retention r)
                               else dict_get (terminal_delete_ats r) wid)\<rparr>
          else cell_of r k)"
proof (cases "dict_get (watches r) wid")
  case None
  then show thesis
    by (intro refused [of Commit_UNKNOWN None]) (simp_all add: commit_window_def Let_def wid_def)
next
  case w: (Some w)
  show thesis
  proof (cases "dict_get (runtimes r) wid")
    case None
    with w show thesis
      by (intro refused [of Commit_UNKNOWN None]) (simp_all add: commit_window_def Let_def wid_def)
  next
    case rt: (Some rt)
    consider (term_) "is_terminal (w_status w)"
      | (fenced) "\<not> is_terminal (w_status w)" "\<not> owns now cl rt r"
      | (ok) "\<not> is_terminal (w_status w)" "owns now cl rt r"
      by blast
    then show thesis
    proof cases
      case term_
      with w rt show thesis
        by (intro refused [of Commit_TERMINAL "Some w"])
           (simp_all add: commit_window_def Let_def wid_def)
    next
      case fenced
      with w rt show thesis
        by (intro refused [of Commit_FENCED None]) (simp_all add: commit_window_def Let_def wid_def)
    next
      case ok
      have own: "c_owned now cl (cell_of r wid)"
        using w rt ok unfolding wid_def by (auto simp: c_owned_cell_of not_terminal_iff)
      note unfold = commit_window_def Let_def w [unfolded wid_def] rt [unfolded wid_def] ok
      show thesis
      proof (rule committed [OF own rt])
        show "fst (commit_window sha now cl nw nrt r) =
          \<lparr>cm_status = Commit_COMMITTED, cm_watch = Some nw,
           cm_event_id = (if terminal_event_status (w_status nw)
             then Some (terminal_event_id sha wid (w_status nw) (revision rt + 1)) else None)\<rparr>"
          by (cases "w_status nw")
             (simp_all add: unfold issue_event_def wid_def terminal_event_status_def)
        show "dicts_ok (snd (commit_window sha now cl nw nrt r))" if "dicts_ok r"
          using that by (simp add: unfold issue_event_def dicts_ok_def)
        show "cell_of (snd (commit_window sha now cl nw nrt r)) k =
         (if k = wid then
            (cell_of r wid)\<lparr>c_watch := Some nw, c_runtime := Some (stored_runtime now nw nrt rt r),
               c_claim := None,
               c_marker := (if is_terminal (w_status nw) then None
                            else marker_for wid (stored_runtime now nw nrt rt r)),
               c_dispatch_lease := (if is_terminal (w_status nw) then None
                                    else dict_get (dispatch_leases r) wid),
               c_delete_at := (if is_terminal (w_status nw) then Some (now + retention r)
                               else dict_get (terminal_delete_ats r) wid)\<rparr>
          else cell_of r k)" for k
          by (simp add: unfold issue_event_def cell_of_def stored_runtime_def wid_def)
      qed
    qed
  qed
qed

lemma commit_window_cell:
  assumes "watch_valid nw" and "watch_id nw = watch_id (wc_watch cl)"
  shows "cell_step now k (cell_of r k)
           (if k = watch_id (wc_watch cl)
            then opt_list (cm_event_id (fst (commit_window sha now cl nw nrt r))) else [])
           (cell_of (snd (commit_window sha now cl nw nrt r)) k)"
proof (cases rule: commit_window_cases [of sha now cl nw nrt r])
  case (refused st w)
  then show ?thesis by (simp add: cell_step.stutter)
next
  case (committed rt)
  show ?thesis
  proof (cases "k = watch_id (wc_watch cl)")
    case False
    with committed(5) [of k] show ?thesis by (simp add: cell_step.stutter)
  next
    case k: True
    show ?thesis
    proof (cases "is_terminal (w_status nw)")
      case True
      show ?thesis
        unfolding k
        by (rule cell_step_eq,
            rule cell_step.finish [OF committed(1), where rt = rt and w = nw
              and rt' = "stored_runtime now nw nrt rt r" and deadline = "now + retention r"])
           (use True assms committed(2,3,5) in \<open>auto simp: length_opt_list\<close>)
    next
      case False
      then have none: "cm_event_id (fst (commit_window sha now cl nw nrt r)) = None"
        using committed(3) by (auto simp: terminal_event_status_def is_terminal_def)
      show ?thesis
        unfolding k none
        by (simp, rule cell_step_eq,
            rule cell_step.reschedule [OF committed(1), of rt nw _ "stored_runtime now nw nrt rt r"])
           (use False assms committed(2,5) in \<open>auto simp: not_terminal_iff cell_of_def\<close>)
    qed
  qed
qed

lemma cancel_cases:
  obtains (refused) st w where "cancel_if_active now wid r = (transition_refused st w, r)"
      "st \<notin> {Transition_APPLIED, Transition_NOT_ELIGIBLE}"
  | (pending) w rt where "dict_get (watches r) wid = Some w" "w_status w = ACTIVE"
      "dict_get (runtimes r) wid = Some rt" "rt_phase rt = Some BOOKING"
      "cancel_if_active now wid r =
         (transition_refused Transition_NOT_ELIGIBLE (Some w),
          r\<lparr>runtimes := dict_set wid (rt\<lparr>cancel_requested := True\<rparr>) (runtimes r)\<rparr>)"
  | (applied) w where "dict_get (watches r) wid = Some w" "w_status w = ACTIVE"
      "\<And>rt. dict_get (runtimes r) wid = Some rt \<Longrightarrow> rt_phase rt \<noteq> Some BOOKING"
      "tr_status (fst (cancel_if_active now wid r)) = Transition_APPLIED"
      "tr_event_id (fst (cancel_if_active now wid r)) = None"
      "snd (cancel_if_active now wid r) =
         snd (apply_terminal wid (w\<lparr>w_status := CANCELLED, next_check_at := None, updated_at := now\<rparr>)
                (dict_get (runtimes r) wid) now r)"
proof (cases "dict_get (watches r) wid")
  case None
  then show thesis
    by (intro refused [of Transition_UNKNOWN None]) (simp_all add: cancel_if_active_def)
next
  case w: (Some w)
  consider (term_) "is_terminal (w_status w)"
    | (pend) rt where "w_status w = ACTIVE" "dict_get (runtimes r) wid = Some rt"
        "rt_phase rt = Some BOOKING"
    | (go) "w_status w = ACTIVE"
        "\<And>rt. dict_get (runtimes r) wid = Some rt \<Longrightarrow> rt_phase rt \<noteq> Some BOOKING"
    using not_terminal_iff by blast
  then show thesis
  proof cases
    case term_
    with w show thesis
      by (intro refused [of Transition_NOOP "Some w"]) (simp_all add: cancel_if_active_def)
  next
    case (pend rt)
    with w show thesis by (intro pending [OF w, of rt]) (simp_all add: cancel_if_active_def Let_def)
  next
    case go
    show thesis
      by (rule applied [OF w go])
         (use go w in \<open>simp_all add: cancel_if_active_def Let_def split: option.split prod.split\<close>)
  qed
qed

lemma expire_cases:
  obtains (refused) st w where "expire_if_eligible sha now wid n force r = (transition_refused st w, r)"
      "st \<noteq> Transition_APPLIED"
  | (applied) w where "dict_get (watches r) wid = Some w" "w_status w = ACTIVE"
      "force \<or> is_exhausted w now"
      "tr_status (fst (expire_if_eligible sha now wid n force r)) = Transition_APPLIED"
      "dicts_ok r \<Longrightarrow> dicts_ok (snd (expire_if_eligible sha now wid n force r))"
      "\<And>k. cell_of (snd (expire_if_eligible sha now wid n force r)) k =
         cell_of (snd (apply_terminal wid
           (w\<lparr>w_status := EXPIRED, next_check_at := None, updated_at := now\<rparr>)
           (dict_get (runtimes r) wid) now r)) k"
proof (cases "dict_get (watches r) wid")
  case None
  then show thesis
    by (intro refused [of Transition_UNKNOWN None]) (simp_all add: expire_if_eligible_def)
next
  case w: (Some w)
  let ?fenced = "case (n, dict_get (runtimes r) wid) of
                   (Some n, Some x) \<Rightarrow> revision x \<noteq> n | _ \<Rightarrow> False"
  consider (term_) "is_terminal (w_status w)"
    | (fenced) "\<not> is_terminal (w_status w)" ?fenced
    | (early) "\<not> is_terminal (w_status w)" "\<not> ?fenced" "\<not> (force \<or> is_exhausted w now)"
    | (go) "\<not> is_terminal (w_status w)" "\<not> ?fenced" "force \<or> is_exhausted w now"
    by blast
  then show thesis
  proof cases
    case term_
    with w show thesis
      by (intro refused [of Transition_NOOP "Some w"]) (simp_all add: expire_if_eligible_def)
  next
    case fenced
    with w show thesis
      by (intro refused [of Transition_FENCED None]) (simp_all add: expire_if_eligible_def Let_def)
  next
    case early
    with w show thesis
      by (intro refused [of Transition_NOT_ELIGIBLE "Some w"])
         (simp_all add: expire_if_eligible_def Let_def)
  next
    case go
    let ?w = "w\<lparr>w_status := EXPIRED, next_check_at := None, updated_at := now\<rparr>"
    let ?t = "apply_terminal wid ?w (dict_get (runtimes r) wid) now r"
    have st: "tr_status (fst (expire_if_eligible sha now wid n force r)) = Transition_APPLIED"
      and r': "snd (expire_if_eligible sha now wid n force r) =
        snd (issue_event sha wid EXPIRED (fst ?t) (snd ?t))"
      using go w by (auto simp: expire_if_eligible_def Let_def split: prod.split)
    show thesis
      by (rule applied [OF w _ go(3) st]) (use go(1) in \<open>simp_all add: not_terminal_iff r'\<close>)
  qed
qed

text \<open>The two terminal transitions outside a claim share one step of the cell.\<close>

lemma apply_terminal_step:
  assumes "dict_get (watches r) wid = Some w" "w_status w = ACTIVE" "st \<in> {CANCELLED, EXPIRED}"
    and "length evs \<le> 1"
  shows "cell_step now k (cell_of r k) (if k = wid then evs else [])
     (cell_of (snd (apply_terminal wid (w\<lparr>w_status := st, next_check_at := None, updated_at := now\<rparr>)
        (dict_get (runtimes r) wid) now r)) k)"
proof (cases "k = wid")
  case True
  have act: "c_active (cell_of r wid)" using assms by (simp add: c_active_cell_of)
  show ?thesis
    unfolding True
    by (simp only: refl if_True, rule cell_step_eq,
        rule cell_step.retire [OF act, where w = w and st = st and evs = evs
          and retired_at = "now + retention r" and deadline = "now + retention r"])
       (use assms in \<open>auto simp: cell_of_apply_terminal split: option.split\<close>)
next
  case False
  then show ?thesis by (simp add: cell_of_apply_terminal cell_step.stutter)
qed

lemma cancel_cell:
  "cell_step now k (cell_of r k) [] (cell_of (snd (cancel_if_active now wid r)) k)"
proof (cases rule: cancel_cases [of now wid r])
  case (refused st w)
  then show ?thesis by (simp add: cell_step.stutter)
next
  case (pending w rt)
  show ?thesis
  proof (cases "k = wid")
    case True
    show ?thesis
      unfolding True
      by (rule cell_step_eq, rule cell_step.cancel_pending [of _ rt])
         (use pending in \<open>auto simp: c_active_def cell_of_def\<close>)
  next
    case False
    then have "cell_of (snd (cancel_if_active now wid r)) k = cell_of r k"
      by (simp add: pending(5) cell_of_def)
    then show ?thesis by (simp add: cell_step.stutter)
  qed
next
  case (applied w)
  then show ?thesis
    using apply_terminal_step [of r wid w CANCELLED "[]" now k] by simp
qed

lemma expire_cell:
  "cell_step now k (cell_of r k)
     (if k = wid then opt_list (tr_event_id (fst (expire_if_eligible sha now wid n force r))) else [])
     (cell_of (snd (expire_if_eligible sha now wid n force r)) k)"
proof (cases rule: expire_cases [of sha now wid n force r])
  case (refused st w)
  then show ?thesis by (simp add: cell_step.stutter)
next
  case (applied w)
  then show ?thesis
    using apply_terminal_step [of r wid w EXPIRED _ now k] by (simp add: length_opt_list)
qed

lemma release_claim_cell:
  "cell_step now k (cell_of r k) [] (cell_of (snd (release_claim cl r)) k)"
proof (cases "fst (release_claim cl r) \<and> k = watch_id (wc_watch cl)")
  case True
  then have "cell_of (snd (release_claim cl r)) k = (cell_of r k)\<lparr>c_claim := None\<rparr>"
    by (auto simp: release_claim_def Let_def cell_of_def split: option.splits if_splits)
  then show ?thesis by (simp add: cell_step.release)
next
  case False
  then have "cell_of (snd (release_claim cl r)) k = cell_of r k"
    by (auto simp: release_claim_def Let_def cell_of_def split: option.splits if_splits)
  then show ?thesis by (simp add: cell_step.stutter)
qed

lemma synthesize_cases:
  obtains (refused) "synthesize_marker now wid rt r = (False, r)"
  | (written) w where "dict_get (watches r) wid = Some w" "w_status w = ACTIVE"
      "\<not> live_claim now (cell_of r wid)" "dict_get (markers r) wid = None"
      "snd (synthesize_marker now wid rt r) =
         set_marker wid rt
           (r\<lparr>runtimes := dict_set wid rt (runtimes r),
              fence := (case dict_get (fence r) wid of
                          None \<Rightarrow> dict_set wid 0 (fence r) | Some _ \<Rightarrow> fence r)\<rparr>)"
proof (cases "dict_get (watches r) wid")
  case None
  then show thesis by (intro refused) (simp add: synthesize_marker_def)
next
  case w: (Some w)
  consider (no) "is_terminal (w_status w) \<or> live_claim now (cell_of r wid) \<or>
      dict_get (markers r) wid \<noteq> None"
    | (go) "w_status w = ACTIVE" "\<not> live_claim now (cell_of r wid)" "dict_get (markers r) wid = None"
    using not_terminal_iff by blast
  then show thesis
  proof cases
    case no
    with w show thesis
      by (intro refused) (auto simp: synthesize_marker_def live_claim_def split: option.splits)
  next
    case go
    with w show thesis
      by (intro written [OF w go]) (auto simp: synthesize_marker_def live_claim_def Let_def)
  qed
qed

lemma synthesize_cell:
  assumes "0 \<le> revision rt" and "\<And>x. dict_get (runtimes r) wid = Some x \<Longrightarrow> revision x \<le> revision rt"
  shows "cell_step now k (cell_of r k) [] (cell_of (snd (synthesize_marker now wid rt r)) k)"
proof (cases rule: synthesize_cases [of now wid rt r])
  case refused
  then show ?thesis by (simp add: cell_step.stutter)
next
  case (written w)
  show ?thesis
  proof (cases "k = wid")
    case True
    show ?thesis
      unfolding True
      by (rule cell_step_eq, rule cell_step.synthesize [OF _ written(3), of rt])
         (use written assms in \<open>auto simp: c_active_def cell_of_def split: option.split\<close>)
  next
    case False
    then have "cell_of (snd (synthesize_marker now wid rt r)) k = cell_of r k"
      by (auto simp: written(5) cell_of_def split: option.split)
    then show ?thesis by (simp add: cell_step.stutter)
  qed
qed

abbreviation dispatch_busy :: "time \<Rightarrow> string \<Rightarrow> dispatch_lease option \<Rightarrow> bool" where
  "dispatch_busy now win h \<equiv>
     (case h of None \<Rightarrow> False | Some held \<Rightarrow> dl_window_id held = win \<and> now < dl_expires_at held)"

lemma claim_dispatch_cases:
  fixes m :: schedule_marker
  defines "wid \<equiv> mk_watch_id m"
  obtains (refused) st where "claim_dispatch now m own secs r = (dispatch_refused st, r)"
      "st \<noteq> Dispatch_CLAIMED"
  | (granted) w cur where "dict_get (watches r) wid = Some w" "w_status w = ACTIVE"
      "dict_get (markers r) wid = Some cur" "mk_window_id cur = mk_window_id m"
      "\<not> dispatch_busy now (mk_window_id m) (dict_get (dispatch_leases r) wid)"
      "claim_dispatch now m own secs r =
         (\<lparr>dr_status = Dispatch_CLAIMED,
           dr_claim = Some \<lparr>dc_watch_id = wid, dc_window_id = mk_window_id m,
              dc_scheduled_for = mk_scheduled_for cur, dc_owner_id = own,
              dc_generation = next_token (dict_get (dispatch_fence r) wid),
              dc_lease_expires_at = now + timedelta_seconds secs\<rparr>\<rparr>,
          r\<lparr>dispatch_fence := dict_set wid (next_token (dict_get (dispatch_fence r) wid))
               (dispatch_fence r),
            dispatch_leases := dict_set wid
              \<lparr>dl_window_id = mk_window_id m, dl_owner_id = own,
               dl_generation = next_token (dict_get (dispatch_fence r) wid),
               dl_expires_at = now + timedelta_seconds secs\<rparr> (dispatch_leases r)\<rparr>)"
proof (cases "dict_get (watches r) wid")
  case None
  then show thesis
    by (intro refused [of Dispatch_STALE]) (simp_all add: claim_dispatch_def wid_def Let_def)
next
  case w: (Some w)
  show thesis
  proof (cases "dict_get (markers r) wid")
    case None
    with w show thesis
      by (intro refused [of Dispatch_STALE]) (simp_all add: claim_dispatch_def wid_def Let_def)
  next
    case m: (Some cur)
    note unf = claim_dispatch_def Let_def w [unfolded wid_def] m [unfolded wid_def]
    consider (stale) "is_terminal (w_status w) \<or> mk_window_id cur \<noteq> mk_window_id m"
      | (busy) "\<not> is_terminal (w_status w)" "mk_window_id cur = mk_window_id m"
          "dispatch_busy now (mk_window_id m) (dict_get (dispatch_leases r) wid)"
      | (free) "\<not> is_terminal (w_status w)" "mk_window_id cur = mk_window_id m"
          "\<not> dispatch_busy now (mk_window_id m) (dict_get (dispatch_leases r) wid)"
      by blast
    then show thesis
    proof cases
      case stale
      then show thesis by (intro refused [of Dispatch_STALE]) (auto simp: unf)
    next
      case busy
      then show thesis by (intro refused [of Dispatch_BUSY]) (simp_all add: unf wid_def)
    next
      case free
      then show thesis
        by (intro granted [OF w _ m]) (simp_all add: unf wid_def not_terminal_iff next_token_def)
    qed
  qed
qed

lemma claim_dispatch_cell:
  "cell_step now k (cell_of r k) [] (cell_of (snd (claim_dispatch now m own secs r)) k)"
proof (cases rule: claim_dispatch_cases [of now m own secs r])
  case (refused st)
  then show ?thesis by (simp add: cell_step.stutter)
next
  case (granted w cur)
  show ?thesis
  proof (cases "k = mk_watch_id m")
    case True
    show ?thesis
      unfolding True
      by (rule cell_step_eq,
          rule cell_step.dispatch [of _ cur now _ own "now + timedelta_seconds secs"])
         (use granted in \<open>auto simp: c_active_def cell_of_def split: option.splits\<close>)
  next
    case False
    then have "cell_of (snd (claim_dispatch now m own secs r)) k = cell_of r k"
      by (simp add: granted(6) cell_of_def)
    then show ?thesis by (simp add: cell_step.stutter)
  qed
qed

lemma mark_dispatched_cell:
  "cell_step now k (cell_of r k) [] (cell_of (snd (mark_dispatched cl t r)) k)"
proof (cases "fst (mark_dispatched cl t r) \<and> k = dc_watch_id cl")
  case True
  then obtain l where l: "dict_get (dispatch_leases r) k = Some l"
    and eq: "snd (mark_dispatched cl t r) =
      r\<lparr>dispatch_leases := dict_set k (l\<lparr>dl_expires_at := t\<rparr>) (dispatch_leases r)\<rparr>"
    by (cases "dict_get (dispatch_leases r) k") (auto simp: mark_dispatched_def split: if_splits)
  show ?thesis
    by (rule cell_step_eq, rule cell_step.deferral [of _ l now k t]) (simp_all add: l eq cell_of_def)
next
  case False
  then have "cell_of (snd (mark_dispatched cl t r)) k = cell_of r k"
    by (auto simp: mark_dispatched_def cell_of_def split: option.splits)
  then show ?thesis by (simp add: cell_step.stutter)
qed

lemma release_dispatch_cell:
  "cell_step now k (cell_of r k) [] (cell_of (snd (release_dispatch cl r)) k)"
proof (cases "fst (release_dispatch cl r) \<and> k = dc_watch_id cl")
  case True
  then have "cell_of (snd (release_dispatch cl r)) k = (cell_of r k)\<lparr>c_dispatch_lease := None\<rparr>"
    by (auto simp: release_dispatch_def cell_of_def split: option.splits if_splits)
  then show ?thesis by (simp add: cell_step.undispatch)
next
  case False
  then have "cell_of (snd (release_dispatch cl r)) k = cell_of r k"
    by (auto simp: release_dispatch_def cell_of_def split: option.splits if_splits)
  then show ?thesis by (simp add: cell_step.stutter)
qed

section \<open>Creation and removal\<close>

definition empty_cell :: cell where
  "empty_cell = \<lparr>c_watch = None, c_runtime = None, c_fence = None, c_claim = None,
     c_dispatch_fence = None, c_dispatch_lease = None, c_marker = None, c_delete_at = None\<rparr>"

lemma cell_ok_empty [simp]: "cell_ok k empty_cell"
  by (simp add: empty_cell_def cell_ok_def)

lemma cell_of_forget: "cell_of (forget wid r) k = (if k = wid then empty_cell else cell_of r k)"
  by (simp add: forget_def cell_of_def empty_cell_def)

lemma dicts_ok_forget [simp]: "dicts_ok r \<Longrightarrow> dicts_ok (forget wid r)"
  by (simp add: dicts_ok_def forget_def)

lemma repo_ok_forget: "repo_ok r \<Longrightarrow> repo_ok (forget wid r)"
  by (simp add: repo_ok_def cell_of_forget)

lemma repo_ok_empty [simp]: "repo_ok (empty_repo secs)"
  by (simp add: repo_ok_def dicts_ok_def empty_repo_def cell_of_def cell_ok_def)

lemma create_cases:
  obtains (exists) "snd (create_with_schedule w rt r) = r"
      "dict_get (watches r) (watch_id w) \<noteq> None"
  | (created) "dict_get (watches r) (watch_id w) = None"
      "create_with_schedule w rt r =
         (\<lparr>crt_status = Create_CREATED, crt_watch = Some w, crt_runtime = Some rt\<rparr>,
          set_marker (watch_id w) rt
            (r\<lparr>watches := dict_set (watch_id w) w (watches r),
               runtimes := dict_set (watch_id w) rt (runtimes r),
               fence := dict_set (watch_id w) 0 (fence r)\<rparr>))"
  by (cases "dict_get (watches r) (watch_id w)")
     (auto simp: create_with_schedule_def intro: that)

lemma repo_ok_create:
  assumes ok: "repo_ok r" and w: "watch_valid w" "w_status w = ACTIVE"
  shows "repo_ok (snd (create_with_schedule w rt r))"
proof (cases rule: create_cases [of w rt r])
  case exists
  with ok show ?thesis by simp
next
  case created
  let ?r = "snd (create_with_schedule w rt r)"
  have none: "cell_ok (watch_id w) (cell_of r (watch_id w))"
    using ok by (simp add: repo_ok_def)
  have "cell_ok k (cell_of ?r k)" for k
  proof (cases "k = watch_id w")
    case True
    with none w created(1) show ?thesis by (auto simp: created(2) cell_ok_def)
  next
    case False
    then have "cell_of ?r k = cell_of r k" by (simp add: created(2) cell_of_def)
    with ok show ?thesis by (simp add: repo_ok_def)
  qed
  moreover have "dicts_ok ?r" using ok by (simp add: created(2) repo_ok_def dicts_ok_def)
  ultimately show ?thesis by (simp add: repo_ok_def)
qed

lemma repo_ok_prune: "repo_ok r \<Longrightarrow> repo_ok (prune_index_member wid from_all r)"
proof -
  assume ok: "repo_ok r"
  have "cell_ok k (cell_of (prune_index_member wid from_all r) k)" for k
  proof (cases "k = wid \<and> from_all")
    case True
    then show ?thesis by (simp add: prune_index_member_def cell_ok_def)
  next
    case False
    then have "cell_of (prune_index_member wid from_all r) k = cell_of r k"
      by (auto simp: prune_index_member_def cell_of_def)
    with ok show ?thesis by (simp add: repo_ok_def)
  qed
  with ok show ?thesis by (simp add: repo_ok_def dicts_ok_def prune_index_member_def)
qed

lemma repo_ok_delete_at:
  "repo_ok r \<Longrightarrow> dict_get (terminal_delete_ats r) k = Some t \<Longrightarrow>
   \<exists>w. dict_get (watches r) k = Some w \<and> is_terminal (w_status w)"
proof -
  assume ok: "repo_ok r" and t: "dict_get (terminal_delete_ats r) k = Some t"
  from ok have "cell_ok k (cell_of r k)" by (simp add: repo_ok_def)
  with t show ?thesis by (auto simp: cell_ok_def split: option.splits if_splits)
qed

lemma dict_pop_absent: "dict_get d k = None \<Longrightarrow> dict_pop k d = d"
  by (induction d) (auto split: if_splits)

lemma cleanup_one_ok:
  assumes "repo_ok r"
  shows "cleanup_one wid (n, r) =
    (case dict_get (watches r) wid of
       None \<Rightarrow> (n, r)
     | Some w \<Rightarrow> if is_terminal (w_status w) then (n + 1, forget wid r) else (n, r))"
proof -
  have "dict_get (terminal_delete_ats r) wid = None"
    if "case dict_get (watches r) wid of None \<Rightarrow> True | Some w \<Rightarrow> \<not> is_terminal (w_status w)"
    using that repo_ok_delete_at [OF assms, of wid]
    by (cases "dict_get (terminal_delete_ats r) wid") (auto split: option.splits)
  then have "r\<lparr>terminal_delete_ats := dict_pop wid (terminal_delete_ats r)\<rparr> = r"
    if "case dict_get (watches r) wid of None \<Rightarrow> True | Some w \<Rightarrow> \<not> is_terminal (w_status w)"
    using that by (simp add: dict_pop_absent)
  then show ?thesis by (auto simp: cleanup_one_def split: option.splits)
qed

lemma fold_cleanup_one:
  assumes "repo_ok r" and "distinct ks"
    and "\<And>k. k \<in> set ks \<Longrightarrow> c_terminal (cell_of r k)"
  shows "fold cleanup_one ks (n, r) = (n + int (length ks), fold forget ks r)"
  using assms
proof (induction ks arbitrary: n r)
  case (Cons k ks)
  from Cons.prems(3) [of k] have "cleanup_one k (n, r) = (n + 1, forget k r)"
    by (auto simp: cleanup_one_ok [OF Cons.prems(1)] c_terminal_def split: option.splits)
  moreover have "c_terminal (cell_of (forget k r) k')" if "k' \<in> set ks" for k'
    using that Cons.prems(2,3) by (auto simp: cell_of_forget)
  ultimately show ?case
    using Cons.IH [of "forget k r" "n + 1"] Cons.prems repo_ok_forget by simp
qed simp

lemma cell_of_fold_forget:
  "cell_of (fold forget ks r) k = (if k \<in> set ks then empty_cell else cell_of r k)"
  by (induction ks arbitrary: r) (auto simp: cell_of_forget)

lemma repo_ok_fold_forget: "repo_ok r \<Longrightarrow> repo_ok (fold forget ks r)"
  by (induction ks arbitrary: r) (auto simp: repo_ok_forget)

lemma set_due_deletions:
  "repo_ok r \<Longrightarrow>
   set (due_deletions now r) = {k. \<exists>t. dict_get (terminal_delete_ats r) k = Some t \<and> t \<le> now}"
proof -
  assume "repo_ok r"
  then have "dict_ok (terminal_delete_ats r)" by (simp add: repo_ok_def dicts_ok_def)
  from dict_get_in_set [OF this] show ?thesis
    unfolding due_deletions_def by (simp add: set_eq_iff image_iff)
qed

lemma distinct_due_deletions: "repo_ok r \<Longrightarrow> distinct (due_deletions now r)"
proof -
  assume "repo_ok r"
  then have "distinct (map fst (filter (\<lambda>(k, deadline). deadline \<le> now) (terminal_delete_ats r)))"
    by (simp add: repo_ok_def dicts_ok_def distinct_map_filter)
  then have "distinct (filter (\<lambda>(k, deadline). deadline \<le> now) (terminal_delete_ats r))"
    and "inj_on fst (set (filter (\<lambda>(k, deadline). deadline \<le> now) (terminal_delete_ats r)))"
    by (auto simp: distinct_map)
  then show ?thesis by (simp add: due_deletions_def distinct_map)
qed

lemma cleanup_due_ok:
  assumes "repo_ok r"
  shows "removed (fst (cleanup_due now b r)) = int (length (py_take b (due_deletions now r)))"
    and "snd (cleanup_due now b r) = fold forget (py_take b (due_deletions now r)) r"
proof -
  let ?ks = "py_take b (due_deletions now r)"
  have "c_terminal (cell_of r k)" if "k \<in> set ?ks" for k
  proof -
    from that have "k \<in> set (due_deletions now r)" using set_py_take by (rule subsetD [rotated])
    then obtain t where "dict_get (terminal_delete_ats r) k = Some t"
      by (auto simp: set_due_deletions [OF assms])
    from repo_ok_delete_at [OF assms this] show ?thesis by (auto simp: c_terminal_def)
  qed
  from fold_cleanup_one [OF assms distinct_py_take [OF distinct_due_deletions [OF assms]] this, of b]
  have "fold cleanup_one ?ks (0, r) = (int (length ?ks), fold forget ?ks r)" by simp
  then show "removed (fst (cleanup_due now b r)) = int (length ?ks)"
    and "snd (cleanup_due now b r) = fold forget ?ks r"
    by (simp_all add: cleanup_due_def)
qed

section \<open>Dictionaries stay dictionaries\<close>

lemma dicts_ok_claim: "dicts_ok r \<Longrightarrow> dicts_ok (snd (claim_window now wid win own secs ign r))"
  by (cases rule: claim_window_cases [of now wid win own secs ign r]) (auto simp: dicts_ok_def)

lemma dicts_ok_begin: "dicts_ok r \<Longrightarrow> dicts_ok (snd (begin_booking now cl r))"
  by (cases rule: begin_booking_cases [of now cl r]) (auto simp: dicts_ok_def)

lemma dicts_ok_commit: "dicts_ok r \<Longrightarrow> dicts_ok (snd (commit_window sha now cl nw nrt r))"
  by (cases rule: commit_window_cases [of sha now cl nw nrt r]) auto

lemma dicts_ok_cancel: "dicts_ok r \<Longrightarrow> dicts_ok (snd (cancel_if_active now wid r))"
  by (cases rule: cancel_cases [of now wid r]) (auto simp: dicts_ok_def [of "r\<lparr>runtimes := _\<rparr>"] dicts_ok_def [of r])

lemma dicts_ok_expire: "dicts_ok r \<Longrightarrow> dicts_ok (snd (expire_if_eligible sha now wid n force r))"
  by (cases rule: expire_cases [of sha now wid n force r]) auto

lemma dicts_ok_release: "dicts_ok r \<Longrightarrow> dicts_ok (snd (release_claim cl r))"
  by (auto simp: release_claim_def Let_def dicts_ok_def split: option.splits)

lemma dicts_ok_synthesize: "dicts_ok r \<Longrightarrow> dicts_ok (snd (synthesize_marker now wid rt r))"
  by (cases rule: synthesize_cases [of now wid rt r]) (auto simp: dicts_ok_def split: option.split)

lemma dicts_ok_claim_dispatch: "dicts_ok r \<Longrightarrow> dicts_ok (snd (claim_dispatch now m own secs r))"
  by (cases rule: claim_dispatch_cases [of now m own secs r]) (auto simp: dicts_ok_def)

lemma dicts_ok_mark_dispatched: "dicts_ok r \<Longrightarrow> dicts_ok (snd (mark_dispatched cl t r))"
  by (auto simp: mark_dispatched_def dicts_ok_def split: option.splits)

lemma dicts_ok_release_dispatch: "dicts_ok r \<Longrightarrow> dicts_ok (snd (release_dispatch cl r))"
  by (auto simp: release_dispatch_def dicts_ok_def split: option.splits)

lemmas dicts_ok_ops = dicts_ok_claim dicts_ok_begin dicts_ok_commit dicts_ok_cancel dicts_ok_expire
  dicts_ok_release dicts_ok_synthesize dicts_ok_claim_dispatch dicts_ok_mark_dispatched
  dicts_ok_release_dispatch

lemma repo_okI:
  assumes "repo_ok r" and "dicts_ok r'"
    and "\<And>k. \<exists>now evs. cell_step now k (cell_of r k) evs (cell_of r' k)"
  shows "repo_ok r'"
  unfolding repo_ok_def
proof (intro conjI allI)
  fix k
  from assms(3) obtain now evs where "cell_step now k (cell_of r k) evs (cell_of r' k)" by blast
  then show "cell_ok k (cell_of r' k)" using assms(1) by (auto simp: repo_ok_def dest: cell_step_ok)
qed (rule assms(2))

section \<open>Histories of the store\<close>

text \<open>
  One call of one coordinated method, by anyone, at any time. The premises are what every caller in
  the sources establishes: created and committed documents satisfy their model's validators, a
  commit writes the document of the watch it claimed, the sidecar stored with an active watch is
  \<open>dated\<close> (it names its next window and due time), and a repaired sidecar is not older than the
  stored one. The events are labelled with the watch they announce.
\<close>

definition dated :: "watch_runtime \<Rightarrow> bool" where
  "dated rt \<longleftrightarrow> rt_window_id rt \<noteq> None \<and> rt_scheduled_for rt \<noteq> None"

lemma dated_marker: "dated rt \<longleftrightarrow> marker_for k rt \<noteq> None"
  by (auto simp: dated_def marker_for_def split: option.splits)

inductive repo_step ::
  "(string \<Rightarrow> string) \<Rightarrow> watch_repo \<Rightarrow> (string \<times> string) list \<Rightarrow> watch_repo \<Rightarrow> bool"
  for sha where
  step_create: "\<lbrakk>watch_valid w; w_status w = ACTIVE; 0 \<le> revision rt; dated rt\<rbrakk> \<Longrightarrow>
     repo_step sha r [] (snd (create_with_schedule w rt r))"
| step_claim: "repo_step sha r [] (snd (claim_window now wid win own secs ign r))"
| step_begin: "repo_step sha r [] (snd (begin_booking now cl r))"
| step_commit: "\<lbrakk>watch_valid w; watch_id w = watch_id (wc_watch cl);
     w_status w = ACTIVE \<Longrightarrow> dated rt\<rbrakk> \<Longrightarrow>
     repo_step sha r
       (map (Pair (watch_id (wc_watch cl)))
          (opt_list (cm_event_id (fst (commit_window sha now cl w rt r)))))
       (snd (commit_window sha now cl w rt r))"
| step_cancel: "repo_step sha r [] (snd (cancel_if_active now wid r))"
| step_expire: "repo_step sha r
     (map (Pair wid) (opt_list (tr_event_id (fst (expire_if_eligible sha now wid n force r)))))
     (snd (expire_if_eligible sha now wid n force r))"
| step_release: "repo_step sha r [] (snd (release_claim cl r))"
| step_cleanup: "repo_step sha r [] (snd (cleanup_due now batch r))"
| step_delete: "repo_step sha r [] (snd (repo_delete wid r))"
| step_prune: "repo_step sha r [] (prune_index_member wid from_all r)"
| step_synthesize: "\<lbrakk>0 \<le> revision rt; dated rt;
     \<And>x. dict_get (runtimes r) wid = Some x \<Longrightarrow> revision x \<le> revision rt\<rbrakk> \<Longrightarrow>
     repo_step sha r [] (snd (synthesize_marker now wid rt r))"
| step_claim_dispatch: "repo_step sha r [] (snd (claim_dispatch now m own secs r))"
| step_mark_dispatched: "repo_step sha r [] (snd (mark_dispatched dcl t r))"
| step_release_dispatch: "repo_step sha r [] (snd (release_dispatch dcl r))"

definition present :: "string \<Rightarrow> watch_repo \<Rightarrow> bool" where
  "present k r \<longleftrightarrow> dict_get (watches r) k \<noteq> None"

definition events_for :: "string \<Rightarrow> (string \<times> string) list \<Rightarrow> string list" where
  "events_for k evs = map snd (filter (\<lambda>e. fst e = k) evs)"

text \<open>Histories in which watch \<open>k\<close> is there throughout, with the events announced for it.\<close>

inductive repo_run ::
  "(string \<Rightarrow> string) \<Rightarrow> string \<Rightarrow> watch_repo \<Rightarrow> string list \<Rightarrow> watch_repo \<Rightarrow> bool"
  for sha k where
  run_idle: "repo_run sha k r [] r"
| run_step: "\<lbrakk>present k r; repo_step sha r evs r'; present k r'; repo_run sha k r' evs' r''\<rbrakk> \<Longrightarrow>
     repo_run sha k r (events_for k evs @ evs') r''"

lemma events_for_simps [simp]:
  "events_for k [] = []"
  "events_for k (map (Pair k') es) = (if k = k' then es else [])"
  by (induction es) (auto simp: events_for_def)

lemma repo_ok_commit:
  "repo_ok r \<Longrightarrow> watch_valid w \<Longrightarrow> watch_id w = watch_id (wc_watch cl) \<Longrightarrow>
   repo_ok (snd (commit_window sha now cl w rt r))"
  by (rule repo_okI) (blast intro: commit_window_cell dicts_ok_commit
        | simp add: repo_ok_def dicts_ok_commit)+

theorem repo_step_ok: "repo_step sha r evs r' \<Longrightarrow> repo_ok r \<Longrightarrow> repo_ok r'"
proof (induction rule: repo_step.induct)
  case (step_create w rt r)
  then show ?case by (simp add: repo_ok_create)
next
  case (step_cleanup r now batch)
  then show ?case by (simp add: cleanup_due_ok repo_ok_fold_forget)
next
  case (step_delete r wid)
  then show ?case by (simp add: repo_delete_def repo_ok_forget)
next
  case (step_prune r wid from_all)
  then show ?case by (rule repo_ok_prune)
next
  case (step_commit w cl rt r now)
  then show ?case by (simp add: repo_ok_commit)
next
  case (step_synthesize rt r wid now)
  then show ?case
    by (intro repo_okI [OF step_synthesize.prems])
       (blast intro: synthesize_cell | simp add: repo_ok_def dicts_ok_synthesize)+
qed (rule repo_okI, assumption, simp add: repo_ok_def dicts_ok_ops,
     blast intro: claim_window_cell begin_booking_cell cancel_cell expire_cell release_claim_cell
       claim_dispatch_cell mark_dispatched_cell release_dispatch_cell)+

text \<open>While watch \<open>k\<close> is there, a step of the store is a step of its cell.\<close>

lemma repo_step_cell:
  "repo_step sha r evs r' \<Longrightarrow> repo_ok r \<Longrightarrow> present k r \<Longrightarrow> present k r' \<Longrightarrow>
   \<exists>now. cell_step now k (cell_of r k) (events_for k evs) (cell_of r' k)"
proof (induction rule: repo_step.induct)
  case (step_create w rt r)
  have "cell_of (snd (create_with_schedule w rt r)) k = cell_of r k"
    using step_create.prems(2)
    by (cases rule: create_cases [of w rt r]) (auto simp: present_def cell_of_def)
  then show ?case by (simp add: cell_step.stutter)
next
  case (step_commit w cl rt r now)
  then show ?case using commit_window_cell [of w cl now k r sha rt] by auto
next
  case (step_expire r wid now n force)
  then show ?case using expire_cell [of now k r wid sha n force] by auto
next
  case (step_cleanup r now batch)
  then have "cell_of (snd (cleanup_due now batch r)) k = cell_of r k"
    by (auto simp: cleanup_due_ok present_def cell_of_fold_forget empty_cell_def
        simp flip: cell_of_simps split: if_splits)
  then show ?case by (simp add: cell_step.stutter)
next
  case (step_delete r wid)
  then have "cell_of (snd (repo_delete wid r)) k = cell_of r k"
    by (auto simp: repo_delete_def present_def cell_of_forget empty_cell_def
        simp flip: cell_of_simps split: if_splits)
  then show ?case by (simp add: cell_step.stutter)
next
  case (step_prune r wid from_all)
  then have "cell_of (prune_index_member wid from_all r) k = cell_of r k"
    by (auto simp: prune_index_member_def present_def cell_of_def split: if_splits)
  then show ?case by (simp add: cell_step.stutter)
next
  case (step_synthesize rt r wid now)
  then show ?case using synthesize_cell [of rt r wid now k] by auto
qed (simp, blast intro: claim_window_cell begin_booking_cell cancel_cell release_claim_cell
       claim_dispatch_cell mark_dispatched_cell release_dispatch_cell)+

lemma repo_run_ok: "repo_run sha k r evs r' \<Longrightarrow> repo_ok r \<Longrightarrow> repo_ok r'"
  by (induction rule: repo_run.induct) (auto dest: repo_step_ok)

theorem repo_run_cell:
  "repo_run sha k r evs r' \<Longrightarrow> repo_ok r \<Longrightarrow> cell_run k (cell_of r k) evs (cell_of r' k)"
proof (induction rule: repo_run.induct)
  case (run_step r evs r' evs' r'')
  from repo_step_cell [OF run_step.hyps(2) run_step.prems run_step.hyps(1,3)]
    run_step.IH [OF repo_step_ok [OF run_step.hyps(2) run_step.prems]]
  show ?case by (blast intro: cell_run.more)
qed (rule cell_run.idle)

section \<open>The in-memory store satisfies the interface\<close>

lemma claim_window_granted:
  assumes "claim_window now k win own secs ign r = (\<lparr>cl_status = Claim_OWNED, cl_claim = Some cl\<rparr>, r')"
    and ok: "repo_ok r"
  shows "repo_ok r' \<and> watch_id (wc_watch cl) = k \<and> tokens_from (wc_token cl) (cell_of r' k) \<and>
    c_fence (cell_of r' k) = Some (wc_token cl) \<and>
    c_watch (cell_of r k) = Some (wc_watch cl) \<and> c_runtime (cell_of r k) = Some (wc_runtime cl)"
proof (cases rule: claim_window_cases [of now k win own secs ign r])
  case (refused st)
  with assms show ?thesis by simp
next
  case (granted w rt)
  have "cell_ok k (cell_of r k)" using ok by (simp add: repo_ok_def)
  with granted(1) have "watch_id w = k" by (simp add: cell_ok_def)
  moreover have "repo_ok r'"
    using repo_step_ok [OF step_claim [of id r now k win own secs ign] ok] assms(1) by simp
  moreover have "cl = \<lparr>wc_watch = w, wc_runtime = rt, wc_owner_id = own, wc_window_id = win,
      wc_token = next_token (dict_get (fence r) k),
      wc_lease_expires_at = now + timedelta_seconds secs\<rparr>"
    and "r' = snd (claim_window now k win own secs ign r)"
    using granted(7) assms(1) by simp_all
  ultimately show ?thesis using granted by (auto simp: tokens_from_def)
qed

lemma commit_window_advances:
  assumes "cm_status (fst (commit_window sha now cl w rt r)) = Commit_COMMITTED" and ok: "repo_ok r"
    and doc: "watch_valid w" "watch_id w = watch_id (wc_watch cl)"
  shows "c_owned now cl (cell_of r (watch_id (wc_watch cl)))"
    and "repo_ok (snd (commit_window sha now cl w rt r))"
    and "rank (cell_of (snd (commit_window sha now cl w rt r)) (watch_id (wc_watch cl))) =
           revision (wc_runtime cl) + 1"
proof -
  show "repo_ok (snd (commit_window sha now cl w rt r))"
    using repo_ok_commit [OF ok doc] .
  show own: "c_owned now cl (cell_of r (watch_id (wc_watch cl)))"
    using assms(1) by (cases rule: commit_window_cases [of sha now cl w rt r]) auto
  from assms(1) show "rank (cell_of (snd (commit_window sha now cl w rt r)) (watch_id (wc_watch cl))) =
      revision (wc_runtime cl) + 1"
  proof (cases rule: commit_window_cases [of sha now cl w rt r])
    case (committed old)
    with own have "revision old = revision (wc_runtime cl)" by (auto simp: c_owned_def)
    with committed(5) [of "watch_id (wc_watch cl)"] show ?thesis
      by (simp add: rank_def del: cell_of_simps)
  qed simp
qed

lemma begin_booking_owned:
  "bp_status (fst (begin_booking now cl r)) = Permit_GRANTED \<Longrightarrow>
   c_owned now cl (cell_of r (watch_id (wc_watch cl)))"
  by (cases rule: begin_booking_cases [of now cl r]) auto

lemma commit_window_owned:
  "cm_status (fst (commit_window sha now cl w rt r)) = Commit_COMMITTED \<Longrightarrow>
   c_owned now cl (cell_of r (watch_id (wc_watch cl)))"
  by (cases rule: commit_window_cases [of sha now cl w rt r]) auto

lemma cancel_applied_terminal:
  assumes "tr_status (fst (cancel_if_active now k r)) = Transition_APPLIED"
  shows "c_active (cell_of r k) \<and> c_terminal (cell_of (snd (cancel_if_active now k r)) k)"
proof (cases rule: cancel_cases [of now k r])
  case (applied w)
  then show ?thesis
    by (simp add: cell_of_apply_terminal c_terminal_def c_active_cell_of del: cell_of_simps)
qed (use assms in auto)

lemma expire_applied_terminal:
  assumes "tr_status (fst (expire_if_eligible sha now k n force r)) = Transition_APPLIED"
  shows "c_active (cell_of r k) \<and> c_terminal (cell_of (snd (expire_if_eligible sha now k n force r)) k)"
proof (cases rule: expire_cases [of sha now k n force r])
  case (applied w)
  then show ?thesis
    by (simp add: cell_of_apply_terminal c_terminal_def c_active_cell_of del: cell_of_simps)
qed (use assms in auto)

interpretation mem: watch_store cell_of repo_ok "repo_run sha" claim_window begin_booking
    "commit_window sha" cancel_if_active "expire_if_eligible sha" "\<lambda>w rt. True"
  for sha :: "string \<Rightarrow> string"
proof unfold_locales
  show "cell_ok k (cell_of r k)" if "repo_ok r" for r k
    using that by (simp add: repo_ok_def)
  show "cell_run k (cell_of r k) evs (cell_of r' k)" if "repo_run sha k r evs r'" "repo_ok r" for k r evs r'
    using that by (rule repo_run_cell)
  show "repo_ok r'" if "repo_run sha k r evs r'" "repo_ok r" for k r evs r'
    using that by (rule repo_run_ok)
  show "c_active (cell_of r k)"
    if "tr_status (fst (cancel_if_active now k r)) \<in> {Transition_APPLIED, Transition_NOT_ELIGIBLE}"
    for now k r
    using that by (cases rule: cancel_cases [of now k r]) (auto simp: c_active_cell_of)
  show "repo_ok (snd (cancel_if_active now k r)) \<and> c_active (cell_of r k) \<and>
      c_terminal (cell_of (snd (cancel_if_active now k r)) k)"
    if "tr_status (fst (cancel_if_active now k r)) = Transition_APPLIED" "repo_ok r" for now k r
    using cancel_applied_terminal [OF that(1)] repo_step_ok [OF step_cancel that(2)] by blast
  show "repo_ok (snd (expire_if_eligible sha now k n force r)) \<and> c_active (cell_of r k) \<and>
      c_terminal (cell_of (snd (expire_if_eligible sha now k n force r)) k)"
    if "tr_status (fst (expire_if_eligible sha now k n force r)) = Transition_APPLIED" "repo_ok r"
    for now k n force r
    using expire_applied_terminal [OF that(1)] repo_step_ok [OF step_expire that(2)] by blast
qed (rule claim_window_granted begin_booking_owned commit_window_owned, assumption+ |
     rule conjI commit_window_advances | assumption)+

end
