(* ===== verification/Scenario.thy ===== *)
theory Scenario
  imports Watch_Protocol
begin

text \<open>
  One concrete history of the in-memory store, used by the instances that accompany the properties:
  a watch is created, a first worker claims its first window, the lease lapses and a second worker
  claims the same window, and the window is committed with a confirmed booking.
\<close>

definition demo_query :: availability_query where
  "demo_query = \<lparr>q_venue_name = ''Babel'', q_venue_type = RESTAURANT, q_market = MARKET,
     q_party_size = 2, q_date = ''2026-03-01'', q_preferred_time = Some ''19:00'',
     q_time_window = None, q_duration_minutes = None, q_special_requests = []\<rparr>"

definition demo_watch :: watch where
  "demo_watch = \<lparr>watch_id = ''w1'', w_status = ACTIVE, w_query = demo_query, auto_book = True,
     created_at = 0, updated_at = 0, w_expires_at = 900000000, attempts = 0, max_attempts = 5,
     last_checked_at = None, next_check_at = Some 0, found_slots = [], w_booking = None,
     last_error = None\<rparr>"

definition demo_runtime :: watch_runtime where
  "demo_runtime = \<lparr>schema_version = 2, revision = 0, required_attempts = 5,
     rt_supports_deadline = True, consecutive_outages = 0, cadence_sequence = 0,
     rt_window_id = Some ''w1:0'', rt_scheduled_for = Some 0, rt_phase = None,
     cancel_requested = False, rt_terminal_delete_at = None\<rparr>"

definition demo_repo :: watch_repo where
  "demo_repo = snd (create_with_schedule demo_watch demo_runtime (empty_repo 3600))"

text \<open>Worker \<open>a\<close> claims at 1 s for 60 s; worker \<open>b\<close> claims after the lease lapsed.\<close>

definition demo_claim :: "string \<Rightarrow> int \<Rightarrow> time \<Rightarrow> window_claim" where
  "demo_claim own token expires = \<lparr>wc_watch = demo_watch, wc_runtime = demo_runtime,
     wc_owner_id = own, wc_window_id = ''w1:0'', wc_token = token, wc_lease_expires_at = expires\<rparr>"

definition demo_repo_a :: watch_repo where
  "demo_repo_a = snd (claim_window 1000000 ''w1'' ''w1:0'' ''a'' 60 False demo_repo)"

definition demo_repo_b :: watch_repo where
  "demo_repo_b = snd (claim_window 70000000 ''w1'' ''w1:0'' ''b'' 60 False demo_repo_a)"

definition demo_slot :: availability_slot where
  "demo_slot = \<lparr>slot_id = ''s1'', slot_provider = ''mock'', slot_venue_name = ''Babel'',
     slot_venue_type = RESTAURANT, slot_date = ''2026-03-01'', slot_start_time = ''19:00'',
     slot_end_time = None, slot_party_size = 2, slot_max_party_size = 4, slot_available = True\<rparr>"

definition demo_booking :: booking_confirmation where
  "demo_booking = \<lparr>booking_id = ''b1'', bk_provider = ''mock'', bk_status = MOCK_CONFIRMED,
     bk_slot = demo_slot, bk_created_at = 0\<rparr>"

definition demo_booked :: watch where
  "demo_booked = demo_watch\<lparr>w_status := BOOKED, next_check_at := None, attempts := 1,
     found_slots := [demo_slot], w_booking := Some demo_booking\<rparr>"

definition demo_repo_booked :: watch_repo where
  "demo_repo_booked =
     snd (commit_window id 71000000 (demo_claim ''b'' 2 130000000) demo_booked demo_runtime demo_repo_b)"

lemmas demo_defs = demo_query_def demo_watch_def demo_runtime_def demo_repo_def demo_claim_def
  demo_repo_a_def demo_repo_b_def demo_slot_def demo_booking_def demo_booked_def demo_repo_booked_def

lemma demo_watch_simps [simp]:
  "watch_id demo_watch = ''w1''" "w_status demo_watch = ACTIVE" "attempts demo_watch = 0"
  "watch_id demo_booked = ''w1''" "w_status demo_booked = BOOKED"
  by (simp_all add: demo_defs)

lemma demo_watch_valid [simp]: "watch_valid demo_watch" "watch_valid demo_booked"
  by code_simp+

lemma demo_repo_ok [simp]: "repo_ok demo_repo"
  unfolding demo_repo_def
  by (rule repo_step_ok [OF step_create [of _ _ id]]) (simp_all add: demo_runtime_def dated_def)

lemma demo_repo_a_ok [simp]: "repo_ok demo_repo_a"
  unfolding demo_repo_a_def by (rule repo_step_ok [OF step_claim [of id] demo_repo_ok])

lemma demo_repo_b_ok [simp]: "repo_ok demo_repo_b"
  unfolding demo_repo_b_def by (rule repo_step_ok [OF step_claim [of id] demo_repo_a_ok])

lemma demo_repo_booked_ok [simp]: "repo_ok demo_repo_booked"
  unfolding demo_repo_booked_def
  by (rule repo_step_ok [OF step_commit [of _ _ _ id] demo_repo_b_ok]) (simp_all add: demo_claim_def)

lemma demo_claim_a:
  "claim_window 1000000 ''w1'' ''w1:0'' ''a'' 60 False demo_repo =
     (\<lparr>cl_status = Claim_OWNED, cl_claim = Some (demo_claim ''a'' 1 61000000)\<rparr>, demo_repo_a)"
  by code_simp

lemma demo_claim_b:
  "claim_window 70000000 ''w1'' ''w1:0'' ''b'' 60 False demo_repo_a =
     (\<lparr>cl_status = Claim_OWNED, cl_claim = Some (demo_claim ''b'' 2 130000000)\<rparr>, demo_repo_b)"
  by code_simp

lemma demo_commit:
  "commit_window id 71000000 (demo_claim ''b'' 2 130000000) demo_booked demo_runtime demo_repo_b =
     (\<lparr>cm_status = Commit_COMMITTED, cm_watch = Some demo_booked,
       cm_event_id = Some ''w1:BOOKED:1''\<rparr>, demo_repo_booked)"
  by code_simp

lemma demo_present [simp]:
  "present ''w1'' demo_repo" "present ''w1'' demo_repo_a" "present ''w1'' demo_repo_b"
  "present ''w1'' demo_repo_booked"
  by code_simp+

text \<open>A history in which only the second worker acts.\<close>

lemma repo_run_one:
  "present k r \<Longrightarrow> repo_step sha r evs r' \<Longrightarrow> present k r' \<Longrightarrow> repo_run sha k r (events_for k evs) r'"
  using run_step [OF _ _ _ run_idle, of k r sha evs r'] by simp

lemma demo_run_commit: "repo_run id ''w1'' demo_repo_b [''w1:BOOKED:1''] demo_repo_booked"
  using repo_run_one [OF _ step_commit [of demo_booked "demo_claim ''b'' 2 130000000" demo_runtime id demo_repo_b
        71000000], of "''w1''"] demo_commit
  by (simp add: demo_claim_def)

end
