(* ===== verification/Store_Properties.thy ===== *)
theory Store_Properties
  imports Scenario
begin

text \<open>
  What callers of the in-memory store rely on, over its own methods and every interleaving of them.
  The safety statements are the lemmas of the interface \<open>watch_store\<close> at its interpretation
  \<open>mem\<close>; each is followed by its instance in the history of \<open>Scenario\<close>.
\<close>

section \<open>Fencing\<close>

text \<open>
  C1. Fencing: once a window has been granted to a new owner, an owner holding an older token can
  neither commit a result nor obtain a booking permit, whatever else happens in between.
\<close>

theorem stale_owner_cannot_act:
  assumes "repo_ok r"
    and "claim_window now k win own secs ign r = (\<lparr>cl_status = Claim_OWNED, cl_claim = Some new\<rparr>, r1)"
    and "repo_run sha k r1 evs r2"
    and "watch_id (wc_watch old) = k" "wc_token old < wc_token new"
  shows "cm_status (fst (commit_window sha t old w rt r2)) \<noteq> Commit_COMMITTED \<and>
    bp_status (fst (begin_booking t old r2)) \<noteq> Permit_GRANTED"
  using mem.stale_owner_fenced [OF assms(1,2) assms(3) assms(4,5)] by blast

theorem stale_owner_cannot_act_witness:
  "cm_status (fst (commit_window id 71000000 (demo_claim ''a'' 1 61000000) demo_booked demo_runtime
     demo_repo_booked)) \<noteq> Commit_COMMITTED \<and>
   bp_status (fst (begin_booking 71000000 (demo_claim ''a'' 1 61000000) demo_repo_booked)) \<noteq>
     Permit_GRANTED"
  by (rule stale_owner_cannot_act [OF demo_repo_a_ok demo_claim_b demo_run_commit])
     (simp_all add: demo_claim_def)

text \<open>
  C2. A cadence window is settled once: after a commit, no commit based on the same revision of the
  same watch is ever accepted again, by any owner and after any history.
\<close>

theorem window_committed_once:
  assumes "repo_ok r"
    and "commit_window sha now a w rt r = (res, r1)" "cm_status res = Commit_COMMITTED"
    and "watch_valid w" "watch_id w = watch_id (wc_watch a)"
    and "repo_run sha (watch_id (wc_watch a)) r1 evs r2"
    and "watch_id (wc_watch b) = watch_id (wc_watch a)"
      "revision (wc_runtime b) = revision (wc_runtime a)"
  shows "cm_status (fst (commit_window sha t b w' rt' r2)) \<noteq> Commit_COMMITTED"
  using mem.commit_at_most_once [OF assms(1-5) TrueI assms(6-8)] .

theorem window_committed_once_witness:
  "cm_status (fst (commit_window id 72000000 (demo_claim ''b'' 2 130000000) demo_booked demo_runtime
     demo_repo_booked)) \<noteq> Commit_COMMITTED"
  by (rule window_committed_once [OF demo_repo_b_ok demo_commit, where evs = "[]"])
     (simp_all add: demo_claim_def run_idle)

text \<open>
  Mutual exclusion: at any moment at most one claim on a watch can act; two claims that both
  pass the ownership test carry the same token, owner and revision.
\<close>

theorem one_acting_owner:
  assumes "repo_ok r" and "watch_id (wc_watch b) = watch_id (wc_watch a)"
    and "bp_status (fst (begin_booking now a r)) = Permit_GRANTED"
    and "cm_status (fst (commit_window sha now b w rt r)) = Commit_COMMITTED"
  shows "wc_token a = wc_token b \<and> wc_owner_id a = wc_owner_id b \<and>
    revision (wc_runtime a) = revision (wc_runtime b)"
  using begin_booking_owned [OF assms(3)] commit_window_owned [OF assms(4)] assms(2)
  by (auto simp: c_owned_def)

theorem one_acting_owner_witness:
  "wc_token (demo_claim ''b'' 2 0) = wc_token (demo_claim ''b'' 2 130000000) \<and>
   wc_owner_id (demo_claim ''b'' 2 0) = wc_owner_id (demo_claim ''b'' 2 130000000) \<and>
   revision (wc_runtime (demo_claim ''b'' 2 0)) = revision (wc_runtime (demo_claim ''b'' 2 130000000))"
proof (rule one_acting_owner [OF demo_repo_b_ok, where now = 71000000])
  show "bp_status (fst (begin_booking 71000000 (demo_claim ''b'' 2 0) demo_repo_b)) = Permit_GRANTED"
    by code_simp
  show "cm_status (fst (commit_window id 71000000 (demo_claim ''b'' 2 130000000) demo_booked
      demo_runtime demo_repo_b)) = Commit_COMMITTED"
    by (simp add: demo_commit)
qed (simp add: demo_claim_def)

section \<open>Terminal watches\<close>

text \<open>
  C3. A terminal watch is final: as long as it is not removed its document never changes again, no
  terminal event is announced for it, and every later booking permit, commit, cancellation and
  expiry is refused.
\<close>

theorem terminal_watch_is_final:
  assumes "repo_ok r" and "dict_get (watches r) k = Some w" "is_terminal (w_status w)"
    and "repo_run sha k r evs r'"
  shows "dict_get (watches r') k = Some w \<and> evs = [] \<and>
    (\<forall>t cl. watch_id (wc_watch cl) = k \<longrightarrow>
       bp_status (fst (begin_booking t cl r')) \<noteq> Permit_GRANTED \<and>
       (\<forall>w' rt. cm_status (fst (commit_window sha t cl w' rt r')) \<noteq> Commit_COMMITTED)) \<and>
    (\<forall>t. tr_status (fst (cancel_if_active t k r')) \<noteq> Transition_APPLIED) \<and>
    (\<forall>t n force. tr_status (fst (expire_if_eligible sha t k n force r')) \<noteq> Transition_APPLIED)"
proof -
  have "c_terminal (cell_of r k)" using assms(2,3) by (simp add: c_terminal_def)
  note fin = mem.terminal_is_final [OF assms(1) this assms(4)]
  show ?thesis using fin(1,2) fin(3) fin(4) fin(5) assms(2) by auto
qed

theorem terminal_watch_is_final_witness:
  "tr_status (fst (cancel_if_active 80000000 ''w1'' demo_repo_booked)) \<noteq> Transition_APPLIED"
proof -
  have "dict_get (watches demo_repo_booked) ''w1'' = Some demo_booked" by code_simp
  from terminal_watch_is_final [OF demo_repo_booked_ok this _ run_idle [of id]] show ?thesis by simp
qed

text \<open>
  C4. A watch announces at most one terminal event (FOUND, BOOKED or EXPIRED) in its whole life,
  however many workers, cancellations and expiries race for it.
\<close>

theorem at_most_one_terminal_event:
  assumes "repo_ok r" and "repo_run sha k r evs r'"
  shows "length evs \<le> 1"
  using mem.one_terminal_event [OF assms] .

theorem at_most_one_terminal_event_witness: "length [''w1:BOOKED:1''] \<le> 1"
  by (rule at_most_one_terminal_event [OF demo_repo_b_ok demo_run_commit])

text \<open>
  Terminal event identifiers do not collide: with a digest that does not collide, two terminal
  events have the same identifier only if watch, status and revision all agree.
\<close>

theorem terminal_event_id_injective:
  assumes "\<And>x y. sha x = sha y \<Longrightarrow> x = y"
    and "terminal_event_id sha a st m = terminal_event_id sha b st' n"
  shows "a = b \<and> st = st' \<and> m = n"
proof -
  have eq: "(a @ CHR '':'' # status_value st) @ CHR '':'' # show_int m =
      (b @ CHR '':'' # status_value st') @ CHR '':'' # show_int n"
    using assms(1) [OF assms(2) [unfolded terminal_event_id_def]] by simp
  from last_field_inj [OF eq show_int_no_colon show_int_no_colon]
  have head: "a @ CHR '':'' # status_value st = b @ CHR '':'' # status_value st'"
    and "m = n" by simp_all
  moreover have "CHR '':'' \<notin> set (status_value s)" for s by (cases s) simp_all
  ultimately have "a = b" and "status_value st = status_value st'"
    using last_field_inj [OF head] by simp_all
  with \<open>m = n\<close> show ?thesis by (cases st; cases st') simp_all
qed

theorem terminal_event_id_injective_witness:
  "terminal_event_id id ''w1'' BOOKED 1 \<noteq> terminal_event_id id ''w1'' EXPIRED 1"
  using terminal_event_id_injective [of id "''w1''" BOOKED 1 "''w1''" EXPIRED 1] by auto

end
