(* ===== verification/Watch_Schedule.thy ===== *)
theory Watch_Schedule
  imports Scenario
begin

text \<open>
  What every step of the store keeps of the durable schedule. The generic lemma \<open>kept\<close> says that a
  fact about an active watch's sidecar is never lost once it holds of every dated sidecar with a
  revision from 0 on; its instances are that a created watch always has a dated sidecar, and that an
  undated one found by recovery is never newer than when it was read.
\<close>

definition kept_by_store :: "(watch_runtime option \<Rightarrow> bool) \<Rightarrow> bool" where
  "kept_by_store P \<longleftrightarrow> (\<forall>rt. dated rt \<and> 0 \<le> revision rt \<longrightarrow> P (Some rt)) \<and>
     (\<forall>rt ph c. P (Some rt) \<longrightarrow> P (Some (rt\<lparr>rt_phase := ph\<rparr>)) \<and> P (Some (rt\<lparr>cancel_requested := c\<rparr>)))"

definition active_runtime :: "(watch_runtime option \<Rightarrow> bool) \<Rightarrow> string \<Rightarrow> watch_repo \<Rightarrow> bool" where
  "active_runtime P k r \<longleftrightarrow> (c_active (cell_of r k) \<longrightarrow> P (dict_get (runtimes r) k))"

lemma dated_updates [simp]:
  "dated (rt\<lparr>rt_phase := ph\<rparr>) = dated rt" "dated (rt\<lparr>cancel_requested := c\<rparr>) = dated rt"
  "dated (rt\<lparr>revision := n\<rparr>) = dated rt" "dated (rt\<lparr>rt_terminal_delete_at := t\<rparr>) = dated rt"
  by (simp_all add: dated_def)

lemma active_runtime_cell:
  "active_runtime P k r \<longleftrightarrow> (c_active (cell_of r k) \<longrightarrow> P (c_runtime (cell_of r k)))"
  by (simp add: active_runtime_def cell_of_def)

lemma active_runtime_same:
  "cell_of r' k = cell_of r k \<Longrightarrow> active_runtime P k r \<Longrightarrow> active_runtime P k r'"
  by (simp add: active_runtime_cell)

lemma active_runtime_idle: "\<not> c_active (cell_of r k) \<Longrightarrow> active_runtime P k r"
  by (simp add: active_runtime_cell)

lemma active_runtime_fields:
  "watches r' = watches r \<Longrightarrow> runtimes r' = runtimes r \<Longrightarrow> active_runtime P k r' = active_runtime P k r"
  by (simp add: active_runtime_def c_active_cell_of)

lemma lease_methods_frame:
  "watches (snd (claim_window now wid win own secs ign r)) = watches r"
  "runtimes (snd (claim_window now wid win own secs ign r)) = runtimes r"
  "watches (snd (release_claim cl r)) = watches r" "runtimes (snd (release_claim cl r)) = runtimes r"
  "watches (snd (claim_dispatch now m own secs r)) = watches r"
  "runtimes (snd (claim_dispatch now m own secs r)) = runtimes r"
  "watches (snd (mark_dispatched dcl t r)) = watches r"
  "runtimes (snd (mark_dispatched dcl t r)) = runtimes r"
  "watches (snd (release_dispatch dcl r)) = watches r"
  "runtimes (snd (release_dispatch dcl r)) = runtimes r"
  by (auto simp: claim_window_def release_claim_def claim_dispatch_def mark_dispatched_def
      release_dispatch_def Let_def split: option.splits)

lemma retired_not_active:
  "w_status w = ACTIVE \<Longrightarrow> is_terminal st \<Longrightarrow>
   \<not> c_active (cell_of (snd (apply_terminal wid (w\<lparr>w_status := st, next_check_at := None, updated_at := now\<rparr>) rt t r)) wid)"
  by (auto simp: cell_of_apply_terminal c_active_def is_terminal_def simp del: cell_of_simps)

lemma active_runtime_retire:
  assumes "active_runtime P k r" and "is_terminal st"
  shows "active_runtime P k (snd (apply_terminal wid
     (w\<lparr>w_status := st, next_check_at := None, updated_at := now\<rparr>) rt t r))"
  using assms
  by (auto simp: active_runtime_cell cell_of_apply_terminal c_active_def is_terminal_def
      simp del: cell_of_simps)

definition numbered :: "watch_runtime option \<Rightarrow> bool" where
  "numbered x \<longleftrightarrow> (case x of None \<Rightarrow> True | Some rt \<Rightarrow> 0 \<le> revision rt)"

lemma numbered_simps [simp]: "numbered None" "numbered (Some rt) \<longleftrightarrow> 0 \<le> revision rt"
  by (simp_all add: numbered_def)

theorem kept:
  "repo_step sha r evs r' \<Longrightarrow> kept_by_store P \<Longrightarrow> repo_ok r \<Longrightarrow>
   active_runtime (\<lambda>x. numbered x \<and> P x) k r \<Longrightarrow> active_runtime (\<lambda>x. numbered x \<and> P x) k r'"
proof (induction rule: repo_step.induct)
  case (step_create w rt r)
  then show ?case
    by (cases rule: create_cases [of w rt r])
       (auto simp: active_runtime_def c_active_cell_of kept_by_store_def)
next
  case (step_begin r now cl)
  then show ?case
    by (cases rule: begin_booking_cases [of now cl r])
       (auto simp: active_runtime_def c_active_cell_of kept_by_store_def)
next
  case (step_commit w cl rt r now)
  then show ?case
  proof (cases rule: commit_window_cases [of sha now cl w rt r])
    case (committed old)
    show ?thesis
    proof (cases "k = watch_id (wc_watch cl)")
      case True
      with committed(1,2) step_commit.prems(3) have "0 \<le> revision old"
        by (simp add: active_runtime_def c_owned_def)
      then have "P (Some (stored_runtime now w rt old r))" if "w_status w = ACTIVE"
        using step_commit.hyps(3) step_commit.prems(1) that
        by (simp add: kept_by_store_def stored_runtime_def is_terminal_def)
      with True \<open>0 \<le> revision old\<close> show ?thesis
        by (simp add: active_runtime_cell committed(5) c_active_def del: cell_of_simps)
    next
      case False
      with step_commit.prems(3) show ?thesis
        by (simp add: active_runtime_cell committed(5) del: cell_of_simps)
    qed
  qed simp
next
  case (step_cancel r now wid)
  then show ?case
  proof (cases rule: cancel_cases [of now wid r])
    case (pending w rt)
    with step_cancel show ?thesis by (auto simp: active_runtime_def c_active_cell_of kept_by_store_def)
  next
    case (applied w)
    show ?thesis
      unfolding applied(6) by (rule active_runtime_retire) (use step_cancel in \<open>simp_all add: is_terminal_def\<close>)
  qed simp
next
  case (step_expire r wid now n force)
  then show ?case
  proof (cases rule: expire_cases [of sha now wid n force r])
    case (applied w)
    show ?thesis
      by (rule active_runtime_same [OF applied(6)])
         (use step_expire in \<open>simp add: active_runtime_retire is_terminal_def\<close>)
  qed simp
next
  case (step_cleanup r now batch)
  then show ?case
    by (auto simp: active_runtime_cell cleanup_due_ok cell_of_fold_forget empty_cell_def c_active_def
        simp del: cell_of_simps)
next
  case (step_delete r wid)
  then show ?case
    by (auto simp: active_runtime_cell repo_delete_def cell_of_forget empty_cell_def c_active_def
        simp del: cell_of_simps)
next
  case (step_prune r wid from_all)
  then show ?case
    by (auto simp: active_runtime_def c_active_cell_of prune_index_member_def)
next
  case (step_synthesize rt r wid now)
  then show ?case
    by (cases rule: synthesize_cases [of now wid rt r])
       (auto simp: active_runtime_def c_active_cell_of kept_by_store_def)
qed (simp_all add: active_runtime_fields [OF lease_methods_frame(1,2)]
    active_runtime_fields [OF lease_methods_frame(3,4)] active_runtime_fields [OF lease_methods_frame(5,6)]
    active_runtime_fields [OF lease_methods_frame(7,8)] active_runtime_fields [OF lease_methods_frame(9,10)])

section \<open>The two instances\<close>

abbreviation has_dated :: "watch_runtime option \<Rightarrow> bool" where
  "has_dated x \<equiv> \<exists>rt. x = Some rt \<and> dated rt"

abbreviation dated_past :: "int \<Rightarrow> watch_runtime option \<Rightarrow> bool" where
  "dated_past n x \<equiv> \<forall>rt. x = Some rt \<longrightarrow> revision rt \<le> n \<or> dated rt"

lemma kept_instances [simp]: "kept_by_store has_dated" "kept_by_store (dated_past n)"
  by (auto simp: kept_by_store_def)

text \<open>An active watch without a marker has no sidecar, or an undated one.\<close>

lemma unmarked_undated:
  assumes "repo_ok r" and "c_active (cell_of r k)" and "dict_get (markers r) k = None"
    and "dict_get (runtimes r) k = Some rt"
  shows "\<not> dated rt"
proof -
  have "cell_ok k (cell_of r k)" using assms(1) by (simp add: repo_ok_def)
  with assms(2-4) show ?thesis
    by (auto simp: cell_ok_def c_active_cell_of is_terminal_def dated_marker [of rt k])
qed

end
