(* ===== verification/Store_Coordination.thy ===== *)
theory Store_Coordination
  imports Store_Properties Watch_Schedule
begin

text \<open>
  Coordination promises of the in-memory store: the durable schedule, takeover after a crash, the race
  of a cancellation with a booking, idempotent creation, retention cleanup, the due-marker scan and
  single-flight dispatch.
\<close>

section \<open>Reachable stores\<close>

inductive store_reachable :: "(string \<Rightarrow> string) \<Rightarrow> seconds \<Rightarrow> watch_repo \<Rightarrow> bool" for sha secs where
  reach_empty: "store_reachable sha secs (empty_repo secs)"
| reach_step: "store_reachable sha secs r \<Longrightarrow> repo_step sha r evs r' \<Longrightarrow> store_reachable sha secs r'"

lemma store_reachable_ok: "store_reachable sha secs r \<Longrightarrow> repo_ok r"
  by (induction rule: store_reachable.induct) (auto intro: repo_step_ok)

lemma store_reachable_dated: "store_reachable sha secs r \<Longrightarrow> active_runtime (\<lambda>x. numbered x \<and> has_dated x) k r"
proof (induction rule: store_reachable.induct)
  case reach_empty
  then show ?case by (simp add: active_runtime_def c_active_cell_of empty_repo_def)
next
  case (reach_step r evs r')
  then show ?case using kept [OF reach_step(2) kept_instances(1)] store_reachable_ok by blast
qed

lemma demo_reachable: "store_reachable id 3600 demo_repo"
  unfolding demo_repo_def
  by (rule reach_step [OF reach_empty step_create]) (simp_all add: demo_runtime_def dated_def)

text \<open>
  C31. The durable schedule: in every store reachable by any interleaving of the coordinated methods,
  each document is valid and stored under its own id; an active watch has a sidecar naming its next
  window and due time, exactly that marker in the schedule, and no deletion deadline; a terminal watch has a deletion deadline and holds no
  claim, no marker and no dispatch lease.
\<close>

theorem durable_schedule:
  assumes "store_reachable sha secs r" and "dict_get (watches r) k = Some w"
  shows "watch_id w = k \<and> watch_valid w \<and>
    (w_status w = ACTIVE \<longrightarrow>
       dict_get (terminal_delete_ats r) k = None \<and>
       (\<exists>rt m. dict_get (runtimes r) k = Some rt \<and> marker_for k rt = Some m \<and>
          dict_get (markers r) k = Some m)) \<and>
    (w_status w \<noteq> ACTIVE \<longrightarrow>
       dict_get (terminal_delete_ats r) k \<noteq> None \<and> dict_get (claims r) k = None \<and>
       dict_get (markers r) k = None \<and> dict_get (dispatch_leases r) k = None)"
proof -
  have "cell_ok k (cell_of r k)" using store_reachable_ok [OF assms(1)] by (simp add: repo_ok_def)
  moreover have "active_runtime (\<lambda>x. numbered x \<and> has_dated x) k r" using store_reachable_dated [OF assms(1)] .
  ultimately show ?thesis using assms(2)
    by (auto simp: cell_ok_def is_terminal_def active_runtime_def c_active_cell_of dated_marker [of _ k])
qed

theorem durable_schedule_witness:
  "\<exists>rt m. dict_get (runtimes demo_repo) ''w1'' = Some rt \<and> marker_for ''w1'' rt = Some m \<and>
     dict_get (markers demo_repo) ''w1'' = Some m"
proof -
  have "dict_get (watches demo_repo) ''w1'' = Some demo_watch" by code_simp
  from durable_schedule [OF demo_reachable this] show ?thesis by simp
qed

section \<open>Takeover and booking\<close>

text \<open>
  C34. Takeover: whoever held a window, once it is due and the lease on it has lapsed any worker that
  asks for it gets it, with a token above every earlier one, and until its own lease lapses it can
  commit an outcome for the watch.
\<close>

theorem lapsed_window_is_taken_over:
  assumes "dict_get (watches r) k = Some w" "w_status w = ACTIVE"
    and "dict_get (runtimes r) k = Some rt" "rt_window_id rt = Some win"
    and "rt_scheduled_for rt = Some due" "due \<le> now"
    and "\<And>held. dict_get (claims r) k = Some held \<Longrightarrow> ls_expires_at held \<le> now"
    and "repo_ok r" "t < now + timedelta_seconds secs"
  shows "\<exists>cl r'. claim_window now k win own secs False r =
      (\<lparr>cl_status = Claim_OWNED, cl_claim = Some cl\<rparr>, r') \<and>
    (\<forall>n. dict_get (fence r) k = Some n \<longrightarrow> n < wc_token cl) \<and>
    (\<forall>w' rt'. cm_status (fst (commit_window sha t cl w' rt' r')) = Commit_COMMITTED)"
proof -
  let ?res = "claim_window now k win own secs False r"
  have "fst ?res \<noteq> claim_refused st" for st
    using assms(1-7) by (auto simp: claim_window_def Let_def split: option.splits)
  then obtain w1 rt1 where res: "?res = (\<lparr>cl_status = Claim_OWNED,
       cl_claim = Some \<lparr>wc_watch = w1, wc_runtime = rt1, wc_owner_id = own, wc_window_id = win,
              wc_token = next_token (dict_get (fence r) k),
              wc_lease_expires_at = now + timedelta_seconds secs\<rparr>\<rparr>,
          r\<lparr>fence := dict_set k (next_token (dict_get (fence r) k)) (fence r),
            claims := dict_set k
              \<lparr>ls_window_id = win, ls_owner_id = own, ls_token = next_token (dict_get (fence r) k),
               ls_expires_at = now + timedelta_seconds secs\<rparr> (claims r)\<rparr>)"
    and w1: "dict_get (watches r) k = Some w1" "dict_get (runtimes r) k = Some rt1"
    by (cases rule: claim_window_cases [of now k win own secs False r]) auto
  have "watch_id w1 = k" using assms(8) w1(1) by (auto simp: repo_ok_def cell_ok_def dest!: spec [of _ k])
  with res w1 assms(2,9) assms(1) show ?thesis
    by (auto simp: commit_window_def Let_def owns_def next_token_def split: prod.split)
qed

theorem lapsed_window_is_taken_over_witness:
  "\<exists>cl r'. claim_window 70000000 ''w1'' ''w1:0'' ''b'' 60 False demo_repo_a =
      (\<lparr>cl_status = Claim_OWNED, cl_claim = Some cl\<rparr>, r') \<and>
    (\<forall>n. dict_get (fence demo_repo_a) ''w1'' = Some n \<longrightarrow> n < wc_token cl) \<and>
    (\<forall>w' rt'. cm_status (fst (commit_window id 71000000 cl w' rt' r')) = Commit_COMMITTED)"
proof -
  have "dict_get (watches demo_repo_a) ''w1'' = Some demo_watch"
    "dict_get (runtimes demo_repo_a) ''w1'' = Some demo_runtime"
    "dict_get (claims demo_repo_a) ''w1'' =
      Some \<lparr>ls_window_id = ''w1:0'', ls_owner_id = ''a'', ls_token = 1, ls_expires_at = 61000000\<rparr>"
    by code_simp+
  note facts = this
  have "timedelta_seconds 60 = 60000000" using timedelta_seconds_of_int [of 60] by simp
  with facts show ?thesis
    by (intro lapsed_window_is_taken_over [OF facts(1) _ facts(2), where due = 0])
       (simp_all add: demo_runtime_def)
qed

text \<open>
  A live claim is respected: while the lease on the current window is unexpired, nobody else's
  claim on that window is granted and the store does not change.
\<close>

theorem live_claim_excludes:
  assumes "claim_window now k win own secs ign r = (\<lparr>cl_status = Claim_OWNED, cl_claim = Some cl\<rparr>, r1)"
    and "t < wc_lease_expires_at cl"
  shows "cl_status (fst (claim_window t k win other secs' ign' r1)) \<in> {Claim_BUSY, Claim_EARLY} \<and>
    snd (claim_window t k win other secs' ign' r1) = r1"
proof (cases rule: claim_window_cases [of now k win own secs ign r])
  case (refused st)
  with assms(1) show ?thesis by simp
next
  case (granted w rt)
  with assms have "r1 = snd (claim_window now k win own secs ign r)"
    and "t < now + timedelta_seconds secs" by auto
  with granted show ?thesis by (auto simp: claim_window_def [of t])
qed

theorem live_claim_excludes_witness:
  "cl_status (fst (claim_window 2000000 ''w1'' ''w1:0'' ''b'' 60 False demo_repo_a)) = Claim_BUSY"
proof -
  have "cl_status (fst (claim_window 2000000 ''w1'' ''w1:0'' ''b'' 60 False demo_repo_a))
      \<in> {Claim_BUSY, Claim_EARLY}"
    using live_claim_excludes [OF demo_claim_a, of 2000000] by (simp add: demo_claim_def)
  moreover have "cl_status (fst (claim_window 2000000 ''w1'' ''w1:0'' ''b'' 60 False demo_repo_a))
      \<noteq> Claim_EARLY"
    by code_simp
  ultimately show ?thesis by blast
qed



section \<open>Creation\<close>

text \<open>
  Creation is idempotent: repeating a creation, with the same or with different documents, reports
  the watch that is already there with its sidecar and leaves the store alone.
\<close>

theorem create_is_idempotent:
  assumes "watch_id w' = watch_id w" and "dict_get (watches r) (watch_id w) = None"
  shows "create_with_schedule w' rt' (snd (create_with_schedule w rt r)) =
    (\<lparr>crt_status = Create_ALREADY_EXISTS, crt_watch = Some w, crt_runtime = Some rt\<rparr>,
     snd (create_with_schedule w rt r))"
  using assms by (simp add: create_with_schedule_def)

theorem create_is_idempotent_witness:
  "create_with_schedule demo_booked demo_runtime demo_repo =
    (\<lparr>crt_status = Create_ALREADY_EXISTS, crt_watch = Some demo_watch,
      crt_runtime = Some demo_runtime\<rparr>, demo_repo)"
  unfolding demo_repo_def
  by (rule create_is_idempotent) (simp_all add: empty_repo_def)

section \<open>Retention cleanup\<close>

lemma due_deletions_sorted:
  "sorted (map (\<lambda>k. the (dict_get (terminal_delete_ats r) k)) (due_deletions now r))"
  if "repo_ok r"
proof -
  let ?due = "filter (\<lambda>(k, deadline). deadline \<le> now) (terminal_delete_ats r)"
  have ok: "dict_ok (terminal_delete_ats r)" using that by (simp add: repo_ok_def dicts_ok_def)
  have eq: "map (\<lambda>p. the (dict_get (terminal_delete_ats r) (fst p))) (sort_key snd ?due) =
      map snd (sort_key snd ?due)"
  proof (rule map_cong [OF refl])
    fix p assume "p \<in> set (sort_key snd ?due)"
    then have "(fst p, snd p) \<in> set (terminal_delete_ats r)" by simp
    with dict_get_in_set [OF ok] have "dict_get (terminal_delete_ats r) (fst p) = Some (snd p)" by blast
    then show "the (dict_get (terminal_delete_ats r) (fst p)) = snd p" by simp
  qed
  have "sorted (map snd (sort_key snd ?due))" by (rule sorted_sort_key)
  then show ?thesis by (simp only: eq [symmetric] due_deletions_def map_map comp_def)
qed

text \<open>
  Cleanup removes exactly the terminal watches whose retention has passed, the longest overdue
  first and at most \<open>batch\<close> of them, together with everything stored for them; every other watch keeps
  everything, and \<open>remaining\<close> tells whether an overdue watch is left.
\<close>

theorem cleanup_removes_overdue:
  assumes "repo_ok r" and "0 \<le> batch" and "cleanup_due now batch r = (res, r')"
  shows "\<exists>gone. distinct gone \<and>
    set gone \<subseteq> {k. \<exists>t w. dict_get (terminal_delete_ats r) k = Some t \<and> t \<le> now \<and>
                   dict_get (watches r) k = Some w \<and> is_terminal (w_status w)} \<and>
    int (length gone) = min batch (int (length (due_deletions now r))) \<and>
    removed res = int (length gone) \<and>
    (\<forall>k. cell_of r' k = (if k \<in> set gone then empty_cell else cell_of r k)) \<and>
    (\<forall>a\<in>set gone. \<forall>b\<in>set (due_deletions now r) - set gone.
       the (dict_get (terminal_delete_ats r) a) \<le> the (dict_get (terminal_delete_ats r) b)) \<and>
    (remaining res \<longleftrightarrow> (\<exists>k t. dict_get (terminal_delete_ats r') k = Some t \<and> t \<le> now))"
proof -
  let ?due = "due_deletions now r"
  let ?gone = "take (nat batch) ?due"
  have gone: "py_take batch ?due = ?gone" using assms(2) by (simp add: py_take_def)
  from cleanup_due_ok [OF assms(1), of now batch] assms(3) gone
  have res: "removed res = int (length ?gone)" and r': "r' = fold forget ?gone r" by simp_all
  have ok': "repo_ok r'" unfolding r' by (rule repo_ok_fold_forget [OF assms(1)])
  then have "dict_ok (terminal_delete_ats r')" by (simp add: repo_ok_def dicts_ok_def)
  from dict_get_in_set [OF this]
  have "list_ex (\<lambda>(k, deadline). deadline \<le> now) (terminal_delete_ats r') \<longleftrightarrow>
      (\<exists>k t. dict_get (terminal_delete_ats r') k = Some t \<and> t \<le> now)"
    by (auto simp: list_ex_iff)
  moreover have "remaining res = list_ex (\<lambda>(k, deadline). deadline \<le> now) (terminal_delete_ats r')"
    using assms(3) by (auto simp: cleanup_due_def split: prod.splits)
  ultimately have rem: "remaining res \<longleftrightarrow> (\<exists>k t. dict_get (terminal_delete_ats r') k = Some t \<and> t \<le> now)"
    by simp
  have sub: "set ?gone \<subseteq> {k. \<exists>t w. dict_get (terminal_delete_ats r) k = Some t \<and> t \<le> now \<and>
      dict_get (watches r) k = Some w \<and> is_terminal (w_status w)}"
    using set_take_subset [of "nat batch" ?due] repo_ok_delete_at [OF assms(1)]
    by (force simp: set_due_deletions [OF assms(1)])
  let ?d = "\<lambda>k. the (dict_get (terminal_delete_ats r) k)"
  have "sorted (map ?d ?gone @ map ?d (drop (nat batch) ?due))"
    using due_deletions_sorted [OF assms(1), of now] by (simp flip: map_append)
  moreover have "set ?due - set ?gone \<subseteq> set (drop (nat batch) ?due)"
    by (metis Diff_subset_conv append_take_drop_id order_refl set_append)
  ultimately have order: "\<forall>a\<in>set ?gone. \<forall>b\<in>set ?due - set ?gone. ?d a \<le> ?d b"
    by (auto simp: sorted_append)
  show ?thesis
  proof (intro exI [of _ ?gone] conjI)
    show "distinct ?gone" using distinct_due_deletions [OF assms(1)] by simp
    show "int (length ?gone) = min batch (int (length ?due))" using assms(2) by simp
    show "\<forall>k. cell_of r' k = (if k \<in> set ?gone then empty_cell else cell_of r k)"
      by (simp add: r' cell_of_fold_forget)
  qed (rule sub res order rem)+
qed

theorem cleanup_removes_overdue_witness:
  "removed (fst (cleanup_due 3671000000 10 demo_repo_booked)) = 1"
proof -
  have "length (due_deletions 3671000000 demo_repo_booked) = 1" by code_simp
  then show ?thesis
    using cleanup_removes_overdue [OF demo_repo_booked_ok _ prod.collapse [symmetric], of 10 3671000000]
    by auto
qed

section \<open>The due-marker scan\<close>

text \<open>
  The scheduler's scan returns at most \<open>limit\<close> markers, earliest deadline first, each of an active
  watch and due within the horizon; when it returns fewer than \<open>limit\<close> it has missed none.
\<close>

theorem due_scan_is_complete:
  assumes "repo_ok r" and "0 \<le> limit"
    and out_eq: "out = due_schedule_markers now horizon limit r"
  shows "int (length out) \<le> limit \<and> sorted (map mk_scheduled_for out) \<and>
    (\<forall>m\<in>set out. mk_scheduled_for m \<le> now + timedelta_seconds horizon \<and>
       dict_get (markers r) (mk_watch_id m) = Some m \<and>
       (\<exists>w. dict_get (watches r) (mk_watch_id m) = Some w \<and> w_status w = ACTIVE)) \<and>
    (int (length out) < limit \<longrightarrow>
       (\<forall>k m. dict_get (markers r) k = Some m \<longrightarrow>
          mk_scheduled_for m \<le> now + timedelta_seconds horizon \<longrightarrow> m \<in> set out))"
proof -
  let ?all = "sort_key mk_scheduled_for (filter (\<lambda>m. mk_scheduled_for m \<le> now + timedelta_seconds horizon)
    (map snd (markers r)))"
  have out: "out = take (nat limit) ?all"
    using assms(2) by (simp add: out_eq due_schedule_markers_def py_take_def)
  have ok: "dict_ok (markers r)" using assms(1) by (simp add: repo_ok_def dicts_ok_def)
  have sound: "dict_get (markers r) (mk_watch_id m) = Some m \<and>
      (\<exists>w. dict_get (watches r) (mk_watch_id m) = Some w \<and> w_status w = ACTIVE)"
    if "dict_get (markers r) k = Some m" for k m
  proof -
    have "cell_ok k (cell_of r k)" using assms(1) by (simp add: repo_ok_def)
    with that show ?thesis
      by (auto simp: cell_ok_def marker_for_def is_terminal_def split: option.splits if_splits)
  qed
  have mem: "m \<in> set ?all \<longleftrightarrow> mk_scheduled_for m \<le> now + timedelta_seconds horizon \<and>
      (\<exists>k. dict_get (markers r) k = Some m)" for m
    using dict_get_in_set [OF ok, of _ m] by (force simp: image_iff)
  have "sorted (map mk_scheduled_for out)" unfolding out
    by (simp flip: take_map add: sorted_wrt_take)
  moreover have "int (length out) \<le> limit" unfolding out using assms(2) by simp
  moreover have "m \<in> set ?all" if "m \<in> set out" for m
    using that unfolding out by (rule in_set_takeD)
  moreover have "out = ?all" if "int (length out) < limit" using that unfolding out by simp
  ultimately show ?thesis by (intro conjI ballI impI allI) (auto simp only: mem dest: sound)
qed

theorem due_scan_is_complete_witness:
  "length (due_schedule_markers 0 30 5 demo_repo) \<le> 5"
  using due_scan_is_complete [OF demo_repo_ok _ refl, of 5 0 30] by simp

section \<open>Dispatch leases\<close>

text \<open>
  Dispatch is single-flight: after a scheduler claims a marker nobody gets the same marker again
  before the lease lapses; recording the dispatch moves that moment to the redispatch time, and a
  scheduler with an older generation can neither record nor release it.
\<close>

theorem dispatch_is_single_flight:
  assumes "claim_dispatch now m own secs r = (\<lparr>dr_status = Dispatch_CLAIMED, dr_claim = Some d\<rparr>, r1)"
  shows "(\<forall>t other secs'. t < dc_lease_expires_at d \<longrightarrow>
      dr_status (fst (claim_dispatch t m other secs' r1)) = Dispatch_BUSY) \<and>
    (\<forall>again. fst (mark_dispatched d again r1) \<and>
      (\<forall>t other secs'. t < again \<longrightarrow>
         dr_status (fst (claim_dispatch t m other secs' (snd (mark_dispatched d again r1)))) =
           Dispatch_BUSY)) \<and>
    (\<forall>old again. dc_watch_id old = dc_watch_id d \<longrightarrow> dc_generation old \<noteq> dc_generation d \<longrightarrow>
       \<not> fst (mark_dispatched old again r1) \<and> \<not> fst (release_dispatch old r1))"
proof (cases rule: claim_dispatch_cases [of now m own secs r])
  case (refused st)
  with assms show ?thesis by simp
next
  case (granted w cur)
  then have r1: "r1 = snd (claim_dispatch now m own secs r)"
    and d: "d = \<lparr>dc_watch_id = mk_watch_id m, dc_window_id = mk_window_id m,
        dc_scheduled_for = mk_scheduled_for cur, dc_owner_id = own,
        dc_generation = next_token (dict_get (dispatch_fence r) (mk_watch_id m)),
        dc_lease_expires_at = now + timedelta_seconds secs\<rparr>"
    using assms by auto
  let ?l = "\<lparr>dl_window_id = mk_window_id m, dl_owner_id = own,
      dl_generation = next_token (dict_get (dispatch_fence r) (mk_watch_id m)),
      dl_expires_at = now + timedelta_seconds secs\<rparr>"
  have busy: "dr_status (fst (claim_dispatch t m other secs' r')) = Dispatch_BUSY"
    if "watches r' = watches r" "markers r' = markers r"
      "dict_get (dispatch_leases r') (mk_watch_id m) = Some l"
      "dl_window_id l = mk_window_id m" "t < dl_expires_at l" for t other secs' r' l
    using granted(1-4) that by (simp add: claim_dispatch_def Let_def)
  have held: "dict_get (dispatch_leases r1) (mk_watch_id m) = Some ?l" "watches r1 = watches r"
    "markers r1 = markers r" by (simp_all add: r1 granted(6))
  have mark: "mark_dispatched d again r1 = (True, r1\<lparr>dispatch_leases :=
      dict_set (mk_watch_id m) (?l\<lparr>dl_expires_at := again\<rparr>) (dispatch_leases r1)\<rparr>)" for again
    using held(1) by (simp add: mark_dispatched_def owns_dispatch_def d)
  have stale: "\<not> fst (mark_dispatched old again r1) \<and> \<not> fst (release_dispatch old r1)"
    if "dc_watch_id old = dc_watch_id d" "dc_generation old \<noteq> dc_generation d" for old again
    using that held(1) by (simp add: mark_dispatched_def release_dispatch_def owns_dispatch_def d)
  have "dc_lease_expires_at d = dl_expires_at ?l" by (simp add: d)
  then show ?thesis
    using busy [OF held(2,3) held(1)] stale
    by (intro conjI allI impI) (simp_all add: mark held(2,3) busy)
qed

definition demo_marker :: schedule_marker where
  "demo_marker = \<lparr>mk_watch_id = ''w1'', mk_window_id = ''w1:0'', mk_scheduled_for = 0\<rparr>"

theorem dispatch_is_single_flight_witness:
  "dr_status (fst (claim_dispatch 1000000 demo_marker ''s2'' 30
     (snd (claim_dispatch 0 demo_marker ''s1'' 30 demo_repo)))) = Dispatch_BUSY"
proof -
  have "claim_dispatch 0 demo_marker ''s1'' 30 demo_repo =
      (\<lparr>dr_status = Dispatch_CLAIMED, dr_claim = Some \<lparr>dc_watch_id = ''w1'', dc_window_id = ''w1:0'',
         dc_scheduled_for = 0, dc_owner_id = ''s1'', dc_generation = 1,
         dc_lease_expires_at = 30000000\<rparr>\<rparr>, snd (claim_dispatch 0 demo_marker ''s1'' 30 demo_repo))"
    by code_simp
  from dispatch_is_single_flight [OF this] show ?thesis by simp
qed

section \<open>Marker repair\<close>

text \<open>
  Recovery repairs a lost schedule and nothing else: writing a marker succeeds exactly when the
  watch is active, nobody holds a live claim on it, no marker is stored and the sidecar calls for
  one; then the sidecar and its marker are stored and the same repair cannot be done twice.
\<close>

theorem marker_repair:
  "(fst (synthesize_marker now k rt r) \<longleftrightarrow>
      c_active (cell_of r k) \<and> \<not> live_claim now (cell_of r k) \<and> dict_get (markers r) k = None \<and>
      marker_for k rt \<noteq> None) \<and>
   (fst (synthesize_marker now k rt r) \<longrightarrow>
      dict_get (markers (snd (synthesize_marker now k rt r))) k = marker_for k rt \<and>
      dict_get (runtimes (snd (synthesize_marker now k rt r))) k = Some rt \<and>
      \<not> fst (synthesize_marker t k rt' (snd (synthesize_marker now k rt r))))"
  by (auto simp: synthesize_marker_def c_active_cell_of live_claim_def is_terminal_def Let_def
      split: option.splits if_splits)

text \<open>The repair of a store that lost its marker.\<close>

definition demo_unmarked :: watch_repo where
  "demo_unmarked = demo_repo\<lparr>markers := []\<rparr>"

theorem marker_repair_witness:
  "dict_get (markers (snd (synthesize_marker 0 ''w1'' demo_runtime demo_unmarked))) ''w1'' =
     marker_for ''w1'' demo_runtime"
proof -
  have "fst (synthesize_marker 0 ''w1'' demo_runtime demo_unmarked)" by code_simp
  with marker_repair [of 0 "''w1''" demo_runtime demo_unmarked] show ?thesis by blast
qed

end
