(* ===== verification/Watch_Policy.thy ===== *)
theory Watch_Policy
  imports Watch_Models
begin

text \<open>
  Poll pacing (\<^verbatim>\<open>PollSchedule\<close> of \<^verbatim>\<open>backend/workers/scheduler.py\<close>) and the deadline-aware attempt
  budget (\<^verbatim>\<open>backend/services/watch_policy.py\<close>). Delays in seconds are exact rationals; the jitter
  drawn by \<^verbatim>\<open>random.uniform(-j, j)\<close> is an argument. The lemmas bound the delays and show what the
  budget is for: a watch with enough attempts outlives every admissible sequence of checks.
\<close>

section \<open>PollSchedule\<close>

record poll_schedule =
  interval_seconds :: seconds
  jitter_seconds :: seconds

definition MIN_DELAY_SECONDS :: seconds where "MIN_DELAY_SECONDS = 1"

definition schedule_post_init :: "poll_schedule \<Rightarrow> model_error + poll_schedule" where
  "schedule_post_init s =
     (if interval_seconds s \<le> 0 then Inl ValueError
      else if jitter_seconds s < 0 then Inl ValueError
      else if interval_seconds s \<le> jitter_seconds s then Inl ValueError
      else Inr s)"

definition schedule_valid :: "poll_schedule \<Rightarrow> bool" where
  "schedule_valid s \<longleftrightarrow>
     0 < interval_seconds s \<and> 0 \<le> jitter_seconds s \<and> jitter_seconds s < interval_seconds s"

lemma schedule_post_init_valid: "schedule_post_init s = Inr s' \<longleftrightarrow> s' = s \<and> schedule_valid s"
  by (auto simp: schedule_post_init_def schedule_valid_def)

definition next_delay :: "poll_schedule \<Rightarrow> seconds \<Rightarrow> seconds" where
  "next_delay s offset = max MIN_DELAY_SECONDS (interval_seconds s + offset)"

definition earliest_delay :: "poll_schedule \<Rightarrow> seconds" where
  "earliest_delay s = max MIN_DELAY_SECONDS (interval_seconds s - jitter_seconds s)"

definition latest_delay :: "poll_schedule \<Rightarrow> seconds" where
  "latest_delay s = interval_seconds s + jitter_seconds s"

text \<open>What \<^verbatim>\<open>random.uniform(-j, j)\<close> may return.\<close>

definition jitter_draw :: "poll_schedule \<Rightarrow> seconds \<Rightarrow> bool" where
  "jitter_draw s x \<longleftrightarrow> - jitter_seconds s \<le> x \<and> x \<le> jitter_seconds s"

lemma next_delay_bounds:
  "jitter_draw s x \<Longrightarrow> earliest_delay s \<le> next_delay s x \<and>
     next_delay s x \<le> max MIN_DELAY_SECONDS (latest_delay s)"
  unfolding jitter_draw_def earliest_delay_def next_delay_def latest_delay_def max_def by auto

lemma next_delay_floor: "MIN_DELAY_SECONDS \<le> next_delay s x"
  by (simp add: next_delay_def)

section \<open>AvailabilityPolicyFactory\<close>

datatype policy_limit = CALENDAR | SAFETY_CEILING

record availability_policy =
  pol_required_attempts :: int
  effective_attempts :: int
  supports_deadline :: bool
  limiting_reason :: policy_limit

definition is_attempt_limited :: "availability_policy \<Rightarrow> bool" where
  "is_attempt_limited p \<longleftrightarrow> \<not> supports_deadline p"

definition monitoring_policy_header :: "availability_policy \<Rightarrow> string" where
  "monitoring_policy_header p = (if supports_deadline p then ''deadline'' else ''attempt-limited'')"

definition earliest_delay_microseconds :: "poll_schedule \<Rightarrow> int" where
  "earliest_delay_microseconds s = max 1 (py_round (earliest_delay s * 1000000))"

definition derive :: "poll_schedule \<Rightarrow> time \<Rightarrow> time \<Rightarrow> int \<Rightarrow> model_error + availability_policy" where
  "derive s now expires_at safety_ceiling =
     (if safety_ceiling < 1 then Inl ValueError
      else
        (let earliest_us = earliest_delay_microseconds s;
             remaining_us = max 0 (expires_at - now);
             interval_count = - ((- remaining_us) div earliest_us);
             required = interval_count + 1;
             effective = min required safety_ceiling;
             supports = (effective = required)
         in Inr \<lparr>pol_required_attempts = required, effective_attempts = effective,
                 supports_deadline = supports,
                 limiting_reason = (if supports then CALENDAR else SAFETY_CEILING)\<rparr>))"

lemma earliest_us_pos: "1 \<le> earliest_delay_microseconds s"
  by (simp add: earliest_delay_microseconds_def)

text \<open>Rounding up: the number of whole intervals that cover a non-negative span.\<close>

lemma ceil_div_bounds:
  fixes a b :: int
  assumes "0 < b"
  shows "a \<le> - ((- a) div b) * b" and "(- ((- a) div b) - 1) * b < a"
proof -
  have "(- a) div b * b + (- a) mod b = - a" by simp
  moreover have "0 \<le> (- a) mod b" and "(- a) mod b < b" using assms by simp_all
  ultimately have "(- a) div b * b \<le> - a" and "- a < ((- a) div b + 1) * b"
    unfolding distrib_right by linarith+
  then show "a \<le> - ((- a) div b) * b" and "(- ((- a) div b) - 1) * b < a"
    by (simp_all add: algebra_simps)
qed

lemma ceil_div_nonneg:
  fixes a b :: int
  assumes "0 < b" and "0 \<le> a"
  shows "0 \<le> - ((- a) div b)"
proof -
  have "(- a) div b \<le> 0 div b" using assms by (intro zdiv_mono1) simp_all
  then show ?thesis by simp
qed

lemma derive_cases:
  assumes "derive s now expires ceil = Inr p"
  obtains "1 \<le> ceil" "1 \<le> pol_required_attempts p"
    "max 0 (expires - now) \<le> (pol_required_attempts p - 1) * earliest_delay_microseconds s"
    "(pol_required_attempts p - 2) * earliest_delay_microseconds s < max 0 (expires - now)"
    "effective_attempts p = min (pol_required_attempts p) ceil"
    "supports_deadline p \<longleftrightarrow> pol_required_attempts p \<le> ceil"
    "limiting_reason p = CALENDAR \<longleftrightarrow> supports_deadline p"
proof -
  let ?e = "earliest_delay_microseconds s" and ?n = "max 0 (expires - now)"
  have e: "0 < ?e" using earliest_us_pos [of s] by linarith
  from assms(1) have "1 \<le> ceil" and p: "pol_required_attempts p = - ((- ?n) div ?e) + 1"
    "effective_attempts p = min (pol_required_attempts p) ceil"
    "supports_deadline p \<longleftrightarrow> min (pol_required_attempts p) ceil = pol_required_attempts p"
    "limiting_reason p = CALENDAR \<longleftrightarrow> supports_deadline p"
    by (auto simp: derive_def Let_def split: if_splits)
  note nonneg = ceil_div_nonneg [OF e, of ?n]
  note bounds = ceil_div_bounds [OF e, of ?n]
  show thesis
  proof (rule that)
    show "1 \<le> pol_required_attempts p" using nonneg p(1) by simp
    show "max 0 (expires - now) \<le> (pol_required_attempts p - 1) * ?e"
      using bounds(1) unfolding p(1) by simp
    show "(pol_required_attempts p - 2) * ?e < max 0 (expires - now)"
      using bounds(2) unfolding p(1) by (simp only: algebra_simps)
    show "supports_deadline p \<longleftrightarrow> pol_required_attempts p \<le> ceil" using p(3) by (simp add: min_def)
  qed (rule \<open>1 \<le> ceil\<close> p(2) p(4))+
qed

lemma derive_total: "1 \<le> ceil \<Longrightarrow> \<exists>p. derive s now expires ceil = Inr p"
  by (simp add: derive_def Let_def)

text \<open>Times of checks spaced at least one earliest delay apart, the first at \<open>start\<close>.\<close>

fun spaced_from :: "int \<Rightarrow> time \<Rightarrow> time list \<Rightarrow> bool" where
  "spaced_from gap start [] = True"
| "spaced_from gap start (t # ts) = (start \<le> t \<and> spaced_from gap (t + gap) ts)"

lemma spaced_from_last:
  "spaced_from gap start ts \<Longrightarrow> 0 \<le> gap \<Longrightarrow> ts \<noteq> [] \<Longrightarrow>
   start + (int (length ts) - 1) * gap \<le> last ts"
proof (induction ts arbitrary: start)
  case (Cons t ts)
  show ?case
  proof (cases "ts = []")
    case True
    with Cons show ?thesis by simp
  next
    case False
    with Cons.IH [of "t + gap"] Cons.prems show ?thesis by (simp add: algebra_simps)
  qed
qed simp

text \<open>
  What the attempt budget promises: a watch whose policy supports its deadline never runs out of
  checks before it. However the checks are spaced, as long as none comes sooner than the earliest
  delay after the one before, the checks made before the expiry are fewer than the budget granted;
  and a watch that is not granted the required number is reported as attempt-limited.
\<close>

theorem budget_outlasts_deadline:
  assumes "derive s now expires ceil = Inr p"
    and "spaced_from (earliest_delay_microseconds s) now ts"
    and "\<And>t. t \<in> set ts \<Longrightarrow> t < expires"
  shows "(supports_deadline p \<longrightarrow> int (length ts) < effective_attempts p) \<and>
    1 \<le> effective_attempts p \<and> effective_attempts p \<le> ceil \<and>
    (supports_deadline p \<longleftrightarrow> effective_attempts p = pol_required_attempts p) \<and>
    (monitoring_policy_header p = ''attempt-limited'' \<longleftrightarrow> effective_attempts p < pol_required_attempts p)"
  using assms(1)
proof (cases rule: derive_cases)
  case 1
  let ?e = "earliest_delay_microseconds s"
  have "int (length ts) < pol_required_attempts p"
  proof (cases "ts = []")
    case True
    with 1 show ?thesis by simp
  next
    case False
    with spaced_from_last [OF assms(2) _ False] earliest_us_pos [of s] assms(3) [of "last ts"]
    have "(int (length ts) - 1) * ?e < expires - now" by simp
    with 1(3) have "(int (length ts) - 1) * ?e < (pol_required_attempts p - 1) * ?e" by linarith
    with earliest_us_pos [of s] show ?thesis by (simp add: mult_less_cancel_right)
  qed
  with 1 show ?thesis by (auto simp: monitoring_policy_header_def min_def)
qed

definition demo_schedule :: poll_schedule where
  "demo_schedule = \<lparr>interval_seconds = 180, jitter_seconds = 45\<rparr>"

theorem budget_outlasts_deadline_witness:
  "supports_deadline (projr (derive demo_schedule 0 900000000 200)) \<and>
     (3 :: int) < effective_attempts (projr (derive demo_schedule 0 900000000 200))"
proof -
  have d: "derive demo_schedule 0 900000000 200 = Inr (projr (derive demo_schedule 0 900000000 200))"
    by (simp add: derive_def Let_def)
  have capable: "supports_deadline (projr (derive demo_schedule 0 900000000 200))" by code_simp
  have "spaced_from (earliest_delay_microseconds demo_schedule) 0 [0, 200000000, 400000000]"
    by code_simp
  from budget_outlasts_deadline [OF d this] capable
  have "int (length [0 :: time, 200000000, 400000000]) <
        effective_attempts (projr (derive demo_schedule 0 900000000 200))" by fastforce
  then show ?thesis using capable by simp
qed

section \<open>Recovering the policy from the stored watch\<close>

text \<open>\<^verbatim>\<open>WatchService.describe_policy\<close>: derive against the stored ceiling.\<close>

definition describe_policy :: "poll_schedule \<Rightarrow> watch \<Rightarrow> model_error + availability_policy" where
  "describe_policy s w = derive s (created_at w) (w_expires_at w) (max_attempts w)"

text \<open>
  The creation-time policy can be read back from the public document: deriving against the stored
  effective budget reproduces the required and effective attempts, and the watch is described as
  deadline-capable exactly when it was created so.
\<close>

theorem policy_roundtrip:
  assumes "derive s (created_at w) (w_expires_at w) ceil = Inr p"
    and "max_attempts w = effective_attempts p"
  shows "describe_policy s w = Inr p"
proof -
  have "0 \<le> - ((- max 0 (w_expires_at w - created_at w)) div earliest_delay_microseconds s)"
    using earliest_us_pos [of s] by (intro ceil_div_nonneg) simp_all
  with assms show ?thesis
    by (auto simp: describe_policy_def derive_def Let_def min_def not_less split: if_splits)
qed

definition demo_budgeted :: watch where
  "demo_budgeted = \<lparr>watch_id = ''w1'', w_status = ACTIVE,
     w_query = \<lparr>q_venue_name = ''Babel'', q_venue_type = RESTAURANT, q_market = MARKET,
       q_party_size = 2, q_date = ''2026-03-01'', q_preferred_time = Some ''19:00'',
       q_time_window = None, q_duration_minutes = None, q_special_requests = []\<rparr>,
     auto_book = False, created_at = 0, updated_at = 0, w_expires_at = 900000000, attempts = 0,
     max_attempts = 3, last_checked_at = None, next_check_at = Some 0, found_slots = [],
     w_booking = None, last_error = None\<rparr>"

theorem policy_roundtrip_witness:
  "describe_policy demo_schedule demo_budgeted =
     Inr \<lparr>pol_required_attempts = 8, effective_attempts = 3, supports_deadline = False,
          limiting_reason = SAFETY_CEILING\<rparr>"
  by (rule policy_roundtrip [where ceil = 3]) code_simp+

end
