(* ===== verification/Adapter_Contract.thy ===== *)
theory Adapter_Contract
  imports Watch_Models
begin

text \<open>
  The provider-neutral adapter interface of \<^verbatim>\<open>backend/integrations/base.py\<close>. An adapter is a record of
  its four operations over a provider state \<open>'p\<close>; a raised \<^verbatim>\<open>AdapterError\<close> is a left value. The locale
  \<open>reservation_adapter\<close> is the contract the watch service relies on: answers are well-formed model
  objects, and a booking key that holds a booking keeps it.
\<close>

datatype adapter_error =
  Slot_Not_Found string | Slot_Unavailable string | Adapter_Error string

datatype reconciliation_status = Recon_CONFIRMED | Recon_DEFINITIVELY_ABSENT | Recon_UNKNOWN

record reconciliation_result =
  rec_status :: reconciliation_status
  rec_confirmation :: "booking_confirmation option"

text \<open>Every operation is given the instant the adapter's clock reads while it runs.\<close>

record 'p adapter =
  search_availability ::
    "time \<Rightarrow> availability_query \<Rightarrow> 'p \<Rightarrow> (adapter_error + availability_slot list) \<times> 'p"
  get_booking ::
    "time \<Rightarrow> string \<Rightarrow> 'p \<Rightarrow> (adapter_error + booking_confirmation option) \<times> 'p"
  book_slot ::
    "time \<Rightarrow> string \<Rightarrow> string \<Rightarrow> 'p \<Rightarrow> (adapter_error + booking_confirmation) \<times> 'p"
  reconcile_booking ::
    "time \<Rightarrow> string \<Rightarrow> 'p \<Rightarrow> (adapter_error + reconciliation_result) \<times> 'p"

text \<open>The base class's conservative \<^verbatim>\<open>reconcile_booking\<close>: an absent booking is unknown, not absent.\<close>

definition default_reconcile_booking ::
  "(string \<Rightarrow> 'p \<Rightarrow> (adapter_error + booking_confirmation option) \<times> 'p) \<Rightarrow>
   string \<Rightarrow> 'p \<Rightarrow> (adapter_error + reconciliation_result) \<times> 'p" where
  "default_reconcile_booking get key p =
     (case get key p of
        (Inl err, p') \<Rightarrow> (Inl err, p')
      | (Inr (Some b), p') \<Rightarrow>
          (Inr \<lparr>rec_status = Recon_CONFIRMED, rec_confirmation = Some b\<rparr>, p')
      | (Inr None, p') \<Rightarrow> (Inr \<lparr>rec_status = Recon_UNKNOWN, rec_confirmation = None\<rparr>, p'))"

text \<open>
  The contract. \<open>ok\<close> is the provider's own invariant and \<open>live t p k\<close> the booking it holds under key \<open>k\<close>
  and still protects at time \<open>t\<close>. Each operation keeps \<open>ok\<close>, answers with valid objects and touches no
  other key; a protected booking is never replaced, and booking again under its key returns it.
\<close>

locale reservation_adapter =
  fixes A :: "'p adapter"
    and ok :: "'p \<Rightarrow> bool"
    and live :: "time \<Rightarrow> 'p \<Rightarrow> string \<Rightarrow> booking_confirmation option"
  assumes search_sound:
      "ok p \<Longrightarrow> query_valid q \<Longrightarrow> search_availability A now q p = (found, p') \<Longrightarrow>
       ok p' \<and> (\<forall>t. live t p' = live t p) \<and> (\<forall>slots. found = Inr slots \<longrightarrow> list_all slot_valid slots)"
    and get_sound:
      "ok p \<Longrightarrow> get_booking A now key p = (known, p') \<Longrightarrow>
       ok p' \<and> (\<forall>t. live t p' = live t p) \<and> (\<forall>b. known = Inr (Some b) \<longrightarrow> live now p key = Some b)"
    and book_sound:
      "ok p \<Longrightarrow> book_slot A now slot key p = (made, p') \<Longrightarrow>
       ok p' \<and> (\<forall>t k. k \<noteq> key \<longrightarrow> live t p' k = live t p k) \<and>
       (live now p key \<noteq> None \<longrightarrow> (\<forall>t. live t p' key = live t p key)) \<and>
       (\<forall>b. made = Inr b \<longrightarrow> live now p' key = Some b)"
    and reconcile_sound:
      "ok p \<Longrightarrow> reconcile_booking A now key p = (answer, p') \<Longrightarrow>
       ok p' \<and> (\<forall>t. live t p' = live t p) \<and>
       (\<forall>r. answer = Inr r \<longrightarrow>
          (rec_status r = Recon_CONFIRMED \<longrightarrow>
             (\<exists>b. rec_confirmation r = Some b \<and> live now p key = Some b)) \<and>
          (rec_status r = Recon_DEFINITIVELY_ABSENT \<longrightarrow> live now p key = None))"
    and live_valid: "ok p \<Longrightarrow> live t p key = Some b \<Longrightarrow> confirmation_valid b"
    and live_lapses: "live t p key = Some b \<Longrightarrow> s \<le> t \<Longrightarrow> live s p key = Some b"
begin

text \<open>Booking twice under one key yields one booking while it is protected, whatever the slots.\<close>

lemma book_idempotent:
  assumes "ok p" and "book_slot A now s key p = (Inr b, p1)" and "live later p1 key = Some b"
    and "book_slot A later s' key p1 = (res, p2)"
  shows "live later p2 key = Some b" and "\<And>b'. res = Inr b' \<Longrightarrow> b' = b"
  using book_sound [OF assms(1,2)] book_sound [OF _ assms(4)] assms(3) by auto

end

end
