(* ===== verification/Service_World.thy ===== *)
theory Service_World
  imports Watch_Protocol Watch_Policy Adapter_Contract
begin

text \<open>
  What the coroutines of \<^verbatim>\<open>backend/services/watch_service.py\<close> run in. A \<open>world\<close> is the shared store,
  the provider's state, the clock and the calls made to the notifier, the history projection and the
  queue. Every \<open>await\<close> is a point where anybody else may act: \<open>pause\<close> applies \<open>others\<close>, an arbitrary
  function of the await's number, before the awaited call itself runs. \<open>deadline\<close> says at which awaits
  of the provider sequence \<^verbatim>\<open>asyncio.timeout\<close> strikes, and \<open>fault\<close> at which awaits the call raises an
  exception the service does not expect (a lost Redis connection, a failed validation inside the
  provider, anything but an \<^verbatim>\<open>AdapterError\<close>); each may strike before or after the call took effect.
\<close>

section \<open>Errors\<close>

text \<open>
  What a method of the service raises. \<open>Call_Failed\<close> is whatever an awaited call of the store or the
  provider raised that is not an \<^verbatim>\<open>AdapterError\<close>, passed on as it is.
\<close>

datatype service_error =
  Past_Reservation_Date | Ownership_Unavailable | Model_Error model_error
| Provider_Failure adapter_error | Queue_Error | Attribute_Error | Key_Error | Assertion_Error
| Never_Returns | Call_Failed

section \<open>Collaborators\<close>

datatype watch_event = Event_AVAILABILITY_FOUND | Event_BOOKED | Event_EXPIRED

record history_call =
  hc_watch :: watch
  hc_owner :: "string option"
  hc_user :: "string option"
  hc_revision :: int

record publication =
  pub_watch_id :: string
  pub_window_id :: "string option"
  pub_delay_seconds :: seconds
  pub_due_at :: "time option"
  pub_task_id :: "string option"

record 'p world =
  w_now :: time
  w_repo :: watch_repo
  w_provider :: 'p
  w_awaits :: nat
  history_calls :: "history_call list"
  notified :: "(watch \<times> watch_event) list"
  published :: "publication list"

datatype cut = Runs | Cut_before | Cut_after

record 'p env =
  others :: "nat \<Rightarrow> time \<times> watch_repo \<times> 'p \<Rightarrow> time \<times> watch_repo \<times> 'p"
  deadline :: "nat \<Rightarrow> cut"
  fault :: "nat \<Rightarrow> cut"
  provider :: "'p adapter"
  sha1hex :: "string \<Rightarrow> string"
  uniform :: "nat \<Rightarrow> seconds"
  uuid4_hex :: "nat \<Rightarrow> string"
  record_fails :: "nat \<Rightarrow> bool"
  publish_fails :: "nat \<Rightarrow> bool"
  local_date :: "time \<Rightarrow> date"
  local_midnight :: "int \<Rightarrow> time"

text \<open>The service's own settings, as \<^verbatim>\<open>WatchService.__init__\<close> stores them.\<close>

record service_config =
  schedule :: poll_schedule
  cfg_max_attempts :: int
  backoff_max_seconds :: seconds
  has_history :: bool

definition make_service :: "poll_schedule \<Rightarrow> int \<Rightarrow> seconds \<Rightarrow> bool \<Rightarrow> service_config" where
  "make_service sched max_att backoff hist =
     \<lparr>schedule = sched, cfg_max_attempts = max_att,
      backoff_max_seconds = max backoff (interval_seconds sched), has_history = hist\<rparr>"

section \<open>Awaiting\<close>

definition pause :: "'p env \<Rightarrow> 'p world \<Rightarrow> 'p world" where
  "pause e w =
     (let (t, r, p) = others e (w_awaits w) (w_now w, w_repo w, w_provider w)
      in w\<lparr>w_now := t, w_repo := r, w_provider := p, w_awaits := Suc (w_awaits w)\<rparr>)"

definition on_repo :: "(time \<Rightarrow> watch_repo \<Rightarrow> 'a \<times> watch_repo) \<Rightarrow> 'p world \<Rightarrow> 'a \<times> 'p world" where
  "on_repo f w = (let (x, r) = f (w_now w) (w_repo w) in (x, w\<lparr>w_repo := r\<rparr>))"

definition on_provider :: "(time \<Rightarrow> 'p \<Rightarrow> 'a \<times> 'p) \<Rightarrow> 'p world \<Rightarrow> 'a \<times> 'p world" where
  "on_provider f w = (let (x, p) = f (w_now w) (w_provider w) in (x, w\<lparr>w_provider := p\<rparr>))"

text \<open>
  One awaited call: others act, then it answers, or it raises before or after having taken effect.
\<close>

definition await_call ::
  "'p env \<Rightarrow> ('p world \<Rightarrow> 'a \<times> 'p world) \<Rightarrow> 'p world \<Rightarrow> (service_error + 'a) \<times> 'p world" where
  "await_call e f w =
     (let w1 = pause e w in
      case fault e (w_awaits w) of
        Cut_before \<Rightarrow> (Inl Call_Failed, w1)
      | Cut_after \<Rightarrow> (Inl Call_Failed, snd (f w1))
      | Runs \<Rightarrow> (let (x, w2) = f w1 in (Inr x, w2)))"

text \<open>One awaited store call, and one awaited read of the store.\<close>

definition call_repo ::
  "'p env \<Rightarrow> (time \<Rightarrow> watch_repo \<Rightarrow> 'a \<times> watch_repo) \<Rightarrow> 'p world \<Rightarrow> (service_error + 'a) \<times> 'p world" where
  "call_repo e f = await_call e (on_repo f)"

definition read_repo ::
  "'p env \<Rightarrow> (watch_repo \<Rightarrow> 'a) \<Rightarrow> 'p world \<Rightarrow> (service_error + 'a) \<times> 'p world" where
  "read_repo e f = call_repo e (\<lambda>_ r. (f r, r))"

text \<open>The code after a call runs only when the call answered; what it raised is passed on.\<close>

definition proceed ::
  "(service_error + 'a) \<times> 'p world \<Rightarrow> ('a \<Rightarrow> 'p world \<Rightarrow> (service_error + 'b) \<times> 'p world)
     \<Rightarrow> (service_error + 'b) \<times> 'p world" where
  "proceed out k = (case out of (Inl err, w) \<Rightarrow> (Inl err, w) | (Inr x, w) \<Rightarrow> k x w)"

lemma proceed_simps [simp]:
  "proceed (Inl err, w) k = (Inl err, w)" "proceed (Inr x, w) k = k x w"
  by (simp_all add: proceed_def)

section \<open>The deadline-bounded sequence\<close>

text \<open>
  Code under \<^verbatim>\<open>asyncio.timeout\<close>: a computation ends with a value, with the deadline's
  \<^verbatim>\<open>TimeoutError\<close>, with an \<^verbatim>\<open>AdapterError\<close> raised inside, or broken by any other exception.
\<close>

datatype seq_exc = Timed_out | Raised adapter_error | Broke

type_synonym ('p, 'a) seq = "'p world \<Rightarrow> (seq_exc + 'a) \<times> 'p world"

definition seq_return :: "'a \<Rightarrow> ('p, 'a) seq" where
  "seq_return x w = (Inr x, w)"

definition seq_raise :: "seq_exc \<Rightarrow> ('p, 'a) seq" where
  "seq_raise ex w = (Inl ex, w)"

definition seq_then :: "('p, 'a) seq \<Rightarrow> ('a \<Rightarrow> ('p, 'b) seq) \<Rightarrow> ('p, 'b) seq" where
  "seq_then m f w = (case m w of (Inl ex, w') \<Rightarrow> (Inl ex, w') | (Inr x, w') \<Rightarrow> f x w')"

text \<open>
  \<^verbatim>\<open>try: m; except AdapterError as exc: handler(exc); else: f\<close>. Neither a timeout nor a broken call is an
  \<^verbatim>\<open>AdapterError\<close>.
\<close>

definition seq_try ::
  "('p, 'a) seq \<Rightarrow> ('a \<Rightarrow> ('p, 'b) seq) \<Rightarrow> (adapter_error \<Rightarrow> ('p, 'b) seq) \<Rightarrow> ('p, 'b) seq" where
  "seq_try m f handler w =
     (case m w of
        (Inl Timed_out, w') \<Rightarrow> (Inl Timed_out, w')
      | (Inl Broke, w') \<Rightarrow> (Inl Broke, w')
      | (Inl (Raised err), w') \<Rightarrow> handler err w'
      | (Inr x, w') \<Rightarrow> f x w')"

definition bounded :: "'p env \<Rightarrow> ('p world \<Rightarrow> 'a \<times> 'p world) \<Rightarrow> ('p, 'a) seq" where
  "bounded e f w =
     (let w1 = pause e w in
      case deadline e (w_awaits w) of
        Cut_before \<Rightarrow> (Inl Timed_out, w1)
      | Cut_after \<Rightarrow> (Inl Timed_out, snd (f w1))
      | Runs \<Rightarrow>
          (case await_call e f w of
             (Inl _, w2) \<Rightarrow> (Inl Broke, w2)
           | (Inr x, w2) \<Rightarrow> (Inr x, w2)))"

definition ask_provider :: "'p env \<Rightarrow> (time \<Rightarrow> 'p \<Rightarrow> (adapter_error + 'a) \<times> 'p) \<Rightarrow> ('p, 'a) seq" where
  "ask_provider e f =
     seq_then (bounded e (on_provider f))
       (\<lambda>answer. case answer of Inl err \<Rightarrow> seq_raise (Raised err) | Inr x \<Rightarrow> seq_return x)"

definition ask_repo :: "'p env \<Rightarrow> (time \<Rightarrow> watch_repo \<Rightarrow> 'a \<times> watch_repo) \<Rightarrow> ('p, 'a) seq" where
  "ask_repo e f = bounded e (on_repo f)"

lemmas seq_defs = seq_return_def seq_raise_def seq_then_def seq_try_def

section \<open>Best-effort observers\<close>

text \<open>\<^verbatim>\<open>_record_history\<close>: nothing without a recorder; its failure is logged and swallowed.\<close>

definition record_history ::
  "'p env \<Rightarrow> service_config \<Rightarrow> watch \<Rightarrow> string option \<Rightarrow> string option \<Rightarrow> int \<Rightarrow> 'p world \<Rightarrow> 'p world" where
  "record_history e cfg w owner user rvn s =
     (if \<not> has_history cfg then s
      else (pause e s)\<lparr>history_calls := history_calls s @
              [\<lparr>hc_watch = w, hc_owner = owner, hc_user = user, hc_revision = rvn\<rparr>]\<rparr>)"

text \<open>\<^verbatim>\<open>_notify\<close>: one bounded call; a failure or a timeout is logged and swallowed.\<close>

definition notify_owner :: "'p env \<Rightarrow> watch \<Rightarrow> watch_event \<Rightarrow> 'p world \<Rightarrow> 'p world" where
  "notify_owner e w ev s = (pause e s)\<lparr>notified := notified s @ [(w, ev)]\<rparr>"

text \<open>\<^verbatim>\<open>_dispatch\<close>: one publication; a broker failure is logged and swallowed.\<close>

definition dispatch_poll ::
  "'p env \<Rightarrow> string \<Rightarrow> string option \<Rightarrow> seconds \<Rightarrow> time \<Rightarrow> 'p world \<Rightarrow> 'p world" where
  "dispatch_poll e wid win delay due s =
     (pause e s)\<lparr>published := published s @
        [\<lparr>pub_watch_id = wid, pub_window_id = win, pub_delay_seconds = delay,
          pub_due_at = Some due, pub_task_id = None\<rparr>]\<rparr>"

end
