(* ===== verification/Watch_Service.thy ===== *)
theory Watch_Service
  imports Service_World "HOL-Library.While_Combinator"
begin

text \<open>
  \<^verbatim>\<open>WatchService\<close> of \<^verbatim>\<open>backend/services/watch_service.py\<close>, method by method: creation, cancellation and
  expiry, the claim-first poll of one cadence window with its bounded provider sequence, the fenced
  booking path, the outage backoff, and the pre-sidecar compatibility path. A method that raises
  answers with a left value, also when one of its own calls raised; a loop that may not end answers
  \<open>Never_Returns\<close>.
\<close>

definition MAX_RECORDED_SLOTS :: int where "MAX_RECORDED_SLOTS = 16"
definition POLL_LEASE_SECONDS :: seconds where "POLL_LEASE_SECONDS = 120"
definition RECONCILE_ATTEMPTS :: nat where "RECONCILE_ATTEMPTS = 3"

datatype sequence_plan =
  Seq_MISS | Seq_FOUND "availability_slot list" | Seq_BOOKED "booking_confirmation option"
| Seq_BOOKED_REPLAY booking_confirmation | Seq_CANCELLED | Seq_NOOP

fun event_for :: "watch_status \<Rightarrow> watch_event option" where
  "event_for FOUND = Some Event_AVAILABILITY_FOUND"
| "event_for BOOKED = Some Event_BOOKED"
| "event_for EXPIRED = Some Event_EXPIRED"
| "event_for ACTIVE = None"
| "event_for CANCELLED = None"

fun outcome_for :: "watch_status \<Rightarrow> poll_outcome option" where
  "outcome_for FOUND = Some Outcome_FOUND"
| "outcome_for BOOKED = Some Outcome_BOOKED"
| "outcome_for EXPIRED = Some Outcome_EXPIRED"
| "outcome_for ACTIVE = None"
| "outcome_for CANCELLED = None"

text \<open>\<^verbatim>\<open>str(exc)[:500] or "The reservation provider failed"\<close>.\<close>

definition error_text :: "string \<Rightarrow> string" where
  "error_text msg =
     (let s = take 500 msg in if s = [] then ''The reservation provider failed'' else s)"

fun error_message :: "adapter_error \<Rightarrow> string" where
  "error_message (Slot_Not_Found msg) = msg"
| "error_message (Slot_Unavailable msg) = msg"
| "error_message (Adapter_Error msg) = msg"

definition idempotency_key :: "watch \<Rightarrow> string" where
  "idempotency_key w = ''watch:'' @ watch_id w"

definition noop_result :: "watch option \<Rightarrow> poll_result" where
  "noop_result w =
     (case w of
        None \<Rightarrow> \<lparr>pr_outcome = Outcome_UNKNOWN_WATCH, pr_watch = None, retry_in_seconds = None\<rparr>
      | Some x \<Rightarrow>
          \<lparr>pr_outcome = Outcome_ALREADY_FINISHED, pr_watch = Some x, retry_in_seconds = None\<rparr>)"

section \<open>Terminal watch builders\<close>

definition found_watch :: "watch \<Rightarrow> availability_slot list \<Rightarrow> time \<Rightarrow> watch" where
  "found_watch w slots now =
     w\<lparr>w_status := FOUND, found_slots := py_take MAX_RECORDED_SLOTS slots, next_check_at := None,
       updated_at := now, attempts := min (attempts w + 1) (max_attempts w),
       last_checked_at := Some now, last_error := None\<rparr>"

definition booked_watch :: "watch \<Rightarrow> time \<Rightarrow> booking_confirmation \<Rightarrow> bool \<Rightarrow> watch" where
  "booked_watch w now b attempted =
     (let w' = w\<lparr>w_status := BOOKED, found_slots := [bk_slot b], w_booking := Some b,
                 next_check_at := None, updated_at := now\<rparr>
      in if attempted
         then w'\<lparr>attempts := min (attempts w + 1) (max_attempts w), last_checked_at := Some now,
                 last_error := None\<rparr>
         else w')"

definition cancelled_watch :: "watch \<Rightarrow> time \<Rightarrow> watch" where
  "cancelled_watch w now = w\<lparr>w_status := CANCELLED, next_check_at := None, updated_at := now\<rparr>"

definition expired_watch :: "watch \<Rightarrow> time \<Rightarrow> bool \<Rightarrow> watch" where
  "expired_watch w now attempted =
     (let w' = w\<lparr>w_status := EXPIRED, next_check_at := None, updated_at := now\<rparr>
      in if attempted then w'\<lparr>last_checked_at := Some now\<rparr> else w')"

section \<open>Provider interaction\<close>

fun book_first :: "'p env \<Rightarrow> watch \<Rightarrow> availability_slot list \<Rightarrow> ('p, booking_confirmation option) seq" where
  "book_first e w [] = seq_return None"
| "book_first e w (slot # slots) =
     seq_try (ask_provider e (\<lambda>now. book_slot (provider e) now (slot_id slot) (idempotency_key w)))
       (\<lambda>b. seq_return (Some b))
       (\<lambda>err. case err of
                Slot_Unavailable _ \<Rightarrow> book_first e w slots
              | Slot_Not_Found _ \<Rightarrow> book_first e w slots
              | Adapter_Error _ \<Rightarrow> seq_raise (Raised err))"

definition is_cancel_requested :: "'p env \<Rightarrow> string \<Rightarrow> ('p, bool) seq" where
  "is_cancel_requested e wid =
     seq_then (ask_repo e (\<lambda>now r. (get_runtime wid r, r)))
       (\<lambda>rt. seq_return (case rt of None \<Rightarrow> False | Some x \<Rightarrow> cancel_requested x))"

fun resolve_ambiguous :: "'p env \<Rightarrow> watch \<Rightarrow> adapter_error \<Rightarrow> nat \<Rightarrow> ('p, sequence_plan) seq" where
  "resolve_ambiguous e w err 0 = seq_raise (Raised err)"
| "resolve_ambiguous e w err (Suc n) =
     seq_then (ask_provider e (\<lambda>now. reconcile_booking (provider e) now (idempotency_key w)))
       (\<lambda>outcome.
          case rec_status outcome of
            Recon_CONFIRMED \<Rightarrow> seq_return (Seq_BOOKED (rec_confirmation outcome))
          | Recon_DEFINITIVELY_ABSENT \<Rightarrow>
              seq_then (is_cancel_requested e (watch_id w))
                (\<lambda>c. if c then seq_return Seq_CANCELLED else seq_raise (Raised err))
          | Recon_UNKNOWN \<Rightarrow> resolve_ambiguous e w err n)"

definition auto_book_sequence ::
  "'p env \<Rightarrow> window_claim \<Rightarrow> watch \<Rightarrow> availability_slot list \<Rightarrow> ('p, sequence_plan) seq" where
  "auto_book_sequence e cl w slots =
     seq_then (ask_repo e (\<lambda>now. begin_booking now cl))
       (\<lambda>permit.
          if bp_status permit = Permit_CANCELLED then seq_return Seq_CANCELLED
          else if bp_status permit \<noteq> Permit_GRANTED then seq_return Seq_NOOP
          else
            seq_try (book_first e w slots)
              (\<lambda>confirmation.
                 case confirmation of
                   Some b \<Rightarrow> seq_return (Seq_BOOKED (Some b))
                 | None \<Rightarrow>
                     seq_then (is_cancel_requested e (watch_id w))
                       (\<lambda>c. seq_return (if c then Seq_CANCELLED else Seq_MISS)))
              (\<lambda>err. resolve_ambiguous e w err RECONCILE_ATTEMPTS))"

definition provider_sequence :: "'p env \<Rightarrow> window_claim \<Rightarrow> watch \<Rightarrow> ('p, sequence_plan) seq" where
  "provider_sequence e cl w =
     seq_then
       (if auto_book w
        then ask_provider e (\<lambda>now. get_booking (provider e) now (idempotency_key w))
        else seq_return None)
       (\<lambda>existing.
          case existing of
            Some b \<Rightarrow> seq_return (Seq_BOOKED_REPLAY b)
          | None \<Rightarrow>
              seq_then (ask_provider e (\<lambda>now. search_availability (provider e) now (w_query w)))
                (\<lambda>slots.
                   if slots = [] then seq_return Seq_MISS
                   else if \<not> auto_book w then seq_return (Seq_FOUND slots)
                   else auto_book_sequence e cl w slots))"

section \<open>Commits\<close>

text \<open>\<^verbatim>\<open>_commit_window\<close>: one atomic commit; a committed document goes to the history projection.\<close>

definition commit_and_record ::
  "'p env \<Rightarrow> service_config \<Rightarrow> window_claim \<Rightarrow> watch \<Rightarrow> watch_runtime \<Rightarrow> 'p world
     \<Rightarrow> (service_error + commit_result) \<times> 'p world" where
  "commit_and_record e cfg cl new_watch new_runtime s =
     proceed (call_repo e (\<lambda>now. commit_window (sha1hex e) now cl new_watch new_runtime) s)
       (\<lambda>res s1.
          if cm_status res = Commit_COMMITTED
          then (Inr res, record_history e cfg (case cm_watch res of Some x \<Rightarrow> x | None \<Rightarrow> new_watch)
                           None None (revision (wc_runtime cl) + 1) s1)
          else (Inr res, s1))"

text \<open>A delivery without work left reports the stored document.\<close>

definition answer_noop ::
  "'p env \<Rightarrow> string \<Rightarrow> 'p world \<Rightarrow> (service_error + poll_result) \<times> 'p world" where
  "answer_noop e wid s = proceed (read_repo e (repo_get wid) s) (\<lambda>w s1. (Inr (noop_result w), s1))"

definition commit_terminal ::
  "'p env \<Rightarrow> service_config \<Rightarrow> window_claim \<Rightarrow> watch \<Rightarrow> 'p world
     \<Rightarrow> (service_error + poll_result) \<times> 'p world" where
  "commit_terminal e cfg cl new_watch s =
     (let rt = (wc_runtime cl)\<lparr>rt_window_id := None, rt_scheduled_for := None, rt_phase := None,
                               cancel_requested := False, consecutive_outages := 0\<rparr>
      in proceed (commit_and_record e cfg cl new_watch rt s)
        (\<lambda>res s1.
           if cm_status res \<noteq> Commit_COMMITTED then answer_noop e (watch_id new_watch) s1
           else
             (let committed = (case cm_watch res of Some x \<Rightarrow> x | None \<Rightarrow> new_watch)
              in if w_status committed = CANCELLED then
                   (Inr \<lparr>pr_outcome = Outcome_ALREADY_FINISHED, pr_watch = Some committed,
                         retry_in_seconds = None\<rparr>, s1)
                 else
                   (let s2 = (case (cm_event_id res, event_for (w_status committed)) of
                                (Some _, Some ev) \<Rightarrow> notify_owner e committed ev s1
                              | _ \<Rightarrow> s1)
                    in case outcome_for (w_status committed) of
                         None \<Rightarrow> (Inl Key_Error, s2)
                       | Some out \<Rightarrow>
                           (Inr \<lparr>pr_outcome = out, pr_watch = Some committed,
                                 retry_in_seconds = None\<rparr>, s2)))))"

text \<open>The reschedule both a miss and an outage end in.\<close>

definition commit_successor ::
  "'p env \<Rightarrow> service_config \<Rightarrow> window_claim \<Rightarrow> watch \<Rightarrow> watch_runtime \<Rightarrow> seconds \<Rightarrow> time \<Rightarrow> 'p world
     \<Rightarrow> (service_error + poll_result) \<times> 'p world" where
  "commit_successor e cfg cl new_watch new_runtime delay due s =
     proceed (commit_and_record e cfg cl new_watch new_runtime s)
       (\<lambda>res s1.
          if cm_status res \<noteq> Commit_COMMITTED then answer_noop e (watch_id (wc_watch cl)) s1
          else
            (let committed = (case cm_watch res of Some x \<Rightarrow> x | None \<Rightarrow> new_watch)
             in (Inr \<lparr>pr_outcome = Outcome_NO_AVAILABILITY, pr_watch = Some committed,
                      retry_in_seconds = Some delay\<rparr>,
                 dispatch_poll e (watch_id committed) (rt_window_id new_runtime) delay due s1)))"

definition successor_runtime :: "window_claim \<Rightarrow> watch \<Rightarrow> time \<Rightarrow> int \<Rightarrow> watch_runtime" where
  "successor_runtime cl w due outages =
     (let cadence = cadence_sequence (wc_runtime cl) + 1
      in (wc_runtime cl)\<lparr>cadence_sequence := cadence,
            rt_window_id := Some (window_id_for (watch_id w) cadence),
            rt_scheduled_for := Some due, rt_phase := None, cancel_requested := False,
            consecutive_outages := outages\<rparr>)"

section \<open>Outages\<close>

text \<open>\<^verbatim>\<open>_exponent_limit\<close>: the loop ends only for a positive interval, so its answer is an option.\<close>

definition exponent_limit :: "seconds \<Rightarrow> seconds \<Rightarrow> nat option" where
  "exponent_limit interval maximum =
     map_option snd (while_option (\<lambda>(v, k). v < maximum) (\<lambda>(v, k). (v * 2, Suc k)) (interval, 0))"

definition saturating_outages :: "service_config \<Rightarrow> int \<Rightarrow> int option" where
  "saturating_outages cfg n =
     map_option (\<lambda>k. min n (int k + 1))
       (exponent_limit (interval_seconds (schedule cfg)) (backoff_max_seconds cfg))"

definition outage_delay ::
  "service_config \<Rightarrow> int \<Rightarrow> time \<Rightarrow> watch \<Rightarrow> seconds \<Rightarrow> service_error + seconds option" where
  "outage_delay cfg outages now w draw =
     (let interval = interval_seconds (schedule cfg); maximum = backoff_max_seconds cfg
      in case exponent_limit interval maximum of
           None \<Rightarrow> Inl Never_Returns
         | Some k \<Rightarrow>
             (let base = (if int k \<le> outages - 1 then maximum
                          else interval * 2 ^ nat (outages - 1));
                  jittered = min (max (base + draw) MIN_DELAY_SECONDS) maximum;
                  remaining = total_seconds (w_expires_at w - now)
              in Inr (if remaining < MIN_DELAY_SECONDS then None
                      else Some (min jittered remaining))))"

definition commit_outage ::
  "'p env \<Rightarrow> service_config \<Rightarrow> window_claim \<Rightarrow> watch \<Rightarrow> time \<Rightarrow> string \<Rightarrow> 'p world
     \<Rightarrow> (service_error + poll_result) \<times> 'p world" where
  "commit_outage e cfg cl w now error s =
     (case saturating_outages cfg (consecutive_outages (wc_runtime cl) + 1) of
        None \<Rightarrow> (Inl Never_Returns, s)
      | Some outages \<Rightarrow>
          (case outage_delay cfg outages now w (uniform e (w_awaits s)) of
             Inl err \<Rightarrow> (Inl err, s)
           | Inr None \<Rightarrow> commit_terminal e cfg cl (expired_watch w now False) s
           | Inr (Some delay) \<Rightarrow>
               (let due = now + timedelta_seconds delay
                in commit_successor e cfg cl
                     (w\<lparr>last_checked_at := Some now, updated_at := now, last_error := Some error,
                        next_check_at := Some due\<rparr>)
                     (successor_runtime cl w due outages) delay due s)))"

section \<open>Misses\<close>

definition commit_miss ::
  "'p env \<Rightarrow> service_config \<Rightarrow> window_claim \<Rightarrow> watch \<Rightarrow> time \<Rightarrow> string option \<Rightarrow> 'p world
     \<Rightarrow> (service_error + poll_result) \<times> 'p world" where
  "commit_miss e cfg cl w now error s =
     (let n = min (attempts w + 1) (max_attempts w);
          attempted = w\<lparr>attempts := n, last_checked_at := Some now, updated_at := now,
                        last_error := error\<rparr>;
          remaining = total_seconds (w_expires_at w - now);
          delay = min (next_delay (schedule cfg) (uniform e (w_awaits s))) remaining
      in if max_attempts w \<le> n \<or> delay < MIN_DELAY_SECONDS
         then commit_terminal e cfg cl (expired_watch attempted now True) s
         else
           (let due = now + timedelta_seconds delay
            in commit_successor e cfg cl (attempted\<lparr>next_check_at := Some due\<rparr>)
                 (successor_runtime cl w due 0) delay due s))"

section \<open>Polling one window\<close>

definition run_claimed ::
  "'p env \<Rightarrow> service_config \<Rightarrow> window_claim \<Rightarrow> 'p world \<Rightarrow> (service_error + poll_result) \<times> 'p world" where
  "run_claimed e cfg cl s =
     (let now = w_now s; w = wc_watch cl
      in if w_expires_at w \<le> now \<or> max_attempts w \<le> attempts w
         then commit_terminal e cfg cl (expired_watch w now False) s
         else
           (case provider_sequence e cl w s of
              (Inl Timed_out, s1) \<Rightarrow>
                commit_outage e cfg cl w now ''The reservation provider timed out'' s1
            | (Inl (Raised (Slot_Unavailable _)), s1) \<Rightarrow> commit_miss e cfg cl w now None s1
            | (Inl (Raised (Slot_Not_Found _)), s1) \<Rightarrow> commit_miss e cfg cl w now None s1
            | (Inl (Raised (Adapter_Error msg)), s1) \<Rightarrow>
                commit_outage e cfg cl w now (error_text msg) s1
            | (Inl Broke, s1) \<Rightarrow> (Inl Call_Failed, s1)
            | (Inr plan, s1) \<Rightarrow>
                (case plan of
                   Seq_MISS \<Rightarrow> commit_miss e cfg cl w now None s1
                 | Seq_FOUND slots \<Rightarrow> commit_terminal e cfg cl (found_watch w slots now) s1
                 | Seq_BOOKED None \<Rightarrow> (Inl Attribute_Error, s1)
                 | Seq_BOOKED (Some b) \<Rightarrow>
                     commit_terminal e cfg cl (booked_watch w now b True) s1
                 | Seq_BOOKED_REPLAY b \<Rightarrow>
                     commit_terminal e cfg cl (booked_watch w now b False) s1
                 | Seq_CANCELLED \<Rightarrow> commit_terminal e cfg cl (cancelled_watch w now) s1
                 | Seq_NOOP \<Rightarrow>
                     proceed (call_repo e (\<lambda>now. release_claim cl) s1)
                       (\<lambda>_. answer_noop e (watch_id w)))))"

definition poll_window ::
  "'p env \<Rightarrow> service_config \<Rightarrow> string \<Rightarrow> string \<Rightarrow> string option \<Rightarrow> bool \<Rightarrow> 'p world
     \<Rightarrow> (service_error + poll_result) \<times> 'p world" where
  "poll_window e cfg wid win owner_id enforce_due s =
     (let owner = (case owner_id of
                     Some x \<Rightarrow> if x = [] then uuid4_hex e (w_awaits s) else x
                   | None \<Rightarrow> uuid4_hex e (w_awaits s))
      in proceed
        (call_repo e (\<lambda>now. claim_window now wid win owner POLL_LEASE_SECONDS (\<not> enforce_due)) s)
        (\<lambda>res s1.
           if cl_status res = Claim_UNKNOWN then (Inr (noop_result None), s1)
           else if cl_status res \<noteq> Claim_OWNED then answer_noop e wid s1
           else
             (case cl_claim res of
                None \<Rightarrow> (Inl Assertion_Error, s1)
              | Some cl \<Rightarrow> run_claimed e cfg cl s1)))"

end
