(* ===== verification/Watch_Lifecycle.thy ===== *)
theory Watch_Lifecycle
  imports Watch_Service
begin

text \<open>
  The rest of \<^verbatim>\<open>WatchService\<close>: creation with its durable first marker, cancellation, expiry by recovery,
  the one-argument \<^verbatim>\<open>poll_once\<close> entry point and the pre-sidecar compatibility path it falls back to.
\<close>

section \<open>Creation\<close>

text \<open>What \<^verbatim>\<open>create\<close> computes before its first await: the document, its policy and its sidecar.\<close>

definition prepare_watch ::
  "'p env \<Rightarrow> service_config \<Rightarrow> availability_query \<Rightarrow> bool \<Rightarrow> string \<Rightarrow> time
     \<Rightarrow> service_error + watch \<times> watch_runtime" where
  "prepare_watch e cfg q auto hex now =
     (case fromisoformat (q_date q) of
        None \<Rightarrow> Inl (Model_Error ValueError)
      | Some d \<Rightarrow>
          if d < local_date e now then Inl Past_Reservation_Date
          else
            (case default_expiry (local_midnight e) q now of
               Inl err \<Rightarrow> Inl (Model_Error err)
             | Inr expires \<Rightarrow>
                 (case derive (schedule cfg) now expires (cfg_max_attempts cfg) of
                    Inl err \<Rightarrow> Inl (Model_Error err)
                  | Inr policy \<Rightarrow>
                      (let w = \<lparr>watch_id = ''watch_'' @ hex, w_status = ACTIVE,
                                w_query = q, auto_book = auto, created_at = now, updated_at = now,
                                w_expires_at = expires, attempts = 0,
                                max_attempts = effective_attempts policy, last_checked_at = None,
                                next_check_at = Some now, found_slots = [], w_booking = None,
                                last_error = None\<rparr>
                       in if \<not> watch_valid w then Inl (Model_Error ValidationError)
                          else
                            (case initial_runtime w (pol_required_attempts policy)
                                    (supports_deadline policy) None of
                               Inl err \<Rightarrow> Inl (Model_Error err)
                             | Inr rt \<Rightarrow> Inr (w, rt))))))"

text \<open>
  The access boundary of an account's watch is recorded before the live store can publish the watch;
  without a recorder, or when recording fails, the creation is refused.
\<close>

definition record_owner ::
  "'p env \<Rightarrow> service_config \<Rightarrow> watch \<Rightarrow> string option \<Rightarrow> string option \<Rightarrow> 'p world \<Rightarrow> bool \<times> 'p world" where
  "record_owner e cfg w owner user s =
     (if user = None then (True, s)
      else if \<not> has_history cfg then (False, s)
      else (\<not> record_fails e (w_awaits s), record_history e cfg w owner user 0 s))"

definition service_create ::
  "'p env \<Rightarrow> service_config \<Rightarrow> availability_query \<Rightarrow> bool \<Rightarrow> string option \<Rightarrow> string option \<Rightarrow> 'p world
     \<Rightarrow> (service_error + watch) \<times> 'p world" where
  "service_create e cfg q auto owner user s =
     (let now = w_now s in
      case prepare_watch e cfg q auto (uuid4_hex e (w_awaits s)) now of
        Inl err \<Rightarrow> (Inl err, s)
      | Inr (w, rt) \<Rightarrow>
          (let (owned, s1) = record_owner e cfg w owner user s
           in if \<not> owned then (Inl Ownership_Unavailable, s1)
              else
                proceed (call_repo e (\<lambda>now. create_with_schedule w rt) s1)
                  (\<lambda>res s2.
                     let stored = (case crt_watch res of Some x \<Rightarrow> x | None \<Rightarrow> w);
                         s3 = (if user = None then record_history e cfg stored owner None 0 s2 else s2)
                     in (Inr stored,
                         dispatch_poll e (watch_id stored) (rt_window_id rt) 0 now s3))))"

section \<open>Cancellation and expiry\<close>

definition service_cancel ::
  "'p env \<Rightarrow> service_config \<Rightarrow> string \<Rightarrow> 'p world \<Rightarrow> (service_error + watch option) \<times> 'p world" where
  "service_cancel e cfg wid s =
     proceed (call_repo e (\<lambda>now. cancel_if_active now wid) s)
       (\<lambda>res s1.
          if tr_status res = Transition_UNKNOWN then (Inr None, s1)
          else
            (case (tr_status res = Transition_APPLIED, tr_watch res) of
               (True, Some w) \<Rightarrow>
                 (Inr (Some w), record_history e cfg w None None (tr_revision res) s1)
             | _ \<Rightarrow> (Inr (tr_watch res), s1)))"

definition service_expire ::
  "'p env \<Rightarrow> service_config \<Rightarrow> string \<Rightarrow> 'p world
     \<Rightarrow> (service_error + transition_result) \<times> 'p world" where
  "service_expire e cfg wid s =
     proceed (call_repo e (\<lambda>now. expire_if_eligible (sha1hex e) now wid None False) s)
       (\<lambda>res s1.
          case (tr_status res = Transition_APPLIED, tr_watch res) of
            (True, Some w) \<Rightarrow>
              (let s2 = record_history e cfg w None None (tr_revision res) s1
               in (Inr res,
                   if tr_event_id res \<noteq> None then notify_owner e w Event_EXPIRED s2 else s2))
          | _ \<Rightarrow> (Inr res, s1))"

section \<open>Legacy compatibility path\<close>

definition save_watch ::
  "'p env \<Rightarrow> watch \<Rightarrow> 'p world \<Rightarrow> (service_error + watch) \<times> 'p world" where
  "save_watch e w s = call_repo e (\<lambda>now. repo_save w) s"

text \<open>A provider call outside any deadline: it answers, raises an \<^verbatim>\<open>AdapterError\<close>, or breaks.\<close>

definition call_provider ::
  "'p env \<Rightarrow> (time \<Rightarrow> 'p \<Rightarrow> (adapter_error + 'a) \<times> 'p) \<Rightarrow> ('p, 'a) seq" where
  "call_provider e f s =
     (case await_call e (on_provider f) s of
        (Inl _, s') \<Rightarrow> (Inl Broke, s')
      | (Inr (Inl err), s') \<Rightarrow> (Inl (Raised err), s')
      | (Inr (Inr x), s') \<Rightarrow> (Inr x, s'))"

text \<open>What escapes a method when a provider call ends it.\<close>

fun escaped :: "seq_exc \<Rightarrow> service_error" where
  "escaped (Raised err) = Provider_Failure err"
| "escaped Broke = Call_Failed"
| "escaped Timed_out = Call_Failed"

text \<open>Saving a finished legacy document, mirroring it and announcing it.\<close>

definition legacy_finish ::
  "'p env \<Rightarrow> service_config \<Rightarrow> watch \<Rightarrow> watch_event \<Rightarrow> poll_outcome \<Rightarrow> 'p world
     \<Rightarrow> (service_error + poll_result) \<times> 'p world" where
  "legacy_finish e cfg w ev out s =
     proceed (save_watch e w s)
       (\<lambda>saved s1.
          (Inr \<lparr>pr_outcome = out, pr_watch = Some saved, retry_in_seconds = None\<rparr>,
           notify_owner e saved ev (record_history e cfg saved None None (-1) s1)))"

definition legacy_expire ::
  "'p env \<Rightarrow> service_config \<Rightarrow> watch \<Rightarrow> time \<Rightarrow> 'p world \<Rightarrow> (service_error + poll_result) \<times> 'p world" where
  "legacy_expire e cfg w now s =
     legacy_finish e cfg (w\<lparr>w_status := EXPIRED, next_check_at := None, updated_at := now\<rparr>)
       Event_EXPIRED Outcome_EXPIRED s"

text \<open>Here alone the publication is not best-effort: a broker failure escapes.\<close>

definition legacy_reschedule ::
  "'p env \<Rightarrow> service_config \<Rightarrow> watch \<Rightarrow> time \<Rightarrow> 'p world \<Rightarrow> (service_error + poll_result) \<times> 'p world" where
  "legacy_reschedule e cfg w now s =
     (let remaining = total_seconds (w_expires_at w - now)
      in if remaining \<le> 0 then legacy_expire e cfg w now s
         else
           (let delay = min (next_delay (schedule cfg) (uniform e (w_awaits s))) remaining
            in proceed
              (save_watch e (w\<lparr>next_check_at := Some (now + timedelta_seconds delay), updated_at := now\<rparr>) s)
              (\<lambda>pending s1.
                 let s2 = (pause e s1)\<lparr>published := published s1 @
                        [\<lparr>pub_watch_id = watch_id w, pub_window_id = None,
                          pub_delay_seconds = delay, pub_due_at = None, pub_task_id = None\<rparr>]\<rparr>
                 in if publish_fails e (w_awaits s1) then (Inl Queue_Error, s2)
                    else
                      (Inr \<lparr>pr_outcome = Outcome_NO_AVAILABILITY, pr_watch = Some pending,
                            retry_in_seconds = Some delay\<rparr>,
                       record_history e cfg pending None None (-1) s2))))"

definition legacy_retry_auto_book ::
  "'p env \<Rightarrow> service_config \<Rightarrow> watch \<Rightarrow> time \<Rightarrow> string \<Rightarrow> 'p world
     \<Rightarrow> (service_error + poll_result) \<times> 'p world" where
  "legacy_retry_auto_book e cfg w now error s =
     (let retrying = w\<lparr>last_error := Some error\<rparr>
      in if is_exhausted retrying now then legacy_expire e cfg retrying now s
         else legacy_reschedule e cfg retrying now s)"

text \<open>\<^verbatim>\<open>_book\<close> outside any deadline.\<close>

fun legacy_book ::
  "'p env \<Rightarrow> watch \<Rightarrow> availability_slot list \<Rightarrow> ('p, booking_confirmation option) seq" where
  "legacy_book e w [] s = (Inr None, s)"
| "legacy_book e w (slot # slots) s =
     (case call_provider e (\<lambda>now. book_slot (provider e) now (slot_id slot) (idempotency_key w)) s of
        (Inr b, s') \<Rightarrow> (Inr (Some b), s')
      | (Inl (Raised (Slot_Unavailable _)), s') \<Rightarrow> legacy_book e w slots s'
      | (Inl (Raised (Slot_Not_Found _)), s') \<Rightarrow> legacy_book e w slots s'
      | (Inl ex, s') \<Rightarrow> (Inl ex, s'))"

definition legacy_fulfill ::
  "'p env \<Rightarrow> service_config \<Rightarrow> watch \<Rightarrow> availability_slot list \<Rightarrow> time \<Rightarrow> 'p world
     \<Rightarrow> (service_error + poll_result) \<times> 'p world" where
  "legacy_fulfill e cfg w slots now s =
     (if auto_book w then
        (case legacy_book e w slots s of
           (Inl (Raised err), s1) \<Rightarrow>
             legacy_retry_auto_book e cfg w now (error_text (error_message err)) s1
         | (Inl ex, s1) \<Rightarrow> (Inl (escaped ex), s1)
         | (Inr None, s1) \<Rightarrow>
             legacy_retry_auto_book e cfg w now
               ''Available slots disappeared before they could be booked'' s1
         | (Inr (Some b), s1) \<Rightarrow>
             legacy_finish e cfg
               (w\<lparr>w_status := BOOKED, found_slots := [bk_slot b], w_booking := Some b,
                  next_check_at := None, updated_at := now\<rparr>) Event_BOOKED Outcome_BOOKED s1)
      else
        legacy_finish e cfg
          (w\<lparr>w_status := FOUND, found_slots := py_take MAX_RECORDED_SLOTS slots,
             next_check_at := None, updated_at := now\<rparr>) Event_AVAILABILITY_FOUND Outcome_FOUND s)"

definition legacy_poll_once ::
  "'p env \<Rightarrow> service_config \<Rightarrow> watch \<Rightarrow> 'p world \<Rightarrow> (service_error + poll_result) \<times> 'p world" where
  "legacy_poll_once e cfg w s =
     (let now = w_now s in
      if is_exhausted w now then legacy_expire e cfg w now s
      else
        (case (if auto_book w
               then call_provider e (\<lambda>now. get_booking (provider e) now (idempotency_key w)) s
               else (Inr None, s)) of
           (Inl ex, s1) \<Rightarrow> (Inl (escaped ex), s1)
         | (Inr (Some b), s1) \<Rightarrow>
             legacy_finish e cfg
               (w\<lparr>w_status := BOOKED, found_slots := [bk_slot b], w_booking := Some b,
                  next_check_at := None, updated_at := now\<rparr>) Event_BOOKED Outcome_BOOKED s1
         | (Inr None, s1) \<Rightarrow>
             (let attempted = (\<lambda>error. w\<lparr>attempts := min (attempts w + 1) (max_attempts w),
                    last_checked_at := Some now, updated_at := now, last_error := error\<rparr>);
                  settle = (\<lambda>slots w' s2.
                    if slots \<noteq> [] then legacy_fulfill e cfg w' slots now s2
                    else if is_exhausted w' now then legacy_expire e cfg w' now s2
                    else legacy_reschedule e cfg w' now s2)
              in case call_provider e (\<lambda>now. search_availability (provider e) now (w_query w)) s1 of
                   (Inr slots, s2) \<Rightarrow> settle slots (attempted None) s2
                 | (Inl (Raised err), s2) \<Rightarrow>
                     settle [] (attempted (Some (error_text (error_message err)))) s2
                 | (Inl ex, s2) \<Rightarrow> (Inl (escaped ex), s2))))"

section \<open>The one-argument entry point\<close>

definition poll_once ::
  "'p env \<Rightarrow> service_config \<Rightarrow> string \<Rightarrow> 'p world \<Rightarrow> (service_error + poll_result) \<times> 'p world" where
  "poll_once e cfg wid s =
     proceed (read_repo e (get_runtime wid) s)
       (\<lambda>rt s1.
          case (case rt of None \<Rightarrow> None | Some x \<Rightarrow> rt_window_id x) of
            Some win \<Rightarrow> poll_window e cfg wid win None False s1
          | None \<Rightarrow>
              proceed (read_repo e (repo_get wid) s1)
                (\<lambda>w s2.
                   case w of
                     None \<Rightarrow> (Inr (noop_result None), s2)
                   | Some x \<Rightarrow>
                       if is_terminal (w_status x) then (Inr (noop_result (Some x)), s2)
                       else legacy_poll_once e cfg x s2))"

end
