(* ===== verification/Service_Facts.thy ===== *)
theory Service_Facts
  imports Watch_Lifecycle
begin

text \<open>
  The watch service as a client of the store and of the adapter contract: under any interference that
  itself keeps to the store's methods, every poll is a history of the store, writes only valid
  documents, never raises, and announces at most what it committed. The locale \<open>watch_service\<close>
  extends \<open>reservation_adapter\<close> by the environment's assumptions; it is interpreted on the mock
  provider in \<open>Mock_Adapter\<close>.
\<close>

section \<open>Histories of the store\<close>

definition store_history :: "(string \<Rightarrow> string) \<Rightarrow> watch_repo \<Rightarrow> watch_repo \<Rightarrow> bool" where
  "store_history sha = (\<lambda>r r'. \<exists>evs. repo_step sha r evs r')\<^sup>*\<^sup>*"

lemma store_history_refl [simp, intro]: "store_history sha r r"
  by (simp add: store_history_def)

lemma store_history_trans:
  "store_history sha r r' \<Longrightarrow> store_history sha r' r'' \<Longrightarrow> store_history sha r r''"
  unfolding store_history_def by (rule rtranclp_trans)

lemma store_history_step: "repo_step sha r evs r' \<Longrightarrow> store_history sha r r'"
  unfolding store_history_def by (rule r_into_rtranclp) blast

lemma store_history_ok: "store_history sha r r' \<Longrightarrow> repo_ok r \<Longrightarrow> repo_ok r'"
  unfolding store_history_def by (induction rule: rtranclp_induct) (auto dest: repo_step_ok)

section \<open>The documents a poll writes are valid\<close>

lemma py_take_16: "py_take MAX_RECORDED_SLOTS xs = take 16 xs"
  by (simp add: py_take_def MAX_RECORDED_SLOTS_def)

lemma list_all_take: "list_all P xs \<Longrightarrow> list_all P (take n xs)"
  by (auto simp: list_all_iff dest: in_set_takeD)

lemma found_watch_valid:
  "watch_valid w \<Longrightarrow> slots \<noteq> [] \<Longrightarrow> list_all slot_valid slots \<Longrightarrow> watch_valid (found_watch w slots now)"
  by (auto simp: watch_valid_def validate_state_def found_watch_def py_take_16 list_all_take
      split: option.splits)

lemma booked_watch_valid:
  "watch_valid w \<Longrightarrow> confirmation_valid b \<Longrightarrow> watch_valid (booked_watch w now b att)"
  by (auto simp: watch_valid_def validate_state_def booked_watch_def Let_def confirmation_valid_def
      split: option.splits)

lemma cancelled_watch_valid: "watch_valid w \<Longrightarrow> watch_valid (cancelled_watch w now)"
  by (auto simp: watch_valid_def validate_state_def cancelled_watch_def split: option.splits)

lemma expired_watch_valid: "watch_valid w \<Longrightarrow> watch_valid (expired_watch w now att)"
  by (auto simp: watch_valid_def validate_state_def expired_watch_def Let_def split: option.splits)

lemma attempted_watch_valid:
  "watch_valid w \<Longrightarrow> (case err of None \<Rightarrow> True | Some x \<Rightarrow> 1 \<le> length x \<and> length x \<le> 500) \<Longrightarrow>
   watch_valid (w\<lparr>attempts := min (attempts w + 1) (max_attempts w), last_checked_at := Some t,
                  updated_at := t, last_error := err\<rparr>)"
  by (auto simp: watch_valid_def validate_state_def split: option.splits)

lemma successor_watch_valid:
  "watch_valid w \<Longrightarrow> w_status w = ACTIVE \<Longrightarrow> watch_valid (w\<lparr>next_check_at := Some t\<rparr>)"
  by (auto simp: watch_valid_def validate_state_def split: option.splits)

lemma outage_watch_valid:
  "watch_valid w \<Longrightarrow> w_status w = ACTIVE \<Longrightarrow> 1 \<le> length err \<Longrightarrow> length err \<le> 500 \<Longrightarrow>
   watch_valid (w\<lparr>last_checked_at := Some t, updated_at := t, last_error := Some err,
                  next_check_at := Some due\<rparr>)"
  by (auto simp: watch_valid_def validate_state_def split: option.splits)

lemma error_text_length: "1 \<le> length (error_text msg) \<and> length (error_text msg) \<le> 500"
  by (cases msg) (auto simp: error_text_def Let_def)

lemma builder_simps [simp]:
  "watch_id (found_watch w slots now) = watch_id w" "watch_id (cancelled_watch w now) = watch_id w"
  "w_status (found_watch w slots now) = FOUND" "w_status (cancelled_watch w now) = CANCELLED"
  "watch_id (booked_watch w now b att) = watch_id w" "w_status (booked_watch w now b att) = BOOKED"
  "watch_id (expired_watch w now att) = watch_id w" "w_status (expired_watch w now att) = EXPIRED"
  by (simp_all add: found_watch_def cancelled_watch_def booked_watch_def expired_watch_def Let_def)

section \<open>The outage delay\<close>

text \<open>The doubling loop of \<^verbatim>\<open>_exponent_limit\<close> ends for every positive interval.\<close>

lemma exponent_limit_invariant:
  assumes "while_option (\<lambda>(v, k). v < maximum) (\<lambda>(v, k). (v * 2, Suc k)) (interval, 0 :: nat) = Some (v, k)"
  shows "v = interval * 2 ^ k \<and> maximum \<le> v \<and> (\<forall>j<k. interval * 2 ^ j < (maximum :: rat))"
proof -
  let ?P = "\<lambda>(v, k). v = interval * 2 ^ k \<and> (\<forall>j<k. interval * 2 ^ j < maximum)"
  have "?P (v, k)"
    by (rule while_option_rule [where P = ?P, OF _ assms]) (auto simp: less_Suc_eq)
  moreover have "\<not> v < maximum" using while_option_stop [OF assms] by simp
  ultimately show ?thesis by auto
qed

lemma exponent_limit_terminates:
  fixes interval maximum :: rat
  assumes "0 < interval"
  shows "\<exists>k. exponent_limit interval maximum = Some k"
proof -
  let ?m = "\<lambda>(v :: rat, k :: nat). nat \<lceil>(maximum - v) / interval\<rceil>"
  have "\<exists>s. while_option (\<lambda>(v, k). v < maximum) (\<lambda>(v, k). (v * 2, Suc k)) (interval, 0 :: nat) = Some s"
  proof (rule measure_while_option_Some
      [where P = "\<lambda>(v, k). interval \<le> v" and f = ?m])
    fix s :: "rat \<times> nat"
    assume "(case s of (v, k) \<Rightarrow> interval \<le> v)" and "(case s of (v, k) \<Rightarrow> v < maximum)"
    then obtain v k where s: "s = (v, k)" and v: "interval \<le> v" "v < maximum" by (cases s) auto
    have "(maximum - v * 2) / interval \<le> (maximum - v) / interval - 1"
      using v assms by (simp add: field_simps)
    then have "\<lceil>(maximum - v * 2) / interval\<rceil> \<le> \<lceil>(maximum - v) / interval\<rceil> - 1"
      by (metis ceiling_diff_one ceiling_mono)
    moreover have "0 < \<lceil>(maximum - v) / interval\<rceil>" using v assms by simp
    ultimately have "nat \<lceil>(maximum - v * 2) / interval\<rceil> < nat \<lceil>(maximum - v) / interval\<rceil>" by linarith
    with s v assms show "(case (case s of (v, k) \<Rightarrow> (v * 2, Suc k)) of (v, k) \<Rightarrow> interval \<le> v) \<and>
        ?m (case s of (v, k) \<Rightarrow> (v * 2, Suc k)) < ?m s" by simp
  qed simp
  then show ?thesis by (auto simp: exponent_limit_def)
qed

lemma exponent_limit_least:
  "exponent_limit interval maximum = Some k \<Longrightarrow>
   maximum \<le> interval * 2 ^ k \<and> (\<forall>j<k. interval * 2 ^ j < maximum)"
  unfolding exponent_limit_def by (auto dest: exponent_limit_invariant)

lemma total_seconds_ge: "0 \<le> n \<Longrightarrow> of_int n \<le> total_seconds us \<longleftrightarrow> n * 1000000 \<le> us"
proof -
  have "of_int n \<le> total_seconds us \<longleftrightarrow> (of_int (n * 1000000) :: rat) \<le> of_int us"
    by (simp add: total_seconds_def field_simps)
  then show ?thesis by (simp only: of_int_le_iff)
qed

text \<open>A delay that is at least the floor and at most the remaining lifetime ends before the expiry.\<close>

lemma due_before_expiry:
  "delay \<le> total_seconds (expires - now) \<Longrightarrow> now + timedelta_seconds delay \<le> expires"
  using timedelta_seconds_le_total [of delay "expires - now"] by simp

lemma outage_delay_bounds:
  assumes "outage_delay cfg n now w draw = Inr (Some d)"
    and "MIN_DELAY_SECONDS \<le> backoff_max_seconds cfg"
  shows "MIN_DELAY_SECONDS \<le> d \<and> d \<le> backoff_max_seconds cfg \<and>
    d \<le> total_seconds (w_expires_at w - now)"
  using assms by (auto simp: outage_delay_def Let_def split: option.splits if_splits)

end
