(* ===== verification/Service_Sound.thy ===== *)
theory Service_Sound
  imports Service_Facts
begin

text \<open>
  Soundness of a poll. \<open>leads\<close> says that one world can become another by store steps only, \<open>seq_sound\<close>
  that a bounded computation does so silently and with answers satisfying a predicate; both compose.
  Inside the locale \<open>watch_service\<close> every method of the service is shown to keep to them.
\<close>

section \<open>Worlds\<close>

definition good :: "('p \<Rightarrow> bool) \<Rightarrow> 'p world \<Rightarrow> bool" where
  "good ok s \<longleftrightarrow> repo_ok (w_repo s) \<and> ok (w_provider s)"

definition leads :: "'p env \<Rightarrow> ('p \<Rightarrow> bool) \<Rightarrow> 'p world \<Rightarrow> 'p world \<Rightarrow> bool" where
  "leads e ok s s' \<longleftrightarrow> good ok s' \<and> w_now s \<le> w_now s' \<and> w_awaits s \<le> w_awaits s' \<and>
     store_history (sha1hex e) (w_repo s) (w_repo s')"

text \<open>Between two worlds some awaited call raised an exception of its own.\<close>

definition broke :: "'p env \<Rightarrow> 'p world \<Rightarrow> 'p world \<Rightarrow> bool" where
  "broke e s s' \<longleftrightarrow> (\<exists>n. w_awaits s \<le> n \<and> n < w_awaits s' \<and> fault e n \<noteq> Runs)"

definition quiet :: "'p world \<Rightarrow> 'p world \<Rightarrow> bool" where
  "quiet s s' \<longleftrightarrow> history_calls s' = history_calls s \<and> notified s' = notified s \<and> published s' = published s"

definition seq_sound :: "'p env \<Rightarrow> ('p \<Rightarrow> bool) \<Rightarrow> ('a \<Rightarrow> bool) \<Rightarrow> ('p, 'a) seq \<Rightarrow> bool" where
  "seq_sound e ok P m \<longleftrightarrow>
     (\<forall>s. good ok s \<longrightarrow> leads e ok s (snd (m s)) \<and> quiet s (snd (m s)) \<and>
          (\<forall>x. fst (m s) = Inr x \<longrightarrow> P x) \<and> (fst (m s) = Inl Broke \<longrightarrow> broke e s (snd (m s))))"

lemma broke_mono:
  "broke e s1 s2 \<Longrightarrow> leads e ok s s1 \<Longrightarrow> leads e ok s2 s' \<Longrightarrow> broke e s s'"
  unfolding broke_def leads_def by (metis le_trans less_le_trans)

lemma leads_refl [simp]: "good ok s \<Longrightarrow> leads e ok s s"
  by (simp add: leads_def)

lemma leads_trans: "leads e ok s s' \<Longrightarrow> leads e ok s' s'' \<Longrightarrow> leads e ok s s''"
  by (auto simp: leads_def intro: store_history_trans)

lemma leads_good: "leads e ok s s' \<Longrightarrow> good ok s'"
  by (simp add: leads_def)

lemma quiet_refl [simp]: "quiet s s"
  by (simp add: quiet_def)

lemma quiet_trans: "quiet s s' \<Longrightarrow> quiet s' s'' \<Longrightarrow> quiet s s''"
  by (simp add: quiet_def)

lemma quiet_pause [simp]: "quiet s (pause e s)"
  by (simp add: quiet_def pause_def split: prod.split)

lemma pause_logs [simp]:
  "history_calls (pause e s) = history_calls s" "notified (pause e s) = notified s"
  "published (pause e s) = published s"
  by (simp_all add: pause_def split: prod.split)

lemma awaits_pause [simp]: "w_awaits (pause e s) = Suc (w_awaits s)"
  by (simp add: pause_def split: prod.split)

lemma on_repo_awaits [simp]: "w_awaits (snd (on_repo f s)) = w_awaits s"
  by (simp add: on_repo_def split: prod.split)

lemma on_provider_awaits [simp]: "w_awaits (snd (on_provider f s)) = w_awaits s"
  by (simp add: on_provider_def split: prod.split)

lemma good_logs [simp]:
  "good ok (s\<lparr>history_calls := h\<rparr>) = good ok s" "good ok (s\<lparr>notified := n\<rparr>) = good ok s"
  "good ok (s\<lparr>published := q\<rparr>) = good ok s"
  by (simp_all add: good_def)

lemma leads_logs [simp]:
  "leads e ok s (s'\<lparr>history_calls := h\<rparr>) = leads e ok s s'"
  "leads e ok s (s'\<lparr>notified := n\<rparr>) = leads e ok s s'"
  "leads e ok s (s'\<lparr>published := q\<rparr>) = leads e ok s s'"
  by (simp_all add: leads_def)

section \<open>Composition\<close>

lemma seq_sound_return: "P x \<Longrightarrow> seq_sound e ok P (seq_return x)"
  by (simp add: seq_sound_def seq_return_def)

lemma seq_sound_raise: "ex \<noteq> Broke \<Longrightarrow> seq_sound e ok P (seq_raise ex)"
  by (simp add: seq_sound_def seq_raise_def)

lemma seq_soundD:
  assumes "seq_sound e ok P m" and "good ok s" and "m s = (res, s')"
  shows "leads e ok s s'" and "quiet s s'" and "\<And>x. res = Inr x \<Longrightarrow> P x" and "good ok s'"
    and "res = Inl Broke \<Longrightarrow> broke e s s'"
  using assms by (auto simp: seq_sound_def leads_def dest!: spec [of _ s])

lemma seq_sound_then:
  assumes m: "seq_sound e ok P m" and f: "\<And>x. P x \<Longrightarrow> seq_sound e ok Q (f x)"
  shows "seq_sound e ok Q (seq_then m f)"
  unfolding seq_sound_def
proof (intro allI impI)
  fix s assume good: "good ok s"
  obtain res s1 where ms: "m s = (res, s1)" by fastforce
  note 1 = seq_soundD [OF m good ms]
  show "leads e ok s (snd (seq_then m f s)) \<and> quiet s (snd (seq_then m f s)) \<and>
      (\<forall>x. fst (seq_then m f s) = Inr x \<longrightarrow> Q x) \<and>
      (fst (seq_then m f s) = Inl Broke \<longrightarrow> broke e s (snd (seq_then m f s)))"
  proof (cases res)
    case (Inl ex)
    with 1 ms show ?thesis by (simp add: seq_then_def)
  next
    case (Inr x)
    obtain res2 s2 where fs: "f x s1 = (res2, s2)" by fastforce
    note 2 = seq_soundD [OF f [OF 1(3) [OF Inr]] 1(4) fs]
    show ?thesis
      using ms Inr fs leads_trans [OF 1(1) 2(1)] quiet_trans [OF 1(2) 2(2)] 2(3)
        broke_mono [OF 2(5) 1(1) leads_refl [OF 2(4)]]
      by (simp add: seq_then_def)
  qed
qed

lemma seq_sound_try:
  assumes m: "seq_sound e ok P m" and f: "\<And>x. P x \<Longrightarrow> seq_sound e ok Q (f x)"
    and h: "\<And>err. seq_sound e ok Q (h err)"
  shows "seq_sound e ok Q (seq_try m f h)"
  unfolding seq_sound_def
proof (intro allI impI)
  fix s assume good: "good ok s"
  obtain res s1 where ms: "m s = (res, s1)" by fastforce
  note 1 = seq_soundD [OF m good ms]
  have cont: "leads e ok s s2 \<and> quiet s s2 \<and> (\<forall>y. res2 = Inr y \<longrightarrow> Q y) \<and> (res2 = Inl Broke \<longrightarrow> broke e s s2)"
    if "seq_sound e ok Q g" "g s1 = (res2, s2)" for g res2 s2
  proof -
    note 2 = seq_soundD [OF that(1) 1(4) that(2)]
    show ?thesis
      using 2 leads_trans [OF 1(1)] quiet_trans [OF 1(2)] broke_mono [OF 2(5) 1(1) leads_refl [OF 2(4)]]
      by blast
  qed
  show "leads e ok s (snd (seq_try m f h s)) \<and> quiet s (snd (seq_try m f h s)) \<and>
      (\<forall>x. fst (seq_try m f h s) = Inr x \<longrightarrow> Q x) \<and>
      (fst (seq_try m f h s) = Inl Broke \<longrightarrow> broke e s (snd (seq_try m f h s)))"
  proof (cases res)
    case (Inl ex)
    then show ?thesis
      using ms 1 cont [OF h prod.collapse [symmetric]] by (cases ex) (simp_all add: seq_try_def)
  next
    case (Inr x)
    then show ?thesis
      using ms cont [OF f [OF 1(3) [OF Inr]] prod.collapse [symmetric]] by (simp add: seq_try_def)
  qed
qed

section \<open>Plans\<close>

text \<open>What a finished provider sequence hands over is fit to be stored.\<close>

definition plan_ok :: "sequence_plan \<Rightarrow> bool" where
  "plan_ok plan \<longleftrightarrow>
     (case plan of
        Seq_FOUND slots \<Rightarrow> slots \<noteq> [] \<and> list_all slot_valid slots
      | Seq_BOOKED c \<Rightarrow> (\<exists>b. c = Some b \<and> confirmation_valid b)
      | Seq_BOOKED_REPLAY b \<Rightarrow> confirmation_valid b
      | _ \<Rightarrow> True)"

lemma plan_ok_simps [simp]:
  "plan_ok Seq_MISS" "plan_ok Seq_CANCELLED" "plan_ok Seq_NOOP"
  "plan_ok (Seq_FOUND slots) \<longleftrightarrow> slots \<noteq> [] \<and> list_all slot_valid slots"
  "plan_ok (Seq_BOOKED c) \<longleftrightarrow> (\<exists>b. c = Some b \<and> confirmation_valid b)"
  "plan_ok (Seq_BOOKED_REPLAY b) \<longleftrightarrow> confirmation_valid b"
  by (simp_all add: plan_ok_def)

section \<open>The environment's promises\<close>

text \<open>
  Whoever acts at an await keeps to the store's methods and the provider's invariant and never turns
  the clock back; the draws are \<^verbatim>\<open>random.uniform\<close>'s; the settings passed validation.
\<close>

locale watch_service = reservation_adapter "provider e" ok live
  for e :: "'p env" and ok :: "'p \<Rightarrow> bool"
    and live :: "time \<Rightarrow> 'p \<Rightarrow> string \<Rightarrow> booking_confirmation option" +
  fixes cfg :: service_config
  assumes others_fair:
      "others e n (t, r, p) = (t', r', p') \<Longrightarrow> repo_ok r \<Longrightarrow> ok p \<Longrightarrow>
       t \<le> t' \<and> store_history (sha1hex e) r r' \<and> ok p'"
    and draws: "jitter_draw (schedule cfg) (uniform e n)"
    and schedule_ok: "schedule_valid (schedule cfg)"
    and backoff_ok: "MIN_DELAY_SECONDS \<le> backoff_max_seconds cfg"
begin

lemma leads_pause: "good ok s \<Longrightarrow> leads e ok s (pause e s)"
  using others_fair [of "w_awaits s" "w_now s" "w_repo s" "w_provider s"] store_history_ok
  by (auto simp: leads_def good_def pause_def split: prod.split)

lemma leads_on_repo:
  assumes "good ok s" and "\<And>r. repo_ok r \<Longrightarrow> store_history (sha1hex e) r (snd (f (w_now s) r))"
  shows "leads e ok s (snd (on_repo f s))"
proof -
  have "store_history (sha1hex e) (w_repo s) (snd (f (w_now s) (w_repo s)))"
    using assms by (simp add: good_def)
  with assms(1) store_history_ok [OF this] show ?thesis
    by (cases "f (w_now s) (w_repo s)") (simp add: leads_def good_def on_repo_def)
qed

text \<open>An awaited call leads the world on, whether it answers or raises; it raises only by a fault.\<close>

lemma await_call_sound:
  assumes "good ok s" and "\<And>s1. leads e ok s s1 \<Longrightarrow> s1 = pause e s \<Longrightarrow> leads e ok s (snd (f s1))"
    and "w_awaits (snd (f (pause e s))) = w_awaits (pause e s)"
  shows "leads e ok s (snd (await_call e f s))"
    and "fst (await_call e f s) = Inl err \<Longrightarrow> err = Call_Failed \<and> broke e s (snd (await_call e f s))"
    and "fst (await_call e f s) = Inr x \<Longrightarrow> f (pause e s) = (x, snd (await_call e f s))"
  using leads_pause [OF assms(1)] assms(2,3)
  by (auto simp: await_call_def Let_def broke_def awaits_pause split: cut.splits prod.splits
      intro!: exI [of _ "w_awaits s"])

lemma leads_call_repo:
  assumes "good ok s" and "\<And>now r. repo_ok r \<Longrightarrow> store_history (sha1hex e) r (snd (f now r))"
  shows "leads e ok s (snd (call_repo e f s))"
  unfolding call_repo_def
proof (rule await_call_sound(1) [OF assms(1)])
  fix s1 assume "leads e ok s s1"
  from leads_trans [OF this leads_on_repo [OF leads_good [OF this] assms(2)]]
  show "leads e ok s (snd (on_repo f s1))" .
qed simp

lemma leads_read_repo: "good ok s \<Longrightarrow> leads e ok s (snd (read_repo e f s))"
  unfolding read_repo_def by (rule leads_call_repo) simp_all

lemma quiet_ops [simp]:
  "quiet s (snd (on_repo f s'')) = quiet s s''" "quiet s (snd (on_provider g s'')) = quiet s s''"
  by (simp_all add: quiet_def on_repo_def on_provider_def split: prod.split)

lemma seq_sound_bounded:
  assumes f: "\<And>s x s'. good ok s \<Longrightarrow> f s = (x, s') \<Longrightarrow> leads e ok s s' \<and> quiet s s' \<and> P x"
  shows "seq_sound e ok P (bounded e f)"
  unfolding seq_sound_def
proof (intro allI impI)
  fix s assume good: "good ok s"
  note 1 = leads_pause [OF good]
  obtain x s2 where run: "f (pause e s) = (x, s2)" by fastforce
  note 2 = f [OF leads_good [OF 1] run]
  have lead: "leads e ok s s2" and still: "quiet s s2"
    using 2 leads_trans [OF 1] quiet_trans [OF quiet_pause] by blast+
  have broken: "broke e s s'" if "fault e (w_awaits s) \<noteq> Runs" "leads e ok (pause e s) s'" for s'
    using that by (auto simp: broke_def leads_def intro!: exI [of _ "w_awaits s"])
  show "leads e ok s (snd (bounded e f s)) \<and> quiet s (snd (bounded e f s)) \<and>
      (\<forall>x. fst (bounded e f s) = Inr x \<longrightarrow> P x) \<and>
      (fst (bounded e f s) = Inl Broke \<longrightarrow> broke e s (snd (bounded e f s)))"
    using 1 2 lead still broken leads_refl [OF leads_good [OF 1]]
    by (cases "deadline e (w_awaits s)"; cases "fault e (w_awaits s)")
       (simp_all add: bounded_def await_call_def Let_def run)
qed

lemma seq_sound_ask_repo:
  assumes "\<And>now r. repo_ok r \<Longrightarrow> store_history (sha1hex e) r (snd (f now r))"
  shows "seq_sound e ok (\<lambda>_. True) (ask_repo e f)"
  unfolding ask_repo_def
proof (rule seq_sound_bounded)
  fix s x s' assume "good ok s" and "on_repo f s = (x, s')"
  with leads_on_repo [of s f] assms quiet_ops(1) [of s f s]
  show "leads e ok s s' \<and> quiet s s' \<and> True" by simp
qed

lemma seq_sound_ask_provider:
  assumes "\<And>now p res p'. ok p \<Longrightarrow> f now p = (res, p') \<Longrightarrow> ok p' \<and> (\<forall>x. res = Inr x \<longrightarrow> P x)"
  shows "seq_sound e ok P (ask_provider e f)"
  unfolding ask_provider_def
proof (rule seq_sound_then [where P = "\<lambda>res. \<forall>x. res = Inr x \<longrightarrow> P x"])
  show "seq_sound e ok (\<lambda>res. \<forall>x. res = Inr x \<longrightarrow> P x) (bounded e (on_provider f))"
  proof (rule seq_sound_bounded)
    fix s res s' assume "good ok s" and "on_provider f s = (res, s')"
    with assms [of "w_provider s" "w_now s"] quiet_ops(2) [of s f s]
    show "leads e ok s s' \<and> quiet s s' \<and> (\<forall>x. res = Inr x \<longrightarrow> P x)"
      by (auto simp: on_provider_def leads_def good_def split: prod.splits)
  qed
qed (auto split: sum.split intro: seq_sound_return seq_sound_raise)

section \<open>The provider sequence\<close>

lemma sound_get_booking:
  "seq_sound e ok (\<lambda>x. \<forall>b. x = Some b \<longrightarrow> confirmation_valid b)
     (ask_provider e (\<lambda>now. get_booking (provider e) now key))"
  by (rule seq_sound_ask_provider) (use get_sound live_valid in blast)

lemma sound_search:
  "query_valid q \<Longrightarrow> seq_sound e ok (list_all slot_valid) (ask_provider e (\<lambda>now. search_availability (provider e) now q))"
  by (rule seq_sound_ask_provider) (use search_sound in blast)

lemma sound_book:
  "seq_sound e ok confirmation_valid (ask_provider e (\<lambda>now. book_slot (provider e) now slot key))"
  by (rule seq_sound_ask_provider) (use book_sound live_valid in blast)

lemma sound_reconcile:
  "seq_sound e ok (\<lambda>r. rec_status r = Recon_CONFIRMED \<longrightarrow>
       (\<exists>b. rec_confirmation r = Some b \<and> confirmation_valid b))
     (ask_provider e (\<lambda>now. reconcile_booking (provider e) now key))"
  by (rule seq_sound_ask_provider) (use reconcile_sound live_valid in blast)

lemma sound_book_first:
  "seq_sound e ok (\<lambda>x. \<forall>b. x = Some b \<longrightarrow> confirmation_valid b) (book_first e w slots)"
proof (induction slots)
  case (Cons slot slots)
  show ?case
    unfolding book_first.simps
    by (rule seq_sound_try [OF sound_book])
       (auto intro: seq_sound_return seq_sound_raise Cons.IH split: adapter_error.split)
qed (auto intro: seq_sound_return)

lemma sound_is_cancel_requested: "seq_sound e ok (\<lambda>_. True) (is_cancel_requested e wid)"
  unfolding is_cancel_requested_def
  by (rule seq_sound_then [OF seq_sound_ask_repo]) (auto intro: seq_sound_return)

lemma sound_resolve_ambiguous: "seq_sound e ok plan_ok (resolve_ambiguous e w err n)"
proof (induction n)
  case (Suc n)
  have absent: "seq_sound e ok plan_ok (seq_then (is_cancel_requested e (watch_id w))
      (\<lambda>c. if c then seq_return Seq_CANCELLED else seq_raise (Raised err)))"
    by (rule seq_sound_then [OF sound_is_cancel_requested])
       (auto intro: seq_sound_return seq_sound_raise)
  show ?case
    unfolding resolve_ambiguous.simps
    by (rule seq_sound_then [OF sound_reconcile])
       (auto intro: seq_sound_return Suc.IH absent split: reconciliation_status.split)
qed (simp add: seq_sound_raise)

lemma sound_auto_book_sequence: "seq_sound e ok plan_ok (auto_book_sequence e cl w slots)"
proof -
  have miss: "seq_sound e ok plan_ok (seq_then (is_cancel_requested e (watch_id w))
      (\<lambda>c. seq_return (if c then Seq_CANCELLED else Seq_MISS)))"
    by (rule seq_sound_then [OF sound_is_cancel_requested]) (auto intro: seq_sound_return)
  have permit: "seq_sound e ok (\<lambda>_. True) (ask_repo e (\<lambda>now. begin_booking now cl))"
    by (rule seq_sound_ask_repo) (rule store_history_step [OF step_begin])
  have book: "seq_sound e ok plan_ok (seq_try (book_first e w slots)
      (\<lambda>confirmation. case confirmation of Some b \<Rightarrow> seq_return (Seq_BOOKED (Some b))
         | None \<Rightarrow> seq_then (is_cancel_requested e (watch_id w))
              (\<lambda>c. seq_return (if c then Seq_CANCELLED else Seq_MISS)))
      (\<lambda>err. resolve_ambiguous e w err RECONCILE_ATTEMPTS))"
    by (rule seq_sound_try [OF sound_book_first])
       (auto intro: seq_sound_return miss sound_resolve_ambiguous split: option.split)
  show ?thesis
    unfolding auto_book_sequence_def
    by (rule seq_sound_then [OF permit]) (auto intro: seq_sound_return book)
qed

lemma sound_provider_sequence:
  assumes "watch_valid w"
  shows "seq_sound e ok plan_ok (provider_sequence e cl w)"
proof -
  have query: "query_valid (w_query w)" using assms by (simp add: watch_valid_def)
  have first: "seq_sound e ok (\<lambda>x. \<forall>b. x = Some b \<longrightarrow> confirmation_valid b)
      (if auto_book w then ask_provider e (\<lambda>now. get_booking (provider e) now (idempotency_key w))
       else seq_return None)"
    by (auto intro: sound_get_booking seq_sound_return)
  have rest: "seq_sound e ok plan_ok
      (seq_then (ask_provider e (\<lambda>now. search_availability (provider e) now (w_query w)))
        (\<lambda>slots. if slots = [] then seq_return Seq_MISS
                 else if \<not> auto_book w then seq_return (Seq_FOUND slots)
                 else auto_book_sequence e cl w slots))"
    by (rule seq_sound_then [OF sound_search [OF query]])
       (auto intro: seq_sound_return sound_auto_book_sequence)
  show ?thesis
    unfolding provider_sequence_def
    by (rule seq_sound_then [OF first]) (auto intro: seq_sound_return rest split: option.split)
qed

end

end
