(* ===== verification/Service_Polls.thy ===== *)
theory Service_Polls
  imports Service_Sound
begin

text \<open>
  The commits of a poll and the poll itself, inside \<open>watch_service\<close>. \<open>answered\<close> is the promise of every
  polling method: it has led the world by store steps only; it ends with a valid result, announced at
  most the transition it reports, and published a successor exactly when it reports a retry; or it
  raises because a call it made raised, and then it announced and published nothing.
\<close>

definition announced :: "'p world \<Rightarrow> 'p world \<Rightarrow> poll_result \<Rightarrow> bool" where
  "announced s s' pr \<longleftrightarrow>
     notified s' = notified s \<or>
     (\<exists>w ev. notified s' = notified s @ [(w, ev)] \<and> pr_watch pr = Some w \<and>
        event_for (w_status w) = Some ev \<and> outcome_for (w_status w) = Some (pr_outcome pr))"

definition rescheduled :: "'p world \<Rightarrow> 'p world \<Rightarrow> poll_result \<Rightarrow> bool" where
  "rescheduled s s' pr \<longleftrightarrow>
     (if pr_outcome pr = Outcome_NO_AVAILABILITY
      then \<exists>w pub due. published s' = published s @ [pub] \<and> pr_watch pr = Some w \<and>
             w_status w = ACTIVE \<and> pub_watch_id pub = watch_id w \<and>
             retry_in_seconds pr = Some (pub_delay_seconds pub) \<and>
             MIN_DELAY_SECONDS \<le> pub_delay_seconds pub \<and>
             pub_due_at pub = Some due \<and> next_check_at w = Some due \<and> due \<le> w_expires_at w
      else published s' = published s)"

definition answered ::
  "'p env \<Rightarrow> ('p \<Rightarrow> bool) \<Rightarrow> 'p world \<Rightarrow> (service_error + poll_result) \<times> 'p world \<Rightarrow> bool" where
  "answered e ok s out \<longleftrightarrow>
     leads e ok s (snd out) \<and>
     (case fst out of
        Inr pr \<Rightarrow> poll_result_valid pr \<and> announced s (snd out) pr \<and> rescheduled s (snd out) pr
      | Inl err \<Rightarrow> err = Call_Failed \<and> broke e s (snd out) \<and>
          notified (snd out) = notified s \<and> published (snd out) = published s)"

text \<open>A call that said nothing to anybody: it answered with a value, or raised because of a fault.\<close>

definition called ::
  "'p env \<Rightarrow> ('p \<Rightarrow> bool) \<Rightarrow> ('a \<Rightarrow> bool) \<Rightarrow> 'p world \<Rightarrow> (service_error + 'a) \<times> 'p world \<Rightarrow> bool" where
  "called e ok P s out \<longleftrightarrow>
     leads e ok s (snd out) \<and> notified (snd out) = notified s \<and> published (snd out) = published s \<and>
     (case fst out of Inr x \<Rightarrow> P x | Inl err \<Rightarrow> err = Call_Failed \<and> broke e s (snd out))"

lemma broke_trans: "leads e ok s s1 \<Longrightarrow> broke e s1 s2 \<Longrightarrow> broke e s s2"
  unfolding broke_def leads_def by (metis le_trans)

lemma answered_after:
  assumes "leads e ok s s1" and "notified s1 = notified s" and "published s1 = published s"
    and "answered e ok s1 out"
  shows "answered e ok s out"
  using assms leads_trans [of e ok s s1] broke_trans [OF assms(1)]
  by (auto simp: answered_def announced_def rescheduled_def split: sum.splits)

lemma answered_proceed:
  assumes "called e ok P s out"
    and "\<And>x s1. out = (Inr x, s1) \<Longrightarrow> P x \<Longrightarrow> good ok s1 \<Longrightarrow> answered e ok s1 (k x s1)"
  shows "answered e ok s (proceed out k)"
proof (cases out)
  case (Pair res s1)
  show ?thesis
  proof (cases res)
    case (Inl err)
    with assms(1) show ?thesis by (simp add: Pair called_def answered_def)
  next
    case (Inr x)
    with assms(1) have "leads e ok s s1" "notified s1 = notified s" "published s1 = published s" "P x"
      by (simp_all add: Pair called_def)
    with assms(2) [OF Pair [unfolded Inr]] answered_after [of e ok s s1] show ?thesis
      by (simp add: Pair Inr leads_good)
  qed
qed

lemma noop_result_facts:
  "poll_result_valid (noop_result w)" "pr_outcome (noop_result w) \<noteq> Outcome_NO_AVAILABILITY"
  by (auto simp: noop_result_def poll_result_valid_def split: option.split)

lemma answered_noop: "good ok s \<Longrightarrow> answered e ok s (Inr (noop_result w), s)"
  by (auto simp: answered_def announced_def rescheduled_def noop_result_facts)

lemma committed_result:
  assumes "cm_status (fst (commit_window sha now cl w rt r)) = Commit_COMMITTED"
  shows "cm_watch (fst (commit_window sha now cl w rt r)) = Some w"
    and "cm_event_id (fst (commit_window sha now cl w rt r)) \<noteq> None \<longleftrightarrow> terminal_event_status (w_status w)"
  using assms by (cases rule: commit_window_cases [of sha now cl w rt r]; simp)+

lemma record_history_logs [simp]:
  "notified (record_history e c w owner user n s) = notified s"
  "published (record_history e c w owner user n s) = published s"
  by (simp_all add: record_history_def)

lemma on_repo_logs [simp]:
  "notified (snd (on_repo f s)) = notified s" "published (snd (on_repo f s)) = published s"
  "history_calls (snd (on_repo f s)) = history_calls s"
  by (simp_all add: on_repo_def split: prod.split)

lemma call_repo_logs [simp]:
  "notified (snd (call_repo e f s)) = notified s" "published (snd (call_repo e f s)) = published s"
  "history_calls (snd (call_repo e f s)) = history_calls s"
  by (simp_all add: call_repo_def await_call_def Let_def split: cut.split prod.split)
     (metis on_repo_logs pause_logs snd_conv)+

lemma read_repo_logs [simp]:
  "notified (snd (read_repo e f s)) = notified s" "published (snd (read_repo e f s)) = published s"
  by (simp_all add: read_repo_def)

text \<open>What an answering call computed, from the store the others left it.\<close>

lemma call_repo_answer:
  "call_repo e f s = (Inr x, s1) \<Longrightarrow> f (w_now (pause e s)) (w_repo (pause e s)) = (x, w_repo s1)"
  by (auto simp: call_repo_def await_call_def on_repo_def Let_def split: cut.splits prod.splits)

context watch_service
begin

lemma leads_record_history: "good ok s \<Longrightarrow> leads e ok s (record_history e cfg w owner user n s)"
  using leads_pause by (simp add: record_history_def)

lemma called_repo:
  assumes good: "good ok s" and f: "\<And>now r. repo_ok r \<Longrightarrow> store_history (sha1hex e) r (snd (f now r))"
    and P: "\<And>now r. repo_ok r \<Longrightarrow> P (fst (f now r))"
  shows "called e ok P s (call_repo e f s)"
proof -
  have ok1: "repo_ok (w_repo (pause e s))" using leads_good [OF leads_pause [OF good]] by (simp add: good_def)
  have awaits: "w_awaits (snd (on_repo f (pause e s))) = w_awaits (pause e s)" by simp
  have lead: "leads e ok s (snd (on_repo f s1))" if "leads e ok s s1" for s1
    using leads_trans [OF that leads_on_repo [OF leads_good [OF that] f]] .
  note c = await_call_sound [of s "on_repo f", OF good lead awaits, folded call_repo_def]
  show ?thesis
  proof (cases "fst (call_repo e f s)")
    case (Inl err)
    with c(1,2) show ?thesis by (simp add: called_def)
  next
    case (Inr x)
    then obtain s1 where "call_repo e f s = (Inr x, s1)" by (metis prod.collapse)
    from call_repo_answer [OF this] P [OF ok1] have "P x" by (metis fst_conv)
    with c(1) Inr show ?thesis by (simp add: called_def)
  qed
qed

lemma called_read: "good ok s \<Longrightarrow> called e ok (\<lambda>_. True) s (read_repo e f s)"
  unfolding read_repo_def by (rule called_repo) simp_all

lemma answered_answer_noop: "good ok s \<Longrightarrow> answered e ok s (answer_noop e wid s)"
  unfolding answer_noop_def by (rule answered_proceed [OF called_read]) (auto intro: answered_noop)

lemma called_commit:
  assumes good: "good ok s" and doc: "watch_valid w" "watch_id w = watch_id (wc_watch cl)"
      "w_status w = ACTIVE \<longrightarrow> dated rt"
  shows "called e ok (\<lambda>res. cm_status res = Commit_COMMITTED \<longrightarrow> cm_watch res = Some w \<and>
      (cm_event_id res \<noteq> None \<longleftrightarrow> terminal_event_status (w_status w))) s (commit_and_record e cfg cl w rt s)"
    (is "called e ok ?P s _")
proof -
  let ?f = "\<lambda>now. commit_window (sha1hex e) now cl w rt"
  have c: "called e ok ?P s (call_repo e ?f s)"
  proof (rule called_repo [OF good])
    show "store_history (sha1hex e) r (snd (?f now r))" for now r
      by (rule store_history_step [OF step_commit [OF doc(1,2)]]) (use doc(3) in blast)
    show "?P (fst (?f now r))" for now r using committed_result by blast
  qed
  obtain out s1 where run: "call_repo e ?f s = (out, s1)" by fastforce
  show ?thesis
  proof (cases out)
    case (Inl err)
    with c show ?thesis by (simp add: commit_and_record_def run)
  next
    case (Inr res)
    from c have "leads e ok s s1" by (simp add: run called_def)
    then have "leads e ok s (record_history e cfg w' None None n s1)" for w' n
      using leads_trans leads_record_history leads_good by blast
    with c show ?thesis by (auto simp: commit_and_record_def run Inr called_def)
  qed
qed

lemma leads_notify: "good ok s \<Longrightarrow> leads e ok s (notify_owner e w ev s)"
  using leads_pause by (simp add: notify_owner_def)

lemma leads_dispatch: "good ok s \<Longrightarrow> leads e ok s (dispatch_poll e wid win delay due s)"
  using leads_pause by (simp add: dispatch_poll_def)

lemma answered_commit_terminal:
  assumes good: "good ok s" and doc: "watch_valid w" "watch_id w = watch_id (wc_watch cl)"
    and fin: "is_terminal (w_status w)"
  shows "answered e ok s (commit_terminal e cfg cl w s)"
  unfolding commit_terminal_def Let_def
proof (rule answered_proceed [OF called_commit [OF good doc]])
  show "w_status w = ACTIVE \<longrightarrow> dated ((wc_runtime cl)\<lparr>rt_window_id := None, rt_scheduled_for := None,
      rt_phase := None, cancel_requested := False, consecutive_outages := 0\<rparr>)"
    using fin by (auto simp: is_terminal_def)
next
  fix res s1
  assume c: "cm_status res = Commit_COMMITTED \<longrightarrow> cm_watch res = Some w \<and>
      (cm_event_id res \<noteq> None \<longleftrightarrow> terminal_event_status (w_status w))" and good1: "good ok s1"
  let ?rest = "\<lambda>committed. if w_status committed = CANCELLED
      then (Inr \<lparr>pr_outcome = Outcome_ALREADY_FINISHED, pr_watch = Some committed, retry_in_seconds = None\<rparr>, s1)
      else (case outcome_for (w_status committed) of
              None \<Rightarrow> (Inl Key_Error, case (cm_event_id res, event_for (w_status committed)) of
                   (Some _, Some ev) \<Rightarrow> notify_owner e committed ev s1 | _ \<Rightarrow> s1)
            | Some out \<Rightarrow> (Inr \<lparr>pr_outcome = out, pr_watch = Some committed, retry_in_seconds = None\<rparr>,
                 case (cm_event_id res, event_for (w_status committed)) of
                   (Some _, Some ev) \<Rightarrow> notify_owner e committed ev s1 | _ \<Rightarrow> s1))"
  have "answered e ok s1 (?rest w)" if ev: "cm_event_id res \<noteq> None \<longleftrightarrow> terminal_event_status (w_status w)"
  proof (cases "w_status w = CANCELLED")
    case True
    with good1 show ?thesis
      by (simp add: answered_def announced_def rescheduled_def poll_result_valid_def)
  next
    case False
    with fin obtain k out where k: "event_for (w_status w) = Some k"
      "outcome_for (w_status w) = Some out" "out \<noteq> Outcome_NO_AVAILABILITY"
      "out \<noteq> Outcome_UNKNOWN_WATCH" "terminal_event_status (w_status w)"
      by (cases "w_status w") (auto simp: terminal_event_status_def)
    with ev obtain i where "cm_event_id res = Some i" by auto
    with False k leads_notify [OF good1] show ?thesis
      by (simp add: answered_def announced_def rescheduled_def poll_result_valid_def notify_owner_def)
  qed
  then show "answered e ok s1
      (if cm_status res \<noteq> Commit_COMMITTED then answer_noop e (watch_id w) s1
       else ?rest (case cm_watch res of Some x \<Rightarrow> x | None \<Rightarrow> w))"
    using c answered_answer_noop [OF good1]
    by (cases "cm_status res = Commit_COMMITTED") (simp_all only: if_True if_False simp_thms option.case)
qed

lemma dated_successor [simp]: "dated (successor_runtime cl w due n)"
  by (simp add: successor_runtime_def dated_def Let_def)

lemma answered_commit_successor:
  assumes good: "good ok s" and doc: "watch_valid w" "watch_id w = watch_id (wc_watch cl)"
    and active: "w_status w = ACTIVE" "dated rt" and nxt: "next_check_at w = Some due"
    and delay: "MIN_DELAY_SECONDS \<le> delay" "due \<le> w_expires_at w"
  shows "answered e ok s (commit_successor e cfg cl w rt delay due s)"
  unfolding commit_successor_def Let_def
proof (rule answered_proceed [OF called_commit [OF good doc impI [OF active(2)]]])
  fix res s1
  assume c: "cm_status res = Commit_COMMITTED \<longrightarrow> cm_watch res = Some w \<and>
      (cm_event_id res \<noteq> None \<longleftrightarrow> terminal_event_status (w_status w))" and good1: "good ok s1"
  have "0 \<le> delay" using delay(1) by (simp add: MIN_DELAY_SECONDS_def)
  then have "answered e ok s1
      (Inr \<lparr>pr_outcome = Outcome_NO_AVAILABILITY, pr_watch = Some w, retry_in_seconds = Some delay\<rparr>,
       dispatch_poll e (watch_id w) (rt_window_id rt) delay due s1)"
    using leads_dispatch [OF good1] active nxt delay
    by (simp add: answered_def announced_def rescheduled_def poll_result_valid_def dispatch_poll_def)
  with c good1 answered_answer_noop
  show "answered e ok s1
      (if cm_status res \<noteq> Commit_COMMITTED then answer_noop e (watch_id (wc_watch cl)) s1
       else (Inr \<lparr>pr_outcome = Outcome_NO_AVAILABILITY,
               pr_watch = Some (case cm_watch res of Some x \<Rightarrow> x | None \<Rightarrow> w), retry_in_seconds = Some delay\<rparr>,
             dispatch_poll e (watch_id (case cm_watch res of Some x \<Rightarrow> x | None \<Rightarrow> w))
               (rt_window_id rt) delay due s1))"
    by auto
qed

section \<open>Outages and misses\<close>

lemma answered_commit_outage:
  assumes good: "good ok s" and doc: "watch_valid w" "watch_id w = watch_id (wc_watch cl)"
    and active: "w_status w = ACTIVE" and err: "1 \<le> length error" "length error \<le> 500"
  shows "answered e ok s (commit_outage e cfg cl w now error s)"
proof -
  have "0 < interval_seconds (schedule cfg)" using schedule_ok by (simp add: schedule_valid_def)
  then obtain k where k: "exponent_limit (interval_seconds (schedule cfg)) (backoff_max_seconds cfg) = Some k"
    using exponent_limit_terminates by blast
  let ?n = "min (consecutive_outages (wc_runtime cl) + 1) (int k + 1)"
  let ?draw = "uniform e (w_awaits s)"
  have n: "saturating_outages cfg (consecutive_outages (wc_runtime cl) + 1) = Some ?n"
    by (simp add: saturating_outages_def k)
  obtain answer where a: "outage_delay cfg ?n now w ?draw = Inr answer"
    by (auto simp: outage_delay_def k Let_def)
  show ?thesis
  proof (cases answer)
    case None
    have "answered e ok s (commit_terminal e cfg cl (expired_watch w now False) s)"
      by (rule answered_commit_terminal) (simp_all add: good doc expired_watch_valid)
    then show ?thesis using n a None by (simp add: commit_outage_def)
  next
    case (Some delay)
    note b = outage_delay_bounds [OF a [unfolded Some] backoff_ok]
    let ?due = "now + timedelta_seconds delay"
    have "answered e ok s (commit_successor e cfg cl
        (w\<lparr>last_checked_at := Some now, updated_at := now, last_error := Some error,
           next_check_at := Some ?due\<rparr>) (successor_runtime cl w ?due ?n) delay ?due s)"
      by (rule answered_commit_successor)
         (use good doc active err b in \<open>simp_all add: outage_watch_valid due_before_expiry\<close>)
    then show ?thesis using n a Some by (simp add: commit_outage_def Let_def)
  qed
qed

lemma answered_commit_miss:
  assumes good: "good ok s" and doc: "watch_valid w" "watch_id w = watch_id (wc_watch cl)"
    and active: "w_status w = ACTIVE"
  shows "answered e ok s (commit_miss e cfg cl w now None s)"
proof -
  let ?n = "min (attempts w + 1) (max_attempts w)"
  let ?w = "w\<lparr>attempts := ?n, last_checked_at := Some now, updated_at := now, last_error := None\<rparr>"
  let ?delay = "min (next_delay (schedule cfg) (uniform e (w_awaits s))) (total_seconds (w_expires_at w - now))"
  have valid: "watch_valid ?w" using attempted_watch_valid [OF doc(1), of None now] by simp
  show ?thesis
  proof (cases "max_attempts w \<le> ?n \<or> ?delay < MIN_DELAY_SECONDS")
    case True
    have "answered e ok s (commit_terminal e cfg cl (expired_watch ?w now True) s)"
      by (rule answered_commit_terminal) (simp_all add: good doc expired_watch_valid valid)
    then show ?thesis using True by (simp add: commit_miss_def Let_def)
  next
    case False
    then have floor: "MIN_DELAY_SECONDS \<le> ?delay" by linarith
    let ?due = "now + timedelta_seconds ?delay"
    have "answered e ok s (commit_successor e cfg cl (?w\<lparr>next_check_at := Some ?due\<rparr>)
        (successor_runtime cl w ?due 0) ?delay ?due s)"
      by (rule answered_commit_successor [OF good _ _ _ _ _ floor])
         (use doc active valid in \<open>simp_all add: successor_watch_valid due_before_expiry\<close>)
    then show ?thesis using False by (simp add: commit_miss_def Let_def)
  qed
qed

section \<open>Polls\<close>

lemma answered_run_claimed:
  assumes good: "good ok s" and doc: "watch_valid (wc_watch cl)" and active: "w_status (wc_watch cl) = ACTIVE"
  shows "answered e ok s (run_claimed e cfg cl s)"
proof (cases "w_expires_at (wc_watch cl) \<le> w_now s \<or> max_attempts (wc_watch cl) \<le> attempts (wc_watch cl)")
  case True
  have "answered e ok s (commit_terminal e cfg cl (expired_watch (wc_watch cl) (w_now s) False) s)"
    by (rule answered_commit_terminal) (simp_all add: good doc expired_watch_valid)
  then show ?thesis using True by (simp add: run_claimed_def Let_def)
next
  case False
  let ?w = "wc_watch cl" and ?now = "w_now s"
  obtain res s1 where seq: "provider_sequence e cl ?w s = (res, s1)" by fastforce
  note q = seq_soundD [OF sound_provider_sequence [OF doc] good seq]
  from q(2) have logs: "notified s1 = notified s" "published s1 = published s" by (simp_all add: quiet_def)
  note go = answered_after [OF q(1) logs]
  note terminal = answered_commit_terminal [OF q(4)]
  have timeout: "answered e ok s1 (commit_outage e cfg cl ?w ?now ''The reservation provider timed out'' s1)"
    by (rule answered_commit_outage) (simp_all add: q(4) doc active)
  have outage: "answered e ok s1 (commit_outage e cfg cl ?w ?now (error_text msg) s1)" for msg
    using error_text_length [of msg] by (intro answered_commit_outage) (simp_all add: q(4) doc active)
  have miss: "answered e ok s1 (commit_miss e cfg cl ?w ?now None s1)"
    by (rule answered_commit_miss) (simp_all add: q(4) doc active)
  have unfold: "run_claimed e cfg cl s =
      (case (res, s1) of
         (Inl Timed_out, s1) \<Rightarrow> commit_outage e cfg cl ?w ?now ''The reservation provider timed out'' s1
       | (Inl (Raised (Slot_Unavailable _)), s1) \<Rightarrow> commit_miss e cfg cl ?w ?now None s1
       | (Inl (Raised (Slot_Not_Found _)), s1) \<Rightarrow> commit_miss e cfg cl ?w ?now None s1
       | (Inl (Raised (Adapter_Error msg)), s1) \<Rightarrow> commit_outage e cfg cl ?w ?now (error_text msg) s1
       | (Inl Broke, s1) \<Rightarrow> (Inl Call_Failed, s1)
       | (Inr plan, s1) \<Rightarrow>
           (case plan of
              Seq_MISS \<Rightarrow> commit_miss e cfg cl ?w ?now None s1
            | Seq_FOUND slots \<Rightarrow> commit_terminal e cfg cl (found_watch ?w slots ?now) s1
            | Seq_BOOKED None \<Rightarrow> (Inl Attribute_Error, s1)
            | Seq_BOOKED (Some b) \<Rightarrow> commit_terminal e cfg cl (booked_watch ?w ?now b True) s1
            | Seq_BOOKED_REPLAY b \<Rightarrow> commit_terminal e cfg cl (booked_watch ?w ?now b False) s1
            | Seq_CANCELLED \<Rightarrow> commit_terminal e cfg cl (cancelled_watch ?w ?now) s1
            | Seq_NOOP \<Rightarrow>
                proceed (call_repo e (\<lambda>now. release_claim cl) s1) (\<lambda>_. answer_noop e (watch_id ?w))))"
    using False seq by (simp add: run_claimed_def Let_def)
  have release: "answered e ok s1
      (proceed (call_repo e (\<lambda>now. release_claim cl) s1) (\<lambda>_. answer_noop e (watch_id ?w)))"
  proof (rule answered_proceed [where P = "\<lambda>_. True"])
    show "called e ok (\<lambda>_. True) s1 (call_repo e (\<lambda>now. release_claim cl) s1)"
      by (rule called_repo [OF q(4)]) (rule store_history_step [OF step_release], simp)
  qed (rule answered_answer_noop)
  have broken: "answered e ok s (Inl Call_Failed, s1)" if "res = Inl Broke"
    using q(1) q(5) [OF that] logs by (simp add: answered_def)
  show ?thesis
  proof (cases res)
    case (Inl ex)
    then show ?thesis
      using go timeout outage miss broken unfold by (auto split: seq_exc.split adapter_error.split)
  next
    case (Inr plan)
    have plan: "plan_ok plan" using q(3) [OF Inr] .
    have "answered e ok s1 (run_claimed e cfg cl s)"
      using plan unfold Inr miss release
      by (cases plan)
         (auto simp: doc found_watch_valid booked_watch_valid cancelled_watch_valid intro!: terminal)
    then show ?thesis by (rule go)
  qed
qed

lemma answered_poll_window:
  assumes good: "good ok s"
  shows "answered e ok s (poll_window e cfg wid win owner due s)"
proof -
  let ?owner = "case owner of Some x \<Rightarrow> if x = [] then uuid4_hex e (w_awaits s) else x
                  | None \<Rightarrow> uuid4_hex e (w_awaits s)"
  let ?f = "\<lambda>now. claim_window now wid win ?owner POLL_LEASE_SECONDS (\<not> due)"
  have step: "called e ok (\<lambda>_. True) s (call_repo e ?f s)"
    by (rule called_repo [OF good]) (rule store_history_step [OF step_claim], simp)
  have ok1: "repo_ok (w_repo (pause e s))"
    using leads_good [OF leads_pause [OF good]] by (simp add: good_def)
  show ?thesis
    unfolding poll_window_def Let_def
  proof (rule answered_proceed [OF step])
    fix res s1 assume call: "call_repo e ?f s = (Inr res, s1)" and good1: "good ok s1"
    note claim = call_repo_answer [OF call]
    show "answered e ok s1
        (if cl_status res = Claim_UNKNOWN then (Inr (noop_result None), s1)
         else if cl_status res \<noteq> Claim_OWNED then answer_noop e wid s1
         else (case cl_claim res of None \<Rightarrow> (Inl Assertion_Error, s1) | Some cl \<Rightarrow> run_claimed e cfg cl s1))"
    proof (cases rule: claim_window_cases [of "w_now (pause e s)" wid win ?owner POLL_LEASE_SECONDS "\<not> due"
          "w_repo (pause e s)"])
      case (refused st)
      with claim have "res = claim_refused st" by simp
      with refused(2) show ?thesis
        using answered_noop [OF good1] answered_answer_noop [OF good1] by simp
    next
      case (granted w rt)
      obtain cl where res: "res = \<lparr>cl_status = Claim_OWNED, cl_claim = Some cl\<rparr>" and cl: "wc_watch cl = w"
        using claim granted(7) by auto
      have "cell_ok wid (cell_of (w_repo (pause e s)) wid)" using ok1 by (simp add: repo_ok_def)
      with granted(1) have "watch_valid w" by (simp add: cell_ok_def)
      with answered_run_claimed [OF good1, of cl] cl granted(3) show ?thesis by (simp add: res)
    qed
  qed
qed

section \<open>Cancellation, expiry and creation\<close>

lemma leads_proceed:
  assumes "leads e ok s (snd out)"
    and "\<And>x s1. out = (Inr x, s1) \<Longrightarrow> leads e ok s s1 \<Longrightarrow> leads e ok s (snd (k x s1))"
  shows "leads e ok s (snd (proceed out k))"
  using assms by (cases out; cases "fst out") auto

lemma leads_service_cancel: "good ok s \<Longrightarrow> leads e ok s (snd (service_cancel e cfg wid s))"
proof -
  assume good: "good ok s"
  have hist: "leads e ok s (record_history e cfg w None None n s1)" if "leads e ok s s1" for w n s1
    using leads_trans [OF that leads_record_history [OF leads_good [OF that]]] .
  show ?thesis
    unfolding service_cancel_def
    by (rule leads_proceed [OF leads_call_repo [OF good]])
       (use hist in \<open>auto intro: store_history_step [OF step_cancel] split: option.split bool.split\<close>)
qed

lemma leads_service_expire: "good ok s \<Longrightarrow> leads e ok s (snd (service_expire e cfg wid s))"
proof -
  assume good: "good ok s"
  have hist: "leads e ok s (record_history e cfg w None None n s1)" if "leads e ok s s1" for w n s1
    using leads_trans [OF that leads_record_history [OF leads_good [OF that]]] .
  have note_it: "leads e ok s (notify_owner e w ev s1)" if "leads e ok s s1" for w ev s1
    using leads_trans [OF that leads_notify [OF leads_good [OF that]]] .
  show ?thesis
    unfolding service_expire_def
    by (rule leads_proceed [OF leads_call_repo [OF good]])
       (use hist note_it in \<open>auto simp: Let_def intro: store_history_step [OF step_expire]
          split: option.split bool.split\<close>)
qed

end

end
