(* ===== verification/Mock_State.thy ===== *)
theory Mock_State
  imports Adapter_Contract
begin

text \<open>
  \<^verbatim>\<open>InMemoryMockBookingStateRepository\<close> of \<^verbatim>\<open>backend/db/repositories/mock_booking.py\<close>: the shared,
  lock-serialized state of the mock provider. Published slots live under a capacity with
  least-recently-touched eviction, search pins protect what a search just returned, and a booking
  leaves an idempotency record and a tombstone that both protect it until retention runs out.
\<close>

record slot_entry =
  se_slot :: availability_slot
  last_touch :: time

record mock_booking =
  mb_confirmation :: booking_confirmation
  mb_protected_until :: time

record tombstone =
  tb_key :: string
  tb_protected_until :: time

record pin =
  pin_operation_id :: string
  pin_expires_at :: time

record mock_store =
  ms_capacity :: int
  ms_idle_ttl :: int
  ms_retention :: int
  ms_pin :: int
  ms_slots :: "(string, slot_entry) pydict"
  ms_tombstones :: "(string, tombstone) pydict"
  ms_bookings :: "(string, mock_booking) pydict"
  ms_pins :: "(string, pin) pydict"

definition empty_mock_store :: "int \<Rightarrow> seconds \<Rightarrow> seconds \<Rightarrow> seconds \<Rightarrow> mock_store" where
  "empty_mock_store capacity idle_ttl retention_s pin_s =
     \<lparr>ms_capacity = capacity, ms_idle_ttl = timedelta_seconds idle_ttl,
      ms_retention = timedelta_seconds retention_s, ms_pin = timedelta_seconds pin_s,
      ms_slots = [], ms_tombstones = [], ms_bookings = [], ms_pins = []\<rparr>"

section \<open>Internals\<close>

definition expire_pins :: "time \<Rightarrow> mock_store \<Rightarrow> mock_store" where
  "expire_pins now m = m\<lparr>ms_pins := filter (\<lambda>(_, p). now < pin_expires_at p) (ms_pins m)\<rparr>"

definition pinned_ids :: "time \<Rightarrow> mock_store \<Rightarrow> string list" where
  "pinned_ids now m = map fst (filter (\<lambda>(_, p). now < pin_expires_at p) (ms_pins m))"

text \<open>The scan of \<^verbatim>\<open>_evict_one\<close>: the first of the unprotected entries with the smallest touch.\<close>

fun oldest_entry ::
  "string list \<Rightarrow> (string \<times> time) option \<Rightarrow> (string, slot_entry) pydict \<Rightarrow> (string \<times> time) option" where
  "oldest_entry protected best [] = best"
| "oldest_entry protected best ((k, en) # rest) =
     (if k \<in> set protected then oldest_entry protected best rest
      else
        (case best of
           None \<Rightarrow> oldest_entry protected (Some (k, last_touch en)) rest
         | Some (_, t) \<Rightarrow>
             if last_touch en < t then oldest_entry protected (Some (k, last_touch en)) rest
             else oldest_entry protected best rest))"

definition evict_one :: "string list \<Rightarrow> mock_store \<Rightarrow> bool \<times> mock_store" where
  "evict_one protected m =
     (case oldest_entry protected None (ms_slots m) of
        None \<Rightarrow> (False, m)
      | Some (k, _) \<Rightarrow> (True, m\<lparr>ms_slots := dict_pop k (ms_slots m)\<rparr>))"

definition protects :: "time \<Rightarrow> tombstone option \<Rightarrow> bool" where
  "protects now t \<longleftrightarrow> (case t of None \<Rightarrow> False | Some x \<Rightarrow> now < tb_protected_until x)"

section \<open>Searching\<close>

text \<open>
  One candidate of \<^verbatim>\<open>publish_and_filter\<close>. \<open>admitted\<close> and \<open>result\<close> accumulate; \<open>admitted\<close> is a set in
  the code and only its membership is used.
\<close>

definition publish_one ::
  "time \<Rightarrow> availability_slot \<Rightarrow> string list \<times> availability_slot list \<times> mock_store
     \<Rightarrow> string list \<times> availability_slot list \<times> mock_store" where
  "publish_one now slot st =
     (let (admitted, result, m) = st; k = slot_id slot in
      if protects now (dict_get (ms_tombstones m) k) then st
      else
        (case dict_get (ms_slots m) k of
           Some en \<Rightarrow>
             (admitted @ [k], result @ [se_slot en],
              m\<lparr>ms_slots := dict_set k (en\<lparr>last_touch := now\<rparr>) (ms_slots m)\<rparr>)
         | None \<Rightarrow>
             (let (room, m') =
                (if int (length (ms_slots m)) < ms_capacity m then (True, m)
                 else evict_one (pinned_ids now m @ admitted) m)
              in if \<not> room then (admitted, result, m')
                 else
                   (admitted @ [k], result @ [slot],
                    m'\<lparr>ms_slots := dict_set k \<lparr>se_slot = slot, last_touch = now\<rparr> (ms_slots m')\<rparr>))))"

definition publish_and_filter ::
  "availability_slot list \<Rightarrow> string \<Rightarrow> time \<Rightarrow> mock_store \<Rightarrow> availability_slot list \<times> mock_store" where
  "publish_and_filter candidates operation_id now m =
     (let (admitted, result, m') = fold (publish_one now) candidates ([], [], expire_pins now m);
          pin = \<lparr>pin_operation_id = operation_id, pin_expires_at = now + ms_pin m'\<rparr>
      in (result, m'\<lparr>ms_pins := fold (\<lambda>k. dict_set k pin) admitted (ms_pins m')\<rparr>))"

definition release_operation :: "string \<Rightarrow> mock_store \<Rightarrow> mock_store" where
  "release_operation operation_id m =
     m\<lparr>ms_pins := filter (\<lambda>(_, p). pin_operation_id p \<noteq> operation_id) (ms_pins m)\<rparr>"

section \<open>Booking\<close>

definition live_booking :: "time \<Rightarrow> mock_store \<Rightarrow> string \<Rightarrow> booking_confirmation option" where
  "live_booking now m key =
     (case dict_get (ms_bookings m) key of
        None \<Rightarrow> None
      | Some b \<Rightarrow> if mb_protected_until b \<le> now then None else Some (mb_confirmation b))"

definition mock_reconcile :: "string \<Rightarrow> time \<Rightarrow> mock_store \<Rightarrow> reconciliation_result" where
  "mock_reconcile key now m =
     (case dict_get (ms_bookings m) key of
        Some b \<Rightarrow>
          if now < mb_protected_until b
          then \<lparr>rec_status = Recon_CONFIRMED, rec_confirmation = Some (mb_confirmation b)\<rparr>
          else \<lparr>rec_status = Recon_DEFINITIVELY_ABSENT, rec_confirmation = None\<rparr>
      | None \<Rightarrow> \<lparr>rec_status = Recon_DEFINITIVELY_ABSENT, rec_confirmation = None\<rparr>)"

definition mock_book ::
  "string \<Rightarrow> string \<Rightarrow> (availability_slot \<Rightarrow> booking_confirmation) \<Rightarrow> time \<Rightarrow> mock_store
     \<Rightarrow> (adapter_error + booking_confirmation) \<times> mock_store" where
  "mock_book k key factory now m =
     (let fresh =
        (if (case dict_get (ms_tombstones m) k of
               None \<Rightarrow> False
             | Some t \<Rightarrow> now < tb_protected_until t \<and> tb_key t \<noteq> key)
         then (Inl (Slot_Unavailable (''Mock slot is already booked: '' @ k)), m)
         else
           (case dict_get (ms_slots m) k of
              None \<Rightarrow> (Inl (Slot_Not_Found (''Unknown mock slot: '' @ k)), m)
            | Some en \<Rightarrow>
                (let protected_until = now + ms_retention m; c = factory (se_slot en)
                 in (Inr c,
                     m\<lparr>ms_bookings := dict_set key
                         \<lparr>mb_confirmation = c, mb_protected_until = protected_until\<rparr> (ms_bookings m),
                       ms_tombstones := dict_set k
                         \<lparr>tb_key = key, tb_protected_until = protected_until\<rparr> (ms_tombstones m),
                       ms_slots := dict_pop k (ms_slots m),
                       ms_pins := dict_pop k (ms_pins m)\<rparr>))))
      in case dict_get (ms_bookings m) key of
           Some b \<Rightarrow> if now < mb_protected_until b then (Inr (mb_confirmation b), m) else fresh
         | None \<Rightarrow> fresh)"

section \<open>Cleanup\<close>

record cleanup_counts =
  idle_slots :: int
  expired_records :: int

definition mock_cleanup :: "time \<Rightarrow> int \<Rightarrow> mock_store \<Rightarrow> cleanup_counts \<times> mock_store" where
  "mock_cleanup now batch_size m0 =
     (let m = expire_pins now m0;
          pinned = pinned_ids now m;
          idle = py_take batch_size (map fst (filter
            (\<lambda>(k, en). k \<notin> set pinned \<and> last_touch en + ms_idle_ttl m \<le> now) (ms_slots m)));
          keys = py_take batch_size (map fst (filter
            (\<lambda>(_, b). mb_protected_until b \<le> now) (ms_bookings m)));
          tombs = py_take batch_size (map fst (filter
            (\<lambda>(_, t). tb_protected_until t \<le> now) (ms_tombstones m)))
      in (\<lparr>idle_slots = int (length idle), expired_records = int (length keys)\<rparr>,
          m\<lparr>ms_slots := fold dict_pop idle (ms_slots m),
            ms_bookings := fold dict_pop keys (ms_bookings m),
            ms_tombstones := fold dict_pop tombs (ms_tombstones m)\<rparr>))"

end
