(* ===== verification/Holidays.thy ===== *)
theory Holidays
  imports Calendar
begin

text \<open>
  The Ontario holiday calendar of \<^verbatim>\<open>backend/data/venues.py\<close>: moving feasts, the per-year table, the
  calendar of the supported years keyed by ISO date, and the closure and sell-out sets drawn from it.
  Date arithmetic moves one day at a time; the lemmas tie it to ordinals and weekdays.
\<close>

section \<open>Moving a date\<close>

fun next_day :: "date \<Rightarrow> date" where
  "next_day (Date y m d) =
     (if d < days_in_month y m then Date y m (d + 1)
      else if m < 12 then Date y (m + 1) 1
      else Date (y + 1) 1 1)"

fun prev_day :: "date \<Rightarrow> date" where
  "prev_day (Date y m d) =
     (if 1 < d then Date y m (d - 1)
      else if 1 < m then Date y (m - 1) (days_in_month y (m - 1))
      else Date (y - 1) 12 31)"

lemma next_day_def:
  "next_day d =
     (if dt_day d < days_in_month (dt_year d) (dt_month d) then Date (dt_year d) (dt_month d) (dt_day d + 1)
      else if dt_month d < 12 then Date (dt_year d) (dt_month d + 1) 1
      else Date (dt_year d + 1) 1 1)"
  by (cases d) simp

declare next_day.simps [simp del]

text \<open>\<^verbatim>\<open>day + timedelta(days=n)\<close>.\<close>

definition add_days :: "int \<Rightarrow> date \<Rightarrow> date" where
  "add_days n d = (if 0 \<le> n then (next_day ^^ nat n) d else (prev_day ^^ nat (- n)) d)"

lemma month_cases:
  "1 \<le> m \<Longrightarrow> m \<le> 12 \<Longrightarrow>
   m = 1 \<or> m = 2 \<or> m = 3 \<or> m = 4 \<or> m = 5 \<or> m = 6 \<or> m = 7 \<or> m = 8 \<or> m = 9 \<or> m = 10 \<or> m = 11 \<or> m = (12::int)"
  by presburger

lemma days_before_month_step:
  assumes "1 \<le> m" and "m < 12"
  shows "days_before_month y (m + 1) = days_before_month y m + days_in_month y m"
proof -
  from assms have "m = 1 \<or> m = 2 \<or> m = 3 \<or> m = 4 \<or> m = 5 \<or> m = 6 \<or> m = 7 \<or> m = 8 \<or> m = 9 \<or> m = 10 \<or> m = 11"
    by presburger
  then show ?thesis by (elim disjE) (simp_all add: days_before_month_def days_in_month_def)
qed

lemma div_step_int:
  fixes y c :: int
  assumes "0 < c"
  shows "y div c = (y - 1) div c + (if y mod c = 0 then 1 else 0)"
proof -
  have y: "y = y div c * c + y mod c" by simp
  have bound: "0 \<le> y mod c" "y mod c < c" using assms by simp_all
  show ?thesis
  proof (cases "y mod c = 0")
    case True
    then have "y - 1 = (y div c - 1) * c + (c - 1)" using y by (simp add: algebra_simps)
    then have "(y - 1) div c = y div c - 1"
      using assms by (intro int_div_pos_eq [of _ _ _ "c - 1"]) (simp_all add: algebra_simps)
    with True show ?thesis by simp
  next
    case False
    have "y - 1 = y div c * c + (y mod c - 1)" using y by simp
    then have "(y - 1) div c = y div c"
      using bound False by (intro int_div_pos_eq [of _ _ _ "y mod c - 1"]) (simp_all add: algebra_simps)
    with False show ?thesis by simp
  qed
qed

lemma leap_arith:
  fixes y q4 q100 q400 p4 p100 p400 :: int
  assumes "C \<Longrightarrow> B" and "B \<Longrightarrow> A" and "q4 = p4 + (if A then 1 else 0)"
    and "q100 = p100 + (if B then 1 else 0)" and "q400 = p400 + (if C then 1 else 0)"
  shows "y * 365 + q4 - q100 + q400 =
    ((y - 1) * 365 + p4 - p100 + p400) + (if A \<and> (\<not> B \<or> C) then 366 else 365)"
  using assms by (cases A; cases B; cases C) simp_all

lemma days_before_year_step:
  "days_before_year (y + 1) = days_before_year y + (if is_leap y then 366 else 365)"
proof -
  have imps: "y mod 400 = 0 \<Longrightarrow> y mod 100 = 0" "y mod 100 = 0 \<Longrightarrow> y mod 4 = 0"
    by presburger+
  have "days_before_year (y + 1) = y * 365 + y div 4 - y div 100 + y div 400"
    by (simp add: days_before_year_def)
  also have "\<dots> = ((y - 1) * 365 + (y - 1) div 4 - (y - 1) div 100 + (y - 1) div 400) +
      (if y mod 4 = 0 \<and> (\<not> y mod 100 = 0 \<or> y mod 400 = 0) then 366 else 365)"
    by (rule leap_arith [OF imps]) (assumption | rule div_step_int, simp)+
  finally show ?thesis by (simp only: days_before_year_def is_leap_def)
qed

lemma toordinal_next_day: "date_valid d \<Longrightarrow> toordinal (next_day d) = toordinal d + 1"
proof -
  assume valid: "date_valid d"
  then have m: "1 \<le> dt_month d" "dt_month d \<le> 12" and day: "dt_day d \<le> days_in_month (dt_year d) (dt_month d)"
    by (simp_all add: date_valid_def)
  have dec: "days_before_month y 12 + 31 = (if is_leap y then 366 else 365)"
    and jan: "days_before_month y 1 = 0" for y
    by (simp_all add: days_before_month_def)
  show ?thesis
  proof (cases "dt_day d < days_in_month (dt_year d) (dt_month d)")
    case True
    then show ?thesis by (simp add: next_day_def toordinal_def)
  next
    case False
    with day have last: "dt_day d = days_in_month (dt_year d) (dt_month d)" by simp
    show ?thesis
    proof (cases "dt_month d < 12")
      case True
      with last days_before_month_step [OF m(1) True, of "dt_year d"] show ?thesis
        by (simp add: next_day_def toordinal_def)
    next
      case False
      with m have "dt_month d = 12" by simp
      with last have "dt_day d = 31" by (simp add: days_in_month_def)
      with \<open>dt_month d = 12\<close> days_before_year_step [of "dt_year d"] dec [of "dt_year d"] jan show ?thesis
        by (simp add: next_day_def toordinal_def days_in_month_def)
    qed
  qed
qed

lemma next_day_same_month:
  "dt_day d + int n \<le> days_in_month (dt_year d) (dt_month d) \<Longrightarrow>
   (next_day ^^ n) d = Date (dt_year d) (dt_month d) (dt_day d + int n)"
proof (induction n)
  case 0
  then show ?case by (cases d) simp
next
  case (Suc n)
  then show ?case by (simp add: next_day_def)
qed

lemma add_days_same_month:
  "0 \<le> n \<Longrightarrow> dt_day d + n \<le> days_in_month (dt_year d) (dt_month d) \<Longrightarrow>
   add_days n d = Date (dt_year d) (dt_month d) (dt_day d + n)"
  using next_day_same_month [of d "nat n"] by (simp add: add_days_def)

lemma weekday_shift: "weekday (Date y m (d + n)) = (weekday (Date y m d) + n) mod 7"
proof -
  have "toordinal (Date y m (d + n)) + 6 = (toordinal (Date y m d) + 6) + n" by (simp add: toordinal_def)
  then show ?thesis by (simp only: weekday_def mod_add_left_eq)
qed

section \<open>Feasts\<close>

definition nth_weekday :: "int \<Rightarrow> int \<Rightarrow> int \<Rightarrow> int \<Rightarrow> date" where
  "nth_weekday year month wd n =
     (let first = Date year month 1;
          offset = (wd - weekday first) mod 7
      in add_days (offset + 7 * (n - 1)) first)"

definition easter_sunday :: "int \<Rightarrow> date" where
  "easter_sunday year =
     (let a = year mod 19;
          b = year div 100; c = year mod 100;
          d = b div 4; e = b mod 4;
          f = (b + 8) div 25;
          g = (b - f + 1) div 3;
          h = (19 * a + b - d - g + 15) mod 30;
          i = c div 4; k = c mod 4;
          l = (32 + 2 * e + 2 * i - h - k) mod 7;
          m = (a + 11 * h + 22 * l) div 451;
          n = h + l - 7 * m + 114
      in Date year (n div 31) (n mod 31 + 1))"

definition victoria_day :: "int \<Rightarrow> date" where
  "victoria_day year = (let may_24 = Date year 5 24 in add_days (- weekday may_24) may_24)"

text \<open>
  The n-th weekday of a month is what its name says: it falls on the asked weekday, in the asked
  month, and exactly \<open>n - 1\<close> earlier days of that month do.
\<close>

theorem nth_weekday_correct:
  assumes "date_valid (Date y m 1)" and "0 \<le> wd" "wd < 7" and "1 \<le> n" "n \<le> 4"
  shows "weekday (nth_weekday y m wd n) = wd \<and>
    dt_year (nth_weekday y m wd n) = y \<and> dt_month (nth_weekday y m wd n) = m \<and>
    7 * (n - 1) < dt_day (nth_weekday y m wd n) \<and> dt_day (nth_weekday y m wd n) \<le> 7 * n"
proof -
  let ?o = "(wd - weekday (Date y m 1)) mod 7"
  let ?k = "?o + 7 * (n - 1)"
  have o: "0 \<le> ?o" "?o < 7" by simp_all
  have "28 \<le> days_in_month y m" by (simp add: days_in_month_def)
  with o assms(4,5) have eq: "nth_weekday y m wd n = Date y m (1 + ?k)"
    unfolding nth_weekday_def Let_def by (subst add_days_same_month) (simp_all add: add_ac)
  have "weekday (Date y m (1 + ?k)) = (weekday (Date y m 1) + ?k) mod 7" by (rule weekday_shift)
  also have "\<dots> = (weekday (Date y m 1) + ?o) mod 7"
    by (simp only: add.assoc [symmetric] mult.commute [of 7] mod_mult_self1)
  also have "\<dots> = (weekday (Date y m 1) + (wd - weekday (Date y m 1))) mod 7"
    by (simp only: mod_add_right_eq)
  also have "\<dots> = wd" using assms(2,3) by simp
  finally have "weekday (Date y m (1 + ?k)) = wd" .
  moreover have "7 * (n - 1) < 1 + (q + 7 * (n - 1)) \<and> 1 + (q + 7 * (n - 1)) \<le> 7 * n"
    if "0 \<le> q" "q < 7" for q using that by simp
  ultimately show ?thesis unfolding eq date.sel using o by blast
qed

theorem nth_weekday_correct_witness: "weekday (nth_weekday 2026 5 6 2) = 6 \<and> nth_weekday 2026 5 6 2 = Date 2026 5 10"
proof -
  have "weekday (nth_weekday 2026 5 6 2) = 6"
    by (rule conjunct1 [OF nth_weekday_correct]) code_simp+
  moreover have "nth_weekday 2026 5 6 2 = Date 2026 5 10" by code_simp
  ultimately show ?thesis by blast
qed

text \<open>
  Victoria Day is the Monday on or before May 24: a Monday, and one of the seven days ending there.
\<close>

theorem victoria_day_correct:
  "weekday (victoria_day y) = 0 \<and> dt_year (victoria_day y) = y \<and> dt_month (victoria_day y) = 5 \<and>
   18 \<le> dt_day (victoria_day y) \<and> dt_day (victoria_day y) \<le> 24"
proof -
  have steps: "(prev_day ^^ n) (Date y 5 24) = Date y 5 (24 - int n)" if "n < 24" for n
    using that by (induction n) simp_all
  let ?w = "weekday (Date y 5 24)"
  have w: "0 \<le> ?w" "?w < 7" using weekday_range by auto
  have eq: "victoria_day y = Date y 5 (24 + - ?w)"
  proof (cases "?w = 0")
    case True
    then show ?thesis by (simp add: victoria_day_def add_days_def)
  next
    case False
    with w steps [of "nat ?w"] show ?thesis by (simp add: victoria_day_def add_days_def Let_def)
  qed
  have "weekday (Date y 5 (24 + - ?w)) = (?w + - ?w) mod 7" by (rule weekday_shift)
  then have "weekday (victoria_day y) = 0" by (simp only: eq) simp
  moreover have "18 \<le> 24 + - q \<and> 24 + - q \<le> 24" if "0 \<le> q" "q < 7" for q :: int
    using that by simp
  ultimately show ?thesis unfolding eq date.sel using w by blast
qed

section \<open>The calendar\<close>

definition pad :: "nat \<Rightarrow> string \<Rightarrow> string" where
  "pad n s = replicate (n - length s) (CHR ''0'') @ s"

definition isoformat :: "date \<Rightarrow> string" where
  "isoformat d = pad 4 (show_int (dt_year d)) @ ''-'' @ pad 2 (show_int (dt_month d)) @ ''-'' @
     pad 2 (show_int (dt_day d))"

definition MONDAY :: int where "MONDAY = 0"
definition SUNDAY :: int where "SUNDAY = 6"

definition holiday_table :: "int \<Rightarrow> (date \<times> string) list" where
  "holiday_table year =
     (let easter = easter_sunday year in
      [(Date year 1 1, ''New Year's Day''),
       (nth_weekday year 2 MONDAY 3, ''Family Day''),
       (Date year 2 14, ''Valentine's Day''),
       (add_days (- 2) easter, ''Good Friday''),
       (easter, ''Easter Sunday''),
       (add_days 1 easter, ''Easter Monday''),
       (nth_weekday year 5 SUNDAY 2, ''Mother's Day''),
       (victoria_day year, ''Victoria Day''),
       (Date year 7 1, ''Canada Day''),
       (nth_weekday year 8 MONDAY 1, ''Civic Holiday''),
       (nth_weekday year 9 MONDAY 1, ''Labour Day''),
       (nth_weekday year 10 MONDAY 2, ''Thanksgiving Monday''),
       (Date year 12 24, ''Christmas Eve''),
       (Date year 12 25, ''Christmas Day''),
       (Date year 12 26, ''Boxing Day''),
       (Date year 12 31, ''New Year's Eve'')])"

text \<open>A dictionary display: a later entry for the same day replaces an earlier one.\<close>

definition dict_of :: "('k \<times> 'v) list \<Rightarrow> ('k, 'v) pydict" where
  "dict_of kvs = fold (\<lambda>(k, v). dict_set k v) kvs []"

definition holidays_for :: "int \<Rightarrow> (string, string) pydict" where
  "holidays_for year = dict_of (map (\<lambda>(day, name). (isoformat day, name)) (holiday_table year))"

definition SUPPORTED_YEARS :: "int list" where
  "SUPPORTED_YEARS = [2024, 2025, 2026, 2027, 2028, 2029, 2030, 2031]"

definition HOLIDAY_CALENDAR :: "(string, string) pydict" where
  "HOLIDAY_CALENDAR = dict_of (concat (map holidays_for SUPPORTED_YEARS))"

definition dates_named :: "string list \<Rightarrow> string list" where
  "dates_named names = map fst (filter (\<lambda>(iso, name). name \<in> set names) HOLIDAY_CALENDAR)"

definition STATUTORY_CLOSURES :: "string list" where
  "STATUTORY_CLOSURES = dates_named
     [''New Year's Day'', ''Good Friday'', ''Easter Sunday'', ''Thanksgiving Monday'',
      ''Christmas Day'', ''Boxing Day'']"

definition RECREATION_CLOSURES :: "string list" where
  "RECREATION_CLOSURES = dates_named
     [''New Year's Day'', ''Easter Sunday'', ''Christmas Day'', ''Boxing Day'']"

definition COMMON_SELLOUT_DATES :: "string list" where
  "COMMON_SELLOUT_DATES = dates_named
     [''Valentine's Day'', ''Mother's Day'', ''Easter Monday'', ''Family Day'', ''Victoria Day'',
      ''Canada Day'', ''Civic Holiday'', ''Labour Day'', ''Christmas Eve'', ''New Year's Eve'']"

definition RECREATION_SELLOUT_DATES :: "string list" where
  "RECREATION_SELLOUT_DATES = dates_named
     [''Family Day'', ''Victoria Day'', ''Canada Day'', ''Civic Holiday'', ''Labour Day'']"

definition holiday_name :: "date \<Rightarrow> string option" where
  "holiday_name day = dict_get HOLIDAY_CALENDAR (isoformat day)"

end
