(* ===== verification/Text_Utils.thy ===== *)
theory Text_Utils
  imports Calendar
begin

text \<open>
  The string methods of the sources on ASCII text: \<^verbatim>\<open>lower\<close> and \<^verbatim>\<open>casefold\<close> (which agree there),
  \<^verbatim>\<open>strip\<close>, \<^verbatim>\<open>split\<close>, \<^verbatim>\<open>join\<close>, the substring test and the \<^verbatim>\<open>isalnum\<close> test. Characters beyond ASCII,
  and what Unicode normalization does to them, are outside the model.
\<close>

section \<open>Case and classes\<close>

definition ascii_lower :: "char \<Rightarrow> char" where
  "ascii_lower c =
     (if 65 \<le> (of_char c :: nat) \<and> (of_char c :: nat) \<le> 90 then char_of ((of_char c :: nat) + 32) else c)"

definition casefold :: "string \<Rightarrow> string" where
  "casefold s = map ascii_lower s"

definition is_alnum :: "char \<Rightarrow> bool" where
  "is_alnum c \<longleftrightarrow> is_digit c \<or> (65 \<le> (of_char c :: nat) \<and> (of_char c :: nat) \<le> 90) \<or>
     (97 \<le> (of_char c :: nat) \<and> (of_char c :: nat) \<le> 122)"

text \<open>\<^verbatim>\<open>str.split()\<close> on blanks; \<open>acc\<close> is the word being read, reversed.\<close>

fun split_blanks :: "string \<Rightarrow> string \<Rightarrow> string list" where
  "split_blanks acc [] = (if acc = [] then [] else [List.rev acc])"
| "split_blanks acc (c # cs) =
     (if c = CHR '' '' then (if acc = [] then split_blanks [] cs else List.rev acc # split_blanks [] cs)
      else split_blanks (c # acc) cs)"

definition split_words :: "string \<Rightarrow> string list" where
  "split_words s = split_blanks [] s"

fun join_words :: "string list \<Rightarrow> string" where
  "join_words [] = []"
| "join_words [w] = w"
| "join_words (w # ws) = w @ '' '' @ join_words ws"

section \<open>Blanks\<close>

text \<open>What \<^verbatim>\<open>str.isspace\<close> accepts among ASCII characters.\<close>

definition is_blank :: "char \<Rightarrow> bool" where
  "is_blank c \<longleftrightarrow> (of_char c :: nat) \<in> {9, 10, 11, 12, 13, 28, 29, 30, 31, 32}"

definition strip :: "string \<Rightarrow> string" where
  "strip s = List.rev (dropWhile is_blank (List.rev (dropWhile is_blank s)))"

lemma casefold_idem [simp]: "casefold (casefold s) = casefold s"
proof -
  have "ascii_lower (ascii_lower c) = ascii_lower c" for c
    by (auto simp: ascii_lower_def take_bit_eq_mod)
  then show ?thesis by (simp add: casefold_def)
qed

lemma strip_subset: "set (strip s) \<subseteq> set s"
  unfolding strip_def by (auto dest!: set_dropWhileD)

section \<open>Substrings\<close>

fun is_prefix :: "string \<Rightarrow> string \<Rightarrow> bool" where
  "is_prefix [] s = True"
| "is_prefix (c # cs) [] = False"
| "is_prefix (c # cs) (d # ds) = (c = d \<and> is_prefix cs ds)"

text \<open>\<^verbatim>\<open>needle in haystack\<close>.\<close>

fun contains :: "string \<Rightarrow> string \<Rightarrow> bool" where
  "contains needle [] = (needle = [])"
| "contains needle (c # cs) = (is_prefix needle (c # cs) \<or> contains needle cs)"

lemma is_prefix_iff: "is_prefix p s \<longleftrightarrow> (\<exists>r. s = p @ r)"
  by (induction p s rule: is_prefix.induct) auto

lemma contains_iff: "contains n h \<longleftrightarrow> (\<exists>a b. h = a @ n @ b)"
proof (induction h)
  case (Cons c cs)
  show ?case
  proof
    assume "contains n (c # cs)"
    then consider "is_prefix n (c # cs)" | "contains n cs" by auto
    then show "\<exists>a b. c # cs = a @ n @ b"
    proof cases
      case 1
      then obtain r where "c # cs = [] @ n @ r" by (auto simp: is_prefix_iff)
      then show ?thesis by blast
    next
      case 2
      with Cons obtain a b where "cs = a @ n @ b" by blast
      then have "c # cs = (c # a) @ n @ b" by simp
      then show ?thesis by blast
    qed
  next
    assume "\<exists>a b. c # cs = a @ n @ b"
    then obtain a b where ab: "c # cs = a @ n @ b" by blast
    show "contains n (c # cs)"
    proof (cases a)
      case Nil
      with ab have "is_prefix n (c # cs)" unfolding is_prefix_iff by simp
      then show ?thesis by simp
    next
      case (Cons d ds)
      with ab \<open>contains n cs = (\<exists>a b. cs = a @ n @ b)\<close> show ?thesis by auto
    qed
  qed
qed auto

section \<open>Joining and padding\<close>

text \<open>\<^verbatim>\<open>sep.join(parts)\<close>.\<close>

fun join_with :: "string \<Rightarrow> string list \<Rightarrow> string" where
  "join_with sep [] = []"
| "join_with sep [w] = w"
| "join_with sep (w # ws) = w @ sep @ join_with sep ws"

end
