(* ===== verification/Venues.thy ===== *)
theory Venues
  imports Holidays Text_Utils Reservation_Models
begin

text \<open>
  The mock venue catalog and name resolution of \<^verbatim>\<open>backend/data/venues.py\<close>. Strings are ASCII here: on
  ASCII text the Unicode decomposition is the identity, no character combines, and case folding is
  lower case.
\<close>

definition SLOT_INTERVAL_MINUTES :: int where "SLOT_INTERVAL_MINUTES = 15"
definition MAX_GENERATED_SLOTS :: int where "MAX_GENERATED_SLOTS = 16"

record opening_hours =
  open_time :: string
  close_time :: string

record venue_profile =
  weekly_hours :: "opening_hours option list"
  vp_max_party_size :: int
  minimum_stay_minutes :: int
  closed_dates :: "string list"
  sold_out_dates :: "string list"

definition hours_for :: "venue_profile \<Rightarrow> date \<Rightarrow> opening_hours option" where
  "hours_for p day =
     (if isoformat day \<in> set (closed_dates p) then None else weekly_hours p ! nat (weekday day))"

definition is_sold_out :: "venue_profile \<Rightarrow> date \<Rightarrow> bool" where
  "is_sold_out p day \<longleftrightarrow> isoformat day \<in> set (sold_out_dates p)"

record venue =
  v_name :: string
  v_type :: venue_type
  v_profile :: venue_profile
  v_aliases :: "string list"

datatype venue_resolution_status = RESOLVED | AMBIGUOUS | UNKNOWN_VENUE

record venue_resolution =
  vr_status :: venue_resolution_status
  vr_venue :: "venue option"
  vr_candidates :: "venue list"

definition hours :: "string \<Rightarrow> string \<Rightarrow> opening_hours option" where
  "hours a b = Some \<lparr>open_time = a, close_time = b\<rparr>"

text \<open>\<^verbatim>\<open>_week\<close>: an omitted or \<^verbatim>\<open>None\<close> variation falls back, Friday and Sunday to the weekday hours.\<close>

definition week ::
  "opening_hours option \<Rightarrow> opening_hours option \<Rightarrow> opening_hours option \<Rightarrow> opening_hours option \<Rightarrow>
   opening_hours option \<Rightarrow> bool \<Rightarrow> opening_hours option list" where
  "week midweek friday saturday sunday monday monday_closed =
     (let friday' = or_else friday midweek;
          saturday' = or_else saturday friday';
          sunday' = (if sunday \<noteq> None then sunday else midweek);
          monday' = (if monday_closed then None else or_else monday midweek)
      in [monday', midweek, midweek, midweek, friday', saturday', sunday'])"

definition restaurant_profile :: "opening_hours option list \<Rightarrow> int \<Rightarrow> venue_profile" where
  "restaurant_profile wh party =
     \<lparr>weekly_hours = wh, vp_max_party_size = party, minimum_stay_minutes = 90,
      closed_dates = STATUTORY_CLOSURES, sold_out_dates = COMMON_SELLOUT_DATES\<rparr>"

definition recreation_profile :: "opening_hours option list \<Rightarrow> int \<Rightarrow> venue_profile" where
  "recreation_profile wh party =
     \<lparr>weekly_hours = wh, vp_max_party_size = party, minimum_stay_minutes = 60,
      closed_dates = RECREATION_CLOSURES, sold_out_dates = RECREATION_SELLOUT_DATES\<rparr>"

definition DEFAULT_VENUE_PROFILE :: venue_profile where
  "DEFAULT_VENUE_PROFILE =
     \<lparr>weekly_hours = week (hours ''11:00'' ''22:00'') (hours ''11:00'' ''23:00'') None None None False,
      vp_max_party_size = 12, minimum_stay_minutes = 90,
      closed_dates = STATUTORY_CLOSURES, sold_out_dates = COMMON_SELLOUT_DATES\<rparr>"

definition restaurant :: "string \<Rightarrow> string list \<Rightarrow> opening_hours option list \<Rightarrow> int \<Rightarrow> venue" where
  "restaurant name aliases wh party =
     \<lparr>v_name = name, v_type = RESTAURANT, v_profile = restaurant_profile wh party,
      v_aliases = aliases\<rparr>"

definition recreation :: "string \<Rightarrow> string list \<Rightarrow> opening_hours option list \<Rightarrow> int \<Rightarrow> venue" where
  "recreation name aliases wh party =
     \<lparr>v_name = name, v_type = RECREATION, v_profile = recreation_profile wh party,
      v_aliases = aliases\<rparr>"

definition VENUE_CATALOG :: "venue list" where
  "VENUE_CATALOG =
     [restaurant ''The Bauer Kitchen'' [''bauer'']
        (week (hours ''11:30'' ''22:00'') (hours ''11:30'' ''23:00'') None (hours ''10:00'' ''21:00'') None False) 10,
      restaurant ''Proof Kitchen + Lounge'' [''proof'']
        (week (hours ''11:00'' ''22:00'') (hours ''11:00'' ''23:30'') None (hours ''11:00'' ''21:00'') None False) 12,
      restaurant ''The Charcoal Steak House'' [''charcoal'']
        (week (hours ''16:30'' ''22:00'') (hours ''16:30'' ''23:00'') None (hours ''16:00'' ''21:00'') None True) 14,
      restaurant ''Golf's Steak House'' [''golfs'']
        (week (hours ''17:00'' ''22:00'') (hours ''17:00'' ''23:00'') None None None True) 8,
      restaurant ''Ethel's Lounge'' [''ethels'']
        (week (hours ''12:00'' ''23:00'') (hours ''12:00'' ''23:45'') None None None False) 8,
      restaurant ''Grand Trunk Saloon'' [''grand trunk'']
        (week (hours ''16:00'' ''23:00'') (hours ''16:00'' ''23:45'') None (hours ''16:00'' ''22:00'') None False) 12,
      recreation ''Grand River Rocks'' [''grr'', ''grand river rocks climbing gym'']
        (week (hours ''06:00'' ''23:00'') None (hours ''09:00'' ''22:00'') (hours ''09:00'' ''21:00'') None False) 20,
      recreation ''Waterloo Bowling Lanes'' [''waterloo bowling'']
        (week (hours ''12:00'' ''22:00'') (hours ''12:00'' ''00:00'') (hours ''10:00'' ''00:00'') (hours ''10:00'' ''21:00'') None False) 24,
      recreation ''Chicopee Tube Park'' [''chicopee'']
        (week None (hours ''16:00'' ''21:00'') (hours ''10:00'' ''21:00'') (hours ''10:00'' ''17:00'') None False) 30]"

section \<open>Name resolution\<close>

definition normalize_name :: "string \<Rightarrow> string" where
  "normalize_name value =
     (let without_apostrophes = filter (\<lambda>c. c \<noteq> CHR 0x27) value;
          cleaned = map (\<lambda>c. if is_alnum c then c else CHR '' '') (casefold without_apostrophes)
      in join_words (split_words cleaned))"

definition WORDS_IGNORED_WHEN_MATCHING :: "string list" where
  "WORDS_IGNORED_WHEN_MATCHING = [''the'', ''and'', ''of'', ''at'', ''a'']"

definition match_tokens :: "string \<Rightarrow> string list" where
  "match_tokens value =
     filter (\<lambda>w. w \<notin> set WORDS_IGNORED_WHEN_MATCHING) (split_words (normalize_name value))"

definition venue_keys :: "venue \<Rightarrow> string list" where
  "venue_keys v = normalize_name (v_name v) # map normalize_name (v_aliases v)"

text \<open>How a list of matching venues is reported: one resolves, several are ambiguous.\<close>

definition resolution_of :: "venue list \<Rightarrow> venue_resolution option" where
  "resolution_of matches =
     (case matches of
        [] \<Rightarrow> None
      | [v] \<Rightarrow> Some \<lparr>vr_status = RESOLVED, vr_venue = Some v, vr_candidates = [v]\<rparr>
      | _ \<Rightarrow> Some \<lparr>vr_status = AMBIGUOUS, vr_venue = None, vr_candidates = matches\<rparr>)"

definition unknown_resolution :: venue_resolution where
  "unknown_resolution = \<lparr>vr_status = UNKNOWN_VENUE, vr_venue = None, vr_candidates = []\<rparr>"

definition exact_matches :: "string \<Rightarrow> venue list" where
  "exact_matches query = filter (\<lambda>v. query \<in> set (venue_keys v)) VENUE_CATALOG"

definition partial_matches :: "string list \<Rightarrow> venue list" where
  "partial_matches tokens =
     filter (\<lambda>v. list_ex (\<lambda>key. set tokens \<subseteq> set (match_tokens key)) (v_name v # v_aliases v))
       VENUE_CATALOG"

definition resolve_venue :: "string \<Rightarrow> venue_resolution" where
  "resolve_venue venue_name =
     (let query = normalize_name venue_name in
      if query = [] then unknown_resolution
      else
        (case resolution_of (exact_matches query) of
           Some res \<Rightarrow> res
         | None \<Rightarrow>
             (let tokens = match_tokens venue_name in
              if tokens = [] then unknown_resolution
              else (case resolution_of (partial_matches tokens) of
                      Some res \<Rightarrow> res
                    | None \<Rightarrow> unknown_resolution))))"

definition profile_for :: "string \<Rightarrow> venue_profile" where
  "profile_for venue_name =
     (case vr_venue (resolve_venue venue_name) of
        Some v \<Rightarrow> v_profile v
      | None \<Rightarrow> DEFAULT_VENUE_PROFILE)"

end
