(* ===== verification/Slot_Generation.thy ===== *)
theory Slot_Generation
  imports Venues
begin

text \<open>
  Deterministic slot generation of \<^verbatim>\<open>backend/integrations/mock_booking.py\<close>. The digests of the standard
  library are arguments: \<open>digest0\<close> is the first byte of SHA-256, \<open>uuid5_hex\<close> the hexadecimal form of the
  name-based UUID. The lemmas show that every generated slot is a valid model object, lies on the
  grid, inside the venue's hours, and seats the party.
\<close>

definition MINUTES_PER_DAY :: int where "MINUTES_PER_DAY = 24 * 60"
definition SLOT_CAPACITIES :: "int list" where "SLOT_CAPACITIES = [2, 4, 6, 8, 10]"

section \<open>Clock arithmetic\<close>

definition to_minutes :: "string \<Rightarrow> int" where
  "to_minutes value = digits_val 0 (take 2 value) * 60 + digits_val 0 (drop 3 value)"

definition from_minutes :: "int \<Rightarrow> string" where
  "from_minutes value = pad 2 (show_int (value div 60)) @ '':'' @ pad 2 (show_int (value mod 60))"

definition snap_to_grid :: "int \<Rightarrow> int" where
  "snap_to_grid minutes =
     (let offset = minutes mod SLOT_INTERVAL_MINUTES in
      if offset = 0 then minutes
      else if offset * 2 \<le> SLOT_INTERVAL_MINUTES then minutes - offset
      else minutes - offset + SLOT_INTERVAL_MINUTES)"

definition end_time :: "string \<Rightarrow> int option \<Rightarrow> string option" where
  "end_time start duration =
     (case duration of
        None \<Rightarrow> None
      | Some d \<Rightarrow> Some (from_minutes ((to_minutes start + d) mod MINUTES_PER_DAY)))"

text \<open>\<^verbatim>\<open>range(first, stop, 15)\<close>.\<close>

definition grid_range :: "int \<Rightarrow> int \<Rightarrow> int list" where
  "grid_range first stop =
     map (\<lambda>i. first + SLOT_INTERVAL_MINUTES * int i)
       [0..<nat ((stop - first + SLOT_INTERVAL_MINUTES - 1) div SLOT_INTERVAL_MINUTES)]"

section \<open>Candidates\<close>

text \<open>\<^verbatim>\<open>query.duration_minutes or profile.minimum_stay_minutes\<close>.\<close>

definition stay_minutes :: "availability_query \<Rightarrow> venue_profile \<Rightarrow> int" where
  "stay_minutes q p =
     (case q_duration_minutes q of
        None \<Rightarrow> minimum_stay_minutes p
      | Some d \<Rightarrow> if d = 0 then minimum_stay_minutes p else d)"

definition closing_minutes :: "opening_hours \<Rightarrow> int" where
  "closing_minutes h =
     (let opens = to_minutes (open_time h); closes = to_minutes (close_time h)
      in if closes \<le> opens then closes + MINUTES_PER_DAY else closes)"

text \<open>\<^verbatim>\<open>candidates.remove(preferred); candidates.insert(0, preferred)\<close> when it is among them.\<close>

definition preferred_first :: "string option \<Rightarrow> string list \<Rightarrow> string list" where
  "preferred_first preferred candidates =
     (case preferred of
        None \<Rightarrow> candidates
      | Some t \<Rightarrow> if t \<in> set candidates then t # remove1 t candidates else candidates)"

definition candidate_times :: "availability_query \<Rightarrow> venue_profile \<Rightarrow> opening_hours \<Rightarrow> string list" where
  "candidate_times q p h =
     (let opens = to_minutes (open_time h);
          latest_start = closing_minutes h - stay_minutes q p
      in if latest_start < opens then []
         else
           (case q_time_window q of
              None \<Rightarrow>
                (case q_preferred_time q of
                   None \<Rightarrow> []
                 | Some t \<Rightarrow>
                     (let exact = snap_to_grid (to_minutes t)
                      in if \<not> (opens \<le> exact \<and> exact \<le> latest_start) then []
                         else [from_minutes exact]))
            | Some tw \<Rightarrow>
                (let first = max opens (snap_to_grid (to_minutes (tw_start tw)));
                     last = min latest_start (to_minutes (tw_end tw));
                     candidates = map from_minutes (grid_range first (last + 1))
                 in py_take MAX_GENERATED_SLOTS (preferred_first (q_preferred_time q) candidates))))"

definition slot_capacity ::
  "(string \<Rightarrow> nat) \<Rightarrow> availability_query \<Rightarrow> string \<Rightarrow> venue_profile \<Rightarrow> int" where
  "slot_capacity digest0 q start p =
     (let identity = casefold (q_venue_name q) @ ''|'' @ q_date q @ ''|'' @ start
      in min (SLOT_CAPACITIES ! (digest0 identity mod length SLOT_CAPACITIES)) (vp_max_party_size p))"

definition slot_identity :: "availability_query \<Rightarrow> string \<Rightarrow> string" where
  "slot_identity q start =
     q_market q @ ''|'' @ casefold (q_venue_name q) @ ''|'' @ q_date q @ ''|'' @ start @ ''|'' @
     show_int (q_party_size q) @ ''|'' @
     (case q_duration_minutes q of
        None \<Rightarrow> ''none'' | Some d \<Rightarrow> if d = 0 then ''none'' else show_int d)"

definition make_slot ::
  "(string \<Rightarrow> string) \<Rightarrow> availability_query \<Rightarrow> string \<Rightarrow> int \<Rightarrow> availability_slot" where
  "make_slot uuid5_hex q start capacity =
     \<lparr>slot_id = ''mock_'' @ uuid5_hex (slot_identity q start), slot_provider = ''mock'',
      slot_venue_name = q_venue_name q, slot_venue_type = q_venue_type q, slot_date = q_date q,
      slot_start_time = start, slot_end_time = end_time start (q_duration_minutes q),
      slot_party_size = q_party_size q, slot_max_party_size = capacity, slot_available = True\<rparr>"

definition generate ::
  "(string \<Rightarrow> nat) \<Rightarrow> (string \<Rightarrow> string) \<Rightarrow> string list \<Rightarrow> availability_query \<Rightarrow> availability_slot list" where
  "generate digest0 uuid5_hex unavailable_venues q =
     (if casefold (q_venue_name q) \<in> set unavailable_venues then []
      else
        (let p = profile_for (q_venue_name q) in
         case fromisoformat (q_date q) of
           None \<Rightarrow> []
         | Some day \<Rightarrow>
             if is_sold_out p day \<or> vp_max_party_size p < q_party_size q then []
             else
               (case hours_for p day of
                  None \<Rightarrow> []
                | Some h \<Rightarrow>
                    concat (map (\<lambda>start.
                      let capacity = slot_capacity digest0 q start p
                      in if capacity < q_party_size q then []
                         else [make_slot uuid5_hex q start capacity])
                      (candidate_times q p h)))))"

section \<open>Rendering minutes\<close>

lemma digit_char_012: "digit_char 0 = CHR ''0''" "digit_char (Suc 0) = CHR ''1''" "digit_char 2 = CHR ''2''"
  by code_simp+

lemma digit_char_digit: "d < 10 \<Longrightarrow> is_digit (digit_char d) \<and> digit_val (digit_char d) = int d"
  by (simp add: is_digit_def digit_val_def digit_char_def)

lemma pad2_show:
  assumes "0 \<le> n" and "n < 100"
  shows "pad 2 (show_int n) = [digit_char (nat n div 10), digit_char (nat n mod 10)]"
proof (cases "n < 10")
  case True
  with assms have "nat n < 10" by linarith
  with assms show ?thesis
    by (simp add: digit_char_012 show_int_def show_nat.simps [of "nat n"] pad_def)
next
  case False
  with assms have "\<not> nat n < 10" "nat n div 10 < 10" by linarith+
  then show ?thesis
    using assms by (simp add: show_int_def show_nat.simps [of "nat n"] show_nat.simps [of "nat n div 10"] pad_def)
qed

lemma from_minutes_shape:
  assumes "0 \<le> m" and "m < 1440"
  shows "hour_minute_shape (from_minutes m)" and "to_minutes (from_minutes m) = m"
proof -
  define h where "h = nat (m div 60)"
  define r where "r = nat (m mod 60)"
  have h: "h < 24" "m div 60 = int h" and r: "r < 60" "m mod 60 = int r"
    using assms by (simp_all add: h_def r_def)
  have eq: "from_minutes m = [digit_char (h div 10), digit_char (h mod 10), CHR '':'',
      digit_char (r div 10), digit_char (r mod 10)]"
    using h r by (simp add: from_minutes_def pad2_show)
  have d: "h div 10 < 10" "h mod 10 < 10" "r div 10 < 10" "r mod 10 < 10" using h r by simp_all
  note D = digit_char_digit [OF d(1)] digit_char_digit [OF d(2)] digit_char_digit [OF d(3)]
    digit_char_digit [OF d(4)]
  have "h div 10 = 0 \<or> h div 10 = 1 \<or> h div 10 = 2 \<and> h mod 10 \<le> 3" using h(1) by presburger
  moreover have "r div 10 \<le> 5" using r(1) by presburger
  ultimately show "hour_minute_shape (from_minutes m)"
    using D by (auto simp: eq digit_char_012)
  have "to_minutes (from_minutes m) =
      (int (h div 10) * 10 + int (h mod 10)) * 60 + (int (r div 10) * 10 + int (r mod 10))"
    using D by (simp add: eq to_minutes_def numeral_3_eq_3 numeral_2_eq_2)
  also have "\<dots> = int h * 60 + int r"
  proof -
    have "int (n div 10) * 10 + int (n mod 10) = int n" for n
      by (metis div_mult_mod_eq of_nat_add of_nat_mult of_nat_numeral)
    then show ?thesis by simp
  qed
  also have "\<dots> = m" using h(2) r(2) div_mult_mod_eq [of m 60] by simp
  finally show "to_minutes (from_minutes m) = m" .
qed

lemma to_minutes_bounds:
  assumes "hour_minute_shape s"
  shows "0 \<le> to_minutes s \<and> to_minutes s < 1440"
proof -
  from assms obtain a b c m n where s: "s = [a, b, c, m, n]"
    by (cases s rule: hour_minute_shape.cases) auto
  have zero: "digit_val (CHR ''0'') = 0" "digit_val (CHR ''1'') = 1" "digit_val (CHR ''2'') = 2"
    by (simp_all add: digit_val_def)
  have "0 \<le> digit_val a * 10 + digit_val b \<and> digit_val a * 10 + digit_val b \<le> 23"
    using assms digit_val_range [of b] by (auto simp: s zero)
  moreover have "0 \<le> digit_val m * 10 + digit_val n \<and> digit_val m * 10 + digit_val n \<le> 59"
    using assms digit_val_range [of m] digit_val_range [of n] by (auto simp: s)
  ultimately show ?thesis by (simp add: s to_minutes_def numeral_3_eq_3 numeral_2_eq_2)
qed

section \<open>The catalog\<close>

text \<open>What slot generation needs of a profile: hours on the grid, a usable stay, and a party limit.\<close>

definition hours_ok :: "opening_hours \<Rightarrow> bool" where
  "hours_ok h \<longleftrightarrow>
     hour_minute_shape (open_time h) \<and> hour_minute_shape (close_time h) \<and>
     to_minutes (open_time h) mod SLOT_INTERVAL_MINUTES = 0 \<and>
     closing_minutes h \<le> MINUTES_PER_DAY"

definition profile_ok :: "venue_profile \<Rightarrow> bool" where
  "profile_ok p \<longleftrightarrow>
     length (weekly_hours p) = 7 \<and>
     list_all (\<lambda>x. case x of None \<Rightarrow> True | Some h \<Rightarrow> hours_ok h) (weekly_hours p) \<and>
     15 \<le> minimum_stay_minutes p \<and> 1 \<le> vp_max_party_size p \<and> vp_max_party_size p \<le> 100"

lemma profile_ok_kinds:
  "profile_ok (restaurant_profile wh n) \<longleftrightarrow>
     length wh = 7 \<and> list_all (\<lambda>x. case x of None \<Rightarrow> True | Some h \<Rightarrow> hours_ok h) wh \<and> 1 \<le> n \<and> n \<le> 100"
  "profile_ok (recreation_profile wh n) \<longleftrightarrow>
     length wh = 7 \<and> list_all (\<lambda>x. case x of None \<Rightarrow> True | Some h \<Rightarrow> hours_ok h) wh \<and> 1 \<le> n \<and> n \<le> 100"
  by (auto simp: profile_ok_def restaurant_profile_def recreation_profile_def)

lemma week_facts:
  "length (week a b c d m x) = 7"
  "list_all P (week a b c d m x) \<longleftrightarrow>
     P (if x then None else or_else m a) \<and> P a \<and> P (or_else b a) \<and> P (or_else c (or_else b a)) \<and>
     P (if d \<noteq> None then d else a)"
  by (auto simp: week_def Let_def)

lemma catalog_hours_ok:
  "case hours a b of None \<Rightarrow> True | Some h \<Rightarrow> hours_ok h" if "hours_ok \<lparr>open_time = a, close_time = b\<rparr>"
  using that by (simp add: hours_def)

lemma catalog_hours:
  "list_all (\<lambda>(a, b). hours_ok \<lparr>open_time = a, close_time = b\<rparr>)
     [(''11:30'', ''22:00''), (''11:30'', ''23:00''), (''10:00'', ''21:00''), (''11:00'', ''22:00''),
      (''11:00'', ''23:30''), (''11:00'', ''21:00''), (''16:30'', ''22:00''), (''16:30'', ''23:00''),
      (''16:00'', ''21:00''), (''17:00'', ''22:00''), (''17:00'', ''23:00''), (''12:00'', ''23:00''),
      (''12:00'', ''23:45''), (''16:00'', ''23:00''), (''16:00'', ''23:45''), (''16:00'', ''22:00''),
      (''06:00'', ''23:00''), (''09:00'', ''22:00''), (''09:00'', ''21:00''), (''12:00'', ''22:00''),
      (''12:00'', ''00:00''), (''10:00'', ''00:00''), (''10:00'', ''17:00''), (''11:00'', ''23:00'')]"
  by code_simp

lemma catalog_profiles_ok: "v \<in> set VENUE_CATALOG \<Longrightarrow> profile_ok (v_profile v)"
  using catalog_hours
  by (auto simp: VENUE_CATALOG_def restaurant_def recreation_def profile_ok_kinds week_facts hours_def)

lemma default_profile_ok: "profile_ok DEFAULT_VENUE_PROFILE"
  using catalog_hours by (simp add: DEFAULT_VENUE_PROFILE_def profile_ok_def week_facts hours_def)

lemma resolution_of_member:
  "resolution_of vs = Some res \<Longrightarrow> vr_venue res = Some v \<Longrightarrow> v \<in> set vs"
  by (auto simp: resolution_of_def split: list.splits)

lemma resolve_venue_member: "vr_venue (resolve_venue name) = Some v \<Longrightarrow> v \<in> set VENUE_CATALOG"
  by (auto simp: resolve_venue_def Let_def unknown_resolution_def exact_matches_def partial_matches_def
      split: if_splits option.splits dest: resolution_of_member)

lemma profile_for_ok: "profile_ok (profile_for name)"
  using resolve_venue_member [of name] catalog_profiles_ok default_profile_ok
  by (auto simp: profile_for_def split: option.split)

lemma hours_for_ok: "hours_for (profile_for name) day = Some h \<Longrightarrow> hours_ok h"
proof -
  assume some: "hours_for (profile_for name) day = Some h"
  let ?wh = "weekly_hours (profile_for name)"
  have "length ?wh = 7" and all: "list_all (\<lambda>x. case x of None \<Rightarrow> True | Some h \<Rightarrow> hours_ok h) ?wh"
    using profile_for_ok [of name] by (simp_all add: profile_ok_def)
  then have "?wh ! nat (weekday day) \<in> set ?wh" using weekday_range [of day] by (intro nth_mem) linarith
  moreover have "?wh ! nat (weekday day) = Some h"
    using some by (simp add: hours_for_def split: if_splits)
  ultimately show "hours_ok h" using all by (auto simp: list_all_iff)
qed

section \<open>What is generated\<close>

lemma snap_to_grid_mod: "snap_to_grid m mod 15 = 0"
  by (auto simp: snap_to_grid_def SLOT_INTERVAL_MINUTES_def Let_def mod_diff_left_eq mod_simps)

lemma grid_range_mem:
  "m \<in> set (grid_range a b) \<Longrightarrow> a \<le> m \<and> m < b \<and> (m - a) mod 15 = 0"
proof -
  assume "m \<in> set (grid_range a b)"
  then obtain i where m: "m = a + 15 * int i" and i: "int i < (b - a + 14) div 15"
    by (auto simp: grid_range_def SLOT_INTERVAL_MINUTES_def)
  from i have "15 * int i < b - a" by linarith
  with m show ?thesis by simp
qed

definition bookable :: "availability_query \<Rightarrow> venue_profile \<Rightarrow> opening_hours \<Rightarrow> int \<Rightarrow> bool" where
  "bookable q p h m \<longleftrightarrow>
     to_minutes (open_time h) \<le> m \<and> m + stay_minutes q p \<le> closing_minutes h \<and> m mod 15 = 0"

lemma preferred_first_set: "set (preferred_first pref c) \<subseteq> set c"
  using set_remove1_subset [of _ c] by (auto simp: preferred_first_def split: option.split)

lemma window_candidates:
  assumes "q_time_window q = Some tw" and "t \<in> set (candidate_times q p h)"
  shows "\<exists>m. t = from_minutes m \<and>
    m \<in> set (grid_range (max (to_minutes (open_time h)) (snap_to_grid (to_minutes (tw_start tw))))
               (min (closing_minutes h - stay_minutes q p) (to_minutes (tw_end tw)) + 1))"
proof -
  let ?r = "grid_range (max (to_minutes (open_time h)) (snap_to_grid (to_minutes (tw_start tw))))
               (min (closing_minutes h - stay_minutes q p) (to_minutes (tw_end tw)) + 1)"
  have "t \<in> set (py_take MAX_GENERATED_SLOTS (preferred_first (q_preferred_time q) (map from_minutes ?r)))"
    using assms by (simp add: candidate_times_def Let_def split: if_splits)
  from subsetD [OF preferred_first_set subsetD [OF set_py_take this]] show ?thesis by auto
qed

lemma candidate_times_bookable:
  assumes "hours_ok h" and "t \<in> set (candidate_times q p h)"
  shows "\<exists>m. t = from_minutes m \<and> bookable q p h m"
proof -
  let ?o = "to_minutes (open_time h)" and ?l = "closing_minutes h - stay_minutes q p"
  have grid: "?o mod 15 = 0" using assms(1) by (simp add: hours_ok_def SLOT_INTERVAL_MINUTES_def)
  show ?thesis
  proof (cases "q_time_window q")
    case None
    then obtain s where "t = from_minutes (snap_to_grid (to_minutes s))"
      "?o \<le> snap_to_grid (to_minutes s)" "snap_to_grid (to_minutes s) \<le> ?l"
      using assms(2) by (auto simp: candidate_times_def Let_def split: if_splits option.splits)
    then show ?thesis
      using snap_to_grid_mod by (intro exI [of _ "snap_to_grid (to_minutes s)"]) (simp add: bookable_def)
  next
    case (Some tw)
    let ?first = "max ?o (snap_to_grid (to_minutes (tw_start tw)))"
    let ?last = "min ?l (to_minutes (tw_end tw))"
    from window_candidates [OF Some assms(2)] obtain m where t: "t = from_minutes m"
      and m: "m \<in> set (grid_range ?first (?last + 1))" by blast
    from grid_range_mem [OF m] have b: "?o \<le> m" "m \<le> ?l" "(m - ?first) mod 15 = 0" by simp_all
    have "?first mod 15 = 0" using grid snap_to_grid_mod by (simp add: max_def)
    with b(3) have "m mod 15 = 0" by presburger
    with t b show ?thesis by (auto simp: bookable_def)
  qed
qed

lemma generate_mem:
  assumes "slot \<in> set (generate digest0 uuid5_hex unavailable q)"
  shows "\<exists>d h t. fromisoformat (q_date q) = Some d \<and>
    hours_for (profile_for (q_venue_name q)) d = Some h \<and>
    t \<in> set (candidate_times q (profile_for (q_venue_name q)) h) \<and>
    q_party_size q \<le> slot_capacity digest0 q t (profile_for (q_venue_name q)) \<and>
    slot = make_slot uuid5_hex q t (slot_capacity digest0 q t (profile_for (q_venue_name q)))"
proof (cases "fromisoformat (q_date q)")
  case None
  with assms show ?thesis by (simp add: generate_def Let_def split: if_splits)
next
  case (Some d)
  note day = Some
  show ?thesis
  proof (cases "hours_for (profile_for (q_venue_name q)) d")
    case None
    with assms day show ?thesis by (simp add: generate_def Let_def split: if_splits)
  next
    case (Some h)
    with assms day show ?thesis by (auto simp: generate_def Let_def split: if_splits)
  qed
qed

lemma generated_slot_facts:
  assumes "query_valid q" and "\<And>s. length (uuid5_hex s) = 32"
    and "slot \<in> set (generate digest0 uuid5_hex unavailable q)"
  shows "slot_valid slot \<and> slot_party_size slot = q_party_size q \<and>
    slot_start_time slot \<in> from_minutes ` {m. \<exists>d h. fromisoformat (q_date q) = Some d \<and>
      hours_for (profile_for (q_venue_name q)) d = Some h \<and>
      bookable q (profile_for (q_venue_name q)) h m}"
proof -
  let ?p = "profile_for (q_venue_name q)"
  from generate_mem [OF assms(3)] obtain d h t where day: "fromisoformat (q_date q) = Some d"
    and h: "hours_for ?p d = Some h" and t: "t \<in> set (candidate_times q ?p h)"
    and cap: "q_party_size q \<le> slot_capacity digest0 q t ?p"
    and slot: "slot = make_slot uuid5_hex q t (slot_capacity digest0 q t ?p)" by blast
  from hours_for_ok [OF h] have ok: "hours_ok h" .
  from candidate_times_bookable [OF ok t] obtain m where m: "t = from_minutes m" "bookable q ?p h m" by blast
  have "0 \<le> to_minutes (open_time h)" using ok to_minutes_bounds [of "open_time h"] by (simp add: hours_ok_def)
  moreover have "15 \<le> stay_minutes q ?p"
    using assms(1) profile_for_ok [of "q_venue_name q"]
    by (auto simp: stay_minutes_def query_valid_def profile_ok_def split: option.splits)
  moreover have "closing_minutes h \<le> 1440" using ok by (simp add: hours_ok_def MINUTES_PER_DAY_def)
  ultimately have range: "0 \<le> m" "m < 1440" using m(2) by (auto simp: bookable_def)
  have "slot_capacity digest0 q t ?p \<le> vp_max_party_size ?p" by (simp add: slot_capacity_def Let_def)
  also have "\<dots> \<le> 100" using profile_for_ok [of "q_venue_name q"] by (simp add: profile_ok_def)
  finally have "slot_capacity digest0 q t ?p \<le> 100" .
  moreover have "provider_name_valid ''mock''" by code_simp
  moreover have "hour_minute_shape (from_minutes ((to_minutes (from_minutes m) + n) mod MINUTES_PER_DAY))" for n
    by (rule from_minutes_shape) (simp_all add: MINUTES_PER_DAY_def)
  moreover have "iso_date_shape (q_date q)" using day by (rule fromisoformat_shape)
  ultimately have "slot_valid slot"
    using assms(1,2) cap from_minutes_shape [OF range] m(1)
    by (auto simp: slot make_slot_def slot_valid_def query_valid_def end_time_def split: option.split)
  with day h m show ?thesis by (auto simp: slot make_slot_def)
qed

lemmas generated_slot_valid = generated_slot_facts [THEN conjunct1]

text \<open>
  Every slot the mock provider generates for a valid query is a valid slot object (so building
  it never raises), asks for the party it was asked for, starts on the quarter-hour grid inside the
  opening hours of its venue on that day and ends before closing time.
\<close>

theorem generated_slots_bookable:
  assumes "query_valid q" and "\<And>s. length (uuid5_hex s) = 32"
    and "slot \<in> set (generate digest0 uuid5_hex unavailable q)"
  shows "slot_valid slot \<and> slot_party_size slot = q_party_size q \<and>
    slot_start_time slot \<in> from_minutes ` {m. \<exists>d h. fromisoformat (q_date q) = Some d \<and>
      hours_for (profile_for (q_venue_name q)) d = Some h \<and>
      bookable q (profile_for (q_venue_name q)) h m}"
  using generated_slot_facts [OF assms] .

definition demo_request :: availability_query where
  "demo_request = \<lparr>q_venue_name = ''Ethels'', q_venue_type = RESTAURANT, q_market = MARKET,
     q_party_size = 2, q_date = ''2035-03-01'', q_preferred_time = None,
     q_time_window = Some \<lparr>tw_start = ''18:05'', tw_end = ''19:00''\<rparr>, q_duration_minutes = None,
     q_special_requests = []\<rparr>"

theorem generated_slots_bookable_witness:
  "list_all slot_valid (generate (\<lambda>s. 0) (\<lambda>s. replicate 32 (CHR ''0'')) [] demo_request)"
proof -
  have "query_valid demo_request" by code_simp
  with generated_slots_bookable [of demo_request "\<lambda>s. replicate 32 (CHR ''0'')" _ "\<lambda>s. 0" "[]"]
  show ?thesis by (simp add: list_all_iff)
qed

text \<open>
  A search window is not a hard lower bound: its start is rounded to the grid and may be rounded
  down, so a slot earlier than the window's earliest acceptable time can be offered, by at most half
  a grid step; it is never later than the window's end.
\<close>

theorem window_start_is_rounded:
  assumes "q_time_window q = Some tw" and "t \<in> set (candidate_times q p h)" and "hours_ok h"
  shows "\<exists>m. t = from_minutes m \<and> to_minutes (tw_start tw) - 7 \<le> m \<and> m \<le> to_minutes (tw_end tw)"
proof -
  let ?o = "to_minutes (open_time h)" and ?l = "closing_minutes h - stay_minutes q p"
  let ?first = "max ?o (snap_to_grid (to_minutes (tw_start tw)))"
  let ?last = "min ?l (to_minutes (tw_end tw))"
  from window_candidates [OF assms(1,2)] obtain m where m: "t = from_minutes m"
    "m \<in> set (grid_range ?first (?last + 1))" by blast
  have "to_minutes (tw_start tw) - 7 \<le> snap_to_grid (to_minutes (tw_start tw))"
  proof -
    have "x - 7 \<le> snap_to_grid x" for x
      using pos_mod_bound [of 15 x]
      by (simp add: snap_to_grid_def SLOT_INTERVAL_MINUTES_def Let_def del: pos_mod_bound)
    then show ?thesis .
  qed
  with grid_range_mem [OF m(2)] m(1) show ?thesis by auto
qed

definition demo_profile :: venue_profile where
  "demo_profile = \<lparr>weekly_hours = [], vp_max_party_size = 8, minimum_stay_minutes = 90,
     closed_dates = [], sold_out_dates = []\<rparr>"

definition demo_hours :: opening_hours where
  "demo_hours = \<lparr>open_time = ''12:00'', close_time = ''23:00''\<rparr>"

theorem window_start_is_rounded_witness:
  "''18:00'' \<in> set (candidate_times demo_request demo_profile demo_hours) \<and> ''18:00'' < ''18:05'' \<and>
   (\<exists>m. ''18:00'' = from_minutes m \<and> to_minutes ''18:05'' - 7 \<le> m \<and> m \<le> to_minutes ''19:00'')"
proof -
  have mem: "''18:00'' \<in> set (candidate_times demo_request demo_profile demo_hours)" by code_simp
  have "q_time_window demo_request = Some \<lparr>tw_start = ''18:05'', tw_end = ''19:00''\<rparr>"
    and "hours_ok demo_hours" by code_simp+
  from window_start_is_rounded [OF this(1) mem this(2)]
  have "\<exists>m. ''18:00'' = from_minutes m \<and> to_minutes ''18:05'' - 7 \<le> m \<and> m \<le> to_minutes ''19:00''"
    by (simp only: time_window.simps)
  moreover have "''18:00'' < (''18:05'' :: string)" by code_simp
  ultimately show ?thesis using mem by blast
qed

end
