(* ===== verification/Mock_Adapter.thy ===== *)
theory Mock_Adapter
  imports Mock_State Slot_Generation
begin

text \<open>
  \<^verbatim>\<open>MockBookingAdapter\<close>: deterministic generation over the shared state. Its invariant, the single
  booking per slot, and the interpretation \<open>mock\<close> of the adapter contract.
\<close>

definition confirmation_factory ::
  "(string \<Rightarrow> string) \<Rightarrow> string \<Rightarrow> time \<Rightarrow> availability_slot \<Rightarrow> booking_confirmation" where
  "confirmation_factory uuid5_hex key now slot =
     \<lparr>booking_id = ''mock_booking_'' @ uuid5_hex key, bk_provider = ''mock'',
      bk_status = MOCK_CONFIRMED, bk_slot = slot, bk_created_at = now\<rparr>"

definition mock_search ::
  "(string \<Rightarrow> nat) \<Rightarrow> (string \<Rightarrow> string) \<Rightarrow> (time \<Rightarrow> string) \<Rightarrow> string list \<Rightarrow>
   time \<Rightarrow> availability_query \<Rightarrow> mock_store \<Rightarrow> (adapter_error + availability_slot list) \<times> mock_store" where
  "mock_search digest0 uuid5_hex fresh_id unavailable now q m =
     (let candidates = generate digest0 uuid5_hex unavailable q in
      if candidates = [] then (Inr [], m)
      else
        (let operation_id = fresh_id now;
             (slots, m') = publish_and_filter candidates operation_id now m
         in (Inr slots, release_operation operation_id m')))"

definition mock_adapter ::
  "(string \<Rightarrow> nat) \<Rightarrow> (string \<Rightarrow> string) \<Rightarrow> (time \<Rightarrow> string) \<Rightarrow> string list \<Rightarrow> mock_store adapter" where
  "mock_adapter digest0 uuid5_hex fresh_id unavailable =
     \<lparr>search_availability = mock_search digest0 uuid5_hex fresh_id unavailable,
      get_booking = (\<lambda>now key m. (Inr (live_booking now m key), m)),
      book_slot = (\<lambda>now k key m. mock_book k key (confirmation_factory uuid5_hex key now) now m),
      reconcile_booking = (\<lambda>now key m. (Inr (mock_reconcile key now m), m))\<rparr>"

section \<open>The invariant of the shared state\<close>

definition mock_ok :: "mock_store \<Rightarrow> bool" where
  "mock_ok m \<longleftrightarrow>
     dict_ok (ms_slots m) \<and> dict_ok (ms_bookings m) \<and> dict_ok (ms_tombstones m) \<and>
     0 < ms_retention m \<and>
     (\<forall>k en. dict_get (ms_slots m) k = Some en \<longrightarrow> slot_valid (se_slot en) \<and> slot_id (se_slot en) = k) \<and>
     (\<forall>k b. dict_get (ms_bookings m) k = Some b \<longrightarrow> confirmation_valid (mb_confirmation b))"

text \<open>
  From time \<open>now\<close> on, whoever holds a protected booking also holds the tombstone of its slot.
\<close>

definition slots_guarded :: "time \<Rightarrow> mock_store \<Rightarrow> bool" where
  "slots_guarded now m \<longleftrightarrow>
     (\<forall>t\<ge>now. \<forall>key c. live_booking t m key = Some c \<longrightarrow>
        (\<exists>tb. dict_get (ms_tombstones m) (slot_id (bk_slot c)) = Some tb \<and> tb_key tb = key \<and>
              t < tb_protected_until tb))"

lemma mock_ok_empty: "0 < timedelta_seconds ret \<Longrightarrow> mock_ok (empty_mock_store c i ret p)"
  by (simp add: mock_ok_def empty_mock_store_def)

lemma slots_guarded_empty: "slots_guarded now (empty_mock_store c i ret p)"
  by (simp add: slots_guarded_def live_booking_def empty_mock_store_def)

section \<open>Searching keeps the invariant\<close>

lemma live_booking_frame [simp]:
  "live_booking t (m\<lparr>ms_slots := x\<rparr>) k = live_booking t m k"
  "live_booking t (m\<lparr>ms_pins := y\<rparr>) k = live_booking t m k"
  by (simp_all add: live_booking_def)

lemma expire_pins_frame [simp]:
  "ms_slots (expire_pins now m) = ms_slots m" "ms_bookings (expire_pins now m) = ms_bookings m"
  "ms_tombstones (expire_pins now m) = ms_tombstones m" "ms_retention (expire_pins now m) = ms_retention m"
  "ms_capacity (expire_pins now m) = ms_capacity m"
  by (simp_all add: expire_pins_def)

definition slots_ok :: "mock_store \<Rightarrow> bool" where
  "slots_ok m \<longleftrightarrow> dict_ok (ms_slots m) \<and>
     (\<forall>k en. dict_get (ms_slots m) k = Some en \<longrightarrow> slot_valid (se_slot en) \<and> slot_id (se_slot en) = k)"

definition same_bookings :: "mock_store \<Rightarrow> mock_store \<Rightarrow> bool" where
  "same_bookings m m' \<longleftrightarrow> ms_bookings m' = ms_bookings m \<and> ms_tombstones m' = ms_tombstones m \<and>
     ms_retention m' = ms_retention m \<and> ms_capacity m' = ms_capacity m"

lemma same_bookings_refl [simp]: "same_bookings m m"
  by (simp add: same_bookings_def)

lemma mock_ok_slots: "mock_ok m \<Longrightarrow> slots_ok m"
  by (simp add: mock_ok_def slots_ok_def)

lemma mock_ok_same: "mock_ok m \<Longrightarrow> same_bookings m m' \<Longrightarrow> slots_ok m' \<Longrightarrow> mock_ok m'"
  by (simp add: mock_ok_def slots_ok_def same_bookings_def)

lemma live_booking_same: "same_bookings m m' \<Longrightarrow> live_booking t m' k = live_booking t m k"
  by (simp add: same_bookings_def live_booking_def)

lemma slots_guarded_same: "slots_guarded now m \<Longrightarrow> same_bookings m m' \<Longrightarrow> slots_guarded now m'"
  by (simp add: slots_guarded_def live_booking_same) (simp add: same_bookings_def)

text \<open>The evicted slot is an unprotected one that nobody touched for longest.\<close>

lemma oldest_entry_spec:
  "oldest_entry prot best d = Some (k, t) \<Longrightarrow>
   (best = Some (k, t) \<or> k \<notin> set prot \<and> (\<exists>en. (k, en) \<in> set d \<and> last_touch en = t)) \<and>
   (\<forall>k' en. (k', en) \<in> set d \<longrightarrow> k' \<notin> set prot \<longrightarrow> t \<le> last_touch en) \<and>
   (\<forall>k' t'. best = Some (k', t') \<longrightarrow> t \<le> t')"
  by (induction prot best d rule: oldest_entry.induct)
     (simp, fastforce split: if_splits option.splits prod.splits)

lemma evict_one_ok:
  assumes "slots_ok m" and "evict_one prot m = (b, m')"
  shows "slots_ok m'" and "same_bookings m m'" and "b \<Longrightarrow> length (ms_slots m') < length (ms_slots m)"
    and "\<not> b \<Longrightarrow> m' = m"
proof -
  show "slots_ok m'" "same_bookings m m'" "\<not> b \<Longrightarrow> m' = m"
    using assms by (auto simp: evict_one_def slots_ok_def same_bookings_def split: option.splits if_splits)
  assume b
  then obtain k t where k: "oldest_entry prot None (ms_slots m) = Some (k, t)"
    and m': "m' = m\<lparr>ms_slots := dict_pop k (ms_slots m)\<rparr>"
    using assms(2) by (auto simp: evict_one_def split: option.splits)
  from oldest_entry_spec [OF k] obtain en where "(k, en) \<in> set (ms_slots m)" by auto
  with assms(1) dict_get_in_set [of "ms_slots m" k en] have "dict_get (ms_slots m) k \<noteq> None"
    by (simp add: slots_ok_def)
  then show "length (ms_slots m') < length (ms_slots m)" by (simp add: m' dict_pop_length)
qed

definition publish_inv :: "mock_store \<Rightarrow> string list \<times> availability_slot list \<times> mock_store \<Rightarrow> bool" where
  "publish_inv m st \<longleftrightarrow>
     (let (admitted, result, m') = st in
        slots_ok m' \<and> same_bookings m m' \<and> list_all slot_valid result \<and>
        int (length (ms_slots m')) \<le> max (ms_capacity m) (int (length (ms_slots m))))"

lemma slots_ok_set:
  "slots_ok m \<Longrightarrow> slot_valid (se_slot en) \<Longrightarrow> slot_id (se_slot en) = k \<Longrightarrow>
   slots_ok (m\<lparr>ms_slots := dict_set k en (ms_slots m)\<rparr>)"
  by (auto simp: slots_ok_def)

lemma publish_one_inv:
  assumes inv: "publish_inv m0 st" and slot: "slot_valid slot"
  shows "publish_inv m0 (publish_one now slot st)"
proof -
  obtain admitted result m where st: "st = (admitted, result, m)" by (metis prod_cases3)
  let ?k = "slot_id slot"
  from inv have ok: "slots_ok m" and same: "same_bookings m0 m" and res: "list_all slot_valid result"
    and len: "int (length (ms_slots m)) \<le> max (ms_capacity m0) (int (length (ms_slots m0)))"
    by (simp_all add: publish_inv_def st)
  show ?thesis
  proof (cases "protects now (dict_get (ms_tombstones m) ?k)")
    case True
    with inv show ?thesis by (simp add: publish_one_def st Let_def)
  next
    case False
    show ?thesis
    proof (cases "dict_get (ms_slots m) ?k")
      case (Some en)
      then have en: "slot_valid (se_slot en)" "slot_id (se_slot en) = ?k"
        using ok by (auto simp: slots_ok_def)
      with Some False ok same res len slots_ok_set [OF ok, of "en\<lparr>last_touch := now\<rparr>" ?k]
      show ?thesis
        by (simp add: publish_one_def st publish_inv_def same_bookings_def dict_set_length Let_def)
    next
      case None
      note gone = None
      obtain room m' where room: "(if int (length (ms_slots m)) < ms_capacity m then (True, m)
          else evict_one (pinned_ids now m @ admitted) m) = (room, m')" by fastforce
      have m': "slots_ok m'" "same_bookings m0 m'"
        "room \<Longrightarrow> int (length (ms_slots m')) < max (ms_capacity m0) (int (length (ms_slots m0)))"
        "int (length (ms_slots m')) \<le> max (ms_capacity m0) (int (length (ms_slots m0)))"
        using room ok same len evict_one_ok [OF ok]
        by (fastforce simp: same_bookings_def split: if_splits)+
      have eq: "publish_one now slot st =
          (if \<not> room then (admitted, result, m')
           else (admitted @ [?k], result @ [slot],
                 m'\<lparr>ms_slots := dict_set ?k \<lparr>se_slot = slot, last_touch = now\<rparr> (ms_slots m')\<rparr>))"
        using False gone room by (simp add: publish_one_def st Let_def)
      show ?thesis
      proof (cases room)
        case True
        with m' res slot slots_ok_set [OF m'(1), of "\<lparr>se_slot = slot, last_touch = now\<rparr>" ?k]
        show ?thesis
          by (auto simp: eq publish_inv_def same_bookings_def dict_set_length)
      next
        case False
        with m' res show ?thesis by (simp add: eq publish_inv_def)
      qed
    qed
  qed
qed

lemma publish_fold_inv:
  "publish_inv m0 st \<Longrightarrow> list_all slot_valid slots \<Longrightarrow> publish_inv m0 (fold (publish_one now) slots st)"
proof (induction slots arbitrary: st)
  case (Cons slot slots)
  from Cons.IH [OF publish_one_inv [OF Cons.prems(1), of slot now]] Cons.prems(2) show ?case by simp
qed simp

lemma publish_and_filter_ok:
  assumes "slots_ok m" and "list_all slot_valid candidates"
    and "publish_and_filter candidates op now m = (slots, m')"
  shows "slots_ok m'" and "same_bookings m m'" and "list_all slot_valid slots"
    and "int (length (ms_slots m')) \<le> max (ms_capacity m) (int (length (ms_slots m)))"
proof -
  obtain adm result m1 where f: "fold (publish_one now) candidates ([], [], expire_pins now m) =
      (adm, result, m1)" by (metis prod_cases3)
  have "publish_inv m ([], [], expire_pins now m)"
    using assms(1) by (simp add: publish_inv_def slots_ok_def same_bookings_def)
  from publish_fold_inv [OF this assms(2), of now] f have "publish_inv m (adm, result, m1)" by simp
  then show "slots_ok m'" "same_bookings m m'" "list_all slot_valid slots"
    "int (length (ms_slots m')) \<le> max (ms_capacity m) (int (length (ms_slots m)))"
    using assms(3) f
    by (auto simp: publish_and_filter_def publish_inv_def slots_ok_def same_bookings_def Let_def)
qed

lemma release_operation_frame [simp]:
  "slots_ok (release_operation op m) = slots_ok m"
  "same_bookings m0 (release_operation op m) = same_bookings m0 m"
  "ms_slots (release_operation op m) = ms_slots m" "ms_capacity (release_operation op m) = ms_capacity m"
  by (simp_all add: release_operation_def slots_ok_def same_bookings_def)

section \<open>Booking keeps the invariant\<close>

lemma live_booking_Some:
  "live_booking t m key = Some c \<longleftrightarrow>
     (\<exists>b. dict_get (ms_bookings m) key = Some b \<and> t < mb_protected_until b \<and> mb_confirmation b = c)"
  by (auto simp: live_booking_def not_le split: option.splits)

lemma mock_book_cases:
  obtains (existing) b where "live_booking now m key = Some b" "mock_book k key f now m = (Inr b, m)"
  | (refused) err where "live_booking now m key = None" "mock_book k key f now m = (Inl err, m)"
  | (booked) en where "live_booking now m key = None" "dict_get (ms_slots m) k = Some en"
      "\<not> (\<exists>t. dict_get (ms_tombstones m) k = Some t \<and> now < tb_protected_until t \<and> tb_key t \<noteq> key)"
      "mock_book k key f now m =
        (Inr (f (se_slot en)),
         m\<lparr>ms_bookings := dict_set key \<lparr>mb_confirmation = f (se_slot en),
              mb_protected_until = now + ms_retention m\<rparr> (ms_bookings m),
           ms_tombstones := dict_set k \<lparr>tb_key = key, tb_protected_until = now + ms_retention m\<rparr>
              (ms_tombstones m),
           ms_slots := dict_pop k (ms_slots m), ms_pins := dict_pop k (ms_pins m)\<rparr>)"
proof (cases "live_booking now m key")
  case (Some b)
  then show thesis by (intro existing [of b]) (auto simp: live_booking_Some mock_book_def Let_def)
next
  case None
  then have fresh: "case dict_get (ms_bookings m) key of None \<Rightarrow> True | Some b \<Rightarrow> \<not> now < mb_protected_until b"
    by (auto simp: live_booking_def split: option.splits if_splits)
  consider (taken) t where "dict_get (ms_tombstones m) k = Some t" "now < tb_protected_until t" "tb_key t \<noteq> key"
    | (gone) "\<not> (\<exists>t. dict_get (ms_tombstones m) k = Some t \<and> now < tb_protected_until t \<and> tb_key t \<noteq> key)"
        "dict_get (ms_slots m) k = None"
    | (free) en where
        "\<not> (\<exists>t. dict_get (ms_tombstones m) k = Some t \<and> now < tb_protected_until t \<and> tb_key t \<noteq> key)"
        "dict_get (ms_slots m) k = Some en"
    by fastforce
  then show thesis
  proof cases
    case taken
    with fresh None show thesis
      by (intro refused) (auto simp: mock_book_def Let_def split: option.splits)
  next
    case gone
    with fresh None show thesis
      by (intro refused) (auto simp: mock_book_def Let_def split: option.splits)
  next
    case (free en)
    with fresh show thesis
      by (intro booked [OF None free(2,1)]) (auto simp: mock_book_def Let_def split: option.splits)
  qed
qed

lemma mock_book_ok:
  assumes "mock_ok m" and "\<And>s. slot_valid s \<Longrightarrow> confirmation_valid (f s)"
  shows "mock_ok (snd (mock_book k key f now m))"
proof (cases rule: mock_book_cases [of now m key k f])
  case (booked en)
  with assms show ?thesis by (auto simp: mock_ok_def)
qed (use assms(1) in simp_all)

lemma mock_book_guarded:
  assumes ok: "mock_ok m" and guard: "slots_guarded start m" and "start \<le> now"
    and f: "\<And>s. bk_slot (f s) = s"
  shows "slots_guarded now (snd (mock_book k key f now m))"
proof (cases rule: mock_book_cases [of now m key k f])
  case (booked en)
  have id: "slot_id (se_slot en) = k" using ok booked(2) by (simp add: mock_ok_def)
  let ?m = "snd (mock_book k key f now m)"
  show ?thesis
    unfolding slots_guarded_def
  proof (intro allI impI)
    fix t key' c
    assume t: "now \<le> t" and live: "live_booking t ?m key' = Some c"
    show "\<exists>tb. dict_get (ms_tombstones ?m) (slot_id (bk_slot c)) = Some tb \<and> tb_key tb = key' \<and>
        t < tb_protected_until tb"
    proof (cases "key' = key")
      case True
      with live show ?thesis by (simp add: booked(4) live_booking_Some f id) (auto simp: f id)
    next
      case False
      with live have "live_booking t m key' = Some c" by (simp add: booked(4) live_booking_def)
      with guard t assms(3) obtain tb where tb: "dict_get (ms_tombstones m) (slot_id (bk_slot c)) = Some tb"
        "tb_key tb = key'" "t < tb_protected_until tb"
        unfolding slots_guarded_def by (meson order_trans)
      with booked(3) False t have "slot_id (bk_slot c) \<noteq> k" by auto
      with tb show ?thesis by (simp add: booked(4))
    qed
  qed
qed (use guard assms(3) in \<open>auto simp: slots_guarded_def\<close>)

lemma guarded_later: "slots_guarded s m \<Longrightarrow> s \<le> t \<Longrightarrow> slots_guarded t m"
  by (auto simp: slots_guarded_def)

lemma fold_dict_pop: "dict_get (fold dict_pop ks d) k = (if k \<in> set ks then None else dict_get d k)"
  by (induction ks arbitrary: d) auto

lemma dict_ok_fold_pop: "dict_ok d \<Longrightarrow> dict_ok (fold dict_pop ks d)"
  by (induction ks arbitrary: d) auto

lemma mock_cleanup_ok: "mock_ok m \<Longrightarrow> mock_ok (snd (mock_cleanup now batch m))"
  by (auto simp: mock_cleanup_def Let_def mock_ok_def fold_dict_pop dict_ok_fold_pop split: if_splits)

lemma mock_cleanup_guarded:
  assumes "mock_ok m" and "slots_guarded start m" and "start \<le> now"
  shows "slots_guarded now (snd (mock_cleanup now batch m))"
  unfolding slots_guarded_def
proof (intro allI impI)
  let ?m = "snd (mock_cleanup now batch m)"
  fix t key c
  assume t: "now \<le> t" and live: "live_booking t ?m key = Some c"
  from live have "live_booking t m key = Some c"
    by (auto simp: live_booking_Some mock_cleanup_def Let_def fold_dict_pop split: if_splits)
  with assms(2,3) t obtain tb where tb: "dict_get (ms_tombstones m) (slot_id (bk_slot c)) = Some tb"
    "tb_key tb = key" "t < tb_protected_until tb"
    unfolding slots_guarded_def by (meson order_trans)
  let ?tombs = "py_take batch (map fst (filter (\<lambda>(_, t). tb_protected_until t \<le> now) (ms_tombstones m)))"
  have "slot_id (bk_slot c) \<notin> set ?tombs"
  proof
    assume "slot_id (bk_slot c) \<in> set ?tombs"
    then have "slot_id (bk_slot c) \<in> set (map fst (filter (\<lambda>(_, t). tb_protected_until t \<le> now) (ms_tombstones m)))"
      by (rule subsetD [OF set_py_take])
    then obtain tb' where "(slot_id (bk_slot c), tb') \<in> set (ms_tombstones m)" "tb_protected_until tb' \<le> now"
      by auto
    with assms(1) tb t show False
      using dict_get_in_set [of "ms_tombstones m" "slot_id (bk_slot c)" tb'] by (simp add: mock_ok_def)
  qed
  with tb show "\<exists>tb. dict_get (ms_tombstones ?m) (slot_id (bk_slot c)) = Some tb \<and> tb_key tb = key \<and>
      t < tb_protected_until tb"
    by (simp add: mock_cleanup_def Let_def fold_dict_pop)
qed

section \<open>The mock provider keeps the contract\<close>

text \<open>
  The adapter's invariant: the shared state's, with name-based UUIDs of thirty-two hexadecimal digits.
\<close>

definition mock_adapter_ok :: "(string \<Rightarrow> string) \<Rightarrow> mock_store \<Rightarrow> bool" where
  "mock_adapter_ok uuid5_hex m \<longleftrightarrow> mock_ok m \<and> (\<forall>s. length (uuid5_hex s) = 32)"

lemma generated_valid:
  assumes "query_valid q" and "\<And>s. length (uuid5_hex s) = 32"
  shows "list_all slot_valid (generate digest0 uuid5_hex unavailable q)"
  using generated_slot_valid [OF assms] by (auto simp: list_all_iff)

lemma mock_search_ok:
  assumes "mock_adapter_ok uuid5_hex m" and "query_valid q"
    and "mock_search digest0 uuid5_hex fresh unavailable now q m = (res, m')"
  shows "mock_adapter_ok uuid5_hex m'" and "same_bookings m m'"
    and "\<forall>slots. res = Inr slots \<longrightarrow> list_all slot_valid slots"
proof -
  have ok: "mock_ok m" and uuid: "\<And>s. length (uuid5_hex s) = 32"
    using assms(1) by (simp_all add: mock_adapter_ok_def)
  have valid: "list_all slot_valid (generate digest0 uuid5_hex unavailable q)"
    using assms(2) uuid by (rule generated_valid)
  show "mock_adapter_ok uuid5_hex m'" "same_bookings m m'"
    "\<forall>slots. res = Inr slots \<longrightarrow> list_all slot_valid slots"
  proof -
    obtain slots m1 where p: "publish_and_filter (generate digest0 uuid5_hex unavailable q) (fresh now) now m
        = (slots, m1)" by fastforce
    note f = publish_and_filter_ok [OF mock_ok_slots [OF ok] valid p]
    have "m' = m \<and> res = Inr [] \<or> m' = release_operation (fresh now) m1 \<and> res = Inr slots"
      using assms(3) p by (auto simp: mock_search_def Let_def split: if_splits)
    moreover have "mock_ok (release_operation (fresh now) m1)"
      using f by (intro mock_ok_same [OF ok]) simp_all
    ultimately show "mock_adapter_ok uuid5_hex m'" "same_bookings m m'"
      "\<forall>slots. res = Inr slots \<longrightarrow> list_all slot_valid slots"
      using ok uuid f by (auto simp: mock_adapter_ok_def)
  qed
qed

lemma confirmation_factory_valid:
  "length (uuid5_hex key) = 32 \<Longrightarrow> slot_valid s \<Longrightarrow>
   confirmation_valid (confirmation_factory uuid5_hex key now s)"
proof -
  have "provider_name_valid ''mock''" by code_simp
  then show "length (uuid5_hex key) = 32 \<Longrightarrow> slot_valid s \<Longrightarrow> ?thesis"
    by (simp add: confirmation_valid_def confirmation_factory_def)
qed

lemma confirmation_factory_slot [simp]: "bk_slot (confirmation_factory uuid5_hex key now s) = s"
  by (simp add: confirmation_factory_def)

interpretation mock: reservation_adapter "mock_adapter digest0 uuid5_hex fresh unavailable"
    "mock_adapter_ok uuid5_hex" live_booking
  for digest0 :: "string \<Rightarrow> nat" and uuid5_hex :: "string \<Rightarrow> string" and fresh :: "time \<Rightarrow> string"
    and unavailable :: "string list"
proof unfold_locales
  fix p p' :: mock_store and now t s q k key found known made answer b
  show "mock_adapter_ok uuid5_hex p' \<and> (\<forall>t. live_booking t p' = live_booking t p) \<and>
      (\<forall>slots. found = Inr slots \<longrightarrow> list_all slot_valid slots)"
    if "mock_adapter_ok uuid5_hex p" "query_valid q"
      "search_availability (mock_adapter digest0 uuid5_hex fresh unavailable) now q p = (found, p')"
    using mock_search_ok [OF that(1,2)] that(3) live_booking_same by (fastforce simp: mock_adapter_def)
  show "mock_adapter_ok uuid5_hex p' \<and> (\<forall>t. live_booking t p' = live_booking t p) \<and>
      (\<forall>b. known = Inr (Some b) \<longrightarrow> live_booking now p key = Some b)"
    if "mock_adapter_ok uuid5_hex p"
      "get_booking (mock_adapter digest0 uuid5_hex fresh unavailable) now key p = (known, p')"
    using that by (auto simp: mock_adapter_def)
  show "mock_adapter_ok uuid5_hex p' \<and> (\<forall>t k. k \<noteq> key \<longrightarrow> live_booking t p' k = live_booking t p k) \<and>
      (live_booking now p key \<noteq> None \<longrightarrow> (\<forall>t. live_booking t p' key = live_booking t p key)) \<and>
      (\<forall>b. made = Inr b \<longrightarrow> live_booking now p' key = Some b)"
    if "mock_adapter_ok uuid5_hex p"
      "book_slot (mock_adapter digest0 uuid5_hex fresh unavailable) now k key p = (made, p')"
  proof -
    let ?f = "confirmation_factory uuid5_hex key now"
    have run: "mock_book k key ?f now p = (made, p')" using that(2) by (simp add: mock_adapter_def)
    have ok: "mock_ok p" and uuid: "\<And>s. length (uuid5_hex s) = 32"
      using that(1) by (simp_all add: mock_adapter_ok_def)
    from ok have ret: "0 < ms_retention p" by (simp add: mock_ok_def)
    from mock_book_ok [OF ok, of ?f k key now] confirmation_factory_valid uuid run
    have ok': "mock_adapter_ok uuid5_hex p'" by (simp add: mock_adapter_ok_def)
    show ?thesis
    proof (cases rule: mock_book_cases [of now p key k ?f])
      case (existing b)
      with run ok' show ?thesis by auto
    next
      case (refused err)
      with run ok' show ?thesis by auto
    next
      case (booked en)
      with run have "made = Inr (?f (se_slot en))"
        and p': "p' = p\<lparr>ms_bookings := dict_set key \<lparr>mb_confirmation = ?f (se_slot en),
              mb_protected_until = now + ms_retention p\<rparr> (ms_bookings p),
           ms_tombstones := dict_set k \<lparr>tb_key = key, tb_protected_until = now + ms_retention p\<rparr>
              (ms_tombstones p),
           ms_slots := dict_pop k (ms_slots p), ms_pins := dict_pop k (ms_pins p)\<rparr>" by simp_all
      with ok' booked(1) ret show ?thesis by (simp add: p' live_booking_def)
    qed
  qed
  show "mock_adapter_ok uuid5_hex p' \<and> (\<forall>t. live_booking t p' = live_booking t p) \<and>
      (\<forall>r. answer = Inr r \<longrightarrow>
         (rec_status r = Recon_CONFIRMED \<longrightarrow>
            (\<exists>b. rec_confirmation r = Some b \<and> live_booking now p key = Some b)) \<and>
         (rec_status r = Recon_DEFINITIVELY_ABSENT \<longrightarrow> live_booking now p key = None))"
    if "mock_adapter_ok uuid5_hex p"
      "reconcile_booking (mock_adapter digest0 uuid5_hex fresh unavailable) now key p = (answer, p')"
    using that by (auto simp: mock_adapter_def mock_reconcile_def live_booking_def split: option.splits if_splits)
  show "confirmation_valid b" if "mock_adapter_ok uuid5_hex p" "live_booking t p key = Some b"
    using that by (auto simp: mock_adapter_ok_def mock_ok_def live_booking_Some)
  show "live_booking s p key = Some b" if "live_booking t p key = Some b" "s \<le> t"
    using that by (auto simp: live_booking_Some)
qed

end
