(* ===== verification/Mock_Properties.thy ===== *)
theory Mock_Properties
  imports Mock_Adapter
begin

text \<open>
  Histories of the shared mock state under any interleaving of searches, bookings and cleanups by any
  number of adapters, with a clock that does not run backwards; and what such histories guarantee.
\<close>

inductive mock_step ::
  "(string \<Rightarrow> nat) \<Rightarrow> (string \<Rightarrow> string) \<Rightarrow> time \<Rightarrow> mock_store \<Rightarrow> mock_store \<Rightarrow> bool"
  for digest0 uuid5_hex where
  mock_publish: "query_valid q \<Longrightarrow>
     mock_step digest0 uuid5_hex now m (snd (publish_and_filter (generate digest0 uuid5_hex un q) op now m))"
| mock_release: "mock_step digest0 uuid5_hex now m (release_operation op m)"
| mock_booking: "mock_step digest0 uuid5_hex now m
     (snd (mock_book k key (confirmation_factory uuid5_hex key now) now m))"
| mock_clean: "mock_step digest0 uuid5_hex now m (snd (mock_cleanup now batch m))"

text \<open>\<open>mock_run t m t' m'\<close>: from time \<open>t\<close> on, ending with a last step no later than \<open>t'\<close>.\<close>

inductive mock_run ::
  "(string \<Rightarrow> nat) \<Rightarrow> (string \<Rightarrow> string) \<Rightarrow> time \<Rightarrow> mock_store \<Rightarrow> time \<Rightarrow> mock_store \<Rightarrow> bool"
  for digest0 uuid5_hex where
  mock_idle: "mock_run digest0 uuid5_hex t m t m"
| mock_more: "mock_run digest0 uuid5_hex t m t' m' \<Longrightarrow> t' \<le> now \<Longrightarrow>
     mock_step digest0 uuid5_hex now m' m'' \<Longrightarrow> mock_run digest0 uuid5_hex t m now m''"

lemma mock_step_same:
  assumes "mock_step digest0 uuid5_hex now m m'" and "mock_adapter_ok uuid5_hex m" and "slots_guarded start m"
    and "start \<le> now"
  shows "mock_adapter_ok uuid5_hex m'" and "slots_guarded now m'"
proof -
  have ok: "mock_ok m" and uuid: "\<And>s. length (uuid5_hex s) = 32"
    using assms(2) by (simp_all add: mock_adapter_ok_def)
  from assms(1) have "mock_ok m' \<and> slots_guarded now m'"
  proof cases
    case (mock_publish q un op)
    obtain slots m1 where p: "publish_and_filter (generate digest0 uuid5_hex un q) op now m = (slots, m1)"
      by fastforce
    have "list_all slot_valid (generate digest0 uuid5_hex un q)"
      using mock_publish(2) uuid by (rule generated_valid)
    note f = publish_and_filter_ok [OF mock_ok_slots [OF ok] this p]
    from mock_ok_same [OF ok f(2,1)] slots_guarded_same [OF guarded_later [OF assms(3,4)] f(2)]
    show ?thesis by (simp add: mock_publish(1) p)
  next
    case (mock_release op)
    have "same_bookings m (release_operation op m)" by simp
    from mock_ok_same [OF ok this] slots_guarded_same [OF guarded_later [OF assms(3,4)] this]
      mock_ok_slots [OF ok]
    show ?thesis by (simp add: mock_release)
  next
    case (mock_booking k key)
    with mock_book_ok [OF ok, of "confirmation_factory uuid5_hex key now" k key now]
      mock_book_guarded [OF ok assms(3,4), of "confirmation_factory uuid5_hex key now" k key]
      confirmation_factory_valid uuid
    show ?thesis by simp
  next
    case (mock_clean batch)
    with mock_cleanup_ok [OF ok] mock_cleanup_guarded [OF ok assms(3,4)] show ?thesis by simp
  qed
  with uuid show "mock_adapter_ok uuid5_hex m'" "slots_guarded now m'" by (simp_all add: mock_adapter_ok_def)
qed

lemma mock_run_ok:
  "mock_run digest0 uuid5_hex t m t' m' \<Longrightarrow> mock_adapter_ok uuid5_hex m \<Longrightarrow> slots_guarded t m \<Longrightarrow>
   mock_adapter_ok uuid5_hex m' \<and> slots_guarded t' m' \<and> t \<le> t'"
  by (induction rule: mock_run.induct) (auto dest: mock_step_same)

lemma mock_step_live:
  assumes "mock_step digest0 uuid5_hex now m m'" and "now \<le> t" and "live_booking t m key = Some c"
    and "mock_adapter_ok uuid5_hex m"
  shows "live_booking t m' key = Some c"
  using assms(1)
proof cases
  case (mock_publish q un op)
  have ok: "mock_ok m" and uuid: "\<And>s. length (uuid5_hex s) = 32"
    using assms(4) by (simp_all add: mock_adapter_ok_def)
  obtain slots m1 where p: "publish_and_filter (generate digest0 uuid5_hex un q) op now m = (slots, m1)"
    by fastforce
  have "list_all slot_valid (generate digest0 uuid5_hex un q)"
    using mock_publish(2) uuid by (rule generated_valid)
  from publish_and_filter_ok(2) [OF mock_ok_slots [OF ok] this p] assms(3)
  show ?thesis by (simp add: mock_publish(1) p live_booking_same)
next
  case (mock_release op)
  then show ?thesis using assms(3) live_booking_same [of m "release_operation op m"] by simp
next
  case (mock_booking k key')
  show ?thesis
  proof (cases rule: mock_book_cases [of now m key' k "confirmation_factory uuid5_hex key' now"])
    case (booked en)
    have "live_booking now m key = Some c" using assms(2,3) by (auto simp: live_booking_Some)
    with booked(1) have "key \<noteq> key'" by auto
    with assms(3) show ?thesis by (simp add: mock_booking booked(4) live_booking_def)
  qed (use assms(3) mock_booking in simp_all)
next
  case (mock_clean batch)
  let ?keys = "py_take batch (map fst (filter (\<lambda>(_, b). mb_protected_until b \<le> now) (ms_bookings m)))"
  from assms(3) obtain b where b: "dict_get (ms_bookings m) key = Some b" "t < mb_protected_until b"
    "mb_confirmation b = c" by (auto simp: live_booking_Some)
  have "key \<notin> set ?keys"
  proof
    assume "key \<in> set ?keys"
    then have "key \<in> set (map fst (filter (\<lambda>(_, b). mb_protected_until b \<le> now) (ms_bookings m)))"
      by (rule subsetD [OF set_py_take])
    then obtain b' where "(key, b') \<in> set (ms_bookings m)" "mb_protected_until b' \<le> now" by auto
    with assms(2,4) b show False
      using dict_get_in_set [of "ms_bookings m" key b'] by (simp add: mock_adapter_ok_def mock_ok_def)
  qed
  with b show ?thesis
    by (simp add: mock_clean live_booking_Some mock_cleanup_def Let_def fold_dict_pop expire_pins_def)
qed

text \<open>
  C6. No slot is sold twice: whatever searches, bookings and cleanups every adapter of a deployment
  runs, two different idempotency keys never both hold a protected booking of the same slot.
\<close>

theorem slot_never_sold_twice:
  assumes "mock_run digest0 uuid5_hex t0 m0 now m"
    and "mock_adapter_ok uuid5_hex m0" and "slots_guarded t0 m0"
    and "now \<le> t" and "live_booking t m key = Some c" "live_booking t m key' = Some c'"
    and "slot_id (bk_slot c) = slot_id (bk_slot c')"
  shows "key = key'"
proof -
  from mock_run_ok [OF assms(1-3)] have guard: "slots_guarded now m" by simp
  from guard assms(4-6) obtain tb tb'
    where "dict_get (ms_tombstones m) (slot_id (bk_slot c)) = Some tb" "tb_key tb = key"
      "dict_get (ms_tombstones m) (slot_id (bk_slot c')) = Some tb'" "tb_key tb' = key'"
    unfolding slots_guarded_def by blast
  with assms(7) show ?thesis by simp
qed

text \<open>
  A confirmed booking is durable: during its retention no search, no other booking, no repeated
  booking under its own key and no cleanup removes or replaces it.
\<close>

theorem mock_booking_durable:
  assumes "mock_run digest0 uuid5_hex t0 m now m'" and "mock_adapter_ok uuid5_hex m" and "slots_guarded t0 m"
    and "now \<le> t" and "live_booking t m key = Some c"
  shows "live_booking t m' key = Some c"
  using assms
proof (induction rule: mock_run.induct)
  case (mock_more m0 t1 m1 now m2)
  then show ?case using mock_step_live mock_run_ok by (metis order_trans)
qed simp

definition demo_uuid :: "string \<Rightarrow> string" where
  "demo_uuid s = replicate 32 (CHR ''0'')"

definition demo_booked_store :: mock_store where
  "demo_booked_store =
     (empty_mock_store 10 60 3600 120)\<lparr>ms_bookings :=
        [(''watch:w1'', \<lparr>mb_confirmation = \<lparr>booking_id = ''b1'', bk_provider = ''mock'',
            bk_status = MOCK_CONFIRMED,
            bk_slot = \<lparr>slot_id = ''s1'', slot_provider = ''mock'', slot_venue_name = ''Babel'',
              slot_venue_type = RESTAURANT, slot_date = ''2026-03-01'', slot_start_time = ''19:00'',
              slot_end_time = None, slot_party_size = 2, slot_max_party_size = 4,
              slot_available = True\<rparr>, bk_created_at = 0\<rparr>, mb_protected_until = 3600000000\<rparr>)],
      ms_tombstones := [(''s1'', \<lparr>tb_key = ''watch:w1'', tb_protected_until = 3600000000\<rparr>)]\<rparr>"

lemma demo_booked_store_ok:
  "mock_adapter_ok demo_uuid demo_booked_store" "slots_guarded 0 demo_booked_store"
proof -
  have "confirmation_valid (mb_confirmation (snd (hd (ms_bookings demo_booked_store))))" by code_simp
  then show "mock_adapter_ok demo_uuid demo_booked_store"
    using timedelta_seconds_of_int [of 3600]
    by (simp add: mock_adapter_ok_def mock_ok_def demo_uuid_def demo_booked_store_def empty_mock_store_def)
  show "slots_guarded 0 demo_booked_store"
    by (simp add: slots_guarded_def live_booking_def demo_booked_store_def empty_mock_store_def)
qed

theorem mock_booking_durable_witness:
  "live_booking 60000000 (snd (mock_cleanup 50000000 10 demo_booked_store)) ''watch:w1'' =
     Some (mb_confirmation (snd (hd (ms_bookings demo_booked_store))))"
proof -
  have live: "live_booking 60000000 demo_booked_store ''watch:w1'' =
      Some (mb_confirmation (snd (hd (ms_bookings demo_booked_store))))" by code_simp
  have run: "mock_run (\<lambda>s. 0) demo_uuid 0 demo_booked_store 50000000
      (snd (mock_cleanup 50000000 10 demo_booked_store))"
    by (rule mock_more [OF mock_idle _ mock_clean]) simp
  show ?thesis by (rule mock_booking_durable [OF run demo_booked_store_ok _ live]) simp
qed

text \<open>
  After a cleanup another key asks for the sold slot and is refused, so the store has one holder of it.
\<close>

definition demo_contended :: mock_store where
  "demo_contended =
     snd (mock_book ''s1'' ''watch:w2'' (confirmation_factory demo_uuid ''watch:w2'' 50000000) 50000000
       (snd (mock_cleanup 50000000 10 demo_booked_store)))"

lemma demo_contended_run: "mock_run (\<lambda>s. 0) demo_uuid 0 demo_booked_store 50000000 demo_contended"
  unfolding demo_contended_def by (rule mock_more [OF mock_more [OF mock_idle _ mock_clean] _ mock_booking]) simp_all

theorem slot_never_sold_twice_witness:
  "\<not> (\<exists>key c. live_booking 60000000 demo_contended key = Some c \<and> slot_id (bk_slot c) = ''s1'' \<and>
          key \<noteq> ''watch:w1'') \<and>
   live_booking 60000000 demo_contended ''watch:w1'' \<noteq> None"
proof -
  have live: "live_booking 60000000 demo_contended ''watch:w1'' =
      Some (mb_confirmation (snd (hd (ms_bookings demo_booked_store))))"
    and slot: "slot_id (bk_slot (mb_confirmation (snd (hd (ms_bookings demo_booked_store))))) = ''s1''"
    by code_simp+
  have "key = ''watch:w1''"
    if c: "live_booking 60000000 demo_contended key = Some c" "slot_id (bk_slot c) = ''s1''" for key c
    by (rule slot_never_sold_twice [OF demo_contended_run demo_booked_store_ok _ c(1) live])
      (simp_all add: c(2) slot)
  then show ?thesis unfolding live by blast
qed

end
