(* ===== verification/Deployment.thy ===== *)
theory Deployment
  imports Service_Polls Mock_Properties Scenario
begin

text \<open>
  A deployment on the mock provider: what the other workers, requests and cleanups may do at an await
  is a script of moves, every one a method of the shared watch store or of the shared mock state. The
  environments built from scripts satisfy the assumptions of \<open>watch_service\<close>, so its lemmas hold of
  the modelled program (interpretation \<open>scripted\<close>).
\<close>

section \<open>Moves of the others\<close>

datatype move =
  Clock_advances nat
| Creates watch watch_runtime
| Claims string string string seconds bool
| Begins_booking window_claim
| Commits window_claim watch watch_runtime
| Cancels string
| Expires string "int option" bool
| Releases window_claim
| Cleans_up int
| Prunes string bool
| Claims_dispatch schedule_marker string seconds
| Marks_dispatched dispatch_claim time
| Releases_dispatch dispatch_claim
| Searches availability_query "string list" string
| Releases_pins string
| Books string string
| Cleans_mock int

type_synonym shared = "time \<times> watch_repo \<times> mock_store"

fun apply_move ::
  "(string \<Rightarrow> string) \<Rightarrow> (string \<Rightarrow> nat) \<Rightarrow> (string \<Rightarrow> string) \<Rightarrow> move \<Rightarrow> shared \<Rightarrow> shared" where
  "apply_move sha digest0 uuid5_hex (Clock_advances n) (t, r, m) = (t + int n, r, m)"
| "apply_move sha digest0 uuid5_hex (Creates w rt) (t, r, m) =
     (t, if watch_valid w \<and> w_status w = ACTIVE \<and> 0 \<le> revision rt \<and> dated rt
         then snd (create_with_schedule w rt r) else r, m)"
| "apply_move sha digest0 uuid5_hex (Claims wid win own secs ign) (t, r, m) =
     (t, snd (claim_window t wid win own secs ign r), m)"
| "apply_move sha digest0 uuid5_hex (Begins_booking cl) (t, r, m) = (t, snd (begin_booking t cl r), m)"
| "apply_move sha digest0 uuid5_hex (Commits cl w rt) (t, r, m) =
     (t, if watch_valid w \<and> watch_id w = watch_id (wc_watch cl) \<and> (w_status w = ACTIVE \<longrightarrow> dated rt)
         then snd (commit_window sha t cl w rt r) else r, m)"
| "apply_move sha digest0 uuid5_hex (Cancels wid) (t, r, m) = (t, snd (cancel_if_active t wid r), m)"
| "apply_move sha digest0 uuid5_hex (Expires wid n force) (t, r, m) =
     (t, snd (expire_if_eligible sha t wid n force r), m)"
| "apply_move sha digest0 uuid5_hex (Releases cl) (t, r, m) = (t, snd (release_claim cl r), m)"
| "apply_move sha digest0 uuid5_hex (Cleans_up batch) (t, r, m) = (t, snd (cleanup_due t batch r), m)"
| "apply_move sha digest0 uuid5_hex (Prunes wid from_all) (t, r, m) =
     (t, prune_index_member wid from_all r, m)"
| "apply_move sha digest0 uuid5_hex (Claims_dispatch mk own secs) (t, r, m) =
     (t, snd (claim_dispatch t mk own secs r), m)"
| "apply_move sha digest0 uuid5_hex (Marks_dispatched dcl until_t) (t, r, m) =
     (t, snd (mark_dispatched dcl until_t r), m)"
| "apply_move sha digest0 uuid5_hex (Releases_dispatch dcl) (t, r, m) =
     (t, snd (release_dispatch dcl r), m)"
| "apply_move sha digest0 uuid5_hex (Searches q un op) (t, r, m) =
     (t, r, if query_valid q then snd (publish_and_filter (generate digest0 uuid5_hex un q) op t m) else m)"
| "apply_move sha digest0 uuid5_hex (Releases_pins op) (t, r, m) = (t, r, release_operation op m)"
| "apply_move sha digest0 uuid5_hex (Books k key) (t, r, m) =
     (t, r, snd (mock_book k key (confirmation_factory uuid5_hex key t) t m))"
| "apply_move sha digest0 uuid5_hex (Cleans_mock batch) (t, r, m) = (t, r, snd (mock_cleanup t batch m))"

lemma mock_step_ok:
  assumes "mock_step digest0 uuid5_hex now m m'" and "mock_adapter_ok uuid5_hex m"
  shows "mock_adapter_ok uuid5_hex m'"
proof -
  have ok: "mock_ok m" and uuid: "\<And>s. length (uuid5_hex s) = 32"
    using assms(2) by (simp_all add: mock_adapter_ok_def)
  from assms(1) have "mock_ok m'"
  proof cases
    case (mock_publish q un op)
    obtain slots m1 where p: "publish_and_filter (generate digest0 uuid5_hex un q) op now m = (slots, m1)"
      by fastforce
    have "list_all slot_valid (generate digest0 uuid5_hex un q)"
      using mock_publish(2) uuid by (rule generated_valid)
    note f = publish_and_filter_ok [OF mock_ok_slots [OF ok] this p]
    from mock_ok_same [OF ok f(2,1)] show ?thesis by (simp add: mock_publish(1) p)
  next
    case (mock_release op)
    from mock_ok_same [OF ok, of "release_operation op m"] mock_ok_slots [OF ok]
    show ?thesis by (simp add: mock_release)
  next
    case (mock_booking k key)
    with mock_book_ok [OF ok, of "confirmation_factory uuid5_hex key now" k key now]
      confirmation_factory_valid uuid
    show ?thesis by simp
  next
    case (mock_clean batch)
    with mock_cleanup_ok [OF ok] show ?thesis by simp
  qed
  with uuid show ?thesis by (simp add: mock_adapter_ok_def)
qed

text \<open>Every move is a step of the store or of the mock state, and time does not run backwards.\<close>

lemma apply_move_fair:
  assumes "apply_move sha digest0 uuid5_hex mv (t, r, m) = (t', r', m')" and "mock_adapter_ok uuid5_hex m"
  shows "t \<le> t' \<and> store_history sha r r' \<and> mock_adapter_ok uuid5_hex m'"
proof (cases mv)
  case (Searches q un op)
  with assms mock_step_ok [OF mock_publish [of q digest0 uuid5_hex t m un op]] show ?thesis by auto
next
  case (Releases_pins op)
  with assms mock_step_ok [OF mock_release [of digest0 uuid5_hex t m op]] show ?thesis by auto
next
  case (Books k key)
  with assms mock_step_ok [OF mock_booking [of digest0 uuid5_hex t m k key]] show ?thesis by auto
next
  case (Cleans_mock batch)
  with assms mock_step_ok [OF mock_clean [of digest0 uuid5_hex t m batch]] show ?thesis by auto
qed (use assms in \<open>auto intro: store_history_step [OF step_create] store_history_step [OF step_claim]
    store_history_step [OF step_begin] store_history_step [OF step_commit]
    store_history_step [OF step_cancel] store_history_step [OF step_expire]
    store_history_step [OF step_release] store_history_step [OF step_cleanup]
    store_history_step [OF step_prune] store_history_step [OF step_claim_dispatch]
    store_history_step [OF step_mark_dispatched] store_history_step [OF step_release_dispatch]\<close>)

lemma apply_moves_fair:
  "fold (apply_move sha digest0 uuid5_hex) mvs (t, r, m) = (t', r', m') \<Longrightarrow> mock_adapter_ok uuid5_hex m \<Longrightarrow>
   t \<le> t' \<and> store_history sha r r' \<and> mock_adapter_ok uuid5_hex m'"
proof (induction mvs arbitrary: t r m)
  case (Cons mv mvs)
  obtain t1 r1 m1 where one: "apply_move sha digest0 uuid5_hex mv (t, r, m) = (t1, r1, m1)"
    by (metis prod_cases3)
  from apply_move_fair [OF this Cons.prems(2)] Cons.IH [of t1 r1 m1] Cons.prems one
  show ?case by (auto intro: store_history_trans)
qed simp

section \<open>Scripted environments\<close>

text \<open>\<^verbatim>\<open>random.uniform(-j, j)\<close> on an arbitrary raw draw.\<close>

definition clamp_draw :: "poll_schedule \<Rightarrow> seconds \<Rightarrow> seconds" where
  "clamp_draw s x = max (- jitter_seconds s) (min x (jitter_seconds s))"

lemma clamp_draw_ok: "0 \<le> jitter_seconds s \<Longrightarrow> jitter_draw s (clamp_draw s x)"
  by (auto simp: jitter_draw_def clamp_draw_def)

definition scripted_env ::
  "mock_store env \<Rightarrow> (string \<Rightarrow> nat) \<Rightarrow> (string \<Rightarrow> string) \<Rightarrow> (time \<Rightarrow> string) \<Rightarrow> string list \<Rightarrow>
   poll_schedule \<Rightarrow> (nat \<Rightarrow> move list) \<Rightarrow> mock_store env" where
  "scripted_env e digest0 uuid5_hex fresh unavailable sched script =
     e\<lparr>others := (\<lambda>n. fold (apply_move (sha1hex e) digest0 uuid5_hex) (script n)),
       provider := mock_adapter digest0 uuid5_hex fresh unavailable,
       uniform := (\<lambda>n. clamp_draw sched (uniform e n))\<rparr>"

text \<open>The defaults of \<^verbatim>\<open>backend/config.py\<close>: 180 s between checks, 30 s of jitter, an hour of backoff.\<close>

definition default_schedule :: poll_schedule where
  "default_schedule = \<lparr>interval_seconds = 180, jitter_seconds = 30\<rparr>"

definition default_service :: service_config where
  "default_service = make_service default_schedule 25000 3600 True"

lemma default_service_simps [simp]:
  "schedule default_service = default_schedule" "backoff_max_seconds default_service = 3600"
  "interval_seconds default_schedule = 180" "jitter_seconds default_schedule = 30"
  by (simp_all add: default_service_def make_service_def default_schedule_def)

interpretation scripted: watch_service
    "scripted_env e digest0 uuid5_hex fresh unavailable default_schedule script"
    "mock_adapter_ok uuid5_hex" live_booking default_service
  for e :: "mock_store env" and digest0 :: "string \<Rightarrow> nat" and uuid5_hex :: "string \<Rightarrow> string"
    and fresh :: "time \<Rightarrow> string" and unavailable :: "string list" and script :: "nat \<Rightarrow> move list"
proof (intro watch_service.intro watch_service_axioms.intro)
  let ?e = "scripted_env e digest0 uuid5_hex fresh unavailable default_schedule script"
  show "reservation_adapter (provider ?e) (mock_adapter_ok uuid5_hex) live_booking"
    using mock.reservation_adapter_axioms by (simp add: scripted_env_def)
  show "t \<le> t' \<and> store_history (sha1hex ?e) r r' \<and> mock_adapter_ok uuid5_hex p'"
    if "others ?e n (t, r, p) = (t', r', p')" "repo_ok r" "mock_adapter_ok uuid5_hex p" for n t r p t' r' p'
    using that apply_moves_fair [of "sha1hex e" digest0 uuid5_hex "script n" t r p t' r' p']
    by (simp add: scripted_env_def)
  show "jitter_draw (schedule default_service) (uniform ?e n)" for n
    using clamp_draw_ok [of default_schedule] by (simp add: scripted_env_def)
  show "schedule_valid (schedule default_service)" by (simp add: schedule_valid_def)
  show "MIN_DELAY_SECONDS \<le> backoff_max_seconds default_service" by (simp add: MIN_DELAY_SECONDS_def)
qed

end
