(* ===== verification/Service_Properties.thy ===== *)
theory Service_Properties
  imports Deployment
begin

text \<open>
  What the watch service promises: safe and timely polls under any interference, one attempt per miss
  and none per outage, a capped exponential backoff, and creation behind a durable first marker.
\<close>

section \<open>A concrete deployment\<close>

text \<open>One worker polls the watch of \<open>Scenario\<close> while others let time pass and search the provider.\<close>

definition demo_env :: "mock_store env" where
  "demo_env = \<lparr>others = (\<lambda>_ s. s), deadline = (\<lambda>_. Runs), fault = (\<lambda>_. Runs),
     provider = mock_adapter (\<lambda>_. 0) demo_uuid (\<lambda>_. ''op'') [], sha1hex = id, uniform = (\<lambda>_. 0),
     uuid4_hex = (\<lambda>_. ''u''), record_fails = (\<lambda>_. False), publish_fails = (\<lambda>_. False),
     local_date = (\<lambda>_. Date 2026 1 1), local_midnight = (\<lambda>_. 500000000)\<rparr>"

definition demo_deployment :: "string list \<Rightarrow> (nat \<Rightarrow> cut) \<Rightarrow> mock_store env" where
  "demo_deployment unavailable cuts =
     scripted_env (demo_env\<lparr>deadline := cuts\<rparr>) (\<lambda>_. 0) demo_uuid (\<lambda>_. ''op'') unavailable default_schedule
       (\<lambda>n. if n = 1 then [Clock_advances 5, Releases_pins ''other''] else [])"

definition demo_world :: "time \<Rightarrow> watch_repo \<Rightarrow> mock_store \<Rightarrow> mock_store world" where
  "demo_world now r m = \<lparr>w_now = now, w_repo = r, w_provider = m, w_awaits = 0, history_calls = [],
     notified = [], published = []\<rparr>"

definition demo_quiet_store :: mock_store where
  "demo_quiet_store = empty_mock_store 10 60 3600 120"

lemma demo_quiet_ok: "mock_adapter_ok demo_uuid demo_quiet_store"
  using mock_ok_empty timedelta_seconds_of_int [of 3600]
  by (simp add: mock_adapter_ok_def demo_uuid_def demo_quiet_store_def)

lemma demo_deployment_service:
  "watch_service (demo_deployment un cuts) (mock_adapter_ok demo_uuid) live_booking default_service"
  unfolding demo_deployment_def by (rule scripted.watch_service_axioms)

lemma demo_good:
  "repo_ok r \<Longrightarrow> mock_adapter_ok demo_uuid m \<Longrightarrow> good (mock_adapter_ok demo_uuid) (demo_world now r m)"
  by (simp add: good_def demo_world_def)

section \<open>Safety of a poll\<close>


text \<open>The commit of a booked watch is stored, but its answer is lost: the poll raises.\<close>

definition demo_faulty :: "(nat \<Rightarrow> cut) \<Rightarrow> mock_store env" where
  "demo_faulty faults =
     scripted_env (demo_env\<lparr>fault := faults\<rparr>) (\<lambda>_. 0) demo_uuid (\<lambda>_. ''op'') [] default_schedule (\<lambda>_. [])"

definition demo_lost_commit :: "(service_error + poll_result) \<times> mock_store world" where
  "demo_lost_commit = poll_window (demo_faulty (\<lambda>n. if n = 2 then Cut_after else Runs)) default_service
     ''w1'' ''w1:0'' None True (demo_world 1000000 demo_repo demo_booked_store)"


text \<open>
  A reported retry is a promise kept: exactly when a poll reports a retry it published one
  successor, at least a second away and due no later than the watch expires, and the stored document
  carries that due time.
\<close>

theorem retry_is_timely:
  assumes "watch_service e ok live cfg" and "good ok s"
    and "poll_window e cfg wid win owner due s = (Inr pr, s')"
  shows "rescheduled s s' pr"
  using watch_service.answered_poll_window [OF assms(1,2), of wid win owner due]
  by (simp add: assms(3) answered_def)

text \<open>The poll of the unavailable venue: one miss, one successor window.\<close>

definition demo_missed ::
  "(service_error + poll_result) \<times> mock_store world" where
  "demo_missed = poll_window (demo_deployment [''babel''] (\<lambda>_. Runs)) default_service ''w1'' ''w1:0'' None True
     (demo_world 1000000 demo_repo demo_quiet_store)"

theorem retry_is_timely_witness:
  "\<exists>pr. fst demo_missed = Inr pr \<and>
     rescheduled (demo_world 1000000 demo_repo demo_quiet_store) (snd demo_missed) pr"
proof -
  have "\<not> isl (fst demo_missed)" by code_simp
  then obtain pr s' where run: "demo_missed = (Inr pr, s')" by (metis prod.collapse sum.collapse(2))
  from retry_is_timely [OF demo_deployment_service demo_good [OF demo_repo_ok demo_quiet_ok]
      run [unfolded demo_missed_def]]
  show ?thesis unfolding run by simp
qed

section \<open>Attempts\<close>

lemma commit_and_record_committed:
  assumes "commit_and_record e cfg cl w rt s = (Inr res, s1)" and "cm_status res = Commit_COMMITTED"
  shows "cm_watch res = Some w"
proof -
  let ?f = "\<lambda>now. commit_window (sha1hex e) now cl w rt"
  obtain out s2 where run: "call_repo e ?f s = (out, s2)" by fastforce
  with assms have "out = Inr res" by (cases out) (auto simp: commit_and_record_def split: if_splits)
  from call_repo_answer [OF run [unfolded this]] committed_result(1) assms(2) show ?thesis
    by (metis fst_conv)
qed

definition reports :: "(service_error + poll_result) \<times> 'p world \<Rightarrow> poll_outcome \<Rightarrow> watch \<Rightarrow> bool" where
  "reports out oc w \<longleftrightarrow> (\<exists>pr. fst out = Inr pr \<and> pr_outcome pr = oc \<and> pr_watch pr = Some w)"

lemma commit_terminal_reports:
  assumes "reports (commit_terminal e cfg cl nw s) oc w" and "oc \<noteq> Outcome_ALREADY_FINISHED"
  shows "w = nw"
  using assms
  by (auto simp: commit_terminal_def Let_def reports_def noop_result_def commit_and_record_committed
      proceed_def answer_noop_def split: prod.splits sum.splits if_splits option.splits)

lemma commit_successor_reports:
  assumes "reports (commit_successor e cfg cl nw rt d due s) oc w" and "oc \<noteq> Outcome_ALREADY_FINISHED"
  shows "w = nw"
  using assms
  by (auto simp: commit_successor_def Let_def reports_def noop_result_def commit_and_record_committed
      proceed_def answer_noop_def split: prod.splits sum.splits if_splits option.splits)

definition counted :: "poll_result \<Rightarrow> bool" where
  "counted pr \<longleftrightarrow> pr_outcome pr = Outcome_NO_AVAILABILITY \<or> pr_outcome pr = Outcome_EXPIRED"

lemma reports_counted:
  "out = (Inr pr, s) \<Longrightarrow> counted pr \<Longrightarrow> pr_watch pr = Some w \<Longrightarrow>
   reports out (pr_outcome pr) w \<and> pr_outcome pr \<noteq> Outcome_ALREADY_FINISHED"
  by (auto simp: reports_def counted_def)

lemma commit_outage_attempts:
  assumes "reports (commit_outage e cfg cl w0 now err s) oc w" and "oc \<noteq> Outcome_ALREADY_FINISHED"
  shows "attempts w = attempts w0"
proof (cases "saturating_outages cfg (consecutive_outages (wc_runtime cl) + 1)")
  case None
  with assms(1) show ?thesis by (simp add: commit_outage_def reports_def)
next
  case (Some n)
  show ?thesis
  proof (cases "outage_delay cfg n now w0 (uniform e (w_awaits s))")
    case (Inl err)
    with Some assms(1) show ?thesis by (simp add: commit_outage_def reports_def)
  next
    case (Inr answer)
    with Some assms show ?thesis
      by (cases answer)
         (auto simp: commit_outage_def expired_watch_def Let_def
           dest!: commit_terminal_reports commit_successor_reports)
  qed
qed

lemma commit_miss_attempts:
  assumes "reports (commit_miss e cfg cl w0 now err s) oc w" and "oc \<noteq> Outcome_ALREADY_FINISHED"
  shows "attempts w = min (attempts w0 + 1) (max_attempts w0)"
proof (cases "max_attempts w0 \<le> min (attempts w0 + 1) (max_attempts w0) \<or>
    min (next_delay (schedule cfg) (uniform e (w_awaits s))) (total_seconds (w_expires_at w0 - now))
      < MIN_DELAY_SECONDS")
  case True
  from assms(1) have "reports (commit_terminal e cfg cl (expired_watch (w0\<lparr>
      attempts := min (attempts w0 + 1) (max_attempts w0), last_checked_at := Some now,
      updated_at := now, last_error := err\<rparr>) now True) s) oc w"
    unfolding commit_miss_def Let_def if_P [OF True] .
  from commit_terminal_reports [OF this assms(2)] show ?thesis by (simp add: expired_watch_def)
next
  case False
  from commit_successor_reports [OF assms(1) [unfolded commit_miss_def Let_def if_not_P [OF False]] assms(2)]
  show ?thesis by simp
qed

text \<open>
  An outage spends no attempt: when the provider times out or fails during a poll, the document
  the poll stores, whether it is rescheduled or expires, has exactly the attempts it had before.
\<close>

theorem outage_spends_no_attempt:
  assumes "provider_sequence e cl (wc_watch cl) s = (Inl ex, s1)"
    and "ex = Timed_out \<or> ex = Raised (Adapter_Error msg)"
    and "run_claimed e cfg cl s = (Inr pr, s')" and "counted pr" and "pr_watch pr = Some w"
  shows "attempts w = attempts (wc_watch cl)"
proof -
  note rep = reports_counted [OF assms(3,4,5)]
  let ?exp = "commit_terminal e cfg cl (expired_watch (wc_watch cl) (w_now s) False) s"
  have "run_claimed e cfg cl s = ?exp \<or>
      (\<exists>err. run_claimed e cfg cl s = commit_outage e cfg cl (wc_watch cl) (w_now s) err s1)"
  proof (cases "w_expires_at (wc_watch cl) \<le> w_now s \<or> max_attempts (wc_watch cl) \<le> attempts (wc_watch cl)")
    case True
    then show ?thesis by (simp add: run_claimed_def Let_def)
  next
    case False
    from assms(2) show ?thesis
      by (rule disjE; intro disjI2 exI) (simp add: run_claimed_def Let_def assms(1) if_not_P [OF False])+
  qed
  then consider "run_claimed e cfg cl s = ?exp"
    | err where "run_claimed e cfg cl s = commit_outage e cfg cl (wc_watch cl) (w_now s) err s1"
    by blast
  then show ?thesis
  proof cases
    case 1
    with rep have "w = expired_watch (wc_watch cl) (w_now s) False"
      using commit_terminal_reports by metis
    then show ?thesis by (simp add: expired_watch_def)
  next
    case 2
    with rep show ?thesis using commit_outage_attempts by metis
  qed
qed

text \<open>
  A miss spends exactly one attempt, and never more than the budget: when a poll finds nothing, or
  every slot it found was gone, the stored document counts one more check.
\<close>

theorem miss_spends_one_attempt:
  assumes "provider_sequence e cl (wc_watch cl) s = (res, s1)"
    and "res = Inr Seq_MISS \<or> res = Inl (Raised (Slot_Unavailable msg)) \<or> res = Inl (Raised (Slot_Not_Found msg))"
    and "w_now s < w_expires_at (wc_watch cl)" and "attempts (wc_watch cl) < max_attempts (wc_watch cl)"
    and "run_claimed e cfg cl s = (Inr pr, s')" and "counted pr" and "pr_watch pr = Some w"
  shows "attempts w = attempts (wc_watch cl) + 1 \<and> attempts w \<le> max_attempts (wc_watch cl)"
proof -
  note rep = reports_counted [OF assms(5,6,7)]
  have "run_claimed e cfg cl s = commit_miss e cfg cl (wc_watch cl) (w_now s) None s1"
    using assms(1-4) by (auto simp: run_claimed_def Let_def)
  with rep have "attempts w = min (attempts (wc_watch cl) + 1) (max_attempts (wc_watch cl))"
    using commit_miss_attempts by metis
  with assms(4) show ?thesis by simp
qed

definition demo_claimed :: window_claim where
  "demo_claimed = demo_claim ''b'' 2 130000000"

definition demo_run :: "string list \<Rightarrow> (nat \<Rightarrow> cut) \<Rightarrow> (service_error + poll_result) \<times> mock_store world" where
  "demo_run un cuts =
     run_claimed (demo_deployment un cuts) default_service demo_claimed
       (demo_world 71000000 demo_repo_b demo_quiet_store)"

lemma demo_run_answers:
  assumes "\<not> isl (fst (demo_run un cuts))" and "pr_watch (projr (fst (demo_run un cuts))) \<noteq> None"
  shows "run_claimed (demo_deployment un cuts) default_service demo_claimed
       (demo_world 71000000 demo_repo_b demo_quiet_store) =
      (Inr (projr (fst (demo_run un cuts))), snd (demo_run un cuts))"
    and "pr_watch (projr (fst (demo_run un cuts))) = Some (the (pr_watch (projr (fst (demo_run un cuts)))))"
  using assms by (auto simp: demo_run_def prod_eq_iff)

theorem outage_spends_no_attempt_witness:
  "attempts (the (pr_watch (projr (fst (demo_run [] (\<lambda>_. Cut_before)))))) = 0"
proof -
  let ?s = "demo_world 71000000 demo_repo_b demo_quiet_store" and ?e = "demo_deployment [] (\<lambda>_. Cut_before)"
  have seq: "provider_sequence ?e demo_claimed (wc_watch demo_claimed) ?s =
      (Inl Timed_out, snd (provider_sequence ?e demo_claimed (wc_watch demo_claimed) ?s))"
    by (rule prod_eqI) (code_simp, simp)
  have ends: "\<not> isl (fst (demo_run [] (\<lambda>_. Cut_before)))" by code_simp
  have doc: "pr_watch (projr (fst (demo_run [] (\<lambda>_. Cut_before)))) \<noteq> None" by code_simp
  have counts: "counted (projr (fst (demo_run [] (\<lambda>_. Cut_before))))" by code_simp
  from outage_spends_no_attempt [OF seq _ demo_run_answers(1) [OF ends doc] counts
      demo_run_answers(2) [OF ends doc]]
  show ?thesis by (simp add: demo_claimed_def demo_claim_def)
qed

theorem miss_spends_one_attempt_witness:
  "attempts (the (pr_watch (projr (fst (demo_run [''babel''] (\<lambda>_. Runs)))))) = 1"
proof -
  let ?un = "[''babel'']"
  let ?s = "demo_world 71000000 demo_repo_b demo_quiet_store" and ?e = "demo_deployment ?un (\<lambda>_. Runs)"
  have seq: "provider_sequence ?e demo_claimed (wc_watch demo_claimed) ?s =
      (Inr Seq_MISS, snd (provider_sequence ?e demo_claimed (wc_watch demo_claimed) ?s))"
    by (rule prod_eqI) (code_simp, simp)
  have ends: "\<not> isl (fst (demo_run ?un (\<lambda>_. Runs)))" by code_simp
  have doc: "pr_watch (projr (fst (demo_run ?un (\<lambda>_. Runs)))) \<noteq> None" by code_simp
  have counts: "counted (projr (fst (demo_run ?un (\<lambda>_. Runs))))" by code_simp
  from miss_spends_one_attempt [OF seq _ _ _ demo_run_answers(1) [OF ends doc] counts
      demo_run_answers(2) [OF ends doc]]
  show ?thesis by (simp add: demo_claimed_def demo_claim_def demo_watch_def demo_world_def)
qed

section \<open>Backoff\<close>

text \<open>
  The loop that finds the saturation exponent ends for every positive interval, and with the least
  exponent whose doubled interval reaches the maximum.
\<close>

theorem exponent_loop_ends:
  assumes "0 < interval"
  shows "\<exists>k. exponent_limit interval maximum = Some k \<and> maximum \<le> interval * 2 ^ k \<and>
    (\<forall>j. maximum \<le> interval * 2 ^ j \<longrightarrow> k \<le> j)"
proof -
  obtain k where k: "exponent_limit interval maximum = Some k"
    using exponent_limit_terminates [OF assms] by blast
  from exponent_limit_least [OF this] show ?thesis
    by (intro exI [of _ k]) (auto simp: k not_less [symmetric])
qed

theorem exponent_loop_ends_witness:
  "\<exists>k. exponent_limit 180 3600 = Some k \<and> 3600 \<le> (180 :: seconds) * 2 ^ k"
  using exponent_loop_ends [of 180 3600] by auto

text \<open>The backoff as the design states it: the interval doubled per outage, capped.\<close>

definition capped_exponential :: "seconds \<Rightarrow> seconds \<Rightarrow> nat \<Rightarrow> seconds" where
  "capped_exponential interval maximum n = min (interval * 2 ^ n) maximum"

lemma capped_exponential_saturates:
  assumes "0 < interval" and "maximum \<le> interval * 2 ^ k" and "k \<le> n"
  shows "capped_exponential interval maximum n = maximum"
proof -
  have "(2 :: rat) ^ k \<le> 2 ^ n" using assms(3) by simp
  then have "interval * 2 ^ k \<le> interval * 2 ^ n" using assms(1) by simp
  with assms(2) show ?thesis by (simp add: capped_exponential_def)
qed

text \<open>
  C32. The backoff is the capped exponential: although the code never raises the interval to a power
  beyond its precomputed limit and stores a saturated outage count, the delay it computes for the
  n-th outage in a row is the uncapped formula's, jittered, kept within the floor and the maximum,
  and cut at the watch's remaining lifetime.
\<close>

theorem backoff_is_capped_exponential:
  assumes "0 < interval_seconds (schedule cfg)" and "1 \<le> n" and "saturating_outages cfg n = Some n'"
  shows "outage_delay cfg n' now w draw = Inr
    (let delay = min (max (capped_exponential (interval_seconds (schedule cfg)) (backoff_max_seconds cfg)
                              (nat (n - 1)) + draw) MIN_DELAY_SECONDS) (backoff_max_seconds cfg);
         remaining = total_seconds (w_expires_at w - now)
     in if remaining < MIN_DELAY_SECONDS then None else Some (min delay remaining))"
proof -
  let ?i = "interval_seconds (schedule cfg)" and ?m = "backoff_max_seconds cfg"
  obtain k where k: "exponent_limit ?i ?m = Some k" using exponent_limit_terminates [OF assms(1)] by blast
  note least = exponent_limit_least [OF k]
  have n': "n' = min n (int k + 1)" using assms(3) k by (simp add: saturating_outages_def)
  have "(if int k \<le> n' - 1 then ?m else ?i * 2 ^ nat (n' - 1)) = capped_exponential ?i ?m (nat (n - 1))"
  proof (cases "int k \<le> n - 1")
    case True
    then have "k \<le> nat (n - 1)" by linarith
    with least capped_exponential_saturates [OF assms(1), of ?m k "nat (n - 1)"] True n'
    show ?thesis by simp
  next
    case False
    with assms(2) have "nat (n - 1) < k" by linarith
    with least have "?i * 2 ^ nat (n - 1) < ?m" by blast
    with False n' show ?thesis by (simp add: capped_exponential_def)
  qed
  then show ?thesis by (simp add: outage_delay_def k Let_def)
qed

theorem backoff_is_capped_exponential_witness:
  "\<exists>n'. saturating_outages default_service 40 = Some n' \<and>
     outage_delay default_service n' 0 demo_watch 7 = Inr (Some 900)"
proof -
  have sat: "saturating_outages default_service 40 = Some 6" by code_simp
  have arith: "total_seconds (w_expires_at demo_watch - 0) = 900" by code_simp
  from backoff_is_capped_exponential [OF _ _ sat, of 0 demo_watch 7] arith
  have "outage_delay default_service 6 0 demo_watch 7 = Inr (Some 900)"
    by (simp add: capped_exponential_def MIN_DELAY_SECONDS_def Let_def)
  with sat show ?thesis by simp
qed

section \<open>A recorded cancellation\<close>

text \<open>
  Where the code departs from its design: a cancellation recorded while a booking is in flight is
  forgotten by the commit that reschedules the poll after an outage or a miss. The stored sidecar no
  longer carries the request and the watch stays active.
\<close>

theorem successor_forgets_cancellation:
  assumes "cm_status (fst (commit_window sha now cl w (successor_runtime cl w due n) r)) = Commit_COMMITTED"
    and "w_status w = ACTIVE"
  shows "(case get_runtime (watch_id (wc_watch cl))
               (snd (commit_window sha now cl w (successor_runtime cl w due n) r)) of
            None \<Rightarrow> False | Some rt \<Rightarrow> \<not> cancel_requested rt \<and> rt_phase rt = None) \<and>
    repo_get (watch_id (wc_watch cl)) (snd (commit_window sha now cl w (successor_runtime cl w due n) r)) = Some w"
proof (cases rule: commit_window_cases [of sha now cl w "successor_runtime cl w due n" r])
  case (refused st w')
  with assms(1) show ?thesis by simp
next
  case (committed rt)
  have "cell_of (snd (commit_window sha now cl w (successor_runtime cl w due n) r)) (watch_id (wc_watch cl)) =
      (cell_of (snd (commit_window sha now cl w (successor_runtime cl w due n) r)) (watch_id (wc_watch cl)))
        \<lparr>c_watch := Some w, c_runtime := Some (stored_runtime now w (successor_runtime cl w due n) rt r)\<rparr>"
    by (simp add: committed(5))
  then have "dict_get (watches (snd (commit_window sha now cl w (successor_runtime cl w due n) r)))
        (watch_id (wc_watch cl)) = Some w"
      "dict_get (runtimes (snd (commit_window sha now cl w (successor_runtime cl w due n) r)))
        (watch_id (wc_watch cl)) = Some (stored_runtime now w (successor_runtime cl w due n) rt r)"
    by (simp_all add: cell_of_def)
  then show ?thesis
    using assms(2)
    by (simp add: get_runtime_def repo_get_def stored_runtime_def successor_runtime_def Let_def is_terminal_def)
qed

text \<open>The second worker books, the owner cancels, and the provider then times out.\<close>

definition demo_repo_cancelling :: watch_repo where
  "demo_repo_cancelling =
     snd (cancel_if_active 72000000 ''w1'' (snd (begin_booking 71500000 demo_claimed demo_repo_b)))"

theorem successor_forgets_cancellation_witness:
  "(case get_runtime ''w1'' demo_repo_cancelling of None \<Rightarrow> False | Some rt \<Rightarrow> cancel_requested rt) \<and>
   (case get_runtime ''w1'' (snd (commit_window id 73000000 demo_claimed
        (demo_watch\<lparr>next_check_at := Some 251000000\<rparr>)
        (successor_runtime demo_claimed (demo_watch\<lparr>next_check_at := Some 251000000\<rparr>) 251000000 1)
        demo_repo_cancelling)) of
      None \<Rightarrow> False | Some rt \<Rightarrow> \<not> cancel_requested rt)"
proof -
  have "cm_status (fst (commit_window id 73000000 demo_claimed (demo_watch\<lparr>next_check_at := Some 251000000\<rparr>)
      (successor_runtime demo_claimed (demo_watch\<lparr>next_check_at := Some 251000000\<rparr>) 251000000 1)
      demo_repo_cancelling)) = Commit_COMMITTED" by code_simp
  from successor_forgets_cancellation [OF this]
  have "case get_runtime ''w1'' (snd (commit_window id 73000000 demo_claimed
        (demo_watch\<lparr>next_check_at := Some 251000000\<rparr>)
        (successor_runtime demo_claimed (demo_watch\<lparr>next_check_at := Some 251000000\<rparr>) 251000000 1)
        demo_repo_cancelling)) of
      None \<Rightarrow> False | Some rt \<Rightarrow> \<not> cancel_requested rt"
    by (simp add: demo_claimed_def demo_claim_def split: option.splits)
  moreover have "case get_runtime ''w1'' demo_repo_cancelling of None \<Rightarrow> False | Some rt \<Rightarrow> cancel_requested rt"
    by code_simp
  ultimately show ?thesis by simp
qed

end
