(* ===== verification/Service_Creation.thy ===== *)
theory Service_Creation
  imports Service_Properties
begin

text \<open>
  Creating a watch: what \<^verbatim>\<open>WatchService.create\<close> returns and leaves behind, on success and on every
  refusal, under any interference at its awaits.
\<close>

lemma prepare_watch_cases:
  assumes "prepare_watch e cfg q auto hex now = Inr (w, rt)"
  obtains d expires policy where "fromisoformat (q_date q) = Some d" "local_date e now \<le> d"
    "default_expiry (local_midnight e) q now = Inr expires"
    "derive (schedule cfg) now expires (cfg_max_attempts cfg) = Inr policy"
    "w = \<lparr>watch_id = ''watch_'' @ hex, w_status = ACTIVE, w_query = q, auto_book = auto,
       created_at = now, updated_at = now, w_expires_at = expires, attempts = 0,
       max_attempts = effective_attempts policy, last_checked_at = None, next_check_at = Some now,
       found_slots = [], w_booking = None, last_error = None\<rparr>"
    "watch_valid w"
    "initial_runtime w (pol_required_attempts policy) (supports_deadline policy) None = Inr rt"
proof -
  from assms obtain d where d: "fromisoformat (q_date q) = Some d" "\<not> d < local_date e now"
    by (auto simp: prepare_watch_def split: option.splits if_splits)
  from assms d obtain expires where x: "default_expiry (local_midnight e) q now = Inr expires"
    by (auto simp: prepare_watch_def split: sum.splits)
  from assms d x obtain policy where pol: "derive (schedule cfg) now expires (cfg_max_attempts cfg) = Inr policy"
    by (cases "derive (schedule cfg) now expires (cfg_max_attempts cfg)") (simp_all add: prepare_watch_def)
  let ?w = "\<lparr>watch_id = ''watch_'' @ hex, w_status = ACTIVE, w_query = q, auto_book = auto,
       created_at = now, updated_at = now, w_expires_at = expires, attempts = 0,
       max_attempts = effective_attempts policy, last_checked_at = None, next_check_at = Some now,
       found_slots = [], w_booking = None, last_error = None\<rparr>"
  have ok: "watch_valid ?w" by (rule ccontr) (use assms d x pol in \<open>simp add: prepare_watch_def Let_def\<close>)
  obtain rt' where rt': "initial_runtime ?w (pol_required_attempts policy) (supports_deadline policy) None = Inr rt'"
    by (cases "initial_runtime ?w (pol_required_attempts policy) (supports_deadline policy) None")
       (use assms d x pol ok in \<open>simp_all add: prepare_watch_def Let_def\<close>)
  have "w = ?w \<and> rt = rt'" using assms d x pol ok rt' by (simp add: prepare_watch_def Let_def)
  with that [OF d(1) _ x pol _ _, of] d(2) ok rt' show thesis by (simp add: not_less)
qed

lemma prepare_watch_facts:
  assumes "prepare_watch e cfg q auto hex now = Inr (w, rt)"
  shows "watch_valid w" and "w_status w = ACTIVE" and "watch_id w = ''watch_'' @ hex"
    and "revision rt = 0" and "rt_window_id rt = Some (window_id_for (watch_id w) 0)" and "dated rt"
proof -
  have "watch_valid w \<and> w_status w = ACTIVE \<and> watch_id w = ''watch_'' @ hex \<and>
      revision rt = 0 \<and> rt_window_id rt = Some (window_id_for (watch_id w) 0) \<and> dated rt"
    using assms
    by (cases rule: prepare_watch_cases)
      (auto simp: initial_runtime_def checked_runtime_def dated_def split: if_splits option.splits)
  then show "watch_valid w" "w_status w = ACTIVE" "watch_id w = ''watch_'' @ hex" "revision rt = 0"
    "rt_window_id rt = Some (window_id_for (watch_id w) 0)" "dated rt" by blast+
qed

lemma prepare_watch_raises: "prepare_watch e cfg q auto hex now = Inl err \<Longrightarrow> err \<noteq> Call_Failed"
  by (auto simp: prepare_watch_def Let_def split: option.splits sum.splits if_splits)

lemma record_owner_facts:
  assumes "record_owner e cfg w owner user s = (owned, s1)"
  shows "published s1 = published s" and "notified s1 = notified s"
    and "history_calls s1 = history_calls s \<or>
         history_calls s1 = history_calls s @ [\<lparr>hc_watch = w, hc_owner = owner, hc_user = user, hc_revision = 0\<rparr>]"
    and "user \<noteq> None \<Longrightarrow> owned \<Longrightarrow>
         history_calls s1 = history_calls s @ [\<lparr>hc_watch = w, hc_owner = owner, hc_user = user, hc_revision = 0\<rparr>]"
  using assms by (auto simp: record_owner_def record_history_def split: if_splits)

text \<open>At some point of the store's history from \<open>r\<close> to \<open>r'\<close> it held this very document.\<close>

definition came_to_hold :: "(string \<Rightarrow> string) \<Rightarrow> watch_repo \<Rightarrow> watch \<Rightarrow> watch_repo \<Rightarrow> bool" where
  "came_to_hold sha r w r' \<longleftrightarrow>
     (\<exists>r1. store_history sha r r1 \<and> repo_get (watch_id w) r1 = Some w \<and> store_history sha r1 r')"

text \<open>
  What a creation did: the document it returns was in the store, with one durable marker first, then
  one immediate publication of its window.
\<close>

definition created ::
  "'p env \<Rightarrow> ('p \<Rightarrow> bool) \<Rightarrow> 'p world \<Rightarrow> (service_error + watch) \<times> 'p world \<Rightarrow> bool" where
  "created e ok s out \<longleftrightarrow>
     leads e ok s (snd out) \<and> notified (snd out) = notified s \<and>
     (case fst out of
        Inl err \<Rightarrow> published (snd out) = published s \<and> (err = Call_Failed \<longrightarrow> broke e s (snd out))
      | Inr w \<Rightarrow> watch_valid w \<and> came_to_hold (sha1hex e) (w_repo s) w (w_repo (snd out)) \<and>
          published (snd out) = published s @
            [\<lparr>pub_watch_id = watch_id w, pub_window_id = Some (window_id_for (watch_id w) 0),
              pub_delay_seconds = 0, pub_due_at = Some (w_now s),
              pub_task_id = None\<rparr>])"

context watch_service
begin

lemma leads_record_owner:
  assumes "good ok s" and "record_owner e cfg w owner user s = (owned, s1)"
  shows "leads e ok s s1"
  using assms leads_record_history [OF assms(1), of w owner user 0]
  by (auto simp: record_owner_def split: if_splits)

lemma stored_document:
  assumes "repo_ok r" and "watch_valid w"
  shows "watch_valid (case crt_watch (fst (create_with_schedule w rt r)) of Some x \<Rightarrow> x | None \<Rightarrow> w) \<and>
    watch_id (case crt_watch (fst (create_with_schedule w rt r)) of Some x \<Rightarrow> x | None \<Rightarrow> w) = watch_id w"
proof (cases "dict_get (watches r) (watch_id w)")
  case None
  with assms show ?thesis by (simp add: create_with_schedule_def)
next
  case (Some old)
  have "cell_ok (watch_id w) (cell_of r (watch_id w))" using assms(1) by (simp add: repo_ok_def)
  with Some show ?thesis by (auto simp: create_with_schedule_def cell_ok_def)
qed

lemma create_stores:
  "\<exists>d. crt_watch (fst (create_with_schedule w rt r)) = Some d \<and>
     repo_get (watch_id w) (snd (create_with_schedule w rt r)) = Some d"
  by (cases "dict_get (watches r) (watch_id w)")
     (auto simp: create_with_schedule_def repo_get_def set_marker_def split: option.split)

lemma created_service_create:
  assumes good: "good ok s"
  shows "created e ok s (service_create e cfg q auto owner user s)"
proof (cases "prepare_watch e cfg q auto (uuid4_hex e (w_awaits s)) (w_now s)")
  case (Inl err)
  with good prepare_watch_raises [OF Inl] show ?thesis by (simp add: service_create_def created_def Let_def)
next
  case (Inr wr)
  obtain w rt where wr: "wr = (w, rt)" by fastforce
  note doc = prepare_watch_facts [OF Inr [unfolded wr]]
  obtain owned s1 where own: "record_owner e cfg w owner user s = (owned, s1)" by fastforce
  note own_facts = record_owner_facts [OF own]
  note lead1 = leads_record_owner [OF good own]
  show ?thesis
  proof (cases owned)
    case False
    with Inr wr own lead1 own_facts show ?thesis by (simp add: service_create_def created_def Let_def)
  next
    case True
    let ?f = "\<lambda>now :: time. create_with_schedule w rt"
    obtain out s2 where call: "call_repo e ?f s1 = (out, s2)" by fastforce
    have step: "called e ok (\<lambda>res. watch_valid (case crt_watch res of Some x \<Rightarrow> x | None \<Rightarrow> w) \<and>
        watch_id (case crt_watch res of Some x \<Rightarrow> x | None \<Rightarrow> w) = watch_id w) s1 (call_repo e ?f s1)"
    proof (rule called_repo [OF leads_good [OF lead1]])
      show "store_history (sha1hex e) r (snd (create_with_schedule w rt r))" for r
        by (rule store_history_step [OF step_create [OF doc(1,2) _ doc(6)]]) (simp add: doc(4))
    qed (rule stored_document [OF _ doc(1)])
    have lead2: "leads e ok s s2"
      using step leads_trans [OF lead1] by (simp add: called_def call)
    have logs: "notified s2 = notified s" "published s2 = published s"
      using step own_facts(1,2) by (simp_all add: called_def call)
    show ?thesis
    proof (cases out)
      case raised: (Inl err)
      have "err = Call_Failed \<and> broke e s1 s2" using step by (simp add: called_def call raised)
      with Inr wr own True call lead2 logs broke_trans [OF lead1] show ?thesis
        by (simp add: service_create_def created_def Let_def raised)
    next
      case answered: (Inr res)
      let ?stored = "case crt_watch res of Some x \<Rightarrow> x | None \<Rightarrow> w"
      have stored: "watch_valid ?stored \<and> watch_id ?stored = watch_id w"
        using step by (simp add: called_def call answered)
      let ?s3 = "if user = None then record_history e cfg ?stored owner None 0 s2 else s2"
      have lead3: "leads e ok s ?s3"
        using lead2 leads_trans [OF lead2 leads_record_history [OF leads_good [OF lead2]]] by simp
      have logs3: "notified ?s3 = notified s" "published ?s3 = published s" using logs by simp_all
      have in_store: "repo_get (watch_id ?stored) (w_repo s2) = Some ?stored"
        using create_stores [of w rt "w_repo (pause e s1)"] call_repo_answer [OF call [unfolded answered]] stored
        by auto
      have out: "service_create e cfg q auto owner user s =
          (Inr ?stored, dispatch_poll e (watch_id ?stored) (rt_window_id rt) 0 (w_now s) ?s3)"
        using Inr wr own True call by (simp add: service_create_def Let_def answered)
      have "leads e ok s (dispatch_poll e (watch_id ?stored) (rt_window_id rt) 0 (w_now s) ?s3)"
        by (rule leads_trans [OF lead3 leads_dispatch [OF leads_good [OF lead3]]])
      moreover have "leads e ok s2 (dispatch_poll e (watch_id ?stored) (rt_window_id rt) 0 (w_now s) ?s3)"
        using leads_trans [OF leads_record_history [OF leads_good [OF lead2]] leads_dispatch]
          leads_dispatch [OF leads_good [OF lead2]] leads_good [OF leads_record_history [OF leads_good [OF lead2]]]
        by simp
      with lead2 in_store have "came_to_hold (sha1hex e) (w_repo s) ?stored
          (w_repo (dispatch_poll e (watch_id ?stored) (rt_window_id rt) 0 (w_now s) ?s3))"
        unfolding came_to_hold_def leads_def by blast
      ultimately show ?thesis
        unfolding out using logs3 stored doc(5) by (simp add: created_def dispatch_poll_def)
    qed
  qed
qed

end

text \<open>
  Creation is durable before it is announced to the queue: whatever others do meanwhile, a
  successful creation returns a valid document that the store came to hold, changed the store only by
  its own methods, published
  exactly one immediate check of window 0 and told nobody; a refused one published nothing.
\<close>

theorem creation_is_durable:
  assumes "watch_service e ok live cfg" and "good ok s"
  shows "created e ok s (service_create e cfg q auto owner user s)"
  by (rule watch_service.created_service_create [OF assms])

theorem creation_is_durable_witness:
  "created (demo_deployment [] (\<lambda>_. Runs)) (mock_adapter_ok demo_uuid)
     (demo_world 1000000 demo_repo demo_quiet_store)
     (service_create (demo_deployment [] (\<lambda>_. Runs)) default_service demo_query True None (Some ''u1'')
       (demo_world 1000000 demo_repo demo_quiet_store))"
  by (rule creation_is_durable [OF demo_deployment_service demo_good [OF demo_repo_ok demo_quiet_ok]])

text \<open>
  An account's watch is never live without its access boundary: with a user, a creation that
  succeeds has recorded that user for the very document it stored before the store was touched, and
  without a working recorder it refuses and leaves the store to the others.
\<close>

theorem account_watch_is_owned:
  assumes "service_create e cfg q auto owner (Some user) s = (out, s')"
    and "prepare_watch e cfg q auto (uuid4_hex e (w_awaits s)) (w_now s) = Inr (w, rt)"
  shows "(out = Inl Ownership_Unavailable \<longleftrightarrow> \<not> has_history cfg \<or> record_fails e (w_awaits s)) \<and>
    (\<forall>stored. out = Inr stored \<longrightarrow>
       history_calls s' = history_calls s @
         [\<lparr>hc_watch = w, hc_owner = owner, hc_user = Some user, hc_revision = 0\<rparr>]) \<and>
    (\<not> has_history cfg \<longrightarrow> s' = s)"
proof -
  let ?s1 = "record_history e cfg w owner (Some user) 0 s"
  obtain answer s2 where call: "call_repo e (\<lambda>now. create_with_schedule w rt) ?s1 = (answer, s2)" by fastforce
  have logs: "history_calls s2 = history_calls ?s1" using call_repo_logs(3) [of e _ ?s1] by (metis call snd_conv)
  have only: "answer = Inl err \<Longrightarrow> err = Call_Failed" for err
    using call by (auto simp: call_repo_def await_call_def Let_def split: cut.splits prod.splits)
  show ?thesis
    using assms call logs only
    by (cases answer)
       (auto simp: service_create_def Let_def record_owner_def record_history_def dispatch_poll_def split: if_splits)
qed

definition demo_account_create :: "bool \<Rightarrow> (service_error + watch) \<times> mock_store world" where
  "demo_account_create hist =
     service_create (demo_deployment [] (\<lambda>_. Runs)) (default_service\<lparr>has_history := hist\<rparr>) demo_query True None
       (Some ''u1'') (demo_world 1000000 demo_repo demo_quiet_store)"

theorem account_watch_is_owned_witness:
  "fst (demo_account_create False) = Inl Ownership_Unavailable \<and>
   map hc_user (history_calls (snd (demo_account_create True))) = [Some ''u1'']"
proof -
  let ?e = "demo_deployment [] (\<lambda>_. Runs)" and ?s = "demo_world 1000000 demo_repo demo_quiet_store"
  let ?prep = "\<lambda>hist. prepare_watch ?e (default_service\<lparr>has_history := hist\<rparr>) demo_query True
      (uuid4_hex ?e (w_awaits ?s)) (w_now ?s)"
  have ready: "?prep hist = Inr (fst (projr (?prep hist)), snd (projr (?prep hist)))" for hist
    by (cases hist) code_simp+
  have out: "demo_account_create hist = (fst (demo_account_create hist), snd (demo_account_create hist))" for hist
    by simp
  have "\<not> isl (fst (demo_account_create True))" by code_simp
  then have "\<exists>stored. fst (demo_account_create True) = Inr stored" by (metis sum.collapse(2))
  moreover have "history_calls ?s = []" by (simp add: demo_world_def)
  ultimately show ?thesis
    using account_watch_is_owned [OF out [of False, unfolded demo_account_create_def] ready [of False]]
      account_watch_is_owned [OF out [of True, unfolded demo_account_create_def] ready [of True]]
    by (auto simp: demo_account_create_def)
qed

end
