(* ===== verification/Throttle_Limits.thy ===== *)
theory Throttle_Limits
  imports Throttle
begin

text \<open>
  The contract of a sliding-window limiter and the bound it gives, proved once in the locale
  \<open>window_limiter\<close> and interpreted on the in-process and on the Redis throttle.
\<close>

section \<open>Requests\<close>

datatype request = Consume seconds string string | Release seconds string string

fun request_time :: "request \<Rightarrow> seconds" where
  "request_time (Consume now key token) = now"
| "request_time (Release now key token) = now"

fun request_tokens :: "request \<Rightarrow> string list" where
  "request_tokens (Consume now key token) = [token]"
| "request_tokens (Release now key token) = []"

text \<open>
  Serving requests in order. The log holds what was admitted and not released: instant, key, token.
\<close>

type_synonym admissions = "(seconds \<times> string \<times> string) list"

definition serve_one ::
  "(seconds \<Rightarrow> string \<Rightarrow> string \<Rightarrow> 's \<Rightarrow> admission \<times> 's) \<Rightarrow>
   (seconds \<Rightarrow> string option \<Rightarrow> string \<Rightarrow> 's \<Rightarrow> 's) \<Rightarrow> request \<Rightarrow> 's \<times> admissions \<Rightarrow> 's \<times> admissions" where
  "serve_one consume release req st =
     (case (req, st) of
        (Consume now key token, s, lg) \<Rightarrow>
          (let (a, s') = consume now token key s
           in (s', case a of Admitted t \<Rightarrow> lg @ [(now, key, t)] | _ \<Rightarrow> lg))
      | (Release now key token, s, lg) \<Rightarrow>
          (release now (Some token) key s, filter (\<lambda>(_, k, t). \<not> (k = key \<and> t = token)) lg))"

definition serve ::
  "(seconds \<Rightarrow> string \<Rightarrow> string \<Rightarrow> 's \<Rightarrow> admission \<times> 's) \<Rightarrow>
   (seconds \<Rightarrow> string option \<Rightarrow> string \<Rightarrow> 's \<Rightarrow> 's) \<Rightarrow> request list \<Rightarrow> 's \<times> admissions \<Rightarrow> 's \<times> admissions" where
  "serve consume release reqs st = fold (serve_one consume release) reqs st"

text \<open>Admissions for one key inside the window that ends at \<open>till\<close>.\<close>

definition in_window :: "seconds \<Rightarrow> string \<Rightarrow> seconds \<Rightarrow> admissions \<Rightarrow> admissions" where
  "in_window width key till lg = filter (\<lambda>(t, k, _). k = key \<and> till - width < t \<and> t \<le> till) lg"

definition log_tokens :: "admissions \<Rightarrow> string list" where
  "log_tokens lg = map (\<lambda>(_, _, t). t) lg"

section \<open>The contract\<close>

locale window_limiter =
  fixes consume :: "seconds \<Rightarrow> string \<Rightarrow> string \<Rightarrow> 's \<Rightarrow> admission \<times> 's"
    and release :: "seconds \<Rightarrow> string option \<Rightarrow> string \<Rightarrow> 's \<Rightarrow> 's"
    and ok :: "'s \<Rightarrow> bool"
    and held :: "'s \<Rightarrow> string \<Rightarrow> event set"
    and limit :: int
    and width :: seconds
  assumes finite_held: "ok s \<Longrightarrow> finite (held s key)"
    and consume_sound:
      "ok s \<Longrightarrow> \<forall>k. \<forall>e\<in>held s k. fst e \<le> now \<and> snd e \<noteq> token \<Longrightarrow> consume now token key s = (a, s') \<Longrightarrow>
       ok s' \<and>
       (\<forall>k. held s' k \<subseteq> held s k \<union> (if k = key then {(now, token)} else {})) \<and>
       (\<forall>k. \<forall>e\<in>held s k. now - width < fst e \<longrightarrow> e \<in> held s' k) \<and>
       (\<forall>t. a = Admitted t \<longrightarrow> t = token \<and> (now, token) \<in> held s' key \<and>
          int (card {e \<in> held s key. now - width < fst e}) < limit)"
    and release_sound:
      "ok s \<Longrightarrow> \<forall>k. \<forall>e\<in>held s k. fst e \<le> now \<Longrightarrow>
       ok (release now (Some token) key s) \<and>
       (\<forall>k. held (release now (Some token) key s) k \<subseteq> held s k) \<and>
       (\<forall>k. \<forall>e\<in>held s k. now - width < fst e \<longrightarrow> \<not> (k = key \<and> snd e = token) \<longrightarrow>
          e \<in> held (release now (Some token) key s) k)"
begin

text \<open>The log is covered by what the limiter still holds inside the window.\<close>

definition covered :: "seconds \<Rightarrow> string set \<Rightarrow> 's \<times> admissions \<Rightarrow> bool" where
  "covered now used st \<longleftrightarrow>
     (let (s, lg) = st in
        ok s \<and> (\<forall>k. \<forall>e\<in>held s k. fst e \<le> now \<and> snd e \<in> used) \<and>
        distinct (log_tokens lg) \<and> set (log_tokens lg) \<subseteq> used \<and>
        (\<forall>(t, k, tok)\<in>set lg. t \<le> now \<and> (now - width < t \<longrightarrow> (t, tok) \<in> held s k)) \<and>
        (\<forall>key till. int (length (in_window width key till lg)) \<le> max 0 limit))"

lemma window_within_held:
  assumes "covered t0 used (s, lg)" and "t0 \<le> now"
  shows "int (length (in_window width key now lg)) \<le> int (card {e \<in> held s key. now - width < fst e})"
proof -
  let ?w = "in_window width key now lg" and ?pick = "\<lambda>(t :: seconds, k :: string, tok :: string). (t, tok)"
  have distinct_log: "distinct (log_tokens lg)" and ok: "ok s"
    using assms(1) by (simp_all add: covered_def)
  have "distinct (map ?pick ?w)"
  proof -
    have "distinct (map (\<lambda>(_, _, t). t) ?w)"
      unfolding in_window_def by (rule distinct_map_filter) (use distinct_log in \<open>simp add: log_tokens_def\<close>)
    then have "distinct (map snd (map ?pick ?w))" by (simp add: comp_def case_prod_unfold)
    then show ?thesis unfolding distinct_map [of snd] by blast
  qed
  moreover have "set (map ?pick ?w) \<subseteq> {e \<in> held s key. now - width < fst e}"
    using assms by (fastforce simp: in_window_def covered_def)
  moreover have "finite {e \<in> held s key. now - width < fst e}" using finite_held [OF ok] by simp
  ultimately have "card (set (map ?pick ?w)) \<le> card {e \<in> held s key. now - width < fst e}"
    by (intro card_mono)
  moreover have "card (set (map ?pick ?w)) = length ?w"
    using distinct_card [OF \<open>distinct (map ?pick ?w)\<close>] by (simp only: length_map)
  ultimately show ?thesis by linarith
qed

lemma in_window_release:
  "length (in_window width key till (filter P lg)) \<le> length (in_window width key till lg)"
proof -
  have "in_window width key till (filter P lg) = filter P (in_window width key till lg)"
    unfolding in_window_def filter_filter by (rule filter_cong) auto
  then show ?thesis by simp
qed

text \<open>After an admission at \<open>now\<close>, any window that sees it holds no more than the one ending at \<open>now\<close>.\<close>

lemma in_window_admit:
  assumes "\<forall>(t, k, tok)\<in>set lg. t \<le> now"
  shows "length (in_window width key till (lg @ [(now, key', tok)])) \<le>
    max (length (in_window width key till lg))
        (if key = key' then Suc (length (in_window width key now lg)) else 0)"
proof (cases "key = key' \<and> till - width < now \<and> now \<le> till")
  case True
  have "length (in_window width key till lg) \<le> length (in_window width key now lg)"
  proof -
    have "length (filter (\<lambda>(t, k, _). k = key \<and> till - width < t \<and> t \<le> till) lg) \<le>
        length (filter (\<lambda>(t, k, _). k = key \<and> now - width < t \<and> t \<le> now) lg)"
      using assms True by (induction lg) (auto split: if_splits)
    then show ?thesis by (simp add: in_window_def)
  qed
  with True show ?thesis by (simp add: in_window_def)
next
  case False
  then show ?thesis by (auto simp: in_window_def)
qed

lemma covered_serve_one:
  assumes cov: "covered t0 used (s, lg)" and "t0 \<le> request_time req"
    and fresh: "set (request_tokens req) \<inter> used = {}"
  shows "covered (request_time req) (used \<union> set (request_tokens req)) (serve_one consume release req (s, lg))"
proof (cases req)
  case (Release now key token)
  let ?s' = "release now (Some token) key s" and ?lg' = "filter (\<lambda>(_, k, t). \<not> (k = key \<and> t = token)) lg"
  have le: "t0 \<le> now" using assms(2) Release by simp
  from cov have ok: "ok s" and held: "\<And>k e. e \<in> held s k \<Longrightarrow> fst e \<le> t0 \<and> snd e \<in> used"
    by (auto simp: covered_def)
  have past: "\<forall>k. \<forall>e\<in>held s k. fst e \<le> now" using held le by fastforce
  have ok': "ok ?s'" and sub: "\<forall>k. held ?s' k \<subseteq> held s k"
    and keeps: "\<forall>k. \<forall>e\<in>held s k. now - width < fst e \<longrightarrow> \<not> (k = key \<and> snd e = token) \<longrightarrow> e \<in> held ?s' k"
    using release_sound [OF ok past] by blast+
  have held': "\<forall>k. \<forall>e\<in>held ?s' k. fst e \<le> now \<and> snd e \<in> used" using sub held le by fastforce
  have "distinct (log_tokens ?lg')"
    using cov unfolding log_tokens_def covered_def by (auto intro: distinct_map_filter)
  moreover have "\<forall>(t, k, tok)\<in>set ?lg'. t \<le> now \<and> (now - width < t \<longrightarrow> (t, tok) \<in> held ?s' k)"
    using cov keeps le by (fastforce simp: covered_def)
  moreover have "int (length (in_window width k u ?lg')) \<le> max 0 limit" for k u
  proof -
    have "int (length (in_window width k u lg)) \<le> max 0 limit" using cov by (simp add: covered_def)
    with in_window_release [of k u "\<lambda>(_, k, t). \<not> (k = key \<and> t = token)" lg] show ?thesis by linarith
  qed
  moreover have "set (log_tokens ?lg') \<subseteq> used" using cov by (auto simp: covered_def log_tokens_def)
  ultimately show ?thesis
    using ok' held' by (simp add: Release serve_one_def covered_def)
next
  case (Consume now key token)
  obtain a s' where run: "consume now token key s = (a, s')" by fastforce
  have le: "t0 \<le> now" and new: "token \<notin> used" using assms(2) fresh Consume by simp_all
  from cov have ok: "ok s" and held: "\<And>k e. e \<in> held s k \<Longrightarrow> fst e \<le> t0 \<and> snd e \<in> used"
    by (auto simp: covered_def)
  have past: "\<forall>k. \<forall>e\<in>held s k. fst e \<le> now \<and> snd e \<noteq> token" using held le new by fastforce
  have ok': "ok s'" and sub: "\<And>k. held s' k \<subseteq> held s k \<union> (if k = key then {(now, token)} else {})"
    and keeps: "\<And>k e. e \<in> held s k \<Longrightarrow> now - width < fst e \<Longrightarrow> e \<in> held s' k"
    and adm: "\<And>t. a = Admitted t \<Longrightarrow> t = token \<and> (now, token) \<in> held s' key \<and>
          int (card {e \<in> held s key. now - width < fst e}) < limit"
    using consume_sound [OF ok past run] by blast+
  have held': "\<forall>k. \<forall>e\<in>held s' k. fst e \<le> now \<and> snd e \<in> insert token used"
  proof (intro allI ballI)
    fix k e assume "e \<in> held s' k"
    with sub [of k] have "e \<in> held s k \<or> e = (now, token)" by (auto split: if_splits)
    then show "fst e \<le> now \<and> snd e \<in> insert token used"
    proof
      assume "e \<in> held s k"
      from held [OF this] le show ?thesis by auto
    qed simp
  qed
  have old: "t \<le> now \<and> (now - width < t \<longrightarrow> (t, tok) \<in> held s' k)" if "(t, k, tok) \<in> set lg" for t k tok
  proof -
    have "t \<le> t0 \<and> (t0 - width < t \<longrightarrow> (t, tok) \<in> held s k)"
      using cov that by (auto simp: covered_def)
    with le keeps [of "(t, tok)" k] show ?thesis by auto
  qed
  have bound: "int (length (in_window width k u lg)) \<le> max 0 limit" for k u
    using cov by (simp add: covered_def)
  have tokens: "distinct (log_tokens lg)" "set (log_tokens lg) \<subseteq> used"
    using cov by (simp_all add: covered_def)
  show ?thesis
  proof (cases "\<exists>t. a = Admitted t")
    case False
    then have "serve_one consume release req (s, lg) = (s', lg)"
      by (cases a) (simp_all add: Consume serve_one_def run)
    then show ?thesis using ok' held' old bound tokens by (auto simp: Consume covered_def)
  next
    case True
    with adm have a: "a = Admitted token" and inside: "(now, token) \<in> held s' key"
      and room: "int (card {e \<in> held s key. now - width < fst e}) < limit" by auto
    have step: "serve_one consume release req (s, lg) = (s', lg @ [(now, key, token)])"
      by (simp add: Consume serve_one_def run a)
    have "int (length (in_window width k u (lg @ [(now, key, token)]))) \<le> max 0 limit" for k u
    proof -
      have "\<forall>(t, k, tok)\<in>set lg. t \<le> now" using old by auto
      note in_window_admit [OF this, of k u key token]
      moreover have "int (length (in_window width key now lg)) < limit"
        using window_within_held [OF cov le, of key] room by linarith
      ultimately show ?thesis using bound [of k u] by (cases "k = key") simp_all
    qed
    moreover have "set (log_tokens (lg @ [(now, key, token)])) \<subseteq> used \<union> {token}"
      "distinct (log_tokens (lg @ [(now, key, token)]))"
      using tokens new by (auto simp: log_tokens_def)
    ultimately show ?thesis
      unfolding step using ok' held' old inside by (auto simp: Consume covered_def)
  qed
qed

lemma covered_serve:
  "covered t0 used (s, lg) \<Longrightarrow> sorted (t0 # map request_time reqs) \<Longrightarrow>
   distinct (concat (map request_tokens reqs)) \<Longrightarrow>
   set (concat (map request_tokens reqs)) \<inter> used = {} \<Longrightarrow>
   \<exists>now used'. covered now used' (serve consume release reqs (s, lg))"
proof (induction reqs arbitrary: t0 used s lg)
  case (Cons req reqs)
  obtain s1 lg1 where one: "serve_one consume release req (s, lg) = (s1, lg1)" by fastforce
  have "covered (request_time req) (used \<union> set (request_tokens req)) (s1, lg1)"
    unfolding one [symmetric] by (rule covered_serve_one) (use Cons.prems in auto)
  moreover have "sorted (request_time req # map request_time reqs)"
    "distinct (concat (map request_tokens reqs))"
    "set (concat (map request_tokens reqs)) \<inter> (used \<union> set (request_tokens req)) = {}"
    using Cons.prems by auto
  ultimately have "\<exists>now used'. covered now used' (serve consume release reqs (s1, lg1))"
    by (rule Cons.IH)
  then show ?case by (simp add: serve_def one)
qed (auto simp: serve_def)

lemma admissions_bounded:
  assumes "ok s" and "\<And>k. held s k = {}"
    and "sorted (map request_time reqs)" and "distinct (concat (map request_tokens reqs))"
  shows "int (length (in_window width key till (snd (serve consume release reqs (s, []))))) \<le> max 0 limit"
proof (cases reqs)
  case Nil
  then show ?thesis by (simp add: serve_def in_window_def)
next
  case (Cons req rest)
  have "covered (request_time req) {} (s, [])"
    using assms(1,2) by (simp add: covered_def log_tokens_def in_window_def)
  from covered_serve [OF this, of reqs] assms(3,4) Cons
  obtain now used where "covered now used (serve consume release reqs (s, []))" by auto
  then show ?thesis by (auto simp: covered_def split: prod.splits)
qed

end

section \<open>The in-process throttle\<close>

definition sliding_ok :: "windows \<Rightarrow> bool" where
  "sliding_ok w \<longleftrightarrow> dict_ok w \<and>
     (\<forall>key es. dict_get w key = Some es \<longrightarrow> sorted (map fst es) \<and> distinct (map snd es))"

definition sliding_held :: "windows \<Rightarrow> string \<Rightarrow> event set" where
  "sliding_held w key = (case dict_get w key of None \<Rightarrow> {} | Some es \<Rightarrow> set es)"

lemma dropWhile_sorted:
  "sorted (map fst es) \<Longrightarrow> dropWhile (\<lambda>e. fst e \<le> b) es = filter (\<lambda>e. \<not> fst e \<le> (b :: rat)) es"
  by (induction es) (auto simp: filter_empty_conv intro!: filter_True [symmetric])

lemma live_events_facts:
  assumes "sliding_ok w" and "live_events c now key w = (es, w')"
  shows "sliding_ok w'"
    and "sliding_held w' k = (if k = key then {e \<in> sliding_held w key. now - window_seconds c < fst e}
                              else sliding_held w k)"
    and "es = dict_get w' key"
proof -
  have "sliding_ok w' \<and> (\<forall>k. sliding_held w' k =
      (if k = key then {e \<in> sliding_held w key. now - window_seconds c < fst e} else sliding_held w k)) \<and>
      es = dict_get w' key"
  proof (cases "dict_get w key")
    case None
    with assms show ?thesis by (auto simp: live_events_def sliding_held_def)
  next
    case (Some xs)
    with assms(1) have sorted: "sorted (map fst xs)" and tokens: "distinct (map snd xs)"
      by (auto simp: sliding_ok_def)
    let ?rest = "filter (\<lambda>e. \<not> fst e \<le> now - window_seconds c) xs"
    have "sorted (map fst ?rest)" "distinct (map snd ?rest)"
      using sorted tokens by (simp_all add: sorted_filter distinct_map_filter)
    with assms Some show ?thesis
      by (auto simp: live_events_def sliding_ok_def sliding_held_def dropWhile_sorted [OF sorted] not_le
          Let_def filter_empty_conv split: if_splits)
  qed
  then show "sliding_ok w'" "sliding_held w' k = (if k = key then {e \<in> sliding_held w key.
      now - window_seconds c < fst e} else sliding_held w k)" "es = dict_get w' key" by blast+
qed

lemma sweep_facts:
  "sliding_ok w \<Longrightarrow> sliding_ok (sweep c now w) \<and>
   (\<forall>k. sliding_held (sweep c now w) k \<subseteq> sliding_held w k) \<and>
   (\<forall>k. \<forall>e\<in>sliding_held w k. now - window_seconds c < fst e \<longrightarrow> e \<in> sliding_held (sweep c now w) k)"
proof -
  have "sliding_ok w \<Longrightarrow> sliding_ok (fold (\<lambda>key v. snd (live_events c now key v)) keys w) \<and>
     (\<forall>k. sliding_held (fold (\<lambda>key v. snd (live_events c now key v)) keys w) k \<subseteq> sliding_held w k) \<and>
     (\<forall>k. \<forall>e\<in>sliding_held w k. now - window_seconds c < fst e \<longrightarrow>
        e \<in> sliding_held (fold (\<lambda>key v. snd (live_events c now key v)) keys w) k)" for keys w
  proof (induction keys arbitrary: w)
    case (Cons key keys)
    obtain es w1 where live: "live_events c now key w = (es, w1)" by fastforce
    note 1 = live_events_facts [OF Cons.prems live]
    let ?w2 = "fold (\<lambda>key v. snd (live_events c now key v)) keys w1"
    have sub: "sliding_held w1 k \<subseteq> sliding_held w k" for k by (auto simp: 1(2))
    have keep: "e \<in> sliding_held w1 k" if "e \<in> sliding_held w k" "now - window_seconds c < fst e" for k e
      using that by (auto simp: 1(2))
    from Cons.IH [OF 1(1)] have "sliding_ok ?w2" and sub2: "\<And>k. sliding_held ?w2 k \<subseteq> sliding_held w1 k"
      and "\<And>k e. e \<in> sliding_held w1 k \<Longrightarrow> now - window_seconds c < fst e \<Longrightarrow> e \<in> sliding_held ?w2 k"
      by blast+
    with sub keep show ?case by (simp add: live) (meson order_trans)
  qed simp
  then show "sliding_ok w \<Longrightarrow> sliding_ok (sweep c now w) \<and>
   (\<forall>k. sliding_held (sweep c now w) k \<subseteq> sliding_held w k) \<and>
   (\<forall>k. \<forall>e\<in>sliding_held w k. now - window_seconds c < fst e \<longrightarrow> e \<in> sliding_held (sweep c now w) k)"
    by (simp add: sweep_def)
qed

lemma sliding_ok_set:
  "sliding_ok w \<Longrightarrow> sorted (map fst es) \<Longrightarrow> distinct (map snd es) \<Longrightarrow> sliding_ok (dict_set key es w)"
  by (auto simp: sliding_ok_def)

lemma sliding_held_set: "sliding_held (dict_set key es w) k = (if k = key then set es else sliding_held w k)"
  by (simp add: sliding_held_def)

text \<open>What recording does: the event is appended, unless too many other keys are live.\<close>

lemma throttle_record_facts:
  assumes ok: "sliding_ok w" and past: "\<forall>k. \<forall>e\<in>sliding_held w k. fst e \<le> now \<and> snd e \<noteq> token"
    and run: "throttle_record c now token key w = (r, w')"
  shows "sliding_ok w'"
    and "sliding_held w' k \<subseteq> sliding_held w k \<union> (if k = key then {(now, token)} else {})"
    and "e \<in> sliding_held w k \<Longrightarrow> now - window_seconds c < fst e \<Longrightarrow> e \<in> sliding_held w' k"
    and "r = Some t \<Longrightarrow> t = token \<and> (now, token) \<in> sliding_held w' key"
proof -
  obtain es w1 where live: "live_events c now key w = (es, w1)" by fastforce
  note 1 = live_events_facts [OF ok live]
  let ?goal = "sliding_ok w' \<and>
      (\<forall>k. sliding_held w' k \<subseteq> sliding_held w k \<union> (if k = key then {(now, token)} else {})) \<and>
      (\<forall>k. \<forall>e\<in>sliding_held w k. now - window_seconds c < fst e \<longrightarrow> e \<in> sliding_held w' k) \<and>
      (\<forall>t. r = Some t \<longrightarrow> t = token \<and> (now, token) \<in> sliding_held w' key)"
  have ?goal
  proof (cases es)
    case (Some xs)
    with 1(3) have xs: "dict_get w1 key = Some xs" by simp
    then have held1: "set xs = sliding_held w1 key" by (simp add: sliding_held_def)
    have "set xs \<subseteq> sliding_held w key" unfolding held1 by (auto simp: 1(2))
    with past have inside: "\<forall>e\<in>set xs. fst e \<le> now \<and> snd e \<noteq> token" by blast
    from xs 1(1) have "sorted (map fst xs)" "distinct (map snd xs)" by (auto simp: sliding_ok_def)
    with inside have "sorted (map fst (xs @ [(now, token)]))" "distinct (map snd (xs @ [(now, token)]))"
      by (auto simp: sorted_append)
    note ok2 = sliding_ok_set [OF 1(1) this, of key]
    have w': "w' = dict_set key (xs @ [(now, token)]) w1" "r = Some token"
      using run live Some by (simp_all add: throttle_record_def)
    show ?thesis using ok2 1(2) held1 by (auto simp: w' sliding_held_set split: if_splits)
  next
    case None
    with 1(3) have none: "dict_get w1 key = None" by simp
    then have "sliding_held w1 key = {}" by (simp add: sliding_held_def)
    then have drained: "\<forall>e\<in>sliding_held w key. \<not> now - window_seconds c < fst e"
      using 1(2) [of key] by auto
    obtain w2 where w2: "w2 = (if MAX_TRACKED_KEYS \<le> int (length w1) then sweep c now w1 else w1)" by simp
    have ok2: "sliding_ok w2" and sub2: "\<forall>k. sliding_held w2 k \<subseteq> sliding_held w1 k"
      and keep2: "\<forall>k. \<forall>e\<in>sliding_held w1 k. now - window_seconds c < fst e \<longrightarrow> e \<in> sliding_held w2 k"
      unfolding w2 using sweep_facts [OF 1(1), of c now] 1(1) by simp_all
    have "throttle_record c now token key w = (if MAX_TRACKED_KEYS \<le> int (length w2) then (None, w2)
        else (Some token, dict_set key [(now, token)] w2))"
      unfolding w2 throttle_record_def using live None by (simp add: Let_def)
    with run have w': "(r, w') = (if MAX_TRACKED_KEYS \<le> int (length w2) then (None, w2)
        else (Some token, dict_set key [(now, token)] w2))" by simp
    have keep: "e \<in> sliding_held w2 k" if "e \<in> sliding_held w k" "now - window_seconds c < fst e" for k e
    proof -
      have "e \<in> sliding_held w1 k" using that by (auto simp: 1(2))
      with keep2 that(2) show ?thesis by blast
    qed
    have "sliding_held w1 k \<subseteq> sliding_held w k" for k by (auto simp: 1(2))
    with sub2 have sub: "sliding_held w2 k \<subseteq> sliding_held w k" for k by blast
    show ?thesis
    proof (cases "MAX_TRACKED_KEYS \<le> int (length w2)")
      case True
      with w' have "r = None" "w' = w2" by simp_all
      with ok2 keep sub show ?thesis by blast
    next
      case False
      with w' have r: "r = Some token" and w'': "w' = dict_set key [(now, token)] w2" by simp_all
      have "sliding_ok w'" unfolding w'' by (rule sliding_ok_set [OF ok2]) simp_all
      moreover have "\<forall>k. sliding_held w' k \<subseteq> sliding_held w k \<union> (if k = key then {(now, token)} else {})"
        using sub by (simp add: w'' sliding_held_set)
      moreover have "\<forall>k. \<forall>e\<in>sliding_held w k. now - window_seconds c < fst e \<longrightarrow> e \<in> sliding_held w' k"
        using keep drained by (simp add: w'' sliding_held_set)
      ultimately show ?thesis by (simp add: r w'' sliding_held_set)
    qed
  qed
  then show "sliding_ok w'" "sliding_held w' k \<subseteq> sliding_held w k \<union> (if k = key then {(now, token)} else {})"
    "e \<in> sliding_held w k \<Longrightarrow> now - window_seconds c < fst e \<Longrightarrow> e \<in> sliding_held w' k"
    "r = Some t \<Longrightarrow> t = token \<and> (now, token) \<in> sliding_held w' key" by blast+
qed

lemma drop_token_set: "distinct (map snd es) \<Longrightarrow> set (drop_token t es) = {e \<in> set es. snd e \<noteq> t}"
  by (induction es) force+

lemma drop_token_sorted:
  "sorted (map fst es) \<Longrightarrow> distinct (map snd es) \<Longrightarrow>
   sorted (map fst (drop_token t es)) \<and> distinct (map snd (drop_token t es))"
proof (induction es)
  case (Cons e es)
  have "(a, t) \<in> set es \<Longrightarrow> t \<in> snd ` set es" for a by force
  with Cons show ?case using drop_token_set [of es t] by force
qed simp

interpretation sliding: window_limiter "throttle_consume c" "throttle_release c" sliding_ok sliding_held
    "max 1 (max_events c)" "window_seconds c"
  for c :: throttle_config
proof unfold_locales
  fix s s' :: windows and now key token a
  show "finite (sliding_held s key)" by (simp add: sliding_held_def split: option.split)
  show "sliding_ok s' \<and>
      (\<forall>k. sliding_held s' k \<subseteq> sliding_held s k \<union> (if k = key then {(now, token)} else {})) \<and>
      (\<forall>k. \<forall>e\<in>sliding_held s k. now - window_seconds c < fst e \<longrightarrow> e \<in> sliding_held s' k) \<and>
      (\<forall>t. a = Admitted t \<longrightarrow> t = token \<and> (now, token) \<in> sliding_held s' key \<and>
         int (card {e \<in> sliding_held s key. now - window_seconds c < fst e}) < max 1 (max_events c))"
    if ok: "sliding_ok s" and past: "\<forall>k. \<forall>e\<in>sliding_held s k. fst e \<le> now \<and> snd e \<noteq> token"
      and run: "throttle_consume c now token key s = (a, s')"
  proof -
    obtain es w1 where live: "live_events c now key s = (es, w1)" by fastforce
    note 1 = live_events_facts [OF ok live]
    have sub: "sliding_held w1 k \<subseteq> sliding_held s k" for k by (auto simp: 1(2))
    have keep: "e \<in> sliding_held w1 k" if "e \<in> sliding_held s k" "now - window_seconds c < fst e" for k e
      using that by (auto simp: 1(2))
    let ?limited = "case es of None \<Rightarrow> False | Some xs \<Rightarrow> max_events c \<le> int (length xs)"
    have check: "throttle_check c now key s = (?limited, w1)" by (simp add: throttle_check_def live)
    show ?thesis
    proof (cases ?limited)
      case True
      with run check have "a = Refused" "s' = w1" by (simp_all add: throttle_consume_def)
      with 1(1) sub keep show ?thesis by auto
    next
      case False
      have card: "int (card {e \<in> sliding_held s key. now - window_seconds c < fst e}) < max 1 (max_events c)"
      proof (cases es)
        case None
        with 1(3) have "dict_get w1 key = None" by simp
        then have "sliding_held w1 key = {}" by (simp add: sliding_held_def)
        then have none: "{e \<in> sliding_held s key. now - window_seconds c < fst e} = {}" using 1(2) [of key] by simp
        show ?thesis unfolding none by simp
      next
        case (Some xs)
        with 1(3) have "dict_get w1 key = Some xs" by simp
        then have "{e \<in> sliding_held s key. now - window_seconds c < fst e} = set xs"
          using 1(2) [of key] by (simp add: sliding_held_def)
        moreover have "card (set xs) \<le> length xs" by (rule card_length)
        ultimately show ?thesis using False Some by simp
      qed
      obtain r w2 where rec: "throttle_record c now token key w1 = (r, w2)" by fastforce
      have "\<forall>k. \<forall>e\<in>sliding_held w1 k. fst e \<le> now \<and> snd e \<noteq> token" using past sub by blast
      note 2 = throttle_record_facts [OF 1(1) this rec]
      have "s' = w2" "a = (case r of Some t \<Rightarrow> Admitted t | None \<Rightarrow> Untracked)"
        using run False check rec by (simp_all add: throttle_consume_def split: option.splits)
      moreover have "\<forall>k. sliding_held w2 k \<subseteq> sliding_held s k \<union> (if k = key then {(now, token)} else {})"
        using 2(2) sub by blast
      moreover have "\<forall>k. \<forall>e\<in>sliding_held s k. now - window_seconds c < fst e \<longrightarrow> e \<in> sliding_held w2 k"
        using 2(3) keep by blast
      ultimately show ?thesis using 2(1,4) card by (simp split: option.splits)
    qed
  qed
  show "sliding_ok (throttle_release c now (Some token) key s) \<and>
      (\<forall>k. sliding_held (throttle_release c now (Some token) key s) k \<subseteq> sliding_held s k) \<and>
      (\<forall>k. \<forall>e\<in>sliding_held s k. now - window_seconds c < fst e \<longrightarrow> \<not> (k = key \<and> snd e = token) \<longrightarrow>
         e \<in> sliding_held (throttle_release c now (Some token) key s) k)"
    if ok: "sliding_ok s" and past: "\<forall>k. \<forall>e\<in>sliding_held s k. fst e \<le> now"
  proof -
    obtain es w1 where live: "live_events c now key s = (es, w1)" by fastforce
    note 1 = live_events_facts [OF ok live]
    show ?thesis
    proof (cases es)
      case None
      then show ?thesis using 1(1) by (auto simp: throttle_release_def live 1(2))
    next
      case (Some xs)
      with 1(3) have xs: "dict_get w1 key = Some xs" by simp
      then have held1: "set xs = {e \<in> sliding_held s key. now - window_seconds c < fst e}"
        using 1(2) [of key] by (simp add: sliding_held_def)
      from xs 1(1) have "sorted (map fst xs)" "distinct (map snd xs)" by (auto simp: sliding_ok_def)
      note drop = drop_token_sorted [OF this, of token] drop_token_set [OF this(2), of token]
      have "sliding_ok (dict_set key (drop_token token xs) w1)"
        using sliding_ok_set [OF 1(1)] drop(1) by blast
      then show ?thesis
        using held1 drop(2) by (auto simp: throttle_release_def live Some sliding_held_set 1(2))
    qed
  qed
qed

section \<open>The Redis throttle\<close>

definition zset_events :: "zset \<Rightarrow> event set" where
  "zset_events z = {(t, m). (m, t) \<in> set (z_members z)}"

definition redis_held :: "string \<Rightarrow> zstore \<Rightarrow> string \<Rightarrow> event set" where
  "redis_held name db key =
     (case dict_get db (redis_key name key) of None \<Rightarrow> {} | Some z \<Rightarrow> zset_events z)"

text \<open>A sorted set outlives the window of each of its members.\<close>

definition zset_ok :: "seconds \<Rightarrow> zset \<Rightarrow> bool" where
  "zset_ok width z \<longleftrightarrow> dict_ok (z_members z) \<and>
     (\<forall>e\<in>zset_events z. case z_expires z of None \<Rightarrow> False | Some x \<Rightarrow> fst e + width < x)"

definition redis_ok :: "seconds \<Rightarrow> zstore \<Rightarrow> bool" where
  "redis_ok width db \<longleftrightarrow> (\<forall>k z. dict_get db k = Some z \<longrightarrow> zset_ok width z)"

lemma redis_key_inj [simp]: "redis_key name a = redis_key name b \<longleftrightarrow> a = b"
  by (simp add: redis_key_def)

lemma finite_zset_events [simp]: "finite (zset_events z)"
proof -
  have "zset_events z = (\<lambda>(m, t). (t, m)) ` set (z_members z)" by (force simp: zset_events_def)
  then show ?thesis by simp
qed

lemma card_zset_events: "card (zset_events z) \<le> length (z_members z)"
proof -
  have "zset_events z = (\<lambda>(m, t). (t, m)) ` set (z_members z)" by (force simp: zset_events_def)
  then show ?thesis by (metis card_image_le card_length le_trans List.finite_set)
qed

lemma dict_set_fresh: "k \<notin> set (dict_keys d) \<Longrightarrow> dict_set k v d = d @ [(k, v)]"
  by (induction d) auto

lemma zset_events_ops [simp]:
  "zset_events (zremrangebyscore cutoff z) = {e \<in> zset_events z. cutoff < fst e}"
  "zset_events (z\<lparr>z_members := dict_pop t (z_members z)\<rparr>) = {e \<in> zset_events z. snd e \<noteq> t}"
  "zset_events \<lparr>z_members = [], z_expires = x\<rparr> = {}"
  by (auto simp: zset_events_def zremrangebyscore_def AList.delete_eq)

lemma zset_events_add:
  assumes "\<forall>e\<in>zset_events z. snd e \<noteq> token"
  shows "zset_events (z\<lparr>z_members := dict_set token now (z_members z), z_expires := x\<rparr>) =
    insert (now, token) (zset_events z)"
proof -
  have "token \<notin> set (dict_keys (z_members z))" using assms by (force simp: zset_events_def)
  then show ?thesis by (auto simp: zset_events_def dict_set_fresh)
qed

lemma zlookup_facts:
  assumes "redis_ok width db"
  shows "zset_ok width (zlookup now (redis_key name key) db)"
    and "zset_events (zlookup now (redis_key name key) db) \<subseteq> redis_held name db key"
    and "e \<in> redis_held name db key \<Longrightarrow> now - width < fst e \<Longrightarrow>
         e \<in> zset_events (zlookup now (redis_key name key) db)"
proof -
  have "zset_ok width (zlookup now (redis_key name key) db) \<and>
      zset_events (zlookup now (redis_key name key) db) \<subseteq> redis_held name db key \<and>
      (\<forall>e\<in>redis_held name db key. now - width < fst e \<longrightarrow>
         e \<in> zset_events (zlookup now (redis_key name key) db))"
  proof (cases "dict_get db (redis_key name key)")
    case None
    then show ?thesis by (simp add: zlookup_def redis_held_def zset_ok_def)
  next
    case (Some z)
    then have z: "zset_ok width z" using assms by (auto simp: redis_ok_def)
    have empty: "zset_ok width \<lparr>z_members = [], z_expires = None\<rparr>" by (simp add: zset_ok_def)
    show ?thesis
    proof (cases "z_expires z")
      case None
      with Some z show ?thesis by (simp add: zlookup_def redis_held_def)
    next
      case expires: (Some x)
      show ?thesis
      proof (cases "x \<le> now")
        case True
        have "\<not> now - width < fst e" if "e \<in> zset_events z" for e
        proof -
          have "fst e + width < x" using z that expires by (auto simp: zset_ok_def)
          with True show ?thesis by linarith
        qed
        with Some expires True empty show ?thesis by (simp add: zlookup_def redis_held_def)
      next
        case False
        with Some expires z show ?thesis by (simp add: zlookup_def redis_held_def)
      qed
    qed
  qed
  then show "zset_ok width (zlookup now (redis_key name key) db)"
    "zset_events (zlookup now (redis_key name key) db) \<subseteq> redis_held name db key"
    "e \<in> redis_held name db key \<Longrightarrow> now - width < fst e \<Longrightarrow>
       e \<in> zset_events (zlookup now (redis_key name key) db)" by blast+
qed

lemma zstore_put_facts:
  assumes "redis_ok width db" and "zset_ok width z"
  shows "redis_ok width (zstore_put (redis_key name key) z db)"
    and "redis_held name (zstore_put (redis_key name key) z db) k =
      (if k = key then zset_events z else redis_held name db k)"
  using assms
  by (auto simp: zstore_put_def redis_ok_def redis_held_def zset_events_def split: if_splits)

lemma zset_ok_ops:
  assumes "zset_ok width z"
  shows "zset_ok width (zremrangebyscore cutoff z)" and "zset_ok width (z\<lparr>z_members := dict_pop t (z_members z)\<rparr>)"
proof -
  have "dict_ok (filter P (z_members z))" if "dict_ok (z_members z)" for P
    using that by (rule distinct_map_filter)
  with assms show "zset_ok width (zremrangebyscore cutoff z)"
    by (auto simp: zset_ok_def) (simp_all add: zremrangebyscore_def)
  show "zset_ok width (z\<lparr>z_members := dict_pop t (z_members z)\<rparr>)"
    using assms by (auto simp: zset_ok_def)
qed

lemma zset_ok_add:
  assumes "zset_ok width z" and "\<forall>e\<in>zset_events z. fst e \<le> now \<and> snd e \<noteq> token"
  shows "zset_ok width (z\<lparr>z_members := dict_set token now (z_members z), z_expires := Some (now + (width + 1))\<rparr>)"
proof -
  have "fst e + width < now + (width + 1)" if "e \<in> insert (now, token) (zset_events z)" for e
  proof -
    have "fst e \<le> now" using that assms(2) by auto
    then show ?thesis by simp
  qed
  with assms show ?thesis by (auto simp: zset_ok_def zset_events_add)
qed

text \<open>The script alone: what it holds afterwards, and what it admits.\<close>

lemma consume_script_facts:
  assumes ok: "redis_ok width db" and past: "\<forall>k. \<forall>e\<in>redis_held name db k. fst e \<le> now \<and> snd e \<noteq> token"
    and run: "consume_script (redis_key name key) (now - width) limit now token (width + 1) db = (accepted, db')"
  shows "redis_ok width db'"
    and "redis_held name db' k \<subseteq> redis_held name db k \<union> (if k = key then {(now, token)} else {})"
    and "e \<in> redis_held name db k \<Longrightarrow> now - width < fst e \<Longrightarrow> e \<in> redis_held name db' k"
    and "accepted \<Longrightarrow> (now, token) \<in> redis_held name db' key \<and>
          int (card {e \<in> redis_held name db key. now - width < fst e}) < limit"
proof -
  let ?k = "redis_key name key"
  let ?z = "zremrangebyscore (now - width) (zlookup now ?k db)"
  let ?new = "?z\<lparr>z_members := dict_set token now (z_members ?z), z_expires := Some (now + (width + 1))\<rparr>"
  note look = zlookup_facts [OF ok, where now = now and name = name and key = key]
  have z: "zset_ok width ?z" by (rule zset_ok_ops [OF look(1)])
  have kept: "zset_events ?z = {e \<in> redis_held name db key. now - width < fst e}"
    using look(2,3) by auto
  have fresh: "\<forall>e\<in>zset_events ?z. fst e \<le> now \<and> snd e \<noteq> token"
    unfolding kept using past by blast
  have new: "zset_events ?new = insert (now, token) (zset_events ?z)"
    by (rule zset_events_add) (use fresh in blast)
  have db': "accepted \<longleftrightarrow> int (length (z_members ?z)) < limit"
    "db' = zstore_put ?k (if accepted then ?new else ?z) db"
    using run by (auto simp: consume_script_def Let_def split: if_splits)
  have put: "zset_ok width (if accepted then ?new else ?z)" using z zset_ok_add [OF z fresh] by simp
  note p = zstore_put_facts [OF ok put, where name = name and key = key, folded db'(2)]
  show "redis_ok width db'" by (rule p(1))
  show "redis_held name db' k \<subseteq> redis_held name db k \<union> (if k = key then {(now, token)} else {})"
    unfolding p(2) using new kept by auto
  show "e \<in> redis_held name db k \<Longrightarrow> now - width < fst e \<Longrightarrow> e \<in> redis_held name db' k"
    unfolding p(2) using new kept by auto
  show "accepted \<Longrightarrow> (now, token) \<in> redis_held name db' key \<and>
          int (card {e \<in> redis_held name db key. now - width < fst e}) < limit"
    using db'(1) card_zset_events [of ?z] kept new by (simp add: p(2))
qed

interpretation shared: window_limiter "redis_consume c name outcome" "redis_release name outcome'"
    "redis_ok (window_seconds c)" "redis_held name" "max_events c" "window_seconds c"
  for c :: throttle_config and name :: string and outcome outcome' :: call
proof unfold_locales
  fix s s' :: zstore and now key token a
  show "finite (redis_held name s key)" by (simp add: redis_held_def split: option.split)
  show "redis_ok (window_seconds c) s' \<and>
      (\<forall>k. redis_held name s' k \<subseteq> redis_held name s k \<union> (if k = key then {(now, token)} else {})) \<and>
      (\<forall>k. \<forall>e\<in>redis_held name s k. now - window_seconds c < fst e \<longrightarrow> e \<in> redis_held name s' k) \<and>
      (\<forall>t. a = Admitted t \<longrightarrow> t = token \<and> (now, token) \<in> redis_held name s' key \<and>
         int (card {e \<in> redis_held name s key. now - window_seconds c < fst e}) < max_events c)"
    if ok: "redis_ok (window_seconds c) s" and past: "\<forall>k. \<forall>e\<in>redis_held name s k. fst e \<le> now \<and> snd e \<noteq> token"
      and run: "redis_consume c name outcome now token key s = (a, s')"
  proof -
    obtain accepted db where script: "consume_script (redis_key name key) (now - window_seconds c)
        (max_events c) now token (window_seconds c + 1) s = (accepted, db)" by fastforce
    note f = consume_script_facts [OF ok past script]
    show ?thesis
    proof (cases outcome)
      case Lost_before
      with run script have "a = Untracked" "s' = s" by (simp_all add: redis_consume_def)
      with ok show ?thesis by auto
    next
      case Lost_after
      with run script have "a = Untracked" "s' = db" by (simp_all add: redis_consume_def)
      with f(1-3) show ?thesis by blast
    next
      case Answered
      with run script have "a = (if accepted then Admitted token else Refused)" "s' = db"
        by (simp_all add: redis_consume_def)
      with f show ?thesis by (simp split: if_splits)
    qed
  qed
  show "redis_ok (window_seconds c) (redis_release name outcome' now (Some token) key s) \<and>
      (\<forall>k. redis_held name (redis_release name outcome' now (Some token) key s) k \<subseteq> redis_held name s k) \<and>
      (\<forall>k. \<forall>e\<in>redis_held name s k. now - window_seconds c < fst e \<longrightarrow> \<not> (k = key \<and> snd e = token) \<longrightarrow>
         e \<in> redis_held name (redis_release name outcome' now (Some token) key s) k)"
    if ok: "redis_ok (window_seconds c) s" and past: "\<forall>k. \<forall>e\<in>redis_held name s k. fst e \<le> now"
  proof (cases "outcome' = Lost_before")
    case True
    with ok show ?thesis by (simp add: redis_release_def)
  next
    case False
    let ?z = "zlookup now (redis_key name key) s"
    note look = zlookup_facts [OF ok, where now = now and name = name and key = key]
    note p = zstore_put_facts [OF ok zset_ok_ops(2) [OF look(1), of token], where name = name and key = key]
    have "redis_release name outcome' now (Some token) key s =
        zstore_put (redis_key name key) (?z\<lparr>z_members := dict_pop token (z_members ?z)\<rparr>) s"
      using False by (simp add: redis_release_def Let_def)
    with p look(2,3) show ?thesis by auto
  qed
qed

section \<open>What the throttles promise\<close>

text \<open>
  The process-local limit: whatever requests for whatever keys are served in the order of their
  instants, with distinct tokens and releases in between, at no instant were more than the allowance
  of tracked admissions for a key (at least one) made and not released within the window ending there.
\<close>

theorem local_limit_holds:
  assumes "sorted (map request_time reqs)" and "distinct (concat (map request_tokens reqs))"
  shows "int (length (in_window (window_seconds c) key till
      (snd (serve (throttle_consume c) (throttle_release c) reqs ([], []))))) \<le> max 1 (max_events c)"
  using sliding.admissions_bounded [OF _ _ assms, of "[]" c key till]
  by (simp add: sliding_ok_def sliding_held_def)

text \<open>
  The shared limit: every process that admits through Redis shares one allowance per key and
  window, and the key's expiry never drops an event that is still inside the window.
\<close>

theorem shared_limit_holds:
  assumes "sorted (map request_time reqs)" and "distinct (concat (map request_tokens reqs))"
  shows "int (length (in_window (window_seconds c) key till
      (snd (serve (redis_consume c name Answered) (redis_release name Answered) reqs ([], []))))) \<le>
    max 0 (max_events c)"
  using shared.admissions_bounded [OF _ _ assms, of c "[]" name key till Answered Answered]
  by (simp add: redis_ok_def redis_held_def)

definition demo_requests :: "request list" where
  "demo_requests = [Consume 0 ''a'' ''t1'', Consume 10 ''a'' ''t2'', Consume 20 ''a'' ''t3'',
     Release 30 ''a'' ''t1'', Consume 40 ''a'' ''t4'', Consume 65 ''b'' ''t5'']"

definition demo_limit :: throttle_config where
  "demo_limit = \<lparr>max_events = 2, window_seconds = 60\<rparr>"

theorem local_limit_holds_witness:
  "int (length (in_window 60 ''a'' 40
      (snd (serve (throttle_consume demo_limit) (throttle_release demo_limit) demo_requests ([], []))))) \<le> 2 \<and>
   log_tokens (snd (serve (throttle_consume demo_limit) (throttle_release demo_limit) demo_requests ([], []))) =
     [''t2'', ''t4'', ''t5'']"
proof -
  have "sorted (map request_time demo_requests)" "distinct (concat (map request_tokens demo_requests))"
    by (simp_all add: demo_requests_def)
  from local_limit_holds [OF this, of demo_limit "''a''" 40] show ?thesis
    by (intro conjI) (simp add: demo_limit_def, code_simp)
qed

theorem shared_limit_holds_witness:
  "int (length (in_window 60 ''a'' 40
      (snd (serve (redis_consume demo_limit ''login'' Answered) (redis_release ''login'' Answered)
         demo_requests ([], []))))) \<le> 2 \<and>
   log_tokens (snd (serve (redis_consume demo_limit ''login'' Answered) (redis_release ''login'' Answered)
         demo_requests ([], []))) = [''t2'', ''t4'', ''t5'']"
proof -
  have "sorted (map request_time demo_requests)" "distinct (concat (map request_tokens demo_requests))"
    by (simp_all add: demo_requests_def)
  from shared_limit_holds [OF this, of demo_limit "''a''" 40 "''login''"] show ?thesis
    by (intro conjI) (simp add: demo_limit_def, code_simp)
qed

lemma live_events_length: "length (snd (live_events c now k w)) \<le> length w"
  by (auto simp: live_events_def Let_def dict_set_length split: option.split intro: length_delete_le)

lemma live_events_answer: "live_events c now k w = (es, w') \<Longrightarrow> es = dict_get w' k"
  by (auto simp: live_events_def Let_def split: option.splits if_splits)

lemma live_events_absent: "dict_get w key = None \<Longrightarrow> dict_get (snd (live_events c now k w)) key = None"
  by (auto simp: live_events_def Let_def split: option.split)

lemma sweep_shrinks:
  "length (sweep c now w) \<le> length w \<and> (dict_get w key = None \<longrightarrow> dict_get (sweep c now w) key = None)"
proof -
  have "length (fold (\<lambda>key v. snd (live_events c now key v)) keys w) \<le> length w \<and>
      (dict_get w key = None \<longrightarrow> dict_get (fold (\<lambda>key v. snd (live_events c now key v)) keys w) key = None)" for keys
  proof (induction keys arbitrary: w)
    case (Cons k keys)
    from Cons.IH [of "snd (live_events c now k w)"] live_events_length [of c now k w]
      live_events_absent [of w key c now k] show ?case by auto
  qed simp
  then show ?thesis by (simp add: sweep_def)
qed

text \<open>
  Fail open, never grow: the process-local throttle tracks at most the fixed number of keys; a new
  key beyond it is let through untracked and leaves the number of tracked keys as it was.
\<close>

theorem tracked_keys_bounded:
  assumes "int (length w) \<le> MAX_TRACKED_KEYS"
  shows "int (length (snd (throttle_consume c now token key w))) \<le> MAX_TRACKED_KEYS \<and>
    (fst (throttle_consume c now token key w) = Untracked \<longrightarrow>
       dict_get (snd (throttle_consume c now token key w)) key = None)"
proof -
  obtain es w1 where live: "live_events c now key w = (es, w1)" by fastforce
  then have w1: "length w1 \<le> length w" using live_events_length [of c now key w] by simp
  obtain limited where check: "throttle_check c now key w = (limited, w1)"
    by (simp add: throttle_check_def live)
  obtain es' w2 where live': "live_events c now key w1 = (es', w2)" by fastforce
  then have w2: "length w2 \<le> length w1" using live_events_length [of c now key w1] by simp
  have present: "es' = dict_get w2 key" using live' by (rule live_events_answer)
  let ?w3 = "if MAX_TRACKED_KEYS \<le> int (length w2) then sweep c now w2 else w2"
  have w3: "length ?w3 \<le> length w2" "dict_get w2 key = None \<Longrightarrow> dict_get ?w3 key = None"
    using sweep_shrinks [of c now w2] by auto
  show ?thesis
  proof (cases "limited \<or> es' \<noteq> None")
    case True
    then show ?thesis
      using assms check live' w1 w2 present
      by (auto simp: throttle_consume_def throttle_record_def dict_set_length)
  next
    case False
    then show ?thesis
      using assms check live' w1 w2 w3 present
      by (auto simp: throttle_consume_def throttle_record_def dict_set_length Let_def)
  qed
qed

theorem tracked_keys_bounded_witness:
  "int (length (snd (throttle_consume demo_limit 5 ''t9'' ''z'' [(''a'', [(0, ''t1'')])]))) \<le> MAX_TRACKED_KEYS"
  using tracked_keys_bounded [of "[(''a'', [(0, ''t1'')])]" demo_limit 5 "''t9''" "''z''"]
  by (simp add: MAX_TRACKED_KEYS_def)

end
