(* ===== verification/Dispatcher.thy ===== *)
theory Dispatcher
  imports Service_World
begin

text \<open>
  \<^verbatim>\<open>WatchScheduleDispatcher\<close> of \<^verbatim>\<open>backend/workers/dispatcher.py\<close>: one pass publishes the due schedule
  markers of the store, each under a single-flight lease. It runs in the world of \<open>Service_World\<close>, so
  others may act at every one of its awaits, and the broker may fail at every publication. A store call
  that raises ends the whole sweep, whatever it has published by then.
\<close>

datatype dispatch_outcome = Out_DISPATCHED | Out_DEFERRED | Out_FAILED

record sweep_result =
  considered :: int
  dispatched :: int
  deferred :: int
  failed :: int

definition has_backlog :: "sweep_result \<Rightarrow> bool" where
  "has_backlog r \<longleftrightarrow> 0 < failed r"

record dispatcher =
  dp_owner_id :: string
  horizon_seconds :: seconds
  dp_lease_seconds :: seconds
  recovery_grace_seconds :: seconds
  batch_size :: int

definition DEFAULT_DISPATCH_LEASE_SECONDS :: seconds where "DEFAULT_DISPATCH_LEASE_SECONDS = 30"
definition DEFAULT_RECOVERY_GRACE_SECONDS :: seconds where "DEFAULT_RECOVERY_GRACE_SECONDS = 60"
definition DEFAULT_BATCH_SIZE :: int where "DEFAULT_BATCH_SIZE = 256"

definition make_dispatcher :: "string \<Rightarrow> seconds \<Rightarrow> dispatcher" where
  "make_dispatcher owner horizon =
     \<lparr>dp_owner_id = owner, horizon_seconds = horizon, dp_lease_seconds = DEFAULT_DISPATCH_LEASE_SECONDS,
      recovery_grace_seconds = DEFAULT_RECOVERY_GRACE_SECONDS, batch_size = DEFAULT_BATCH_SIZE\<rparr>"

text \<open>\<^verbatim>\<open>f"dibs-poll:{window_id}:{generation}"\<close>.\<close>

definition poll_task_id :: "dispatch_claim \<Rightarrow> string" where
  "poll_task_id cl = ''dibs-poll:'' @ dc_window_id cl @ '':'' @ show_int (dc_generation cl)"

definition publish_marker ::
  "'p env \<Rightarrow> schedule_marker \<Rightarrow> dispatch_claim \<Rightarrow> seconds \<Rightarrow> 'p world \<Rightarrow> bool \<times> 'p world" where
  "publish_marker e m cl delay s =
     (\<not> publish_fails e (w_awaits s),
      (pause e s)\<lparr>published := published s @
         [\<lparr>pub_watch_id = mk_watch_id m, pub_window_id = Some (mk_window_id m),
           pub_delay_seconds = delay, pub_due_at = Some (mk_scheduled_for m),
           pub_task_id = Some (poll_task_id cl)\<rparr>]\<rparr>)"

definition dispatch_one ::
  "'p env \<Rightarrow> dispatcher \<Rightarrow> schedule_marker \<Rightarrow> time \<Rightarrow> 'p world
     \<Rightarrow> (service_error + dispatch_outcome) \<times> 'p world" where
  "dispatch_one e d m now s =
     proceed (call_repo e (\<lambda>t. claim_dispatch t m (dp_owner_id d) (dp_lease_seconds d)) s)
       (\<lambda>res s1.
          if dr_status res \<noteq> Dispatch_CLAIMED then (Inr Out_DEFERRED, s1)
          else
            (case dr_claim res of
               None \<Rightarrow> (Inl Assertion_Error, s1)
             | Some cl \<Rightarrow>
                 (let delay = max 0 (total_seconds (mk_scheduled_for m - now));
                      (accepted, s2) = publish_marker e m cl delay s1
                  in if \<not> accepted then
                       proceed (call_repo e (\<lambda>t. release_dispatch cl) s2) (\<lambda>_ s3. (Inr Out_FAILED, s3))
                     else
                       (let redispatch_after = max (mk_scheduled_for m) now
                                                 + timedelta_seconds (recovery_grace_seconds d)
                        in proceed (call_repo e (\<lambda>t. mark_dispatched cl redispatch_after) s2)
                             (\<lambda>_ s3. (Inr Out_DISPATCHED, s3))))))"

definition count_outcome :: "dispatch_outcome \<Rightarrow> sweep_result \<Rightarrow> sweep_result" where
  "count_outcome oc r =
     (case oc of
        Out_DISPATCHED \<Rightarrow> r\<lparr>dispatched := dispatched r + 1\<rparr>
      | Out_DEFERRED \<Rightarrow> r\<lparr>deferred := deferred r + 1\<rparr>
      | Out_FAILED \<Rightarrow> r\<lparr>failed := failed r + 1\<rparr>)"

fun dispatch_markers ::
  "'p env \<Rightarrow> dispatcher \<Rightarrow> schedule_marker list \<Rightarrow> time \<Rightarrow> sweep_result \<Rightarrow> 'p world
     \<Rightarrow> (service_error + sweep_result) \<times> 'p world"
where
  "dispatch_markers e d [] now r s = (Inr r, s)"
| "dispatch_markers e d (m # ms) now r s =
     proceed (dispatch_one e d m now s) (\<lambda>oc s'. dispatch_markers e d ms now (count_outcome oc r) s')"

definition dispatch_due ::
  "'p env \<Rightarrow> dispatcher \<Rightarrow> 'p world \<Rightarrow> (service_error + sweep_result) \<times> 'p world" where
  "dispatch_due e d s =
     (let now = w_now s
      in proceed (read_repo e (due_schedule_markers now (horizon_seconds d) (batch_size d)) s)
           (\<lambda>ms s1. dispatch_markers e d ms now
              \<lparr>considered = int (length ms), dispatched = 0, deferred = 0, failed = 0\<rparr> s1))"

end
