(* ===== verification/Recovery.thy ===== *)
theory Recovery
  imports Dispatcher Watch_Lifecycle Mock_State
begin

text \<open>
  \<^verbatim>\<open>RecoveryCoordinator\<close> of \<^verbatim>\<open>backend/services/watch_recovery.py\<close> and \<^verbatim>\<open>ReadinessTracker\<close> of
  \<^verbatim>\<open>backend/services/readiness.py\<close>: the reconciliation of one recovery candidate, the bounded pass over
  all of them with dispatch and cleanup, and the evidence a pass leaves for \<^verbatim>\<open>/health\<close>. Every call of the
  store may raise, before or after it took effect; the leader lease of \<^verbatim>\<open>RedisWatchRepository\<close> is
  modelled with its native expiry.
\<close>

section \<open>Outcomes\<close>

record recovery_outcome =
  is_leader :: bool
  ro_considered :: int
  pruned :: int
  expired :: int
  synthesized :: int
  ro_dispatched :: int
  dispatch_failed :: int
  ro_failed :: int
  cleanup_removed :: int
  backlog :: bool

definition no_pass :: "bool \<Rightarrow> int \<Rightarrow> bool \<Rightarrow> recovery_outcome" where
  "no_pass leader failures behind =
     \<lparr>is_leader = leader, ro_considered = 0, pruned = 0, expired = 0, synthesized = 0,
      ro_dispatched = 0, dispatch_failed = 0, ro_failed = failures, cleanup_removed = 0,
      backlog = behind\<rparr>"

definition ready :: "recovery_outcome \<Rightarrow> bool" where
  "ready ro \<longleftrightarrow> is_leader ro \<and> ro_failed ro = 0 \<and> \<not> backlog ro"

section \<open>Leadership\<close>

text \<open>The key \<^verbatim>\<open>dibs:recovery:leader\<close>: its owner and the instant (ms) its native expiry removes it.\<close>

type_synonym leader_key = "(string \<times> int) option"

definition live_leader :: "int \<Rightarrow> leader_key \<Rightarrow> leader_key" where
  "live_leader now_ms k = (case k of None \<Rightarrow> None | Some (owner, t) \<Rightarrow> if t \<le> now_ms then None else k)"

definition lease_ms :: "seconds \<Rightarrow> int" where
  "lease_ms secs = max 1 \<lfloor>secs * 1000\<rfloor>"

definition acquire_leadership :: "int \<Rightarrow> string \<Rightarrow> seconds \<Rightarrow> leader_key \<Rightarrow> bool \<times> leader_key" where
  "acquire_leadership now_ms owner secs k =
     (case live_leader now_ms k of
        None \<Rightarrow> (True, Some (owner, now_ms + lease_ms secs))
      | Some x \<Rightarrow> (False, Some x))"

definition renew_leadership :: "int \<Rightarrow> string \<Rightarrow> seconds \<Rightarrow> leader_key \<Rightarrow> bool \<times> leader_key" where
  "renew_leadership now_ms owner secs k =
     (case live_leader now_ms k of
        None \<Rightarrow> (False, None)
      | Some (holder, t) \<Rightarrow>
          if holder = owner then (True, Some (owner, now_ms + lease_ms secs)) else (False, Some (holder, t)))"

definition release_leadership :: "int \<Rightarrow> string \<Rightarrow> leader_key \<Rightarrow> bool \<times> leader_key" where
  "release_leadership now_ms owner k =
     (case live_leader now_ms k of
        None \<Rightarrow> (False, None)
      | Some (holder, t) \<Rightarrow> if holder = owner then (True, None) else (False, Some (holder, t)))"

text \<open>\<^verbatim>\<open>_hold_leadership\<close>: renew, else acquire; in memory mode there is nothing to hold.\<close>

definition hold_leadership ::
  "bool \<Rightarrow> int \<Rightarrow> int \<Rightarrow> string \<Rightarrow> seconds \<Rightarrow> leader_key \<Rightarrow> bool \<times> leader_key" where
  "hold_leadership distributed now_ms now_ms' owner secs k =
     (if \<not> distributed then (True, k)
      else
        (case renew_leadership now_ms owner secs k of
           (True, k') \<Rightarrow> (True, k')
         | (False, k') \<Rightarrow> acquire_leadership now_ms' owner secs k'))"

section \<open>One candidate\<close>

text \<open>\<^verbatim>\<open>runtime.scheduled_for or watch.next_check_at or now\<close>, never past the expiry.\<close>

definition marker_runtime ::
  "seconds \<Rightarrow> recovery_candidate \<Rightarrow> watch \<Rightarrow> time \<Rightarrow> model_error + watch_runtime option" where
  "marker_runtime earliest c w now =
     (case rc_runtime c of
        Some rt \<Rightarrow>
          (let win = (case rt_window_id rt of
                        Some x \<Rightarrow> if x = [] then window_id_for (rc_watch_id c) (cadence_sequence rt) else x
                      | None \<Rightarrow> window_id_for (rc_watch_id c) (cadence_sequence rt));
               base = (case or_else (rt_scheduled_for rt) (next_check_at w) of Some t \<Rightarrow> t | None \<Rightarrow> now)
           in Inr (Some (rt\<lparr>rt_window_id := Some win,
                            rt_scheduled_for := Some (min base (w_expires_at w))\<rparr>)))
      | None \<Rightarrow>
          (case migrate_legacy_watch w earliest now of
             Inl err \<Rightarrow> Inl err
           | Inr rt \<Rightarrow>
               (case (rt_window_id rt, rt_scheduled_for rt) of
                  (Some _, Some t) \<Rightarrow> Inr (Some (rt\<lparr>rt_scheduled_for := Some (min t (w_expires_at w))\<rparr>))
                | _ \<Rightarrow> Inr None)))"

datatype action = Act_pruned | Act_expired | Act_noop | Act_deferred | Act_synthesized | Act_preserved

record coordinator =
  co_service :: service_config
  co_has_service :: bool
  earliest_delay_seconds :: seconds
  cleanup_batch_size :: int

definition expire_candidate ::
  "'p env \<Rightarrow> coordinator \<Rightarrow> string \<Rightarrow> 'p world \<Rightarrow> (service_error + transition_result) \<times> 'p world" where
  "expire_candidate e co wid s =
     (if co_has_service co then service_expire e (co_service co) wid s
      else call_repo e (\<lambda>t. expire_if_eligible (sha1hex e) t wid None False) s)"

definition reconcile_one ::
  "'p env \<Rightarrow> coordinator \<Rightarrow> recovery_candidate \<Rightarrow> time \<Rightarrow> 'p world \<Rightarrow> (service_error + action) \<times> 'p world" where
  "reconcile_one e co c now s =
     (let wid = rc_watch_id c;
          prune = (\<lambda>from_all. proceed (call_repo e (\<lambda>t r. ((), prune_index_member wid from_all r)) s)
                                (\<lambda>_ s1. (Inr Act_pruned, s1)))
      in case rc_watch c of
        None \<Rightarrow> prune True
      | Some w \<Rightarrow>
          if is_terminal (w_status w) then prune False
          else if is_exhausted w now then
            proceed (expire_candidate e co wid s)
              (\<lambda>res s1. (Inr (if tr_status res = Transition_APPLIED then Act_expired else Act_noop), s1))
          else if has_live_claim c then (Inr Act_deferred, s)
          else if \<not> has_marker c then
            (case marker_runtime (earliest_delay_seconds co) c w now of
               Inl err \<Rightarrow> (Inl (Model_Error err), s)
             | Inr None \<Rightarrow> (Inr Act_noop, s)
             | Inr (Some rt) \<Rightarrow>
                 proceed (call_repo e (\<lambda>t. synthesize_marker t wid rt) s)
                   (\<lambda>repaired s1. (Inr (if repaired then Act_synthesized else Act_noop), s1)))
          else (Inr Act_preserved, s))"

section \<open>One pass\<close>

record tally =
  t_pruned :: int
  t_expired :: int
  t_synthesized :: int
  t_failed :: int

definition count_action :: "service_error + action \<Rightarrow> tally \<Rightarrow> tally" where
  "count_action res t =
     (case res of
        Inl _ \<Rightarrow> t\<lparr>t_failed := t_failed t + 1\<rparr>
      | Inr Act_pruned \<Rightarrow> t\<lparr>t_pruned := t_pruned t + 1\<rparr>
      | Inr Act_expired \<Rightarrow> t\<lparr>t_expired := t_expired t + 1\<rparr>
      | Inr Act_synthesized \<Rightarrow> t\<lparr>t_synthesized := t_synthesized t + 1\<rparr>
      | Inr _ \<Rightarrow> t)"

fun reconcile_all ::
  "'p env \<Rightarrow> coordinator \<Rightarrow> recovery_candidate list \<Rightarrow> time \<Rightarrow> tally \<times> 'p world \<Rightarrow> tally \<times> 'p world" where
  "reconcile_all e co [] now st = st"
| "reconcile_all e co (c # cs) now (t, s) =
     (let (res, s') = reconcile_one e co c now s
      in reconcile_all e co cs now (count_action res t, s'))"

text \<open>
  A sweep that raises is reported as one failure, although it may have published markers before.
\<close>

definition run_dispatch ::
  "'p env \<Rightarrow> dispatcher \<Rightarrow> 'p world \<Rightarrow> (int \<times> int \<times> bool) \<times> 'p world" where
  "run_dispatch e d s =
     (case dispatch_due e d s of
        (Inl _, s') \<Rightarrow> ((0, 1, True), s')
      | (Inr r, s') \<Rightarrow> ((dispatched r, failed r, has_backlog r), s'))"

text \<open>\<open>mock\<close> is the optional mock-state cleanup, a function of the provider's state.\<close>

definition run_cleanup ::
  "'p env \<Rightarrow> coordinator \<Rightarrow> (time \<Rightarrow> int \<Rightarrow> 'p \<Rightarrow> 'p) option \<Rightarrow> time \<Rightarrow> 'p world
     \<Rightarrow> (int \<times> bool) \<times> 'p world" where
  "run_cleanup e co mock now s =
     (let ((removed_n, behind), s1) =
        (case call_repo e (\<lambda>t. cleanup_due now (cleanup_batch_size co)) s of
           (Inl _, s') \<Rightarrow> ((0, True), s')
         | (Inr res, s') \<Rightarrow> ((removed res, remaining res), s'))
      in case mock of
           None \<Rightarrow> ((removed_n, behind), s1)
         | Some clean \<Rightarrow>
             (case await_call e (on_provider (\<lambda>t p. ((), clean now (cleanup_batch_size co) p))) s1 of
                (Inl _, s2) \<Rightarrow> ((removed_n, True), s2)
              | (Inr _, s2) \<Rightarrow> ((removed_n, behind), s2)))"

definition run_pass ::
  "'p env \<Rightarrow> coordinator \<Rightarrow> dispatcher \<Rightarrow> (time \<Rightarrow> int \<Rightarrow> 'p \<Rightarrow> 'p) option \<Rightarrow> 'p world
     \<Rightarrow> recovery_outcome \<times> 'p world" where
  "run_pass e co d mock s =
     (let now = w_now s in
      case call_repo e (\<lambda>t r. (list_recovery_candidates t r, r)) s of
        (Inl _, s1) \<Rightarrow> (no_pass True 1 True, s1)
      | (Inr candidates, s1) \<Rightarrow>
        (let (t, s2) = reconcile_all e co candidates now
                         (\<lparr>t_pruned = 0, t_expired = 0, t_synthesized = 0, t_failed = 0\<rparr>, s1);
             ((sent, lost, dispatch_behind), s3) = run_dispatch e d s2;
             ((cleaned, cleanup_behind), s4) = run_cleanup e co mock now s3
         in (\<lparr>is_leader = True, ro_considered = int (length candidates), pruned = t_pruned t,
              expired = t_expired t, synthesized = t_synthesized t, ro_dispatched = sent,
              dispatch_failed = lost, ro_failed = t_failed t, cleanup_removed = cleaned,
              backlog = (0 < t_failed t \<or> dispatch_behind \<or> cleanup_behind)\<rparr>, s4)))"

text \<open>\<open>leading\<close> is how \<^verbatim>\<open>_hold_leadership\<close> ended: its answer, or what it raised.\<close>

definition reconcile_once ::
  "'p env \<Rightarrow> coordinator \<Rightarrow> dispatcher \<Rightarrow> (time \<Rightarrow> int \<Rightarrow> 'p \<Rightarrow> 'p) option \<Rightarrow>
   service_error + bool \<Rightarrow> 'p world \<Rightarrow> recovery_outcome \<times> 'p world" where
  "reconcile_once e co d mock leading s =
     (case leading of
        Inl _ \<Rightarrow> (no_pass False 1 True, s)
      | Inr False \<Rightarrow> (no_pass False 0 False, s)
      | Inr True \<Rightarrow> run_pass e co d mock s)"

section \<open>Readiness\<close>

datatype readiness = READY | DEGRADED | UNKNOWN_READINESS

record tracker =
  queue_state :: readiness
  queue_observed_at :: "time option"
  recovery_state :: readiness
  recovery_observed_at :: "time option"
  was_leader :: bool
  history_state :: readiness
  history_observed_at :: "time option"

definition new_tracker :: tracker where
  "new_tracker = \<lparr>queue_state = UNKNOWN_READINESS, queue_observed_at = None,
     recovery_state = UNKNOWN_READINESS, recovery_observed_at = None, was_leader = False,
     history_state = UNKNOWN_READINESS, history_observed_at = None\<rparr>"

definition record_dispatch_outcome :: "time \<Rightarrow> int \<Rightarrow> int \<Rightarrow> tracker \<Rightarrow> tracker" where
  "record_dispatch_outcome now sent lost t =
     (if 0 < lost then t\<lparr>queue_state := DEGRADED, queue_observed_at := Some now\<rparr>
      else if 0 < sent then t\<lparr>queue_state := READY, queue_observed_at := Some now\<rparr>
      else t)"

definition record_recovery_outcome :: "time \<Rightarrow> recovery_outcome \<Rightarrow> tracker \<Rightarrow> tracker" where
  "record_recovery_outcome now ro t =
     (let t1 = t\<lparr>recovery_observed_at := Some now\<rparr>;
          t2 = (if is_leader ro then
                  t1\<lparr>was_leader := True, recovery_state := (if ready ro then READY else DEGRADED)\<rparr>
                else if 0 < ro_failed ro \<or> was_leader t1 then t1\<lparr>recovery_state := DEGRADED\<rparr>
                else t1)
      in record_dispatch_outcome now (ro_dispatched ro) (dispatch_failed ro) t2)"

definition record_history_outcome :: "time \<Rightarrow> bool \<Rightarrow> tracker \<Rightarrow> tracker" where
  "record_history_outcome now fine t =
     t\<lparr>history_state := (if fine then READY else DEGRADED), history_observed_at := Some now\<rparr>"

end
