(* ===== verification/Recovery_Properties.thy ===== *)
theory Recovery_Properties
  imports Recovery Service_Creation Watch_Schedule "HOL-Library.Sublist"
begin

text \<open>
  What dispatch and recovery promise: a sweep counts every marker once and publishes only what it
  claimed; a recovery pass, under any interference, repairs schedules only by the store's methods; the
  leader lease excludes; readiness is only reported on evidence.
\<close>

section \<open>Dispatch sweeps\<close>

definition sweep_total :: "sweep_result \<Rightarrow> int" where
  "sweep_total r = dispatched r + deferred r + failed r"

lemma count_outcome_simps [simp]:
  "considered (count_outcome oc r) = considered r"
  "sweep_total (count_outcome oc r) = sweep_total r + 1"
  by (cases oc; simp add: count_outcome_def sweep_total_def)+

text \<open>Time in the world's await counter never runs backwards.\<close>

lemma awaits_logs [simp]:
  "w_awaits (s\<lparr>published := q\<rparr>) = w_awaits s" "w_awaits (s\<lparr>notified := n\<rparr>) = w_awaits s"
  "w_awaits (s\<lparr>history_calls := h\<rparr>) = w_awaits s"
  by simp_all

lemma await_call_awaits:
  assumes "\<And>x. w_awaits (snd (f x)) = w_awaits x"
  shows "w_awaits (snd (await_call e f s)) = Suc (w_awaits s)"
  using assms [of "pause e s"]
  by (auto simp: await_call_def Let_def split: cut.split prod.split)

lemma call_repo_awaits [simp]: "w_awaits (snd (call_repo e f s)) = Suc (w_awaits s)"
  unfolding call_repo_def by (rule await_call_awaits) simp

lemma call_repo_broke: "fst (call_repo e f s) = Inl err \<Longrightarrow> broke e s (snd (call_repo e f s))"
  unfolding broke_def call_repo_awaits
  by (intro exI [of _ "w_awaits s"])
     (auto simp: call_repo_def await_call_def Let_def split: cut.splits prod.splits)

text \<open>A continuation after a call: what holds of both ends holds of the whole.\<close>

lemma proceed_cases:
  assumes "proceed out k = (res, s')"
  obtains (raised) err where "out = (Inl err, s')" "res = Inl err"
    | (went_on) x s1 where "out = (Inr x, s1)" "k x s1 = (res, s')"
  using assms by (cases out; cases "fst out") auto

lemma broke_later: "broke e s1 s2 \<Longrightarrow> w_awaits s \<le> w_awaits s1 \<Longrightarrow> w_awaits s2 \<le> w_awaits s' \<Longrightarrow> broke e s s'"
  unfolding broke_def by (metis le_trans less_le_trans)

definition publication_of :: "schedule_marker \<Rightarrow> time \<Rightarrow> publication \<Rightarrow> bool" where
  "publication_of m now p \<longleftrightarrow>
     pub_watch_id p = mk_watch_id m \<and> pub_window_id p = Some (mk_window_id m) \<and>
     pub_delay_seconds p = max 0 (total_seconds (mk_scheduled_for m - now)) \<and>
     pub_due_at p = Some (mk_scheduled_for m)"

text \<open>
  One marker is published at most once, and exactly when it does not count as deferred; a step that
  raises does so because a call of the store raised.
\<close>

lemma dispatch_one_logs:
  assumes "dispatch_one e d m now s = (res, s')"
  shows "notified s' = notified s" and "w_awaits s \<le> w_awaits s'"
    and "res = Inr Out_DEFERRED \<Longrightarrow> published s' = published s"
    and "res = Inr Out_DISPATCHED \<or> res = Inr Out_FAILED \<Longrightarrow>
      \<exists>p. published s' = published s @ [p] \<and> publication_of m now p"
    and "res = Inl err \<Longrightarrow> broke e s s' \<and>
      (published s' = published s \<or> (\<exists>p. published s' = published s @ [p] \<and> publication_of m now p))"
proof -
  let ?f = "\<lambda>t. claim_dispatch t m (dp_owner_id d) (dp_lease_seconds d)"
  let ?went = "\<lambda>s'. \<exists>p. published s' = published s @ [p] \<and> publication_of m now p"
  have "notified s' = notified s \<and> w_awaits s \<le> w_awaits s' \<and>
    (res = Inr Out_DEFERRED \<longrightarrow> published s' = published s) \<and>
    (res = Inr Out_DISPATCHED \<or> res = Inr Out_FAILED \<longrightarrow> ?went s') \<and>
    (\<forall>err. res = Inl err \<longrightarrow> broke e s s' \<and> (published s' = published s \<or> ?went s'))"
    using assms unfolding dispatch_one_def
  proof (cases rule: proceed_cases)
    case (raised err)
    with call_repo_broke [of e ?f s] call_repo_logs [of e ?f s] call_repo_awaits [of e ?f s] show ?thesis by simp
  next
    case (went_on x s1)
    note first = call_repo_answer [OF went_on(1)]
    have s1: "notified s1 = notified s" "published s1 = published s" "w_awaits s1 = Suc (w_awaits s)"
      using call_repo_logs [of e ?f s] call_repo_awaits [of e ?f s] by (simp_all add: went_on(1))
    show ?thesis
    proof (cases "dr_status x = Dispatch_CLAIMED")
      case False
      with went_on(2) s1 show ?thesis by auto
    next
      case True
      with first obtain cl where cl: "dr_claim x = Some cl"
        by (cases rule: claim_dispatch_cases [of "w_now (pause e s)" m "dp_owner_id d" "dp_lease_seconds d" "w_repo (pause e s)"])
           auto
      let ?delay = "max 0 (total_seconds (mk_scheduled_for m - now))"
      obtain accepted s2 where pub: "publish_marker e m cl ?delay s1 = (accepted, s2)" by fastforce
      have s2: "notified s2 = notified s" "w_awaits s2 = Suc (w_awaits s1)" "?went s2"
        using pub s1 by (auto simp: publish_marker_def publication_of_def)
      obtain g :: "time \<Rightarrow> watch_repo \<Rightarrow> bool \<times> watch_repo" and oc where
        last: "proceed (call_repo e g s2) (\<lambda>_ s3. (Inr oc, s3)) = (res, s')" "oc \<noteq> Out_DEFERRED"
        using went_on(2) True cl pub by (cases accepted) (auto simp: Let_def)
      have s3: "notified (snd (call_repo e g s2)) = notified s" "?went (snd (call_repo e g s2))"
        "w_awaits (snd (call_repo e g s2)) = Suc (w_awaits s2)" using s2 by simp_all
      from last(1) show ?thesis
      proof (cases rule: proceed_cases)
        case (raised err)
        with call_repo_broke [of e g s2] have "broke e s2 s'" by simp
        from broke_later [OF this] s2 s1 have "broke e s s'" by simp
        with s3 s2 s1 raised show ?thesis by simp
      next
        case (went_on y s3)
        with s3 s2 s1 last(2) show ?thesis by auto
      qed
    qed
  qed
  then show "notified s' = notified s" "w_awaits s \<le> w_awaits s'"
    "res = Inr Out_DEFERRED \<Longrightarrow> published s' = published s"
    "res = Inr Out_DISPATCHED \<or> res = Inr Out_FAILED \<Longrightarrow> ?went s'"
    "res = Inl err \<Longrightarrow> broke e s s' \<and> (published s' = published s \<or> ?went s')"
    by blast+
qed

text \<open>The publications of a sweep: those of a subsequence of the markers it read, in their order.\<close>

definition published_from ::
  "schedule_marker list \<Rightarrow> time \<Rightarrow> 'p world \<Rightarrow> 'p world \<Rightarrow> publication list \<Rightarrow> bool" where
  "published_from ms now s s' ps \<longleftrightarrow>
     published s' = published s @ ps \<and> (\<exists>ms'. subseq ms' ms \<and> list_all2 (\<lambda>m p. publication_of m now p) ms' ps)"

lemma published_from_nil: "published s' = published s \<Longrightarrow> published_from ms now s s' []"
  by (auto simp: published_from_def)

lemma published_from_skip: "published_from ms now s s' ps \<Longrightarrow> published_from (m # ms) now s s' ps"
  by (auto simp: published_from_def intro: list_emb_Cons)

lemma published_from_step:
  "published s1 = published s @ [p] \<Longrightarrow> publication_of m now p \<Longrightarrow> published_from ms now s1 s' ps \<Longrightarrow>
   published_from (m # ms) now s s' (p # ps)"
  unfolding published_from_def by (metis append.assoc append_Cons append_Nil list_all2_Cons subseq_Cons2)

definition sweep_counts :: "sweep_result \<Rightarrow> sweep_result \<Rightarrow> nat \<Rightarrow> nat \<Rightarrow> bool" where
  "sweep_counts r r' found sent \<longleftrightarrow> considered r' = considered r \<and>
     sweep_total r' = sweep_total r + int found \<and>
     deferred r \<le> deferred r' \<and> dispatched r \<le> dispatched r' \<and> failed r \<le> failed r' \<and>
     int sent = (dispatched r' - dispatched r) + (failed r' - failed r)"

lemma dispatch_markers_logs:
  "dispatch_markers e d ms now r s = (res, s') \<Longrightarrow>
   notified s' = notified s \<and> w_awaits s \<le> w_awaits s' \<and>
   (\<exists>ps. published_from ms now s s' ps \<and>
      (case res of Inl err \<Rightarrow> broke e s s' | Inr r' \<Rightarrow> sweep_counts r r' (length ms) (length ps)))"
proof (induction ms arbitrary: r s)
  case Nil
  then show ?case
    by (auto simp: sweep_counts_def intro!: exI [of _ "[]"] published_from_nil)
next
  case (Cons m ms)
  from Cons.prems have run: "proceed (dispatch_one e d m now s)
      (\<lambda>oc s'. dispatch_markers e d ms now (count_outcome oc r) s') = (res, s')" by simp
  from run show ?case
  proof (cases rule: proceed_cases)
    case (raised err)
    note logs = dispatch_one_logs [OF raised(1)]
    from logs(5) [OF refl] obtain ps where "published_from (m # ms) now s s' ps"
      using published_from_nil published_from_step [OF _ _ published_from_nil [OF refl]] by blast
    with logs(1,2) logs(5) [OF refl] raised(2) show ?thesis by auto
  next
    case (went_on oc s1)
    note logs = dispatch_one_logs [OF went_on(1)]
    from Cons.IH [OF went_on(2)] obtain ps where rest: "notified s' = notified s1" "w_awaits s1 \<le> w_awaits s'"
      "published_from ms now s1 s' ps"
      "case res of Inl err \<Rightarrow> broke e s1 s' | Inr r' \<Rightarrow> sweep_counts (count_outcome oc r) r' (length ms) (length ps)"
      by blast
    have later: "broke e s s'" if "broke e s1 s'" using broke_later [OF that logs(2)] by simp
    show ?thesis
    proof (cases "oc = Out_DEFERRED")
      case True
      with logs(3) have "published_from (m # ms) now s s' ps"
        using rest(3) published_from_skip [of ms now s s' ps m] by (simp add: published_from_def)
      moreover have "sweep_counts r r' (length (m # ms)) (length ps)"
        if "sweep_counts (count_outcome oc r) r' (length ms) (length ps)" for r'
        using that True by (auto simp: sweep_counts_def count_outcome_def sweep_total_def)
      ultimately show ?thesis using rest logs(1,2) later by (cases res) auto
    next
      case False
      then have "Inr oc = Inr Out_DISPATCHED \<or> Inr oc = (Inr Out_FAILED :: service_error + dispatch_outcome)"
        by (cases oc) auto
      from logs(4) [OF this] obtain p where "published s1 = published s @ [p]" "publication_of m now p" by blast
      note pub = published_from_step [OF this rest(3)]
      have "sweep_counts r r' (length (m # ms)) (length (p # ps))"
        if "sweep_counts (count_outcome oc r) r' (length ms) (length ps)" for r'
        using that False by (cases oc) (auto simp: sweep_counts_def count_outcome_def sweep_total_def)
      then have "case res of Inl err \<Rightarrow> broke e s s' | Inr r' \<Rightarrow> sweep_counts r r' (length (m # ms)) (length (p # ps))"
        using rest(4) later by (cases res) simp_all
      with pub rest logs(1,2) show ?thesis by (intro conjI exI [of _ "p # ps"]) simp_all
    qed
  qed
qed

lemma dispatch_due_logs:
  assumes "dispatch_due e d s = (res, s')"
  shows "notified s' = notified s \<and> w_awaits s \<le> w_awaits s' \<and>
    (\<exists>ps. published s' = published s @ ps \<and>
      (case res of
         Inl err \<Rightarrow> broke e s s'
       | Inr r \<Rightarrow> 0 \<le> failed r \<and> 0 \<le> dispatched r \<and> 0 \<le> deferred r \<and> sweep_total r = considered r \<and>
           int (length ps) = dispatched r + failed r))"
  using assms unfolding dispatch_due_def Let_def
proof (cases rule: proceed_cases)
  case (raised err)
  let ?f = "\<lambda>_. \<lambda>r. (due_schedule_markers (w_now s) (horizon_seconds d) (batch_size d) r, r)"
  show ?thesis
    using raised call_repo_broke [of e ?f s] call_repo_logs [of e ?f s] call_repo_awaits [of e ?f s]
    by (auto simp: read_repo_def intro!: exI [of _ "[]"])
next
  case (went_on ms s1)
  let ?f = "\<lambda>_. \<lambda>r. (due_schedule_markers (w_now s) (horizon_seconds d) (batch_size d) r, r)"
  have s1: "notified s1 = notified s" "published s1 = published s" "w_awaits s1 = Suc (w_awaits s)"
    using went_on(1) call_repo_logs [of e ?f s] call_repo_awaits [of e ?f s] by (simp_all add: read_repo_def)
  from dispatch_markers_logs [OF went_on(2)] obtain ps where ps: "notified s' = notified s1" "w_awaits s1 \<le> w_awaits s'"
    "published_from ms (w_now s) s1 s' ps"
    "case res of Inl err \<Rightarrow> broke e s1 s'
       | Inr r' \<Rightarrow> sweep_counts \<lparr>considered = int (length ms), dispatched = 0, deferred = 0, failed = 0\<rparr> r'
             (length ms) (length ps)" by blast
  have "broke e s s'" if "broke e s1 s'" using broke_later [OF that] s1(3) by simp
  with ps s1 show ?thesis
    by (cases res) (auto simp: published_from_def sweep_counts_def sweep_total_def)
qed

section \<open>Recovery candidates\<close>

text \<open>
  A candidate stays fit for repair: whatever the store has done since it was read, an undated sidecar
  of its watch is not newer than the one the candidate carries.
\<close>

definition read_revision :: "recovery_candidate \<Rightarrow> int" where
  "read_revision c = (case rc_runtime c of None \<Rightarrow> -1 | Some rt \<Rightarrow> revision rt)"

definition candidate_current :: "recovery_candidate \<Rightarrow> watch_repo \<Rightarrow> bool" where
  "candidate_current c r \<longleftrightarrow> (\<forall>rt. rc_runtime c = Some rt \<longrightarrow> 0 \<le> revision rt) \<and>
     active_runtime (\<lambda>x. numbered x \<and> dated_past (read_revision c) x) (rc_watch_id c) r"

definition numbered_store :: "watch_repo \<Rightarrow> bool" where
  "numbered_store r \<longleftrightarrow> (\<forall>k. active_runtime numbered k r)"

lemma kept_true [simp]: "kept_by_store (\<lambda>x. True)"
  by (simp add: kept_by_store_def)

lemma store_history_kept:
  assumes "store_history sha r r'" and "kept_by_store P" and "repo_ok r"
    and "active_runtime (\<lambda>x. numbered x \<and> P x) k r"
  shows "active_runtime (\<lambda>x. numbered x \<and> P x) k r'"
  using assms(1) unfolding store_history_def
proof (induction rule: rtranclp_induct)
  case (step y z)
  from step.hyps(1) have "repo_ok y"
    using assms(3) store_history_ok [of sha r y] by (simp add: store_history_def)
  with step assms(2) show ?case using kept by blast
qed (rule assms(4))

lemma candidate_current_later:
  "store_history sha r r' \<Longrightarrow> repo_ok r \<Longrightarrow> candidate_current c r \<Longrightarrow> candidate_current c r'"
  using store_history_kept [OF _ kept_instances(2)] by (auto simp: candidate_current_def)

lemma numbered_store_later:
  "store_history sha r r' \<Longrightarrow> repo_ok r \<Longrightarrow> numbered_store r \<Longrightarrow> numbered_store r'"
  using store_history_kept [of sha r r' "\<lambda>x. True"] by (simp add: numbered_store_def)

lemma candidates_current:
  assumes "repo_ok r" and "numbered_store r" and "c \<in> set (list_recovery_candidates now r)"
  shows "candidate_current c r"
proof -
  from assms(3) obtain k w where c: "(k, w) \<in> set (watches r)" "w_status w = ACTIVE"
    "rc_watch_id c = k" "rc_runtime c = dict_get (runtimes r) k"
    by (auto simp: list_recovery_candidates_def)
  have "dict_ok (watches r)" using assms(1) by (simp add: repo_ok_def dicts_ok_def)
  from iffD1 [OF dict_get_in_set [OF this] c(1)] have "dict_get (watches r) k = Some w" .
  with c(2) have "c_active (cell_of r k)" by (simp add: c_active_cell_of)
  with assms(2) have "numbered (dict_get (runtimes r) k)"
    by (simp add: numbered_store_def active_runtime_def)
  with c(3,4) show ?thesis
    by (auto simp: candidate_current_def active_runtime_def read_revision_def)
qed

text \<open>The sidecar a repair writes is dated, never past the expiry and not older than the one read.\<close>

lemma marker_runtime_facts:
  assumes "marker_runtime earliest c w now = Inr (Some rt)"
  shows "dated rt" and "\<exists>t. rt_scheduled_for rt = Some t \<and> t \<le> w_expires_at w"
    and "rc_runtime c = None \<Longrightarrow> revision rt = 0" and "rc_runtime c = Some old \<Longrightarrow> revision rt = revision old"
proof -
  have "dated rt \<and> (\<exists>t. rt_scheduled_for rt = Some t \<and> t \<le> w_expires_at w) \<and>
      (rc_runtime c = None \<longrightarrow> revision rt = 0) \<and> (\<forall>old. rc_runtime c = Some old \<longrightarrow> revision rt = revision old)"
    using assms
    by (auto simp: marker_runtime_def dated_def migrate_legacy_watch_def checked_runtime_def Let_def
        split: option.splits sum.splits if_splits)
  then show "dated rt" "\<exists>t. rt_scheduled_for rt = Some t \<and> t \<le> w_expires_at w"
    "rc_runtime c = None \<Longrightarrow> revision rt = 0" "rc_runtime c = Some old \<Longrightarrow> revision rt = revision old"
    by blast+
qed

lemma repair_history:
  assumes "repo_ok r" and "candidate_current c r"
    and "marker_runtime earliest c w now0 = Inr (Some rt)"
  shows "store_history sha r (snd (synthesize_marker now (rc_watch_id c) rt r))"
proof (cases rule: synthesize_cases [of now "rc_watch_id c" rt r])
  case refused
  then show ?thesis by simp
next
  case (written w')
  note m = marker_runtime_facts [OF assms(3)]
  from written(1,2) have active: "c_active (cell_of r (rc_watch_id c))" by (simp add: c_active_cell_of)
  have "revision x \<le> revision rt" if x: "dict_get (runtimes r) (rc_watch_id c) = Some x" for x
  proof -
    from unmarked_undated [OF assms(1) active written(4) x] have "\<not> dated x" .
    with assms(2) active x have "revision x \<le> read_revision c"
      by (auto simp: candidate_current_def active_runtime_def)
    with m(3,4) show ?thesis by (auto simp: read_revision_def split: option.splits)
  qed
  moreover have "0 \<le> revision rt"
    using m(3,4) assms(2) by (cases "rc_runtime c") (auto simp: candidate_current_def)
  ultimately show ?thesis
    using m(1) by (intro store_history_step [OF step_synthesize]) auto
qed

section \<open>A pass keeps to the store's methods\<close>

context watch_service
begin

lemma leads_call:
  assumes "leads e ok s s'" and "\<And>now r. repo_ok r \<Longrightarrow> store_history (sha1hex e) r (snd (f now r))"
  shows "leads e ok s (snd (call_repo e f s'))"
  by (rule leads_trans [OF assms(1) leads_call_repo [OF leads_good [OF assms(1)] assms(2)]])

lemma leads_publish:
  "leads e ok s s' \<Longrightarrow> leads e ok s (snd (publish_marker e m cl delay s'))"
  using leads_trans [OF _ leads_pause [OF leads_good]] by (simp add: publish_marker_def)

lemma leads_dispatch_one: "good ok s \<Longrightarrow> leads e ok s (snd (dispatch_one e d m now s))"
proof -
  assume good: "good ok s"
  let ?f = "\<lambda>t. claim_dispatch t m (dp_owner_id d) (dp_lease_seconds d)"
  have first: "leads e ok s (snd (call_repo e ?f s))"
    using leads_call [OF leads_refl [OF good], of ?f] store_history_step [OF step_claim_dispatch] by simp
  have last: "leads e ok s (snd (proceed (call_repo e (\<lambda>t. release_dispatch cl) s2) (\<lambda>_ s3. (Inr oc, s3))))"
    "leads e ok s (snd (proceed (call_repo e (\<lambda>t. mark_dispatched cl x) s2) (\<lambda>_ s3. (Inr oc, s3))))"
    if "leads e ok s s2" for cl oc x s2
    by (rule leads_proceed [OF leads_call [OF that]], rule store_history_step,
        rule step_release_dispatch step_mark_dispatched, simp)+
  show ?thesis
    unfolding dispatch_one_def
    by (rule leads_proceed [OF first])
       (auto simp: Let_def case_prod_unfold split: option.split intro!: last leads_publish)
qed

lemma leads_dispatch_markers:
  "leads e ok s0 s \<Longrightarrow> leads e ok s0 (snd (dispatch_markers e d ms now r s))"
proof (induction ms arbitrary: r s)
  case (Cons m ms)
  note leads_trans [OF Cons.prems leads_dispatch_one [OF leads_good [OF Cons.prems], of d m now]]
  from this show ?case unfolding dispatch_markers.simps by (rule leads_proceed) (rule Cons.IH)
qed simp

lemma leads_dispatch_due: "leads e ok s0 s \<Longrightarrow> leads e ok s0 (snd (dispatch_due e d s))"
  unfolding dispatch_due_def Let_def
  by (rule leads_proceed [OF leads_trans [OF _ leads_read_repo [OF leads_good]]])
     (assumption+, rule leads_dispatch_markers)

lemma leads_reconcile_one:
  assumes good: "good ok s" and current: "candidate_current c (w_repo s)" and cfg: "co_service co = cfg"
  shows "leads e ok s (snd (reconcile_one e co c now s))"
proof -
  note step = leads_call [OF leads_refl [OF good]]
  have tail: "leads e ok s (snd (proceed out (\<lambda>x s1. (g x, s1))))" if "leads e ok s (snd out)"
    for out :: "(service_error + 'x) \<times> 'p world" and g :: "'x \<Rightarrow> service_error + action"
    by (rule leads_proceed [OF that]) simp
  have prune: "leads e ok s (snd (call_repo e (\<lambda>t r. ((), prune_index_member (rc_watch_id c) b r)) s))" for b
    by (rule step) (simp add: store_history_step [OF step_prune])
  have expire: "leads e ok s (snd (expire_candidate e co (rc_watch_id c) s))"
    using leads_service_expire [OF good] step [of "\<lambda>t. expire_if_eligible (sha1hex e) t (rc_watch_id c) None False"]
      store_history_step [OF step_expire] by (auto simp: expire_candidate_def cfg)
  have repair: "leads e ok s (snd (call_repo e (\<lambda>t. synthesize_marker t (rc_watch_id c) rt) s))"
    if m: "marker_runtime (earliest_delay_seconds co) c w now = Inr (Some rt)" for w rt
  proof -
    note 1 = leads_pause [OF good]
    then have "candidate_current c (w_repo (pause e s))" "repo_ok (w_repo (pause e s))"
      using current good candidate_current_later by (auto simp: leads_def good_def)
    from repair_history [OF this(2,1) m]
    have "store_history (sha1hex e) (w_repo (pause e s))
        (snd (synthesize_marker (w_now (pause e s)) (rc_watch_id c) rt (w_repo (pause e s))))" .
    then have "leads e ok (pause e s) (snd (on_repo (\<lambda>t. synthesize_marker t (rc_watch_id c) rt) (pause e s)))"
      using leads_good [OF 1] store_history_ok
      by (cases "synthesize_marker (w_now (pause e s)) (rc_watch_id c) rt (w_repo (pause e s))")
         (auto simp: on_repo_def leads_def good_def)
    from await_call_sound(1) [OF good, of "on_repo (\<lambda>t. synthesize_marker t (rc_watch_id c) rt)"]
      leads_trans [OF 1 this] show ?thesis by (simp add: call_repo_def)
  qed
  show ?thesis
    using good
    by (auto simp: reconcile_one_def Let_def split: option.split sum.split intro!: tail prune expire repair)
qed

lemma leads_reconcile_all:
  assumes "leads e ok s0 s" and "\<And>c. c \<in> set cs \<Longrightarrow> candidate_current c (w_repo s)" and "co_service co = cfg"
  shows "leads e ok s0 (snd (reconcile_all e co cs now (t, s)))"
  using assms(1,2)
proof (induction cs arbitrary: t s)
  case (Cons c cs)
  obtain res s1 where one: "reconcile_one e co c now s = (res, s1)" by fastforce
  note good = leads_good [OF Cons.prems(1)]
  from leads_reconcile_one [OF good Cons.prems(2) assms(3), of c now] have 1: "leads e ok s s1"
    by (simp add: one)
  then have "candidate_current c' (w_repo s1)" if "c' \<in> set cs" for c'
    using Cons.prems(2) good that candidate_current_later by (auto simp: leads_def good_def)
  with Cons.IH [OF leads_trans [OF Cons.prems(1) 1]] show ?case by (simp add: one)
qed simp

lemma leads_run_cleanup:
  assumes lead: "leads e ok s s3" and mock: "\<And>clean now n p. mock = Some clean \<Longrightarrow> ok p \<Longrightarrow> ok (clean now n p)"
  shows "leads e ok s (snd (run_cleanup e co mock now s3))"
proof -
  have store: "leads e ok s (snd (call_repo e (\<lambda>t. cleanup_due now (cleanup_batch_size co)) s3))"
    by (rule leads_call [OF lead]) (rule store_history_step [OF step_cleanup])
  have prov: "leads e ok s (snd (await_call e (on_provider (\<lambda>t p. ((), g now (cleanup_batch_size co) p))) s'))"
    if "leads e ok s s'" "mock = Some g" for s' g
  proof (rule leads_trans [OF that(1) await_call_sound(1) [OF leads_good [OF that(1)]]])
    fix s1 assume "leads e ok s' s1"
    then show "leads e ok s' (snd (on_provider (\<lambda>t p. ((), g now (cleanup_batch_size co) p)) s1))"
      using mock [OF that(2)] by (simp add: on_provider_def leads_def good_def)
  qed simp
  obtain out s4 where run: "call_repo e (\<lambda>t. cleanup_due now (cleanup_batch_size co)) s3 = (out, s4)" by fastforce
  from store have lead4: "leads e ok s s4" by (simp add: run)
  show ?thesis
  proof (cases mock)
    case None
    with lead4 show ?thesis by (cases out) (simp_all add: run_cleanup_def run)
  next
    case (Some g)
    with prov [OF lead4 Some] show ?thesis
      by (cases out)
         (auto simp: run_cleanup_def run Let_def split: prod.split sum.split)
  qed
qed

lemma leads_run_pass:
  assumes good: "good ok s" and num: "numbered_store (w_repo s)" and cfg: "co_service co = cfg"
    and mock: "\<And>clean now n p. mock = Some clean \<Longrightarrow> ok p \<Longrightarrow> ok (clean now n p)"
  shows "leads e ok s (snd (run_pass e co d mock s))"
proof -
  let ?list = "\<lambda>t r. (list_recovery_candidates t r, r)"
  obtain out s1 where list: "call_repo e ?list s = (out, s1)" by fastforce
  have 1: "leads e ok s s1" using leads_call_repo [OF good, of ?list] by (simp add: list)
  show ?thesis
  proof (cases out)
    case (Inl err)
    with 1 show ?thesis by (simp add: run_pass_def list)
  next
    case (Inr cs)
    note answer = call_repo_answer [OF list [unfolded Inr]]
    have w1: "repo_ok (w_repo s1)" "numbered_store (w_repo s1)"
      using 1 good num numbered_store_later by (auto simp: leads_def good_def)
    have current: "candidate_current c (w_repo s1)" if "c \<in> set cs" for c
      using candidates_current [OF w1] that answer by auto
    let ?t = "\<lparr>t_pruned = 0, t_expired = 0, t_synthesized = 0, t_failed = 0\<rparr>"
    obtain t s2 where all: "reconcile_all e co cs (w_now s) (?t, s1) = (t, s2)" by fastforce
    have 2: "leads e ok s s2"
      using leads_reconcile_all [OF 1 current cfg, of cs "w_now s" ?t] all by simp
    obtain x s3 where disp: "run_dispatch e d s2 = (x, s3)" by fastforce
    have 3: "leads e ok s s3"
      using leads_dispatch_due [OF 2, of d] disp
      by (cases "dispatch_due e d s2"; cases "fst (dispatch_due e d s2)") (auto simp: run_dispatch_def)
    from leads_run_cleanup [OF 3, of mock co "w_now s"] mock show ?thesis
      by (simp add: run_pass_def Let_def list Inr all disp case_prod_unfold)
  qed
qed

end

section \<open>Accounting\<close>

definition expiries :: "watch list \<Rightarrow> (watch \<times> watch_event) list" where
  "expiries ws = map (\<lambda>w. (w, Event_EXPIRED)) ws"

lemma expiries_simps [simp]:
  "expiries [] = []" "expiries (ws @ ws') = expiries ws @ expiries ws'" "expiries [w] = [(w, Event_EXPIRED)]"
  by (simp_all add: expiries_def)

lemma expire_applied_result:
  "tr_status (fst (expire_if_eligible sha now wid n force r)) = Transition_APPLIED \<longleftrightarrow>
   (\<exists>w. tr_watch (fst (expire_if_eligible sha now wid n force r)) = Some w) \<and>
   tr_event_id (fst (expire_if_eligible sha now wid n force r)) \<noteq> None"
  by (auto simp: expire_if_eligible_def issue_event_def terminal_event_status_def Let_def
      split: option.splits prod.splits)

lemma service_expire_logs:
  assumes "service_expire e cfg wid s = (out, s')"
  shows "published s' = published s \<and> w_awaits s \<le> w_awaits s' \<and>
    (if \<exists>res. out = Inr res \<and> tr_status res = Transition_APPLIED
     then \<exists>w. notified s' = notified s @ expiries [w] else notified s' = notified s)"
  using assms unfolding service_expire_def
proof (cases rule: proceed_cases)
  case (raised err)
  let ?f = "\<lambda>now. expire_if_eligible (sha1hex e) now wid None False"
  show ?thesis using raised call_repo_logs [of e ?f s] call_repo_awaits [of e ?f s] by simp
next
  case (went_on res s1)
  let ?f = "\<lambda>now. expire_if_eligible (sha1hex e) now wid None False"
  have logs: "notified s1 = notified s" "published s1 = published s" "w_awaits s1 = Suc (w_awaits s)"
    using call_repo_logs [of e ?f s] call_repo_awaits [of e ?f s] by (simp_all add: went_on(1))
  from call_repo_answer [OF went_on(1)]
  have "res = fst (expire_if_eligible (sha1hex e) (w_now (pause e s)) wid None False (w_repo (pause e s)))"
    by (metis fst_conv)
  with expire_applied_result have res: "tr_status res = Transition_APPLIED \<longleftrightarrow>
      (\<exists>w. tr_watch res = Some w) \<and> tr_event_id res \<noteq> None" by simp
  show ?thesis
    using went_on(2) logs res
    by (cases "tr_status res = Transition_APPLIED")
       (auto simp: notify_owner_def record_history_def Let_def split: option.splits bool.splits if_splits)
qed

lemma expire_candidate_logs:
  assumes "expire_candidate e co wid s = (out, s')"
  shows "published s' = published s \<and> w_awaits s \<le> w_awaits s' \<and>
    (\<exists>ws. notified s' = notified s @ expiries ws \<and>
       length ws = (if co_has_service co \<and> (\<exists>res. out = Inr res \<and> tr_status res = Transition_APPLIED) then 1 else 0))"
proof (cases "co_has_service co")
  case True
  with service_expire_logs [of e "co_service co" wid s out s'] assms show ?thesis
    by (auto simp: expire_candidate_def split: if_splits intro: exI [of _ "[_]"])
next
  case False
  let ?f = "\<lambda>t. expire_if_eligible (sha1hex e) t wid None False"
  from False assms call_repo_logs [of e ?f s] call_repo_awaits [of e ?f s] show ?thesis
    by (simp add: expire_candidate_def)
qed

lemma quiet_proceed:
  assumes "proceed (call_repo e f s) (\<lambda>x s1. (Inr (g x), s1)) = (res, s')"
  shows "published s' = published s \<and> notified s' = notified s \<and> w_awaits s \<le> w_awaits s' \<and>
    ((\<forall>x. g x \<noteq> Act_expired) \<longrightarrow> res \<noteq> Inr Act_expired)"
  using assms call_repo_logs [of e f s] call_repo_awaits [of e f s]
  by (cases rule: proceed_cases) auto

lemma reconcile_one_logs:
  assumes "reconcile_one e co c now s = (res, s')"
  shows "published s' = published s \<and> w_awaits s \<le> w_awaits s' \<and>
    (\<exists>ws. notified s' = notified s @ expiries ws \<and>
       length ws = (if co_has_service co \<and> res = Inr Act_expired then 1 else 0))"
proof -
  consider (calls) f :: "time \<Rightarrow> watch_repo \<Rightarrow> unit \<times> watch_repo" and a where
      "proceed (call_repo e f s) (\<lambda>x s1. (Inr a, s1)) = (res, s')" "a \<noteq> Act_expired"
    | (repairs) f :: "time \<Rightarrow> watch_repo \<Rightarrow> bool \<times> watch_repo" where
      "proceed (call_repo e f s) (\<lambda>x s1. (Inr (if x then Act_synthesized else Act_noop), s1)) = (res, s')"
    | (expires) "proceed (expire_candidate e co (rc_watch_id c) s)
        (\<lambda>r s1. (Inr (if tr_status r = Transition_APPLIED then Act_expired else Act_noop), s1)) = (res, s')"
    | (idle) "s' = s" "res \<noteq> Inr Act_expired"
    using assms
    by (simp add: reconcile_one_def Let_def split: option.splits if_splits sum.splits) blast+
  then show ?thesis
  proof cases
    case calls
    from quiet_proceed [OF calls(1)] calls(2) show ?thesis by simp
  next
    case repairs
    from quiet_proceed [OF repairs] show ?thesis by simp
  next
    case expires
    then show ?thesis
    proof (cases rule: proceed_cases)
      case (raised err)
      from expire_candidate_logs [OF raised(1)] raised(2) show ?thesis by simp
    next
      case (went_on r s1)
      from expire_candidate_logs [OF went_on(1)] went_on(2) show ?thesis
        by (cases "tr_status r = Transition_APPLIED") auto
    qed
  next
    case idle
    then show ?thesis by simp
  qed
qed

definition tally_total :: "tally \<Rightarrow> int" where
  "tally_total t = t_pruned t + t_expired t + t_synthesized t + t_failed t"

lemma reconcile_all_logs:
  "reconcile_all e co cs now (t, s) = (t', s') \<Longrightarrow>
   published s' = published s \<and> w_awaits s \<le> w_awaits s' \<and> tally_total t' \<le> tally_total t + int (length cs) \<and>
   t_pruned t \<le> t_pruned t' \<and> t_expired t \<le> t_expired t' \<and> t_synthesized t \<le> t_synthesized t' \<and> t_failed t \<le> t_failed t' \<and>
   (\<exists>ws. notified s' = notified s @ expiries ws \<and>
      int (length ws) = (if co_has_service co then t_expired t' - t_expired t else 0))"
proof (induction cs arbitrary: t s)
  case (Cons c cs)
  obtain res s1 where one: "reconcile_one e co c now s = (res, s1)" by fastforce
  note logs = reconcile_one_logs [OF one]
  from Cons.prems one have "reconcile_all e co cs now (count_action res t, s1) = (t', s')" by simp
  note rest = Cons.IH [OF this]
  from rest logs obtain ws ws' where ws: "notified s1 = notified s @ expiries ws"
      "length ws = (if co_has_service co \<and> res = Inr Act_expired then 1 else 0)"
    and ws': "notified s' = notified s1 @ expiries ws'"
      "int (length ws') = (if co_has_service co then t_expired t' - t_expired (count_action res t) else 0)"
    by blast
  have "notified s' = notified s @ expiries (ws @ ws')" using ws(1) ws'(1) by simp
  moreover have "int (length (ws @ ws')) = (if co_has_service co then t_expired t' - t_expired t else 0)"
    using ws(2) ws'(2) by (auto simp: count_action_def split: sum.splits action.splits if_splits)
  ultimately have "\<exists>ws. notified s' = notified s @ expiries ws \<and>
      int (length ws) = (if co_has_service co then t_expired t' - t_expired t else 0)" by blast
  moreover have "tally_total (count_action res t) \<le> tally_total t + 1 \<and>
      t_pruned t \<le> t_pruned (count_action res t) \<and> t_expired t \<le> t_expired (count_action res t) \<and>
      t_synthesized t \<le> t_synthesized (count_action res t) \<and> t_failed t \<le> t_failed (count_action res t)"
    by (auto simp: count_action_def tally_total_def split: sum.split action.split)
  ultimately show ?case using rest logs by auto
qed (auto intro: exI [of _ "[]"])

text \<open>
  What a sweep hands to the pass: the count of what it published, or, when a call of the store broke
  it, one failure and a backlog, whatever it had published by then.
\<close>

definition sweep_reported ::
  "'p env \<Rightarrow> 'p world \<Rightarrow> 'p world \<Rightarrow> int \<Rightarrow> int \<Rightarrow> bool \<Rightarrow> bool" where
  "sweep_reported e s s' sent lost behind \<longleftrightarrow>
     (\<exists>ps. published s' = published s @ ps \<and>
        (int (length ps) = sent + lost \<or> sent = 0 \<and> lost = 1 \<and> behind \<and> broke e s s'))"

lemma run_dispatch_logs:
  assumes "run_dispatch e d s = ((sent, lost, behind), s')"
  shows "notified s' = notified s" and "w_awaits s \<le> w_awaits s'" and "behind \<longleftrightarrow> 0 < lost"
    and "0 \<le> lost" and "0 \<le> sent" and "sweep_reported e s s' sent lost behind"
proof -
  obtain res s1 where run: "dispatch_due e d s = (res, s1)" by fastforce
  have "notified s' = notified s \<and> w_awaits s \<le> w_awaits s' \<and> (behind \<longleftrightarrow> 0 < lost) \<and> 0 \<le> lost \<and> 0 \<le> sent \<and>
      sweep_reported e s s' sent lost behind"
    using dispatch_due_logs [OF run] assms
    by (cases res) (auto simp: run_dispatch_def run has_backlog_def sweep_reported_def)
  then show "notified s' = notified s" "w_awaits s \<le> w_awaits s'" "behind \<longleftrightarrow> 0 < lost" "0 \<le> lost" "0 \<le> sent"
    "sweep_reported e s s' sent lost behind" by blast+
qed

lemma on_provider_logs [simp]:
  "notified (snd (on_provider f s)) = notified s" "published (snd (on_provider f s)) = published s"
  by (simp_all add: on_provider_def split: prod.split)

lemma await_provider_logs:
  "notified (snd (await_call e (on_provider f) s)) = notified s \<and>
   published (snd (await_call e (on_provider f) s)) = published s \<and>
   w_awaits (snd (await_call e (on_provider f) s)) = Suc (w_awaits s)"
proof -
  obtain x s1 where run: "on_provider f (pause e s) = (x, s1)" by fastforce
  with on_provider_logs [of f "pause e s"] on_provider_awaits [of f "pause e s"] show ?thesis
    by (cases "fault e (w_awaits s)") (simp_all add: await_call_def Let_def)
qed

lemma run_cleanup_logs:
  assumes "run_cleanup e co mock now s = ((n, behind), s')"
  shows "notified s' = notified s \<and> published s' = published s \<and> w_awaits s \<le> w_awaits s'"
proof -
  let ?f = "\<lambda>t. cleanup_due now (cleanup_batch_size co)"
  obtain out s1 where run: "call_repo e ?f s = (out, s1)" by fastforce
  have s1: "notified s1 = notified s" "published s1 = published s" "w_awaits s1 = Suc (w_awaits s)"
    using call_repo_logs [of e ?f s] call_repo_awaits [of e ?f s] by (simp_all add: run)
  show ?thesis
  proof (cases mock)
    case None
    with assms s1 show ?thesis by (cases out) (auto simp: run_cleanup_def run)
  next
    case (Some g)
    let ?g = "\<lambda>t p. ((), g now (cleanup_batch_size co) p)"
    obtain answer s2 where last: "await_call e (on_provider ?g) s1 = (answer, s2)" by fastforce
    from await_provider_logs [of e ?g s1] s1 assms Some show ?thesis
      by (cases out; cases answer) (auto simp: run_cleanup_def run last)
  qed
qed

text \<open>What a recovery pass reports is what it did.\<close>

definition accounted :: "'p env \<Rightarrow> coordinator \<Rightarrow> 'p world \<Rightarrow> recovery_outcome \<Rightarrow> 'p world \<Rightarrow> bool" where
  "accounted e co s ro s' \<longleftrightarrow>
     (\<exists>ws. notified s' = notified s @ expiries ws \<and>
        int (length ws) = (if co_has_service co then expired ro else 0)) \<and>
     sweep_reported e s s' (ro_dispatched ro) (dispatch_failed ro) (backlog ro) \<and>
     (pruned ro + expired ro + synthesized ro + ro_failed ro \<le> ro_considered ro \<or>
      (\<exists>leader. ro = no_pass leader 1 True))"

lemma accounted_idle:
  assumes "notified s' = notified s" and "published s' = published s"
    and "ro = no_pass leader 1 True \<or> ro = no_pass False 0 False"
  shows "accounted e co s ro s'"
proof -
  have counts: "expired ro = 0" "ro_dispatched ro = 0" "dispatch_failed ro = 0"
    using assms(3) by (auto simp: no_pass_def)
  have "pruned ro + expired ro + synthesized ro + ro_failed ro \<le> ro_considered ro \<or>
      (\<exists>leader. ro = no_pass leader 1 True)"
    using assms(3) by (elim disjE) (blast, simp add: no_pass_def)
  moreover have "sweep_reported e s s' 0 0 (backlog ro)"
    unfolding sweep_reported_def by (intro exI [of _ "[]"]) (simp add: assms(2))
  moreover have "notified s' = notified s @ expiries []" by (simp add: assms(1))
  ultimately show ?thesis
    unfolding accounted_def counts by (intro conjI exI [of _ "[]"]) simp_all
qed

lemma run_pass_accounted:
  assumes "run_pass e co d mock s = (ro, s')"
  shows "accounted e co s ro s'"
proof -
  let ?list = "\<lambda>t r. (list_recovery_candidates t r, r)"
  obtain out s1 where list: "call_repo e ?list s = (out, s1)" by fastforce
  have s1: "notified s1 = notified s" "published s1 = published s" "w_awaits s1 = Suc (w_awaits s)"
    using call_repo_logs [of e ?list s] call_repo_awaits [of e ?list s] by (simp_all add: list)
  show ?thesis
  proof (cases out)
    case (Inl err)
    with assms s1 have "ro = no_pass True 1 True" "s' = s1" by (simp_all add: run_pass_def list)
    with s1 accounted_idle show ?thesis by blast
  next
    case (Inr cs)
    let ?t = "\<lparr>t_pruned = 0, t_expired = 0, t_synthesized = 0, t_failed = 0\<rparr>"
    obtain t s2 where all: "reconcile_all e co cs (w_now s) (?t, s1) = (t, s2)" by fastforce
    obtain sent lost db s3 where disp: "run_dispatch e d s2 = ((sent, lost, db), s3)" by (metis prod.exhaust)
    obtain n cb s4 where clean: "run_cleanup e co mock (w_now s) s3 = ((n, cb), s4)" by (metis prod.exhaust)
    have out: "ro = \<lparr>is_leader = True, ro_considered = int (length cs), pruned = t_pruned t,
        expired = t_expired t, synthesized = t_synthesized t, ro_dispatched = sent, dispatch_failed = lost,
        ro_failed = t_failed t, cleanup_removed = n, backlog = (0 < t_failed t \<or> db \<or> cb)\<rparr>" "s' = s4"
      using assms by (simp_all add: run_pass_def Let_def list Inr all disp clean)
    note r = reconcile_all_logs [OF all] and p = run_dispatch_logs [OF disp] and c = run_cleanup_logs [OF clean]
    have "broke e s s4" if "broke e s2 s3"
      using broke_later [OF that, of s s4] r c s1(3) by simp
    moreover have "published s2 = published s" "published s4 = published s3" using r c s1 by simp_all
    ultimately have sent: "sweep_reported e s s4 sent lost (0 < t_failed t \<or> db \<or> cb)"
      using p(6) unfolding sweep_reported_def by metis
    have told: "\<exists>ws. notified s4 = notified s @ expiries ws \<and>
        int (length ws) = (if co_has_service co then t_expired t else 0)"
      using r p(1) c s1(1) by auto
    have once: "t_pruned t + t_expired t + t_synthesized t + t_failed t \<le> int (length cs)"
      using r by (simp add: tally_total_def)
    show ?thesis
      unfolding accounted_def out recovery_outcome.simps using told sent once by blast
  qed
qed


text \<open>
  Readiness is earned: an outcome reports \<open>ready\<close> only after a pass of the leader in which no candidate
  failed and the broker took every publication that was attempted.
\<close>

theorem ready_means_done:
  assumes "reconcile_once e co d mock leading s = (ro, s')" and "ready ro"
  shows "leading = Inr True \<and> ro_failed ro = 0 \<and> dispatch_failed ro = 0 \<and>
    (\<exists>ps. published s' = published s @ ps \<and> int (length ps) = ro_dispatched ro)"
proof -
  from assms have lead: "leading = Inr True" and pass: "run_pass e co d mock s = (ro, s')"
    by (auto simp: reconcile_once_def ready_def no_pass_def split: sum.splits bool.splits)
  have "dispatch_failed ro = 0"
  proof -
    obtain out s1 where list: "call_repo e (\<lambda>t r. (list_recovery_candidates t r, r)) s = (out, s1)" by fastforce
    with pass assms(2) obtain cs where cs: "out = Inr cs"
      by (cases out) (auto simp: run_pass_def ready_def no_pass_def)
    obtain t s2 where all: "reconcile_all e co cs (w_now s)
        (\<lparr>t_pruned = 0, t_expired = 0, t_synthesized = 0, t_failed = 0\<rparr>, s1) = (t, s2)" by fastforce
    obtain sent lost db s3 where disp: "run_dispatch e d s2 = ((sent, lost, db), s3)" by (metis prod.exhaust)
    obtain n cb s4 where clean: "run_cleanup e co mock (w_now s) s3 = ((n, cb), s4)" by (metis prod.exhaust)
    from pass assms(2) have "\<not> db" "dispatch_failed ro = lost"
      by (auto simp: run_pass_def Let_def list cs all disp clean ready_def)
    with run_dispatch_logs(3,4) [OF disp] show ?thesis by simp
  qed
  with run_pass_accounted [OF pass] lead assms(2) show ?thesis
    by (auto simp: accounted_def sweep_reported_def ready_def)
qed

section \<open>A concrete pass\<close>

definition demo_coordinator :: coordinator where
  "demo_coordinator = \<lparr>co_service = default_service, co_has_service = True, earliest_delay_seconds = 150,
     cleanup_batch_size = 256\<rparr>"

definition demo_pass :: "time \<Rightarrow> recovery_outcome \<times> mock_store world" where
  "demo_pass now = reconcile_once (demo_deployment [] (\<lambda>_. Runs)) demo_coordinator (make_dispatcher ''d'' 60)
     (Some (\<lambda>t n m. snd (mock_cleanup t n m))) (Inr True) (demo_world now demo_repo demo_quiet_store)"

lemma demo_numbered: "numbered_store demo_repo"
proof -
  have "watches demo_repo = [(''w1'', demo_watch)] \<and> runtimes demo_repo = [(''w1'', demo_runtime)]"
    by code_simp
  then show ?thesis
    by (simp add: numbered_store_def active_runtime_def c_active_cell_of demo_runtime_def)
qed


theorem ready_means_done_witness:
  "ro_dispatched (fst (demo_pass 1000000)) = 1 \<and> dispatch_failed (fst (demo_pass 1000000)) = 0"
proof -
  have run: "reconcile_once (demo_deployment [] (\<lambda>_. Runs)) demo_coordinator (make_dispatcher ''d'' 60)
     (Some (\<lambda>t n m. snd (mock_cleanup t n m))) (Inr True) (demo_world 1000000 demo_repo demo_quiet_store) =
     (fst (demo_pass 1000000), snd (demo_pass 1000000))" by (simp add: demo_pass_def)
  have "ready (fst (demo_pass 1000000))" by code_simp
  from ready_means_done [OF run this] have "dispatch_failed (fst (demo_pass 1000000)) = 0" by blast
  moreover have "ro_dispatched (fst (demo_pass 1000000)) = 1" by code_simp
  ultimately show ?thesis by blast
qed

end
