(* ===== verification/Readiness.thy ===== *)
theory Readiness
  imports Recovery
begin

text \<open>
  The leader lease of the recovery pass excludes every other replica until it lapses or is given up,
  and the readiness tracker reports \<^verbatim>\<open>ready\<close> on performed evidence only.
\<close>

section \<open>The leader lease\<close>

text \<open>What other replicas may try, each at its own instant.\<close>

datatype lease_try = Try_hold int int string seconds | Try_release int string

fun try_instants :: "lease_try \<Rightarrow> int list" where
  "try_instants (Try_hold t t' own secs) = [t, t']"
| "try_instants (Try_release t own) = [t]"

fun try_owner :: "lease_try \<Rightarrow> string" where
  "try_owner (Try_hold t t' own secs) = own"
| "try_owner (Try_release t own) = own"

fun try_lease :: "lease_try \<Rightarrow> leader_key \<Rightarrow> bool \<times> leader_key" where
  "try_lease (Try_hold t t' own secs) k = hold_leadership True t t' own secs k"
| "try_lease (Try_release t own) k = release_leadership t own k"

fun run_tries :: "lease_try list \<Rightarrow> leader_key \<Rightarrow> bool list \<times> leader_key" where
  "run_tries [] k = ([], k)"
| "run_tries (x # xs) k =
     (let (b, k1) = try_lease x k; (bs, k2) = run_tries xs k1 in (b # bs, k2))"

lemma live_leader_cases:
  "live_leader t k = None \<or> (\<exists>own u. live_leader t k = Some (own, u) \<and> k = Some (own, u) \<and> t < u)"
  by (auto simp: live_leader_def split: option.splits)

lemma held_after_success:
  "hold_leadership True t t' own secs k = (True, k') \<Longrightarrow> t \<le> t' \<Longrightarrow>
   \<exists>u. k' = Some (own, u) \<and> t + lease_ms secs \<le> u"
  using live_leader_cases [of t k] live_leader_cases [of t' "live_leader t k"]
  by (auto simp: hold_leadership_def renew_leadership_def acquire_leadership_def live_leader_def
      split: if_splits option.splits prod.splits bool.splits)

lemma foreign_try:
  "try_owner x \<noteq> own \<Longrightarrow> \<forall>t\<in>set (try_instants x). t < u \<Longrightarrow>
   try_lease x (Some (own, u)) = (False, Some (own, u))"
  by (cases x) (auto simp: hold_leadership_def renew_leadership_def acquire_leadership_def
      release_leadership_def live_leader_def)

text \<open>
  At most one leader: once a replica holds the recovery lease, every other replica that tries to
  take, renew or release it before the lease lapses is told no and leaves the lease as it was,
  however many of them try and in whatever order.
\<close>

theorem at_most_one_leader:
  assumes "hold_leadership True t t' own secs k = (True, k')" and "t \<le> t'"
    and "\<forall>x\<in>set xs. try_owner x \<noteq> own \<and> (\<forall>u\<in>set (try_instants x). u < t + lease_ms secs)"
  shows "run_tries xs k' = (map (\<lambda>_. False) xs, k')"
proof -
  obtain u where k': "k' = Some (own, u)" "t + lease_ms secs \<le> u"
    using held_after_success [OF assms(1,2)] by blast
  from assms(3) show ?thesis
  proof (induction xs)
    case (Cons x xs)
    then have "try_lease x k' = (False, k')"
      unfolding k' using k'(2) by (intro foreign_try) auto
    with Cons show ?case by simp
  qed simp
qed

theorem at_most_one_leader_witness:
  "run_tries [Try_hold 500 501 ''b'' 30, Try_release 900 ''b''] (Some (''a'', 30000)) =
     ([False, False], Some (''a'', 30000))"
proof -
  have "hold_leadership True 0 0 ''a'' 30 None = (True, Some (''a'', 30000))" by code_simp
  from at_most_one_leader [OF this, of "[Try_hold 500 501 ''b'' 30, Try_release 900 ''b'']"] show ?thesis
    by (simp add: lease_ms_def)
qed

section \<open>The readiness tracker\<close>

datatype observation =
  Saw_dispatch time int int
| Saw_recovery time recovery_outcome
| Saw_history time bool

fun observe :: "tracker \<Rightarrow> observation \<Rightarrow> tracker" where
  "observe t (Saw_dispatch now sent lost) = record_dispatch_outcome now sent lost t"
| "observe t (Saw_recovery now ro) = record_recovery_outcome now ro t"
| "observe t (Saw_history now fine) = record_history_outcome now fine t"

text \<open>The evidence in an observation about one of the three subsystems.\<close>

fun recovery_evidence :: "observation \<Rightarrow> recovery_outcome option" where
  "recovery_evidence (Saw_recovery now ro) = Some ro"
| "recovery_evidence _ = None"

definition broker_evidence :: "int \<Rightarrow> int \<Rightarrow> bool option" where
  "broker_evidence sent lost = (if 0 < lost then Some False else if 0 < sent then Some True else None)"

fun queue_evidence :: "observation \<Rightarrow> bool option" where
  "queue_evidence (Saw_dispatch now sent lost) = broker_evidence sent lost"
| "queue_evidence (Saw_recovery now ro) = broker_evidence (ro_dispatched ro) (dispatch_failed ro)"
| "queue_evidence (Saw_history now fine) = None"

definition last_evidence :: "('a \<Rightarrow> 'b option) \<Rightarrow> 'a list \<Rightarrow> 'b option" where
  "last_evidence f xs = foldl (\<lambda>acc x. or_else (f x) acc) None xs"

lemma last_evidence_simps [simp]:
  "last_evidence f [] = None" "last_evidence f (xs @ [x]) = or_else (f x) (last_evidence f xs)"
  by (simp_all add: last_evidence_def)

lemma dispatch_outcome_fields [simp]:
  "recovery_state (record_dispatch_outcome now sent lost t) = recovery_state t"
  "was_leader (record_dispatch_outcome now sent lost t) = was_leader t"
  "queue_state (record_dispatch_outcome now sent lost t) =
     (case broker_evidence sent lost of None \<Rightarrow> queue_state t | Some b \<Rightarrow> if b then READY else DEGRADED)"
  by (simp_all add: record_dispatch_outcome_def broker_evidence_def)

lemma recovery_outcome_fields [simp]:
  "was_leader (record_recovery_outcome now ro t) \<longleftrightarrow> was_leader t \<or> is_leader ro"
  "recovery_state (record_recovery_outcome now ro t) =
     (if is_leader ro then (if ready ro then READY else DEGRADED)
      else if 0 < ro_failed ro \<or> was_leader t then DEGRADED else recovery_state t)"
  "queue_state (record_recovery_outcome now ro t) =
     queue_state (record_dispatch_outcome now (ro_dispatched ro) (dispatch_failed ro) t)"
  by (simp_all add: record_recovery_outcome_def Let_def split: option.split)

lemma history_outcome_fields [simp]:
  "recovery_state (record_history_outcome now fine t) = recovery_state t"
  "was_leader (record_history_outcome now fine t) = was_leader t"
  "queue_state (record_history_outcome now fine t) = queue_state t"
  by (simp_all add: record_history_outcome_def)

text \<open>A process that never led is never \<^verbatim>\<open>ready\<close>.\<close>

lemma tracker_invariant:
  "(recovery_state (foldl observe new_tracker xs) = READY \<longleftrightarrow>
      (case last_evidence recovery_evidence xs of None \<Rightarrow> False | Some ro \<Rightarrow> ready ro)) \<and>
   (recovery_state (foldl observe new_tracker xs) = READY \<longrightarrow> was_leader (foldl observe new_tracker xs)) \<and>
   queue_state (foldl observe new_tracker xs) =
      (case last_evidence queue_evidence xs of
         None \<Rightarrow> UNKNOWN_READINESS | Some b \<Rightarrow> if b then READY else DEGRADED)"
proof (induction xs rule: rev_induct)
  case Nil
  show ?case by (simp add: new_tracker_def)
next
  case (snoc x xs)
  have "ready ro \<Longrightarrow> is_leader ro" for ro by (simp add: ready_def)
  with snoc show ?case
    by (cases x) (auto simp: or_else_def split: option.splits)
qed

text \<open>
  Readiness follows the evidence: after any sequence of recorded observations, recovery reads
  \<^verbatim>\<open>ready\<close> exactly when the last recorded pass was a leader's pass that left nothing undone, and the
  queue reads what the last broker call that was really made showed, \<^verbatim>\<open>unknown\<close> before the first.
\<close>

theorem readiness_follows_evidence:
  "(recovery_state (foldl observe new_tracker xs) = READY \<longleftrightarrow>
      (case last_evidence recovery_evidence xs of None \<Rightarrow> False | Some ro \<Rightarrow> ready ro)) \<and>
   queue_state (foldl observe new_tracker xs) =
      (case last_evidence queue_evidence xs of
         None \<Rightarrow> UNKNOWN_READINESS | Some b \<Rightarrow> if b then READY else DEGRADED)"
  using tracker_invariant by blast

end
