(* ===== verification/Redis_Store.thy ===== *)
theory Redis_Store
  imports Watch_Decisions "HOL-Library.List_Lexorder" "HOL-Library.Char_ord" "HOL-Library.Product_Lexorder"
begin

text \<open>
  What \<^verbatim>\<open>RedisWatchRepository\<close> keeps in Redis, and the Lua scripts of
  \<^verbatim>\<open>backend/db/repositories/watch_scripts.py\<close>, each a function of the store that answers or raises. One
  script call is atomic; whatever a script wrote before it raised stays written.

  \<^item> A document key holds JSON text that the scripts store verbatim: it is modelled by the document it
    encodes. A runtime key can also hold text that is no JSON (\<open>Not_json\<close>), because two scripts store
    an empty string in a race; decoding it raises.
  \<^item> A lease key holds \<^verbatim>\<open>owner|token|expires\<close>; \<open>lease_text\<close> and \<open>parse_lease\<close> are that text and the
    scripts' parser, and the store keeps the parsed value, which \<open>parse_lease_text\<close> justifies for owner
    ids without a bar.
  \<^item> Numbers are exact. Lua's are doubles printed with 14 digits, so milliseconds are exact up to the
    year 5138.
  \<^item> Native expiry: \<open>rd_expiring\<close> are the watches whose document keys carry a TTL; lease keys always do.
    When Redis drops a key is a step of the environment (\<open>Redis_Protocol\<close>).
\<close>

section \<open>Milliseconds\<close>

type_synonym ms = int

definition to_ms :: "time \<Rightarrow> ms" where "to_ms t = t div 1000"
definition from_ms :: "ms \<Rightarrow> time" where "from_ms m = m * 1000"

text \<open>\<^verbatim>\<open>int(seconds * 1000)\<close>, which truncates towards zero.\<close>

definition py_int :: "rat \<Rightarrow> int" where
  "py_int x = (if 0 \<le> x then \<lfloor>x\<rfloor> else - \<lfloor>- x\<rfloor>)"

definition seconds_to_ms :: "seconds \<Rightarrow> ms" where "seconds_to_ms s = py_int (s * 1000)"

section \<open>Leases\<close>

record lease_value =
  lv_owner :: string
  lv_token :: int
  lv_expires :: ms

definition lease_text :: "lease_value \<Rightarrow> string" where
  "lease_text l = lv_owner l @ ''|'' @ show_int (lv_token l) @ ''|'' @ show_int (lv_expires l)"

text \<open>\<^verbatim>\<open>parse_claim\<close>: owner, token and expiry as text, split at the first two bars.\<close>

definition parse_lease :: "string \<Rightarrow> string \<times> string \<times> string" where
  "parse_lease v =
     (let owner = takeWhile (\<lambda>c. c \<noteq> CHR ''|'') v;
          rest = tl (dropWhile (\<lambda>c. c \<noteq> CHR ''|'') v);
          token = takeWhile (\<lambda>c. c \<noteq> CHR ''|'') rest
      in (owner, token, tl (dropWhile (\<lambda>c. c \<noteq> CHR ''|'') rest)))"

section \<open>The keys\<close>

datatype runtime_doc = Runtime_json watch_runtime | Not_json

record redis_db =
  rd_watches :: "(string, watch) pydict"
  rd_runtimes :: "(string, runtime_doc) pydict"
  rd_fences :: "(string, int) pydict"
  rd_claims :: "(string, lease_value) pydict"
  rd_dispfences :: "(string, int) pydict"
  rd_dispatches :: "(string \<times> string, lease_value) pydict"
  rd_all :: "string list"
  rd_active :: "string list"
  rd_schedule :: "(string, ms) pydict"
  rd_terminal :: "(string, ms) pydict"
  rd_events :: "string list"
  rd_expiring :: "string list"

definition empty_db :: redis_db where
  "empty_db = \<lparr>rd_watches = [], rd_runtimes = [], rd_fences = [], rd_claims = [], rd_dispfences = [],
     rd_dispatches = [], rd_all = [], rd_active = [], rd_schedule = [], rd_terminal = [], rd_events = [],
     rd_expiring = []\<rparr>"

text \<open>Sorted sets are read by score, ties by member; sets have no order of their own.\<close>

definition zrange_to :: "ms \<Rightarrow> (string, ms) pydict \<Rightarrow> string list" where
  "zrange_to cutoff z = map fst (sort_key (\<lambda>(k, score). (score, k)) (filter (\<lambda>(k, score). score \<le> cutoff) z))"

text \<open>\<^verbatim>\<open>LIMIT 0 n\<close>: a negative count means all.\<close>

definition limit_to :: "int \<Rightarrow> 'a list \<Rightarrow> 'a list" where
  "limit_to n xs = (if n < 0 then xs else take (nat n) xs)"

text \<open>\<^verbatim>\<open>INCR\<close> of a counter key.\<close>

definition incr :: "int option \<Rightarrow> int" where
  "incr n = (case n of None \<Rightarrow> 0 | Some k \<Rightarrow> k) + 1"

text \<open>What a call raises: an error reply of the script, or a document that fails validation.\<close>

datatype redis_error = Script_error | Document_error

section \<open>Creation\<close>

definition create_script ::
  "string \<Rightarrow> watch \<Rightarrow> watch_runtime \<Rightarrow> ms option \<Rightarrow> redis_db \<Rightarrow>
   (create_status \<times> (watch \<times> runtime_doc option) option) \<times> redis_db" where
  "create_script wid w rt scheduled db =
     (case dict_get (rd_watches db) wid of
        Some old \<Rightarrow> ((Create_ALREADY_EXISTS, Some (old, dict_get (rd_runtimes db) wid)), db)
      | None \<Rightarrow>
          ((Create_CREATED, None),
           db\<lparr>rd_watches := dict_set wid w (rd_watches db),
              rd_runtimes := dict_set wid (Runtime_json rt) (rd_runtimes db),
              rd_fences := dict_set wid 0 (rd_fences db),
              rd_all := List.insert wid (rd_all db),
              rd_active := List.insert wid (rd_active db),
              rd_schedule := (case scheduled of None \<Rightarrow> rd_schedule db
                              | Some due \<Rightarrow> dict_set wid due (rd_schedule db)),
              rd_expiring := removeAll wid (rd_expiring db)\<rparr>))"

section \<open>Claiming, booking and committing a window\<close>

definition claim_script ::
  "string \<Rightarrow> string \<Rightarrow> string \<Rightarrow> ms \<Rightarrow> ms \<Rightarrow> bool \<Rightarrow> redis_db \<Rightarrow>
   (redis_error + claim_status \<times> (watch \<times> watch_runtime \<times> int \<times> ms) option) \<times> redis_db" where
  "claim_script wid win owner lease now ignore_schedule db =
     (case dict_get (rd_watches db) wid of
        None \<Rightarrow> (Inr (Claim_UNKNOWN, None), db)
      | Some w \<Rightarrow>
          if w_status w \<noteq> ACTIVE then (Inr (Claim_TERMINAL, None), db)
          else
            (case dict_get (rd_runtimes db) wid of
               None \<Rightarrow> (Inr (Claim_UNKNOWN, None), db)
             | Some Not_json \<Rightarrow> (Inl Script_error, db)
             | Some (Runtime_json rt) \<Rightarrow>
                 if rt_window_id rt \<noteq> Some win then (Inr (Claim_STALE, None), db)
                 else if \<not> ignore_schedule \<and>
                         (case dict_get (rd_schedule db) wid of None \<Rightarrow> False | Some due \<Rightarrow> now < due)
                      then (Inr (Claim_EARLY, None), db)
                 else if (case dict_get (rd_claims db) wid of None \<Rightarrow> False | Some l \<Rightarrow> now < lv_expires l)
                      then (Inr (Claim_BUSY, None), db)
                 else
                   (let token = incr (dict_get (rd_fences db) wid);
                        expires = now + lease;
                        db1 = db\<lparr>rd_fences := dict_set wid token (rd_fences db)\<rparr>
                    in if lease < 1 then (Inl Script_error, db1)
                       else (Inr (Claim_OWNED, Some (w, rt, token, expires)),
                             db1\<lparr>rd_claims := dict_set wid
                                  \<lparr>lv_owner = owner, lv_token = token, lv_expires = expires\<rparr> (rd_claims db1)\<rparr>))))"

text \<open>The fence every owner's write passes: the claim is held, by this owner and token, and unexpired.\<close>

definition claim_held :: "string \<Rightarrow> string \<Rightarrow> int \<Rightarrow> ms \<Rightarrow> redis_db \<Rightarrow> bool" where
  "claim_held wid owner token now db \<longleftrightarrow>
     (case dict_get (rd_claims db) wid of
        None \<Rightarrow> False
      | Some l \<Rightarrow> lv_owner l = owner \<and> lv_token l = token \<and> now < lv_expires l)"

definition begin_script ::
  "string \<Rightarrow> int \<Rightarrow> int \<Rightarrow> string \<Rightarrow> watch_runtime \<Rightarrow> ms \<Rightarrow> redis_db \<Rightarrow>
   (redis_error + permit_status) \<times> redis_db" where
  "begin_script wid expected token owner booking now db =
     (case dict_get (rd_watches db) wid of
        None \<Rightarrow> (Inr Permit_FENCED, db)
      | Some w \<Rightarrow>
          if w_status w \<noteq> ACTIVE then (Inr Permit_FENCED, db)
          else
            (case dict_get (rd_runtimes db) wid of
               None \<Rightarrow> (Inr Permit_FENCED, db)
             | Some Not_json \<Rightarrow> (Inl Script_error, db)
             | Some (Runtime_json rt) \<Rightarrow>
                 if revision rt \<noteq> expected then (Inr Permit_FENCED, db)
                 else if \<not> claim_held wid owner token now db then (Inr Permit_FENCED, db)
                 else if cancel_requested rt then (Inr Permit_CANCELLED, db)
                 else (Inr Permit_GRANTED,
                       db\<lparr>rd_runtimes := dict_set wid (Runtime_json booking) (rd_runtimes db)\<rparr>)))"

text \<open>The arguments a terminal write adds: the index score, the event and the TTL.\<close>

definition commit_script ::
  "string \<Rightarrow> int \<Rightarrow> int \<Rightarrow> string \<Rightarrow> watch \<Rightarrow> watch_runtime \<Rightarrow> bool \<Rightarrow> ms option \<Rightarrow> ms option \<Rightarrow>
   string option \<Rightarrow> bool \<Rightarrow> ms \<Rightarrow> redis_db \<Rightarrow> (redis_error + commit_status) \<times> redis_db" where
  "commit_script wid expected token owner new_watch new_runtime terminal scheduled delete_at event ttl now db =
     (case dict_get (rd_watches db) wid of
        None \<Rightarrow> (Inr Commit_UNKNOWN, db)
      | Some w \<Rightarrow>
          if w_status w \<noteq> ACTIVE then (Inr Commit_TERMINAL, db)
          else
            (case dict_get (rd_runtimes db) wid of
               None \<Rightarrow> (Inr Commit_UNKNOWN, db)
             | Some Not_json \<Rightarrow> (Inl Script_error, db)
             | Some (Runtime_json rt) \<Rightarrow>
                 if revision rt \<noteq> expected then (Inr Commit_FENCED, db)
                 else if \<not> claim_held wid owner token now db then (Inr Commit_FENCED, db)
                 else
                   (let db1 = db\<lparr>rd_watches := dict_set wid new_watch (rd_watches db),
                                 rd_runtimes := dict_set wid (Runtime_json new_runtime) (rd_runtimes db),
                                 rd_claims := dict_pop wid (rd_claims db),
                                 rd_expiring := removeAll wid (rd_expiring db)\<rparr>
                    in if terminal then
                         (Inr Commit_COMMITTED,
                          db1\<lparr>rd_active := removeAll wid (rd_active db1),
                              rd_schedule := dict_pop wid (rd_schedule db1),
                              rd_terminal := (case delete_at of None \<Rightarrow> rd_terminal db1
                                              | Some t \<Rightarrow> dict_set wid t (rd_terminal db1)),
                              rd_events := (case event of None \<Rightarrow> rd_events db1
                                            | Some e \<Rightarrow> List.insert e (rd_events db1)),
                              rd_expiring := (if ttl then List.insert wid (rd_expiring db1)
                                              else rd_expiring db1)\<rparr>)
                       else
                         (Inr Commit_COMMITTED,
                          db1\<lparr>rd_schedule := (case scheduled of None \<Rightarrow> dict_pop wid (rd_schedule db1)
                                              | Some due \<Rightarrow> dict_set wid due (rd_schedule db1))\<rparr>))))"

section \<open>Cancellation and expiry\<close>

datatype cancel_mode = Mode_cancel | Mode_pending

text \<open>
  The compare-and-set both scripts start with. The comparison is skipped when the caller read no
  runtime, and the runtime argument is then empty text.
\<close>

definition cas_passes :: "int option \<Rightarrow> runtime_doc option \<Rightarrow> redis_error + bool" where
  "cas_passes expected current =
     (case (current, expected) of
        (None, _) \<Rightarrow> Inr True
      | (_, None) \<Rightarrow> Inr True
      | (Some Not_json, Some n) \<Rightarrow> Inl Script_error
      | (Some (Runtime_json rt), Some n) \<Rightarrow> Inr (revision rt = n))"

text \<open>\<^verbatim>\<open>if rraw then SET KEYS[2]\<close> with the caller's text.\<close>

definition set_runtime :: "string \<Rightarrow> watch_runtime option \<Rightarrow> redis_db \<Rightarrow> redis_db" where
  "set_runtime wid new db =
     (if dict_get (rd_runtimes db) wid = None then db
      else db\<lparr>rd_runtimes := dict_set wid
                (case new of None \<Rightarrow> Not_json | Some rt \<Rightarrow> Runtime_json rt) (rd_runtimes db)\<rparr>)"

text \<open>The writes of a terminal transition: document, runtime, claim, indices and TTL.\<close>

definition finish_keys ::
  "string \<Rightarrow> watch \<Rightarrow> watch_runtime option \<Rightarrow> ms option \<Rightarrow> bool \<Rightarrow> redis_db \<Rightarrow> redis_db" where
  "finish_keys wid new_watch new_runtime delete_at ttl db =
     (let db1 = set_runtime wid new_runtime (db\<lparr>rd_watches := dict_set wid new_watch (rd_watches db)\<rparr>)
      in db1\<lparr>rd_claims := dict_pop wid (rd_claims db1),
             rd_active := removeAll wid (rd_active db1),
             rd_schedule := dict_pop wid (rd_schedule db1),
             rd_terminal := (case delete_at of None \<Rightarrow> rd_terminal db1
                             | Some t \<Rightarrow> dict_set wid t (rd_terminal db1)),
             rd_expiring := (if ttl then List.insert wid (rd_expiring db1)
                             else removeAll wid (rd_expiring db1))\<rparr>)"

definition cancel_script ::
  "string \<Rightarrow> int option \<Rightarrow> cancel_mode \<Rightarrow> watch \<Rightarrow> watch_runtime option \<Rightarrow> ms option \<Rightarrow> bool \<Rightarrow> redis_db \<Rightarrow>
   (redis_error + transition_status \<times> watch option) \<times> redis_db" where
  "cancel_script wid expected mode new_watch new_runtime delete_at ttl db =
     (case dict_get (rd_watches db) wid of
        None \<Rightarrow> (Inr (Transition_UNKNOWN, None), db)
      | Some w \<Rightarrow>
          if w_status w \<noteq> ACTIVE then (Inr (Transition_NOOP, Some w), db)
          else
            (case cas_passes expected (dict_get (rd_runtimes db) wid) of
               Inl err \<Rightarrow> (Inl err, db)
             | Inr False \<Rightarrow> (Inr (Transition_FENCED, None), db)
             | Inr True \<Rightarrow>
                 (case mode of
                    Mode_pending \<Rightarrow> (Inr (Transition_NOT_ELIGIBLE, Some w), set_runtime wid new_runtime db)
                  | Mode_cancel \<Rightarrow>
                      (Inr (Transition_APPLIED, Some new_watch),
                       finish_keys wid new_watch new_runtime delete_at ttl db))))"

definition expire_script ::
  "string \<Rightarrow> int option \<Rightarrow> watch \<Rightarrow> watch_runtime option \<Rightarrow> string option \<Rightarrow> ms option \<Rightarrow> bool \<Rightarrow> redis_db \<Rightarrow>
   (redis_error + transition_status \<times> watch option) \<times> redis_db" where
  "expire_script wid expected new_watch new_runtime event delete_at ttl db =
     (case dict_get (rd_watches db) wid of
        None \<Rightarrow> (Inr (Transition_UNKNOWN, None), db)
      | Some w \<Rightarrow>
          if w_status w \<noteq> ACTIVE then (Inr (Transition_NOOP, Some w), db)
          else
            (case cas_passes expected (dict_get (rd_runtimes db) wid) of
               Inl err \<Rightarrow> (Inl err, db)
             | Inr False \<Rightarrow> (Inr (Transition_FENCED, None), db)
             | Inr True \<Rightarrow>
                 (let db1 = finish_keys wid new_watch new_runtime delete_at ttl db
                  in (Inr (Transition_APPLIED, Some new_watch),
                      db1\<lparr>rd_events := (case event of None \<Rightarrow> rd_events db1
                                        | Some e \<Rightarrow> List.insert e (rd_events db1))\<rparr>))))"

section \<open>Retention cleanup\<close>

definition cleanup_step :: "string \<Rightarrow> int \<times> redis_db \<Rightarrow> int \<times> redis_db" where
  "cleanup_step wid st =
     (let (n, db) = st;
          (n', db1) =
            (case dict_get (rd_watches db) wid of
               Some w \<Rightarrow>
                 if w_status w \<noteq> ACTIVE then
                   (n + 1, db\<lparr>rd_watches := dict_pop wid (rd_watches db),
                              rd_runtimes := dict_pop wid (rd_runtimes db),
                              rd_fences := dict_pop wid (rd_fences db),
                              rd_claims := dict_pop wid (rd_claims db),
                              rd_all := removeAll wid (rd_all db),
                              rd_active := removeAll wid (rd_active db),
                              rd_schedule := dict_pop wid (rd_schedule db),
                              rd_expiring := removeAll wid (rd_expiring db)\<rparr>)
                 else (n, db)
             | None \<Rightarrow> (n, db))
      in (n', db1\<lparr>rd_terminal := dict_pop wid (rd_terminal db1)\<rparr>))"

definition cleanup_script :: "ms \<Rightarrow> int \<Rightarrow> redis_db \<Rightarrow> (int \<times> int) \<times> redis_db" where
  "cleanup_script now batch db =
     (let (n, db') = fold cleanup_step (limit_to batch (zrange_to now (rd_terminal db))) (0, db)
      in ((n, int (length (zrange_to now (rd_terminal db')))), db'))"

section \<open>Leases\<close>

definition release_script :: "string \<Rightarrow> string \<Rightarrow> int \<Rightarrow> redis_db \<Rightarrow> bool \<times> redis_db" where
  "release_script wid owner token db =
     (case dict_get (rd_claims db) wid of
        None \<Rightarrow> (False, db)
      | Some l \<Rightarrow> if lv_owner l = owner \<and> lv_token l = token
                  then (True, db\<lparr>rd_claims := dict_pop wid (rd_claims db)\<rparr>) else (False, db))"

definition claim_dispatch_script ::
  "string \<Rightarrow> string \<Rightarrow> string \<Rightarrow> string \<Rightarrow> ms \<Rightarrow> ms \<Rightarrow> redis_db \<Rightarrow>
   (redis_error + dispatch_status \<times> (int \<times> ms) option) \<times> redis_db" where
  "claim_dispatch_script wid win key owner lease now db =
     (case (dict_get (rd_watches db) wid, dict_get (rd_runtimes db) wid) of
        (Some w, doc) \<Rightarrow>
          if w_status w \<noteq> ACTIVE then (Inr (Dispatch_STALE, None), db)
          else
            (case doc of
               None \<Rightarrow> (Inr (Dispatch_STALE, None), db)
             | Some Not_json \<Rightarrow> (Inl Script_error, db)
             | Some (Runtime_json rt) \<Rightarrow>
                 if rt_window_id rt \<noteq> Some win then (Inr (Dispatch_STALE, None), db)
                 else if dict_get (rd_schedule db) wid = None then (Inr (Dispatch_STALE, None), db)
                 else if (case dict_get (rd_dispatches db) (wid, key) of
                            None \<Rightarrow> False | Some l \<Rightarrow> now < lv_expires l)
                      then (Inr (Dispatch_BUSY, None), db)
                 else
                   (let gen = incr (dict_get (rd_dispfences db) wid);
                        expires = now + lease;
                        db1 = db\<lparr>rd_dispfences := dict_set wid gen (rd_dispfences db)\<rparr>
                    in if lease < 1 then (Inl Script_error, db1)
                       else (Inr (Dispatch_CLAIMED, Some (gen, expires)),
                             db1\<lparr>rd_dispatches := dict_set (wid, key)
                                  \<lparr>lv_owner = owner, lv_token = gen, lv_expires = expires\<rparr>
                                  (rd_dispatches db1)\<rparr>)))
      | (None, _) \<Rightarrow> (Inr (Dispatch_STALE, None), db))"

definition mark_script :: "string \<times> string \<Rightarrow> string \<Rightarrow> int \<Rightarrow> ms \<Rightarrow> redis_db \<Rightarrow> bool \<times> redis_db" where
  "mark_script key owner gen redispatch db =
     (case dict_get (rd_dispatches db) key of
        None \<Rightarrow> (False, db)
      | Some l \<Rightarrow>
          if lv_owner l \<noteq> owner \<or> lv_token l \<noteq> gen then (False, db)
          else (True, db\<lparr>rd_dispatches := dict_set key (l\<lparr>lv_expires := redispatch\<rparr>) (rd_dispatches db)\<rparr>))"

definition release_dispatch_script :: "string \<times> string \<Rightarrow> string \<Rightarrow> int \<Rightarrow> redis_db \<Rightarrow> bool \<times> redis_db" where
  "release_dispatch_script key owner gen db =
     (case dict_get (rd_dispatches db) key of
        None \<Rightarrow> (False, db)
      | Some l \<Rightarrow> if lv_owner l = owner \<and> lv_token l = gen
                  then (True, db\<lparr>rd_dispatches := dict_pop key (rd_dispatches db)\<rparr>) else (False, db))"

section \<open>Marker repair\<close>

definition synthesize_script ::
  "string \<Rightarrow> watch_runtime \<Rightarrow> ms \<Rightarrow> ms \<Rightarrow> redis_db \<Rightarrow> bool \<times> redis_db" where
  "synthesize_script wid rt due now db =
     (case dict_get (rd_watches db) wid of
        None \<Rightarrow> (False, db)
      | Some w \<Rightarrow>
          if w_status w \<noteq> ACTIVE then (False, db)
          else if (case dict_get (rd_claims db) wid of None \<Rightarrow> False | Some l \<Rightarrow> now < lv_expires l)
               then (False, db)
          else if dict_get (rd_schedule db) wid \<noteq> None then (False, db)
          else (True,
                db\<lparr>rd_runtimes := dict_set wid (Runtime_json rt) (rd_runtimes db),
                   rd_fences := (case dict_get (rd_fences db) wid of
                                   None \<Rightarrow> dict_set wid 0 (rd_fences db) | Some _ \<Rightarrow> rd_fences db),
                   rd_schedule := dict_set wid due (rd_schedule db)\<rparr>))"

end
