(* ===== verification/Redis_Client.thy ===== *)
theory Redis_Client
  imports Redis_Store
begin

text \<open>
  The Python side of \<^verbatim>\<open>RedisWatchRepository\<close> (\<^verbatim>\<open>backend/db/repositories/watches.py\<close>): how each method
  computes the arguments of its script and reads the reply. A method that awaits several times takes
  the store as it finds it at each await: \<open>others i\<close> is what everybody else does before the \<open>i\<close>-th
  await, \<open>clock i\<close> what the injected clock reads there; a method that only reads takes the successive
  views of the store.
\<close>

text \<open>The hour the key TTL outlasts the retention is enforced by Redis and only makes \<open>rd_expiring\<close> sound.\<close>

record redis_config =
  redis_retention :: int

definition make_redis_config :: "seconds \<Rightarrow> redis_config" where
  "make_redis_config secs = \<lparr>redis_retention = timedelta_seconds secs\<rparr>"

definition terminal_deadlines :: "redis_config \<Rightarrow> time \<Rightarrow> time \<times> ms option \<times> bool" where
  "terminal_deadlines c now = (let deadline = now + redis_retention c in (deadline, Some (to_ms deadline), True))"

section \<open>Documents\<close>

text \<open>\<^verbatim>\<open>_decode\<close>: a document that fails validation, or is another watch's, counts as missing.\<close>

definition decode_watch :: "string \<Rightarrow> watch option \<Rightarrow> watch option" where
  "decode_watch wid raw =
     (case raw of None \<Rightarrow> None | Some w \<Rightarrow> if watch_valid w \<and> watch_id w = wid then Some w else None)"

definition decode_runtime :: "runtime_doc option \<Rightarrow> watch_runtime option" where
  "decode_runtime raw =
     (case raw of Some (Runtime_json rt) \<Rightarrow> if runtime_valid rt then Some rt else None | _ \<Rightarrow> None)"

definition redis_get :: "string \<Rightarrow> redis_db \<Rightarrow> watch option" where
  "redis_get wid db = decode_watch wid (dict_get (rd_watches db) wid)"

definition redis_get_runtime :: "string \<Rightarrow> redis_db \<Rightarrow> watch_runtime option" where
  "redis_get_runtime wid db = decode_runtime (dict_get (rd_runtimes db) wid)"

definition redis_save :: "watch \<Rightarrow> redis_db \<Rightarrow> watch \<times> redis_db" where
  "redis_save w db =
     (w, db\<lparr>rd_watches := dict_set (watch_id w) w (rd_watches db),
            rd_expiring := removeAll (watch_id w) (rd_expiring db),
            rd_all := List.insert (watch_id w) (rd_all db),
            rd_active := (if w_status w = ACTIVE then List.insert (watch_id w) (rd_active db)
                          else removeAll (watch_id w) (rd_active db))\<rparr>)"

definition redis_delete :: "string \<Rightarrow> redis_db \<Rightarrow> bool \<times> redis_db" where
  "redis_delete wid db =
     (dict_get (rd_watches db) wid \<noteq> None,
      db\<lparr>rd_watches := dict_pop wid (rd_watches db),
         rd_runtimes := dict_pop wid (rd_runtimes db),
         rd_fences := dict_pop wid (rd_fences db),
         rd_claims := dict_pop wid (rd_claims db),
         rd_all := removeAll wid (rd_all db),
         rd_active := removeAll wid (rd_active db),
         rd_schedule := dict_pop wid (rd_schedule db),
         rd_terminal := dict_pop wid (rd_terminal db),
         rd_expiring := removeAll wid (rd_expiring db)\<rparr>)"

text \<open>
  \<^verbatim>\<open>_load_many\<close>: the documents of the members, newest first, and the members without one, which the
  caller's index loses.
\<close>

definition load_many :: "string list \<Rightarrow> redis_db \<Rightarrow> watch list \<times> string list" where
  "load_many ids db =
     (let ordered = sort ids
      in (sort_key (\<lambda>w. - created_at w) (List.map_filter (\<lambda>k. redis_get k db) ordered),
          filter (\<lambda>k. redis_get k db = None) ordered))"

text \<open>\<^verbatim>\<open>SREM\<close> of stale members, one pipeline.\<close>

definition srem_all :: "string list \<Rightarrow> redis_db \<Rightarrow> redis_db" where
  "srem_all ids db = db\<lparr>rd_all := filter (\<lambda>k. k \<notin> set ids) (rd_all db)\<rparr>"

definition srem_active :: "string list \<Rightarrow> redis_db \<Rightarrow> redis_db" where
  "srem_active ids db = db\<lparr>rd_active := filter (\<lambda>k. k \<notin> set ids) (rd_active db)\<rparr>"

text \<open>A listing awaits the members, their documents, and each pipeline that prunes stale members.\<close>

definition redis_list_all :: "(nat \<Rightarrow> redis_db \<Rightarrow> redis_db) \<Rightarrow> redis_db \<Rightarrow> watch list \<times> redis_db" where
  "redis_list_all others db =
     (let db0 = others 0 db in
      if rd_all db0 = [] then ([], db0)
      else
        (let db1 = others 1 db0;
             (ws, stale) = load_many (rd_all db0) db1
         in (ws, if stale = [] then db1 else srem_all stale (others 2 db1))))"

definition redis_list_active :: "(nat \<Rightarrow> redis_db \<Rightarrow> redis_db) \<Rightarrow> redis_db \<Rightarrow> watch list \<times> redis_db" where
  "redis_list_active others db =
     (let db0 = others 0 db in
      if rd_active db0 = [] then ([], db0)
      else
        (let db1 = others 1 db0;
             (ws, stale) = load_many (rd_active db0) db1;
             db2 = (if stale = [] then db1 else srem_active stale (others 2 db1));
             finished = map watch_id (filter (\<lambda>w. w_status w \<noteq> ACTIVE) ws)
         in (filter (\<lambda>w. w_status w = ACTIVE) ws,
             if finished = [] then db2 else srem_active finished (others 3 db2))))"

section \<open>Schedule and dispatch\<close>

definition redis_schedule_marker :: "string \<Rightarrow> (nat \<Rightarrow> redis_db) \<Rightarrow> schedule_marker option" where
  "redis_schedule_marker wid view =
     (case dict_get (rd_schedule (view 0)) wid of
        None \<Rightarrow> None
      | Some score \<Rightarrow>
          (case redis_get_runtime wid (view 1) of
             None \<Rightarrow> None
           | Some rt \<Rightarrow>
               (case rt_window_id rt of
                  None \<Rightarrow> None
                | Some win \<Rightarrow> Some \<lparr>mk_watch_id = wid, mk_window_id = win, mk_scheduled_for = from_ms score\<rparr>)))"

fun markers_of :: "string list \<Rightarrow> nat \<Rightarrow> (nat \<Rightarrow> redis_db) \<Rightarrow> schedule_marker list" where
  "markers_of [] i view = []"
| "markers_of (wid # wids) i view =
     (case redis_get_runtime wid (view i) of
        None \<Rightarrow> markers_of wids (Suc i) view
      | Some rt \<Rightarrow>
          (case (rt_window_id rt, rt_scheduled_for rt) of
             (Some win, Some due) \<Rightarrow>
               \<lparr>mk_watch_id = wid, mk_window_id = win, mk_scheduled_for = due\<rparr> # markers_of wids (Suc i) view
           | _ \<Rightarrow> markers_of wids (Suc i) view))"

definition redis_due_markers :: "time \<Rightarrow> seconds \<Rightarrow> int \<Rightarrow> (nat \<Rightarrow> redis_db) \<Rightarrow> schedule_marker list" where
  "redis_due_markers now horizon limit view =
     markers_of (take (nat (max 0 limit))
                   (zrange_to (to_ms (now + timedelta_seconds horizon)) (rd_schedule (view 0)))) 1 view"

definition dispatch_window_hash :: "(string \<Rightarrow> string) \<Rightarrow> string \<Rightarrow> string" where
  "dispatch_window_hash sha1hex win = take 16 (sha1hex win)"

definition redis_claim_dispatch ::
  "(string \<Rightarrow> string) \<Rightarrow> time \<Rightarrow> schedule_marker \<Rightarrow> string \<Rightarrow> seconds \<Rightarrow> redis_db \<Rightarrow>
   (redis_error + dispatch_result) \<times> redis_db" where
  "redis_claim_dispatch sha1hex now m owner lease db =
     (case claim_dispatch_script (mk_watch_id m) (mk_window_id m)
             (dispatch_window_hash sha1hex (mk_window_id m)) owner (seconds_to_ms lease) (to_ms now) db of
        (Inl err, db') \<Rightarrow> (Inl err, db')
      | (Inr (Dispatch_CLAIMED, Some (gen, expires)), db') \<Rightarrow>
          (Inr \<lparr>dr_status = Dispatch_CLAIMED,
                dr_claim = Some \<lparr>dc_watch_id = mk_watch_id m, dc_window_id = mk_window_id m,
                  dc_scheduled_for = mk_scheduled_for m, dc_owner_id = owner, dc_generation = gen,
                  dc_lease_expires_at = from_ms expires\<rparr>\<rparr>, db')
      | (Inr (st, _), db') \<Rightarrow> (Inr (dispatch_refused st), db'))"

definition dispatch_key :: "(string \<Rightarrow> string) \<Rightarrow> dispatch_claim \<Rightarrow> string \<times> string" where
  "dispatch_key sha1hex cl = (dc_watch_id cl, dispatch_window_hash sha1hex (dc_window_id cl))"

definition redis_mark_dispatched ::
  "(string \<Rightarrow> string) \<Rightarrow> dispatch_claim \<Rightarrow> time \<Rightarrow> redis_db \<Rightarrow> bool \<times> redis_db" where
  "redis_mark_dispatched sha1hex cl redispatch_after db =
     mark_script (dispatch_key sha1hex cl) (dc_owner_id cl) (dc_generation cl) (to_ms redispatch_after) db"

definition redis_release_dispatch ::
  "(string \<Rightarrow> string) \<Rightarrow> dispatch_claim \<Rightarrow> redis_db \<Rightarrow> bool \<times> redis_db" where
  "redis_release_dispatch sha1hex cl db =
     release_dispatch_script (dispatch_key sha1hex cl) (dc_owner_id cl) (dc_generation cl) db"

section \<open>Creation, claims, permits and commits\<close>

definition redis_create ::
  "watch \<Rightarrow> watch_runtime \<Rightarrow> redis_db \<Rightarrow> (redis_error + create_result) \<times> redis_db" where
  "redis_create w rt db =
     (let scheduled = (case (rt_window_id rt, rt_scheduled_for rt) of
                         (Some _, Some due) \<Rightarrow> Some (to_ms due) | _ \<Rightarrow> None)
      in case create_script (watch_id w) w rt scheduled db of
           ((Create_CREATED, _), db') \<Rightarrow>
             (Inr \<lparr>crt_status = Create_CREATED, crt_watch = Some w, crt_runtime = Some rt\<rparr>, db')
         | ((Create_ALREADY_EXISTS, Some (old, raw)), db') \<Rightarrow>
             (case decode_runtime raw of
                Some x \<Rightarrow>
                  if watch_valid old
                  then (Inr \<lparr>crt_status = Create_ALREADY_EXISTS, crt_watch = Some old, crt_runtime = Some x\<rparr>, db')
                  else (Inl Document_error, db')
              | None \<Rightarrow> (Inl Document_error, db'))
         | ((Create_ALREADY_EXISTS, None), db') \<Rightarrow> (Inl Script_error, db'))"

definition redis_claim_window ::
  "time \<Rightarrow> string \<Rightarrow> string \<Rightarrow> string \<Rightarrow> seconds \<Rightarrow> bool \<Rightarrow> redis_db \<Rightarrow>
   (redis_error + claim_result) \<times> redis_db" where
  "redis_claim_window now wid win owner lease ignore_schedule db =
     (case claim_script wid win owner (seconds_to_ms lease) (to_ms now) ignore_schedule db of
        (Inl err, db') \<Rightarrow> (Inl err, db')
      | (Inr (Claim_OWNED, Some (w, rt, token, expires)), db') \<Rightarrow>
          if watch_valid w \<and> runtime_valid rt
          then (Inr \<lparr>cl_status = Claim_OWNED,
                     cl_claim = Some \<lparr>wc_watch = w, wc_runtime = rt, wc_owner_id = owner,
                       wc_window_id = win, wc_token = token, wc_lease_expires_at = from_ms expires\<rparr>\<rparr>, db')
          else (Inl Document_error, db')
      | (Inr (st, _), db') \<Rightarrow> (Inr (claim_refused st), db'))"

definition redis_begin_booking ::
  "time \<Rightarrow> window_claim \<Rightarrow> redis_db \<Rightarrow> (redis_error + booking_permit) \<times> redis_db" where
  "redis_begin_booking now cl db =
     (let wid = watch_id (wc_watch cl) in
      case begin_script wid (revision (wc_runtime cl)) (wc_token cl) (wc_owner_id cl)
             ((wc_runtime cl)\<lparr>rt_phase := Some BOOKING\<rparr>) (to_ms now) db of
        (Inl err, db') \<Rightarrow> (Inl err, db')
      | (Inr Permit_GRANTED, db') \<Rightarrow>
          (Inr \<lparr>bp_status = Permit_GRANTED, permit_id = Some (wid @ '':'' @ show_int (wc_token cl))\<rparr>, db')
      | (Inr st, db') \<Rightarrow> (Inr (permit_refused st), db'))"

definition committed_runtime :: "redis_config \<Rightarrow> time \<Rightarrow> window_claim \<Rightarrow> watch \<Rightarrow> watch_runtime \<Rightarrow> watch_runtime" where
  "committed_runtime c now cl new_watch new_runtime =
     (let x = new_runtime\<lparr>revision := revision (wc_runtime cl) + 1, rt_phase := None\<rparr>
      in if is_terminal (w_status new_watch)
         then x\<lparr>rt_terminal_delete_at := Some (fst (terminal_deadlines c now))\<rparr> else x)"

definition redis_commit_window ::
  "(string \<Rightarrow> string) \<Rightarrow> redis_config \<Rightarrow> time \<Rightarrow> window_claim \<Rightarrow> watch \<Rightarrow> watch_runtime \<Rightarrow> redis_db \<Rightarrow>
   (redis_error + commit_result) \<times> redis_db" where
  "redis_commit_window sha1hex c now cl new_watch new_runtime db =
     (let wid = watch_id (wc_watch cl);
          terminal = is_terminal (w_status new_watch);
          (deadline, delete_ms, ttl) = terminal_deadlines c now;
          stored = committed_runtime c now cl new_watch new_runtime;
          scheduled = (case (rt_window_id stored, rt_scheduled_for stored) of
                         (Some _, Some due) \<Rightarrow> if terminal then None else Some (to_ms due)
                       | _ \<Rightarrow> None);
          event = (if terminal \<and> terminal_event_status (w_status new_watch)
                   then Some (terminal_event_id sha1hex wid (w_status new_watch) (revision stored)) else None)
      in case commit_script wid (revision (wc_runtime cl)) (wc_token cl) (wc_owner_id cl) new_watch stored
                terminal scheduled (if terminal then delete_ms else None) event (terminal \<and> ttl)
                (to_ms now) db of
           (Inl err, db') \<Rightarrow> (Inl err, db')
         | (Inr Commit_COMMITTED, db') \<Rightarrow>
             (Inr \<lparr>cm_status = Commit_COMMITTED, cm_watch = Some new_watch, cm_event_id = event\<rparr>, db')
         | (Inr st, db') \<Rightarrow> (Inr (commit_refused st None), db'))"

section \<open>Cancellation and expiry\<close>

text \<open>The runtime both terminal transitions write, from the one that was read.\<close>

definition retired_copy :: "redis_config \<Rightarrow> time \<Rightarrow> watch_runtime \<Rightarrow> watch_runtime" where
  "retired_copy c now rt =
     rt\<lparr>revision := revision rt + 1, rt_window_id := None, rt_scheduled_for := None, rt_phase := None,
        cancel_requested := False, rt_terminal_delete_at := Some (fst (terminal_deadlines c now))\<rparr>"

text \<open>One round of \<^verbatim>\<open>cancel_if_active\<close> after its two reads: the script call computed from them.\<close>

definition cancel_call ::
  "redis_config \<Rightarrow> time \<Rightarrow> string \<Rightarrow> watch \<Rightarrow> watch_runtime option \<Rightarrow> redis_db \<Rightarrow>
   (redis_error + transition_status \<times> watch option) \<times> redis_db" where
  "cancel_call c now wid w rt db =
     (let expected = map_option revision rt; (deadline, delete_ms, ttl) = terminal_deadlines c now in
      case rt of
        Some x \<Rightarrow>
          if rt_phase x = Some BOOKING
          then cancel_script wid expected Mode_pending w (Some (x\<lparr>cancel_requested := True\<rparr>)) None False db
          else cancel_script wid expected Mode_cancel
                 (w\<lparr>w_status := CANCELLED, next_check_at := None, updated_at := now\<rparr>)
                 (Some (retired_copy c now x)) delete_ms ttl db
      | None \<Rightarrow>
          cancel_script wid expected Mode_cancel
            (w\<lparr>w_status := CANCELLED, next_check_at := None, updated_at := now\<rparr>) None delete_ms ttl db)"

text \<open>What the method makes of the script's answer; \<open>None\<close> is another round.\<close>

definition cancel_answer ::
  "watch \<Rightarrow> watch_runtime option \<Rightarrow> redis_error + transition_status \<times> watch option
     \<Rightarrow> (redis_error + transition_result) option" where
  "cancel_answer w rt out =
     (case out of
        Inl err \<Rightarrow> Some (Inl err)
      | Inr (Transition_FENCED, _) \<Rightarrow> None
      | Inr (Transition_APPLIED, Some doc) \<Rightarrow>
          Some (if watch_valid doc
                then Inr \<lparr>tr_status = Transition_APPLIED, tr_watch = Some doc, tr_event_id = None,
                          tr_revision = (case rt of None \<Rightarrow> 0 | Some x \<Rightarrow> revision x + 1)\<rparr>
                else Inl Document_error)
      | Inr (Transition_NOT_ELIGIBLE, _) \<Rightarrow>
          Some (Inr (transition_refused Transition_NOT_ELIGIBLE (Some w)))
      | Inr (Transition_NOOP, Some doc) \<Rightarrow>
          Some (if watch_valid doc then Inr (transition_refused Transition_NOOP (Some doc))
                else Inl Document_error)
      | Inr _ \<Rightarrow> Some (Inr (transition_refused Transition_UNKNOWN None)))"

fun cancel_rounds ::
  "nat \<Rightarrow> redis_config \<Rightarrow> (nat \<Rightarrow> time) \<Rightarrow> (nat \<Rightarrow> redis_db \<Rightarrow> redis_db) \<Rightarrow> nat \<Rightarrow> string \<Rightarrow> redis_db \<Rightarrow>
   (redis_error + transition_result) \<times> redis_db" where
  "cancel_rounds 0 c clock others i wid db = (Inr (transition_refused Transition_FENCED None), db)"
| "cancel_rounds (Suc n) c clock others i wid db =
     (let db1 = others i db in
      case redis_get wid db1 of
        None \<Rightarrow> (Inr (transition_refused Transition_UNKNOWN None), db1)
      | Some w \<Rightarrow>
          if is_terminal (w_status w) then (Inr (transition_refused Transition_NOOP (Some w)), db1)
          else
            (let db2 = others (i + 1) db1;
                 rt = redis_get_runtime wid db2;
                 db3 = others (i + 2) db2;
                 (out, db4) = cancel_call c (clock (i + 1)) wid w rt db3
             in case cancel_answer w rt out of
                  Some answer \<Rightarrow> (answer, db4)
                | None \<Rightarrow> cancel_rounds n c clock others (i + 3) wid db4))"

definition CANCEL_ATTEMPTS :: nat where "CANCEL_ATTEMPTS = 5"

definition redis_cancel ::
  "redis_config \<Rightarrow> (nat \<Rightarrow> time) \<Rightarrow> (nat \<Rightarrow> redis_db \<Rightarrow> redis_db) \<Rightarrow> string \<Rightarrow> redis_db \<Rightarrow>
   (redis_error + transition_result) \<times> redis_db" where
  "redis_cancel c clock others wid db = cancel_rounds CANCEL_ATTEMPTS c clock others 0 wid db"

definition expire_call ::
  "(string \<Rightarrow> string) \<Rightarrow> redis_config \<Rightarrow> time \<Rightarrow> string \<Rightarrow> watch \<Rightarrow> watch_runtime option \<Rightarrow> redis_db \<Rightarrow>
   (redis_error + transition_status \<times> watch option) \<times> redis_db" where
  "expire_call sha1hex c now wid w rt db =
     (let (deadline, delete_ms, ttl) = terminal_deadlines c now;
          new_revision = (case rt of None \<Rightarrow> 0 | Some x \<Rightarrow> revision x + 1)
      in expire_script wid (map_option revision rt)
           (w\<lparr>w_status := EXPIRED, next_check_at := None, updated_at := now\<rparr>)
           (map_option (retired_copy c now) rt)
           (Some (terminal_event_id sha1hex wid EXPIRED new_revision)) delete_ms ttl db)"

definition redis_expire ::
  "(string \<Rightarrow> string) \<Rightarrow> redis_config \<Rightarrow> (nat \<Rightarrow> time) \<Rightarrow> (nat \<Rightarrow> redis_db \<Rightarrow> redis_db) \<Rightarrow>
   string \<Rightarrow> int option \<Rightarrow> bool \<Rightarrow> redis_db \<Rightarrow> (redis_error + transition_result) \<times> redis_db" where
  "redis_expire sha1hex c clock others wid expected force db =
     (let db1 = others 0 db in
      case redis_get wid db1 of
        None \<Rightarrow> (Inr (transition_refused Transition_UNKNOWN None), db1)
      | Some w \<Rightarrow>
          if is_terminal (w_status w) then (Inr (transition_refused Transition_NOOP (Some w)), db1)
          else
            (let db2 = others 1 db1; rt = redis_get_runtime wid db2 in
             if (case (expected, rt) of (Some n, Some x) \<Rightarrow> revision x \<noteq> n | _ \<Rightarrow> False)
             then (Inr (transition_refused Transition_FENCED None), db2)
             else if \<not> force \<and> \<not> is_exhausted w (clock 1)
             then (Inr (transition_refused Transition_NOT_ELIGIBLE (Some w)), db2)
             else
               (let db3 = others 2 db2;
                    new_revision = (case rt of None \<Rightarrow> 0 | Some x \<Rightarrow> revision x + 1)
                in case expire_call sha1hex c (clock 2) wid w rt db3 of
                     (Inl err, db4) \<Rightarrow> (Inl err, db4)
                   | (Inr (Transition_APPLIED, Some doc), db4) \<Rightarrow>
                       (if watch_valid doc
                        then Inr \<lparr>tr_status = Transition_APPLIED, tr_watch = Some doc,
                               tr_event_id = Some (terminal_event_id sha1hex wid EXPIRED new_revision),
                               tr_revision = new_revision\<rparr>
                        else Inl Document_error, db4)
                   | (Inr (Transition_NOOP, Some doc), db4) \<Rightarrow>
                       (if watch_valid doc then Inr (transition_refused Transition_NOOP (Some doc))
                        else Inl Document_error, db4)
                   | (Inr (Transition_FENCED, _), db4) \<Rightarrow> (Inr (transition_refused Transition_FENCED None), db4)
                   | (Inr _, db4) \<Rightarrow> (Inr (transition_refused Transition_UNKNOWN None), db4))))"

section \<open>Release, cleanup and recovery\<close>

definition redis_release_claim :: "window_claim \<Rightarrow> redis_db \<Rightarrow> bool \<times> redis_db" where
  "redis_release_claim cl db = release_script (watch_id (wc_watch cl)) (wc_owner_id cl) (wc_token cl) db"

definition redis_cleanup_due :: "time \<Rightarrow> int \<Rightarrow> redis_db \<Rightarrow> cleanup_result \<times> redis_db" where
  "redis_cleanup_due now batch db =
     (let ((n, left), db') = cleanup_script (to_ms now) batch db
      in (\<lparr>removed = n, remaining = 0 < left\<rparr>, db'))"

fun candidates_of :: "ms \<Rightarrow> string list \<Rightarrow> nat \<Rightarrow> (nat \<Rightarrow> redis_db) \<Rightarrow> recovery_candidate list" where
  "candidates_of now [] i view = []"
| "candidates_of now (wid # wids) i view =
     \<lparr>rc_watch_id = wid, rc_watch = redis_get wid (view i), rc_runtime = redis_get_runtime wid (view (i + 1)),
      has_marker = (dict_get (rd_schedule (view (i + 2))) wid \<noteq> None),
      has_live_claim = (case dict_get (rd_claims (view (i + 3))) wid of
                          None \<Rightarrow> False | Some l \<Rightarrow> now < lv_expires l)\<rparr>
     # candidates_of now wids (i + 4) view"

definition redis_list_candidates :: "time \<Rightarrow> (nat \<Rightarrow> redis_db) \<Rightarrow> recovery_candidate list" where
  "redis_list_candidates now view = candidates_of (to_ms now) (sort (rd_active (view 0))) 1 view"

definition redis_prune :: "string \<Rightarrow> bool \<Rightarrow> redis_db \<Rightarrow> redis_db" where
  "redis_prune wid from_all db =
     (let db1 = db\<lparr>rd_active := removeAll wid (rd_active db)\<rparr>
      in if from_all then
           db1\<lparr>rd_all := removeAll wid (rd_all db1),
               rd_runtimes := dict_pop wid (rd_runtimes db1),
               rd_fences := dict_pop wid (rd_fences db1),
               rd_claims := dict_pop wid (rd_claims db1),
               rd_schedule := dict_pop wid (rd_schedule db1)\<rparr>
         else db1)"

definition redis_synthesize ::
  "time \<Rightarrow> string \<Rightarrow> watch_runtime \<Rightarrow> redis_db \<Rightarrow> bool \<times> redis_db" where
  "redis_synthesize now wid rt db =
     (case (rt_window_id rt, rt_scheduled_for rt) of
        (Some _, Some due) \<Rightarrow> synthesize_script wid rt (to_ms due) (to_ms now) db
      | _ \<Rightarrow> (False, db))"

end
