(* ===== verification/Redis_Protocol.thy ===== *)
theory Redis_Protocol
  imports Redis_Client Watch_Cell
begin

text \<open>
  The Redis store refines the contract of \<open>Watch_Cell\<close>. \<open>redis_cell\<close> is the abstraction: the cell of
  a watch as its keys and index entries show it, in microseconds. A script call, a pipeline, a native
  expiry is one \<open>redis_step\<close>, and each is a step of the cell of the watch it names. Cancellation and
  expiry compute their script's arguments from two earlier reads: \<open>behind\<close> says what such a snapshot
  may still claim about the stored sidecar, and is shown to survive every step.
\<close>

section \<open>The abstraction\<close>

definition claim_cell :: "lease_value \<Rightarrow> claim_lease" where
  "claim_cell l = \<lparr>ls_window_id = [], ls_owner_id = lv_owner l, ls_token = lv_token l,
                  ls_expires_at = from_ms (lv_expires l)\<rparr>"

definition stored_runtime_of :: "string \<Rightarrow> redis_db \<Rightarrow> watch_runtime option" where
  "stored_runtime_of k db =
     (case dict_get (rd_runtimes db) k of Some (Runtime_json rt) \<Rightarrow> Some rt | _ \<Rightarrow> None)"

definition absent_cell :: cell where
  "absent_cell = \<lparr>c_watch = None, c_runtime = None, c_fence = None, c_claim = None,
     c_dispatch_fence = None, c_dispatch_lease = None, c_marker = None, c_delete_at = None\<rparr>"

definition redis_cell :: "redis_db \<Rightarrow> string \<Rightarrow> cell" where
  "redis_cell db k =
     (case dict_get (rd_watches db) k of
        None \<Rightarrow> absent_cell
      | Some w \<Rightarrow>
          \<lparr>c_watch = Some w, c_runtime = stored_runtime_of k db, c_fence = dict_get (rd_fences db) k,
           c_claim = map_option claim_cell (dict_get (rd_claims db) k),
           c_dispatch_fence = None, c_dispatch_lease = None,
           c_marker = (if dict_get (rd_schedule db) k = None then None
                       else Option.bind (stored_runtime_of k db) (marker_for k)),
           c_delete_at = map_option from_ms (dict_get (rd_terminal db) k)\<rparr>)"

text \<open>
  The invariant of one watch's keys: the cell is well formed; an active watch is indexed, safe from
  native expiry and scheduled exactly when it has a sidecar, which then names a window and a time; a
  terminal one is not scheduled; a missing document leaves neither claim nor schedule entry.
\<close>

definition index_ok :: "redis_db \<Rightarrow> string \<Rightarrow> bool" where
  "index_ok db k \<longleftrightarrow>
     (case dict_get (rd_watches db) k of
        None \<Rightarrow> dict_get (rd_claims db) k = None \<and> dict_get (rd_schedule db) k = None
      | Some w \<Rightarrow>
          if w_status w = ACTIVE
          then k \<in> set (rd_active db) \<and> k \<notin> set (rd_expiring db) \<and>
               (case dict_get (rd_runtimes db) k of
                  None \<Rightarrow> dict_get (rd_schedule db) k = None
                | Some Not_json \<Rightarrow> False
                | Some (Runtime_json rt) \<Rightarrow> dict_get (rd_schedule db) k \<noteq> None \<and> marker_for k rt \<noteq> None)
          else dict_get (rd_schedule db) k = None)"

definition key_ok :: "redis_db \<Rightarrow> string \<Rightarrow> bool" where
  "key_ok db k \<longleftrightarrow> cell_ok k (redis_cell db k) \<and> index_ok db k"

definition redis_ok :: "redis_db \<Rightarrow> bool" where
  "redis_ok db \<longleftrightarrow> (\<forall>k. key_ok db k)"

definition same_key :: "redis_db \<Rightarrow> redis_db \<Rightarrow> string \<Rightarrow> bool" where
  "same_key db db' k \<longleftrightarrow>
     dict_get (rd_watches db') k = dict_get (rd_watches db) k \<and>
     dict_get (rd_runtimes db') k = dict_get (rd_runtimes db) k \<and>
     dict_get (rd_fences db') k = dict_get (rd_fences db) k \<and>
     dict_get (rd_claims db') k = dict_get (rd_claims db) k \<and>
     dict_get (rd_schedule db') k = dict_get (rd_schedule db) k \<and>
     dict_get (rd_terminal db') k = dict_get (rd_terminal db) k \<and>
     (k \<in> set (rd_active db') \<longleftrightarrow> k \<in> set (rd_active db)) \<and>
     (k \<in> set (rd_expiring db') \<longleftrightarrow> k \<in> set (rd_expiring db))"

lemma same_key_refl [simp]: "same_key db db k"
  by (simp add: same_key_def)

lemma same_key_cell: "same_key db db' k \<Longrightarrow> redis_cell db' k = redis_cell db k"
  by (simp add: same_key_def redis_cell_def stored_runtime_of_def split: option.split)

lemma same_key_ok: "same_key db db' k \<Longrightarrow> key_ok db' k = key_ok db k"
  using same_key_cell [of db db' k] by (simp add: key_ok_def index_ok_def same_key_def split: option.split runtime_doc.split)

lemma redis_okI:
  assumes "redis_ok db" and "\<And>k. k \<noteq> wid \<Longrightarrow> same_key db db' k" and "key_ok db' wid"
  shows "redis_ok db'"
  unfolding redis_ok_def
proof
  fix k show "key_ok db' k"
    using assms same_key_ok [of db db' k] by (cases "k = wid") (auto simp: redis_ok_def)
qed

lemma redis_ok_empty [simp]: "redis_ok empty_db"
  by (simp add: redis_ok_def key_ok_def index_ok_def redis_cell_def absent_cell_def cell_ok_def empty_db_def)

lemma redis_cell_active:
  "c_active (redis_cell db k) \<longleftrightarrow> (\<exists>w. dict_get (rd_watches db) k = Some w \<and> w_status w = ACTIVE)"
  by (auto simp: redis_cell_def absent_cell_def c_active_def split: option.splits)

lemma ms_order:
  "to_ms now < m \<longleftrightarrow> now < from_ms m"
proof -
  have "now = 1000 * to_ms now + now mod 1000" "0 \<le> now mod 1000" "now mod 1000 < 1000"
    by (simp_all add: to_ms_def)
  then show ?thesis unfolding from_ms_def by linarith
qed

text \<open>What a step has to show of one watch's keys: a cell step, and the index discipline.\<close>

lemma redis_cell_present:
  "dict_get (rd_watches db) k = Some w \<Longrightarrow> redis_cell db k =
     \<lparr>c_watch = Some w, c_runtime = stored_runtime_of k db, c_fence = dict_get (rd_fences db) k,
      c_claim = map_option claim_cell (dict_get (rd_claims db) k),
      c_dispatch_fence = None, c_dispatch_lease = None,
      c_marker = (if dict_get (rd_schedule db) k = None then None
                  else Option.bind (stored_runtime_of k db) (marker_for k)),
      c_delete_at = map_option from_ms (dict_get (rd_terminal db) k)\<rparr>"
  by (simp add: redis_cell_def)

lemma key_ok_present:
  assumes "key_ok db k" and "dict_get (rd_watches db) k = Some w"
  shows "watch_valid w" and "watch_id w = k"
    and "w_status w = ACTIVE \<Longrightarrow> dict_get (rd_terminal db) k = None \<and> k \<in> set (rd_active db)"
    and "w_status w \<noteq> ACTIVE \<Longrightarrow> dict_get (rd_claims db) k = None \<and> dict_get (rd_schedule db) k = None \<and>
           dict_get (rd_terminal db) k \<noteq> None"
  using assms
  by (simp_all add: key_ok_def index_ok_def cell_ok_def redis_cell_present [OF assms(2)] is_terminal_def)

text \<open>An operation on one watch: a cell step of that watch, nothing seen by the others.\<close>

lemma redis_stepI:
  assumes ok: "redis_ok db" and other: "\<And>k. k \<noteq> wid \<Longrightarrow> same_key db db' k"
    and step: "cell_step now wid (redis_cell db wid) evs (redis_cell db' wid)" and idx: "index_ok db' wid"
  shows "redis_ok db'" and "cell_step now k (redis_cell db k) (if k = wid then evs else []) (redis_cell db' k)"
proof -
  have "cell_ok wid (redis_cell db wid)" using ok by (simp add: redis_ok_def key_ok_def)
  then have "key_ok db' wid" using cell_step_ok [OF step] idx by (simp add: key_ok_def)
  then show "redis_ok db'" using redis_okI [OF ok other] by blast
  show "cell_step now k (redis_cell db k) (if k = wid then evs else []) (redis_cell db' k)"
    using step same_key_cell [OF other] by (auto intro: cell_step.stutter)
qed

lemma index_okD: "redis_ok db \<Longrightarrow> index_ok db k"
  by (simp add: redis_ok_def key_ok_def)

section \<open>Claims, permits and commits\<close>

lemma redis_claim_effect:
  obtains (same) "snd (redis_claim_window now wid win own lease ign db) = db"
  | (taken) w rt l where "dict_get (rd_watches db) wid = Some w" "w_status w = ACTIVE"
      "dict_get (rd_runtimes db) wid = Some (Runtime_json rt)" "rt_window_id rt = Some win"
      "\<And>l. dict_get (rd_claims db) wid = Some l \<Longrightarrow> \<not> now < from_ms (lv_expires l)"
      "snd (redis_claim_window now wid win own lease ign db) =
         db\<lparr>rd_fences := dict_set wid (next_token (dict_get (rd_fences db) wid)) (rd_fences db)\<rparr> \<or>
       snd (redis_claim_window now wid win own lease ign db) =
         db\<lparr>rd_fences := dict_set wid (next_token (dict_get (rd_fences db) wid)) (rd_fences db),
            rd_claims := dict_set wid l (rd_claims db)\<rparr> \<and>
       lv_owner l = own \<and> lv_token l = next_token (dict_get (rd_fences db) wid) \<and>
       (\<forall>cl. fst (redis_claim_window now wid win own lease ign db) =
           Inr \<lparr>cl_status = Claim_OWNED, cl_claim = Some cl\<rparr> \<longrightarrow>
           cl = \<lparr>wc_watch = w, wc_runtime = rt, wc_owner_id = own, wc_window_id = win,
                 wc_token = lv_token l, wc_lease_expires_at = from_ms (lv_expires l)\<rparr>)"
proof (cases "dict_get (rd_watches db) wid")
  case None
  then show thesis by (intro same) (simp add: redis_claim_window_def claim_script_def)
next
  case w: (Some w)
  show thesis
  proof (cases "dict_get (rd_runtimes db) wid")
    case None
    with w show thesis by (intro same) (simp add: redis_claim_window_def claim_script_def)
  next
    case doc: (Some doc)
    show thesis
    proof (cases doc)
      case Not_json
      with w doc show thesis by (intro same) (simp add: redis_claim_window_def claim_script_def)
    next
      case (Runtime_json rt)
      let ?go = "w_status w = ACTIVE \<and> rt_window_id rt = Some win \<and>
        (ign \<or> \<not> (case dict_get (rd_schedule db) wid of None \<Rightarrow> False | Some due \<Rightarrow> to_ms now < due)) \<and>
        \<not> (case dict_get (rd_claims db) wid of None \<Rightarrow> False | Some l \<Rightarrow> to_ms now < lv_expires l)"
      show thesis
      proof (cases ?go)
        case False
        with w doc Runtime_json show thesis
          by (intro same) (auto simp: redis_claim_window_def claim_script_def Let_def)
      next
        case True
        let ?l = "\<lparr>lv_owner = own, lv_token = next_token (dict_get (rd_fences db) wid),
                  lv_expires = to_ms now + seconds_to_ms lease\<rparr>"
        show thesis
        proof (rule taken [of w rt ?l])
          show "\<not> now < from_ms (lv_expires l)" if "dict_get (rd_claims db) wid = Some l" for l
            using True that by (simp flip: ms_order)
        qed (use w doc Runtime_json True in
            \<open>auto simp: redis_claim_window_def claim_script_def Let_def incr_def next_token_def\<close>)
      qed
    qed
  qed
qed

lemma redis_claim_step:
  assumes ok: "redis_ok db"
  shows "redis_ok (snd (redis_claim_window now wid win own lease ign db))"
    and "cell_step now k (redis_cell db k) [] (redis_cell (snd (redis_claim_window now wid win own lease ign db)) k)"
proof -
  let ?db = "snd (redis_claim_window now wid win own lease ign db)"
  have "redis_ok ?db \<and> cell_step now k (redis_cell db k) [] (redis_cell ?db k)"
  proof (cases rule: redis_claim_effect [of now wid win own lease ign db])
    case same
    with ok show ?thesis by (simp add: cell_step.stutter)
  next
    case (taken w rt l)
    have active: "c_active (redis_cell db wid)" using taken(1,2) by (simp add: redis_cell_active)
    have rt: "c_runtime (redis_cell db wid) = Some rt"
      using taken(1,3) by (simp add: redis_cell_def stored_runtime_of_def)
    have free: "\<not> (\<exists>l. c_claim (redis_cell db wid) = Some l \<and> ls_window_id l = win \<and> now < ls_expires_at l)"
      using taken(1,5) by (auto simp: redis_cell_def claim_cell_def)
    note steps = cell_step.burn [of now wid "redis_cell db wid"]
      cell_step.claim [OF active rt taken(4) free, of wid "[]" own "from_ms (lv_expires l)"]
    have step: "cell_step now wid (redis_cell db wid) [] (redis_cell ?db wid)"
      using taken(6) steps taken(1)
      by (auto elim!: cell_step_eq simp: redis_cell_def stored_runtime_of_def claim_cell_def)
    have other: "same_key db ?db k" if "k \<noteq> wid" for k
      using taken(6) that by (auto simp: same_key_def)
    have "index_ok ?db wid"
      using index_okD [OF ok, of wid] taken(6,1,2) by (auto simp: index_ok_def split: option.splits runtime_doc.splits)
    from redis_stepI [OF ok other step this] show ?thesis by simp
  qed
  then show "redis_ok ?db" "cell_step now k (redis_cell db k) [] (redis_cell ?db k)" by auto
qed

text \<open>
  What a copy of the sidecar read earlier may still claim: it is not newer, and at the same revision
  it differs at most in the two flags, which then were only raised.
\<close>

definition behind :: "watch_runtime \<Rightarrow> watch_runtime \<Rightarrow> bool" where
  "behind snap cur \<longleftrightarrow> revision snap \<le> revision cur \<and>
     (revision snap = revision cur \<longrightarrow>
        snap\<lparr>rt_phase := None, cancel_requested := False\<rparr> = cur\<lparr>rt_phase := None, cancel_requested := False\<rparr> \<and>
        (cancel_requested snap \<longrightarrow> cancel_requested cur) \<and>
        (rt_phase snap = Some BOOKING \<longrightarrow> rt_phase cur = Some BOOKING))"

lemma behind_refl [simp]: "behind rt rt"
  by (simp add: behind_def)

definition read_ok :: "string \<Rightarrow> watch_runtime option \<Rightarrow> redis_db \<Rightarrow> bool" where
  "read_ok k snap db \<longleftrightarrow>
     (case snap of
        None \<Rightarrow> dict_get (rd_runtimes db) k = None
      | Some rt \<Rightarrow> (\<forall>cur. stored_runtime_of k db = Some cur \<longrightarrow> behind rt cur))"

lemma behind_flags:
  assumes "behind snap cur" and "revision snap = revision cur"
  shows "\<not> cancel_requested cur \<Longrightarrow> snap\<lparr>rt_phase := Some ph\<rparr> = cur\<lparr>rt_phase := Some ph\<rparr>"
    and "rt_phase snap = Some BOOKING \<Longrightarrow> snap\<lparr>cancel_requested := True\<rparr> = cur\<lparr>cancel_requested := True\<rparr>"
    and "retired_copy c now snap = retired_copy c now cur"
  using assms by (cases snap, cases cur, auto simp: behind_def retired_copy_def)+

text \<open>The fence of the scripts is ownership of the cell.\<close>

lemma claim_held_owned:
  assumes "dict_get (rd_watches db) (watch_id (wc_watch cl)) = Some w" "w_status w = ACTIVE"
    and "dict_get (rd_runtimes db) (watch_id (wc_watch cl)) = Some (Runtime_json rt)"
    and "revision rt = revision (wc_runtime cl)"
    and "claim_held (watch_id (wc_watch cl)) (wc_owner_id cl) (wc_token cl) (to_ms now) db"
  shows "c_owned now cl (redis_cell db (watch_id (wc_watch cl)))"
    and "c_runtime (redis_cell db (watch_id (wc_watch cl))) = Some rt"
  using assms
  by (auto simp: c_owned_def c_active_def redis_cell_def stored_runtime_of_def claim_cell_def claim_held_def
      ms_order split: option.splits)

lemmas begin_defs = redis_begin_booking_def begin_script_def Let_def
lemmas commit_defs = redis_commit_window_def commit_script_def terminal_deadlines_def Let_def

lemma redis_begin_effect:
  fixes cl :: window_claim
  defines "wid \<equiv> watch_id (wc_watch cl)"
  obtains (same) "snd (redis_begin_booking now cl db) = db"
      "\<And>p. fst (redis_begin_booking now cl db) = Inr p \<Longrightarrow> bp_status p \<noteq> Permit_GRANTED"
  | (granted) w rt where "dict_get (rd_watches db) wid = Some w" "w_status w = ACTIVE"
      "dict_get (rd_runtimes db) wid = Some (Runtime_json rt)" "revision rt = revision (wc_runtime cl)"
      "claim_held wid (wc_owner_id cl) (wc_token cl) (to_ms now) db" "\<not> cancel_requested rt"
      "snd (redis_begin_booking now cl db) =
         db\<lparr>rd_runtimes := dict_set wid (Runtime_json ((wc_runtime cl)\<lparr>rt_phase := Some BOOKING\<rparr>)) (rd_runtimes db)\<rparr>"
proof (cases "dict_get (rd_watches db) wid")
  case None
  then show thesis by (intro same) (auto simp: begin_defs wid_def split: if_splits)
next
  case w: (Some w)
  show thesis
  proof (cases "dict_get (rd_runtimes db) wid")
    case None
    with w show thesis by (intro same) (auto simp: begin_defs wid_def split: if_splits)
  next
    case doc: (Some doc)
    show thesis
    proof (cases doc)
      case Not_json
      with w doc show thesis by (intro same) (auto simp: begin_defs wid_def split: if_splits)
    next
      case (Runtime_json rt)
      let ?go = "w_status w = ACTIVE \<and> revision rt = revision (wc_runtime cl) \<and>
        claim_held wid (wc_owner_id cl) (wc_token cl) (to_ms now) db \<and> \<not> cancel_requested rt"
      show thesis
      proof (cases ?go)
        case True
        with w doc Runtime_json show thesis
          by (intro granted [of w rt]) (auto simp: begin_defs wid_def split: if_splits)
      next
        case False
        with w doc Runtime_json show thesis
          by (intro same) (auto simp: begin_defs wid_def split: if_splits)
      qed
    qed
  qed
qed

lemma redis_begin_step:
  assumes ok: "redis_ok db" and snap: "read_ok (watch_id (wc_watch cl)) (Some (wc_runtime cl)) db"
  shows "redis_ok (snd (redis_begin_booking now cl db))"
    and "cell_step now k (redis_cell db k) [] (redis_cell (snd (redis_begin_booking now cl db)) k)"
proof -
  let ?db = "snd (redis_begin_booking now cl db)" and ?wid = "watch_id (wc_watch cl)"
  have "redis_ok ?db \<and> cell_step now k (redis_cell db k) [] (redis_cell ?db k)"
  proof (cases rule: redis_begin_effect [of now cl db])
    case same
    with ok show ?thesis by (simp add: cell_step.stutter)
  next
    case (granted w rt)
    note own = claim_held_owned [OF granted(1-5)]
    have "behind (wc_runtime cl) rt"
      using snap granted(3) by (simp add: read_ok_def stored_runtime_of_def)
    from behind_flags(1) [OF this granted(4) [symmetric] granted(6)]
    have stored: "?db = db\<lparr>rd_runtimes := dict_set ?wid (Runtime_json (rt\<lparr>rt_phase := Some BOOKING\<rparr>)) (rd_runtimes db)\<rparr>"
      by (simp add: granted(7))
    have sched: "dict_get (rd_schedule db) ?wid \<noteq> None" "marker_for ?wid rt \<noteq> None"
      using index_okD [OF ok, of ?wid] granted(1-3) by (auto simp: index_ok_def)
    have mk: "marker_for ?wid (rt\<lparr>rt_phase := Some BOOKING\<rparr>) = marker_for ?wid rt" by (simp add: marker_for_def)
    have step: "cell_step now ?wid (redis_cell db ?wid) [] (redis_cell ?db ?wid)"
      by (rule cell_step_eq [OF cell_step.permit [OF own granted(6)]])
         (use granted(1,3) mk in \<open>simp add: stored redis_cell_def stored_runtime_of_def\<close>)
    have other: "same_key db ?db k" if "k \<noteq> ?wid" for k
      using that by (simp add: stored same_key_def)
    have "index_ok ?db ?wid"
      using index_okD [OF ok, of ?wid] granted(1-3) mk by (simp add: index_ok_def stored)
    from redis_stepI [OF ok other step this] show ?thesis by simp
  qed
  then show "redis_ok ?db" "cell_step now k (redis_cell db k) [] (redis_cell ?db k)" by auto
qed

lemma redis_commit_effect:
  fixes cl :: window_claim
  defines "wid \<equiv> watch_id (wc_watch cl)"
  obtains (same) "snd (redis_commit_window sha c now cl nw nrt db) = db"
      "\<And>r. fst (redis_commit_window sha c now cl nw nrt db) = Inr r \<Longrightarrow>
         cm_status r \<noteq> Commit_COMMITTED \<and> cm_event_id r = None"
  | (committed) w rt where "dict_get (rd_watches db) wid = Some w" "w_status w = ACTIVE"
      "dict_get (rd_runtimes db) wid = Some (Runtime_json rt)" "revision rt = revision (wc_runtime cl)"
      "claim_held wid (wc_owner_id cl) (wc_token cl) (to_ms now) db"
      "fst (redis_commit_window sha c now cl nw nrt db) = Inr \<lparr>cm_status = Commit_COMMITTED, cm_watch = Some nw,
         cm_event_id = (if terminal_event_status (w_status nw)
           then Some (terminal_event_id sha wid (w_status nw) (revision rt + 1)) else None)\<rparr>"
      "\<And>k. same_key (db\<lparr>rd_watches := dict_set wid nw (rd_watches db),
            rd_runtimes := dict_set wid (Runtime_json (committed_runtime c now cl nw nrt)) (rd_runtimes db),
            rd_claims := dict_pop wid (rd_claims db),
            rd_expiring := (if is_terminal (w_status nw) then wid # rd_expiring db
                            else removeAll wid (rd_expiring db)),
            rd_active := (if is_terminal (w_status nw) then removeAll wid (rd_active db) else rd_active db),
            rd_schedule :=
              (if is_terminal (w_status nw) \<or> marker_for wid (committed_runtime c now cl nw nrt) = None
               then dict_pop wid (rd_schedule db)
               else dict_set wid (to_ms (mk_scheduled_for (the (marker_for wid (committed_runtime c now cl nw nrt)))))
                      (rd_schedule db)),
            rd_terminal := (if is_terminal (w_status nw)
                            then dict_set wid (to_ms (now + redis_retention c)) (rd_terminal db)
                            else rd_terminal db)\<rparr>)
          (snd (redis_commit_window sha c now cl nw nrt db)) k"
proof (cases "dict_get (rd_watches db) wid")
  case None
  then show thesis by (intro same) (auto simp: commit_defs wid_def split: if_splits)
next
  case w: (Some w)
  show thesis
  proof (cases "dict_get (rd_runtimes db) wid")
    case None
    with w show thesis by (intro same) (auto simp: commit_defs wid_def split: if_splits)
  next
    case doc: (Some doc)
    show thesis
    proof (cases doc)
      case Not_json
      with w doc show thesis by (intro same) (auto simp: commit_defs wid_def split: if_splits)
    next
      case (Runtime_json rt)
      let ?go = "w_status w = ACTIVE \<and> revision rt = revision (wc_runtime cl) \<and>
        claim_held wid (wc_owner_id cl) (wc_token cl) (to_ms now) db"
      have next_rev: "revision (committed_runtime c now cl nw nrt) = revision (wc_runtime cl) + 1"
        by (simp add: committed_runtime_def Let_def)
      have term_event: "terminal_event_status st \<Longrightarrow> is_terminal st" for st
        by (auto simp: terminal_event_status_def is_terminal_def)
      show thesis
      proof (cases ?go)
        case True
        with w doc Runtime_json show thesis
          by (intro committed [of w rt])
             (auto simp: commit_defs wid_def next_rev term_event same_key_def marker_for_def split: option.splits)
      next
        case False
        with w doc Runtime_json show thesis
          by (intro same) (auto simp: commit_defs wid_def split: if_splits)
      qed
    qed
  qed
qed

lemma committed_runtime_simps [simp]:
  "revision (committed_runtime c now cl nw nrt) = revision (wc_runtime cl) + 1"
  "rt_phase (committed_runtime c now cl nw nrt) = None"
  "is_terminal (w_status nw) \<Longrightarrow> rt_terminal_delete_at (committed_runtime c now cl nw nrt) \<noteq> None"
  "marker_for k (committed_runtime c now cl nw nrt) = marker_for k nrt"
  by (auto simp: committed_runtime_def Let_def marker_for_def split: option.split)

lemma redis_commit_step:
  fixes sha :: "string \<Rightarrow> string" and c :: redis_config and now :: time and cl :: window_claim
    and nw :: watch and nrt :: watch_runtime and db :: redis_db
  assumes ok: "redis_ok db" and doc: "watch_valid nw" "watch_id nw = watch_id (wc_watch cl)"
    and dated: "w_status nw = ACTIVE \<Longrightarrow> marker_for (watch_id (wc_watch cl)) nrt \<noteq> None"
  defines "out \<equiv> fst (redis_commit_window sha c now cl nw nrt db)"
  defines "db' \<equiv> snd (redis_commit_window sha c now cl nw nrt db)"
  shows "redis_ok db'"
    and "cell_step now k (redis_cell db k)
           (if k = watch_id (wc_watch cl)
            then (case out of Inl err \<Rightarrow> [] | Inr r \<Rightarrow> (case cm_event_id r of None \<Rightarrow> [] | Some e \<Rightarrow> [e])) else [])
           (redis_cell db' k)"
    and "out = Inr r \<Longrightarrow> cm_status r = Commit_COMMITTED \<Longrightarrow>
           c_owned now cl (redis_cell db (watch_id (wc_watch cl))) \<and>
           rank (redis_cell db' (watch_id (wc_watch cl))) = revision (wc_runtime cl) + 1"
proof -
  let ?wid = "watch_id (wc_watch cl)"
  let ?evs = "case out of Inl err \<Rightarrow> [] | Inr r \<Rightarrow> (case cm_event_id r of None \<Rightarrow> [] | Some e \<Rightarrow> [e])"
  have "redis_ok db' \<and> cell_step now k (redis_cell db k) (if k = ?wid then ?evs else []) (redis_cell db' k) \<and>
    (out = Inr r \<longrightarrow> cm_status r = Commit_COMMITTED \<longrightarrow>
           c_owned now cl (redis_cell db ?wid) \<and> rank (redis_cell db' ?wid) = revision (wc_runtime cl) + 1)"
  proof (cases rule: redis_commit_effect [where sha = sha and c = c and now = now and cl = cl and nw = nw and
        nrt = nrt and db = db])
    case same
    with ok show ?thesis
      by (cases out) (auto simp: out_def db'_def intro: cell_step.stutter)
  next
    case (committed w rt)
    let ?stored = "committed_runtime c now cl nw nrt"
    note own = claim_held_owned [OF committed(1-5)]
    note eff = committed(7) [folded db'_def]
    have other: "same_key db db' k" if "k \<noteq> ?wid" for k
      using eff [of k] that by (simp add: same_key_def split: if_splits)
    have evs: "?evs = (if terminal_event_status (w_status nw)
        then [terminal_event_id sha ?wid (w_status nw) (revision rt + 1)] else [])"
      by (simp add: out_def committed(6))
    have cell: "redis_cell db' ?wid =
        (redis_cell db ?wid)\<lparr>c_watch := Some nw, c_runtime := Some ?stored, c_claim := None,
          c_marker := (if is_terminal (w_status nw) then None else marker_for ?wid ?stored),
          c_delete_at := (if is_terminal (w_status nw) then Some (from_ms (to_ms (now + redis_retention c)))
                          else map_option from_ms (dict_get (rd_terminal db) ?wid))\<rparr>"
      using eff [of ?wid] committed(1)
      by (auto simp: same_key_def redis_cell_def stored_runtime_of_def)
    have step: "cell_step now ?wid (redis_cell db ?wid) ?evs (redis_cell db' ?wid)"
    proof (cases "is_terminal (w_status nw)")
      case True
      have len: "length ?evs \<le> 1" by (simp add: evs)
      show ?thesis
        by (rule cell_step_eq [OF cell_step.finish [OF own doc True _ _ _ len, of ?stored]])
           (use True committed(1,4) in \<open>simp_all add: cell, simp add: redis_cell_def\<close>)
    next
      case False
      then have active: "w_status nw = ACTIVE" by (simp add: is_terminal_def)
      have "?evs = []" using active by (simp add: evs terminal_event_status_def)
      moreover have "dict_get (rd_terminal db) ?wid = None"
        using ok committed(1,2) key_ok_present(3) by (auto simp: redis_ok_def)
      ultimately show ?thesis
        by (auto intro!: cell_step_eq [OF cell_step.reschedule [OF own doc active, of ?stored]]
            simp: cell False committed(4)) (simp add: redis_cell_def committed(1))
    qed
    have "index_ok db' ?wid"
      using eff [of ?wid] index_okD [OF ok, of ?wid] committed(1,2) dated
      by (cases "is_terminal (w_status nw)") (auto simp: index_ok_def same_key_def is_terminal_def)
    from redis_stepI [OF ok other step this] own cell show ?thesis
      by (auto simp: rank_def)
  qed
  then show "redis_ok db'"
    "cell_step now k (redis_cell db k) (if k = ?wid then ?evs else []) (redis_cell db' k)"
    "out = Inr r \<Longrightarrow> cm_status r = Commit_COMMITTED \<Longrightarrow>
       c_owned now cl (redis_cell db ?wid) \<and> rank (redis_cell db' ?wid) = revision (wc_runtime cl) + 1"
    by blast+
qed

section \<open>Cancellation and expiry\<close>

text \<open>The compare-and-set passed on a snapshot that is still fit: the terminal write retires the cell.\<close>

lemma retired_copy_eq:
  "retired_copy c now rt = retired_runtime (revision rt + 1) (fst (terminal_deadlines c now)) rt"
  by (simp add: retired_copy_def retired_runtime_def)

lemma finish_step:
  assumes ok: "redis_ok db" and w0: "dict_get (rd_watches db) wid = Some w0" "w_status w0 = ACTIVE"
    and doc: "watch_valid w" "watch_id w = wid" and st: "st \<in> {CANCELLED, EXPIRED}"
    and snap: "read_ok wid rt db" and cas: "cas_passes (map_option revision rt) (dict_get (rd_runtimes db) wid) = Inr True"
    and evs: "length evs \<le> 1"
    and same: "\<And>k. same_key (finish_keys wid (w\<lparr>w_status := st, next_check_at := None, updated_at := t\<rparr>)
        (map_option (retired_copy c now) rt) (Some due) ttl db) db' k"
  shows "redis_ok db'" and "cell_step now' k (redis_cell db k) (if k = wid then evs else []) (redis_cell db' k)"
    and "c_terminal (redis_cell db' wid)"
proof -
  let ?w = "w\<lparr>w_status := st, next_check_at := None, updated_at := t\<rparr>"
  let ?fin = "finish_keys wid ?w (map_option (retired_copy c now) rt) (Some due) ttl db"
  have other: "same_key db db' k" if "k \<noteq> wid" for k
    using same [of k] that by (auto simp: same_key_def finish_keys_def set_runtime_def Let_def)
  have runtime: "stored_runtime_of wid ?fin =
      map_option (\<lambda>rt. retired_runtime (revision rt + 1) (fst (terminal_deadlines c now)) rt) (stored_runtime_of wid db)"
  proof (cases "dict_get (rd_runtimes db) wid")
    case None
    then show ?thesis by (simp add: finish_keys_def set_runtime_def stored_runtime_of_def Let_def)
  next
    case (Some raw)
    with snap cas obtain x cur where x: "rt = Some x" "raw = Runtime_json cur" "behind x cur" "revision x = revision cur"
      by (cases rt; cases raw) (auto simp: read_ok_def stored_runtime_of_def cas_passes_def)
    from behind_flags(3) [OF x(3,4), of c now] Some x(1,2) show ?thesis
      by (simp add: finish_keys_def set_runtime_def stored_runtime_of_def Let_def retired_copy_eq)
  qed
  have cell: "redis_cell db' wid = (redis_cell db wid)\<lparr>c_watch := Some ?w,
      c_runtime := map_option (\<lambda>rt. retired_runtime (revision rt + 1) (fst (terminal_deadlines c now)) rt)
        (c_runtime (redis_cell db wid)),
      c_claim := None, c_marker := None, c_dispatch_lease := None, c_delete_at := Some (from_ms due)\<rparr>"
    unfolding same_key_cell [OF same] using runtime w0
    by (simp add: redis_cell_def finish_keys_def Let_def set_runtime_def stored_runtime_of_def split: if_splits)
  have active: "c_active (redis_cell db wid)" using w0 by (simp add: redis_cell_active)
  have "cell_step now' wid (redis_cell db wid) evs (redis_cell db' wid)"
    unfolding cell
    by (rule cell_step.retire [OF active disjI2 st evs refl]) (use doc in simp)
  moreover have "index_ok db' wid"
    using same [of wid] st by (auto simp: index_ok_def same_key_def finish_keys_def set_runtime_def Let_def)
  ultimately show "redis_ok db'" "cell_step now' k (redis_cell db k) (if k = wid then evs else []) (redis_cell db' k)"
    using redis_stepI [OF ok other] by blast+
  show "c_terminal (redis_cell db' wid)"
    using st by (auto simp: cell c_terminal_def is_terminal_def)
qed

lemma redis_cancel_call_step:
  assumes ok: "redis_ok db" and doc: "watch_valid w" "watch_id w = wid" and snap: "read_ok wid rt db"
  shows "redis_ok (snd (cancel_call c now wid w rt db))"
    and "cell_step now' k (redis_cell db k) [] (redis_cell (snd (cancel_call c now wid w rt db)) k)"
    and "fst (cancel_call c now wid w rt db) = Inr (Transition_APPLIED, x) \<Longrightarrow>
         c_active (redis_cell db wid) \<and> c_terminal (redis_cell (snd (cancel_call c now wid w rt db)) wid)"
    and "fst (cancel_call c now wid w rt db) = Inr (Transition_NOT_ELIGIBLE, x) \<Longrightarrow> c_active (redis_cell db wid)"
proof -
  let ?out = "fst (cancel_call c now wid w rt db)" and ?db = "snd (cancel_call c now wid w rt db)"
  have "redis_ok ?db \<and> cell_step now' k (redis_cell db k) [] (redis_cell ?db k) \<and>
    (?out = Inr (Transition_APPLIED, x) \<longrightarrow> c_active (redis_cell db wid) \<and> c_terminal (redis_cell ?db wid)) \<and>
    (?out = Inr (Transition_NOT_ELIGIBLE, x) \<longrightarrow> c_active (redis_cell db wid))"
  proof (cases "(\<exists>w0. dict_get (rd_watches db) wid = Some w0 \<and> w_status w0 = ACTIVE) \<and>
      cas_passes (map_option revision rt) (dict_get (rd_runtimes db) wid) = Inr True")
    case False
    then have "?db = db \<and> (\<forall>x. ?out \<noteq> Inr (Transition_APPLIED, x) \<and> ?out \<noteq> Inr (Transition_NOT_ELIGIBLE, x))"
      by (cases rt) (auto simp: cancel_call_def cancel_script_def terminal_deadlines_def Let_def
          split: option.splits sum.splits bool.splits)
    with ok show ?thesis by (auto intro: cell_step.stutter)
  next
    case True
    then obtain w0 where w0: "dict_get (rd_watches db) wid = Some w0" "w_status w0 = ACTIVE" by blast
    note active = redis_cell_active [of db wid] w0
    show ?thesis
    proof (cases "\<exists>x. rt = Some x \<and> rt_phase x = Some BOOKING")
      case True
      then obtain x where x: "rt = Some x" "rt_phase x = Some BOOKING" by blast
      have out: "?out = Inr (Transition_NOT_ELIGIBLE, Some w0)"
        and set: "?db = set_runtime wid (Some (x\<lparr>cancel_requested := True\<rparr>)) db"
        using x w0 \<open>_ \<and> cas_passes _ _ = _\<close>
        by (simp_all add: cancel_call_def cancel_script_def terminal_deadlines_def Let_def)
      show ?thesis
      proof (cases "dict_get (rd_runtimes db) wid")
        case None
        with set have "?db = db" by (simp add: set_runtime_def)
        with ok out active show ?thesis by (auto intro: cell_step.stutter)
      next
        case (Some raw)
        with snap x \<open>_ \<and> cas_passes _ _ = _\<close> obtain cur
          where cur: "raw = Runtime_json cur" "behind x cur" "revision x = revision cur"
          by (cases raw) (auto simp: read_ok_def stored_runtime_of_def cas_passes_def)
        have same_doc: "x\<lparr>cancel_requested := True\<rparr> = cur\<lparr>cancel_requested := True\<rparr>" "rt_phase cur = Some BOOKING"
          using behind_flags(2) [OF cur(2,3) x(2)] cur(2,3) x(2) by (auto simp: behind_def)
        have db: "?db = db\<lparr>rd_runtimes := dict_set wid (Runtime_json (cur\<lparr>cancel_requested := True\<rparr>)) (rd_runtimes db)\<rparr>"
          using set Some same_doc by (simp add: set_runtime_def)
        have c: "c_runtime (redis_cell db wid) = Some cur"
          using w0 Some cur(1) by (simp add: redis_cell_def stored_runtime_of_def)
        have mk: "marker_for wid (cur\<lparr>cancel_requested := True\<rparr>) = marker_for wid cur" by (simp add: marker_for_def)
        have idx: "dict_get (rd_schedule db) wid \<noteq> None" "index_ok ?db wid"
          using index_okD [OF ok, of wid] w0 Some cur(1) mk by (auto simp: index_ok_def db)
        have step: "cell_step now' wid (redis_cell db wid) [] (redis_cell ?db wid)"
          by (rule cell_step_eq [OF cell_step.cancel_pending [OF _ c same_doc(2)]])
             (use active w0 Some cur(1) mk in \<open>simp_all add: db redis_cell_def stored_runtime_of_def\<close>)
        have other: "same_key db ?db k" if "k \<noteq> wid" for k using that by (simp add: db same_key_def)
        from redis_stepI [OF ok other step idx(2)] out active show ?thesis by auto
      qed
    next
      case False
      have db: "?db = finish_keys wid (w\<lparr>w_status := CANCELLED, next_check_at := None, updated_at := now\<rparr>)
          (map_option (retired_copy c now) rt) (Some (to_ms (now + redis_retention c))) True db"
        using False w0 \<open>_ \<and> cas_passes _ _ = _\<close>
        by (cases rt) (auto simp: cancel_call_def cancel_script_def terminal_deadlines_def Let_def)
      have fin: "\<And>k. same_key (finish_keys wid (w\<lparr>w_status := CANCELLED, next_check_at := None, updated_at := now\<rparr>)
          (map_option (retired_copy c now) rt) (Some (to_ms (now + redis_retention c))) True db) ?db k"
        by (simp add: db)
      have "redis_ok ?db \<and> cell_step now' k (redis_cell db k) (if k = wid then [] else []) (redis_cell ?db k) \<and>
          c_terminal (redis_cell ?db wid)"
        using finish_step [OF ok w0 doc _ snap _ _ fin, where evs = "[]"] \<open>_ \<and> cas_passes _ _ = _\<close> by simp
      with active show ?thesis by auto
    qed
  qed
  then show "redis_ok ?db" "cell_step now' k (redis_cell db k) [] (redis_cell ?db k)"
    "?out = Inr (Transition_APPLIED, x) \<Longrightarrow> c_active (redis_cell db wid) \<and> c_terminal (redis_cell ?db wid)"
    "?out = Inr (Transition_NOT_ELIGIBLE, x) \<Longrightarrow> c_active (redis_cell db wid)" by blast+
qed

lemma redis_expire_call_step:
  assumes ok: "redis_ok db" and doc: "watch_valid w" "watch_id w = wid" and snap: "read_ok wid rt db"
  shows "redis_ok (snd (expire_call sha c now wid w rt db))"
    and "cell_step now' k (redis_cell db k)
           (if k = wid \<and> (\<exists>x. fst (expire_call sha c now wid w rt db) = Inr (Transition_APPLIED, x))
            then [terminal_event_id sha wid EXPIRED (case rt of None \<Rightarrow> 0 | Some x \<Rightarrow> revision x + 1)] else [])
           (redis_cell (snd (expire_call sha c now wid w rt db)) k)"
    and "fst (expire_call sha c now wid w rt db) = Inr (Transition_APPLIED, x) \<Longrightarrow>
         c_active (redis_cell db wid) \<and> c_terminal (redis_cell (snd (expire_call sha c now wid w rt db)) wid)"
proof -
  let ?out = "fst (expire_call sha c now wid w rt db)" and ?db = "snd (expire_call sha c now wid w rt db)"
  let ?ev = "terminal_event_id sha wid EXPIRED (case rt of None \<Rightarrow> 0 | Some x \<Rightarrow> revision x + 1)"
  have "redis_ok ?db \<and> cell_step now' k (redis_cell db k)
      (if k = wid \<and> (\<exists>x. ?out = Inr (Transition_APPLIED, x)) then [?ev] else []) (redis_cell ?db k) \<and>
    (?out = Inr (Transition_APPLIED, x) \<longrightarrow> c_active (redis_cell db wid) \<and> c_terminal (redis_cell ?db wid))"
  proof (cases "(\<exists>w0. dict_get (rd_watches db) wid = Some w0 \<and> w_status w0 = ACTIVE) \<and>
      cas_passes (map_option revision rt) (dict_get (rd_runtimes db) wid) = Inr True")
    case False
    then have "?db = db \<and> (\<forall>x. ?out \<noteq> Inr (Transition_APPLIED, x))"
      by (auto simp: expire_call_def expire_script_def terminal_deadlines_def Let_def
          split: option.splits sum.splits bool.splits)
    with ok show ?thesis by (auto intro: cell_step.stutter)
  next
    case True
    then obtain w0 where w0: "dict_get (rd_watches db) wid = Some w0" "w_status w0 = ACTIVE" by blast
    let ?fin = "finish_keys wid (w\<lparr>w_status := EXPIRED, next_check_at := None, updated_at := now\<rparr>)
          (map_option (retired_copy c now) rt) (Some (to_ms (now + redis_retention c))) True db"
    have out: "?out = Inr (Transition_APPLIED, Some (w\<lparr>w_status := EXPIRED, next_check_at := None, updated_at := now\<rparr>))"
      and fin: "\<And>k. same_key ?fin ?db k"
      using w0 True by (simp_all add: expire_call_def expire_script_def terminal_deadlines_def Let_def same_key_def)
    from finish_step [OF ok w0 doc _ snap _ _ fin, where evs = "[?ev]"] True
    have "redis_ok ?db \<and> cell_step now' k (redis_cell db k) (if k = wid then [?ev] else []) (redis_cell ?db k) \<and>
        c_terminal (redis_cell ?db wid)" by simp
    with out w0 show ?thesis by (auto simp: redis_cell_active)
  qed
  then show "redis_ok ?db" "cell_step now' k (redis_cell db k)
      (if k = wid \<and> (\<exists>x. ?out = Inr (Transition_APPLIED, x)) then [?ev] else []) (redis_cell ?db k)"
    "?out = Inr (Transition_APPLIED, x) \<Longrightarrow> c_active (redis_cell db wid) \<and> c_terminal (redis_cell ?db wid)"
    by blast+
qed

section \<open>The other methods\<close>

lemma lapse_claim_step:
  assumes ok: "redis_ok db"
  shows "redis_ok (db\<lparr>rd_claims := dict_pop wid (rd_claims db)\<rparr>)"
    and "cell_step now k (redis_cell db k) [] (redis_cell (db\<lparr>rd_claims := dict_pop wid (rd_claims db)\<rparr>) k)"
proof -
  let ?db = "db\<lparr>rd_claims := dict_pop wid (rd_claims db)\<rparr>"
  have other: "same_key db ?db k" if "k \<noteq> wid" for k using that by (simp add: same_key_def)
  have step: "cell_step now wid (redis_cell db wid) [] (redis_cell ?db wid)"
  proof (cases "dict_get (rd_watches db) wid")
    case None
    then show ?thesis by (simp add: redis_cell_def cell_step.stutter)
  next
    case (Some w)
    show ?thesis
      by (rule cell_step_eq [OF cell_step.release]) (simp add: redis_cell_def Some stored_runtime_of_def)
  qed
  have "index_ok ?db wid" using index_okD [OF ok, of wid]
    by (auto simp: index_ok_def split: option.splits runtime_doc.splits)
  from redis_stepI [OF ok other step this]
  show "redis_ok ?db" "cell_step now k (redis_cell db k) [] (redis_cell ?db k)" by simp_all
qed

lemma redis_release_step:
  assumes ok: "redis_ok db"
  shows "redis_ok (snd (redis_release_claim cl db))"
    and "cell_step now k (redis_cell db k) [] (redis_cell (snd (redis_release_claim cl db)) k)"
proof -
  let ?db = "snd (redis_release_claim cl db)" and ?wid = "watch_id (wc_watch cl)"
  have db: "?db = db \<or> ?db = db\<lparr>rd_claims := dict_pop ?wid (rd_claims db)\<rparr>"
    by (auto simp: redis_release_claim_def release_script_def split: option.split)
  show "redis_ok ?db" "cell_step now k (redis_cell db k) [] (redis_cell ?db k)"
    using db lapse_claim_step [OF ok] ok by (auto intro: cell_step.stutter)
qed

text \<open>Methods that touch no key of the protocol, and methods that remove a watch.\<close>

lemma redis_same:
  assumes "redis_ok db" and "\<And>k. same_key db db' k"
  shows "redis_ok db'" and "redis_cell db' k = redis_cell db k"
  using assms(1) same_key_ok [OF assms(2)] same_key_cell [OF assms(2)] by (simp_all add: redis_ok_def)

lemma key_absentI:
  "dict_get (rd_watches db) k = None \<Longrightarrow> dict_get (rd_claims db) k = None \<Longrightarrow>
   dict_get (rd_schedule db) k = None \<Longrightarrow> key_ok db k"
  by (simp add: key_ok_def index_ok_def redis_cell_def absent_cell_def cell_ok_def)

lemma redis_ok_absent:
  assumes "redis_ok db" and "dict_get (rd_watches db) k = None"
  shows "dict_get (rd_claims db) k = None" and "dict_get (rd_schedule db) k = None"
  using index_okD [OF assms(1), of k] assms(2) by (simp_all add: index_ok_def)

lemma dispatch_same:
  "same_key db (snd (redis_claim_dispatch sha now m own lease db)) k"
  "same_key db (snd (redis_mark_dispatched sha dcl t db)) k"
  "same_key db (snd (redis_release_dispatch sha dcl db)) k"
proof -
  have "same_key db (snd (claim_dispatch_script wid win key own l n db)) k" for wid win key own l n
    by (auto simp: claim_dispatch_script_def same_key_def Let_def split: option.split runtime_doc.split)
  then show "same_key db (snd (redis_claim_dispatch sha now m own lease db)) k"
    by (auto simp: redis_claim_dispatch_def split: prod.split sum.split dispatch_status.split option.split)
       (metis snd_conv)+
  show "same_key db (snd (redis_mark_dispatched sha dcl t db)) k"
    by (auto simp: redis_mark_dispatched_def mark_script_def same_key_def split: option.split)
  show "same_key db (snd (redis_release_dispatch sha dcl db)) k"
    by (auto simp: redis_release_dispatch_def release_dispatch_script_def same_key_def split: option.split)
qed

lemma redis_delete_ok:
  assumes "redis_ok db"
  shows "redis_ok (snd (redis_delete wid db))"
    and "k \<noteq> wid \<Longrightarrow> redis_cell (snd (redis_delete wid db)) k = redis_cell db k"
proof -
  have other: "same_key db (snd (redis_delete wid db)) k" if "k \<noteq> wid" for k
    using that by (simp add: redis_delete_def same_key_def)
  show "redis_ok (snd (redis_delete wid db))"
    by (rule redis_okI [OF assms other]) (simp, rule key_absentI, simp_all add: redis_delete_def)
  show "k \<noteq> wid \<Longrightarrow> redis_cell (snd (redis_delete wid db)) k = redis_cell db k"
    using other same_key_cell by blast
qed

lemma cleanup_step_ok:
  assumes ok: "redis_ok db" and run: "cleanup_step wid (n, db) = (n', db')"
  shows "redis_ok db'" and "dict_get (rd_watches db') k \<noteq> None \<Longrightarrow> redis_cell db' k = redis_cell db k"
proof -
  have other: "same_key db db' k" if "k \<noteq> wid" for k
    using run that by (auto simp: cleanup_step_def same_key_def split: option.splits if_splits)
  have at: "key_ok db' wid \<and> (dict_get (rd_watches db') wid \<noteq> None \<longrightarrow> redis_cell db' wid = redis_cell db wid)"
  proof (cases "dict_get (rd_watches db) wid")
    case None
    with run redis_ok_absent [OF ok None] show ?thesis
      by (auto simp: cleanup_step_def intro: key_absentI)
  next
    case (Some w)
    show ?thesis
    proof (cases "w_status w = ACTIVE")
      case True
      have "dict_get (rd_terminal db) wid = None"
        using ok Some True key_ok_present(3) by (auto simp: redis_ok_def)
      with run Some True have "same_key db db' wid" by (auto simp: cleanup_step_def same_key_def)
      from same_key_ok [OF this] same_key_cell [OF this] ok show ?thesis by (simp add: redis_ok_def)
    next
      case False
      with run Some show ?thesis by (auto simp: cleanup_step_def intro: key_absentI)
    qed
  qed
  show "redis_ok db'" using redis_okI [OF ok other] at by blast
  show "dict_get (rd_watches db') k \<noteq> None \<Longrightarrow> redis_cell db' k = redis_cell db k"
    using at same_key_cell [OF other] by (cases "k = wid") auto
qed

lemma cleanup_step_absent:
  "dict_get (rd_watches db) k = None \<Longrightarrow> dict_get (rd_watches (snd (cleanup_step wid (n, db)))) k = None"
  by (auto simp: cleanup_step_def split: option.split)

lemma cleanup_fold_absent:
  "dict_get (rd_watches db) k = None \<Longrightarrow> dict_get (rd_watches (snd (fold cleanup_step wids (n, db)))) k = None"
proof (induction wids arbitrary: n db)
  case (Cons wid wids)
  from cleanup_step_absent [OF Cons.prems, of wid n] Cons.IH show ?case
    by (cases "cleanup_step wid (n, db)") simp
qed simp

lemma cleanup_fold_ok:
  "redis_ok db \<Longrightarrow> redis_ok (snd (fold cleanup_step wids (n, db))) \<and>
   (dict_get (rd_watches (snd (fold cleanup_step wids (n, db)))) k \<noteq> None \<longrightarrow>
      redis_cell (snd (fold cleanup_step wids (n, db))) k = redis_cell db k)"
proof (induction wids arbitrary: n db)
  case (Cons wid wids)
  obtain n1 db1 where one: "cleanup_step wid (n, db) = (n1, db1)" by fastforce
  note 1 = cleanup_step_ok [OF Cons.prems one]
  show ?case
  proof (cases "dict_get (rd_watches db1) k")
    case None
    with Cons.IH [OF 1(1), of n1] cleanup_fold_absent [of db1 k wids n1] one show ?thesis by simp
  next
    case (Some w)
    with Cons.IH [OF 1(1), of n1] 1(2) [of k] one show ?thesis by simp
  qed
qed simp

lemma redis_cleanup_ok:
  assumes "redis_ok db"
  shows "redis_ok (snd (redis_cleanup_due now batch db))"
    and "dict_get (rd_watches (snd (redis_cleanup_due now batch db))) k \<noteq> None \<Longrightarrow>
         redis_cell (snd (redis_cleanup_due now batch db)) k = redis_cell db k"
  using cleanup_fold_ok [OF assms, of "limit_to batch (zrange_to (to_ms now) (rd_terminal db))" 0 k]
  by (simp_all add: redis_cleanup_due_def cleanup_script_def case_prod_unfold Let_def)

lemma redis_create_ok:
  assumes ok: "redis_ok db" and doc: "watch_valid w" "w_status w = ACTIVE" "marker_for (watch_id w) rt \<noteq> None"
    and fresh: "dict_get (rd_terminal db) (watch_id w) = None"
  shows "redis_ok (snd (redis_create w rt db))"
    and "dict_get (rd_watches db) k \<noteq> None \<Longrightarrow> redis_cell (snd (redis_create w rt db)) k = redis_cell db k"
proof -
  let ?db = "snd (redis_create w rt db)"
  have "redis_ok ?db \<and> (dict_get (rd_watches db) k \<noteq> None \<longrightarrow> redis_cell ?db k = redis_cell db k)"
  proof (cases "dict_get (rd_watches db) (watch_id w)")
    case (Some old)
    then have "?db = db"
      by (auto simp: redis_create_def create_script_def Let_def split: option.split)
    with ok show ?thesis by simp
  next
    case None
    from doc(3) obtain win due where d: "rt_window_id rt = Some win" "rt_scheduled_for rt = Some due"
      by (auto simp: marker_for_def split: option.splits)
    have db: "?db = db\<lparr>rd_watches := dict_set (watch_id w) w (rd_watches db),
              rd_runtimes := dict_set (watch_id w) (Runtime_json rt) (rd_runtimes db),
              rd_fences := dict_set (watch_id w) 0 (rd_fences db),
              rd_all := List.insert (watch_id w) (rd_all db),
              rd_active := List.insert (watch_id w) (rd_active db),
              rd_schedule := dict_set (watch_id w) (to_ms due) (rd_schedule db),
              rd_expiring := removeAll (watch_id w) (rd_expiring db)\<rparr>"
      using None d by (simp add: redis_create_def create_script_def Let_def)
    have other: "same_key db ?db k" if "k \<noteq> watch_id w" for k
      using that by (simp add: db same_key_def)
    from redis_ok_absent(1) [OF ok None] have "key_ok ?db (watch_id w)"
      using doc d fresh
      by (simp add: db key_ok_def index_ok_def redis_cell_def stored_runtime_of_def cell_ok_def marker_for_def
          is_terminal_def)
    with redis_okI [OF ok other] have "redis_ok ?db" by blast
    with None same_key_cell [OF other, of k] show ?thesis by (cases "k = watch_id w") auto
  qed
  then show "redis_ok ?db" "dict_get (rd_watches db) k \<noteq> None \<Longrightarrow> redis_cell ?db k = redis_cell db k" by auto
qed

lemma redis_synthesize_step:
  assumes ok: "redis_ok db" and rt: "0 \<le> revision rt"
  shows "redis_ok (snd (redis_synthesize now wid rt db))"
    and "cell_step now k (redis_cell db k) [] (redis_cell (snd (redis_synthesize now wid rt db)) k)"
proof -
  let ?db = "snd (redis_synthesize now wid rt db)"
  have "redis_ok ?db \<and> cell_step now k (redis_cell db k) [] (redis_cell ?db k)"
  proof (cases "\<exists>w win due. dict_get (rd_watches db) wid = Some w \<and> w_status w = ACTIVE \<and>
      rt_window_id rt = Some win \<and> rt_scheduled_for rt = Some due \<and> dict_get (rd_schedule db) wid = None \<and>
      \<not> (case dict_get (rd_claims db) wid of None \<Rightarrow> False | Some l \<Rightarrow> to_ms now < lv_expires l)")
    case False
    then have "?db = db"
      by (auto simp: redis_synthesize_def synthesize_script_def split: option.splits)
    with ok show ?thesis by (simp add: cell_step.stutter)
  next
    case True
    then obtain w win due where w: "dict_get (rd_watches db) wid = Some w" "w_status w = ACTIVE"
      and d: "rt_window_id rt = Some win" "rt_scheduled_for rt = Some due"
      and none: "dict_get (rd_schedule db) wid = None"
      and free: "\<not> (case dict_get (rd_claims db) wid of None \<Rightarrow> False | Some l \<Rightarrow> to_ms now < lv_expires l)" by blast
    have db: "?db = db\<lparr>rd_runtimes := dict_set wid (Runtime_json rt) (rd_runtimes db),
                   rd_fences := (case dict_get (rd_fences db) wid of
                                   None \<Rightarrow> dict_set wid 0 (rd_fences db) | Some _ \<Rightarrow> rd_fences db),
                   rd_schedule := dict_set wid (to_ms due) (rd_schedule db)\<rparr>"
      using w d none free by (auto simp: redis_synthesize_def synthesize_script_def)
    have absent: "dict_get (rd_runtimes db) wid = None"
      using index_okD [OF ok, of wid] w none by (auto simp: index_ok_def split: option.splits runtime_doc.splits)
    have mk: "marker_for wid rt \<noteq> None" using d by (simp add: marker_for_def)
    have active: "c_active (redis_cell db wid)" using w by (simp add: redis_cell_active)
    have idle: "\<not> live_claim now (redis_cell db wid)"
      using w free by (auto simp: live_claim_def redis_cell_def claim_cell_def ms_order split: option.splits)
    have bare: "c_marker (redis_cell db wid) = None" "c_runtime (redis_cell db wid) = None"
      using w none absent by (simp_all add: redis_cell_def stored_runtime_of_def)
    have step: "cell_step now wid (redis_cell db wid) [] (redis_cell ?db wid)"
      by (rule cell_step_eq [OF cell_step.synthesize [OF active idle bare(1) rt]])
         (use bare w in \<open>auto simp: db redis_cell_def stored_runtime_of_def split: option.split\<close>)
    have other: "same_key db ?db k" if "k \<noteq> wid" for k
      using that by (auto simp: db same_key_def split: option.split)
    have "index_ok ?db wid"
      using index_okD [OF ok, of wid] w mk by (simp add: index_ok_def db)
    from redis_stepI [OF ok other step this] show ?thesis by simp
  qed
  then show "redis_ok ?db" "cell_step now k (redis_cell db k) [] (redis_cell ?db k)" by auto
qed

end
