(* ===== verification/Redis_History.thy ===== *)
theory Redis_History
  imports Redis_Protocol Watch_Protocol
begin

text \<open>
  Histories of the Redis store: \<open>redis_step\<close> is one script call, one pipeline or one native key expiry,
  \<open>redis_run k\<close> the histories that never lose watch \<open>k\<close>. Every history of the store is a history of
  the watch's cell, and the interpretation \<open>redis\<close> of \<open>watch_store\<close> gives the Redis store every
  guarantee the in-memory store has.
\<close>

section \<open>Index upkeep and native expiry\<close>

text \<open>Redis drops the two document keys of a terminal watch together: their TTLs are set in one script.\<close>

definition drop_documents :: "string \<Rightarrow> redis_db \<Rightarrow> redis_db" where
  "drop_documents wid db =
     db\<lparr>rd_watches := dict_pop wid (rd_watches db), rd_runtimes := dict_pop wid (rd_runtimes db),
        rd_expiring := removeAll wid (rd_expiring db)\<rparr>"

lemma drop_documents_ok:
  assumes ok: "redis_ok db" and ttl: "wid \<in> set (rd_expiring db)"
  shows "redis_ok (drop_documents wid db)"
    and "dict_get (rd_watches (drop_documents wid db)) k \<noteq> None \<Longrightarrow>
         redis_cell (drop_documents wid db) k = redis_cell db k"
proof -
  have other: "same_key db (drop_documents wid db) k" if "k \<noteq> wid" for k
    using that by (simp add: drop_documents_def same_key_def)
  have gone: "dict_get (rd_claims db) wid = None \<and> dict_get (rd_schedule db) wid = None"
  proof (cases "dict_get (rd_watches db) wid")
    case None
    with redis_ok_absent [OF ok] show ?thesis by blast
  next
    case (Some w)
    with index_okD [OF ok, of wid] ttl have "w_status w \<noteq> ACTIVE" by (auto simp: index_ok_def)
    with key_ok_present(4) [OF _ Some] ok show ?thesis by (simp add: redis_ok_def)
  qed
  show "redis_ok (drop_documents wid db)"
    by (rule redis_okI [OF ok other]) (simp, rule key_absentI, simp_all add: drop_documents_def gone)
  show "redis_cell (drop_documents wid db) k = redis_cell db k"
    if "dict_get (rd_watches (drop_documents wid db)) k \<noteq> None"
    using that other same_key_cell by (cases "k = wid") (simp_all add: drop_documents_def)
qed

text \<open>The listings only prune index members; a member that names an active watch stays.\<close>

lemma reindex_ok:
  assumes ok: "redis_ok db"
    and keep: "\<And>k w. dict_get (rd_watches db) k = Some w \<Longrightarrow> w_status w = ACTIVE \<Longrightarrow> k \<in> set (rd_active db) \<Longrightarrow> k \<in> set A"
  shows "redis_ok (db\<lparr>rd_all := B, rd_active := A\<rparr>)"
    and "redis_cell (db\<lparr>rd_all := B, rd_active := A\<rparr>) k = redis_cell db k"
proof -
  show cell: "redis_cell (db\<lparr>rd_all := B, rd_active := A\<rparr>) k = redis_cell db k" for k
    by (simp add: redis_cell_def stored_runtime_of_def cong: option.case_cong)
  have "index_ok (db\<lparr>rd_all := B, rd_active := A\<rparr>) k" for k
    using index_okD [OF ok, of k] keep [of k] by (auto simp: index_ok_def split: option.splits runtime_doc.splits)
  with ok cell show "redis_ok (db\<lparr>rd_all := B, rd_active := A\<rparr>)" by (simp add: redis_ok_def key_ok_def)
qed

lemma redis_get_ok:
  "redis_ok db \<Longrightarrow> redis_get k db = dict_get (rd_watches db) k"
  by (auto simp: redis_get_def decode_watch_def redis_ok_def dest: key_ok_present(1,2) split: option.split)

lemma redis_get_valid: "redis_get k db = Some w \<Longrightarrow> watch_valid w \<and> watch_id w = k \<and> dict_get (rd_watches db) k = Some w"
  by (auto simp: redis_get_def decode_watch_def split: option.splits if_splits)

lemma srem_ok:
  assumes "redis_ok db"
  shows "redis_ok (srem_all ids db)" and "redis_cell (srem_all ids db) k = redis_cell db k"
    and "\<forall>i \<in> set ids. \<not> c_active (redis_cell db i) \<Longrightarrow> redis_ok (srem_active ids db)"
    and "redis_cell (srem_active ids db) k = redis_cell db k"
proof -
  show "redis_ok (srem_all ids db)" "redis_cell (srem_all ids db) k = redis_cell db k"
    using reindex_ok [OF assms, where A = "rd_active db"] by (simp_all add: srem_all_def)
  show "redis_ok (srem_active ids db)" if "\<forall>i \<in> set ids. \<not> c_active (redis_cell db i)"
    using reindex_ok(1) [OF assms, where A = "filter (\<lambda>k. k \<notin> set ids) (rd_active db)" and B = "rd_all db"] that
    by (auto simp: srem_active_def redis_cell_active)
  show "redis_cell (srem_active ids db) k = redis_cell db k"
    by (simp add: srem_active_def redis_cell_def stored_runtime_of_def cong: option.case_cong)
qed

text \<open>Recovery prunes a member it read as missing or terminal, the full index only for a missing one.\<close>

lemma redis_prune_ok:
  assumes ok: "redis_ok db" and idle: "\<not> c_active (redis_cell db wid)"
    and gone: "from_all \<Longrightarrow> dict_get (rd_watches db) wid = None"
  shows "redis_ok (redis_prune wid from_all db)" and "redis_cell (redis_prune wid from_all db) k = redis_cell db k"
proof -
  have "redis_ok (redis_prune wid from_all db) \<and> redis_cell (redis_prune wid from_all db) k = redis_cell db k"
  proof (cases from_all)
    case False
    with reindex_ok [OF ok, where A = "removeAll wid (rd_active db)" and B = "rd_all db"] idle show ?thesis
      by (auto simp: redis_prune_def Let_def redis_cell_active)
  next
    case True
    note absent = gone [OF True] and free = redis_ok_absent [OF ok gone [OF True]]
    have other: "same_key db (redis_prune wid from_all db) j" if "j \<noteq> wid" for j
      using that by (simp add: redis_prune_def Let_def same_key_def)
    have "redis_ok (redis_prune wid from_all db)"
      by (rule redis_okI [OF ok other]) (simp, rule key_absentI, simp_all add: redis_prune_def Let_def absent free)
    moreover have "redis_cell (redis_prune wid from_all db) k = redis_cell db k"
      using same_key_cell [OF other] absent
      by (cases "k = wid") (simp_all add: redis_prune_def Let_def redis_cell_def)
    ultimately show ?thesis by blast
  qed
  then show "redis_ok (redis_prune wid from_all db)"
    "redis_cell (redis_prune wid from_all db) k = redis_cell db k" by blast+
qed

section \<open>Steps and histories\<close>

definition commit_events :: "redis_error + commit_result \<Rightarrow> string list" where
  "commit_events out = (case out of Inl err \<Rightarrow> [] | Inr res \<Rightarrow> opt_list (cm_event_id res))"

definition expire_events ::
  "(string \<Rightarrow> string) \<Rightarrow> string \<Rightarrow> watch_runtime option \<Rightarrow> redis_error + transition_status \<times> watch option \<Rightarrow> string list" where
  "expire_events sha wid rt out =
     (case out of
        Inr (Transition_APPLIED, _) \<Rightarrow>
          [terminal_event_id sha wid EXPIRED (case rt of None \<Rightarrow> 0 | Some x \<Rightarrow> revision x + 1)]
      | _ \<Rightarrow> [])"

text \<open>
  The steps of the coordinated protocol; the legacy \<open>redis_save\<close> is not one of them. New watches carry
  fresh ids. A step that writes a sidecar computed from an earlier read asks that the copy is still fit
  (\<open>read_ok\<close>), and a pipeline that prunes the active index that the members it read as missing or
  finished are still so; \<open>read_in_run\<close> and \<open>idle_stays_idle\<close> below discharge this for every copy and
  every member a caller did read.
\<close>

inductive redis_step ::
  "(string \<Rightarrow> string) \<Rightarrow> redis_config \<Rightarrow> redis_db \<Rightarrow> (string \<times> string) list \<Rightarrow> redis_db \<Rightarrow> bool"
  for sha c where
  rs_create: "\<lbrakk>watch_valid w; w_status w = ACTIVE; marker_for (watch_id w) rt \<noteq> None;
     dict_get (rd_terminal db) (watch_id w) = None\<rbrakk> \<Longrightarrow>
     redis_step sha c db [] (snd (redis_create w rt db))"
| rs_claim: "redis_step sha c db [] (snd (redis_claim_window now wid win own lease ign db))"
| rs_begin: "read_ok (watch_id (wc_watch cl)) (Some (wc_runtime cl)) db \<Longrightarrow>
     redis_step sha c db [] (snd (redis_begin_booking now cl db))"
| rs_commit: "\<lbrakk>watch_valid nw; watch_id nw = watch_id (wc_watch cl);
     w_status nw = ACTIVE \<Longrightarrow> marker_for (watch_id (wc_watch cl)) nrt \<noteq> None\<rbrakk> \<Longrightarrow>
     redis_step sha c db
       (map (Pair (watch_id (wc_watch cl))) (commit_events (fst (redis_commit_window sha c now cl nw nrt db))))
       (snd (redis_commit_window sha c now cl nw nrt db))"
| rs_cancel: "\<lbrakk>watch_valid w; watch_id w = wid; read_ok wid rt db\<rbrakk> \<Longrightarrow>
     redis_step sha c db [] (snd (cancel_call c now wid w rt db))"
| rs_expire: "\<lbrakk>watch_valid w; watch_id w = wid; read_ok wid rt db\<rbrakk> \<Longrightarrow>
     redis_step sha c db
       (map (Pair wid) (expire_events sha wid rt (fst (expire_call sha c now wid w rt db))))
       (snd (expire_call sha c now wid w rt db))"
| rs_release: "redis_step sha c db [] (snd (redis_release_claim cl db))"
| rs_cleanup: "redis_step sha c db [] (snd (redis_cleanup_due now batch db))"
| rs_delete: "redis_step sha c db [] (snd (redis_delete wid db))"
| rs_prune: "\<lbrakk>\<not> c_active (redis_cell db wid); from_all \<Longrightarrow> dict_get (rd_watches db) wid = None\<rbrakk> \<Longrightarrow>
     redis_step sha c db [] (redis_prune wid from_all db)"
| rs_synthesize: "0 \<le> revision rt \<Longrightarrow> redis_step sha c db [] (snd (redis_synthesize now wid rt db))"
| rs_srem_all: "redis_step sha c db [] (srem_all ids db)"
| rs_srem_active: "\<forall>i \<in> set ids. \<not> c_active (redis_cell db i) \<Longrightarrow> redis_step sha c db [] (srem_active ids db)"
| rs_claim_dispatch: "redis_step sha c db [] (snd (redis_claim_dispatch sha1 now m own lease db))"
| rs_mark_dispatched: "redis_step sha c db [] (snd (redis_mark_dispatched sha1 dcl t db))"
| rs_release_dispatch: "redis_step sha c db [] (snd (redis_release_dispatch sha1 dcl db))"
| rs_lapse_claim: "redis_step sha c db [] (db\<lparr>rd_claims := dict_pop wid (rd_claims db)\<rparr>)"
| rs_lapse_dispatch: "redis_step sha c db [] (db\<lparr>rd_dispatches := dict_pop key (rd_dispatches db)\<rparr>)"
| rs_drop: "wid \<in> set (rd_expiring db) \<Longrightarrow> redis_step sha c db [] (drop_documents wid db)"

definition held_in :: "redis_db \<Rightarrow> string \<Rightarrow> bool" where
  "held_in db k \<longleftrightarrow> dict_get (rd_watches db) k \<noteq> None"

inductive redis_run ::
  "(string \<Rightarrow> string) \<Rightarrow> redis_config \<Rightarrow> string \<Rightarrow> redis_db \<Rightarrow> string list \<Rightarrow> redis_db \<Rightarrow> bool"
  for sha c k where
  redis_idle: "redis_run sha c k db [] db"
| redis_more: "\<lbrakk>held_in db k; redis_step sha c db evs db'; held_in db' k; redis_run sha c k db' evs' db''\<rbrakk> \<Longrightarrow>
     redis_run sha c k db (events_for k evs @ evs') db''"

lemma expire_events_eq:
  "expire_events sha wid rt out = (if \<exists>x. out = Inr (Transition_APPLIED, x)
     then [terminal_event_id sha wid EXPIRED (case rt of None \<Rightarrow> 0 | Some x \<Rightarrow> revision x + 1)] else [])"
  by (auto simp: expire_events_def split: sum.splits prod.splits transition_status.splits)

lemma commit_events_eq:
  "commit_events out = (case out of Inl err \<Rightarrow> [] | Inr r \<Rightarrow> (case cm_event_id r of None \<Rightarrow> [] | Some e \<Rightarrow> [e]))"
  by (simp add: commit_events_def opt_list_def split: sum.split)

lemma redis_lapse_dispatch_same: "same_key db (db\<lparr>rd_dispatches := X\<rparr>) k"
  by (simp add: same_key_def)

lemmas redis_untouched = redis_same [OF _ dispatch_same(1)] redis_same [OF _ dispatch_same(2)]
  redis_same [OF _ dispatch_same(3)] redis_same [OF _ redis_lapse_dispatch_same]

theorem redis_step_ok: "redis_step sha c db evs db' \<Longrightarrow> redis_ok db \<Longrightarrow> redis_ok db'"
  by (induction rule: redis_step.induct)
     (blast intro: redis_create_ok(1) redis_claim_step(1) redis_begin_step(1) redis_commit_step(1)
       redis_cancel_call_step(1) redis_expire_call_step(1) redis_release_step(1) redis_cleanup_ok(1)
       redis_delete_ok(1) redis_prune_ok(1) redis_synthesize_step(1) redis_untouched lapse_claim_step(1)
       drop_documents_ok(1) srem_ok(1,3))+

lemma redis_step_cell:
  "redis_step sha c db evs db' \<Longrightarrow> redis_ok db \<Longrightarrow> held_in db k \<Longrightarrow> held_in db' k \<Longrightarrow>
   \<exists>now. cell_step now k (redis_cell db k) (events_for k evs) (redis_cell db' k)"
proof (induction rule: redis_step.induct)
  case (rs_commit nw cl nrt db now)
  from redis_commit_step(2) [OF rs_commit.prems(1) rs_commit.hyps, where sha = sha and c = c and now = now and k = k]
  show ?case by (auto simp: commit_events_eq)
next
  case (rs_expire w wid rt db now)
  from redis_expire_call_step(2) [OF rs_expire.prems(1) rs_expire.hyps, where now' = now and k = k and sha = sha and c = c and now = now]
  show ?case by (auto simp: expire_events_eq split: if_splits)
next
  case (rs_delete db wid)
  then have "k \<noteq> wid" by (auto simp: held_in_def redis_delete_def)
  with redis_delete_ok(2) [OF rs_delete.prems(1)] show ?case by (auto intro: cell_step.stutter)
next
  case (rs_create w rt db)
  with redis_create_ok(2) [OF rs_create.prems(1) rs_create.hyps, where k = k] show ?case
    by (auto simp: held_in_def intro: cell_step.stutter)
next
  case (rs_cleanup db now batch)
  with redis_cleanup_ok(2) [OF rs_cleanup.prems(1), where now = now and batch = batch and k = k] show ?case
    by (auto simp: held_in_def intro: cell_step.stutter)
next
  case (rs_drop wid db)
  with drop_documents_ok(2) [OF rs_drop.prems(1) rs_drop.hyps, where k = k] show ?case
    by (auto simp: held_in_def intro: cell_step.stutter)
next
  case (rs_prune db wid from_all)
  with redis_prune_ok(2) [OF rs_prune.prems(1) rs_prune.hyps, where k = k] show ?case
    by (auto intro: cell_step.stutter)
qed (simp_all, (blast intro: redis_claim_step(2) redis_begin_step(2) redis_cancel_call_step(2)
      redis_release_step(2) redis_synthesize_step(2) lapse_claim_step(2)
    | simp add: redis_untouched srem_ok(2,4) cell_step.stutter)+)

lemma redis_run_ok: "redis_run sha c k db evs db' \<Longrightarrow> redis_ok db \<Longrightarrow> redis_ok db'"
  by (induction rule: redis_run.induct) (auto dest: redis_step_ok)

theorem redis_run_cell:
  "redis_run sha c k db evs db' \<Longrightarrow> redis_ok db \<Longrightarrow> cell_run k (redis_cell db k) evs (redis_cell db' k)"
proof (induction rule: redis_run.induct)
  case (redis_more db evs db' evs' db'')
  from redis_step_cell [OF redis_more.hyps(2) redis_more.prems redis_more.hyps(1,3)]
    redis_more.IH [OF redis_step_ok [OF redis_more.hyps(2) redis_more.prems]]
  show ?case by (blast intro: cell_run.more)
qed (rule cell_run.idle)

section \<open>Copies of the sidecar stay fit\<close>

lemma cell_step_behind:
  assumes "cell_step now k c evs c'" and "c_runtime c = Some cur" "behind rt cur"
    and "c_active c \<Longrightarrow> c_marker c \<noteq> None"
  shows "\<exists>cur'. c_runtime c' = Some cur' \<and> behind rt cur'"
  using assms by (induction rule: cell_step.induct) (auto simp: behind_def retired_runtime_def)

definition read_in :: "redis_db \<Rightarrow> string \<Rightarrow> watch_runtime \<Rightarrow> bool" where
  "read_in db k rt \<longleftrightarrow> (\<exists>cur. stored_runtime_of k db = Some cur \<and> behind rt cur)"

lemma read_in_ok: "read_in db k rt \<Longrightarrow> read_ok k (Some rt) db"
  by (auto simp: read_in_def read_ok_def)

lemma read_in_fresh: "redis_get_runtime k db = Some rt \<Longrightarrow> read_in db k rt"
  by (auto simp: read_in_def redis_get_runtime_def decode_runtime_def stored_runtime_of_def
      split: option.splits runtime_doc.splits if_splits)

lemma read_in_step:
  assumes step: "redis_step sha c db evs db'" and ok: "redis_ok db" and held: "held_in db k" "held_in db' k"
    and read: "read_in db k rt"
  shows "read_in db' k rt"
proof -
  have runtime: "c_runtime (redis_cell d k) = stored_runtime_of k d" if "held_in d k" for d
    using that by (auto simp: held_in_def redis_cell_def)
  from redis_step_cell [OF step ok held] obtain now
    where cs: "cell_step now k (redis_cell db k) (events_for k evs) (redis_cell db' k)" by blast
  from read obtain cur where cur: "c_runtime (redis_cell db k) = Some cur" "behind rt cur"
    using runtime held(1) by (auto simp: read_in_def)
  have "c_marker (redis_cell db k) \<noteq> None" if act: "c_active (redis_cell db k)"
  proof -
    obtain w where w: "dict_get (rd_watches db) k = Some w" "w_status w = ACTIVE"
      using act redis_cell_active by blast
    with cur(1) have "dict_get (rd_runtimes db) k = Some (Runtime_json cur)"
      by (auto simp: redis_cell_def stored_runtime_of_def split: option.splits runtime_doc.splits)
    with index_okD [OF ok, of k] w show ?thesis
      by (auto simp: redis_cell_def stored_runtime_of_def index_ok_def)
  qed
  from cell_step_behind [OF cs cur this] show ?thesis
    using runtime [OF held(2)] by (simp add: read_in_def)
qed

lemma read_in_run:
  "redis_run sha c k db evs db' \<Longrightarrow> redis_ok db \<Longrightarrow> read_in db k rt \<Longrightarrow> read_in db' k rt"
  by (induction rule: redis_run.induct) (blast dest: redis_step_ok read_in_step)+

text \<open>
  A member without an active document stays without one, unless its id is created anew: a held watch
  by the finality of terminal watches, a missing one because only a creation stores a document.
\<close>

lemma cell_step_idle: "cell_step now k c evs c' \<Longrightarrow> \<not> c_active c \<Longrightarrow> \<not> c_active c'"
  by (induction rule: cell_step.induct) (auto simp: c_active_def c_owned_def)

lemma idle_stays_idle:
  assumes step: "redis_step sha c db evs db'" and ok: "redis_ok db"
    and fresh: "held_in db' k \<Longrightarrow> held_in db k" and idle: "\<not> c_active (redis_cell db k)"
  shows "\<not> c_active (redis_cell db' k)"
proof (cases "held_in db' k")
  case True
  from redis_step_cell [OF step ok fresh [OF True] True] idle show ?thesis by (blast dest: cell_step_idle)
next
  case False
  then show ?thesis by (simp add: redis_cell_active held_in_def)
qed

lemma loaded_watches: "w \<in> set (fst (load_many ids db)) \<Longrightarrow> redis_get (watch_id w) db = Some w"
  using redis_get_valid by (fastforce simp: load_many_def Let_def List.map_filter_def)

text \<open>
  What a listing prunes it read as missing or finished, so both its pipelines are steps of the protocol
  as long as the others create none of those ids anew.
\<close>

lemma listing_prunes_idle:
  assumes "redis_ok db" and "load_many ids db = (ws, stale)"
  shows "\<forall>k \<in> set stale. \<not> c_active (redis_cell db k)"
    and "\<forall>k \<in> set (map watch_id (filter (\<lambda>w. w_status w \<noteq> ACTIVE) ws)). \<not> c_active (redis_cell db k)"
proof -
  have "stale = filter (\<lambda>k. redis_get k db = None) (sort ids)" using assms(2) by (simp add: load_many_def Let_def)
  then show "\<forall>k \<in> set stale. \<not> c_active (redis_cell db k)"
    using redis_get_ok [OF assms(1)] by (auto simp: redis_cell_active)
  show "\<forall>k \<in> set (map watch_id (filter (\<lambda>w. w_status w \<noteq> ACTIVE) ws)). \<not> c_active (redis_cell db k)"
    using loaded_watches [of _ ids db] assms(2) redis_get_ok [OF assms(1)] by (auto simp: redis_cell_active)
qed

section \<open>The Redis store satisfies the interface\<close>

lemma redis_claim_granted:
  assumes "fst (redis_claim_window now wid win own lease ign db) = Inr \<lparr>cl_status = Claim_OWNED, cl_claim = Some cl\<rparr>"
  shows "dict_get (rd_watches db) wid = Some (wc_watch cl)" and "w_status (wc_watch cl) = ACTIVE"
    and "dict_get (rd_runtimes db) wid = Some (Runtime_json (wc_runtime cl))"
    and "wc_token cl = incr (dict_get (rd_fences db) wid)"
    and "snd (redis_claim_window now wid win own lease ign db) =
           db\<lparr>rd_fences := dict_set wid (wc_token cl) (rd_fences db),
              rd_claims := dict_set wid \<lparr>lv_owner = own, lv_token = wc_token cl,
                                         lv_expires = to_ms now + seconds_to_ms lease\<rparr> (rd_claims db)\<rparr>"
proof -
  obtain w where w: "dict_get (rd_watches db) wid = Some w"
    using assms by (cases "dict_get (rd_watches db) wid") (auto simp: redis_claim_window_def claim_script_def)
  obtain rt where rt: "dict_get (rd_runtimes db) wid = Some (Runtime_json rt)"
    using assms w by (auto simp: redis_claim_window_def claim_script_def split: option.splits runtime_doc.splits if_splits)
  show "dict_get (rd_watches db) wid = Some (wc_watch cl)" "w_status (wc_watch cl) = ACTIVE"
    "dict_get (rd_runtimes db) wid = Some (Runtime_json (wc_runtime cl))"
    "wc_token cl = incr (dict_get (rd_fences db) wid)"
    "snd (redis_claim_window now wid win own lease ign db) =
       db\<lparr>rd_fences := dict_set wid (wc_token cl) (rd_fences db),
          rd_claims := dict_set wid \<lparr>lv_owner = own, lv_token = wc_token cl,
                                     lv_expires = to_ms now + seconds_to_ms lease\<rparr> (rd_claims db)\<rparr>"
    using assms w rt by (auto simp: redis_claim_window_def claim_script_def Let_def split: if_splits)
qed

text \<open>Retiring a watch keeps the store well formed whatever the sidecar key held.\<close>

lemma finish_ok:
  assumes ok: "redis_ok db" and w0: "dict_get (rd_watches db) wid = Some w0" "w_status w0 = ACTIVE"
    and doc: "watch_valid w" "watch_id w = wid" and st: "st \<in> {CANCELLED, EXPIRED}"
    and same: "\<And>k. same_key (finish_keys wid (w\<lparr>w_status := st, next_check_at := None, updated_at := t\<rparr>)
        new (Some due) ttl db) db' k"
  shows "redis_ok db'" and "c_terminal (redis_cell db' wid)"
proof -
  let ?w = "w\<lparr>w_status := st, next_check_at := None, updated_at := t\<rparr>"
  have other: "same_key db db' k" if "k \<noteq> wid" for k
    using same [of k] that by (auto simp: same_key_def finish_keys_def set_runtime_def Let_def)
  have valid: "watch_valid ?w" using watch_valid_retire [OF doc(1) st] .
  have keys: "dict_get (rd_watches db') wid = Some ?w" "dict_get (rd_claims db') wid = None"
    "dict_get (rd_schedule db') wid = None" "dict_get (rd_terminal db') wid = Some due"
    "dict_get (rd_fences db') wid = dict_get (rd_fences db) wid"
    using same [of wid] by (auto simp: same_key_def finish_keys_def set_runtime_def Let_def)
  have "cell_ok wid (redis_cell db wid)" using ok by (simp add: redis_ok_def key_ok_def)
  then have "case dict_get (rd_fences db) wid of None \<Rightarrow> True | Some f \<Rightarrow> 0 \<le> f"
    using w0 by (simp add: cell_ok_def redis_cell_def)
  then have "key_ok db' wid"
    using valid st doc(2) by (auto simp: key_ok_def index_ok_def cell_ok_def redis_cell_def keys is_terminal_def)
  with redis_okI [OF ok other] show "redis_ok db'" by blast
  show "c_terminal (redis_cell db' wid)" using st by (auto simp: c_terminal_def redis_cell_def keys is_terminal_def)
qed

text \<open>
  A call that raises answers nothing: the interface counts it as a refusal. Uninterrupted, a
  cancellation re-reads nothing and needs one round.
\<close>

definition answered :: "'a \<Rightarrow> (redis_error + 'a) \<times> redis_db \<Rightarrow> 'a \<times> redis_db" where
  "answered d p = (case fst p of Inl _ \<Rightarrow> d | Inr r \<Rightarrow> r, snd p)"

lemma answered_simps [simp]:
  "snd (answered d p) = snd p"
  "fst (answered d p) = (case fst p of Inl _ \<Rightarrow> d | Inr r \<Rightarrow> r)"
  by (simp_all add: answered_def)

abbreviation "quiet_claim now wid win own lease ign db \<equiv>
  answered (claim_refused Claim_UNKNOWN) (redis_claim_window now wid win own lease ign db)"
abbreviation "quiet_begin now cl db \<equiv> answered (permit_refused Permit_FENCED) (redis_begin_booking now cl db)"
abbreviation "quiet_commit sha c now cl nw nrt db \<equiv>
  answered (commit_refused Commit_FENCED None) (redis_commit_window sha c now cl nw nrt db)"
abbreviation "quiet_cancel c now wid db \<equiv>
  answered (transition_refused Transition_FENCED None) (redis_cancel c (\<lambda>_. now) (\<lambda>_ x. x) wid db)"
abbreviation "quiet_expire sha c now wid n force db \<equiv>
  answered (transition_refused Transition_FENCED None) (redis_expire sha c (\<lambda>_. now) (\<lambda>_ x. x) wid n force db)"

lemma quiet_cas:
  "cas_passes (map_option revision (redis_get_runtime wid db)) (dict_get (rd_runtimes db) wid) = Inr True"
  by (auto simp: cas_passes_def redis_get_runtime_def decode_runtime_def split: option.split runtime_doc.split)

lemma cancel_answer_status:
  assumes "cancel_answer w rt out = Some (Inr r)"
  shows "tr_status r = Transition_APPLIED \<Longrightarrow> \<exists>doc. out = Inr (Transition_APPLIED, Some doc) \<and> tr_watch r = Some doc"
    and "tr_status r = Transition_NOT_ELIGIBLE \<Longrightarrow> \<exists>x. out = Inr (Transition_NOT_ELIGIBLE, x)"
  using assms
  by (auto simp: cancel_answer_def split: sum.splits prod.splits transition_status.splits option.splits if_splits)

lemma quiet_cancel_cases:
  obtains (refused) "snd (redis_cancel c (\<lambda>_. now) (\<lambda>_ x. x) wid db) = db"
      "tr_status (fst (quiet_cancel c now wid db)) \<notin> {Transition_APPLIED, Transition_NOT_ELIGIBLE}"
  | (called) w rt out where "redis_get wid db = Some w" "w_status w = ACTIVE" "rt = redis_get_runtime wid db"
      "redis_cancel c (\<lambda>_. now) (\<lambda>_ x. x) wid db = (out, snd (cancel_call c now wid w rt db))"
      "cancel_answer w rt (fst (cancel_call c now wid w rt db)) = Some out"
proof (cases "redis_get wid db")
  case None
  then show thesis
    by (intro refused) (simp_all add: redis_cancel_def CANCEL_ATTEMPTS_def eval_nat_numeral)
next
  case (Some w)
  note w = this
  let ?rt = "redis_get_runtime wid db"
  show thesis
  proof (cases "w_status w = ACTIVE")
    case False
    with w show thesis
      by (intro refused) (simp_all add: redis_cancel_def CANCEL_ATTEMPTS_def eval_nat_numeral is_terminal_def)
  next
    case True
    from redis_get_valid [OF w] have doc: "dict_get (rd_watches db) wid = Some w" by simp
    have "\<exists>out. cancel_answer w ?rt (fst (cancel_call c now wid w ?rt db)) = Some out"
      using doc True quiet_cas [of wid db]
      by (cases ?rt) (auto simp: cancel_call_def cancel_script_def terminal_deadlines_def Let_def cancel_answer_def)
    then obtain out where out: "cancel_answer w ?rt (fst (cancel_call c now wid w ?rt db)) = Some out" by blast
    show thesis
      by (rule called [OF w True refl _ out])
         (use w True out in \<open>simp add: redis_cancel_def CANCEL_ATTEMPTS_def eval_nat_numeral is_terminal_def case_prod_unfold Let_def\<close>)
  qed
qed

lemma quiet_cancel_applied:
  assumes ok: "redis_ok db" and st: "tr_status (fst (quiet_cancel c now wid db)) = Transition_APPLIED"
  shows "redis_ok (snd (quiet_cancel c now wid db)) \<and> c_active (redis_cell db wid) \<and>
    c_terminal (redis_cell (snd (quiet_cancel c now wid db)) wid)"
proof (cases rule: quiet_cancel_cases [of c now wid db])
  case (called w rt out)
  from redis_get_valid [OF called(1)] have doc: "watch_valid w" "watch_id w = wid" "dict_get (rd_watches db) wid = Some w"
    by auto
  from st called(4) obtain r where r: "out = Inr r" "tr_status r = Transition_APPLIED"
    by (cases out) auto
  with cancel_answer_status(1) called(5) obtain x
    where out: "fst (cancel_call c now wid w rt db) = Inr (Transition_APPLIED, x)" by blast
  have fin: "same_key (finish_keys wid (w\<lparr>w_status := CANCELLED, next_check_at := None, updated_at := now\<rparr>)
      (map_option (retired_copy c now) rt) (Some (to_ms (now + redis_retention c))) True db)
      (snd (cancel_call c now wid w rt db)) k" for k
    using out doc(3) called(2) quiet_cas [of wid db]
    by (cases rt) (auto simp: called(3) [symmetric] cancel_call_def cancel_script_def terminal_deadlines_def Let_def)
  from finish_ok [OF ok doc(3) called(2) doc(1,2) _ fin] doc(3) called(2,4) show ?thesis
    by (simp add: redis_cell_active)
qed (use st in simp)

lemma quiet_cancel_active:
  assumes "tr_status (fst (quiet_cancel c now wid db)) \<in> {Transition_APPLIED, Transition_NOT_ELIGIBLE}"
  shows "c_active (redis_cell db wid)"
  using assms by (cases rule: quiet_cancel_cases [of c now wid db]) (auto simp: redis_cell_active dest: redis_get_valid)

lemma quiet_expire_applied:
  assumes ok: "redis_ok db" and st: "tr_status (fst (quiet_expire sha c now wid n force db)) = Transition_APPLIED"
  shows "redis_ok (snd (quiet_expire sha c now wid n force db)) \<and> c_active (redis_cell db wid) \<and>
    c_terminal (redis_cell (snd (quiet_expire sha c now wid n force db)) wid)"
proof -
  obtain w where w: "redis_get wid db = Some w" "w_status w = ACTIVE"
    using st by (cases "redis_get wid db") (auto simp: redis_expire_def is_terminal_def split: if_splits)
  from redis_get_valid [OF w(1)] have doc: "watch_valid w" "watch_id w = wid" "dict_get (rd_watches db) wid = Some w"
    by auto
  let ?rt = "redis_get_runtime wid db"
  have snd: "snd (redis_expire sha c (\<lambda>_. now) (\<lambda>_ x. x) wid n force db) = snd (expire_call sha c now wid w ?rt db)"
    using st w doc(3) quiet_cas [of wid db]
    by (auto simp: redis_expire_def is_terminal_def expire_call_def expire_script_def terminal_deadlines_def Let_def
        split: if_splits)
  have fin: "same_key (finish_keys wid (w\<lparr>w_status := EXPIRED, next_check_at := None, updated_at := now\<rparr>)
      (map_option (retired_copy c now) ?rt) (Some (to_ms (now + redis_retention c))) True db)
      (snd (expire_call sha c now wid w ?rt db)) k" for k
    using doc(3) w(2) quiet_cas [of wid db]
    by (simp add: expire_call_def expire_script_def terminal_deadlines_def Let_def same_key_def)
  from finish_ok [OF ok doc(3) w(2) doc(1,2) _ fin] doc(3) w(2) show ?thesis
    by (simp add: redis_cell_active snd)
qed

definition redis_storable :: "watch \<Rightarrow> watch_runtime \<Rightarrow> bool" where
  "redis_storable w rt \<longleftrightarrow> (w_status w = ACTIVE \<longrightarrow> marker_for (watch_id w) rt \<noteq> None)"

interpretation redis: watch_store redis_cell redis_ok "redis_run sha c" quiet_claim quiet_begin
    "quiet_commit sha c" "quiet_cancel c" "quiet_expire sha c" redis_storable
  for sha :: "string \<Rightarrow> string" and c :: redis_config
proof unfold_locales
  show "cell_ok k (redis_cell db k)" if "redis_ok db" for db k
    using that by (simp add: redis_ok_def key_ok_def)
  show "cell_run k (redis_cell db k) evs (redis_cell db' k)" if "redis_run sha c k db evs db'" "redis_ok db" for k db evs db'
    using that by (rule redis_run_cell)
  show "redis_ok db'" if "redis_run sha c k db evs db'" "redis_ok db" for k db evs db'
    using that by (rule redis_run_ok)
  show "redis_ok db' \<and> watch_id (wc_watch cl) = k \<and> tokens_from (wc_token cl) (redis_cell db' k) \<and>
      c_fence (redis_cell db' k) = Some (wc_token cl) \<and>
      c_watch (redis_cell db k) = Some (wc_watch cl) \<and> c_runtime (redis_cell db k) = Some (wc_runtime cl)"
    if claim: "quiet_claim now k win own secs ign db = (\<lparr>cl_status = Claim_OWNED, cl_claim = Some cl\<rparr>, db')"
      and ok: "redis_ok db" for now k win own secs ign db cl db'
  proof -
    have out: "fst (redis_claim_window now k win own secs ign db) = Inr \<lparr>cl_status = Claim_OWNED, cl_claim = Some cl\<rparr>"
      and db': "db' = snd (redis_claim_window now k win own secs ign db)"
      using claim by (auto simp: answered_def split: sum.splits)
    note g = redis_claim_granted [OF out]
    from ok g(1) have "watch_id (wc_watch cl) = k" by (auto simp: redis_ok_def dest: key_ok_present(2))
    moreover have "redis_ok db'" unfolding db' by (rule redis_claim_step(1) [OF ok])
    ultimately show ?thesis using g
      by (auto simp: db' tokens_from_def redis_cell_def stored_runtime_of_def claim_cell_def)
  qed
  show "c_owned now cl (redis_cell db (watch_id (wc_watch cl)))"
    if "bp_status (fst (quiet_begin now cl db)) = Permit_GRANTED" for now cl db
  proof (cases rule: redis_begin_effect [of now cl db])
    case same
    with that show ?thesis by (auto split: sum.splits)
  next
    case (granted w rt)
    then show ?thesis by (intro claim_held_owned(1))
  qed
  show "c_owned now cl (redis_cell db (watch_id (wc_watch cl)))"
    if "cm_status (fst (quiet_commit sha c now cl w rt db)) = Commit_COMMITTED" for now cl w rt db
  proof (cases rule: redis_commit_effect [where sha = sha and c = c and now = now and cl = cl and nw = w and
        nrt = rt and db = db])
    case same
    with that show ?thesis by (auto split: sum.splits)
  next
    case (committed w0 rt0)
    then show ?thesis by (intro claim_held_owned(1))
  qed
  show "redis_ok (snd (quiet_commit sha c now cl w rt db)) \<and>
      rank (redis_cell (snd (quiet_commit sha c now cl w rt db)) (watch_id (wc_watch cl))) = revision (wc_runtime cl) + 1"
    if "cm_status (fst (quiet_commit sha c now cl w rt db)) = Commit_COMMITTED" "redis_ok db" "watch_valid w"
      "watch_id w = watch_id (wc_watch cl)" "redis_storable w rt" for now cl w rt db
    using redis_commit_step(1,3) [OF that(2-4), where sha = sha and c = c and now = now and nrt = rt] that(1,4,5)
    by (auto simp: redis_storable_def split: sum.splits)
  show "redis_ok (snd (quiet_cancel c now k db)) \<and> c_active (redis_cell db k) \<and>
      c_terminal (redis_cell (snd (quiet_cancel c now k db)) k)"
    if "tr_status (fst (quiet_cancel c now k db)) = Transition_APPLIED" "redis_ok db" for now k db
    using quiet_cancel_applied [OF that(2,1)] .
  show "c_active (redis_cell db k)"
    if "tr_status (fst (quiet_cancel c now k db)) \<in> {Transition_APPLIED, Transition_NOT_ELIGIBLE}" for now k db
    using quiet_cancel_active [OF that] .
  show "redis_ok (snd (quiet_expire sha c now k n force db)) \<and> c_active (redis_cell db k) \<and>
      c_terminal (redis_cell (snd (quiet_expire sha c now k n force db)) k)"
    if "tr_status (fst (quiet_expire sha c now k n force db)) = Transition_APPLIED" "redis_ok db" for now k n force db
    using quiet_expire_applied [OF that(2,1)] .
qed

end
