(* ===== verification/Redis_Properties.thy ===== *)
theory Redis_Properties
  imports Redis_History Scenario
begin

text \<open>
  What the Redis store promises its callers: the safety statements are the lemmas of \<open>watch_store\<close> at
  the interpretation \<open>redis\<close>; cancellation is followed through its separate awaits under arbitrary
  interference; the two races its compare-and-set does not see are stated as they are.
\<close>

section \<open>A cancellation between other callers\<close>

text \<open>
  What everybody else may do between two awaits: any history of the store. The watch may go away, but
  its id is not reused.
\<close>

definition interference :: "(string \<Rightarrow> string) \<Rightarrow> redis_config \<Rightarrow> string \<Rightarrow> (redis_db \<Rightarrow> redis_db) \<Rightarrow> bool" where
  "interference sha c wid f \<longleftrightarrow>
     (\<forall>db. redis_ok db \<longrightarrow> redis_ok (f db) \<and>
        (held_in (f db) wid \<longrightarrow> held_in db wid \<and> (\<exists>evs. redis_run sha c wid db evs (f db))))"

lemma interference_id [simp]: "interference sha c wid (\<lambda>db. db)"
  by (auto simp: interference_def intro: redis_idle)

lemma redis_run_trans:
  "redis_run sha c k db evs db' \<Longrightarrow> redis_run sha c k db' evs' db'' \<Longrightarrow> redis_run sha c k db (evs @ evs') db''"
  by (induction rule: redis_run.induct) (auto intro: redis_more)

lemma redis_run_one:
  "held_in db k \<Longrightarrow> redis_step sha c db evs db' \<Longrightarrow> held_in db' k \<Longrightarrow> redis_run sha c k db (events_for k evs) db'"
  using redis_more [OF _ _ _ redis_idle] by fastforce

text \<open>
  What the answer means in the store it leaves behind. \<open>FENCED\<close> is the answer of a method that gave up:
  the watch is still active.
\<close>

definition settled :: "string \<Rightarrow> transition_result \<Rightarrow> redis_db \<Rightarrow> bool" where
  "settled wid res db \<longleftrightarrow>
     (case tr_status res of
        Transition_APPLIED \<Rightarrow>
          (\<exists>w. dict_get (rd_watches db) wid = Some w \<and> w_status w = CANCELLED \<and> tr_watch res = Some w)
      | Transition_NOOP \<Rightarrow>
          (\<exists>w. dict_get (rd_watches db) wid = Some w \<and> is_terminal (w_status w) \<and> tr_watch res = Some w)
      | Transition_NOT_ELIGIBLE \<Rightarrow>
          (\<exists>rt. stored_runtime_of wid db = Some rt \<and> rt_phase rt = Some BOOKING \<and> cancel_requested rt)
      | Transition_UNKNOWN \<Rightarrow> \<not> held_in db wid
      | Transition_FENCED \<Rightarrow> c_active (redis_cell db wid))"

lemma finish_keys_watch [simp]: "dict_get (rd_watches (finish_keys wid w new due ttl db)) wid = Some w"
  by (simp add: finish_keys_def set_runtime_def Let_def)

text \<open>
  The script call of one round, from what the round read: either it changes nothing because the sidecar
  moved on since, or its answer is the truth.
\<close>

lemma cancel_call_settles:
  assumes ok: "redis_ok db" and doc: "watch_valid w" "watch_id w = wid"
    and read: "\<And>rt. mrt = Some rt \<Longrightarrow> held_in db wid \<Longrightarrow> read_in db wid rt"
  obtains (again) rt where "cancel_answer w mrt (fst (cancel_call c now wid w mrt db)) = None"
      "snd (cancel_call c now wid w mrt db) = db" "mrt = Some rt" "held_in db wid"
      "revision rt < rank (redis_cell db wid)" "c_active (redis_cell db wid)"
  | (over) res where "cancel_answer w mrt (fst (cancel_call c now wid w mrt db)) = Some (Inr res)"
      "redis_ok (snd (cancel_call c now wid w mrt db))" "settled wid res (snd (cancel_call c now wid w mrt db))"
      "tr_status res \<noteq> Transition_FENCED"
proof (cases "dict_get (rd_watches db) wid")
  case None
  with ok show thesis
    by (cases mrt; intro over)
       (auto simp: cancel_call_def cancel_script_def terminal_deadlines_def Let_def cancel_answer_def settled_def held_in_def)
next
  case (Some w0)
  note w0 = this
  have valid: "watch_valid w0" using ok w0 by (auto simp: redis_ok_def dest: key_ok_present(1))
  have held: "held_in db wid" using w0 by (simp add: held_in_def)
  show thesis
  proof (cases "w_status w0 = ACTIVE")
    case False
    with w0 ok valid show thesis
      by (cases mrt; intro over)
         (auto simp: cancel_call_def cancel_script_def terminal_deadlines_def Let_def cancel_answer_def settled_def
            is_terminal_def)
  next
    case active: True
    let ?w = "w\<lparr>w_status := CANCELLED, next_check_at := None, updated_at := now\<rparr>"
    let ?res = "\<lambda>rt. \<lparr>tr_status = Transition_APPLIED, tr_watch = Some ?w, tr_event_id = None,
      tr_revision = (case rt of None \<Rightarrow> 0 | Some x \<Rightarrow> revision x + 1)\<rparr>"
    have retired: "watch_valid ?w" using watch_valid_retire [OF doc(1), of CANCELLED] by simp
    have fin: "redis_ok (finish_keys wid ?w new (Some due) ttl db)" for new due ttl
      using finish_ok(1) [OF ok w0 active doc, of CANCELLED now new due ttl] by simp
    show thesis
    proof (cases mrt)
      case None
      have call: "cancel_call c now wid w mrt db =
          (Inr (Transition_APPLIED, Some ?w),
           finish_keys wid ?w None (Some (to_ms (now + redis_retention c))) True db)"
        using w0 active by (auto simp: None cancel_call_def cancel_script_def cas_passes_def terminal_deadlines_def
            Let_def split: option.split runtime_doc.split)
      show thesis
        by (rule over [of "?res None"])
           (use retired fin in \<open>simp_all add: call [unfolded None] None cancel_answer_def settled_def\<close>)
    next
      case (Some rt)
      from read [OF Some held] obtain cur where cur: "dict_get (rd_runtimes db) wid = Some (Runtime_json cur)" "behind rt cur"
        by (auto simp: read_in_def stored_runtime_of_def split: option.splits runtime_doc.splits)
      have rank: "rank (redis_cell db wid) = revision cur"
        using w0 cur(1) by (simp add: rank_def redis_cell_def stored_runtime_of_def)
      have act: "c_active (redis_cell db wid)" using w0 active by (simp add: redis_cell_active)
      have ok_step: "redis_ok (snd (cancel_call c now wid w mrt db))"
        using redis_step_ok [OF rs_cancel [OF doc read_in_ok [OF read [OF Some held]]] ok] by (simp add: Some)
      show thesis
      proof (cases "revision cur = revision rt")
        case False
        then have "revision rt < rank (redis_cell db wid)" using cur(2) by (simp add: rank behind_def)
        then show thesis
          by (intro again [OF _ _ Some held _ act])
             (use w0 active cur(1) False in \<open>auto simp: Some cancel_call_def cancel_script_def cas_passes_def
                terminal_deadlines_def Let_def cancel_answer_def\<close>)
      next
        case True
        show thesis
        proof (cases "rt_phase rt = Some BOOKING")
          case booking: True
          with True w0 cur(1) active have "cancel_call c now wid w mrt db =
              (Inr (Transition_NOT_ELIGIBLE, Some w0), set_runtime wid (Some (rt\<lparr>cancel_requested := True\<rparr>)) db)"
            by (simp add: Some cancel_call_def cancel_script_def cas_passes_def terminal_deadlines_def Let_def)
          with booking cur(1) ok_step show thesis
            by (intro over) (auto simp: cancel_answer_def settled_def set_runtime_def stored_runtime_of_def)
        next
          case False
          with True w0 cur(1) active have call: "cancel_call c now wid w mrt db =
              (Inr (Transition_APPLIED, Some ?w), finish_keys wid ?w (Some (retired_copy c now rt))
                 (Some (to_ms (now + redis_retention c))) True db)"
            by (simp add: Some cancel_call_def cancel_script_def cas_passes_def terminal_deadlines_def Let_def)
          show thesis
            by (rule over [of "?res (Some rt)"])
               (use retired fin in \<open>simp_all add: call [unfolded Some] Some cancel_answer_def settled_def\<close>)
        qed
      qed
    qed
  qed
qed

lemma redis_run_rank: "redis_run sha c k db evs db' \<Longrightarrow> redis_ok db \<Longrightarrow> rank (redis_cell db k) \<le> rank (redis_cell db' k)"
  by (blast dest: redis_run_cell cell_run_rank)

text \<open>The rounds: never an error, and every round that must be repeated was overtaken by a commit.\<close>

lemma cancel_rounds_settle:
  assumes "\<forall>i. interference sha c wid (others i)"
  shows "redis_ok db \<Longrightarrow>
    \<exists>res db'. cancel_rounds n c clock others i wid db = (Inr res, db') \<and> redis_ok db' \<and>
      (n \<noteq> 0 \<longrightarrow> settled wid res db') \<and>
      (tr_status res = Transition_FENCED \<and> n \<noteq> 0 \<longrightarrow>
         held_in db wid \<and> rank (redis_cell db wid) + int n \<le> rank (redis_cell db' wid))"
proof (induction n arbitrary: i db)
  case 0
  then show ?case by simp
next
  case (Suc n)
  let ?db1 = "others i db" and ?db2 = "others (i + 1) (others i db)"
  let ?db3 = "others (i + 2) ?db2"
  note rely = assms [rule_format, unfolded interference_def, rule_format]
  note 1 = rely [OF Suc.prems(1), of i]
  note 2 = rely [OF 1 [THEN conjunct1], of "i + 1"]
  note 3 = rely [OF 2 [THEN conjunct1], of "i + 2"]
  show ?case
  proof (cases "redis_get wid ?db1")
    case None
    then have "\<not> held_in ?db1 wid" using redis_get_ok [of ?db1 wid] 1 by (simp add: held_in_def)
    with None 1 show ?thesis by (auto simp: settled_def)
  next
    case (Some w)
    note doc = redis_get_valid [OF Some]
    show ?thesis
    proof (cases "is_terminal (w_status w)")
      case True
      with Some doc 1 show ?thesis by (auto simp: settled_def)
    next
      case False
      let ?mrt = "redis_get_runtime wid ?db2"
      let ?call = "cancel_call c (clock (i + 1)) wid w ?mrt ?db3"
      have read: "read_in ?db3 wid rt" if "?mrt = Some rt" "held_in ?db3 wid" for rt
        using read_in_run [OF _ _ read_in_fresh [OF that(1)]] that(2) 2 3 by blast
      have round: "cancel_rounds (Suc n) c clock others i wid db =
          (case cancel_answer w ?mrt (fst ?call) of Some answer \<Rightarrow> (answer, snd ?call)
           | None \<Rightarrow> cancel_rounds n c clock others (i + 3) wid (snd ?call))"
        using Some False by (simp add: Let_def case_prod_unfold cong: option.case_cong)
      from 3 have ok3: "redis_ok ?db3" by blast
      from doc have valid: "watch_valid w" "watch_id w = wid" by blast+
      consider (again) rt where "cancel_answer w ?mrt (fst ?call) = None" "snd ?call = ?db3" "?mrt = Some rt"
            "held_in ?db3 wid" "revision rt < rank (redis_cell ?db3 wid)" "c_active (redis_cell ?db3 wid)"
        | (over) res where "cancel_answer w ?mrt (fst ?call) = Some (Inr res)" "redis_ok (snd ?call)"
            "settled wid res (snd ?call)" "tr_status res \<noteq> Transition_FENCED"
        by (rule cancel_call_settles [OF ok3 valid read, where c = c and now = "clock (i + 1)"])
      then show ?thesis
      proof cases
        case (over res)
        then show ?thesis using round by simp
      next
        case (again rt)
        have held: "held_in db wid" "held_in ?db1 wid" "held_in ?db2 wid" using again(4) 1 2 3 by blast+
        have "stored_runtime_of wid ?db2 = Some rt"
          using again(3) by (auto simp: redis_get_runtime_def decode_runtime_def stored_runtime_of_def
              split: option.splits runtime_doc.splits if_splits)
        then have "rank (redis_cell ?db2 wid) = revision rt"
          using held(3) by (auto simp: rank_def redis_cell_def held_in_def)
        moreover have "rank (redis_cell db wid) \<le> rank (redis_cell ?db1 wid)"
            "rank (redis_cell ?db1 wid) \<le> rank (redis_cell ?db2 wid)"
          using redis_run_rank held 1 2 Suc.prems by blast+
        ultimately have grown: "rank (redis_cell db wid) + 1 \<le> rank (redis_cell ?db3 wid)" using again(5) by linarith
        show ?thesis
        proof (cases n)
          case 0
          with round again grown held(1) ok3 show ?thesis by (auto simp: settled_def)
        next
          case (Suc m)
          from Suc.IH [OF ok3, of "i + 3"] Suc obtain res db'
            where rest: "cancel_rounds n c clock others (i + 3) wid ?db3 = (Inr res, db')" "redis_ok db'"
              "settled wid res db'"
              "tr_status res = Transition_FENCED \<Longrightarrow> rank (redis_cell ?db3 wid) + int n \<le> rank (redis_cell db' wid)"
            by blast
          have "cancel_rounds (Suc n) c clock others i wid db = (Inr res, db')"
            using again(1,2) rest(1) by (simp only: round option.case)
          with rest grown held(1) show ?thesis by auto
        qed
      qed
    qed
  qed
qed

section \<open>A concrete history\<close>

definition demo_config :: redis_config where "demo_config = make_redis_config 3600"

definition demo_rdb :: redis_db where
  "demo_rdb = snd (redis_create demo_watch demo_runtime empty_db)"

definition demo_rdb_a :: redis_db where
  "demo_rdb_a = snd (redis_claim_window 1000000 ''w1'' ''w1:0'' ''a'' 60 False demo_rdb)"

definition demo_rdb_b :: redis_db where
  "demo_rdb_b = snd (redis_claim_window 70000000 ''w1'' ''w1:0'' ''b'' 60 False demo_rdb_a)"

definition demo_rdb_booked :: redis_db where
  "demo_rdb_booked =
     snd (redis_commit_window id demo_config 71000000 (demo_claim ''b'' 2 130000000) demo_booked demo_runtime demo_rdb_b)"

lemma demo_rdb_ok [simp]: "redis_ok demo_rdb"
proof -
  have "marker_for (watch_id demo_watch) demo_runtime \<noteq> None" by (simp add: marker_for_def demo_runtime_def)
  from redis_step_ok [OF rs_create [OF demo_watch_valid(1) _ this] redis_ok_empty] show ?thesis
    by (simp add: demo_rdb_def empty_db_def)
qed

lemma demo_rdb_a_ok [simp]: "redis_ok demo_rdb_a"
  unfolding demo_rdb_a_def by (rule redis_claim_step(1) [OF demo_rdb_ok])

lemma demo_rdb_b_ok [simp]: "redis_ok demo_rdb_b"
  unfolding demo_rdb_b_def by (rule redis_claim_step(1) [OF demo_rdb_a_ok])

lemma demo_rclaim_a:
  "redis_claim_window 1000000 ''w1'' ''w1:0'' ''a'' 60 False demo_rdb =
     (Inr \<lparr>cl_status = Claim_OWNED, cl_claim = Some (demo_claim ''a'' 1 61000000)\<rparr>, demo_rdb_a)"
  by code_simp

lemma demo_rclaim_b:
  "redis_claim_window 70000000 ''w1'' ''w1:0'' ''b'' 60 False demo_rdb_a =
     (Inr \<lparr>cl_status = Claim_OWNED, cl_claim = Some (demo_claim ''b'' 2 130000000)\<rparr>, demo_rdb_b)"
  by code_simp

lemma demo_rcommit:
  "redis_commit_window id demo_config 71000000 (demo_claim ''b'' 2 130000000) demo_booked demo_runtime demo_rdb_b =
     (Inr \<lparr>cm_status = Commit_COMMITTED, cm_watch = Some demo_booked, cm_event_id = Some ''w1:BOOKED:1''\<rparr>,
      demo_rdb_booked)"
  by code_simp

lemma demo_rdb_held: "held_in demo_rdb_b ''w1''" "held_in demo_rdb_booked ''w1''"
  by code_simp+

lemma demo_rrun: "redis_run id demo_config ''w1'' demo_rdb_b [''w1:BOOKED:1''] demo_rdb_booked"
  using redis_run_one [OF demo_rdb_held(1) rs_commit [where sha = id and c = demo_config and nw = demo_booked and cl = "demo_claim ''b'' 2 130000000"
      and nrt = demo_runtime and now = 71000000]] demo_rcommit demo_rdb_held(2)
  by (simp add: demo_claim_def commit_events_def)

section \<open>The store as its callers see it\<close>



text \<open>
  C9. Fencing on Redis: once a window has been granted to a new owner, no script call of an owner with
  an older token commits a result or obtains a booking permit, whatever happens in between.
\<close>

theorem redis_stale_owner_cannot_act:
  assumes "redis_ok db"
    and "redis_claim_window now k win own secs ign db = (Inr \<lparr>cl_status = Claim_OWNED, cl_claim = Some new\<rparr>, db1)"
    and "redis_run sha c k db1 evs db2"
    and "watch_id (wc_watch old) = k" "wc_token old < wc_token new"
  shows "(\<forall>res. fst (redis_commit_window sha c t old w rt db2) = Inr res \<longrightarrow> cm_status res \<noteq> Commit_COMMITTED) \<and>
    (\<forall>p. fst (redis_begin_booking t old db2) = Inr p \<longrightarrow> bp_status p \<noteq> Permit_GRANTED)"
proof -
  have claim: "quiet_claim now k win own secs ign db = (\<lparr>cl_status = Claim_OWNED, cl_claim = Some new\<rparr>, db1)"
    by (simp add: answered_def assms(2))
  show ?thesis
    using redis.stale_owner_fenced(1) [OF assms(1) claim assms(3-5), where t = t and w = w and rt = rt]
      redis.stale_owner_fenced(2) [OF assms(1) claim assms(3-5), where t = t] by auto
qed

theorem redis_stale_owner_cannot_act_witness:
  "fst (redis_begin_booking 71000000 (demo_claim ''a'' 1 61000000) demo_rdb_booked) \<noteq>
     Inr \<lparr>bp_status = Permit_GRANTED, permit_id = Some ''w1:1''\<rparr>"
  using redis_stale_owner_cannot_act [OF demo_rdb_a_ok demo_rclaim_b demo_rrun,
      where old = "demo_claim ''a'' 1 61000000" and t = 71000000]
  by (auto simp: demo_claim_def)

text \<open>
  C10. On Redis a watch announces at most one terminal event in its life, and a terminal watch is never
  written again.
\<close>

theorem redis_one_terminal_event:
  assumes "redis_ok db" and "redis_run sha c k db evs db'"
  shows "length evs \<le> 1 \<and>
    (\<forall>w. dict_get (rd_watches db) k = Some w \<and> is_terminal (w_status w) \<longrightarrow>
       evs = [] \<and> dict_get (rd_watches db') k = Some w)"
proof -
  have "evs = [] \<and> dict_get (rd_watches db') k = Some w"
    if w: "dict_get (rd_watches db) k = Some w" "is_terminal (w_status w)" for w
  proof -
    have "c_terminal (redis_cell db k)" using w by (simp add: redis_cell_def c_terminal_def)
    from redis.terminal_is_final(1) [OF assms(1) this assms(2)] redis.terminal_is_final(2) [OF assms(1) this assms(2)] w(1) show ?thesis
      by (auto simp: redis_cell_def absent_cell_def split: option.splits)
  qed
  with redis.one_terminal_event [OF assms] show ?thesis by blast
qed

theorem redis_one_terminal_event_witness: "length [''w1:BOOKED:1''] \<le> 1"
  using redis_one_terminal_event [OF demo_rdb_b_ok demo_rrun] by blast

text \<open>
  C11. Cancellation over Redis, of any id and whatever its sidecar holds: whatever the others do in terms
  of the protocol before each of its awaits (the id is not created anew), and as long as Redis answers,
  \<^verbatim>\<open>cancel_if_active\<close> raises nothing, leaves the store well formed, and its answer is the truth about
  the store it leaves: cancelled, already terminal, pending on the booking in flight, or unknown. It
  gives up with \<^verbatim>\<open>FENCED\<close> only when each of its five rounds was overtaken by another write: the watch is
  still active and its revision has grown by at least five.
\<close>

theorem redis_cancel_answers_truthfully:
  assumes "redis_ok db" and "\<forall>i. interference sha c wid (others i)"
  shows "\<exists>res db'. redis_cancel c clock others wid db = (Inr res, db') \<and> redis_ok db' \<and> settled wid res db' \<and>
    (tr_status res = Transition_FENCED \<longrightarrow> rank (redis_cell db wid) + 5 \<le> rank (redis_cell db' wid))"
  using cancel_rounds_settle [OF assms(2,1), where n = CANCEL_ATTEMPTS and clock = clock and i = 0]
  by (simp add: redis_cancel_def CANCEL_ATTEMPTS_def) blast

text \<open>The booking of the second worker is in flight; the cancellation is recorded and pending.\<close>

theorem redis_cancel_answers_truthfully_witness:
  "(case redis_cancel demo_config (\<lambda>_. 72000000) (\<lambda>_ x. x) ''w1''
        (snd (redis_begin_booking 71000000 (demo_claim ''b'' 2 130000000) demo_rdb_b)) of
      (Inr res, db') \<Rightarrow> tr_status res = Transition_NOT_ELIGIBLE \<and> settled ''w1'' res db'
    | _ \<Rightarrow> False)"
proof -
  let ?db = "snd (redis_begin_booking 71000000 (demo_claim ''b'' 2 130000000) demo_rdb_b)"
  have "redis_get_runtime ''w1'' demo_rdb_b = Some demo_runtime" by code_simp
  then have "read_ok ''w1'' (Some demo_runtime) demo_rdb_b" by (rule read_in_ok [OF read_in_fresh])
  then have "redis_ok ?db"
    by (intro redis_begin_step(1) [OF demo_rdb_b_ok]) (simp add: demo_claim_def)
  from redis_cancel_answers_truthfully [OF this, of id demo_config "''w1''" "\<lambda>_ x. x" "\<lambda>_. 72000000"]
  obtain res db' where run: "redis_cancel demo_config (\<lambda>_. 72000000) (\<lambda>_ x. x) ''w1'' ?db = (Inr res, db')"
    "settled ''w1'' res db'" by auto
  have "case redis_cancel demo_config (\<lambda>_. 72000000) (\<lambda>_ x. x) ''w1'' ?db of
      (Inr res, db') \<Rightarrow> tr_status res = Transition_NOT_ELIGIBLE | _ \<Rightarrow> False" by code_simp
  with run show ?thesis by simp
qed

section \<open>Races the compare-and-set does not see\<close>

text \<open>
  On Redis a cancellation can overtake a booking in flight: a booking permit does not advance the
  revision, so a cancellation that read the sidecar just before the permit was granted still passes the
  compare-and-set, the watch becomes CANCELLED, and the worker's commit of its booking is refused.
\<close>

theorem redis_cancel_overtakes_booking:
  assumes "redis_get wid db = Some w" "w_status w = ACTIVE"
    and "redis_get_runtime wid db = Some rt" "rt_phase rt \<noteq> Some BOOKING"
    and "redis_begin_booking now cl db = (Inr p, db1)" "bp_status p = Permit_GRANTED" "watch_id (wc_watch cl) = wid"
    and "others = (\<lambda>i x. if i = (2::nat) then snd (redis_begin_booking now cl x) else x)"
  shows "\<exists>res db2. redis_cancel c clock others wid db = (Inr res, db2) \<and> tr_status res = Transition_APPLIED \<and>
    (\<forall>t nw nrt. fst (redis_commit_window sha c t cl nw nrt db2) = Inr (commit_refused Commit_TERMINAL None))"
proof (cases rule: redis_begin_effect [of now cl db])
  case same
  with assms(5,6) show ?thesis by auto
next
  case (granted w0 rt0)
  from assms(3) granted(3) assms(7) have rt0: "rt0 = rt"
    by (auto simp: redis_get_runtime_def decode_runtime_def split: if_splits)
  note doc = redis_get_valid [OF assms(1)]
  let ?db1 = "db\<lparr>rd_runtimes := dict_set wid (Runtime_json ((wc_runtime cl)\<lparr>rt_phase := Some BOOKING\<rparr>)) (rd_runtimes db)\<rparr>"
  have call: "cancel_call c (clock (Suc 0)) wid w (Some rt) ?db1 =
      (Inr (Transition_APPLIED, Some (w\<lparr>w_status := CANCELLED, next_check_at := None, updated_at := clock (Suc 0)\<rparr>)),
       finish_keys wid (w\<lparr>w_status := CANCELLED, next_check_at := None, updated_at := clock (Suc 0)\<rparr>)
         (Some (retired_copy c (clock (Suc 0)) rt)) (Some (to_ms (clock (Suc 0) + redis_retention c))) True ?db1)"
    using doc assms(2,4) granted(4) rt0
    by (simp add: cancel_call_def cancel_script_def cas_passes_def terminal_deadlines_def Let_def)
  have answer: "cancel_answer w (Some rt) (fst (cancel_call c (clock (Suc 0)) wid w (Some rt) ?db1)) =
      Some (Inr \<lparr>tr_status = Transition_APPLIED,
        tr_watch = Some (w\<lparr>w_status := CANCELLED, next_check_at := None, updated_at := clock (Suc 0)\<rparr>),
        tr_event_id = None, tr_revision = revision rt + 1\<rparr>)"
    using watch_valid_retire [of w CANCELLED "clock (Suc 0)"] doc by (simp add: call cancel_answer_def)
  have run: "redis_cancel c clock others wid db =
      (the (cancel_answer w (Some rt) (fst (cancel_call c (clock (Suc 0)) wid w (Some rt) ?db1))),
       snd (cancel_call c (clock (Suc 0)) wid w (Some rt) ?db1))"
    using assms(1-3) granted(7) assms(7) answer
    by (simp add: redis_cancel_def CANCEL_ATTEMPTS_def eval_nat_numeral assms(8) is_terminal_def Let_def case_prod_unfold)
  show ?thesis
    unfolding run answer
    by (auto simp: call redis_commit_window_def commit_script_def terminal_deadlines_def Let_def finish_keys_def
        set_runtime_def assms(7))
qed

theorem redis_cancel_overtakes_booking_witness:
  "\<exists>res db2. redis_cancel demo_config (\<lambda>_. 72000000)
      (\<lambda>i x. if i = 2 then snd (redis_begin_booking 71000000 (demo_claim ''b'' 2 130000000) x) else x) ''w1'' demo_rdb_b =
      (Inr res, db2) \<and> tr_status res = Transition_APPLIED \<and>
    fst (redis_commit_window id demo_config 73000000 (demo_claim ''b'' 2 130000000) demo_booked demo_runtime db2) =
      Inr (commit_refused Commit_TERMINAL None)"
proof -
  have reads: "redis_get ''w1'' demo_rdb_b = Some demo_watch" "redis_get_runtime ''w1'' demo_rdb_b = Some demo_runtime"
    by code_simp+
  have "fst (redis_begin_booking 71000000 (demo_claim ''b'' 2 130000000) demo_rdb_b) =
      Inr \<lparr>bp_status = Permit_GRANTED, permit_id = Some ''w1:2''\<rparr>" by code_simp
  then have permit: "redis_begin_booking 71000000 (demo_claim ''b'' 2 130000000) demo_rdb_b =
      (Inr \<lparr>bp_status = Permit_GRANTED, permit_id = Some ''w1:2''\<rparr>,
       snd (redis_begin_booking 71000000 (demo_claim ''b'' 2 130000000) demo_rdb_b))"
    by (simp add: prod_eq_iff)
  have "rt_phase demo_runtime \<noteq> Some BOOKING" by (simp add: demo_runtime_def)
  from redis_cancel_overtakes_booking [OF reads(1) demo_watch_simps(2) reads(2) this permit _ _ refl,
      where c = demo_config and clock = "\<lambda>_. 72000000" and sha = id]
  show ?thesis by (auto simp: demo_claim_def)
qed

text \<open>
  The reads are not one snapshot either: a commit between the two reads of a cancellation is accepted,
  and the cancellation then writes the document it read before, undoing what the commit recorded.
\<close>

theorem redis_cancel_restores_stale_document:
  assumes "redis_get wid db = Some w" "w_status w = ACTIVE"
    and "redis_commit_window sha c now cl nw nrt db = (Inr out, db1)" "cm_status out = Commit_COMMITTED"
    and "watch_id (wc_watch cl) = wid" "w_status nw = ACTIVE" "runtime_valid (committed_runtime c now cl nw nrt)"
    and "others = (\<lambda>i x. if i = (1::nat) then snd (redis_commit_window sha c now cl nw nrt x) else x)"
  shows "\<exists>res db2 t. redis_cancel c clock others wid db = (Inr res, db2) \<and> tr_status res = Transition_APPLIED \<and>
    dict_get (rd_watches db1) wid = Some nw \<and>
    dict_get (rd_watches db2) wid = Some (w\<lparr>w_status := CANCELLED, next_check_at := None, updated_at := t\<rparr>)"
proof (cases rule: redis_commit_effect [where sha = sha and c = c and now = now and cl = cl and nw = nw and
      nrt = nrt and db = db])
  case same
  with assms(3,4) show ?thesis by auto
next
  case (committed w0 rt0)
  note doc = redis_get_valid [OF assms(1)]
  let ?stored = "committed_runtime c now cl nw nrt"
  have db1: "snd (redis_commit_window sha c now cl nw nrt db) = db1" using assms(3) by simp
  have keys: "dict_get (rd_watches db1) wid = Some nw" "dict_get (rd_runtimes db1) wid = Some (Runtime_json ?stored)"
    using committed(7) [of wid] by (simp_all add: db1 same_key_def assms(5))
  have rt: "redis_get_runtime wid db1 = Some ?stored"
    using keys(2) assms(7) by (simp add: redis_get_runtime_def decode_runtime_def)
  have call: "cancel_call c (clock (Suc 0)) wid w (Some ?stored) db1 =
      (Inr (Transition_APPLIED, Some (w\<lparr>w_status := CANCELLED, next_check_at := None, updated_at := clock (Suc 0)\<rparr>)),
       finish_keys wid (w\<lparr>w_status := CANCELLED, next_check_at := None, updated_at := clock (Suc 0)\<rparr>)
         (Some (retired_copy c (clock (Suc 0)) ?stored)) (Some (to_ms (clock (Suc 0) + redis_retention c))) True db1)"
    using keys assms(6)
    by (simp add: cancel_call_def cancel_script_def cas_passes_def terminal_deadlines_def Let_def)
  have answer: "cancel_answer w (Some ?stored) (fst (cancel_call c (clock (Suc 0)) wid w (Some ?stored) db1)) =
      Some (Inr \<lparr>tr_status = Transition_APPLIED,
        tr_watch = Some (w\<lparr>w_status := CANCELLED, next_check_at := None, updated_at := clock (Suc 0)\<rparr>),
        tr_event_id = None, tr_revision = revision ?stored + 1\<rparr>)"
    using watch_valid_retire [of w CANCELLED "clock (Suc 0)"] doc by (simp add: call cancel_answer_def)
  have run: "redis_cancel c clock others wid db =
      (the (cancel_answer w (Some ?stored) (fst (cancel_call c (clock (Suc 0)) wid w (Some ?stored) db1))),
       snd (cancel_call c (clock (Suc 0)) wid w (Some ?stored) db1))"
    using assms(1,2) rt answer
    by (simp add: redis_cancel_def CANCEL_ATTEMPTS_def eval_nat_numeral assms(8) is_terminal_def Let_def
        case_prod_unfold db1)
  show ?thesis
    unfolding run answer by (auto simp: call finish_keys_def set_runtime_def Let_def keys)
qed

section \<open>Lease text\<close>

lemma show_nat_no_bar: "CHR ''|'' \<notin> set (show_nat n)"
proof (induction n rule: show_nat.induct)
  case (1 n)
  have bar: "d < 10 \<Longrightarrow> digit_char d \<noteq> CHR ''|''" for d
    by (simp add: digit_char_def char_of_eq_iff take_bit_eq_mod)
  from 1 show ?case by (cases "n < 10") (simp_all add: show_nat.simps [of n] bar bar [symmetric])
qed

lemma show_int_no_bar: "CHR ''|'' \<notin> set (show_int n)"
  by (simp add: show_int_def show_nat_no_bar)

text \<open>
  The lease text round-trips: the scripts' parser reads the owner, token and expiry that were
  written, for an owner id without a bar, so comparing the parsed text compares the leases.
\<close>

theorem lease_roundtrip:
  assumes "CHR ''|'' \<notin> set (lv_owner l)"
  shows "parse_lease (lease_text l) = (lv_owner l, show_int (lv_token l), show_int (lv_expires l))"
proof -
  have split: "takeWhile (\<lambda>d. d \<noteq> CHR ''|'') (a @ CHR ''|'' # b) = a"
    "dropWhile (\<lambda>d. d \<noteq> CHR ''|'') (a @ CHR ''|'' # b) = CHR ''|'' # b" if "CHR ''|'' \<notin> set a" for a b
    using that by (induction a) auto
  show ?thesis
    using assms by (simp add: parse_lease_def lease_text_def Let_def split show_int_no_bar)
qed

theorem lease_roundtrip_witness:
  "parse_lease ''host:7|12|90'' = (''host:7'', ''12'', ''90'')"
proof -
  have "lease_text \<lparr>lv_owner = ''host:7'', lv_token = 12, lv_expires = 90\<rparr> = ''host:7|12|90''"
    "show_int 12 = ''12''" "show_int 90 = ''90''" by code_simp+
  with lease_roundtrip [of "\<lparr>lv_owner = ''host:7'', lv_token = 12, lv_expires = 90\<rparr>"] show ?thesis by simp
qed

end
