(* ===== verification/Account_Db.thy ===== *)
theory Account_Db
  imports Service_World
begin

text \<open>
  The PostgreSQL tables \<^verbatim>\<open>users\<close>, \<^verbatim>\<open>sessions\<close> and \<^verbatim>\<open>watch_history\<close> (\<^verbatim>\<open>backend/db/migrations\<close>) and the
  statements the repositories run on them: \<^verbatim>\<open>backend/db/repositories/accounts.py\<close> and
  \<^verbatim>\<open>backend/db/repositories/watch_history.py\<close>. One statement is atomic. A table is the list of its rows;
  an UUID is its text; the JSON column holds the document it is the text of. Where rows tie under
  \<^verbatim>\<open>ORDER BY\<close>, PostgreSQL may answer in any order and the model in table order.
\<close>

section \<open>Tables\<close>

record account_row =
  ac_id :: string
  ac_email :: string
  ac_created_at :: time
  ac_password_hash :: string

record user =
  usr_id :: string
  usr_email :: string
  usr_created_at :: time

definition to_public :: "account_row \<Rightarrow> user" where
  "to_public r = \<lparr>usr_id = ac_id r, usr_email = ac_email r, usr_created_at = ac_created_at r\<rparr>"

record session_row =
  se_token_hash :: string
  se_user_id :: string
  se_created_at :: time
  se_expires_at :: time

record history_row =
  hr_watch_id :: string
  hr_owner :: "string option"
  hr_status :: watch_status
  hr_created_at :: time
  hr_updated_at :: time
  hr_expires_at :: time
  hr_watch :: watch
  hr_user :: "string option"
  hr_revision :: int

record database =
  db_users :: "account_row list"
  db_sessions :: "session_row list"
  db_history :: "history_row list"

definition empty_database :: database where
  "empty_database = \<lparr>db_users = [], db_sessions = [], db_history = []\<rparr>"

datatype db_error = Unique_violation | Foreign_key_violation | Invalid_limit | Unreachable

definition user_exists :: "database \<Rightarrow> string \<Rightarrow> bool" where
  "user_exists db uid \<longleftrightarrow> uid \<in> ac_id ` set (db_users db)"

section \<open>AccountRepository\<close>

text \<open>The identifier is \<^verbatim>\<open>gen_random_uuid()\<close> and the creation time \<^verbatim>\<open>now()\<close>.\<close>

definition create_user :: "string \<Rightarrow> time \<Rightarrow> string \<Rightarrow> string \<Rightarrow> database \<Rightarrow> (db_error + user) \<times> database" where
  "create_user uuid now email password_hash db =
     (let r = \<lparr>ac_id = uuid, ac_email = email, ac_created_at = now, ac_password_hash = password_hash\<rparr> in
      if user_exists db uuid \<or> email \<in> ac_email ` set (db_users db) then (Inl Unique_violation, db)
      else (Inr (to_public r), db\<lparr>db_users := db_users db @ [r]\<rparr>))"

definition get_by_email :: "string \<Rightarrow> database \<Rightarrow> account_row option" where
  "get_by_email email db = find (\<lambda>r. ac_email r = email) (db_users db)"

definition get_by_id :: "string \<Rightarrow> database \<Rightarrow> user option" where
  "get_by_id uid db = map_option to_public (find (\<lambda>r. ac_id r = uid) (db_users db))"

section \<open>SessionRepository\<close>

definition create_session ::
  "string \<Rightarrow> string \<Rightarrow> time \<Rightarrow> time \<Rightarrow> database \<Rightarrow> (db_error + session_row) \<times> database" where
  "create_session token_hash uid created expires db =
     (let r = \<lparr>se_token_hash = token_hash, se_user_id = uid, se_created_at = created, se_expires_at = expires\<rparr> in
      if token_hash \<in> se_token_hash ` set (db_sessions db) then (Inl Unique_violation, db)
      else if \<not> user_exists db uid then (Inl Foreign_key_violation, db)
      else (Inr r, db\<lparr>db_sessions := db_sessions db @ [r]\<rparr>))"

definition get_by_token_hash :: "string \<Rightarrow> database \<Rightarrow> session_row option" where
  "get_by_token_hash token_hash db = find (\<lambda>r. se_token_hash r = token_hash) (db_sessions db)"

definition revoke :: "string \<Rightarrow> database \<Rightarrow> database" where
  "revoke token_hash db = db\<lparr>db_sessions := filter (\<lambda>r. se_token_hash r \<noteq> token_hash) (db_sessions db)\<rparr>"

definition revoke_all_for_user :: "string \<Rightarrow> database \<Rightarrow> database" where
  "revoke_all_for_user uid db = db\<lparr>db_sessions := filter (\<lambda>r. se_user_id r \<noteq> uid) (db_sessions db)\<rparr>"

section \<open>WatchHistoryRepository\<close>

definition history_of :: "database \<Rightarrow> string \<Rightarrow> history_row option" where
  "history_of db wid = find (\<lambda>r. hr_watch_id r = wid) (db_history db)"

definition history_row_of :: "watch \<Rightarrow> string option \<Rightarrow> string option \<Rightarrow> int \<Rightarrow> history_row" where
  "history_row_of w owner user rvn =
     \<lparr>hr_watch_id = watch_id w, hr_owner = owner, hr_status = w_status w, hr_created_at = created_at w,
      hr_updated_at = updated_at w, hr_expires_at = w_expires_at w, hr_watch = w, hr_user = user, hr_revision = rvn\<rparr>"

text \<open>The \<^verbatim>\<open>WHERE\<close> of the upsert: a terminal row is final, and revisions only grow.\<close>

definition supersedes :: "history_row \<Rightarrow> history_row \<Rightarrow> bool" where
  "supersedes new old \<longleftrightarrow>
     hr_status old = ACTIVE \<and>
     (hr_revision old < hr_revision new \<or>
      hr_revision new = -1 \<and> hr_revision old = -1 \<and> hr_updated_at old \<le> hr_updated_at new)"

definition merge_row :: "history_row \<Rightarrow> history_row \<Rightarrow> history_row" where
  "merge_row new old =
     new\<lparr>hr_owner := or_else (hr_owner new) (hr_owner old), hr_user := or_else (hr_user new) (hr_user old),
         hr_created_at := hr_created_at old\<rparr>"

definition references_ok :: "database \<Rightarrow> string option \<Rightarrow> bool" where
  "references_ok db user \<longleftrightarrow> (case user of None \<Rightarrow> True | Some uid \<Rightarrow> user_exists db uid)"

definition replace_row :: "string \<Rightarrow> history_row \<Rightarrow> history_row list \<Rightarrow> history_row list" where
  "replace_row wid new rows = map (\<lambda>r. if hr_watch_id r = wid then new else r) rows"

definition history_record ::
  "watch \<Rightarrow> string option \<Rightarrow> string option \<Rightarrow> int \<Rightarrow> database \<Rightarrow> (db_error + unit) \<times> database" where
  "history_record w owner user rvn db =
     (let new = history_row_of w owner user rvn in
      case history_of db (watch_id w) of
        None \<Rightarrow>
          if references_ok db user then (Inr (), db\<lparr>db_history := db_history db @ [new]\<rparr>)
          else (Inl Foreign_key_violation, db)
      | Some old \<Rightarrow>
          if \<not> supersedes new old then (Inr (), db)
          else if \<not> references_ok db (hr_user (merge_row new old)) then (Inl Foreign_key_violation, db)
          else (Inr (), db\<lparr>db_history := replace_row (watch_id w) (merge_row new old) (db_history db)\<rparr>))"

definition history_get :: "string \<Rightarrow> database \<Rightarrow> watch option" where
  "history_get wid db = map_option hr_watch (history_of db wid)"

definition MAX_LIST_LIMIT :: int where "MAX_LIST_LIMIT = 1000"

definition newest_first :: "(history_row \<Rightarrow> bool) \<Rightarrow> int \<Rightarrow> database \<Rightarrow> db_error + watch list" where
  "newest_first P limit db =
     (if \<not> (1 \<le> limit \<and> limit \<le> MAX_LIST_LIMIT) then Inl Invalid_limit
      else Inr (map hr_watch (take (nat limit) (sort_key (\<lambda>r. - hr_updated_at r) (filter P (db_history db))))))"

definition list_for_owner :: "string \<Rightarrow> int \<Rightarrow> database \<Rightarrow> db_error + watch list" where
  "list_for_owner owner = newest_first (\<lambda>r. hr_owner r = Some owner \<and> hr_user r = None)"

definition list_for_user :: "string \<Rightarrow> int \<Rightarrow> database \<Rightarrow> db_error + watch list" where
  "list_for_user uid = newest_first (\<lambda>r. hr_user r = Some uid)"

definition claimable :: "string \<Rightarrow> history_row \<Rightarrow> bool" where
  "claimable owner r \<longleftrightarrow> hr_owner r = Some owner \<and> hr_user r = None"

definition claim_anonymous :: "string \<Rightarrow> string \<Rightarrow> database \<Rightarrow> (db_error + unit) \<times> database" where
  "claim_anonymous owner uid db =
     (if list_ex (claimable owner) (db_history db) \<and> \<not> user_exists db uid then (Inl Foreign_key_violation, db)
      else (Inr (), db\<lparr>db_history := map (\<lambda>r. if claimable owner r then r\<lparr>hr_user := Some uid\<rparr> else r) (db_history db)\<rparr>))"

definition get_account_owner :: "string \<Rightarrow> database \<Rightarrow> string option" where
  "get_account_owner wid db = (case history_of db wid of None \<Rightarrow> None | Some r \<Rightarrow> hr_user r)"

text \<open>
  \<^verbatim>\<open>TrackingHistoryRecorder.record\<close>: the outcome goes to the readiness tracker, then on to the caller.
\<close>

definition tracked_record ::
  "(db_error + unit) \<times> database \<Rightarrow> bool list \<Rightarrow> (db_error + unit) \<times> database \<times> bool list" where
  "tracked_record done_call outcomes =
     (case done_call of
        (Inl err, db) \<Rightarrow> (Inl err, db, outcomes @ [False])
      | (Inr u, db) \<Rightarrow> (Inr u, db, outcomes @ [True]))"

section \<open>What can happen to the database\<close>

inductive db_step :: "database \<Rightarrow> database \<Rightarrow> bool" where
  create_user_step: "db_step db (snd (create_user uuid now email h db))"
| create_session_step: "db_step db (snd (create_session th uid c x db))"
| revoke_step: "db_step db (revoke th db)"
| revoke_all_step: "db_step db (revoke_all_for_user uid db)"
| record_step: "db_step db (snd (history_record w owner user rvn db))"
| claim_step: "db_step db (snd (claim_anonymous owner uid db))"

abbreviation db_runs :: "database \<Rightarrow> database \<Rightarrow> bool" where
  "db_runs \<equiv> db_step\<^sup>*\<^sup>*"

definition row_ok :: "history_row \<Rightarrow> bool" where
  "row_ok r \<longleftrightarrow> hr_watch_id r = watch_id (hr_watch r) \<and> hr_status r = w_status (hr_watch r) \<and>
     hr_updated_at r = updated_at (hr_watch r) \<and> hr_expires_at r = w_expires_at (hr_watch r)"

definition database_ok :: "database \<Rightarrow> bool" where
  "database_ok db \<longleftrightarrow>
     distinct (map ac_id (db_users db)) \<and> distinct (map ac_email (db_users db)) \<and>
     distinct (map se_token_hash (db_sessions db)) \<and>
     (\<forall>s \<in> set (db_sessions db). user_exists db (se_user_id s)) \<and>
     distinct (map hr_watch_id (db_history db)) \<and>
     (\<forall>r \<in> set (db_history db). row_ok r \<and> references_ok db (hr_user r))"

end
