(* ===== verification/Auth_Service.thy ===== *)
theory Auth_Service
  imports Account_Db Throttle
begin

text \<open>
  Accounts: \<^verbatim>\<open>backend/services/auth_service.py\<close> over the tables of \<open>Account_Db\<close>, and the hashing service
  \<^verbatim>\<open>backend/services/password.py\<close>. Argon2, SHA-256 and the sources of randomness are parameters. At
  every await anybody else may act on the database, and a statement may be lost before or after it
  took effect. The four password slots are a step relation of their own.
\<close>

section \<open>Password hashing\<close>

text \<open>argon2-cffi: \<^verbatim>\<open>hash\<close> draws a salt, \<^verbatim>\<open>verify\<close> returns or raises one of two errors.\<close>

datatype verification = Verified | Verify_mismatch | Invalid_hash

record hasher =
  h_hash :: "nat \<Rightarrow> string \<Rightarrow> string"
  h_verify :: "string \<Rightarrow> string \<Rightarrow> verification"

definition TIMING_PASSWORD :: string where "TIMING_PASSWORD = ''dibs-timing-equalizer''"

definition dummy_hash :: "hasher \<Rightarrow> string" where
  "dummy_hash h = h_hash h 0 TIMING_PASSWORD"

definition hasher_verify :: "hasher \<Rightarrow> string \<Rightarrow> string \<Rightarrow> bool" where
  "hasher_verify h encoded password = (case h_verify h encoded password of Verified \<Rightarrow> True | _ \<Rightarrow> False)"

text \<open>What Argon2 promises: the hash of a password verifies that password and, collisions aside, no other.\<close>

definition argon2_sound :: "hasher \<Rightarrow> bool" where
  "argon2_sound h \<longleftrightarrow> (\<forall>n p p'. h_verify h (h_hash h n p) p' = (if p' = p then Verified else Verify_mismatch))"

section \<open>The service\<close>

record account_settings =
  session_ttl_seconds :: seconds
  password_min_length :: int
  password_max_length :: int

datatype auth_error =
  Email_taken | Invalid_credentials | Authentication_required | Invalid_email
| Password_policy string | Database_failed db_error

record auth_env =
  ae_others :: "nat \<Rightarrow> time \<times> database \<Rightarrow> time \<times> database"
  ae_calls :: "nat \<Rightarrow> call"
  ae_sha256 :: "string \<Rightarrow> string"
  ae_token :: "nat \<Rightarrow> string"
  ae_uuid :: "nat \<Rightarrow> string"
  ae_hasher :: hasher

record auth_world =
  au_now :: time
  au_db :: database
  au_awaits :: nat
  au_work :: nat

type_synonym 'a auth = "auth_world \<Rightarrow> (auth_error + 'a) \<times> auth_world"

definition auth_pause :: "auth_env \<Rightarrow> auth_world \<Rightarrow> auth_world" where
  "auth_pause e s =
     (let (t, db) = ae_others e (au_awaits s) (au_now s, au_db s)
      in s\<lparr>au_now := t, au_db := db, au_awaits := Suc (au_awaits s)\<rparr>)"

definition auth_then :: "'a auth \<Rightarrow> ('a \<Rightarrow> 'b auth) \<Rightarrow> 'b auth" where
  "auth_then m f s = (case m s of (Inl err, s1) \<Rightarrow> (Inl err, s1) | (Inr x, s1) \<Rightarrow> f x s1)"

definition auth_return :: "'a \<Rightarrow> 'a auth" where "auth_return x s = (Inr x, s)"
definition auth_raise :: "auth_error \<Rightarrow> 'a auth" where "auth_raise err s = (Inl err, s)"

definition auth_query :: "auth_env \<Rightarrow> (time \<Rightarrow> database \<Rightarrow> (db_error + 'a) \<times> database) \<Rightarrow> 'a auth" where
  "auth_query e f s =
     (let s1 = auth_pause e s; (res, db) = f (au_now s1) (au_db s1) in
      case ae_calls e (au_awaits s) of
        Answered \<Rightarrow> ((case res of Inl err \<Rightarrow> Inl (Database_failed err) | Inr x \<Rightarrow> Inr x), s1\<lparr>au_db := db\<rparr>)
      | Lost_before \<Rightarrow> (Inl (Database_failed Unreachable), s1)
      | Lost_after \<Rightarrow> (Inl (Database_failed Unreachable), s1\<lparr>au_db := db\<rparr>))"

definition auth_read :: "auth_env \<Rightarrow> (database \<Rightarrow> 'a) \<Rightarrow> 'a auth" where
  "auth_read e f = auth_query e (\<lambda>now db. (Inr (f db), db))"

text \<open>\<^verbatim>\<open>_password_work\<close>: one Argon2 computation on a worker thread.\<close>

definition password_work :: "auth_env \<Rightarrow> (nat \<Rightarrow> 'a) \<Rightarrow> 'a auth" where
  "password_work e f s = (Inr (f (au_awaits s)), (auth_pause e s)\<lparr>au_work := Suc (au_work s)\<rparr>)"

definition hash_token :: "auth_env \<Rightarrow> string \<Rightarrow> string" where
  "hash_token e raw = ae_sha256 e raw"

text \<open>\<^verbatim>\<open>^[^@\s]+@[^@\s]+\.[^@\s]+$\<close>, on text without surrounding blanks.\<close>

definition email_shape :: "string \<Rightarrow> bool" where
  "email_shape s \<longleftrightarrow>
     (let local_part = takeWhile (\<lambda>c. c \<noteq> CHR ''@'') s; rest = dropWhile (\<lambda>c. c \<noteq> CHR ''@'') s; domain = tl rest
      in list_all (\<lambda>c. \<not> is_blank c) s \<and> local_part \<noteq> [] \<and> rest \<noteq> [] \<and> CHR ''@'' \<notin> set domain \<and>
         CHR ''.'' \<in> set (butlast (tl domain)))"

definition normalize_email :: "string \<Rightarrow> auth_error + string" where
  "normalize_email email =
     (let normalized = casefold (strip email) in if email_shape normalized then Inr normalized else Inl Invalid_email)"

definition check_password :: "account_settings \<Rightarrow> string \<Rightarrow> auth_error + unit" where
  "check_password cfg password =
     (if int (length password) < password_min_length cfg
      then Inl (Password_policy (''Password must be at least '' @ show_int (password_min_length cfg) @ '' characters.''))
      else if password_max_length cfg < int (length password)
      then Inl (Password_policy (''Password must be at most '' @ show_int (password_max_length cfg) @ '' characters.''))
      else Inr ())"

definition auth_lift :: "auth_error + 'a \<Rightarrow> 'a auth" where
  "auth_lift x s = (x, s)"

definition issue_session :: "auth_env \<Rightarrow> account_settings \<Rightarrow> string \<Rightarrow> string auth" where
  "issue_session e cfg uid s =
     (let raw = ae_token e (au_awaits s); now = au_now s; expires = now + timedelta_seconds (session_ttl_seconds cfg)
      in auth_then (auth_query e (\<lambda>_. create_session (hash_token e raw) uid now expires)) (\<lambda>_. auth_return raw) s)"

text \<open>A unique violation of the insertion is an address already taken.\<close>

definition register :: "auth_env \<Rightarrow> string \<Rightarrow> string \<Rightarrow> user auth" where
  "register e email password_hash s =
     (case auth_query e (\<lambda>now. create_user (ae_uuid e (au_awaits s)) now email password_hash) s of
        (Inl (Database_failed Unique_violation), s1) \<Rightarrow> (Inl Email_taken, s1)
      | res \<Rightarrow> res)"

definition signup :: "auth_env \<Rightarrow> account_settings \<Rightarrow> string \<Rightarrow> string \<Rightarrow> (user \<times> string) auth" where
  "signup e cfg email password =
     auth_then (auth_lift (normalize_email email)) (\<lambda>normalized.
     auth_then (auth_lift (check_password cfg password)) (\<lambda>_.
     auth_then (password_work e (\<lambda>n. h_hash (ae_hasher e) n password)) (\<lambda>h.
     auth_then (register e normalized h) (\<lambda>u.
     auth_then (issue_session e cfg (usr_id u)) (\<lambda>token. auth_return (u, token))))))"

definition login :: "auth_env \<Rightarrow> account_settings \<Rightarrow> string \<Rightarrow> string \<Rightarrow> (user \<times> string) auth" where
  "login e cfg email password =
     auth_then (auth_lift (normalize_email email)) (\<lambda>normalized.
     auth_then (auth_read e (get_by_email normalized)) (\<lambda>stored.
     case stored of
       None \<Rightarrow>
         auth_then (password_work e (\<lambda>_. hasher_verify (ae_hasher e) (dummy_hash (ae_hasher e)) password))
           (\<lambda>_. auth_raise Invalid_credentials)
     | Some r \<Rightarrow>
         auth_then (password_work e (\<lambda>_. hasher_verify (ae_hasher e) (ac_password_hash r) password)) (\<lambda>matches.
         if \<not> matches then auth_raise Invalid_credentials
         else auth_then (issue_session e cfg (ac_id r)) (\<lambda>token. auth_return (to_public r, token)))))"

definition logout :: "auth_env \<Rightarrow> string \<Rightarrow> unit auth" where
  "logout e raw = auth_query e (\<lambda>now db. (Inr (), revoke (hash_token e raw) db))"

definition authenticate :: "auth_env \<Rightarrow> string option \<Rightarrow> user option auth" where
  "authenticate e raw =
     (case raw of
        None \<Rightarrow> auth_return None
      | Some token \<Rightarrow>
          if token = [] then auth_return None
          else
            auth_then (auth_read e (get_by_token_hash (hash_token e token))) (\<lambda>session s.
              case session of
                None \<Rightarrow> (Inr None, s)
              | Some r \<Rightarrow> if se_expires_at r \<le> au_now s then (Inr None, s)
                          else auth_read e (get_by_id (se_user_id r)) s))"

section \<open>The password slots\<close>

text \<open>
  \<^verbatim>\<open>asyncio.Semaphore(4)\<close> around \<^verbatim>\<open>asyncio.shield(task)\<close>: jobs that wait for a slot, jobs whose thread runs
  behind the shield, jobs cancelled once, which keep their slot while they await the thread without a
  shield, and threads nobody waits for any more.
\<close>

record hash_pool =
  hp_waiting :: nat
  hp_running :: nat
  hp_draining :: nat
  hp_orphans :: nat

definition PASSWORD_SLOTS :: nat where "PASSWORD_SLOTS = 4"

definition idle_pool :: hash_pool where
  "idle_pool = \<lparr>hp_waiting = 0, hp_running = 0, hp_draining = 0, hp_orphans = 0\<rparr>"

definition hash_threads :: "hash_pool \<Rightarrow> nat" where
  "hash_threads p = hp_running p + hp_draining p + hp_orphans p"

datatype pool_event =
  Job_arrives | Job_starts | Waiter_cancelled | Thread_ends | Job_cancelled | Drained | Cancelled_again | Orphan_ends

fun pool_next :: "pool_event \<Rightarrow> hash_pool \<Rightarrow> hash_pool option" where
  "pool_next Job_arrives p = Some (p\<lparr>hp_waiting := Suc (hp_waiting p)\<rparr>)"
| "pool_next Job_starts p =
     (if 0 < hp_waiting p \<and> hp_running p + hp_draining p < PASSWORD_SLOTS
      then Some (p\<lparr>hp_waiting := hp_waiting p - 1, hp_running := Suc (hp_running p)\<rparr>) else None)"
| "pool_next Waiter_cancelled p = (if 0 < hp_waiting p then Some (p\<lparr>hp_waiting := hp_waiting p - 1\<rparr>) else None)"
| "pool_next Thread_ends p = (if 0 < hp_running p then Some (p\<lparr>hp_running := hp_running p - 1\<rparr>) else None)"
| "pool_next Job_cancelled p =
     (if 0 < hp_running p then Some (p\<lparr>hp_running := hp_running p - 1, hp_draining := Suc (hp_draining p)\<rparr>) else None)"
| "pool_next Drained p = (if 0 < hp_draining p then Some (p\<lparr>hp_draining := hp_draining p - 1\<rparr>) else None)"
| "pool_next Cancelled_again p =
     (if 0 < hp_draining p then Some (p\<lparr>hp_draining := hp_draining p - 1, hp_orphans := Suc (hp_orphans p)\<rparr>) else None)"
| "pool_next Orphan_ends p = (if 0 < hp_orphans p then Some (p\<lparr>hp_orphans := hp_orphans p - 1\<rparr>) else None)"

fun pool_run :: "pool_event list \<Rightarrow> hash_pool \<Rightarrow> hash_pool option" where
  "pool_run [] p = Some p"
| "pool_run (ev # evs) p = (case pool_next ev p of None \<Rightarrow> None | Some p1 \<Rightarrow> pool_run evs p1)"

end
