(* ===== verification/Intents.thy ===== *)
theory Intents
  imports Slot_Generation
begin

text \<open>
  The orchestrator's contracts (\<^verbatim>\<open>backend/orchestrator/schemas.py\<close>) and the deterministic validator that
  turns an untrusted extraction into a routing decision (\<^verbatim>\<open>backend/orchestrator/validator.py\<close>). The
  reference time is its local date and minute; \<^verbatim>\<open>strftime\<close> drops the seconds. \<open>intent_valid\<close> is what
  Pydantic checks when the intent is built.
\<close>

section \<open>Contracts\<close>

datatype intent_action = BOOK_RESERVATION | SEARCH_AVAILABILITY | CREATE_WATCH
datatype intent_status = READY | NEEDS_CLARIFICATION
datatype orchestrator_route = BOOKING_SERVICE | WATCH_SERVICE | CLARIFICATION
datatype missing_field = F_ACTION | F_VENUE_NAME | F_PARTY_SIZE | F_DATE | F_TIME

record reservation_extraction =
  ex_action :: "intent_action option"
  ex_venue_name :: "string option"
  ex_venue_type :: venue_type
  ex_party_size :: "int option"
  ex_date :: "string option"
  ex_preferred_time :: "string option"
  ex_time_window :: "time_window option"
  ex_duration_minutes :: "int option"
  ex_special_requests :: "string list"

record reservation_intent =
  in_status :: intent_status
  in_route :: orchestrator_route
  in_action :: "intent_action option"
  in_venue_name :: "string option"
  in_venue_type :: venue_type
  in_market :: string
  in_party_size :: "int option"
  in_date :: "string option"
  in_preferred_time :: "string option"
  in_time_window :: "time_window option"
  in_duration_minutes :: "int option"
  in_special_requests :: "string list"
  in_missing_fields :: "missing_field list"
  in_clarification_question :: "string option"

text \<open>The field constraints both models share.\<close>

fun opt_all :: "('a \<Rightarrow> bool) \<Rightarrow> 'a option \<Rightarrow> bool" where
  "opt_all P None = True"
| "opt_all P (Some x) = P x"

definition sized :: "nat \<Rightarrow> string \<Rightarrow> bool" where
  "sized n s \<longleftrightarrow> 1 \<le> length s \<and> length s \<le> n"

definition details_valid ::
  "string option \<Rightarrow> int option \<Rightarrow> string option \<Rightarrow> string option \<Rightarrow> time_window option \<Rightarrow> int option \<Rightarrow>
   string list \<Rightarrow> bool" where
  "details_valid name party day pref tw duration requests \<longleftrightarrow>
     opt_all (sized 200) name \<and>
     opt_all (\<lambda>n. 1 \<le> n \<and> n \<le> 100) party \<and>
     opt_all iso_date_shape day \<and>
     opt_all hour_minute_shape pref \<and>
     opt_all time_window_valid tw \<and>
     opt_all (\<lambda>d. 15 \<le> d \<and> d \<le> 720) duration \<and>
     length requests \<le> 10 \<and> list_all (sized 200) requests"

definition extraction_valid :: "reservation_extraction \<Rightarrow> bool" where
  "extraction_valid x \<longleftrightarrow>
     details_valid (ex_venue_name x) (ex_party_size x) (ex_date x) (ex_preferred_time x) (ex_time_window x)
       (ex_duration_minutes x) (ex_special_requests x)"

definition has_valid_date :: "reservation_extraction \<Rightarrow> bool" where
  "has_valid_date x \<longleftrightarrow> (case ex_date x of None \<Rightarrow> False | Some s \<Rightarrow> fromisoformat s \<noteq> None)"

text \<open>\<^verbatim>\<open>ReservationIntent.validate_state\<close>.\<close>

definition intent_state_valid :: "reservation_intent \<Rightarrow> bool" where
  "intent_state_valid i \<longleftrightarrow>
     (let has_time = in_preferred_time i \<noteq> None \<or> in_time_window i \<noteq> None;
          present = in_action i \<noteq> None \<and> in_venue_name i \<noteq> None \<and> in_party_size i \<noteq> None \<and>
                    in_date i \<noteq> None \<and> has_time
      in if in_status i = READY
         then present \<and> in_route i \<noteq> CLARIFICATION \<and> in_missing_fields i = [] \<and> in_clarification_question i = None
         else in_route i = CLARIFICATION \<and> in_missing_fields i \<noteq> [] \<and> in_clarification_question i \<noteq> None)"

definition intent_valid :: "reservation_intent \<Rightarrow> bool" where
  "intent_valid i \<longleftrightarrow>
     details_valid (in_venue_name i) (in_party_size i) (in_date i) (in_preferred_time i) (in_time_window i)
       (in_duration_minutes i) (in_special_requests i) \<and>
     in_market i = MARKET \<and> opt_all (\<lambda>s. fromisoformat s \<noteq> None) (in_date i) \<and>
     opt_all (sized 400) (in_clarification_question i) \<and> intent_state_valid i"

definition is_ready :: "reservation_intent \<Rightarrow> bool" where
  "is_ready i \<longleftrightarrow> in_status i = READY"

section \<open>Resolving one field\<close>

record local_time =
  lt_date :: date
  lt_minute :: int

definition local_time_valid :: "local_time \<Rightarrow> bool" where
  "local_time_valid t \<longleftrightarrow> date_valid (lt_date t) \<and> 0 \<le> lt_minute t \<and> lt_minute t < 1440"

definition MAX_DAYS_AHEAD :: int where "MAX_DAYS_AHEAD = 365"

definition resolve_venue_field ::
  "reservation_extraction \<Rightarrow> string option \<times> venue_type \<times> string list" where
  "resolve_venue_field x =
     (case ex_venue_name x of
        None \<Rightarrow> (None, ex_venue_type x, [])
      | Some name \<Rightarrow>
          (let res = resolve_venue name in
           case vr_status res of
             RESOLVED \<Rightarrow>
               (case vr_venue res of
                  Some v \<Rightarrow> (Some (v_name v), v_type v, [])
                | None \<Rightarrow> (Some name, ex_venue_type x, []))
           | AMBIGUOUS \<Rightarrow> (Some name, ex_venue_type x, map v_name (vr_candidates res))
           | UNKNOWN_VENUE \<Rightarrow> (Some name, ex_venue_type x, [])))"

datatype date_problem = Impossible_date | Past_date | Date_too_far

text \<open>Days are compared by ordinal: \<^verbatim>\<open>today + timedelta(days=365)\<close>.\<close>

definition resolve_date :: "reservation_extraction \<Rightarrow> date \<Rightarrow> string option \<times> date_problem option" where
  "resolve_date x today =
     (case ex_date x of
        None \<Rightarrow> (None, None)
      | Some s \<Rightarrow>
          (case fromisoformat s of
             None \<Rightarrow> (None, Some Impossible_date)
           | Some target \<Rightarrow>
               if target < today then (None, Some Past_date)
               else if toordinal today + MAX_DAYS_AHEAD < toordinal target then (None, Some Date_too_far)
               else (Some s, None)))"

datatype time_problem = Invalid_window | Conflicting_time | Past_time

definition next_slot_boundary :: "string \<Rightarrow> string" where
  "next_slot_boundary now =
     (let rounded = - ((- to_minutes now) div SLOT_INTERVAL_MINUTES) * SLOT_INTERVAL_MINUTES
      in if 24 * 60 \<le> rounded then ''23:59'' else from_minutes rounded)"

definition resolve_time ::
  "reservation_extraction \<Rightarrow> local_time \<Rightarrow> string option
     \<Rightarrow> string option \<times> time_window option \<times> time_problem option" where
  "resolve_time x ref target_date =
     (let pref = ex_preferred_time x; tw = ex_time_window x in
      if (case tw of None \<Rightarrow> False | Some w \<Rightarrow> tw_end w < tw_start w)
      then (pref, None, Some Invalid_window)
      else if (case (tw, pref) of (Some w, Some t) \<Rightarrow> \<not> (tw_start w \<le> t \<and> t \<le> tw_end w) | _ \<Rightarrow> False)
      then (pref, tw, Some Conflicting_time)
      else if target_date = Some (isoformat (lt_date ref))
      then (let earliest = next_slot_boundary (from_minutes (lt_minute ref)) in
            if (case pref of None \<Rightarrow> False | Some t \<Rightarrow> t < earliest) then (None, None, Some Past_time)
            else (case tw of
                    None \<Rightarrow> (pref, None, None)
                  | Some w \<Rightarrow>
                      if tw_end w < earliest then (None, None, Some Past_time)
                      else if tw_start w < earliest
                      then (pref, Some \<lparr>tw_start = earliest, tw_end = tw_end w\<rparr>, None)
                      else (pref, Some w, None)))
      else (pref, tw, None))"

definition route_for :: "intent_action option \<Rightarrow> orchestrator_route" where
  "route_for act = (if act = Some CREATE_WATCH then WATCH_SERVICE else BOOKING_SERVICE)"

section \<open>Questions\<close>

text \<open>\<^verbatim>\<open>", ".join(parts[:-1]) + f", and {parts[-1]}"\<close> and its variants.\<close>

definition join_choices :: "string \<Rightarrow> string list \<Rightarrow> string" where
  "join_choices word parts =
     (case parts of
        [a] \<Rightarrow> a
      | [a, b] \<Rightarrow> a @ '' '' @ word @ '' '' @ b
      | _ \<Rightarrow> join_with '', '' (butlast parts) @ '', '' @ word @ '' '' @ last parts)"

definition specific_question ::
  "missing_field list \<Rightarrow> date_problem option \<Rightarrow> time_problem option \<Rightarrow> string list \<Rightarrow> string option" where
  "specific_question missing dp tp candidates =
     (if missing = [F_VENUE_NAME] \<and> candidates \<noteq> []
      then Some (''Did you mean '' @ join_choices ''or'' (take 3 candidates) @ ''?'')
      else if missing = [F_DATE] then
        (case dp of
           Some Past_date \<Rightarrow> Some ''That date has already passed. What future date would you like?''
         | Some Impossible_date \<Rightarrow> Some ''That date does not exist on the calendar. What date would you like?''
         | Some Date_too_far \<Rightarrow>
             Some ''I can only book up to a year ahead. What date within the next year would you like?''
         | None \<Rightarrow> None)
      else if missing = [F_TIME] then
        (case tp of
           Some Invalid_window \<Rightarrow>
             Some ''The time window is invalid. What time or valid time range works for you?''
         | Some Conflicting_time \<Rightarrow>
             Some ''The preferred time falls outside the requested time window. Which time constraint should I use?''
         | Some Past_time \<Rightarrow>
             Some ''That time has already passed today. What later time works, or should I look at another day?''
         | None \<Rightarrow> None)
      else None)"

fun single_question :: "missing_field \<Rightarrow> string" where
  "single_question F_ACTION = ''Would you like me to check availability, book it, or create a watch?''"
| "single_question F_VENUE_NAME = ''Which restaurant or recreational venue would you like?''"
| "single_question F_PARTY_SIZE = ''How many guests or participants are there?''"
| "single_question F_DATE = ''What date would you like?''"
| "single_question F_TIME = ''What time or time range works for you?''"

fun field_label :: "missing_field \<Rightarrow> string" where
  "field_label F_ACTION = ''request type''"
| "field_label F_VENUE_NAME = ''venue''"
| "field_label F_PARTY_SIZE = ''party size''"
| "field_label F_DATE = ''date''"
| "field_label F_TIME = ''time or time range''"

definition build_question ::
  "missing_field list \<Rightarrow> date_problem option \<Rightarrow> time_problem option \<Rightarrow> string list \<Rightarrow> string" where
  "build_question missing dp tp candidates =
     (case specific_question missing dp tp candidates of
        Some question \<Rightarrow> question
      | None \<Rightarrow>
          (case missing of
             [f] \<Rightarrow> single_question f
           | _ \<Rightarrow> ''Could you provide the '' @ join_choices ''and'' (map field_label missing) @ ''?''))"

section \<open>The validator\<close>

definition missing_fields_of ::
  "reservation_extraction \<Rightarrow> string option \<Rightarrow> string list \<Rightarrow> string option \<Rightarrow> bool \<Rightarrow> missing_field list" where
  "missing_fields_of x name candidates target has_time =
     (if ex_action x = None then [F_ACTION] else []) @
     (if name = None \<or> candidates \<noteq> [] then [F_VENUE_NAME] else []) @
     (if ex_party_size x = None then [F_PARTY_SIZE] else []) @
     (if target = None then [F_DATE] else []) @
     (if \<not> has_time then [F_TIME] else [])"

definition validate_intent :: "reservation_extraction \<Rightarrow> local_time \<Rightarrow> reservation_intent" where
  "validate_intent x ref =
     (let (name, kind, candidates) = resolve_venue_field x;
          (target, dp) = resolve_date x (lt_date ref);
          (pref, tw, tp) = resolve_time x ref target;
          has_time = (pref \<noteq> None \<or> tw \<noteq> None) \<and> tp \<noteq> Some Conflicting_time;
          missing = missing_fields_of x name candidates target has_time
      in if missing \<noteq> []
         then \<lparr>in_status = NEEDS_CLARIFICATION, in_route = CLARIFICATION, in_action = ex_action x,
               in_venue_name = name, in_venue_type = kind, in_market = MARKET,
               in_party_size = ex_party_size x, in_date = target, in_preferred_time = pref,
               in_time_window = tw, in_duration_minutes = ex_duration_minutes x,
               in_special_requests = ex_special_requests x, in_missing_fields = missing,
               in_clarification_question = Some (build_question missing dp tp candidates)\<rparr>
         else \<lparr>in_status = READY, in_route = route_for (ex_action x), in_action = ex_action x,
               in_venue_name = name, in_venue_type = kind, in_market = MARKET,
               in_party_size = ex_party_size x, in_date = target, in_preferred_time = pref,
               in_time_window = tw, in_duration_minutes = ex_duration_minutes x,
               in_special_requests = ex_special_requests x, in_missing_fields = [],
               in_clarification_question = None\<rparr>)"

text \<open>The query a ready intent is turned into; \<open>None\<close> is the \<^verbatim>\<open>ValueError\<close>.\<close>

definition query_from :: "reservation_intent \<Rightarrow> availability_query option" where
  "query_from i =
     (case (in_venue_name i, in_party_size i, in_date i) of
        (Some name, Some party, Some day) \<Rightarrow>
          (let q = \<lparr>q_venue_name = name, q_venue_type = in_venue_type i, q_market = in_market i,
                    q_party_size = party, q_date = day, q_preferred_time = in_preferred_time i,
                    q_time_window = in_time_window i, q_duration_minutes = in_duration_minutes i,
                    q_special_requests = in_special_requests i\<rparr>
           in if query_valid q then Some q else None)
      | _ \<Rightarrow> None)"

section \<open>The provider boundary and the engine\<close>

text \<open>
  How the OpenAI client answers one call: a raised error of one of three kinds, or a response whose
  parsed output is an extraction, nothing, or something else, with the refusals found in its contents.
\<close>

datatype client_answer =
  Rate_limited | Client_error | Value_error
| Responded "reservation_extraction option" "string option list list"
| Unexpected_type

datatype provider_error = Provider_error string | Provider_unavailable string

text \<open>\<^verbatim>\<open>_find_refusal\<close>: the first non-empty refusal, outputs in order.\<close>

definition find_refusal :: "string option list list \<Rightarrow> string option" where
  "find_refusal outputs =
     (case filter (\<lambda>r. r \<noteq> None \<and> r \<noteq> Some []) (concat outputs) of [] \<Rightarrow> None | r # _ \<Rightarrow> r)"

definition extract_intent :: "client_answer \<Rightarrow> provider_error + reservation_extraction" where
  "extract_intent answer =
     (case answer of
        Rate_limited \<Rightarrow>
          Inl (Provider_unavailable ''The reservation assistant is temporarily unavailable. Please try again in a little while.'')
      | Client_error \<Rightarrow> Inl (Provider_error ''The language model provider request failed'')
      | Value_error \<Rightarrow> Inl (Provider_error ''The language model returned invalid structured data'')
      | Responded (Some x) _ \<Rightarrow> Inr x
      | Responded None outputs \<Rightarrow>
          Inl (Provider_error (case find_refusal outputs of
                 None \<Rightarrow> ''The language model did not return structured data''
               | Some refusal \<Rightarrow> ''The language model refused the request: '' @ refusal))
      | Unexpected_type \<Rightarrow> Inl (Provider_error ''The language model returned an unexpected data type''))"

text \<open>\<^verbatim>\<open>OrchestratorEngine.parse\<close>; the reference time is already in the service's zone.\<close>

definition parse_prompt ::
  "(string \<Rightarrow> local_time \<Rightarrow> client_answer) \<Rightarrow> string \<Rightarrow> local_time \<Rightarrow> provider_error + reservation_intent" where
  "parse_prompt client prompt ref =
     (case extract_intent (client prompt ref) of
        Inl err \<Rightarrow> Inl err
      | Inr x \<Rightarrow> Inr (validate_intent x ref))"

end
