(* ===== verification/Booking_Service.thy ===== *)
theory Booking_Service
  imports Intents Watch_Lifecycle
begin

text \<open>
  Executing a validated intent: \<^verbatim>\<open>backend/services/booking_service.py\<close> (search, book, replay of an earlier
  booking under its idempotency key) and \<^verbatim>\<open>backend/orchestrator/router.py\<close> (watches go to the watch
  service). The awaits are those of \<open>Service_World\<close>. The idempotency key is SHA-256, a parameter, of a
  canonical JSON text, which is modelled to the character for text of single-byte characters.
\<close>

section \<open>Canonical JSON\<close>

definition hex_digit :: "nat \<Rightarrow> char" where
  "hex_digit n = (if n < 10 then char_of (48 + n) else char_of (87 + n))"

definition json_escape :: "char \<Rightarrow> string" where
  "json_escape c =
     (let n = (of_char c :: nat) in
      if n = 34 then [CHR 0x5C, CHR 0x22]
      else if n = 92 then [CHR 0x5C, CHR 0x5C]
      else if n = 10 then [CHR 0x5C, CHR ''n'']
      else if n = 13 then [CHR 0x5C, CHR ''r'']
      else if n = 9 then [CHR 0x5C, CHR ''t'']
      else if n = 12 then [CHR 0x5C, CHR ''f'']
      else if n = 8 then [CHR 0x5C, CHR ''b'']
      else if 32 \<le> n \<and> n \<le> 126 then [c]
      else [CHR 0x5C, CHR ''u'', CHR ''0'', CHR ''0'', hex_digit (n div 16), hex_digit (n mod 16)])"

definition json_string :: "string \<Rightarrow> string" where
  "json_string s = CHR 0x22 # concat (map json_escape s) @ [CHR 0x22]"

definition json_option :: "('a \<Rightarrow> string) \<Rightarrow> 'a option \<Rightarrow> string" where
  "json_option enc x = (case x of None \<Rightarrow> ''null'' | Some v \<Rightarrow> enc v)"

definition json_list :: "('a \<Rightarrow> string) \<Rightarrow> 'a list \<Rightarrow> string" where
  "json_list enc xs = ''['' @ join_with '','' (map enc xs) @ '']''"

text \<open>\<^verbatim>\<open>json.dumps(..., sort_keys=True, separators=(",", ":"))\<close> of an object whose values are encoded already.\<close>

definition json_object :: "(string \<times> string) list \<Rightarrow> string" where
  "json_object kvs =
     ''{'' @ join_with '','' (map (\<lambda>(k, v). json_string k @ '':'' @ v) (sort_key fst kvs)) @ ''}''"

fun action_value :: "intent_action \<Rightarrow> string" where
  "action_value BOOK_RESERVATION = ''BOOK_RESERVATION''"
| "action_value SEARCH_AVAILABILITY = ''SEARCH_AVAILABILITY''"
| "action_value CREATE_WATCH = ''CREATE_WATCH''"

fun venue_type_value :: "venue_type \<Rightarrow> string" where
  "venue_type_value RESTAURANT = ''RESTAURANT''"
| "venue_type_value RECREATION = ''RECREATION''"
| "venue_type_value UNKNOWN_VENUE_TYPE = ''UNKNOWN''"

definition json_window :: "time_window \<Rightarrow> string" where
  "json_window w = json_object [(''start'', json_string (tw_start w)), (''end'', json_string (tw_end w))]"

definition booking_identity ::
  "intent_action option \<Rightarrow> availability_query \<Rightarrow> string \<Rightarrow> string" where
  "booking_identity act q scope =
     json_object
       [(''owner'', json_string scope),
        (''action'', json_option (json_string \<circ> action_value) act),
        (''venue_name'', json_string (casefold (q_venue_name q))),
        (''venue_type'', json_string (venue_type_value (q_venue_type q))),
        (''market'', json_string (q_market q)),
        (''party_size'', show_int (q_party_size q)),
        (''date'', json_string (q_date q)),
        (''preferred_time'', json_option json_string (q_preferred_time q)),
        (''time_window'', json_option json_window (q_time_window q)),
        (''duration_minutes'', json_option show_int (q_duration_minutes q)),
        (''special_requests'', json_list json_string (sort (map casefold (q_special_requests q))))]"

definition booking_key ::
  "(string \<Rightarrow> string) \<Rightarrow> intent_action option \<Rightarrow> availability_query \<Rightarrow> string \<Rightarrow> string" where
  "booking_key sha256hex act q scope = sha256hex (booking_identity act q scope)"

text \<open>Whose retries are the same request: the account, else the browser, else nobody's.\<close>

definition booking_scope :: "string option \<Rightarrow> string option \<Rightarrow> string \<Rightarrow> string" where
  "booking_scope owner user hex =
     (case user of
        Some u \<Rightarrow> ''account:'' @ u
      | None \<Rightarrow> (case owner of
                   Some c \<Rightarrow> if c \<noteq> [] then ''client:'' @ c else ''request:'' @ hex
                 | None \<Rightarrow> ''request:'' @ hex))"

section \<open>Results\<close>

datatype execution_status =
  CLARIFICATION_REQUIRED | AVAILABILITY_FOUND | NO_AVAILABILITY | MOCK_BOOKED | WATCH_REQUIRED | WATCH_CREATED

record execution_result =
  xr_status :: execution_status
  xr_intent :: reservation_intent
  xr_slots :: "availability_slot list"
  xr_booking :: "booking_confirmation option"
  xr_watch_id :: "string option"
  xr_message :: string

definition result_valid :: "execution_result \<Rightarrow> bool" where
  "result_valid r \<longleftrightarrow>
     list_all slot_valid (xr_slots r) \<and> opt_all confirmation_valid (xr_booking r) \<and>
     opt_all (sized 200) (xr_watch_id r) \<and> sized 500 (xr_message r) \<and>
     (xr_status r = MOCK_BOOKED) = (xr_booking r \<noteq> None) \<and>
     (xr_status r = CLARIFICATION_REQUIRED \<longrightarrow> \<not> is_ready (xr_intent r)) \<and>
     (xr_status r = WATCH_CREATED) = (xr_watch_id r \<noteq> None)"

definition plain_result ::
  "execution_status \<Rightarrow> reservation_intent \<Rightarrow> availability_slot list \<Rightarrow> string \<Rightarrow> execution_result" where
  "plain_result st i slots msg =
     \<lparr>xr_status = st, xr_intent = i, xr_slots = slots, xr_booking = None, xr_watch_id = None, xr_message = msg\<rparr>"

definition booked_result ::
  "reservation_intent \<Rightarrow> availability_slot list \<Rightarrow> booking_confirmation \<Rightarrow> string \<Rightarrow> execution_result" where
  "booked_result i slots b msg =
     \<lparr>xr_status = MOCK_BOOKED, xr_intent = i, xr_slots = slots, xr_booking = Some b, xr_watch_id = None,
      xr_message = msg\<rparr>"

text \<open>
  What a request can raise: the adapter's error, any other exception of a provider call, a
  \<^verbatim>\<open>ValueError\<close>, or what the watch service raises.
\<close>

datatype execution_error =
  Adapter_raised adapter_error | Call_broke | Bad_intent | Watch_raised service_error | Bad_policy model_error

type_synonym ('p, 'a) exec = "'p world \<Rightarrow> (execution_error + 'a) \<times> 'p world"

fun execution_failure :: "seq_exc \<Rightarrow> execution_error" where
  "execution_failure (Raised err) = Adapter_raised err"
| "execution_failure Broke = Call_broke"
| "execution_failure Timed_out = Call_broke"

definition exec_ask ::
  "'p env \<Rightarrow> (time \<Rightarrow> 'p \<Rightarrow> (adapter_error + 'a) \<times> 'p) \<Rightarrow> ('p, 'a) exec" where
  "exec_ask e f s =
     (case call_provider e f s of (Inl ex, s1) \<Rightarrow> (Inl (execution_failure ex), s1) | (Inr x, s1) \<Rightarrow> (Inr x, s1))"

definition exec_then :: "('p, 'a) exec \<Rightarrow> ('a \<Rightarrow> ('p, 'b) exec) \<Rightarrow> ('p, 'b) exec" where
  "exec_then m f s = (case m s of (Inl err, s1) \<Rightarrow> (Inl err, s1) | (Inr x, s1) \<Rightarrow> f x s1)"

definition exec_return :: "'a \<Rightarrow> ('p, 'a) exec" where
  "exec_return x s = (Inr x, s)"

section \<open>The booking service\<close>

definition REPLAY_MESSAGE :: string where
  "REPLAY_MESSAGE = ''Returning the existing mock reservation for this idempotent request. No real venue or booking provider was contacted.''"

definition replayed_booking ::
  "'p env \<Rightarrow> reservation_intent \<Rightarrow> string option \<Rightarrow> ('p, execution_result option) exec" where
  "replayed_booking e i key =
     (case key of
        None \<Rightarrow> exec_return None
      | Some k \<Rightarrow>
          exec_then (exec_ask e (\<lambda>now. get_booking (provider e) now k))
            (\<lambda>existing. exec_return (map_option (\<lambda>b. booked_result i [bk_slot b] b REPLAY_MESSAGE) existing)))"

text \<open>A slot lost between the search and the booking falls through to the next.\<close>

fun book_slots ::
  "'p env \<Rightarrow> string \<Rightarrow> availability_slot list \<Rightarrow> ('p, booking_confirmation option) exec" where
  "book_slots e key [] = exec_return None"
| "book_slots e key (slot # slots) =
     (\<lambda>s. case call_provider e (\<lambda>now. book_slot (provider e) now (slot_id slot) key) s of
            (Inr b, s1) \<Rightarrow> (Inr (Some b), s1)
          | (Inl (Raised (Slot_Unavailable _)), s1) \<Rightarrow> book_slots e key slots s1
          | (Inl (Raised (Slot_Not_Found _)), s1) \<Rightarrow> book_slots e key slots s1
          | (Inl ex, s1) \<Rightarrow> (Inl (execution_failure ex), s1))"

text \<open>\<^verbatim>\<open>replayed if replayed is not None else ...\<close>.\<close>

definition or_replayed ::
  "'p env \<Rightarrow> reservation_intent \<Rightarrow> string option \<Rightarrow> ('p, execution_result) exec \<Rightarrow> ('p, execution_result) exec" where
  "or_replayed e i key otherwise =
     exec_then (replayed_booking e i key)
       (\<lambda>replayed. case replayed of Some r \<Rightarrow> exec_return r | None \<Rightarrow> otherwise)"

definition search_and_book ::
  "'p env \<Rightarrow> reservation_intent \<Rightarrow> availability_query \<Rightarrow> string option \<Rightarrow> ('p, execution_result) exec" where
  "search_and_book e i q key =
     exec_then (exec_ask e (\<lambda>now. search_availability (provider e) now q))
       (\<lambda>slots.
          if slots = [] then
            or_replayed e i key (exec_return (plain_result NO_AVAILABILITY i []
              ''No availability matched the request. (mock search only returns one slot for testing purposes.)''))
          else if in_action i = Some SEARCH_AVAILABILITY then
            exec_return (plain_result AVAILABILITY_FOUND i slots
              (''Found '' @ show_int (int (length slots)) @ '' mock availability slot(s).''))
          else
            (case key of
               None \<Rightarrow> (\<lambda>s. (Inl Bad_intent, s))
             | Some k \<Rightarrow>
                 exec_then (book_slots e k slots)
                   (\<lambda>made. case made of
                      Some b \<Rightarrow> exec_return (booked_result i slots b
                        ''Mock reservation confirmed. No real venue or booking provider was contacted.'')
                    | None \<Rightarrow> or_replayed e i key (exec_return (plain_result NO_AVAILABILITY i []
                        ''Every matching mock slot was taken before the booking completed.'')))))"

definition booking_execute ::
  "(string \<Rightarrow> string) \<Rightarrow> 'p env \<Rightarrow> reservation_intent \<Rightarrow> string option \<Rightarrow> string option \<Rightarrow> ('p, execution_result) exec" where
  "booking_execute sha256hex e i owner user =
     (if \<not> is_ready i then
        exec_return (plain_result CLARIFICATION_REQUIRED i []
          (case in_clarification_question i of
             Some msg \<Rightarrow> if msg \<noteq> [] then msg else ''More information is required.''
           | None \<Rightarrow> ''More information is required.''))
      else if in_route i = WATCH_SERVICE then
        exec_return (plain_result WATCH_REQUIRED i []
          ''This request needs background monitoring. Route it through the watch service rather than the booking service.'')
      else
        (case query_from i of
           None \<Rightarrow> (\<lambda>s. (Inl Bad_intent, s))
         | Some q \<Rightarrow>
             if in_action i = Some BOOK_RESERVATION
             then (\<lambda>s. let key = booking_key sha256hex (in_action i) q
                              (booking_scope owner user (uuid4_hex e (w_awaits s)))
                       in or_replayed e i (Some key) (search_and_book e i q (Some key)) s)
             else search_and_book e i q None))"

section \<open>The router\<close>

definition watch_message :: "watch \<Rightarrow> availability_policy \<Rightarrow> string" where
  "watch_message w p =
     ''Watching '' @ q_venue_name (w_query w) @ '' for '' @ show_int (q_party_size (w_query w)) @ '' on '' @
     q_date (w_query w) @ ''. '' @
     (if supports_deadline p then ''Background checks run every few minutes until a slot opens or the date passes.''
      else ''Background checks run every few minutes for up to '' @ show_int (effective_attempts p) @
        '' availability checks; monitoring may stop before '' @ q_date (w_query w) @ ''.'')"

text \<open>\<^verbatim>\<open>WatchService.create_from_intent\<close>.\<close>

definition create_from_intent ::
  "'p env \<Rightarrow> service_config \<Rightarrow> reservation_intent \<Rightarrow> bool \<Rightarrow> string option \<Rightarrow> string option \<Rightarrow> ('p, watch) exec" where
  "create_from_intent e cfg i auto owner user s =
     (case (if is_ready i then query_from i else None) of
        None \<Rightarrow> (Inl Bad_intent, s)
      | Some q \<Rightarrow>
          (case service_create e cfg q auto owner user s of
             (Inl err, s1) \<Rightarrow> (Inl (Watch_raised err), s1)
           | (Inr w, s1) \<Rightarrow> (Inr w, s1)))"

text \<open>\<^verbatim>\<open>_create_watch\<close>: the truthful description of the policy of the watch that was stored.\<close>

definition create_watch_from_intent ::
  "'p env \<Rightarrow> service_config \<Rightarrow> reservation_intent \<Rightarrow> string option \<Rightarrow> string option \<Rightarrow> ('p, execution_result) exec" where
  "create_watch_from_intent e cfg i owner user =
     exec_then (create_from_intent e cfg i False owner user)
       (\<lambda>w s. case describe_policy (schedule cfg) w of
          Inl err \<Rightarrow> (Inl (Bad_policy err), s)
        | Inr p \<Rightarrow>
            (Inr \<lparr>xr_status = WATCH_CREATED, xr_intent = i, xr_slots = [], xr_booking = None,
                  xr_watch_id = Some (watch_id w), xr_message = watch_message w p\<rparr>, s))"

definition prompt_execute ::
  "(string \<Rightarrow> string) \<Rightarrow> 'p env \<Rightarrow> service_config \<Rightarrow> reservation_intent \<Rightarrow> string option \<Rightarrow> string option \<Rightarrow>
   ('p, execution_result) exec" where
  "prompt_execute sha256hex e cfg i owner user =
     (if is_ready i \<and> in_route i = WATCH_SERVICE then create_watch_from_intent e cfg i owner user
      else booking_execute sha256hex e i owner user)"

end
