(* ===== verification/Api_Routes.thy ===== *)
theory Api_Routes
  imports Auth_Service Booking_Service
begin

text \<open>
  The HTTP layer that decides who may see and change what: \<^verbatim>\<open>backend/api/client_identity.py\<close>,
  \<^verbatim>\<open>backend/api/dependencies.py\<close> and the routes of \<^verbatim>\<open>backend/api/routes\<close>. FastAPI's routing and
  serialisation are not modelled: a route is a function from the parsed request to a response or the
  exception it raises. The watch service and the database have worlds of their own, paused separately.
\<close>

section \<open>Who is asking\<close>

definition client_id_char :: "char \<Rightarrow> bool" where
  "client_id_char c \<longleftrightarrow> is_alnum c \<or> c = CHR ''_'' \<or> c = CHR ''-''"

definition extract_client_id :: "string option \<Rightarrow> string option" where
  "extract_client_id raw =
     (case raw of
        None \<Rightarrow> None
      | Some s \<Rightarrow>
          (let candidate = strip s in
           if 1 \<le> length candidate \<and> length candidate \<le> 200 \<and> list_all client_id_char candidate
           then Some candidate else None))"

definition non_empty :: "string \<Rightarrow> string option" where
  "non_empty s = (if s = [] then None else Some s)"

definition bearer_token :: "string option \<Rightarrow> string option" where
  "bearer_token authorization =
     (case authorization of
        None \<Rightarrow> None
      | Some h \<Rightarrow> if is_prefix ''bearer '' (casefold h) then non_empty (strip (drop 7 h)) else None)"

text \<open>The parts of \<^verbatim>\<open>app.state\<close> the routes read: accounts and the projection may be unconfigured.\<close>

record 'p app_env =
  app_auth :: auth_env
  app_service :: "'p env"
  app_config :: service_config
  app_accounts :: bool
  app_history :: bool

record 'p app =
  st_auth :: auth_world
  st_world :: "'p world"

datatype api_error =
  Not_found string | Unprocessable string | Accounts_unavailable | Rate_limited_login
| Auth_raised auth_error | Service_raised service_error | Policy_raised model_error

type_synonym ('p, 'a) route = "'p app \<Rightarrow> (api_error + 'a) \<times> 'p app"

definition on_auth :: "'a auth \<Rightarrow> ('p, 'a) route" where
  "on_auth m s = (let (res, a) = m (st_auth s) in
     ((case res of Inl err \<Rightarrow> Inl (Auth_raised err) | Inr x \<Rightarrow> Inr x), s\<lparr>st_auth := a\<rparr>))"

definition on_service :: "('p world \<Rightarrow> (service_error + 'a) \<times> 'p world) \<Rightarrow> ('p, 'a) route" where
  "on_service m s = (let (res, w) = m (st_world s) in
     ((case res of Inl err \<Rightarrow> Inl (Service_raised err) | Inr x \<Rightarrow> Inr x), s\<lparr>st_world := w\<rparr>))"

definition route_then :: "('p, 'a) route \<Rightarrow> ('a \<Rightarrow> ('p, 'b) route) \<Rightarrow> ('p, 'b) route" where
  "route_then m f s = (case m s of (Inl err, s1) \<Rightarrow> (Inl err, s1) | (Inr x, s1) \<Rightarrow> f x s1)"

definition route_return :: "'a \<Rightarrow> ('p, 'a) route" where "route_return x s = (Inr x, s)"
definition route_raise :: "api_error \<Rightarrow> ('p, 'a) route" where "route_raise err s = (Inl err, s)"

definition current_user :: "'p app_env \<Rightarrow> string option \<Rightarrow> ('p, user option) route" where
  "current_user e authorization =
     (if \<not> app_accounts e then route_return None
      else on_auth (authenticate (app_auth e) (bearer_token authorization)))"

definition require_user :: "user option \<Rightarrow> ('p, user) route" where
  "require_user u = (case u of None \<Rightarrow> route_raise (Auth_raised Authentication_required) | Some x \<Rightarrow> route_return x)"

section \<open>Watches\<close>

text \<open>\<^verbatim>\<open>WatchService.get\<close> and \<^verbatim>\<open>list\<close>.\<close>

definition service_get :: "'p env \<Rightarrow> string \<Rightarrow> 'p world \<Rightarrow> (service_error + watch option) \<times> 'p world" where
  "service_get e wid = read_repo e (repo_get wid)"

definition service_list :: "'p env \<Rightarrow> bool \<Rightarrow> 'p world \<Rightarrow> (service_error + watch list) \<times> 'p world" where
  "service_list e active_only = read_repo e (if active_only then list_active else list_all_watches)"

definition unknown_watch :: "string \<Rightarrow> api_error" where
  "unknown_watch wid = Not_found (''Unknown watch: '' @ wid)"

definition forbid_if_owned_by_another ::
  "'p app_env \<Rightarrow> string \<Rightarrow> user option \<Rightarrow> ('p, unit) route" where
  "forbid_if_owned_by_another e wid u =
     (if \<not> app_history e then route_return ()
      else
        route_then (on_auth (auth_read (app_auth e) (get_account_owner wid)))
          (\<lambda>owner. case owner of
             None \<Rightarrow> route_return ()
           | Some a \<Rightarrow> if u = None \<or> (\<exists>x. u = Some x \<and> usr_id x \<noteq> a) then route_raise (unknown_watch wid)
                       else route_return ()))"

definition found_or_404 :: "string \<Rightarrow> watch option \<Rightarrow> ('p, watch) route" where
  "found_or_404 wid w = (case w of None \<Rightarrow> route_raise (unknown_watch wid) | Some x \<Rightarrow> route_return x)"

definition read_watch :: "'p app_env \<Rightarrow> string \<Rightarrow> user option \<Rightarrow> ('p, watch) route" where
  "read_watch e wid u =
     route_then (forbid_if_owned_by_another e wid u) (\<lambda>_.
     route_then (on_service (service_get (app_service e) wid)) (found_or_404 wid))"

definition cancel_watch :: "'p app_env \<Rightarrow> string \<Rightarrow> user option \<Rightarrow> ('p, watch) route" where
  "cancel_watch e wid u =
     route_then (forbid_if_owned_by_another e wid u) (\<lambda>_.
     route_then (on_service (service_cancel (app_service e) (app_config e) wid)) (found_or_404 wid))"

text \<open>\<^verbatim>\<open>list_my_watches\<close>: the default limit of the repository is 100.\<close>

definition list_my_watches :: "'p app_env \<Rightarrow> user option \<Rightarrow> string option \<Rightarrow> ('p, watch list) route" where
  "list_my_watches e u header =
     (if \<not> app_history e then route_return []
      else
        (let listing = (\<lambda>f. on_auth (auth_query (app_auth e) (\<lambda>_ db. (f db, db)))) in
         case u of
           Some x \<Rightarrow> listing (list_for_user (usr_id x) 100)
         | None \<Rightarrow> (case extract_client_id header of
                      None \<Rightarrow> route_return []
                    | Some c \<Rightarrow> listing (list_for_owner c 100))))"

text \<open>The headers that disclose the monitoring policy.\<close>

definition policy_headers :: "availability_policy \<Rightarrow> (string \<times> string) list" where
  "policy_headers p =
     [(''X-Watch-Monitoring-Policy'', monitoring_policy_header p),
      (''X-Watch-Max-Availability-Checks'', show_int (effective_attempts p))] @
     (if is_attempt_limited p
      then [(''Warning'', ''199 - '' @ [CHR 0x22] @ ''Monitoring may stop after '' @ show_int (effective_attempts p) @
               '' availability checks, before the reservation date.'' @ [CHR 0x22])]
      else [])"

text \<open>The body is a validated query, so its date parses.\<close>

definition create_watch ::
  "'p app_env \<Rightarrow> availability_query \<Rightarrow> bool \<Rightarrow> user option \<Rightarrow> string option \<Rightarrow>
   ('p, watch \<times> (string \<times> string) list) route" where
  "create_watch e q auto u header s =
     (case fromisoformat (q_date q) of
        None \<Rightarrow> (Inl (Unprocessable ''date''), s)
      | Some d \<Rightarrow>
          if d < local_date (app_service e) (w_now (st_world s))
          then (Inl (Unprocessable (''Cannot watch a reservation date in the past: '' @ q_date q)), s)
          else
            (let (res, w) = service_create (app_service e) (app_config e) q auto (extract_client_id header)
                              (map_option usr_id u) (st_world s); s1 = s\<lparr>st_world := w\<rparr>
             in case res of
                  Inl err \<Rightarrow> (Inl (Service_raised err), s1)
                | Inr made \<Rightarrow>
                    (case describe_policy (schedule (app_config e)) made of
                       Inl err \<Rightarrow> (Inl (Policy_raised err), s1)
                     | Inr p \<Rightarrow> (Inr (made, policy_headers p), s1))))"

section \<open>Accounts\<close>

text \<open>\<^verbatim>\<open>_claim_anonymous_watches\<close>: best effort, a failure is logged.\<close>

definition claim_watches :: "'p app_env \<Rightarrow> user \<Rightarrow> string option \<Rightarrow> 'p app \<Rightarrow> 'p app" where
  "claim_watches e u header s =
     (case (extract_client_id header, app_history e) of
        (Some c, True) \<Rightarrow>
          s\<lparr>st_auth := snd (auth_query (app_auth e) (\<lambda>_. claim_anonymous c (usr_id u)) (st_auth s))\<rparr>
      | _ \<Rightarrow> s)"

definition signup_route ::
  "'p app_env \<Rightarrow> account_settings \<Rightarrow> string \<Rightarrow> string \<Rightarrow> string option \<Rightarrow> ('p, user \<times> string) route" where
  "signup_route e cfg email password header s =
     (if \<not> app_accounts e then (Inl Accounts_unavailable, s)
      else
        (case on_auth (signup (app_auth e) cfg email password) s of
           (Inl err, s1) \<Rightarrow> (Inl err, s1)
         | (Inr (u, token), s1) \<Rightarrow> (Inr (u, token), claim_watches e u header s1)))"

text \<open>
  The login route around the in-process throttles. \<open>mono n\<close> is the n-th reading of the monotonic clock
  and \<open>tok n\<close> the n-th reservation; a throttle may be absent, and the one per address is skipped for a
  peer that is a proxy.
\<close>

record login_limits =
  lim_email :: "throttle_config option"
  lim_ip :: "throttle_config option"
  lim_parse :: "string \<Rightarrow> ip_info option"
  lim_mono :: "nat \<Rightarrow> seconds"
  lim_token :: "nat \<Rightarrow> string"

record login_windows =
  lw_email :: windows
  lw_ip :: windows

definition reserve ::
  "throttle_config option \<Rightarrow> seconds \<Rightarrow> string \<Rightarrow> string \<Rightarrow> windows \<Rightarrow> admission \<times> windows" where
  "reserve th now token key w = (case th of None \<Rightarrow> (Untracked, w) | Some c \<Rightarrow> throttle_consume c now token key w)"

definition reserved :: "admission \<Rightarrow> string option" where
  "reserved a = (case a of Admitted t \<Rightarrow> Some t | _ \<Rightarrow> None)"

definition unreserve ::
  "throttle_config option \<Rightarrow> seconds \<Rightarrow> admission \<Rightarrow> string \<Rightarrow> windows \<Rightarrow> windows" where
  "unreserve th now a key w = (case th of None \<Rightarrow> w | Some c \<Rightarrow> throttle_release c now (reserved a) key w)"

text \<open>
  Past the throttles: a wrong password keeps both reservations, any other failure gives them back, and a
  success forgets the address's window but only its own reservation of the peer's.
\<close>

definition attempt_login ::
  "'p app_env \<Rightarrow> account_settings \<Rightarrow> login_limits \<Rightarrow> throttle_config option \<Rightarrow> string \<Rightarrow> string \<Rightarrow> string option \<Rightarrow>
   string option \<Rightarrow> admission \<Rightarrow> admission \<Rightarrow> login_windows \<Rightarrow> 'p app \<Rightarrow>
   (api_error + user \<times> string) \<times> login_windows \<times> 'p app" where
  "attempt_login e cfg l ip email password peer header ea ia ws s =
     (case on_auth (login (app_auth e) cfg email password) s of
        (Inl (Auth_raised Invalid_credentials), s1) \<Rightarrow> (Inl (Auth_raised Invalid_credentials), ws, s1)
      | (Inl err, s1) \<Rightarrow>
          (Inl err,
           ws\<lparr>lw_email := unreserve (lim_email l) (lim_mono l 2) ea (login_email_key email) (lw_email ws),
              lw_ip := unreserve ip (lim_mono l 3) ia (login_ip_key peer) (lw_ip ws)\<rparr>, s1)
      | (Inr (u, token), s1) \<Rightarrow>
          (Inr (u, token),
           ws\<lparr>lw_email := (if lim_email l = None then lw_email ws else throttle_reset (login_email_key email) (lw_email ws)),
              lw_ip := unreserve ip (lim_mono l 2) ia (login_ip_key peer) (lw_ip ws)\<rparr>,
           claim_watches e u header s1))"

definition login_route ::
  "'p app_env \<Rightarrow> account_settings \<Rightarrow> login_limits \<Rightarrow> string \<Rightarrow> string \<Rightarrow> string option \<Rightarrow> string option \<Rightarrow>
   login_windows \<Rightarrow> 'p app \<Rightarrow> (api_error + user \<times> string) \<times> login_windows \<times> 'p app" where
  "login_route e cfg l email password peer header ws s =
     (if \<not> app_accounts e then (Inl Accounts_unavailable, ws, s)
      else
        (let email_key = login_email_key email; ip_key = login_ip_key peer;
             ip = (if is_internal_address (lim_parse l) peer then None else lim_ip l);
             (ea, we) = reserve (lim_email l) (lim_mono l 0) (lim_token l 0) email_key (lw_email ws)
         in if ea = Refused then (Inl Rate_limited_login, ws\<lparr>lw_email := we\<rparr>, s)
            else
              (let (ia, wi) = reserve ip (lim_mono l 1) (lim_token l 1) ip_key (lw_ip ws)
               in if ia = Refused
                  then (Inl Rate_limited_login,
                        ws\<lparr>lw_email := unreserve (lim_email l) (lim_mono l 2) ea email_key we, lw_ip := wi\<rparr>, s)
                  else attempt_login e cfg l ip email password peer header ea ia (ws\<lparr>lw_email := we, lw_ip := wi\<rparr>) s)))"

definition logout_route :: "'p app_env \<Rightarrow> string option \<Rightarrow> ('p, unit) route" where
  "logout_route e authorization =
     (if \<not> app_accounts e then route_raise Accounts_unavailable
      else (case bearer_token authorization of
              None \<Rightarrow> route_return ()
            | Some token \<Rightarrow> on_auth (logout (app_auth e) token)))"

definition me_route :: "'p app_env \<Rightarrow> string option \<Rightarrow> ('p, user) route" where
  "me_route e authorization =
     (if \<not> app_accounts e then route_raise Accounts_unavailable
      else route_then (on_auth (authenticate (app_auth e) (bearer_token authorization))) require_user)"

end
