(* ===== verification/Account_Db_Properties.thy ===== *)
theory Account_Db_Properties
  imports Account_Db Scenario
begin

text \<open>
  What every sequence of statements keeps of the tables, how the projection of a watch's outcomes
  converges whatever order they arrive in, and who can come to own a row.
\<close>

section \<open>Lookups\<close>

lemma find_key:
  "distinct (map f xs) \<Longrightarrow> find (\<lambda>x. f x = k) xs = Some y \<longleftrightarrow> y \<in> set xs \<and> f y = k"
  by (induction xs) auto

lemma find_none: "find (\<lambda>x. f x = k) xs = None \<longleftrightarrow> k \<notin> f ` set xs"
  by (auto simp: find_None_iff)

lemma find_append: "find P (xs @ ys) = (case find P xs of None \<Rightarrow> find P ys | Some x \<Rightarrow> Some x)"
  by (induction xs) auto

lemma user_exists_frame [simp]:
  "user_exists (db\<lparr>db_sessions := s\<rparr>) = user_exists db" "user_exists (db\<lparr>db_history := h\<rparr>) = user_exists db"
  by (rule ext, simp add: user_exists_def)+

lemma references_ok_frame [simp]:
  "references_ok (db\<lparr>db_sessions := s\<rparr>) = references_ok db" "references_ok (db\<lparr>db_history := h\<rparr>) = references_ok db"
  by (rule ext, simp add: references_ok_def split: option.split)+

lemma references_ok_mono: "(\<And>u. user_exists db u \<Longrightarrow> user_exists db' u) \<Longrightarrow> references_ok db x \<Longrightarrow> references_ok db' x"
  by (auto simp: references_ok_def split: option.splits)

lemma row_ok_new: "row_ok (history_row_of w owner user rvn)"
  by (simp add: row_ok_def history_row_of_def)

lemma merge_row_fields [simp]:
  "hr_watch_id (merge_row new old) = hr_watch_id new" "hr_status (merge_row new old) = hr_status new"
  "hr_updated_at (merge_row new old) = hr_updated_at new" "hr_watch (merge_row new old) = hr_watch new"
  "hr_revision (merge_row new old) = hr_revision new" "hr_expires_at (merge_row new old) = hr_expires_at new"
  "hr_owner (merge_row new old) = or_else (hr_owner new) (hr_owner old)"
  "hr_user (merge_row new old) = or_else (hr_user new) (hr_user old)"
  by (simp_all add: merge_row_def)

lemma history_row_fields [simp]:
  "hr_watch_id (history_row_of w owner user rvn) = watch_id w" "hr_status (history_row_of w owner user rvn) = w_status w"
  "hr_watch (history_row_of w owner user rvn) = w" "hr_user (history_row_of w owner user rvn) = user"
  "hr_owner (history_row_of w owner user rvn) = owner" "hr_revision (history_row_of w owner user rvn) = rvn"
  by (simp_all add: history_row_of_def)

section \<open>Integrity\<close>

lemma database_ok_empty: "database_ok empty_database"
  by (simp add: database_ok_def empty_database_def)

text \<open>Rows of the projection keep their keys when each is replaced by one for the same watch.\<close>

lemma history_map_ok:
  assumes "database_ok db" and "\<And>r. r \<in> set (db_history db) \<Longrightarrow> hr_watch_id (f r) = hr_watch_id r \<and> row_ok (f r) \<and> references_ok db (hr_user (f r))"
  shows "database_ok (db\<lparr>db_history := map f (db_history db)\<rparr>)"
proof -
  have ids: "map (hr_watch_id \<circ> f) (db_history db) = map hr_watch_id (db_history db)" using assms(2) by simp
  show ?thesis using assms by (auto simp: database_ok_def ids)
qed

lemma history_record_ok:
  assumes ok: "database_ok db"
  shows "database_ok (snd (history_record w owner user rvn db))"
proof (cases "history_of db (watch_id w)")
  case None
  then have "watch_id w \<notin> hr_watch_id ` set (db_history db)" by (simp add: history_of_def find_none)
  with ok None row_ok_new [of w owner user rvn] show ?thesis
    by (auto simp: history_record_def Let_def database_ok_def)
next
  case (Some old)
  let ?new = "merge_row (history_row_of w owner user rvn) old"
  have "row_ok ?new" using row_ok_new [of w owner user rvn] by (simp add: row_ok_def)
  with ok have "database_ok (db\<lparr>db_history := replace_row (watch_id w) ?new (db_history db)\<rparr>)"
    if "references_ok db (hr_user ?new)"
    unfolding replace_row_def using that by (intro history_map_ok) (auto simp: database_ok_def)
  with ok Some show ?thesis by (simp add: history_record_def Let_def)
qed

lemma claim_ok: "database_ok db \<Longrightarrow> database_ok (snd (claim_anonymous owner uid db))"
proof -
  assume ok: "database_ok db"
  have "database_ok (db\<lparr>db_history := map (\<lambda>r. if claimable owner r then r\<lparr>hr_user := Some uid\<rparr> else r) (db_history db)\<rparr>)"
    if "list_ex (claimable owner) (db_history db) \<longrightarrow> user_exists db uid"
    using ok that by (intro history_map_ok [OF ok])
      (auto simp: database_ok_def row_ok_def references_ok_def list_ex_iff)
  with ok show ?thesis by (auto simp: claim_anonymous_def)
qed

lemma create_user_ok:
  assumes ok: "database_ok db"
  shows "database_ok (snd (create_user uuid now email h db))"
proof -
  have grow: "user_exists db u \<Longrightarrow> user_exists (db\<lparr>db_users := db_users db @ xs\<rparr>) u" for u xs
    by (auto simp: user_exists_def)
  have "references_ok db x \<Longrightarrow> references_ok (db\<lparr>db_users := db_users db @ xs\<rparr>) x" for x xs
    using grow by (rule references_ok_mono)
  with ok grow show ?thesis
    by (auto simp: create_user_def Let_def database_ok_def user_exists_def)
qed

lemma db_step_ok: "db_step db db' \<Longrightarrow> database_ok db \<Longrightarrow> database_ok db'"
proof (induction rule: db_step.induct)
  case (create_user_step db uuid now email h)
  then show ?case by (rule create_user_ok)
next
  case (record_step db w owner user rvn)
  then show ?case by (rule history_record_ok)
next
  case (claim_step db owner uid)
  then show ?case by (rule claim_ok)
qed (auto simp: database_ok_def create_session_def revoke_def revoke_all_for_user_def Let_def distinct_map_filter)

lemma db_runs_ok: "db_runs db db' \<Longrightarrow> database_ok db \<Longrightarrow> database_ok db'"
  by (induction rule: rtranclp_induct) (auto intro: db_step_ok)

text \<open>
  C25. The database stays consistent whatever statements run in whatever order: no two accounts share an
  identifier or an address, no two sessions a token hash, sessions and projected watches refer to
  existing accounts, and a projected row's columns are those of its document.
\<close>

theorem database_stays_consistent:
  assumes "db_runs empty_database db"
  shows "database_ok db"
  by (rule db_runs_ok [OF assms database_ok_empty])

section \<open>Projecting outcomes\<close>

definition project_call :: "history_call \<Rightarrow> database \<Rightarrow> database" where
  "project_call c db = snd (history_record (hc_watch c) (hc_owner c) (hc_user c) (hc_revision c) db)"

lemma project_call_ok: "database_ok db \<Longrightarrow> database_ok (project_call c db)"
  by (simp add: project_call_def history_record_ok)

lemma project_call_users [simp]: "db_users (project_call c db) = db_users db"
  by (auto simp: project_call_def history_record_def Let_def split: option.split)

lemma user_exists_project [simp]: "user_exists (project_call c db) = user_exists db"
  by (rule ext) (simp add: user_exists_def)

lemma references_project [simp]: "references_ok (project_call c db) = references_ok db"
  by (rule ext) (simp add: references_ok_def split: option.split)

lemma project_fold: "db_users (fold project_call cs db) = db_users db" "database_ok db \<Longrightarrow> database_ok (fold project_call cs db)"
  by (induction cs arbitrary: db) (simp_all add: project_call_ok)

lemma history_of_iff:
  "database_ok db \<Longrightarrow> history_of db wid = Some r \<longleftrightarrow> r \<in> set (db_history db) \<and> hr_watch_id r = wid"
  by (simp add: history_of_def find_key database_ok_def)

lemma history_of_replace:
  assumes "database_ok db" and "history_of db wid = Some old" and "hr_watch_id new = wid"
  shows "history_of (db\<lparr>db_history := replace_row wid new (db_history db)\<rparr>) k = (if k = wid then Some new else history_of db k)"
proof -
  have "find (\<lambda>r. hr_watch_id r = k) (replace_row wid new rows) =
      (if k = wid then if wid \<in> hr_watch_id ` set rows then Some new else None else find (\<lambda>r. hr_watch_id r = k) rows)" for rows
    using assms(3) by (induction rows) (auto simp: replace_row_def)
  moreover have "wid \<in> hr_watch_id ` set (db_history db)" using history_of_iff [OF assms(1), of wid old] assms(2) by auto
  ultimately show ?thesis by (simp add: history_of_def)
qed

text \<open>One call, seen at its own row.\<close>

lemma project_call_row:
  assumes ok: "database_ok db" and ref: "references_ok db (hc_user c)" and wid: "watch_id (hc_watch c) = wid"
  shows "history_of (project_call c db) wid =
    (let new = history_row_of (hc_watch c) (hc_owner c) (hc_user c) (hc_revision c) in
     case history_of db wid of
       None \<Rightarrow> Some new
     | Some old \<Rightarrow> if supersedes new old then Some (merge_row new old) else Some old)"
proof (cases "history_of db wid")
  case None
  with ref wid show ?thesis
    by (simp add: project_call_def history_record_def Let_def history_of_def find_append)
next
  case (Some old)
  have "references_ok db (hr_user old)" using Some ok by (auto simp: history_of_iff database_ok_def)
  with ref have "references_ok db (or_else (hc_user c) (hr_user old))" by (cases "hc_user c") simp_all
  with Some wid show ?thesis
    by (simp add: project_call_def history_record_def Let_def history_of_replace [OF ok Some])
qed

lemma project_call_other:
  assumes ok: "database_ok db" and "watch_id (hc_watch c) \<noteq> wid"
  shows "history_of (project_call c db) wid = history_of db wid"
proof (cases "history_of db (watch_id (hc_watch c))")
  case None
  with assms show ?thesis by (simp add: project_call_def history_record_def Let_def history_of_def find_append split: option.split)
next
  case (Some old)
  with assms show ?thesis
    by (simp add: project_call_def history_record_def Let_def history_of_replace [OF ok Some])
qed

text \<open>A call that records one of the outcomes of a watch: the document of its revision, at most the last.\<close>

definition outcome_call :: "database \<Rightarrow> string \<Rightarrow> (int \<Rightarrow> watch) \<Rightarrow> int \<Rightarrow> history_call \<Rightarrow> bool" where
  "outcome_call db wid doc m c \<longleftrightarrow>
     watch_id (hc_watch c) = wid \<and> 0 \<le> hc_revision c \<and> hc_revision c \<le> m \<and>
     hc_watch c = doc (hc_revision c) \<and> references_ok db (hc_user c)"

lemma projection_prefix:
  assumes ok: "database_ok db" and none: "history_of db wid = None"
    and doc: "\<And>r. 0 \<le> r \<and> r < m \<Longrightarrow> w_status (doc r) = ACTIVE"
  shows "cs \<noteq> [] \<Longrightarrow> \<forall>c \<in> set cs. outcome_call db wid doc m c \<Longrightarrow>
    \<exists>row. history_of (fold project_call cs db) wid = Some row \<and> hr_revision row = Max (hc_revision ` set cs) \<and>
       hr_watch row = doc (hr_revision row) \<and> hr_status row = w_status (hr_watch row)"
proof (induction cs rule: rev_induct)
  case (snoc c cs)
  let ?db = "fold project_call cs db"
  have "outcome_call db wid doc m c" using snoc.prems(2) by simp
  then have c: "watch_id (hc_watch c) = wid" "0 \<le> hc_revision c" "hc_revision c \<le> m"
    "hc_watch c = doc (hc_revision c)" "references_ok db (hc_user c)"
    unfolding outcome_call_def by blast+
  have okd: "database_ok ?db" using ok by (rule project_fold)
  have ref: "references_ok ?db (hc_user c)"
    using c by (auto simp: references_ok_def user_exists_def project_fold(1) split: option.splits)
  note row = project_call_row [OF okd ref c(1)]
  show ?case
  proof (cases "cs = []")
    case True
    with row none c show ?thesis by (simp add: Let_def)
  next
    case False
    have "\<forall>c \<in> set cs. outcome_call db wid doc m c" using snoc.prems(2) by simp
    from snoc.IH [OF False this] obtain old where old: "history_of ?db wid = Some old"
      "hr_revision old = Max (hc_revision ` set cs)" "hr_watch old = doc (hr_revision old)"
      "hr_status old = w_status (hr_watch old)" by blast
    have "Max (hc_revision ` set cs) \<in> hc_revision ` set cs" using False by simp
    then obtain b where "b \<in> set cs" "hr_revision old = hc_revision b" by (auto simp: old(2))
    moreover have "outcome_call db wid doc m b" using snoc.prems(2) \<open>b \<in> set cs\<close> by simp
    ultimately have "0 \<le> hr_revision old" "hr_revision old \<le> m" by (simp_all add: outcome_call_def)
    moreover have "Max (hc_revision ` set (cs @ [c])) = max (hr_revision old) (hc_revision c)"
      using False by (simp add: old(2) max.commute)
    moreover have "hr_revision old < m \<longrightarrow> hr_status old = ACTIVE"
      using doc [of "hr_revision old"] old(3,4) \<open>0 \<le> hr_revision old\<close> by simp
    ultimately show ?thesis
      using row old(1,3,4) c by (auto simp: Let_def supersedes_def max_def not_le)
  qed
qed simp

text \<open>
  C26. The projection converges: however a watch's outcomes are delivered, in any order and any number
  of times, as long as the last one is among them, the row ends with the last revision's document; no
  late or repeated outcome of an earlier revision brings an older state back.
\<close>

theorem projection_converges:
  assumes "database_ok db" and "history_of db wid = None"
    and "\<And>r. 0 \<le> r \<and> r < m \<Longrightarrow> w_status (doc r) = ACTIVE"
    and "\<forall>c \<in> set cs. outcome_call db wid doc m c"
    and "m \<in> hc_revision ` set cs"
  shows "history_get wid (fold project_call cs db) = Some (doc m)"
proof -
  have "cs \<noteq> []" using assms(5) by auto
  from projection_prefix [OF assms(1-3) this assms(4)] obtain row where row:
    "history_of (fold project_call cs db) wid = Some row" "hr_revision row = Max (hc_revision ` set cs)"
    "hr_watch row = doc (hr_revision row)" by blast
  have "Max (hc_revision ` set cs) = m" using assms(4,5) by (intro Max_eqI) (auto simp: outcome_call_def)
  with row show ?thesis by (simp add: history_get_def)
qed

definition demo_outcome :: "int \<Rightarrow> string option \<Rightarrow> string option \<Rightarrow> history_call" where
  "demo_outcome r owner user =
     \<lparr>hc_watch = (if r = 2 then demo_watch\<lparr>w_status := CANCELLED\<rparr> else demo_watch), hc_owner = owner, hc_user = user,
      hc_revision = r\<rparr>"

definition demo_accounts :: database where
  "demo_accounts = snd (create_user ''u1'' 0 ''a@b.ca'' ''hash'' (snd (create_user ''u2'' 0 ''c@d.ca'' ''hash'' empty_database)))"

lemma demo_accounts_ok: "db_runs empty_database demo_accounts"
  unfolding demo_accounts_def by (meson db_step.intros rtranclp.rtrancl_into_rtrancl rtranclp.rtrancl_refl)

theorem database_stays_consistent_witness: "database_ok demo_accounts"
  by (rule database_stays_consistent [OF demo_accounts_ok])

theorem projection_converges_witness:
  "history_get ''w1'' (fold project_call [demo_outcome 2 None None, demo_outcome 0 (Some ''browser'') None, demo_outcome 2 None None]
     empty_database) = Some (demo_watch\<lparr>w_status := CANCELLED\<rparr>)"
proof -
  have id: "watch_id demo_watch = ''w1''" "w_status demo_watch = ACTIVE" by (simp_all add: demo_watch_def)
  let ?doc = "\<lambda>r :: int. if r = 2 then demo_watch\<lparr>w_status := CANCELLED\<rparr> else demo_watch"
  have "history_get ''w1'' (fold project_call [demo_outcome 2 None None, demo_outcome 0 (Some ''browser'') None, demo_outcome 2 None None]
     empty_database) = Some (?doc 2)"
    by (rule projection_converges [OF database_ok_empty, where doc = ?doc])
       (auto simp: id outcome_call_def demo_outcome_def history_of_def empty_database_def references_ok_def)
  then show ?thesis by simp
qed

section \<open>Ownership\<close>

datatype projection_event = Recorded history_call | Claimed string string

fun apply_event :: "projection_event \<Rightarrow> database \<Rightarrow> database" where
  "apply_event (Recorded c) db = project_call c db"
| "apply_event (Claimed owner uid) db = snd (claim_anonymous owner uid db)"

lemma apply_event_ok: "database_ok db \<Longrightarrow> database_ok (apply_event ev db)"
  by (cases ev) (simp_all add: project_call_ok claim_ok)

lemma apply_event_users: "db_users (apply_event ev db) = db_users db"
  by (cases ev) (simp_all add: claim_anonymous_def)

lemma references_event [simp]: "references_ok (apply_event ev db) = references_ok db"
  by (rule ext) (simp add: references_ok_def user_exists_def apply_event_users split: option.split)

lemma history_of_claim:
  "history_of (snd (claim_anonymous owner uid db)) wid = history_of db wid \<or>
   (\<exists>r. history_of db wid = Some r \<and> claimable owner r \<and>
      history_of (snd (claim_anonymous owner uid db)) wid = Some (r\<lparr>hr_user := Some uid\<rparr>))"
proof -
  let ?f = "\<lambda>r. if claimable owner r then r\<lparr>hr_user := Some uid\<rparr> else r"
  have "find (\<lambda>r. hr_watch_id r = wid) (map ?f rows) = map_option ?f (find (\<lambda>r. hr_watch_id r = wid) rows)" for rows
    by (induction rows) auto
  then show ?thesis by (cases "history_of db wid") (auto simp: claim_anonymous_def history_of_def)
qed

lemma owned_event:
  assumes ok: "database_ok db" and own: "get_account_owner wid db = Some u" and u: "user_exists db u"
    and same: "\<And>c. ev = Recorded c \<Longrightarrow> watch_id (hc_watch c) = wid \<Longrightarrow> hc_user c = None \<or> hc_user c = Some u"
  shows "get_account_owner wid (apply_event ev db) = Some u"
proof (cases ev)
  case (Claimed owner uid)
  have "\<exists>r. history_of db wid = Some r \<and> hr_user r = Some u" using own by (auto simp: get_account_owner_def split: option.splits)
  with history_of_claim [of owner uid db wid] Claimed show ?thesis
    by (auto simp: get_account_owner_def claimable_def)
next
  case (Recorded c)
  obtain r where r: "history_of db wid = Some r" "hr_user r = Some u"
    using own by (auto simp: get_account_owner_def split: option.splits)
  show ?thesis
  proof (cases "watch_id (hc_watch c) = wid")
    case False
    with own Recorded show ?thesis by (simp add: get_account_owner_def project_call_other [OF ok])
  next
    case True
    from same [OF Recorded True] have "references_ok db (hc_user c)" using u by (auto simp: references_ok_def)
    from project_call_row [OF ok this True] same [OF Recorded True] r Recorded show ?thesis
      by (auto simp: get_account_owner_def Let_def)
  qed
qed

text \<open>
  C27. An account's watch stays the account's: once a row names its account, no sequence of claims by
  anybody and of recorded outcomes that name no other account ever gives it to another or makes it
  anonymous again.
\<close>

theorem account_ownership_is_sticky:
  assumes "database_ok db" and "get_account_owner wid db = Some u"
    and "\<And>c. Recorded c \<in> set evs \<Longrightarrow> watch_id (hc_watch c) = wid \<Longrightarrow> hc_user c = None \<or> hc_user c = Some u"
  shows "get_account_owner wid (fold apply_event evs db) = Some u"
proof -
  have "references_ok db (Some u)"
    using assms(1,2) by (auto simp: get_account_owner_def history_of_iff database_ok_def split: option.splits)
  then have "user_exists db u" by (simp add: references_ok_def)
  then show ?thesis using assms
  proof (induction evs arbitrary: db)
    case (Cons ev evs)
    have "user_exists (apply_event ev db) u" using Cons.prems(1) by (simp add: user_exists_def apply_event_users)
    moreover have "get_account_owner wid (apply_event ev db) = Some u"
      using Cons.prems by (intro owned_event) auto
    ultimately show ?case using Cons.IH [of "apply_event ev db"] Cons.prems by (simp add: apply_event_ok)
  qed simp
qed

theorem account_ownership_is_sticky_witness:
  "get_account_owner ''w1'' (fold apply_event [Claimed ''browser'' ''u2'', Recorded (demo_outcome 2 None None)]
     (project_call (demo_outcome 0 (Some ''browser'') (Some ''u1'')) demo_accounts)) = Some ''u1''"
proof -
  have "get_account_owner ''w1'' (project_call (demo_outcome 0 (Some ''browser'') (Some ''u1'')) demo_accounts) = Some ''u1''"
    by code_simp
  from account_ownership_is_sticky [OF project_call_ok [OF db_runs_ok [OF demo_accounts_ok database_ok_empty]] this,
      of "[Claimed ''browser'' ''u2'', Recorded (demo_outcome 2 None None)]"]
  show ?thesis by (simp add: demo_outcome_def)
qed

text \<open>
  An anonymous watch can lose its browser: its creation is recorded only after the live store has the
  watch, so when an outcome of a later revision is recorded first, the creation's call, which alone
  carries the browser, is discarded with it, and no later call brings it back.
\<close>

lemma ownerless_calls:
  assumes "database_ok db" and "history_of db wid = Some r" "hr_owner r = None"
    and "\<And>c. c \<in> set cs \<Longrightarrow> watch_id (hc_watch c) = wid \<and> references_ok db (hc_user c) \<and> (hc_owner c = None \<or> 0 \<le> hc_revision c \<and> hc_revision c \<le> hr_revision r)"
  shows "\<exists>r'. history_of (fold project_call cs db) wid = Some r' \<and> hr_owner r' = None"
  using assms
proof (induction cs arbitrary: db r)
  case (Cons c cs)
  have c: "watch_id (hc_watch c) = wid" "references_ok db (hc_user c)"
    "hc_owner c = None \<or> 0 \<le> hc_revision c \<and> hc_revision c \<le> hr_revision r" using Cons.prems(4) [of c] by simp_all
  obtain r' where r': "history_of (project_call c db) wid = Some r'" "hr_owner r' = None" "hr_revision r \<le> hr_revision r'"
    using project_call_row [OF Cons.prems(1) c(2,1)] Cons.prems(2,3) c(3) by (auto simp: Let_def supersedes_def split: if_splits)
  show ?case
    using Cons.IH [OF project_call_ok [OF Cons.prems(1)] r'(1,2)] Cons.prems(4) r'(3) by (fastforce intro: order_trans)
qed auto

theorem late_creation_record_loses_browser:
  assumes "database_ok db" and "history_of db wid = None"
    and "watch_id (hc_watch outcome) = wid" "hc_owner outcome = None" "references_ok db (hc_user outcome)" "0 < hc_revision outcome"
    and "watch_id (hc_watch creation) = wid" "hc_revision creation = 0" "references_ok db (hc_user creation)"
    and "\<And>c. c \<in> set later \<Longrightarrow> watch_id (hc_watch c) = wid \<and> references_ok db (hc_user c) \<and> hc_owner c = None"
  shows "\<exists>r. history_of (fold project_call (outcome # creation # later) db) wid = Some r \<and> hr_owner r = None"
proof -
  have "history_of (project_call outcome db) wid = Some (history_row_of (hc_watch outcome) None (hc_user outcome) (hc_revision outcome))"
    using project_call_row [OF assms(1,5,3)] assms(2,4) by (simp add: Let_def)
  then have "\<exists>r. history_of (fold project_call (creation # later) (project_call outcome db)) wid = Some r \<and> hr_owner r = None"
  proof (rule ownerless_calls [OF project_call_ok [OF assms(1)]])
    fix c assume "c \<in> set (creation # later)"
    then consider "c = creation" | "c \<in> set later" by auto
    then show "watch_id (hc_watch c) = wid \<and> references_ok (project_call outcome db) (hc_user c) \<and> (hc_owner c = None \<or>
        0 \<le> hc_revision c \<and> hc_revision c \<le> hr_revision (history_row_of (hc_watch outcome) None (hc_user outcome) (hc_revision outcome)))"
      by cases (use assms in simp_all)
  qed simp
  then show ?thesis by simp
qed

theorem late_creation_record_loses_browser_witness:
  "\<exists>r. history_of (fold project_call [demo_outcome 2 None None, demo_outcome 0 (Some ''browser'') None] empty_database) ''w1'' = Some r \<and>
     hr_owner r = None"
proof -
  have id: "watch_id demo_watch = ''w1''" by (simp add: demo_watch_def)
  show ?thesis
    by (rule late_creation_record_loses_browser [OF database_ok_empty, where later = "[]"])
       (simp_all add: id demo_outcome_def history_of_def empty_database_def references_ok_def)
qed

section \<open>Listings\<close>

lemma newest_first_facts:
  assumes "newest_first P limit db = Inr ws"
  shows "int (length ws) \<le> limit" and "\<And>w. w \<in> set ws \<Longrightarrow> \<exists>r \<in> set (db_history db). P r \<and> w = hr_watch r"
    and "(\<And>r. r \<in> set (db_history db) \<Longrightarrow> row_ok r) \<Longrightarrow> sorted_wrt (\<lambda>a b. updated_at b \<le> updated_at a) ws"
    and "int (length (filter P (db_history db))) \<le> limit \<Longrightarrow> set ws = hr_watch ` {r \<in> set (db_history db). P r}"
proof -
  let ?rows = "sort_key (\<lambda>r. - hr_updated_at r) (filter P (db_history db))"
  have ws: "ws = map hr_watch (take (nat limit) ?rows)" and "1 \<le> limit"
    using assms by (auto simp: newest_first_def split: if_splits)
  then show "int (length ws) \<le> limit" by simp
  show "w \<in> set ws \<Longrightarrow> \<exists>r \<in> set (db_history db). P r \<and> w = hr_watch r" for w
    by (auto simp: ws dest!: in_set_takeD)
  show "sorted_wrt (\<lambda>a b. updated_at b \<le> updated_at a) ws" if "\<And>r. r \<in> set (db_history db) \<Longrightarrow> row_ok r"
  proof -
    have "sorted_wrt (\<lambda>a b. hr_updated_at b \<le> hr_updated_at a) ?rows"
      using sorted_sort_key [of "\<lambda>r. - hr_updated_at r" "filter P (db_history db)"] by (simp add: sorted_map)
    then have "sorted_wrt (\<lambda>a b. hr_updated_at b \<le> hr_updated_at a) (take (nat limit) ?rows)" by (rule sorted_wrt_take)
    then show ?thesis
      unfolding ws sorted_wrt_map
      by (rule sorted_wrt_mono_rel [rotated]) (auto dest!: in_set_takeD that simp: row_ok_def)
  qed
  show "set ws = hr_watch ` {r \<in> set (db_history db). P r}" if "int (length (filter P (db_history db))) \<le> limit"
    using that by (auto simp: ws)
qed

end
