(* ===== verification/Auth_Properties.thy ===== *)
theory Auth_Properties
  imports Auth_Service Account_Db_Properties
begin

text \<open>
  Signing up and logging in under any interference by other requests: who gets in, what a failure tells,
  how long a session lasts, and how many passwords are hashed at once.
\<close>

section \<open>What others leave in place\<close>

lemma email_step: "db_step db db' \<Longrightarrow> get_by_email n db = Some r \<Longrightarrow> get_by_email n db' = Some r"
proof (induction rule: db_step.induct)
  case (record_step db w owner user rvn)
  then show ?case by (auto simp: get_by_email_def history_record_def Let_def split: option.split)
qed (auto simp: get_by_email_def create_user_def create_session_def revoke_def revoke_all_for_user_def
    claim_anonymous_def Let_def find_append split: option.split)

lemma email_runs: "db_runs db db' \<Longrightarrow> get_by_email n db = Some r \<Longrightarrow> get_by_email n db' = Some r"
  by (induction rule: rtranclp_induct) (auto intro: email_step)

lemma id_step: "db_step db db' \<Longrightarrow> get_by_id n db = Some r \<Longrightarrow> get_by_id n db' = Some r"
proof (induction rule: db_step.induct)
  case (record_step db w owner user rvn)
  then show ?case by (auto simp: get_by_id_def history_record_def Let_def split: option.split)
qed (auto simp: get_by_id_def create_user_def create_session_def revoke_def revoke_all_for_user_def
    claim_anonymous_def Let_def find_append split: option.split)

lemma id_runs: "db_runs db db' \<Longrightarrow> get_by_id n db = Some r \<Longrightarrow> get_by_id n db' = Some r"
  by (induction rule: rtranclp_induct) (auto intro: id_step)

text \<open>Steps that do not end the session of a token.\<close>

definition keeps :: "string \<Rightarrow> database \<Rightarrow> database \<Rightarrow> bool" where
  "keeps h db db' \<longleftrightarrow> db_step db db' \<and> (get_by_token_hash h db \<noteq> None \<longrightarrow> get_by_token_hash h db' \<noteq> None)"

lemma token_iff:
  "database_ok db \<Longrightarrow> get_by_token_hash h db = Some r \<longleftrightarrow> r \<in> set (db_sessions db) \<and> se_token_hash r = h"
  by (simp add: get_by_token_hash_def find_key database_ok_def)

lemma keeps_session:
  assumes "keeps h db db'" and ok: "database_ok db" and r: "get_by_token_hash h db = Some r"
  shows "get_by_token_hash h db' = Some r"
proof -
  obtain r' where r': "get_by_token_hash h db' = Some r'" and step: "db_step db db'"
    using assms by (auto simp: keeps_def)
  have ok': "database_ok db'" using db_step_ok [OF step ok] .
  from r' have r'_in: "r' \<in> set (db_sessions db')" "se_token_hash r' = h" by (simp_all add: token_iff [OF ok'])
  from r have r_in: "r \<in> set (db_sessions db)" "se_token_hash r = h" by (simp_all add: token_iff [OF ok])
  have "r' \<in> set (db_sessions db) \<or> (h \<notin> se_token_hash ` set (db_sessions db))"
    using step r'_in
    by cases (auto simp: create_user_def create_session_def revoke_def revoke_all_for_user_def
      history_record_def claim_anonymous_def Let_def split: option.splits if_splits)
  with r_in have "r' \<in> set (db_sessions db)" by auto
  with r'_in(2) have "get_by_token_hash h db = Some r'" by (simp add: token_iff [OF ok])
  with r r' show ?thesis by simp
qed

lemma keeps_runs:
  assumes "(keeps h)\<^sup>*\<^sup>* db db'" and "database_ok db"
  shows "database_ok db' \<and> db_runs db db' \<and> (\<forall>r. get_by_token_hash h db = Some r \<longrightarrow> get_by_token_hash h db' = Some r)"
  using assms
proof (induction rule: rtranclp_induct)
  case (step y z)
  then have "db_step y z" by (simp add: keeps_def)
  with step show ?case by (auto intro: db_step_ok keeps_session)
qed simp

definition auth_fair :: "auth_env \<Rightarrow> bool" where
  "auth_fair e \<longleftrightarrow> (\<forall>n t db t' db'. ae_others e n (t, db) = (t', db') \<longrightarrow> t \<le> t' \<and> db_runs db db')"

definition auth_keeps :: "string \<Rightarrow> auth_env \<Rightarrow> bool" where
  "auth_keeps h e \<longleftrightarrow> (\<forall>n t db t' db'. ae_others e n (t, db) = (t', db') \<longrightarrow> t \<le> t' \<and> (keeps h)\<^sup>*\<^sup>* db db')"

definition all_answered :: "auth_env \<Rightarrow> bool" where
  "all_answered e \<longleftrightarrow> (\<forall>n. ae_calls e n = Answered)"

definition auth_leads :: "auth_world \<Rightarrow> auth_world \<Rightarrow> bool" where
  "auth_leads s s' \<longleftrightarrow> au_now s \<le> au_now s' \<and> db_runs (au_db s) (au_db s')"

lemma auth_leads_refl [simp]: "auth_leads s s"
  by (simp add: auth_leads_def)

lemma auth_leads_trans: "auth_leads s s' \<Longrightarrow> auth_leads s' s'' \<Longrightarrow> auth_leads s s''"
  by (auto simp: auth_leads_def)

lemma leads_auth_pause: "auth_fair e \<Longrightarrow> auth_leads s (auth_pause e s)"
  by (auto simp: auth_fair_def auth_leads_def auth_pause_def split: prod.split)

lemma auth_pause_work [simp]: "au_work (auth_pause e s) = au_work s" "au_awaits (auth_pause e s) = Suc (au_awaits s)"
  by (simp_all add: auth_pause_def split: prod.split)

lemma auth_read_eq:
  "all_answered e \<Longrightarrow> auth_read e f s = (Inr (f (au_db (auth_pause e s))), auth_pause e s)"
  by (simp add: all_answered_def auth_read_def auth_query_def Let_def)

lemma password_work_eq:
  "password_work e f s = (Inr (f (au_awaits s)), (auth_pause e s)\<lparr>au_work := Suc (au_work s)\<rparr>)"
  by (simp add: password_work_def)

lemma leads_password_work: "auth_fair e \<Longrightarrow> auth_leads s ((auth_pause e s)\<lparr>au_work := k\<rparr>)"
  using leads_auth_pause [of e s] by (simp add: auth_leads_def)

text \<open>Issuing a session, with the database answering.\<close>

lemma issue_session_cases:
  assumes "issue_session e cfg uid s = (out, s')" and "all_answered e" and "auth_fair e" and "user_exists (au_db s) uid"
  obtains (issued) raw where "out = Inr raw" "auth_leads s s'"
      "get_by_token_hash (hash_token e raw) (au_db s') = Some \<lparr>se_token_hash = hash_token e raw, se_user_id = uid,
        se_created_at = au_now s, se_expires_at = au_now s + timedelta_seconds (session_ttl_seconds cfg)\<rparr>"
      "au_work s' = au_work s"
  | (reused) "out = Inl (Database_failed Unique_violation)" "auth_leads s s'" "au_work s' = au_work s"
proof -
  let ?raw = "ae_token e (au_awaits s)" and ?p = "auth_pause e s"
  let ?x = "au_now s + timedelta_seconds (session_ttl_seconds cfg)"
  note lead = leads_auth_pause [OF assms(3), of s]
  have "\<exists>r. find (\<lambda>r. ac_id r = uid) (db_users (au_db s)) = Some r"
    using assms(4) find_none [of ac_id uid "db_users (au_db s)"] by (auto simp: user_exists_def)
  then have "get_by_id uid (au_db ?p) \<noteq> None"
    using id_runs [of "au_db s" "au_db ?p"] lead by (auto simp: get_by_id_def auth_leads_def)
  then have user: "user_exists (au_db ?p) uid"
    using find_none [of ac_id uid "db_users (au_db ?p)"] by (auto simp: get_by_id_def user_exists_def)
  have step: "db_step (au_db ?p) (snd (create_session (hash_token e ?raw) uid (au_now s) ?x (au_db ?p)))"
    by (rule db_step.intros)
  show thesis
  proof (cases "hash_token e ?raw \<in> se_token_hash ` set (db_sessions (au_db ?p))")
    case True
    with assms(1,2) show thesis
      by (intro reused)
         (auto simp: issue_session_def auth_then_def auth_query_def all_answered_def create_session_def Let_def lead)
  next
    case False
    then have "find (\<lambda>r. se_token_hash r = hash_token e ?raw) (db_sessions (au_db ?p)) = None" by (simp add: find_none)
    with False assms(1,2) user lead step show thesis
      by (intro issued [of ?raw])
         (auto simp: issue_session_def auth_then_def auth_query_def all_answered_def create_session_def Let_def
          auth_return_def get_by_token_hash_def find_append auth_leads_def)
  qed
qed

section \<open>Logging in\<close>

lemma normalized_idem: "normalize_email email = Inr n \<Longrightarrow> email_shape n"
  by (simp add: normalize_email_def Let_def split: if_splits)

lemma get_by_email_exists: "get_by_email n db = Some r \<Longrightarrow> user_exists db (ac_id r)"
  by (auto simp: get_by_email_def user_exists_def find_Some_iff)

text \<open>
  What \<^verbatim>\<open>secrets.token_urlsafe\<close> and SHA-256 are relied on for: the token drawn at an await is none whose hash
  the database holds when it is stored.
\<close>

definition fresh_tokens :: "auth_env \<Rightarrow> auth_world \<Rightarrow> bool" where
  "fresh_tokens e s \<longleftrightarrow>
     (\<forall>n. get_by_token_hash (hash_token e (ae_token e (au_awaits s + n))) (au_db ((auth_pause e ^^ Suc n) s)) = None)"

lemma auth_pause_work_update: "auth_pause e (s\<lparr>au_work := k\<rparr>) = (auth_pause e s)\<lparr>au_work := k\<rparr>"
  by (simp add: auth_pause_def split: prod.split)

lemma fresh_tokens_after:
  assumes "fresh_tokens e s"
  shows "get_by_token_hash (hash_token e (ae_token e (au_awaits s + 2))) (au_db (auth_pause e (auth_pause e (auth_pause e s)))) = None"
  using assms [unfolded fresh_tokens_def, rule_format, of 2] by (simp add: numeral_2_eq_2)

text \<open>
  C28. The password opens the account and nothing else does: for a registered address, written in any case
  and with any surrounding blanks, the login with the password that was hashed at signup succeeds, names that
  account and leaves its token as a session of the account for its time to live; any other password is
  refused, and either way exactly one Argon2 computation is spent. It is relied on that Argon2 tells
  passwords apart, that the token drawn is a new one, and that the database answers.
\<close>

theorem only_the_password_opens:
  assumes "argon2_sound (ae_hasher e)" and "auth_fair e" and "all_answered e"
    and "normalize_email email = Inr n" and "get_by_email n (au_db s) = Some r"
    and "ac_password_hash r = h_hash (ae_hasher e) k p0" and "fresh_tokens e s"
    and "login e cfg email password s = (out, s')"
  shows "(password \<noteq> p0 \<longrightarrow> out = Inl Invalid_credentials) \<and>
    (password = p0 \<longrightarrow> (\<exists>token opened. out = Inr (to_public r, token) \<and> au_now s \<le> opened \<and> opened \<le> au_now s' \<and>
       get_by_token_hash (hash_token e token) (au_db s') = Some \<lparr>se_token_hash = hash_token e token, se_user_id = ac_id r,
         se_created_at = opened, se_expires_at = opened + timedelta_seconds (session_ttl_seconds cfg)\<rparr>)) \<and>
    au_work s' = Suc (au_work s)"
proof -
  let ?s1 = "auth_pause e s" and ?s2 = "(auth_pause e (auth_pause e s))\<lparr>au_work := Suc (au_work s)\<rparr>"
  have r1: "get_by_email n (au_db ?s1) = Some r"
    using email_runs [OF _ assms(5)] leads_auth_pause [OF assms(2), of s] by (simp add: auth_leads_def)
  have r2: "get_by_email n (au_db ?s2) = Some r"
    using email_runs [OF _ r1] leads_auth_pause [OF assms(2), of ?s1] by (simp add: auth_leads_def)
  have match: "hasher_verify (ae_hasher e) (ac_password_hash r) password \<longleftrightarrow> password = p0"
    using assms(1,6) by (simp add: hasher_verify_def argon2_sound_def)
  show ?thesis
  proof (cases "password = p0")
    case False
    with assms(3,4,8) r1 match show ?thesis
      by (auto simp: login_def auth_then_def auth_lift_def auth_read_eq password_work_eq auth_raise_def)
  next
    case True
    have lead: "au_now s \<le> au_now ?s2"
      using auth_leads_trans [OF leads_auth_pause leads_password_work, OF assms(2,2), of s] by (simp add: auth_leads_def)
    obtain res s3 where issue: "issue_session e cfg (ac_id r) ?s2 = (res, s3)" by fastforce
    from issue assms(3,2) get_by_email_exists [OF r2] show ?thesis
    proof (cases rule: issue_session_cases)
      case (issued raw)
      have "out = Inr (to_public r, raw) \<and> s' = s3"
        using True assms(3,4,8) r1 match issue issued(1)
        by (simp add: login_def auth_then_def auth_lift_def auth_read_eq password_work_eq auth_return_def)
      with issued True lead show ?thesis
        by (auto simp: auth_leads_def intro!: exI [of _ "au_now ?s2"])
    next
      case reused
      have "hash_token e (ae_token e (au_awaits ?s2)) \<in> se_token_hash ` set (db_sessions (au_db (auth_pause e ?s2)))"
        using issue reused(1) assms(3)
        by (auto simp: issue_session_def auth_then_def auth_query_def all_answered_def create_session_def Let_def auth_return_def
            split: if_splits)
      then have "get_by_token_hash (hash_token e (ae_token e (au_awaits ?s2))) (au_db (auth_pause e ?s2)) \<noteq> None"
        using find_none [of se_token_hash] by (auto simp: get_by_token_hash_def)
      with fresh_tokens_after [OF assms(7)] show ?thesis by (simp add: auth_pause_work_update)
    qed
  qed
qed

text \<open>
  C29. A failed login does not tell whether the address has an account: an unknown address and a wrong
  password give the same answer, after the same number of awaits and of Argon2 computations, and neither
  writes to the database.
\<close>

theorem login_does_not_enumerate:
  assumes "all_answered e"
    and "normalize_email unknown = Inr n" and "get_by_email n (au_db (auth_pause e s)) = None"
    and "normalize_email known = Inr n'" and "get_by_email n' (au_db (auth_pause e t)) = Some r"
    and "\<not> hasher_verify (ae_hasher e) (ac_password_hash r) password'"
  shows "fst (login e cfg unknown password s) = fst (login e cfg known password' t) \<and>
    au_work (snd (login e cfg unknown password s)) - au_work s = au_work (snd (login e cfg known password' t)) - au_work t \<and>
    au_awaits (snd (login e cfg unknown password s)) - au_awaits s = au_awaits (snd (login e cfg known password' t)) - au_awaits t \<and>
    au_db (snd (login e cfg unknown password s)) = au_db (auth_pause e (auth_pause e s)) \<and>
    au_db (snd (login e cfg known password' t)) = au_db (auth_pause e (auth_pause e t))"
  using assms by (simp add: login_def auth_then_def auth_lift_def auth_read_eq password_work_eq auth_raise_def)

section \<open>Sessions\<close>

lemma authenticate_reads:
  assumes "all_answered e" and "token \<noteq> []"
  shows "authenticate e (Some token) s =
    (let s1 = auth_pause e s in
     case get_by_token_hash (hash_token e token) (au_db s1) of
       None \<Rightarrow> (Inr None, s1)
     | Some r \<Rightarrow> if se_expires_at r \<le> au_now s1 then (Inr None, s1)
                 else (Inr (get_by_id (se_user_id r) (au_db (auth_pause e s1))), auth_pause e s1))"
  using assms by (simp add: authenticate_def auth_then_def auth_read_eq Let_def split: option.split)

lemma keeps_pause:
  assumes "auth_keeps h e" and "database_ok (au_db s)"
  shows "au_now s \<le> au_now (auth_pause e s) \<and> db_runs (au_db s) (au_db (auth_pause e s)) \<and> database_ok (au_db (auth_pause e s)) \<and>
    (\<forall>r. get_by_token_hash h (au_db s) = Some r \<longrightarrow> get_by_token_hash h (au_db (auth_pause e s)) = Some r)"
proof -
  obtain t' db' where call: "ae_others e (au_awaits s) (au_now s, au_db s) = (t', db')" by fastforce
  with assms(1) have "au_now s \<le> t'" "(keeps h)\<^sup>*\<^sup>* (au_db s) db'" by (auto simp: auth_keeps_def)
  with keeps_runs [OF this(2) assms(2)] call show ?thesis by (simp add: auth_pause_def)
qed

text \<open>A valid session resolves to its account until it expires, as long as nobody revokes it.\<close>

lemma session_resolves:
  assumes e: "all_answered e" "auth_keeps (hash_token e token) e" "token \<noteq> []"
    and ok: "database_ok (au_db s)" and r: "get_by_token_hash (hash_token e token) (au_db s) = Some r"
    and u: "get_by_id (se_user_id r) (au_db s) = Some u"
    and run: "authenticate e (Some token) s = (out, s')"
  shows "au_now s \<le> au_now s' \<and> (au_now s' < se_expires_at r \<longrightarrow> out = Inr (Some u)) \<and> (se_expires_at r \<le> au_now s \<longrightarrow> out = Inr None)"
proof -
  let ?s1 = "auth_pause e s" and ?s2 = "auth_pause e (auth_pause e s)"
  note p1 = keeps_pause [OF e(2) ok]
  have p2: "au_now ?s1 \<le> au_now ?s2" "db_runs (au_db ?s1) (au_db ?s2)" using keeps_pause [OF e(2), of ?s1] p1 by blast+
  have r1: "get_by_token_hash (hash_token e token) (au_db ?s1) = Some r" using p1 r by blast
  have u2: "get_by_id (se_user_id r) (au_db ?s2) = Some u"
    using id_runs [OF _ u] p1 p2 by (meson rtranclp_trans)
  have out: "authenticate e (Some token) s =
      (if se_expires_at r \<le> au_now ?s1 then (Inr None, ?s1) else (Inr (Some u), ?s2))"
    by (simp only: authenticate_reads [OF e(1,3)] Let_def r1 u2 option.case)
  show ?thesis using run p1 p2(1) unfolding out by (auto split: if_splits)
qed

lemma signup_cases:
  assumes "signup e cfg email password s = (Inr (u, token), s')" and "all_answered e" and "auth_fair e"
    and ok: "database_ok (au_db s)"
  obtains n k expires where "normalize_email email = Inr n" "check_password cfg password = Inr ()"
    "get_by_email n (au_db s') = Some \<lparr>ac_id = usr_id u, ac_email = n, ac_created_at = usr_created_at u,
       ac_password_hash = h_hash (ae_hasher e) k password\<rparr>" "usr_email u = n"
    "get_by_token_hash (hash_token e token) (au_db s') = Some \<lparr>se_token_hash = hash_token e token, se_user_id = usr_id u,
       se_created_at = expires - timedelta_seconds (session_ttl_seconds cfg), se_expires_at = expires\<rparr>"
    "au_now s + timedelta_seconds (session_ttl_seconds cfg) \<le> expires"
    "expires \<le> au_now s' + timedelta_seconds (session_ttl_seconds cfg)"
    "database_ok (au_db s')" "get_by_id (usr_id u) (au_db s') = Some u"
proof -
  let ?k = "au_awaits s"
  let ?h = "h_hash (ae_hasher e) ?k password"
  let ?s1 = "(auth_pause e s)\<lparr>au_work := Suc (au_work s)\<rparr>"
  let ?s2 = "auth_pause e ?s1"
  from assms(1) obtain n where n: "normalize_email email = Inr n"
    by (cases "normalize_email email") (auto simp: signup_def auth_then_def auth_lift_def)
  from assms(1) n have pw: "check_password cfg password = Inr ()"
    by (cases "check_password cfg password") (auto simp: signup_def auth_then_def auth_lift_def)
  obtain res db where made: "create_user (ae_uuid e (au_awaits ?s1)) (au_now ?s2) n ?h (au_db ?s2) = (res, db)" by fastforce
  let ?s3 = "?s2\<lparr>au_db := db\<rparr>"
  have res: "res = Inr u \<and> issue_session e cfg (usr_id u) ?s3 = (Inr token, s')"
    using assms(1,2) n pw made
    by (auto simp: signup_def auth_then_def auth_lift_def password_work_eq register_def auth_query_def Let_def all_answered_def
        auth_return_def split: sum.splits prod.splits db_error.splits auth_error.splits)
  have lead2: "auth_leads s ?s2"
    by (rule auth_leads_trans [OF leads_password_work leads_auth_pause]) (rule assms(3))+
  have ok2: "database_ok (au_db ?s2)" using db_runs_ok [OF _ ok] lead2 by (simp add: auth_leads_def)
  have new: "u = \<lparr>usr_id = usr_id u, usr_email = n, usr_created_at = usr_created_at u\<rparr>"
    "get_by_email n db = Some \<lparr>ac_id = usr_id u, ac_email = n, ac_created_at = usr_created_at u, ac_password_hash = ?h\<rparr>"
    "get_by_id (usr_id u) db = Some u" "user_exists db (usr_id u)"
    using made res
    by (auto simp: create_user_def Let_def to_public_def get_by_email_def get_by_id_def find_append user_exists_def find_none
        split: if_splits option.splits dest!: find_none [THEN iffD2, rotated])
  have lead3: "auth_leads s ?s3"
    using lead2 made by (auto simp: auth_leads_def intro: rtranclp.rtrancl_into_rtrancl
        create_user_step [of "au_db ?s2" "ae_uuid e (au_awaits ?s1)" "au_now ?s2" n ?h, unfolded made snd_conv])
  have "issue_session e cfg (usr_id u) ?s3 = (Inr token, s')" "user_exists (au_db ?s3) (usr_id u)" using res new(4) by simp_all
  from this(1) assms(2,3) this(2) show thesis
  proof (cases rule: issue_session_cases)
    case (issued raw)
    let ?x = "au_now ?s3 + timedelta_seconds (session_ttl_seconds cfg)"
    have token: "raw = token" using issued(1) by simp
    have lead4: "auth_leads s s'" by (rule auth_leads_trans [OF lead3 issued(2)])
    then have "database_ok (au_db s')" using db_runs_ok [OF _ ok] by (simp add: auth_leads_def)
    moreover have "db_runs db (au_db s')" using issued(2) by (simp add: auth_leads_def)
    moreover have "usr_email u = n" by (subst new(1)) simp
    ultimately show thesis
      using that [OF n pw, of ?k ?x] email_runs [OF _ new(2)] id_runs [OF _ new(3)] issued(3) lead3 issued(2)
      by (simp add: token auth_leads_def)
  qed simp
qed

text \<open>Steps that do not store a token again; the token drawn is never drawn twice.\<close>

definition never_again :: "string \<Rightarrow> database \<Rightarrow> database \<Rightarrow> bool" where
  "never_again h db db' \<longleftrightarrow> db_step db db' \<and> (get_by_token_hash h db = None \<longrightarrow> get_by_token_hash h db' = None)"

definition auth_never_again :: "string \<Rightarrow> auth_env \<Rightarrow> bool" where
  "auth_never_again h e \<longleftrightarrow> (\<forall>n t db t' db'. ae_others e n (t, db) = (t', db') \<longrightarrow> t \<le> t' \<and> (never_again h)\<^sup>*\<^sup>* db db')"

lemma never_again_runs: "(never_again h)\<^sup>*\<^sup>* db db' \<Longrightarrow> get_by_token_hash h db = None \<Longrightarrow> get_by_token_hash h db' = None"
  by (induction rule: rtranclp_induct) (simp_all add: never_again_def)

text \<open>A token without a session resolves to nobody.\<close>

lemma revoked_is_nobody:
  assumes "all_answered e" "auth_never_again (hash_token e token) e" "get_by_token_hash (hash_token e token) (au_db t) = None"
    and "authenticate e (Some token) t = (out, t')"
  shows "out = Inr None"
proof (cases "token = []")
  case True
  with assms(4) show ?thesis by (simp add: authenticate_def auth_return_def)
next
  case False
  obtain x db where others: "ae_others e (au_awaits t) (au_now t, au_db t) = (x, db)" by fastforce
  with assms(2) have "(never_again (hash_token e token))\<^sup>*\<^sup>* (au_db t) db" by (auto simp: auth_never_again_def)
  with never_again_runs [OF this assms(3)] others
  have "get_by_token_hash (hash_token e token) (au_db (auth_pause e t)) = None" by (simp add: auth_pause_def)
  with assms(4) show ?thesis by (auto simp: authenticate_reads [OF assms(1) False] Let_def)
qed

lemma get_revoked: "get_by_token_hash h (revoke h db) = None"
  by (auto simp: get_by_token_hash_def revoke_def find_None_iff)

lemma get_all_revoked:
  assumes "database_ok db" and "get_by_token_hash h db = Some r" and "se_user_id r = uid"
  shows "get_by_token_hash h (revoke_all_for_user uid db) = None"
proof -
  have "x = r" if "x \<in> set (db_sessions db)" "se_token_hash x = h" for x
    using that assms(2) token_iff [OF assms(1), of h x] by simp
  with assms(3) show ?thesis by (auto simp: get_by_token_hash_def revoke_all_for_user_def find_None_iff)
qed

lemma logout_revokes:
  assumes "logout e token t = (Inr (), t')"
  shows "get_by_token_hash (hash_token e token) (au_db t') = None"
  using assms get_revoked by (auto simp: logout_def auth_query_def Let_def split: call.splits)

text \<open>
  C30. A signup opens a session that lasts until it expires or is revoked: its token resolves to the new
  account at every moment before the expiry at which nobody has revoked it, whatever else happened to
  the database, and to nobody from the expiry on. After a logout with the token, or after all sessions of
  the account are revoked, it resolves to nobody, whatever else happened before and happens later, as long as
  the same token is not drawn and stored again.
\<close>

theorem signup_session_lasts:
  assumes "signup e cfg email password s = (Inr (u, token), s')" and "all_answered e" and "auth_fair e"
    and "database_ok (au_db s)" and "token \<noteq> []"
  shows "\<exists>expires. au_now s + timedelta_seconds (session_ttl_seconds cfg) \<le> expires \<and>
    expires \<le> au_now s' + timedelta_seconds (session_ttl_seconds cfg) \<and>
    (\<forall>e' t t' out. (keeps (hash_token e token))\<^sup>*\<^sup>* (au_db s') (au_db t) \<and> ae_sha256 e' = ae_sha256 e \<and> all_answered e' \<and>
       auth_keeps (hash_token e token) e' \<and> authenticate e' (Some token) t = (out, t') \<longrightarrow>
       (au_now t' < expires \<longrightarrow> out = Inr (Some u)) \<and> (expires \<le> au_now t \<longrightarrow> out = Inr None)) \<and>
    (\<forall>e' e'' t0 t1 t2 t3 out.
       (logout e' token t0 = (Inr (), t1) \<or>
        (keeps (hash_token e token))\<^sup>*\<^sup>* (au_db s') (au_db t0) \<and> au_db t1 = revoke_all_for_user (usr_id u) (au_db t0)) \<and>
       (never_again (hash_token e token))\<^sup>*\<^sup>* (au_db t1) (au_db t2) \<and> ae_sha256 e' = ae_sha256 e \<and> ae_sha256 e'' = ae_sha256 e \<and>
       all_answered e'' \<and> auth_never_again (hash_token e token) e'' \<and> authenticate e'' (Some token) t2 = (out, t3) \<longrightarrow>
       out = Inr None)"
  using assms(1-4)
proof (cases rule: signup_cases)
  case (1 n k expires)
  have "(au_now t' < expires \<longrightarrow> out = Inr (Some u)) \<and> (expires \<le> au_now t \<longrightarrow> out = Inr None)"
    if t: "(keeps (hash_token e token))\<^sup>*\<^sup>* (au_db s') (au_db t)" and e': "ae_sha256 e' = ae_sha256 e" "all_answered e'"
      "auth_keeps (hash_token e token) e'" and run: "authenticate e' (Some token) t = (out, t')" for e' t t' out
  proof -
    have h: "hash_token e' token = hash_token e token" using e'(1) by (simp add: hash_token_def)
    note kept = keeps_runs [OF t 1(8)]
    have "get_by_id (usr_id u) (au_db t) = Some u" using id_runs [OF _ 1(9)] kept by blast
    with session_resolves [OF e'(2) _ assms(5) _ _ _ run] e'(3) kept 1(5) show ?thesis
      unfolding h by fastforce
  qed
  moreover have "out = Inr None"
    if revoked: "logout e' token t0 = (Inr (), t1) \<or>
        (keeps (hash_token e token))\<^sup>*\<^sup>* (au_db s') (au_db t0) \<and> au_db t1 = revoke_all_for_user (usr_id u) (au_db t0)"
      and later: "(never_again (hash_token e token))\<^sup>*\<^sup>* (au_db t1) (au_db t2)"
      and e: "ae_sha256 e' = ae_sha256 e" "ae_sha256 e'' = ae_sha256 e" "all_answered e''" "auth_never_again (hash_token e token) e''"
      and run: "authenticate e'' (Some token) t2 = (out, t3)" for e' e'' t0 t1 t2 t3 out
  proof -
    have h: "hash_token e' token = hash_token e token" "hash_token e'' token = hash_token e token"
      using e(1,2) by (simp_all add: hash_token_def)
    have "get_by_token_hash (hash_token e token) (au_db t1) = None"
      using revoked
    proof
      assume "logout e' token t0 = (Inr (), t1)"
      from logout_revokes [OF this] show ?thesis by (simp only: h)
    next
      assume all: "(keeps (hash_token e token))\<^sup>*\<^sup>* (au_db s') (au_db t0) \<and> au_db t1 = revoke_all_for_user (usr_id u) (au_db t0)"
      with keeps_runs [of "hash_token e token" "au_db s'" "au_db t0"] 1(5,8) get_all_revoked show ?thesis by simp
    qed
    with never_again_runs [OF later] revoked_is_nobody [OF e(3) _ _ run] e(4) show ?thesis by (simp only: h)
  qed
  ultimately show ?thesis using 1(6,7) by blast
qed

text \<open>
  An address has one account, and a refused signup leaves no trace: a malformed address or a
  password outside the policy is refused before anything is hashed or stored, and an address that has
  an account, in whatever case and with whatever blanks it is written, is refused as taken with the
  database left to the others.
\<close>

theorem address_registered_once:
  assumes "all_answered e" and "auth_fair e"
  shows "(\<forall>err. normalize_email email = Inl err \<longrightarrow> signup e cfg email password s = (Inl err, s)) \<and>
    (\<forall>n err. normalize_email email = Inr n \<and> check_password cfg password = Inl err \<longrightarrow>
       signup e cfg email password s = (Inl err, s)) \<and>
    (\<forall>n r. normalize_email email = Inr n \<and> check_password cfg password = Inr () \<and> get_by_email n (au_db s) = Some r \<longrightarrow>
       fst (signup e cfg email password s) = Inl Email_taken \<and>
       (\<exists>t. au_db (snd (signup e cfg email password s)) = au_db (auth_pause e t)))"
proof (intro conjI allI impI)
  show "signup e cfg email password s = (Inl err, s)" if "normalize_email email = Inl err" for err
    using that by (simp add: signup_def auth_then_def auth_lift_def)
  show "signup e cfg email password s = (Inl err, s)"
    if "normalize_email email = Inr n \<and> check_password cfg password = Inl err" for n err
    using that by (simp add: signup_def auth_then_def auth_lift_def)
next
  fix n r
  assume a: "normalize_email email = Inr n \<and> check_password cfg password = Inr () \<and> get_by_email n (au_db s) = Some r"
  let ?s1 = "(auth_pause e s)\<lparr>au_work := Suc (au_work s)\<rparr>"
  let ?s2 = "auth_pause e ?s1"
  have "auth_leads s ?s2" by (rule auth_leads_trans [OF leads_password_work leads_auth_pause]) (rule assms(2))+
  with a email_runs [of "au_db s" "au_db ?s2" n r] have "get_by_email n (au_db ?s2) = Some r" by (simp add: auth_leads_def)
  then have "n \<in> ac_email ` set (db_users (au_db ?s2))"
    using find_none [of ac_email n "db_users (au_db ?s2)"] by (auto simp: get_by_email_def)
  with a assms(1) show "fst (signup e cfg email password s) = Inl Email_taken"
    "\<exists>t. au_db (snd (signup e cfg email password s)) = au_db (auth_pause e t)"
    by (auto simp: signup_def auth_then_def auth_lift_def password_work_eq register_def auth_query_def all_answered_def
        create_user_def Let_def)
qed

section \<open>The password slots\<close>

definition pool_ok :: "hash_pool \<Rightarrow> bool" where
  "pool_ok p \<longleftrightarrow> hp_running p + hp_draining p \<le> PASSWORD_SLOTS"

lemma pool_next_ok: "pool_next ev p = Some p' \<Longrightarrow> pool_ok p \<Longrightarrow> pool_ok p' \<and> (ev \<noteq> Cancelled_again \<longrightarrow> hp_orphans p' \<le> hp_orphans p)"
  by (cases ev) (auto simp: pool_ok_def split: if_splits)

lemma pool_run_ok:
  "pool_run evs p = Some p' \<Longrightarrow> pool_ok p \<Longrightarrow> pool_ok p' \<and> (Cancelled_again \<notin> set evs \<longrightarrow> hp_orphans p' \<le> hp_orphans p)"
proof (induction evs arbitrary: p)
  case (Cons ev evs)
  then obtain p1 where "pool_next ev p = Some p1" "pool_run evs p1 = Some p'" by (auto split: option.splits)
  with pool_next_ok [OF this(1)] Cons show ?case by fastforce
qed simp

lemma pool_run_append: "pool_run (xs @ ys) p = (case pool_run xs p of None \<Rightarrow> None | Some q \<Rightarrow> pool_run ys q)"
  by (induction xs arbitrary: p) (simp_all split: option.split)

text \<open>One round: a job starts, is cancelled, and is cancelled again while it drains its thread.\<close>

definition twice_cancelled :: "pool_event list" where
  "twice_cancelled = [Job_arrives, Job_starts, Job_cancelled, Cancelled_again]"

lemma twice_cancelled_round:
  "hp_running p = 0 \<Longrightarrow> hp_draining p = 0 \<Longrightarrow> pool_run twice_cancelled p = Some (p\<lparr>hp_orphans := Suc (hp_orphans p)\<rparr>)"
  by (simp add: twice_cancelled_def PASSWORD_SLOTS_def)

text \<open>
  C35. At most four passwords are hashed at once, also when requests are cancelled while they wait or
  while their thread runs, provided none is cancelled twice; a job cancelled a second time gives its
  slot back while its thread still runs, and in this way any number of threads can run at once.
\<close>

theorem password_slots:
  "(\<forall>evs p. pool_run evs idle_pool = Some p \<and> Cancelled_again \<notin> set evs \<longrightarrow> hash_threads p \<le> 4) \<and>
   (\<exists>p. pool_run (concat (replicate n twice_cancelled)) idle_pool = Some p \<and> hash_threads p = n)"
proof (intro conjI allI impI)
  fix evs p assume run: "pool_run evs idle_pool = Some p \<and> Cancelled_again \<notin> set evs"
  with pool_run_ok [of evs idle_pool p] show "hash_threads p \<le> 4"
    by (simp add: pool_ok_def idle_pool_def hash_threads_def PASSWORD_SLOTS_def)
next
  have "pool_run (concat (replicate n twice_cancelled)) p = Some (p\<lparr>hp_orphans := hp_orphans p + n\<rparr>)"
    if "hp_running p = 0" "hp_draining p = 0" for p
    using that by (induction n arbitrary: p) (simp_all add: pool_run_append twice_cancelled_round)
  from this [of idle_pool] show "\<exists>p. pool_run (concat (replicate n twice_cancelled)) idle_pool = Some p \<and> hash_threads p = n"
    by (auto simp: idle_pool_def hash_threads_def)
qed

theorem password_slots_witness:
  "\<exists>p. pool_run (concat (replicate 5 twice_cancelled)) idle_pool = Some p \<and> hash_threads p = 5"
  using conjunct2 [OF password_slots [of 5]] .

section \<open>A small deployment\<close>

definition demo_hasher :: hasher where
  "demo_hasher = \<lparr>h_hash = (\<lambda>n p. ''$'' @ p), h_verify = (\<lambda>encoded p. if encoded = ''$'' @ p then Verified else Verify_mismatch)\<rparr>"

definition demo_auth :: auth_env where
  "demo_auth = \<lparr>ae_others = (\<lambda>n (t, db). (t + 1, db)), ae_calls = (\<lambda>_. Answered), ae_sha256 = (\<lambda>x. ''#'' @ x),
     ae_token = (\<lambda>n. ''token''), ae_uuid = (\<lambda>n. ''u1''), ae_hasher = demo_hasher\<rparr>"

definition demo_policy :: account_settings where
  "demo_policy = \<lparr>session_ttl_seconds = 60, password_min_length = 4, password_max_length = 64\<rparr>"

definition demo_visit :: auth_world where
  "demo_visit = \<lparr>au_now = 0, au_db = empty_database, au_awaits = 0, au_work = 0\<rparr>"

definition demo_signup :: "(auth_error + user \<times> string) \<times> auth_world" where
  "demo_signup = signup demo_auth demo_policy '' Ann@Mail.ca'' ''pass'' demo_visit"

lemma demo_auth_facts:
  "argon2_sound (ae_hasher demo_auth)" "auth_fair demo_auth" "all_answered demo_auth"
  "normalize_email ''ANN@mail.ca'' = Inr ''ann@mail.ca''" "auth_keeps h demo_auth"
proof -
  show "argon2_sound (ae_hasher demo_auth)" by (auto simp: argon2_sound_def demo_auth_def demo_hasher_def)
  show "auth_fair demo_auth" "all_answered demo_auth" "auth_keeps h demo_auth"
    by (auto simp: auth_fair_def auth_keeps_def all_answered_def demo_auth_def)
  show "normalize_email ''ANN@mail.ca'' = Inr ''ann@mail.ca''" by code_simp
qed

lemma demo_signup_facts:
  "demo_signup = (Inr (\<lparr>usr_id = ''u1'', usr_email = ''ann@mail.ca'', usr_created_at = 2\<rparr>, ''token''), snd demo_signup)"
  "get_by_email ''ann@mail.ca'' (au_db (snd demo_signup)) =
     Some \<lparr>ac_id = ''u1'', ac_email = ''ann@mail.ca'', ac_created_at = 2, ac_password_hash = ''$pass''\<rparr>"
  "get_by_email ''bob@mail.ca'' (au_db (auth_pause demo_auth (snd demo_signup))) = None"
  "get_by_email ''ann@mail.ca'' (au_db (auth_pause demo_auth (snd demo_signup))) =
     Some \<lparr>ac_id = ''u1'', ac_email = ''ann@mail.ca'', ac_created_at = 2, ac_password_hash = ''$pass''\<rparr>"
  by code_simp+

text \<open>The same deployment with another token for every await.\<close>

definition demo_drawing :: auth_env where
  "demo_drawing = demo_auth\<lparr>ae_token := (\<lambda>n. ''x'' @ show_nat n)\<rparr>"

lemma demo_drawing_facts:
  "argon2_sound (ae_hasher demo_drawing)" "auth_fair demo_drawing" "all_answered demo_drawing"
  "fresh_tokens demo_drawing (snd demo_signup)"
proof -
  show "argon2_sound (ae_hasher demo_drawing)" "auth_fair demo_drawing" "all_answered demo_drawing"
    using demo_auth_facts(1-3) by (simp_all add: demo_drawing_def auth_fair_def all_answered_def)
  have "map se_token_hash (db_sessions (au_db (snd demo_signup))) = [''#token'']" by code_simp
  moreover have "db_sessions (au_db ((auth_pause demo_drawing ^^ n) s)) = db_sessions (au_db s)" for n s
    by (induction n) (simp_all add: auth_pause_def demo_drawing_def demo_auth_def)
  ultimately have "map se_token_hash (db_sessions (au_db ((auth_pause demo_drawing ^^ n) (snd demo_signup)))) = [''#token'']" for n
    by simp
  then have h: "se_token_hash ` set (db_sessions (au_db ((auth_pause demo_drawing ^^ n) (snd demo_signup)))) = {''#token''}" for n
    by (metis list.set_map list.simps(15) empty_set)
  have "hash_token demo_drawing (ae_token demo_drawing n) \<noteq> ''#token''" for n
    by (simp add: hash_token_def demo_drawing_def demo_auth_def)
  then show "fresh_tokens demo_drawing (snd demo_signup)"
    unfolding fresh_tokens_def get_by_token_hash_def find_none h by simp
qed

text \<open>The right password opens the account; a guess does not.\<close>

theorem only_the_password_opens_witness:
  "(\<exists>token. fst (login demo_drawing demo_policy ''ANN@mail.ca'' ''pass'' (snd demo_signup)) =
      Inr (\<lparr>usr_id = ''u1'', usr_email = ''ann@mail.ca'', usr_created_at = 2\<rparr>, token)) \<and>
   fst (login demo_drawing demo_policy ''ANN@mail.ca'' ''guess'' (snd demo_signup)) = Inl Invalid_credentials"
proof -
  have "ac_password_hash \<lparr>ac_id = ''u1'', ac_email = ''ann@mail.ca'', ac_created_at = 2, ac_password_hash = ''$pass''\<rparr> =
      h_hash (ae_hasher demo_drawing) 0 ''pass''" by (simp add: demo_drawing_def demo_auth_def demo_hasher_def)
  note opens = only_the_password_opens [OF demo_drawing_facts(1-3) demo_auth_facts(4) demo_signup_facts(2) this demo_drawing_facts(4)
      surjective_pairing]
  from opens [where password = "''pass''" and cfg = demo_policy] opens [where password = "''guess''" and cfg = demo_policy] show ?thesis by (auto simp: to_public_def)
qed

theorem login_does_not_enumerate_witness:
  "fst (login demo_auth demo_policy ''bob@mail.ca'' ''guess'' (snd demo_signup)) =
   fst (login demo_auth demo_policy ''ANN@mail.ca'' ''guess'' (snd demo_signup))"
proof -
  have "normalize_email ''bob@mail.ca'' = Inr ''bob@mail.ca''" by code_simp
  moreover have "\<not> hasher_verify (ae_hasher demo_auth) ''$pass'' ''guess''"
    by (simp add: hasher_verify_def demo_auth_def demo_hasher_def)
  ultimately show ?thesis
    using login_does_not_enumerate [OF demo_auth_facts(3) _ demo_signup_facts(3) demo_auth_facts(4) demo_signup_facts(4)]
    by simp
qed

lemma demo_never_again: "auth_never_again h demo_auth"
  by (simp add: auth_never_again_def demo_auth_def)

theorem signup_session_lasts_witness:
  "fst (authenticate demo_auth (Some ''token'') (snd demo_signup)) = Inr (Some \<lparr>usr_id = ''u1'', usr_email = ''ann@mail.ca'', usr_created_at = 2\<rparr>) \<and>
   fst (authenticate demo_auth (Some ''token'') (snd (logout demo_auth ''token'' (snd demo_signup)))) = Inr None"
proof -
  let ?u = "\<lparr>usr_id = ''u1'', usr_email = ''ann@mail.ca'', usr_created_at = 2\<rparr>" and ?s = "snd demo_signup"
  have run: "signup demo_auth demo_policy '' Ann@Mail.ca'' ''pass'' demo_visit = (Inr (?u, ''token''), ?s)"
    using demo_signup_facts(1) by (simp add: demo_signup_def)
  have ok: "database_ok (au_db demo_visit)" by (simp add: demo_visit_def database_ok_empty)
  note lasts = signup_session_lasts [OF run demo_auth_facts(3,2) ok]
  obtain expires where x: "au_now demo_visit + timedelta_seconds (session_ttl_seconds demo_policy) \<le> expires"
    "\<forall>e' t t' out. (keeps (hash_token demo_auth ''token''))\<^sup>*\<^sup>* (au_db ?s) (au_db t) \<and> ae_sha256 e' = ae_sha256 demo_auth \<and>
       all_answered e' \<and> auth_keeps (hash_token demo_auth ''token'') e' \<and> authenticate e' (Some ''token'') t = (out, t') \<longrightarrow>
       (au_now t' < expires \<longrightarrow> out = Inr (Some ?u)) \<and> (expires \<le> au_now t \<longrightarrow> out = Inr None)"
    using lasts by auto
  have "au_now (snd (authenticate demo_auth (Some ''token'') ?s)) = 5" by code_simp
  moreover have "au_now demo_visit + timedelta_seconds (session_ttl_seconds demo_policy) = 60000000" by code_simp
  ultimately have "au_now (snd (authenticate demo_auth (Some ''token'') ?s)) < expires" using x(1) by simp
  moreover have "authenticate demo_auth (Some ''token'') ?s =
      (fst (authenticate demo_auth (Some ''token'') ?s), snd (authenticate demo_auth (Some ''token'') ?s))" by simp
  ultimately have "fst (authenticate demo_auth (Some ''token'') ?s) = Inr (Some ?u)"
    using x(2) [rule_format, of ?s demo_auth] demo_auth_facts(3,5) by blast
  moreover have "fst (authenticate demo_auth (Some ''token'') (snd (logout demo_auth ''token'' ?s))) = Inr None"
  proof -
    have "fst (logout demo_auth ''token'' ?s) = Inr ()" by code_simp
    then have "logout demo_auth ''token'' ?s = (Inr (), snd (logout demo_auth ''token'' ?s))" by (metis surjective_pairing)
    with lasts demo_auth_facts(3) demo_never_again show ?thesis
      by (metis (no_types, lifting) list.distinct(1) rtranclp.rtrancl_refl surjective_pairing)
  qed
  ultimately show ?thesis by blast
qed

theorem address_registered_once_witness:
  "fst (signup demo_auth demo_policy ''ANN@mail.ca'' ''other'' (snd demo_signup)) = Inl Email_taken"
proof -
  have "check_password demo_policy ''other'' = Inr ()" by code_simp
  with address_registered_once [OF demo_auth_facts(3,2), of "''ANN@mail.ca''" demo_policy "''other''" "snd demo_signup"]
    demo_auth_facts(4) demo_signup_facts(2) show ?thesis by blast
qed

end
