(* ===== verification/Intent_Properties.thy ===== *)
theory Intent_Properties
  imports Intents
begin

text \<open>
  What the validator guarantees about any extraction that matches the provider schema: the intent it
  builds is always a valid model object, a ready one always yields a valid query, and its date and time
  lie ahead, except through a malformed time window.
\<close>

section \<open>Clock strings\<close>

lemma digit_val_inj: "digit_val a = digit_val b \<longleftrightarrow> a = b"
  by (auto simp: digit_val_def)

lemma digit_val_less: "a < b \<longleftrightarrow> digit_val a < digit_val b" for a b :: char
  by (simp add: digit_val_def less_char_def)

text \<open>Clock strings compare as the minutes they denote.\<close>

lemma clock_order:
  assumes "hour_minute_shape s" and "hour_minute_shape t"
  shows "s < t \<longleftrightarrow> to_minutes s < to_minutes t"
proof -
  obtain a b m n where s: "s = [a, b, CHR '':'', m, n]" "is_digit b" "is_digit m" "is_digit n" "digit_val m \<le> 5"
    using assms(1) by (cases s rule: hour_minute_shape.cases) auto
  obtain a' b' m' n' where t: "t = [a', b', CHR '':'', m', n']" "is_digit b'" "is_digit m'" "is_digit n'" "digit_val m' \<le> 5"
    using assms(2) by (cases t rule: hour_minute_shape.cases) auto
  note r = digit_val_range [OF s(2)] digit_val_range [OF s(3)] digit_val_range [OF s(4)]
    digit_val_range [OF t(2)] digit_val_range [OF t(3)] digit_val_range [OF t(4)]
  have "s < t \<longleftrightarrow> digit_val a < digit_val a' \<or> digit_val a = digit_val a' \<and> (digit_val b < digit_val b' \<or>
      digit_val b = digit_val b' \<and> (digit_val m < digit_val m' \<or> digit_val m = digit_val m' \<and> digit_val n < digit_val n'))"
    by (auto simp: s(1) t(1) digit_val_less digit_val_inj)
  also have "\<dots> \<longleftrightarrow> to_minutes s < to_minutes t"
    using r s(5) t(5) by (simp add: s(1) t(1) to_minutes_def numeral_3_eq_3 numeral_2_eq_2) linarith
  finally show ?thesis .
qed

lemma next_slot_boundary_facts:
  assumes "0 \<le> m" and "m < 1440"
  shows "hour_minute_shape (next_slot_boundary (from_minutes m))"
    and "m \<le> to_minutes (next_slot_boundary (from_minutes m))"
proof -
  define r where "r = - ((- m) div 15) * 15"
  have "- 96 \<le> (- m) div 15" using zdiv_mono1 [of "- 1440" "- m" 15] assms by simp
  then have r: "m \<le> r" "0 \<le> r" "r \<le> 1440" using assms unfolding r_def by linarith+
  have eq: "next_slot_boundary (from_minutes m) = (if 1440 \<le> r then ''23:59'' else from_minutes r)"
    using from_minutes_shape(2) [OF assms]
    by (simp add: next_slot_boundary_def SLOT_INTERVAL_MINUTES_def Let_def r_def)
  have late: "hour_minute_shape ''23:59''" "to_minutes ''23:59'' = 1439" by code_simp+
  show "hour_minute_shape (next_slot_boundary (from_minutes m))"
    using from_minutes_shape(1) [of r] r late by (simp add: eq)
  show "m \<le> to_minutes (next_slot_boundary (from_minutes m))"
    using from_minutes_shape(2) [of r] r late assms by (simp add: eq)
qed

section \<open>Names and questions\<close>

lemma catalog_names: "v \<in> set VENUE_CATALOG \<Longrightarrow> 1 \<le> length (v_name v) \<and> length (v_name v) \<le> 40"
  by (auto simp: VENUE_CATALOG_def restaurant_def recreation_def)

lemma resolution_candidates: "resolution_of ms = Some res \<Longrightarrow> v \<in> set (vr_candidates res) \<Longrightarrow> v \<in> set ms"
  by (auto simp: resolution_of_def split: list.splits)

lemma resolve_venue_candidates: "v \<in> set (vr_candidates (resolve_venue name)) \<Longrightarrow> v \<in> set VENUE_CATALOG"
  by (auto simp: resolve_venue_def Let_def unknown_resolution_def exact_matches_def partial_matches_def
      split: if_splits option.splits dest: resolution_candidates)

lemma resolve_venue_field_facts:
  assumes "resolve_venue_field x = (name, kind, candidates)" and "extraction_valid x"
  shows "opt_all (sized 200) name" and "\<And>c. c \<in> set candidates \<Longrightarrow> length c \<le> 40"
proof -
  have cat: "sized 200 (v_name v)" if "vr_venue (resolve_venue n) = Some v" for n v
    using catalog_names [OF resolve_venue_member [OF that]] by (simp add: sized_def)
  have own: "opt_all (sized 200) (ex_venue_name x)"
    using assms(2) by (simp add: extraction_valid_def details_valid_def)
  show "opt_all (sized 200) name"
  proof (cases "ex_venue_name x")
    case None
    with assms(1) show ?thesis by (simp add: resolve_venue_field_def)
  next
    case (Some n)
    with own have "sized 200 n" by simp
    with assms(1) cat [of n] show ?thesis
      by (auto simp: Some resolve_venue_field_def Let_def split: option.splits venue_resolution_status.splits)
  qed
  show "length c \<le> 40" if "c \<in> set candidates" for c
    using assms(1) that resolve_venue_candidates catalog_names
    by (fastforce simp: resolve_venue_field_def Let_def split: option.splits venue_resolution_status.splits)
qed

lemma join_choices_length:
  assumes "parts \<noteq> []" and "length parts \<le> 3" and "\<And>p. p \<in> set parts \<Longrightarrow> length p \<le> 40"
  shows "length (join_choices word parts) \<le> 126 + length word"
proof -
  from assms(1,2) consider a where "parts = [a]" | a b where "parts = [a, b]" | a b d where "parts = [a, b, d]"
    by (cases parts rule: remdups_adj.cases; fastforce simp: length_Suc_conv le_Suc_eq numeral_3_eq_3)
  then show ?thesis
  proof cases
    case 1
    with assms(3) [of a] show ?thesis by (simp add: join_choices_def)
  next
    case (2 a b)
    with assms(3) [of a] assms(3) [of b] show ?thesis by (simp add: join_choices_def)
  next
    case (3 a b d)
    with assms(3) [of a] assms(3) [of b] assms(3) [of d] show ?thesis by (simp add: join_choices_def)
  qed
qed

lemma build_question_sized:
  assumes "missing = missing_fields_of x name candidates target has_time" and "missing \<noteq> []"
    and "\<And>c. c \<in> set candidates \<Longrightarrow> length c \<le> 40"
  shows "sized 400 (build_question missing dp tp candidates)"
proof (cases "specific_question missing dp tp candidates")
  case (Some question)
  show ?thesis
  proof (cases "missing = [F_VENUE_NAME] \<and> candidates \<noteq> []")
    case True
    have "length (join_choices ''or'' (take 3 candidates)) \<le> 126 + length ''or''"
      by (rule join_choices_length) (use True assms(3) in \<open>auto dest: in_set_takeD\<close>)
    with True show ?thesis
      by (simp add: build_question_def specific_question_def sized_def)
  next
    case False
    with Some show ?thesis
      by (auto simp: build_question_def specific_question_def sized_def
          split: if_splits option.splits date_problem.splits time_problem.splits)
  qed
next
  case None
  with assms(1,2) show ?thesis
    by (cases "ex_action x = None"; cases "name = None \<or> candidates \<noteq> []"; cases "ex_party_size x = None";
        cases "target = None"; cases has_time)
       (simp_all add: build_question_def missing_fields_of_def join_choices_def sized_def)
qed

section \<open>The validator\<close>

lemma resolve_date_facts:
  assumes "resolve_date x today = (Some s, dp)"
  obtains d where "ex_date x = Some s" "fromisoformat s = Some d" "today \<le> d"
    "toordinal d \<le> toordinal today + MAX_DAYS_AHEAD"
  using assms by (auto simp: resolve_date_def not_less split: option.splits if_splits)

text \<open>What the resolved time preference looks like.\<close>

lemma resolve_time_facts:
  assumes x: "extraction_valid x" and ref: "local_time_valid ref"
    and run: "resolve_time x ref target = (pref, tw, tp)"
  shows "opt_all hour_minute_shape pref" and "opt_all time_window_valid tw"
    and "tp \<noteq> Some Conflicting_time \<Longrightarrow> pref = Some t \<Longrightarrow> tw = Some w \<Longrightarrow> tw_start w \<le> t \<and> t \<le> tw_end w"
    and "tp = None \<Longrightarrow> target = Some (isoformat (lt_date ref)) \<Longrightarrow>
      (\<forall>t. pref = Some t \<longrightarrow> lt_minute ref \<le> to_minutes t) \<and>
      (\<forall>w. tw = Some w \<longrightarrow> lt_minute ref \<le> to_minutes (tw_start w))"
proof -
  let ?e = "next_slot_boundary (from_minutes (lt_minute ref))"
  have e: "hour_minute_shape ?e" "lt_minute ref \<le> to_minutes ?e"
    using next_slot_boundary_facts ref by (simp_all add: local_time_valid_def)
  have late: "lt_minute ref \<le> to_minutes t" if "hour_minute_shape t" "\<not> t < ?e" for t
    using clock_order [OF that(1) e(1)] that(2) e(2) by simp
  define p where "p = ex_preferred_time x"
  define v where "v = ex_time_window x"
  have shapes: "opt_all hour_minute_shape p" "opt_all time_window_valid v"
    using x by (simp_all add: extraction_valid_def details_valid_def p_def v_def)
  note r = run [unfolded resolve_time_def Let_def, folded p_def v_def]
  show "opt_all hour_minute_shape pref" "opt_all time_window_valid tw"
    using r shapes e(1) by (cases p; cases v; auto simp: time_window_valid_def split: if_splits)+
  show "tw_start w \<le> t \<and> t \<le> tw_end w" if "tp \<noteq> Some Conflicting_time" "pref = Some t" "tw = Some w"
    using r that by (cases p; cases v; auto simp: not_less split: if_splits)
  show "(\<forall>t. pref = Some t \<longrightarrow> lt_minute ref \<le> to_minutes t) \<and>
      (\<forall>w. tw = Some w \<longrightarrow> lt_minute ref \<le> to_minutes (tw_start w))"
    if "tp = None" "target = Some (isoformat (lt_date ref))"
    using r that shapes e late by (cases p; cases v; auto simp: time_window_valid_def split: if_splits)
qed

lemma intent_checks:
  assumes "extraction_valid x" and "local_time_valid ref"
  shows "intent_valid (validate_intent x ref) \<and>
    (is_ready (validate_intent x ref) = (query_from (validate_intent x ref) \<noteq> None \<and>
       in_missing_fields (validate_intent x ref) = []))"
proof -
  obtain name kind candidates where venue: "resolve_venue_field x = (name, kind, candidates)"
    by (rule prod_cases3)
  obtain target dp where day: "resolve_date x (lt_date ref) = (target, dp)" by fastforce
  obtain pref tw tp where clock: "resolve_time x ref target = (pref, tw, tp)" by (rule prod_cases3)
  define has_time where "has_time = ((pref \<noteq> None \<or> tw \<noteq> None) \<and> tp \<noteq> Some Conflicting_time)"
  define missing where "missing = missing_fields_of x name candidates target has_time"
  note vf = resolve_venue_field_facts [OF venue assms(1)] and tf = resolve_time_facts [OF assms clock]
  have date: "opt_all (\<lambda>s. fromisoformat s \<noteq> None) target" "opt_all iso_date_shape target"
  proof -
    have "\<exists>d. fromisoformat s = Some d" if "target = Some s" for s
      using day that by (auto elim: resolve_date_facts)
    then show "opt_all (\<lambda>s. fromisoformat s \<noteq> None) target" "opt_all iso_date_shape target"
      using fromisoformat_shape by (cases target, simp, force)+
  qed
  have x: "opt_all (\<lambda>n. 1 \<le> n \<and> n \<le> 100) (ex_party_size x)" "opt_all (\<lambda>d. 15 \<le> d \<and> d \<le> 720) (ex_duration_minutes x)"
    "length (ex_special_requests x) \<le> 10" "list_all (sized 200) (ex_special_requests x)"
    using assms(1) by (simp_all add: extraction_valid_def details_valid_def)
  note eq = validate_intent_def [of x ref, unfolded venue day clock Let_def prod.case,
      folded has_time_def, folded missing_def]
  show ?thesis
  proof (cases "missing = []")
    case False
    then show ?thesis
      using build_question_sized [OF missing_def False vf(2)] vf(1) tf(1,2) date x
      by (simp add: eq intent_valid_def details_valid_def intent_state_valid_def Let_def is_ready_def)
  next
    case True
    then have all: "ex_action x \<noteq> None" "name \<noteq> None" "ex_party_size x \<noteq> None" "target \<noteq> None" has_time
      by (auto simp: missing_def missing_fields_of_def split: if_splits)
    have "route_for (ex_action x) \<noteq> CLARIFICATION" by (simp add: route_for_def)
    moreover have "query_from (validate_intent x ref) \<noteq> None"
      using all vf(1) tf(1-3) date x True
      by (auto simp: eq query_from_def query_valid_def validate_time_preference_def has_time_def sized_def [abs_def] Let_def
          split: option.splits)
    ultimately show ?thesis using all vf(1) tf(1,2) date x True
      by (auto simp: eq intent_valid_def details_valid_def intent_state_valid_def Let_def is_ready_def has_time_def)
  qed
qed

text \<open>
  C18. The validator is total on untrusted extractions: whatever the provider returned within its
  schema, the intent it builds satisfies every constraint of the model (a clarification names what is
  missing and asks a question of at most 400 characters), and a ready intent always makes a valid query.
\<close>

theorem validated_intent_is_valid:
  assumes "extraction_valid x" and "local_time_valid ref"
  shows "intent_valid (validate_intent x ref) \<and>
    (is_ready (validate_intent x ref) = (query_from (validate_intent x ref) \<noteq> None \<and>
       in_missing_fields (validate_intent x ref) = []))"
  by (rule intent_checks [OF assms])

lemma query_from_fields:
  "query_from i = Some q \<Longrightarrow>
     in_date i = Some (q_date q) \<and> q_preferred_time q = in_preferred_time i \<and> q_time_window q = in_time_window i"
  by (auto simp: query_from_def Let_def split: option.splits if_splits)


text \<open>
  The hypothesis on the window matters: with a malformed window the time-of-day check is skipped, and
  a time that already passed today is accepted.
\<close>

theorem malformed_window_hides_past_time:
  assumes "ex_time_window x = Some w" "tw_end w < tw_start w" and "ex_preferred_time x = Some t"
    and "ex_action x \<noteq> None" "ex_party_size x \<noteq> None" "ex_date x = Some (isoformat (lt_date ref))"
    and "resolve_date x (lt_date ref) = (ex_date x, None)" "resolve_venue_field x = (Some name, kind, [])"
  shows "is_ready (validate_intent x ref) \<and> in_preferred_time (validate_intent x ref) = Some t \<and>
    in_date (validate_intent x ref) = Some (isoformat (lt_date ref))"
  using assms by (simp add: validate_intent_def resolve_time_def missing_fields_of_def is_ready_def Let_def)

definition demo_extraction :: reservation_extraction where
  "demo_extraction = \<lparr>ex_action = Some BOOK_RESERVATION, ex_venue_name = Some ''-'', ex_venue_type = RESTAURANT,
     ex_party_size = Some 2, ex_date = Some ''2026-03-01'', ex_preferred_time = Some ''19:00'',
     ex_time_window = None, ex_duration_minutes = None, ex_special_requests = []\<rparr>"

definition demo_local :: local_time where
  "demo_local = \<lparr>lt_date = Date 2026 3 1, lt_minute = 1085\<rparr>"

lemma demo_intent:
  "extraction_valid demo_extraction" "local_time_valid demo_local"
  "is_ready (validate_intent demo_extraction demo_local)"
  by code_simp+

theorem validated_intent_is_valid_witness: "intent_valid (validate_intent demo_extraction demo_local)"
  using validated_intent_is_valid [OF demo_intent(1,2)] ..


theorem malformed_window_hides_past_time_witness:
  "is_ready (validate_intent (demo_extraction\<lparr>ex_preferred_time := Some ''09:00'',
      ex_time_window := Some \<lparr>tw_start = ''21:00'', tw_end = ''20:00''\<rparr>\<rparr>) demo_local)"
proof -
  let ?x = "demo_extraction\<lparr>ex_preferred_time := Some ''09:00'',
      ex_time_window := Some \<lparr>tw_start = ''21:00'', tw_end = ''20:00''\<rparr>\<rparr>"
  have "tw_end \<lparr>tw_start = ''21:00'', tw_end = ''20:00''\<rparr> < tw_start \<lparr>tw_start = ''21:00'', tw_end = ''20:00''\<rparr>"
    "ex_date ?x = Some (isoformat (lt_date demo_local))"
    "resolve_date ?x (lt_date demo_local) = (ex_date ?x, None)"
    "resolve_venue_field ?x = (Some ''-'', RESTAURANT, [])" by code_simp+
  with malformed_window_hides_past_time [of ?x "\<lparr>tw_start = ''21:00'', tw_end = ''20:00''\<rparr>" "''09:00''" demo_local]
  show ?thesis by (auto simp: demo_extraction_def)
qed

end
