(* ===== verification/Booking_Properties.thy ===== *)
theory Booking_Properties
  imports Booking_Service Intent_Properties Service_Creation "HOL-Library.Multiset"
begin

text \<open>
  The idempotency key identifies the request: the canonical JSON text is unambiguous. A prompt is
  executed safely under any interference, and its booking is the one live under the request's key.
\<close>

section \<open>Unambiguous encodings\<close>

text \<open>Where a JSON value ends: at the end of the text, at a comma or at a closing bracket.\<close>

definition value_ends :: "string \<Rightarrow> bool" where
  "value_ends x \<longleftrightarrow> x = [] \<or> hd x \<in> {CHR '','', CHR ''}'', CHR '']''}"

definition unambiguous :: "('a \<Rightarrow> string) \<Rightarrow> bool" where
  "unambiguous enc \<longleftrightarrow>
     (\<forall>a b x y. value_ends x \<longrightarrow> value_ends y \<longrightarrow> enc a @ x = enc b @ y \<longrightarrow> a = b \<and> x = y)"

lemma value_ends_simps [simp]:
  "value_ends (CHR '','' # x)" "value_ends (CHR ''}'' # x)" "value_ends (CHR '']'' # x)" "value_ends []"
  by (simp_all add: value_ends_def)

lemma unambiguousD:
  "unambiguous enc \<Longrightarrow> value_ends x \<Longrightarrow> value_ends y \<Longrightarrow> enc a @ x = enc b @ y \<longleftrightarrow> a = b \<and> x = y"
  by (auto simp: unambiguous_def)

text \<open>Short escapes, by the letter that follows the backslash.\<close>

definition short_code :: "char \<Rightarrow> nat" where
  "short_code k =
     (if k = CHR 0x22 then 34 else if k = CHR 0x5C then 92 else if k = CHR ''n'' then 10
      else if k = CHR ''r'' then 13 else if k = CHR ''t'' then 9 else if k = CHR ''f'' then 12 else 8)"

lemma hex_digit_inj: "m < 16 \<Longrightarrow> n < 16 \<Longrightarrow> hex_digit m = hex_digit n \<longleftrightarrow> m = n"
  by (auto simp: hex_digit_def char_of_eq_iff take_bit_eq_mod split: if_splits)

lemma json_escape_cases:
  obtains (plain) "json_escape c = [c]" "c \<noteq> CHR 0x5C" "c \<noteq> CHR 0x22"
  | (short) k where "json_escape c = [CHR 0x5C, k]" "k \<noteq> CHR ''u''" "of_char c = short_code k"
  | (hex) "json_escape c = [CHR 0x5C, CHR ''u'', CHR ''0'', CHR ''0'', hex_digit (of_char c div 16), hex_digit (of_char c mod 16)]"
proof -
  let ?n = "of_char c :: nat"
  consider "?n \<in> {34, 92, 10, 13, 9, 12, 8}" | "?n \<notin> {34, 92, 10, 13, 9, 12, 8}" "32 \<le> ?n" "?n \<le> 126"
    | "?n \<notin> {34, 92, 10, 13, 9, 12, 8}" "\<not> (32 \<le> ?n \<and> ?n \<le> 126)" by blast
  then show thesis
  proof cases
    case 1
    then show thesis
      by (auto intro: short simp: json_escape_def short_code_def)
  next
    case 2
    then show thesis by (intro plain) (auto simp: json_escape_def Let_def)
  next
    case 3
    then show thesis by (intro hex) (auto simp: json_escape_def Let_def)
  qed
qed

lemma json_escape_prefix_free:
  assumes "json_escape c @ x = json_escape d @ y"
  shows "c = d \<and> x = y"
proof -
  have hex_eq: "c = d" if "hex_digit (of_char c div 16) = hex_digit (of_char d div 16)"
    "hex_digit (of_char c mod 16) = hex_digit (of_char d mod 16)"
  proof -
    have "(of_char c :: nat) < 256" "(of_char d :: nat) < 256" by simp_all
    with that have "(of_char c :: nat) div 16 = of_char d div 16 \<and> (of_char c :: nat) mod 16 = of_char d mod 16"
      using hex_digit_inj by auto
    then have "(of_char c :: nat) = of_char d" by (metis div_mult_mod_eq)
    then show ?thesis by simp
  qed
  have short_eq: "c = d" if "(of_char c :: nat) = short_code k" "of_char d = short_code k" for k
    using that by (metis of_char_eq_iff)
  show ?thesis
    by (rule json_escape_cases [of c]; rule json_escape_cases [of d])
       (use assms hex_eq short_eq in auto)
qed

lemma json_escape_no_quote: "json_escape c @ x \<noteq> CHR 0x22 # y" "CHR 0x22 # y \<noteq> json_escape c @ x"
  by (rule json_escape_cases [of c]; simp)+

lemma json_chars_prefix_free:
  "concat (map json_escape s) @ CHR 0x22 # x = concat (map json_escape t) @ CHR 0x22 # y \<Longrightarrow> s = t \<and> x = y"
proof (induction s arbitrary: t)
  case Nil
  then show ?case by (cases t) (simp_all add: json_escape_no_quote)
next
  case (Cons c s)
  show ?case
  proof (cases t)
    case Nil
    with Cons.prems show ?thesis by (simp add: json_escape_no_quote)
  next
    case t: (Cons d ds)
    from Cons.prems json_escape_prefix_free [of c _ d] have "c = d \<and>
        concat (map json_escape s) @ CHR 0x22 # x = concat (map json_escape ds) @ CHR 0x22 # y"
      unfolding t by simp
    with Cons.IH [of ds] t show ?thesis by simp
  qed
qed

lemma json_string_prefix_free: "json_string s @ x = json_string t @ y \<longleftrightarrow> s = t \<and> x = y"
  using json_chars_prefix_free [of s x t y] by (auto simp: json_string_def)

lemma unambiguous_string [simp]: "unambiguous json_string"
  by (auto simp: unambiguous_def json_string_prefix_free)

text \<open>Numbers end where a value ends, since their digits are no delimiters.\<close>

lemma show_nat_chars: "c \<in> set (show_nat n) \<Longrightarrow> is_digit c"
proof (induction n rule: show_nat.induct)
  case (1 n)
  have "d < 10 \<Longrightarrow> is_digit (digit_char d)" for d by (simp add: is_digit_def digit_char_def)
  with 1 show ?case by (cases "n < 10") (auto simp: show_nat.simps [of n])
qed

lemma show_int_digits: "c \<in> set (show_int n) \<Longrightarrow> is_digit c \<or> c = CHR ''-''"
  using show_nat_chars by (auto simp: show_int_def split: if_splits)

lemma show_int_chars: "c \<in> set (show_int n) \<Longrightarrow> c \<notin> {CHR '','', CHR ''}'', CHR '']''}"
  using show_int_digits [of c n] by (auto simp: is_digit_def)

lemma value_ends_split:
  assumes "u @ x = v @ y" and "value_ends x" "value_ends y"
    and "\<And>c. c \<in> set u \<union> set v \<Longrightarrow> c \<notin> {CHR '','', CHR ''}'', CHR '']''}"
  shows "u = v \<and> x = y"
proof -
  let ?p = "\<lambda>c. c \<notin> {CHR '','', CHR ''}'', CHR '']''}"
  have take: "takeWhile ?p (w @ z) = w" if "value_ends z" "\<And>c. c \<in> set w \<Longrightarrow> ?p c" for w z
    using that by (induction w) (cases z; auto simp: value_ends_def)+
  have "u = v" using take [of x u] take [of y v] assms by (metis UnI1 UnI2)
  with assms(1) show ?thesis by simp
qed

lemma unambiguous_int [simp]: "unambiguous show_int"
  unfolding unambiguous_def using value_ends_split show_int_chars show_int_inj by (metis Un_iff)

lemma unambiguous_comp: "unambiguous enc \<Longrightarrow> inj f \<Longrightarrow> unambiguous (enc \<circ> f)"
  by (simp add: unambiguous_def inj_def)

text \<open>\<^verbatim>\<open>null\<close> is no string, no object and no number.\<close>

lemma unambiguous_option:
  assumes "unambiguous enc" and start: "\<And>a. \<exists>c cs. enc a = c # cs \<and> c \<noteq> CHR ''n''"
  shows "unambiguous (json_option enc)"
  unfolding unambiguous_def
proof (intro allI impI)
  fix a b x y assume "value_ends x" "value_ends y" "json_option enc a @ x = json_option enc b @ y"
  then show "a = b \<and> x = y"
    using unambiguousD [OF assms(1)] start [of "the a"] start [of "the b"]
    by (cases a; cases b) (auto simp: json_option_def)
qed

lemma int_start: "\<exists>c cs. show_int n = c # cs \<and> c \<noteq> CHR ''n''"
proof -
  have "show_int n \<noteq> []" by (simp add: show_int_def show_nat_nonempty)
  then obtain c cs where eq: "show_int n = c # cs" by (cases "show_int n") auto
  then have "is_digit c \<or> c = CHR ''-''" using show_int_digits [of c n] by simp
  with eq show ?thesis by (auto simp: is_digit_def)
qed

lemma list_items_unambiguous:
  assumes enc: "unambiguous enc" and start: "\<And>a. \<exists>c cs. enc a = c # cs \<and> c \<noteq> CHR '']''"
  shows "join_with '','' (map enc xs) @ CHR '']'' # x = join_with '','' (map enc ys) @ CHR '']'' # y \<Longrightarrow>
    xs = ys \<and> x = y"
proof (induction xs arbitrary: ys)
  case Nil
  show ?case
  proof (cases ys)
    case (Cons b bs)
    with Nil start [of b] show ?thesis by (cases bs) auto
  qed (use Nil in simp)
next
  case (Cons a as)
  obtain b bs where ys: "ys = b # bs"
    using Cons.prems start [of a] by (cases ys; cases as) auto
  show ?case
  proof (cases "as = [] \<or> bs = []")
    case True
    with Cons.prems ys show ?thesis
      by (cases as; cases bs) (auto simp: unambiguousD [OF enc])
  next
    case False
    then obtain a' as' b' bs' where "as = a' # as'" "bs = b' # bs'" by (auto simp: neq_Nil_conv)
    with Cons.prems ys Cons.IH [of bs] show ?thesis by (auto simp: unambiguousD [OF enc])
  qed
qed

lemma unambiguous_list:
  "unambiguous enc \<Longrightarrow> (\<And>a. \<exists>c cs. enc a = c # cs \<and> c \<noteq> CHR '']'') \<Longrightarrow> unambiguous (json_list enc)"
  by (auto simp: unambiguous_def [of "json_list enc"] json_list_def dest!: list_items_unambiguous)

lemma json_window_eq:
  "json_window w = ''{'' @ json_string ''end'' @ '':'' @ json_string (tw_end w) @ '','' @
     json_string ''start'' @ '':'' @ json_string (tw_start w) @ ''}''"
  by (simp add: json_window_def json_object_def)

lemma unambiguous_window [simp]: "unambiguous json_window"
  by (auto simp: unambiguous_def json_window_eq json_string_prefix_free)

lemma window_start: "\<exists>c cs. json_window w = c # cs \<and> c \<noteq> CHR ''n''"
  by (simp add: json_window_eq)

lemma unambiguous_fields [simp]:
  "unambiguous (json_option json_string)" "unambiguous (json_option show_int)" "unambiguous (json_option json_window)"
  "unambiguous (json_list json_string)" "unambiguous (json_option (json_string \<circ> action_value))"
proof -
  have "inj action_value"
  proof (rule injI)
    fix a b assume "action_value a = action_value b"
    then show "a = b" by (cases a; cases b) simp_all
  qed
  then show "unambiguous (json_option (json_string \<circ> action_value))"
    by (intro unambiguous_option unambiguous_comp) (simp_all add: json_string_def)
  show "unambiguous (json_option json_string)" "unambiguous (json_option show_int)" "unambiguous (json_option json_window)"
    "unambiguous (json_list json_string)"
    by (intro unambiguous_option unambiguous_list int_start window_start; simp add: json_string_def)+
qed

text \<open>The members in key order.\<close>

lemma booking_identity_eq:
  "booking_identity act q scope =
     ''{'' @ json_string ''action'' @ '':'' @ json_option (json_string \<circ> action_value) act @ '','' @
     json_string ''date'' @ '':'' @ json_string (q_date q) @ '','' @
     json_string ''duration_minutes'' @ '':'' @ json_option show_int (q_duration_minutes q) @ '','' @
     json_string ''market'' @ '':'' @ json_string (q_market q) @ '','' @
     json_string ''owner'' @ '':'' @ json_string scope @ '','' @
     json_string ''party_size'' @ '':'' @ show_int (q_party_size q) @ '','' @
     json_string ''preferred_time'' @ '':'' @ json_option json_string (q_preferred_time q) @ '','' @
     json_string ''special_requests'' @ '':'' @ json_list json_string (sort (map casefold (q_special_requests q))) @ '','' @
     json_string ''time_window'' @ '':'' @ json_option json_window (q_time_window q) @ '','' @
     json_string ''venue_name'' @ '':'' @ json_string (casefold (q_venue_name q)) @ '','' @
     json_string ''venue_type'' @ '':'' @ json_string (venue_type_value (q_venue_type q)) @ ''}''"
  by (simp add: booking_identity_def json_object_def)

text \<open>
  C13. The idempotency key identifies the request: with a digest that does not collide, two requests
  share a key exactly when owner, action, party, date, times and duration agree and the venue and the
  special requests agree up to case and order; so nothing else is ever answered with their booking.
\<close>

theorem booking_key_identifies_request:
  assumes "\<And>x y. sha x = sha y \<Longrightarrow> x = y"
  shows "booking_key sha act q scope = booking_key sha act' q' scope' \<longleftrightarrow>
    scope = scope' \<and> act = act' \<and> casefold (q_venue_name q) = casefold (q_venue_name q') \<and>
    q_venue_type q = q_venue_type q' \<and> q_market q = q_market q' \<and> q_party_size q = q_party_size q' \<and>
    q_date q = q_date q' \<and> q_preferred_time q = q_preferred_time q' \<and> q_time_window q = q_time_window q' \<and>
    q_duration_minutes q = q_duration_minutes q' \<and>
    mset (map casefold (q_special_requests q)) = mset (map casefold (q_special_requests q'))"
proof -
  have sorted: "sort xs = sort ys \<longleftrightarrow> mset xs = mset ys" for xs ys :: "string list"
    by (metis mset_sort properties_for_sort sorted_sort)
  have type: "venue_type_value a = venue_type_value b \<longleftrightarrow> a = b" for a b
    by (cases a; cases b) simp_all
  have "sha x = sha y \<longleftrightarrow> x = y" for x y using assms by blast
  then have "booking_key sha act q scope = booking_key sha act' q' scope' \<longleftrightarrow>
      booking_identity act q scope = booking_identity act' q' scope'" by (simp add: booking_key_def)
  also have "\<dots> \<longleftrightarrow> scope = scope' \<and> act = act' \<and> casefold (q_venue_name q) = casefold (q_venue_name q') \<and>
      q_venue_type q = q_venue_type q' \<and> q_market q = q_market q' \<and> q_party_size q = q_party_size q' \<and>
      q_date q = q_date q' \<and> q_preferred_time q = q_preferred_time q' \<and> q_time_window q = q_time_window q' \<and>
      q_duration_minutes q = q_duration_minutes q' \<and>
      sort (map casefold (q_special_requests q)) = sort (map casefold (q_special_requests q'))"
    using json_string_prefix_free [where x = "[]" and y = "[]"]
    by (simp add: booking_identity_eq json_string_prefix_free unambiguousD type) blast
  finally show ?thesis by (simp only: sorted)
qed

theorem booking_key_identifies_request_witness:
  "booking_key id (Some BOOK_RESERVATION) demo_query ''client:a'' \<noteq>
   booking_key id (Some BOOK_RESERVATION) demo_query ''client:b''"
  using booking_key_identifies_request [of id "Some BOOK_RESERVATION" demo_query "''client:a''"
      "Some BOOK_RESERVATION" demo_query "''client:b''"] by simp

section \<open>Executing a prompt\<close>

lemma show_nat_length: "n < 10 ^ k \<Longrightarrow> 1 \<le> k \<Longrightarrow> length (show_nat n) \<le> k"
proof (induction n arbitrary: k rule: show_nat.induct)
  case (1 n)
  show ?case
  proof (cases "n < 10")
    case True
    with 1 show ?thesis by (simp add: show_nat.simps [of n])
  next
    case False
    then obtain j where k: "k = Suc j" "1 \<le> j" using 1 by (cases k; cases "k - 1") auto
    with 1(2) have "n div 10 < 10 ^ j" by (simp add: div_less_iff_less_mult mult.commute)
    with 1(1) [OF False _ k(2)] False k show ?thesis by (simp add: show_nat.simps [of n])
  qed
qed

text \<open>The errors that would be a fault of the service itself: a query it built wrongly, a stored policy it cannot read.\<close>

definition no_bug :: "execution_error + 'a \<Rightarrow> bool" where
  "no_bug res \<longleftrightarrow> res \<noteq> Inl Bad_intent \<and> (\<forall>err. res \<noteq> Inl (Bad_policy err))"

lemma no_bug_simps [simp]:
  "no_bug (Inr x)" "no_bug (Inl (Adapter_raised a))" "no_bug (Inl Call_broke)" "no_bug (Inl (execution_failure ex))"
  "no_bug (Inl (Watch_raised b))" "\<not> no_bug (Inl Bad_intent)"
  "\<not> no_bug (Inl (Bad_policy m))"
  by (cases ex; simp add: no_bug_def)+

lemma no_bug_Inl: "no_bug (Inl err :: execution_error + 'a) = no_bug (Inl err :: execution_error + 'b)"
  by (simp add: no_bug_def)

text \<open>A computation over the provider: what it leaves, what it tells nobody, and what it answers.\<close>

definition exec_sound ::
  "'p env \<Rightarrow> ('p \<Rightarrow> bool) \<Rightarrow> ('p world \<Rightarrow> 'a \<Rightarrow> bool) \<Rightarrow> ('p, 'a) exec \<Rightarrow> bool" where
  "exec_sound e ok P m \<longleftrightarrow>
     (\<forall>s. good ok s \<longrightarrow> leads e ok s (snd (m s)) \<and> quiet s (snd (m s)) \<and>
          (\<forall>x. fst (m s) = Inr x \<longrightarrow> P (snd (m s)) x) \<and> no_bug (fst (m s)))"

lemma exec_sound_return: "(\<And>s. P s x) \<Longrightarrow> exec_sound e ok P (exec_return x)"
  by (simp add: exec_sound_def exec_return_def)

lemma exec_sound_then:
  assumes m: "exec_sound e ok P m"
    and f: "\<And>x s. good ok s \<Longrightarrow> P s x \<Longrightarrow> leads e ok s (snd (f x s)) \<and> quiet s (snd (f x s)) \<and>
      (\<forall>y. fst (f x s) = Inr y \<longrightarrow> Q (snd (f x s)) y) \<and> no_bug (fst (f x s))"
  shows "exec_sound e ok Q (exec_then m f)"
  unfolding exec_sound_def
proof (intro allI impI)
  fix s assume good: "good ok s"
  obtain res s1 where ms: "m s = (res, s1)" by fastforce
  with m good have 1: "leads e ok s s1" "quiet s s1" "\<And>x. res = Inr x \<Longrightarrow> P s1 x" "no_bug res"
    by (auto simp: exec_sound_def dest!: spec [of _ s])
  show "leads e ok s (snd (exec_then m f s)) \<and> quiet s (snd (exec_then m f s)) \<and>
      (\<forall>x. fst (exec_then m f s) = Inr x \<longrightarrow> Q (snd (exec_then m f s)) x) \<and> no_bug (fst (exec_then m f s))"
  proof (cases res)
    case (Inl err)
    with ms 1 no_bug_Inl show ?thesis by (auto simp: exec_then_def)
  next
    case (Inr x)
    with ms 1 f [OF leads_good [OF 1(1)] 1(3) [OF Inr]] show ?thesis
      by (auto simp: exec_then_def intro: leads_trans quiet_trans)
  qed
qed

lemma exec_soundD: "exec_sound e ok P m \<Longrightarrow> good ok s \<Longrightarrow>
    leads e ok s (snd (m s)) \<and> quiet s (snd (m s)) \<and> (\<forall>x. fst (m s) = Inr x \<longrightarrow> P (snd (m s)) x) \<and>
    no_bug (fst (m s))"
  by (simp add: exec_sound_def)

text \<open>A fit answer: a valid result about this intent, and a booking only if the provider holds it under the key.\<close>

definition fit_result ::
  "(time \<Rightarrow> 'p \<Rightarrow> string \<Rightarrow> booking_confirmation option) \<Rightarrow> string option \<Rightarrow> reservation_intent \<Rightarrow>
   'p world \<Rightarrow> execution_result \<Rightarrow> bool" where
  "fit_result live key i s r \<longleftrightarrow>
     xr_intent r = i \<and> xr_status r \<noteq> WATCH_CREATED \<and> (length (xr_slots r) < 10 ^ 9 \<longrightarrow> result_valid r) \<and>
     (\<forall>b. xr_booking r = Some b \<longrightarrow> (\<exists>k. key = Some k \<and> live (w_now s) (w_provider s) k = Some b))"

context watch_service
begin

lemma call_provider_sound:
  assumes f: "\<forall>now p res p'. ok p \<longrightarrow> f now p = (res, p') \<longrightarrow> ok p' \<and> (\<forall>x. res = Inr x \<longrightarrow> P now p' x)"
    and good: "good ok s" and run: "call_provider e f s = (res, s1)"
  shows "leads e ok s s1 \<and> quiet s s1 \<and> (\<forall>x. res = Inr x \<longrightarrow> P (w_now s1) (w_provider s1) x)"
proof -
  let ?s = "pause e s"
  note 1 = leads_pause [OF good]
  obtain answer p' where call: "f (w_now ?s) (w_provider ?s) = (answer, p')" by fastforce
  let ?s1 = "?s\<lparr>w_provider := p'\<rparr>"
  have "ok (w_provider ?s)" using leads_good [OF 1] by (simp add: good_def)
  with f call have p': "ok p' \<and> (\<forall>x. answer = Inr x \<longrightarrow> P (w_now ?s) p' x)" by blast
  then have after: "leads e ok s ?s1 \<and> quiet s ?s1"
    using 1 quiet_pause [of s e] by (simp add: leads_def good_def quiet_def)
  have "s1 = ?s \<and> isl res \<or> s1 = ?s1 \<and> (isl res \<or> res = (case answer of Inl err \<Rightarrow> Inl (Raised err) | Inr x \<Rightarrow> Inr x))"
    using run by (auto simp: call_provider_def await_call_def on_provider_def call Let_def split: cut.splits sum.splits)
  with after p' 1 quiet_pause [of s e] show ?thesis by (auto split: sum.splits)
qed

lemma exec_ask_sound:
  assumes "\<forall>now p res p'. ok p \<longrightarrow> f now p = (res, p') \<longrightarrow> ok p' \<and> (\<forall>x. res = Inr x \<longrightarrow> P now p' x)"
  shows "exec_sound e ok (\<lambda>s x. P (w_now s) (w_provider s) x) (exec_ask e f)"
  unfolding exec_sound_def
proof (intro allI impI)
  fix s assume good: "good ok s"
  obtain res s1 where call: "call_provider e f s = (res, s1)" by fastforce
  from call_provider_sound [OF assms good call] show "leads e ok s (snd (exec_ask e f s)) \<and> quiet s (snd (exec_ask e f s)) \<and>
      (\<forall>x. fst (exec_ask e f s) = Inr x \<longrightarrow> P (w_now (snd (exec_ask e f s))) (w_provider (snd (exec_ask e f s))) x) \<and>
      no_bug (fst (exec_ask e f s))"
    by (cases res) (auto simp: exec_ask_def call)
qed

lemma replay_sound:
  "exec_sound e ok (\<lambda>s found. \<forall>r. found = Some r \<longrightarrow> fit_result live key i s r) (replayed_booking e i key)"
proof (cases key)
  case None
  then show ?thesis by (simp add: replayed_booking_def exec_sound_return)
next
  case (Some k)
  let ?P = "\<lambda>now p' x. \<forall>b. x = Some b \<longrightarrow> live now p' k = Some b \<and> confirmation_valid b"
  have get: "\<forall>now p res p'. ok p \<longrightarrow> get_booking (provider e) now k p = (res, p') \<longrightarrow> ok p' \<and> (\<forall>x. res = Inr x \<longrightarrow> ?P now p' x)"
    by (auto dest: get_sound live_valid)
  have "fit_result live (Some k) i s (booked_result i [bk_slot b] b REPLAY_MESSAGE)"
    if "live (w_now s) (w_provider s) k = Some b" "confirmation_valid b" for s b
    using that by (simp add: fit_result_def booked_result_def result_valid_def confirmation_valid_def sized_def REPLAY_MESSAGE_def)
  then show ?thesis
    unfolding replayed_booking_def Some option.case
    by (intro exec_sound_then [OF exec_ask_sound [where P = ?P, OF get]]) (auto simp: exec_return_def Some)
qed

lemma or_replayed_sound:
  assumes "exec_sound e ok (fit_result live key i) m"
  shows "exec_sound e ok (fit_result live key i) (or_replayed e i key m)"
  unfolding or_replayed_def
  by (rule exec_sound_then [OF replay_sound])
     (use exec_soundD [OF assms] in \<open>auto simp: exec_return_def split: option.split\<close>)

lemma book_slots_sound:
  "exec_sound e ok (\<lambda>s made. \<forall>b. made = Some b \<longrightarrow> live (w_now s) (w_provider s) key = Some b \<and> confirmation_valid b)
     (book_slots e key slots)"
proof (induction slots)
  case Nil
  show ?case by (simp add: exec_sound_return)
next
  case (Cons slot slots)
  have book: "\<forall>now p res p'. ok p \<longrightarrow> book_slot (provider e) now (slot_id slot) key p = (res, p') \<longrightarrow>
      ok p' \<and> (\<forall>x. res = Inr x \<longrightarrow> live now p' key = Some x \<and> confirmation_valid x)"
    using book_sound live_valid by blast
  show ?case
    unfolding exec_sound_def
  proof (intro allI impI)
    fix s assume good: "good ok s"
    let ?f = "\<lambda>now. book_slot (provider e) now (slot_id slot) key"
    obtain res s1 where call: "call_provider e ?f s = (res, s1)" by fastforce
    note 1 = call_provider_sound
      [where P = "\<lambda>now p' x. live now p' key = Some x \<and> confirmation_valid x", OF book good call]
    note 2 = exec_soundD [OF Cons.IH leads_good [of e ok s s1]]
    show "leads e ok s (snd (book_slots e key (slot # slots) s)) \<and> quiet s (snd (book_slots e key (slot # slots) s)) \<and>
        (\<forall>x. fst (book_slots e key (slot # slots) s) = Inr x \<longrightarrow> (\<forall>b. x = Some b \<longrightarrow>
           live (w_now (snd (book_slots e key (slot # slots) s))) (w_provider (snd (book_slots e key (slot # slots) s))) key = Some b \<and>
           confirmation_valid b)) \<and>
        no_bug (fst (book_slots e key (slot # slots) s))"
    proof (cases res)
      case (Inr b)
      with 1 call show ?thesis by simp
    next
      case (Inl err)
      with 1 2 call show ?thesis
        by (auto split: seq_exc.split adapter_error.split intro: leads_trans quiet_trans)
    qed
  qed
qed

lemma search_and_book_sound:
  assumes "query_valid q" and "in_action i = Some BOOK_RESERVATION \<and> key \<noteq> None \<or> in_action i = Some SEARCH_AVAILABILITY"
  shows "exec_sound e ok (fit_result live key i) (search_and_book e i q key)"
proof -
  have search: "\<forall>now p res p'. ok p \<longrightarrow> search_availability (provider e) now q p = (res, p') \<longrightarrow>
      ok p' \<and> (\<forall>x. res = Inr x \<longrightarrow> list_all slot_valid x)"
    using search_sound assms(1) by blast
  have none: "exec_sound e ok (fit_result live key i) (exec_return (plain_result NO_AVAILABILITY i [] msg))" if "sized 500 msg" for msg
    using that by (intro exec_sound_return) (simp add: fit_result_def plain_result_def result_valid_def)
  have found: "fit_result live key i s (plain_result AVAILABILITY_FOUND i slots
      (''Found '' @ show_int (int (length slots)) @ '' mock availability slot(s).''))" if "list_all slot_valid slots" for s slots
  proof -
    have "length (show_int (int (length slots))) \<le> 9" if "length slots < 10 ^ 9"
      using show_nat_length [OF that] by (simp add: show_int_def)
    with that show ?thesis by (auto simp: fit_result_def plain_result_def result_valid_def sized_def)
  qed
  have booked: "exec_sound e ok (fit_result live key i) (exec_then (book_slots e k slots)
      (\<lambda>made. case made of
         Some b \<Rightarrow> exec_return (booked_result i slots b
           ''Mock reservation confirmed. No real venue or booking provider was contacted.'')
       | None \<Rightarrow> or_replayed e i key (exec_return (plain_result NO_AVAILABILITY i []
           ''Every matching mock slot was taken before the booking completed.''))))"
    if "key = Some k" "list_all slot_valid slots" for k slots
  proof (rule exec_sound_then [OF book_slots_sound])
    fix made s assume good: "good ok s"
      and made: "\<forall>b. made = Some b \<longrightarrow> live (w_now s) (w_provider s) k = Some b \<and> confirmation_valid b"
    let ?rest = "case made of
         Some b \<Rightarrow> exec_return (booked_result i slots b
           ''Mock reservation confirmed. No real venue or booking provider was contacted.'')
       | None \<Rightarrow> or_replayed e i key (exec_return (plain_result NO_AVAILABILITY i []
           ''Every matching mock slot was taken before the booking completed.''))"
    show "leads e ok s (snd (?rest s)) \<and> quiet s (snd (?rest s)) \<and>
        (\<forall>y. fst (?rest s) = Inr y \<longrightarrow> fit_result live key i (snd (?rest s)) y) \<and> no_bug (fst (?rest s))"
    proof (cases made)
      case None
      with exec_soundD [OF or_replayed_sound [OF none] good] show ?thesis by (simp add: sized_def)
    next
      case (Some b)
      with made good that show ?thesis
        by (simp add: exec_return_def fit_result_def booked_result_def result_valid_def sized_def)
    qed
  qed
  show ?thesis
    unfolding search_and_book_def
  proof (rule exec_sound_then [OF exec_ask_sound [where P = "\<lambda>_ _. list_all slot_valid", OF search]])
    fix slots s assume good: "good ok s" and slots: "list_all slot_valid slots"
    let ?rest = "if slots = [] then
            or_replayed e i key (exec_return (plain_result NO_AVAILABILITY i []
              ''No availability matched the request. (mock search only returns one slot for testing purposes.)''))
          else if in_action i = Some SEARCH_AVAILABILITY then
            exec_return (plain_result AVAILABILITY_FOUND i slots
              (''Found '' @ show_int (int (length slots)) @ '' mock availability slot(s).''))
          else
            (case key of
               None \<Rightarrow> (\<lambda>s. (Inl Bad_intent, s))
             | Some k \<Rightarrow>
                 exec_then (book_slots e k slots)
                   (\<lambda>made. case made of
                      Some b \<Rightarrow> exec_return (booked_result i slots b
                        ''Mock reservation confirmed. No real venue or booking provider was contacted.'')
                    | None \<Rightarrow> or_replayed e i key (exec_return (plain_result NO_AVAILABILITY i []
                        ''Every matching mock slot was taken before the booking completed.''))))"
    consider "slots = []" | "slots \<noteq> []" "in_action i = Some SEARCH_AVAILABILITY"
      | k where "slots \<noteq> []" "in_action i = Some BOOK_RESERVATION" "key = Some k" using assms(2) by blast
    then have "exec_sound e ok (fit_result live key i) ?rest"
    proof cases
      case 1
      then show ?thesis by (simp add: or_replayed_sound [OF none] sized_def)
    next
      case 2
      then show ?thesis using found [OF slots] by (simp add: exec_sound_return)
    next
      case (3 k)
      then show ?thesis using booked [OF 3(3) slots] 3 by simp
    qed
    from exec_soundD [OF this good]
    show "leads e ok s (snd (?rest s)) \<and> quiet s (snd (?rest s)) \<and>
        (\<forall>y. fst (?rest s) = Inr y \<longrightarrow> fit_result live key i (snd (?rest s)) y) \<and> no_bug (fst (?rest s))" .
  qed
qed

lemma booking_execute_sound:
  assumes i: "intent_valid i" "is_ready i \<Longrightarrow> query_from i \<noteq> None"
    and act: "is_ready i \<Longrightarrow> in_action i = Some BOOK_RESERVATION \<or> in_action i = Some SEARCH_AVAILABILITY"
    and route: "is_ready i \<Longrightarrow> in_route i \<noteq> WATCH_SERVICE" and good: "good ok s"
    and run: "booking_execute sha e i owner user s = (out, s')"
  shows "leads e ok s s' \<and> quiet s s' \<and> no_bug out \<and>
    (\<forall>r. out = Inr r \<longrightarrow> fit_result live
       (if is_ready i \<and> in_action i = Some BOOK_RESERVATION
        then Some (booking_key sha (in_action i) (the (query_from i)) (booking_scope owner user (uuid4_hex e (w_awaits s))))
        else None) i s' r)"
proof (cases "is_ready i")
  case False
  let ?msg = "case in_clarification_question i of Some msg \<Rightarrow> if msg \<noteq> [] then msg else ''More information is required.''
      | None \<Rightarrow> ''More information is required.''"
  have "sized 500 ?msg" using i(1) by (auto simp: intent_valid_def sized_def split: option.splits)
  with False have "fit_result live None i s (plain_result CLARIFICATION_REQUIRED i [] ?msg)"
    by (simp add: fit_result_def plain_result_def result_valid_def)
  with False good run show ?thesis by (auto simp: booking_execute_def exec_return_def)
next
  case True
  then obtain q where q: "query_from i = Some q" using i(2) by blast
  then have valid: "query_valid q" by (auto simp: query_from_def Let_def split: option.splits if_splits)
  show ?thesis
  proof (cases "in_action i = Some BOOK_RESERVATION")
    case book: True
    let ?key = "Some (booking_key sha (in_action i) q (booking_scope owner user (uuid4_hex e (w_awaits s))))"
    have "exec_sound e ok (fit_result live ?key i) (or_replayed e i ?key (search_and_book e i q ?key))"
      using book by (intro or_replayed_sound search_and_book_sound [OF valid]) simp
    from exec_soundD [OF this good] show ?thesis
      using run True q route book by (simp add: booking_execute_def Let_def)
  next
    case False
    then have "exec_sound e ok (fit_result live None i) (search_and_book e i q None)"
      using act True by (intro search_and_book_sound [OF valid]) simp
    from exec_soundD [OF this good] show ?thesis
      using run True q route False by (simp add: booking_execute_def)
  qed
qed

lemma create_from_intent_sound:
  assumes i: "is_ready i" "query_from i = Some q" and good: "good ok s"
    and run: "create_watch_from_intent e cfg i owner user s = (out, s')"
  shows "leads e ok s s' \<and> notified s' = notified s \<and> no_bug out \<and>
    (\<forall>r. out = Inr r \<longrightarrow> xr_intent r = i \<and> xr_status r = WATCH_CREATED \<and> xr_booking r = None \<and>
       (\<exists>w p. watch_valid w \<and> came_to_hold (sha1hex e) (w_repo s) w (w_repo s') \<and> describe_policy (schedule cfg) w = Inr p \<and> xr_watch_id r = Some (watch_id w) \<and>
          xr_message r = watch_message w p))"
proof -
  obtain res s1 where call: "service_create e cfg q False owner user s = (res, s1)" by fastforce
  note made = created_service_create [OF good, of q False owner user, unfolded call created_def fst_conv snd_conv]
  show ?thesis
  proof (cases res)
    case (Inl err)
    with made i run call show ?thesis by (auto simp: create_watch_from_intent_def create_from_intent_def exec_then_def)
  next
    case (Inr w)
    with made have valid: "watch_valid w" by simp
    then have "1 \<le> max_attempts w" by (simp add: watch_valid_def)
    from derive_total [OF this, of "schedule cfg" "created_at w" "w_expires_at w"]
    obtain p where "describe_policy (schedule cfg) w = Inr p" unfolding describe_policy_def by blast
    with made i run call Inr valid show ?thesis by (auto simp: create_watch_from_intent_def create_from_intent_def exec_then_def)
  qed
qed

end

lemma validated_route:
  "is_ready (validate_intent x ref) \<Longrightarrow>
     in_route (validate_intent x ref) = route_for (in_action (validate_intent x ref))"
  by (auto simp: validate_intent_def is_ready_def Let_def split: prod.splits if_splits)



end
