(* ===== verification/Api_Properties.thy ===== *)
theory Api_Properties
  imports Api_Routes Auth_Properties Booking_Properties
begin

text \<open>
  What the routes disclose and admit: another account's watch answers like one that does not exist,
  listings are scoped to their owner, and guesses at one account's password are limited.
\<close>

section \<open>Access to watches\<close>

definition may_access :: "user option \<Rightarrow> string option \<Rightarrow> bool" where
  "may_access u owner \<longleftrightarrow> (case owner of None \<Rightarrow> True | Some a \<Rightarrow> \<exists>x. u = Some x \<and> usr_id x = a)"

lemma forbid_eq:
  assumes "app_history e" and "all_answered (app_auth e)"
  shows "forbid_if_owned_by_another e wid u s =
    (let a = auth_pause (app_auth e) (st_auth s) in
     ((if may_access u (get_account_owner wid (au_db a)) then Inr () else Inl (unknown_watch wid)), s\<lparr>st_auth := a\<rparr>))"
  using assms
  by (auto simp: forbid_if_owned_by_another_def route_then_def on_auth_def auth_read_eq may_access_def route_return_def
      route_raise_def split: option.split)

text \<open>What the service's lookup of an unknown watch is answered with.\<close>

lemma missing_watch:
  assumes "fault e (w_awaits (st_world s)) = Runs" and "repo_get wid (w_repo (pause e (st_world s))) = None"
  shows "fst (route_then (on_service (service_get e wid)) (found_or_404 wid) s) = Inl (unknown_watch wid)"
  by (simp add: route_then_def on_service_def service_get_def read_repo_def call_repo_def await_call_def on_repo_def
      Let_def assms found_or_404_def route_raise_def)

text \<open>
  C36. Another account's watch looks like one that does not exist: reading or cancelling it without its
  account's session answers 404 with the text a missing watch has (when the store answers its lookup),
  and does not reach the watch service;
  a watch without an account, or of the caller's own, is answered by the service.
\<close>

theorem foreign_watch_looks_missing:
  assumes "app_history e" and "all_answered (app_auth e)"
  shows "let a = auth_pause (app_auth e) (st_auth s); owner = get_account_owner wid (au_db a); s1 = s\<lparr>st_auth := a\<rparr> in
    (if may_access u owner
     then read_watch e wid u s = route_then (on_service (service_get (app_service e) wid)) (found_or_404 wid) s1 \<and>
       cancel_watch e wid u s = route_then (on_service (service_cancel (app_service e) (app_config e) wid)) (found_or_404 wid) s1
     else read_watch e wid u s = (Inl (unknown_watch wid), s1) \<and> cancel_watch e wid u s = (Inl (unknown_watch wid), s1) \<and>
       (\<forall>t v. may_access v (get_account_owner wid (au_db (auth_pause (app_auth e) (st_auth t)))) \<and>
          fault (app_service e) (w_awaits (st_world t)) = Runs \<and>
          repo_get wid (w_repo (pause (app_service e) (st_world t))) = None \<longrightarrow>
          fst (read_watch e wid v t) = fst (read_watch e wid u s)))"
proof -
  let ?after = "\<lambda>t. t\<lparr>st_auth := auth_pause (app_auth e) (st_auth t)\<rparr>"
  have allowed: "read_watch e wid v t = route_then (on_service (service_get (app_service e) wid)) (found_or_404 wid) (?after t)"
    "cancel_watch e wid v t =
       route_then (on_service (service_cancel (app_service e) (app_config e) wid)) (found_or_404 wid) (?after t)"
    if "may_access v (get_account_owner wid (au_db (auth_pause (app_auth e) (st_auth t))))" for v t
    using that forbid_eq [OF assms] by (simp_all add: read_watch_def cancel_watch_def Let_def route_then_def [where m = "forbid_if_owned_by_another e wid v"])
  have refused: "read_watch e wid u s = (Inl (unknown_watch wid), ?after s)"
    "cancel_watch e wid u s = (Inl (unknown_watch wid), ?after s)"
    if "\<not> may_access u (get_account_owner wid (au_db (auth_pause (app_auth e) (st_auth s))))"
    using that forbid_eq [OF assms] by (simp_all add: read_watch_def cancel_watch_def Let_def route_then_def [where m = "forbid_if_owned_by_another e wid u"])
  show ?thesis
    unfolding Let_def
    by (simp add: allowed refused missing_watch)
qed

text \<open>
  Listings are scoped: an account's listing holds at most 100 watches, newest first, all of them
  that account's; an anonymous listing shows none that belongs to an account, and without a well-formed
  client identifier it is empty.
\<close>

theorem listings_are_scoped:
  assumes "all_answered (app_auth e)" and "database_ok (au_db (auth_pause (app_auth e) (st_auth s)))"
    and "list_my_watches e u header s = (Inr ws, s')"
  shows "length ws \<le> 100 \<and> sorted_wrt (\<lambda>a b. updated_at b \<le> updated_at a) ws \<and> st_world s' = st_world s \<and>
    (\<forall>w \<in> set ws. get_account_owner (watch_id w) (au_db (st_auth s')) = map_option usr_id u) \<and>
    (u = None \<and> extract_client_id header = None \<longrightarrow> ws = [])"
proof -
  let ?a = "auth_pause (app_auth e) (st_auth s)"
  have rows: "r \<in> set (db_history (au_db ?a)) \<Longrightarrow> row_ok r" for r using assms(2) by (simp add: database_ok_def)
  have owner: "get_account_owner (watch_id (hr_watch r)) (au_db ?a) = hr_user r" if "r \<in> set (db_history (au_db ?a))" for r
    using history_of_iff [OF assms(2), of "watch_id (hr_watch r)" r] that rows [OF that]
    by (simp add: get_account_owner_def row_ok_def)
  have listed: "length ws \<le> 100 \<and> sorted_wrt (\<lambda>a b. updated_at b \<le> updated_at a) ws \<and>
      (\<forall>w \<in> set ws. get_account_owner (watch_id w) (au_db ?a) = owner)"
    if "newest_first P 100 (au_db ?a) = Inr ws" "\<And>r. P r \<Longrightarrow> hr_user r = owner" for P owner
    using newest_first_facts [OF that(1)] rows owner that(2) by fastforce
  show ?thesis
  proof (cases "app_history e")
    case False
    with assms(3) show ?thesis by (simp add: list_my_watches_def route_return_def)
  next
    case True
    show ?thesis
    proof (cases u)
      case None
      with assms(1,3) True listed [of "\<lambda>r. hr_owner r = extract_client_id header \<and> hr_user r = None" None] show ?thesis
        by (auto simp: list_my_watches_def on_auth_def auth_query_def all_answered_def list_for_owner_def route_return_def Let_def
            split: option.splits sum.splits)
    next
      case (Some x)
      with assms(1,3) True listed [of "\<lambda>r. hr_user r = Some (usr_id x)" "Some (usr_id x)"] show ?thesis
        by (auto simp: list_my_watches_def on_auth_def auth_query_def all_answered_def list_for_user_def Let_def
            split: sum.splits)
    qed
  qed
qed

section \<open>Guessing passwords\<close>

definition held_events :: "string \<Rightarrow> windows \<Rightarrow> event list" where
  "held_events key w = (case dict_get w key of None \<Rightarrow> [] | Some es \<Rightarrow> es)"

definition recent :: "seconds \<Rightarrow> event list \<Rightarrow> bool" where
  "recent t es \<longleftrightarrow> (\<forall>x \<in> set es. t < fst x)"

lemma drop_recent: "recent t es \<Longrightarrow> dropWhile (\<lambda>x. fst x \<le> t) es = es"
  by (cases es) (auto simp: recent_def)

lemma pop_absent: "dict_get w key = None \<Longrightarrow> dict_pop key w = w"
  by (induction w) (auto split: if_splits)

lemma live_recent:
  assumes "recent (now - window_seconds c) (held_events key w)" and "live_events c now key w = (es, w')"
  shows "es = (if held_events key w = [] then None else Some (held_events key w))"
    and "held_events key w' = held_events key w" and "dict_pop key w' = dict_pop key w"
    and "es = None \<Longrightarrow> w' = dict_pop key w"
proof -
  have "es = (if held_events key w = [] then None else Some (held_events key w)) \<and> held_events key w' = held_events key w \<and>
      dict_pop key w' = dict_pop key w \<and> (es = None \<longrightarrow> w' = dict_pop key w)"
  proof (cases "dict_get w key")
    case None
    with assms show ?thesis by (simp add: live_events_def held_events_def pop_absent)
  next
    case (Some xs)
    then have "recent (now - window_seconds c) xs" using assms(1) by (simp add: held_events_def)
    then have live: "(es, w') = (if xs = [] then (None, dict_pop key w) else (Some xs, dict_set key xs w))"
      using Some assms(2) by (auto simp: live_events_def Let_def drop_recent split: if_splits)
    show ?thesis
    proof (cases "xs = []")
      case True
      with live Some show ?thesis by (simp add: held_events_def pop_absent)
    next
      case False
      with live Some show ?thesis by (simp add: held_events_def delete_update_same)
    qed
  qed
  then show "es = (if held_events key w = [] then None else Some (held_events key w))"
    "held_events key w' = held_events key w" "dict_pop key w' = dict_pop key w" "es = None \<Longrightarrow> w' = dict_pop key w" by blast+
qed

lemma consume_recent:
  assumes "recent (now - window_seconds c) (held_events key w)" and "int (length (dict_pop key w)) < MAX_TRACKED_KEYS"
    and "throttle_consume c now token key w = (a, w')" and "1 \<le> max_events c"
  shows "dict_pop key w' = dict_pop key w \<and>
    (if max_events c \<le> int (length (held_events key w)) then a = Refused \<and> held_events key w' = held_events key w
     else a = Admitted token \<and> held_events key w' = held_events key w @ [(now, token)])"
proof -
  obtain es w1 where l1: "live_events c now key w = (es, w1)" by fastforce
  note f1 = live_recent [OF assms(1) l1]
  have r1: "recent (now - window_seconds c) (held_events key w1)" using assms(1) f1(2) by simp
  obtain es2 w2 where l2: "live_events c now key w1 = (es2, w2)" by fastforce
  note f2 = live_recent [OF r1 l2]
  show ?thesis
    using assms(2-4) l1 l2 f1 f2
    by (auto simp: throttle_consume_def throttle_check_def throttle_record_def Let_def held_events_def delete_update_same
        split: if_splits option.splits)
qed

lemma drop_token_length: "t \<in> snd ` set es \<Longrightarrow> Suc (length (drop_token t es)) = length es"
  by (induction es) auto

lemma drop_token_subset: "set (drop_token t es) \<subseteq> set es"
  by (induction es) auto

lemma release_recent:
  assumes "recent (now - window_seconds c) (held_events key w)" and "(now0, token) \<in> set (held_events key w)"
  shows "dict_pop key (throttle_release c now (Some token) key w) = dict_pop key w \<and>
    held_events key (throttle_release c now (Some token) key w) = drop_token token (held_events key w)"
proof -
  obtain es w1 where l1: "live_events c now key w = (es, w1)" by fastforce
  have "held_events key w \<noteq> []" using assms(2) by auto
  with live_recent [OF assms(1) l1] l1 show ?thesis
    by (auto simp: throttle_release_def Let_def held_events_def delete_update_same split: option.splits)
qed

record guess =
  g_limits :: login_limits
  g_password :: string
  g_peer :: "string option"
  g_header :: "string option"

fun run_guesses ::
  "'p app_env \<Rightarrow> account_settings \<Rightarrow> string \<Rightarrow> guess list \<Rightarrow> login_windows \<Rightarrow> 'p app \<Rightarrow> (api_error + user \<times> string) list" where
  "run_guesses e cfg email [] ws s = []"
| "run_guesses e cfg email (g # gs) ws s =
     (let (res, ws1, s1) = login_route e cfg (g_limits g) email (g_password g) (g_peer g) (g_header g) ws s
      in res # run_guesses e cfg email gs ws1 s1)"

lemma login_route_eq:
  assumes "app_accounts e" and ip: "ip = (if is_internal_address (lim_parse l) peer then None else lim_ip l)"
    and "reserve (lim_email l) (lim_mono l 0) (lim_token l 0) (login_email_key email) (lw_email ws) = (ea, we)" and "ea \<noteq> Refused"
    and "reserve ip (lim_mono l 1) (lim_token l 1) (login_ip_key peer) (lw_ip ws) = (ia, wi)"
  shows "login_route e cfg l email password peer header ws s =
    (if ia = Refused
     then (Inl Rate_limited_login,
           ws\<lparr>lw_email := unreserve (lim_email l) (lim_mono l 2) ea (login_email_key email) we, lw_ip := wi\<rparr>, s)
     else attempt_login e cfg l ip email password peer header ea ia (ws\<lparr>lw_email := we, lw_ip := wi\<rparr>) s)"
  unfolding login_route_def ip [symmetric] Let_def assms(3) prod.case assms(5)
  using assms(1,4) by simp

text \<open>An attempt that ends as a wrong password, or as rate limited, has kept its reservations.\<close>

lemma attempt_login_wrong:
  assumes "attempt_login e cfg l ip email password peer header ea ia ws s = (res, ws', s')"
    and "res = Inl Rate_limited_login \<or> res = Inl (Auth_raised Invalid_credentials)"
  shows "res = Inl (Auth_raised Invalid_credentials) \<and> ws' = ws"
proof -
  obtain out s1 where out: "on_auth (login (app_auth e) cfg email password) s = (out, s1)" by fastforce
  then have "out \<noteq> Inl Rate_limited_login" by (auto simp: on_auth_def split: prod.splits sum.splits)
  with assms out show ?thesis
    by (auto simp: attempt_login_def split: sum.splits api_error.splits auth_error.splits prod.splits)
qed

text \<open>Each guess that is let through and refused as wrong costs one of the reservations of its address.\<close>

lemma guess_costs:
  assumes l: "lim_email l = Some c" "\<And>n. start \<le> lim_mono l n \<and> lim_mono l n < start + window_seconds c" and c: "1 \<le> max_events c"
    and accounts: "app_accounts e" and key: "key = login_email_key email"
    and recent: "\<forall>x \<in> set (held_events key (lw_email ws)). start \<le> fst x"
    and room: "int (length (dict_pop key (lw_email ws))) < MAX_TRACKED_KEYS"
    and run: "login_route e cfg l email password peer header ws s = (res, ws', s')"
    and res: "res = Inl Rate_limited_login \<or> res = Inl (Auth_raised Invalid_credentials)"
  shows "int (length (held_events key (lw_email ws'))) = int (length (held_events key (lw_email ws))) + (if res = Inl Rate_limited_login then 0 else 1) \<and>
    (res \<noteq> Inl Rate_limited_login \<longrightarrow> int (length (held_events key (lw_email ws))) < max_events c) \<and>
    (\<forall>x \<in> set (held_events key (lw_email ws')). start \<le> fst x) \<and>
    int (length (dict_pop key (lw_email ws'))) < MAX_TRACKED_KEYS"
proof -
  let ?w = "lw_email ws"
  have in_window: "recent (lim_mono l n - window_seconds c) es" if "\<forall>x \<in> set es. start \<le> fst x" for n es
    unfolding recent_def using that l(2) [of n] by fastforce
  obtain a w1 where take1: "throttle_consume c (lim_mono l 0) (lim_token l 0) key ?w = (a, w1)" by fastforce
  note got = consume_recent [OF in_window [OF recent] room take1 c]
  show ?thesis
  proof (cases "max_events c \<le> int (length (held_events key ?w))")
    case True
    with got run l(1) accounts recent room show ?thesis
      by (auto simp: login_route_def Let_def reserve_def key take1 [unfolded key])
  next
    case False
    then have a: "a = Admitted (lim_token l 0)" "held_events key w1 = held_events key ?w @ [(lim_mono l 0, lim_token l 0)]"
      "dict_pop key w1 = dict_pop key ?w" using got by simp_all
    have recent1: "\<forall>x \<in> set (held_events key w1). start \<le> fst x" using a(2) recent l(2) [of 0] by auto
    define ip where "ip = (if is_internal_address (lim_parse l) peer then None else lim_ip l)"
    obtain b wi where take2: "reserve ip (lim_mono l 1) (lim_token l 1) (login_ip_key peer) (lw_ip ws) = (b, wi)" by fastforce
    have freed: "dict_pop key (throttle_release c (lim_mono l 2) (Some (lim_token l 0)) key w1) = dict_pop key ?w"
      "held_events key (throttle_release c (lim_mono l 2) (Some (lim_token l 0)) key w1) = drop_token (lim_token l 0) (held_events key w1)"
      using release_recent [OF in_window [OF recent1], of "lim_mono l 0" "lim_token l 0" 2] a by simp_all
    have drop: "length (drop_token (lim_token l 0) (held_events key w1)) = length (held_events key ?w)"
      "\<forall>x \<in> set (drop_token (lim_token l 0) (held_events key w1)). start \<le> fst x"
      using drop_token_length [of "lim_token l 0" "held_events key w1"] drop_token_subset [of "lim_token l 0" "held_events key w1"]
        recent1 a(2) by (simp, blast)
    have email: "reserve (lim_email l) (lim_mono l 0) (lim_token l 0) (login_email_key email) ?w = (a, w1)"
      using l(1) take1 key by (simp add: reserve_def)
    have unres: "unreserve (lim_email l) n a (login_email_key email) w1 = throttle_release c n (Some (lim_token l 0)) key w1" for n
      using l(1) a(1) key by (simp add: unreserve_def reserved_def)
    have "a \<noteq> Refused" using a(1) by simp
    note route = login_route_eq [OF accounts ip_def email this take2, where cfg = cfg and password = password and header = header and s = s]
    show ?thesis
    proof (cases "b = Refused")
      case True
      then have "res = Inl Rate_limited_login \<and> lw_email ws' = throttle_release c (lim_mono l 2) (Some (lim_token l 0)) key w1"
        using run by (auto simp: route unres [unfolded a(1)] a(1))
      with freed drop room show ?thesis by simp
    next
      case ok: False
      then have "attempt_login e cfg l ip email password peer header a b (ws\<lparr>lw_email := w1, lw_ip := wi\<rparr>) s = (res, ws', s')"
        using run route by simp
      from attempt_login_wrong [OF this res]
      have "res = Inl (Auth_raised Invalid_credentials) \<and> lw_email ws' = w1" by simp
      with a False recent1 room show ?thesis by simp
    qed
  qed
qed


section \<open>A small deployment\<close>

definition demo_app_env :: "mock_store app_env" where
  "demo_app_env = \<lparr>app_auth = demo_auth, app_service = demo_deployment [] (\<lambda>_. Runs), app_config = default_service,
     app_accounts = True, app_history = True\<rparr>"

definition demo_app :: "mock_store app" where
  "demo_app = \<lparr>st_auth = \<lparr>au_now = 0, au_db = project_call (demo_outcome 0 (Some ''browser'') (Some ''u1'')) demo_accounts, au_awaits = 0, au_work = 0\<rparr>,
     st_world = demo_world 1000000 demo_repo demo_quiet_store\<rparr>"

lemma demo_app_facts:
  "au_db (auth_pause demo_auth (st_auth demo_app)) = project_call (demo_outcome 0 (Some ''browser'') (Some ''u1'')) demo_accounts"
  by (simp add: auth_pause_def demo_auth_def demo_app_def)

theorem foreign_watch_looks_missing_witness:
  "fst (read_watch demo_app_env ''w1'' None demo_app) = Inl (unknown_watch ''w1'')"
proof -
  have "get_account_owner ''w1'' (au_db (auth_pause demo_auth (st_auth demo_app))) = Some ''u1''"
    unfolding demo_app_facts by code_simp
  moreover have "app_history demo_app_env" "all_answered (app_auth demo_app_env)" "app_auth demo_app_env = demo_auth"
    using demo_auth_facts(3) by (simp_all add: demo_app_env_def)
  ultimately show ?thesis
    using foreign_watch_looks_missing [of demo_app_env demo_app "''w1''" None] by (simp add: Let_def may_access_def)
qed

theorem listings_are_scoped_witness:
  "\<exists>ws. fst (list_my_watches demo_app_env (Some \<lparr>usr_id = ''u1'', usr_email = ''a@b.ca'', usr_created_at = 0\<rparr>) None demo_app) = Inr ws \<and>
     length ws \<le> 100"
proof -
  let ?run = "list_my_watches demo_app_env (Some \<lparr>usr_id = ''u1'', usr_email = ''a@b.ca'', usr_created_at = 0\<rparr>) None demo_app"
  have "\<not> isl (fst ?run)" by code_simp
  then obtain ws where ws: "fst ?run = Inr ws" by (metis sum.collapse(2))
  have eq: "?run = (Inr ws, snd ?run)" using ws by (metis surjective_pairing)
  have ok: "database_ok (au_db (auth_pause (app_auth demo_app_env) (st_auth demo_app)))"
    using project_call_ok [OF db_runs_ok [OF demo_accounts_ok database_ok_empty]] by (simp add: demo_app_env_def demo_app_facts)
  have answered: "all_answered (app_auth demo_app_env)" using demo_auth_facts(3) by (simp add: demo_app_env_def)
  from listings_are_scoped [OF answered ok eq] ws show ?thesis by blast
qed

definition demo_limits :: login_limits where
  "demo_limits = \<lparr>lim_email = Some \<lparr>max_events = 1, window_seconds = 60\<rparr>, lim_ip = None, lim_parse = (\<lambda>_. None),
     lim_mono = (\<lambda>_. 5), lim_token = (\<lambda>n. ''t'')\<rparr>"

definition demo_guess :: "string \<Rightarrow> guess" where
  "demo_guess pw = \<lparr>g_limits = demo_limits, g_password = pw, g_peer = None, g_header = None\<rparr>"

definition demo_guesses :: "(api_error + user \<times> string) list" where
  "demo_guesses = run_guesses demo_app_env demo_policy ''a@b.ca'' [demo_guess ''one'', demo_guess ''two'']
     \<lparr>lw_email = [], lw_ip = []\<rparr> demo_app"


end
