(* ===== verification/Task_Queue.thy ===== *)
theory Task_Queue
  imports Dibs_Prelude
begin

text \<open>
  The dispatch boundary, \<^verbatim>\<open>backend/workers/queue.py\<close>, and the Celery task that polls one watch,
  \<^verbatim>\<open>backend/workers/tasks/monitor_watch.py\<close>. The in-process queue is a state record whose operations
  are its methods; an asyncio task is a row with a phase, and a number stands for its identity. Tasks
  end in two steps, as in asyncio: the coroutine returns, and later its done-callbacks run.
\<close>

section \<open>The in-process queue\<close>

datatype task_phase = Waiting | Polling | Ended

record queued_task =
  qt_id :: nat
  qt_watch :: string
  qt_window :: "string option"
  qt_due :: time
  qt_phase :: task_phase

record task_queue =
  tq_closed :: bool
  tq_created :: nat
  tq_loop :: "queued_task list"
  tq_tasks :: "nat set"
  tq_by_window :: "(string, nat) pydict"
  tq_polls :: "(nat \<times> time) list"

definition empty_queue :: task_queue where
  "empty_queue = \<lparr>tq_closed = False, tq_created = 0, tq_loop = [], tq_tasks = {}, tq_by_window = [], tq_polls = []\<rparr>"

definition queue_is_ready :: "task_queue \<Rightarrow> bool" where
  "queue_is_ready q \<longleftrightarrow> \<not> tq_closed q"

definition task_of :: "task_queue \<Rightarrow> nat \<Rightarrow> queued_task option" where
  "task_of q i = find (\<lambda>t. qt_id t = i) (tq_loop q)"

text \<open>\<^verbatim>\<open>not task.done()\<close>.\<close>

definition task_live :: "task_queue \<Rightarrow> nat \<Rightarrow> bool" where
  "task_live q i = (case task_of q i of None \<Rightarrow> False | Some t \<Rightarrow> qt_phase t \<noteq> Ended)"

definition set_phase :: "nat \<Rightarrow> task_phase \<Rightarrow> task_queue \<Rightarrow> task_queue" where
  "set_phase i ph q = q\<lparr>tq_loop := map (\<lambda>t. if qt_id t = i then t\<lparr>qt_phase := ph\<rparr> else t) (tq_loop q)\<rparr>"

definition create_task :: "string \<Rightarrow> string option \<Rightarrow> time \<Rightarrow> task_queue \<Rightarrow> task_queue" where
  "create_task wid win due q =
     q\<lparr>tq_created := Suc (tq_created q),
       tq_loop := tq_loop q @ [\<lparr>qt_id = tq_created q, qt_watch = wid, qt_window = win, qt_due = due, qt_phase = Waiting\<rparr>]\<rparr>"

definition due_time :: "time \<Rightarrow> seconds \<Rightarrow> time option \<Rightarrow> time" where
  "due_time now delay due = (case due of Some t \<Rightarrow> t | None \<Rightarrow> now + timedelta_seconds (max 0 delay))"

definition enqueue_watch_poll ::
  "time \<Rightarrow> string \<Rightarrow> string option \<Rightarrow> seconds \<Rightarrow> time option \<Rightarrow> task_queue \<Rightarrow> task_queue" where
  "enqueue_watch_poll now wid win delay due q =
     (if tq_closed q then q
      else
        (let t = due_time now delay due; i = tq_created q in
         case win of
           None \<Rightarrow> (create_task wid None t q)\<lparr>tq_tasks := insert i (tq_tasks q)\<rparr>
         | Some w \<Rightarrow>
             (if (case dict_get (tq_by_window q) w of None \<Rightarrow> False | Some j \<Rightarrow> task_live q j) then q
              else (create_task wid (Some w) t q)\<lparr>tq_by_window := dict_set w i (tq_by_window q)\<rparr>)))"

text \<open>\<^verbatim>\<open>_run_at\<close>: how long to sleep before the clock is read again, or \<open>None\<close> to poll now.\<close>

definition MAX_SLEEP :: int where "MAX_SLEEP = 60000000"

definition sleep_for :: "time \<Rightarrow> time \<Rightarrow> int option" where
  "sleep_for due now = (let remaining = due - now in if remaining \<le> 0 then None else Some (min remaining MAX_SLEEP))"

text \<open>One turn of that loop for a waiting task: a cancelled one never gets here.\<close>

definition wake :: "time \<Rightarrow> nat \<Rightarrow> task_queue \<Rightarrow> task_queue" where
  "wake now i q =
     (case task_of q i of
        Some t \<Rightarrow>
          if qt_phase t = Waiting \<and> sleep_for (qt_due t) now = None
          then (set_phase i Polling q)\<lparr>tq_polls := tq_polls q @ [(i, now)]\<rparr>
          else q
      | None \<Rightarrow> q)"

text \<open>The poll returns, or raises and is logged: either way the coroutine is over.\<close>

definition finish_poll :: "nat \<Rightarrow> task_queue \<Rightarrow> task_queue" where
  "finish_poll i q =
     (case task_of q i of
        Some t \<Rightarrow> if qt_phase t = Polling then set_phase i Ended q else q
      | None \<Rightarrow> q)"

text \<open>The done-callbacks: \<^verbatim>\<open>_tasks.discard\<close> and \<^verbatim>\<open>_forget_window_for\<close>, which drops only its own task.\<close>

definition run_callbacks :: "nat \<Rightarrow> task_queue \<Rightarrow> task_queue" where
  "run_callbacks i q =
     (case task_of q i of
        Some t \<Rightarrow>
          if qt_phase t \<noteq> Ended then q
          else
            (case qt_window t of
               None \<Rightarrow> q\<lparr>tq_tasks := tq_tasks q - {i}\<rparr>
             | Some w \<Rightarrow> if dict_get (tq_by_window q) w = Some i
                         then q\<lparr>tq_by_window := dict_pop w (tq_by_window q)\<rparr> else q)
      | None \<Rightarrow> q)"

text \<open>
  \<^verbatim>\<open>close\<close>: every task the queue still refers to is cancelled and awaited; a cancelled sleep never polls.
\<close>

definition close_queue :: "task_queue \<Rightarrow> task_queue" where
  "close_queue q =
     (let pending = tq_tasks q \<union> set (map snd (tq_by_window q)) in
      q\<lparr>tq_closed := True, tq_by_window := [],
        tq_loop := map (\<lambda>t. if qt_id t \<in> pending then t\<lparr>qt_phase := Ended\<rparr> else t) (tq_loop q)\<rparr>)"

inductive queue_step :: "task_queue \<Rightarrow> task_queue \<Rightarrow> bool" where
  step_enqueue: "queue_step q (enqueue_watch_poll now wid win delay due q)"
| step_wake: "queue_step q (wake now i q)"
| step_finish: "queue_step q (finish_poll i q)"
| step_callbacks: "queue_step q (run_callbacks i q)"
| step_close: "queue_step q (close_queue q)"

abbreviation queue_runs :: "task_queue \<Rightarrow> task_queue \<Rightarrow> bool" where
  "queue_runs \<equiv> queue_step\<^sup>*\<^sup>*"

section \<open>The sleeping loop\<close>

text \<open>
  The readings of the clock at the turns of the loop; the answer is the turn that polls. It may not
  return, so it is a partial function.
\<close>

partial_function (option) run_at :: "time \<Rightarrow> (nat \<Rightarrow> time) \<Rightarrow> nat \<Rightarrow> nat option" where
  "run_at due clk n = (case sleep_for due (clk n) of None \<Rightarrow> Some n | Some _ \<Rightarrow> run_at due clk (Suc n))"

section \<open>The Celery queue and its task\<close>

record celery_message =
  cm_args :: "string list"
  cm_countdown :: seconds
  cm_task_id :: "string option"

definition celery_enqueue ::
  "string \<Rightarrow> string option \<Rightarrow> seconds \<Rightarrow> time option \<Rightarrow> string option \<Rightarrow> celery_message" where
  "celery_enqueue wid win delay due tid =
     \<lparr>cm_args = (case win of None \<Rightarrow> [wid] | Some w \<Rightarrow> [wid, w]), cm_countdown = max 0 delay, cm_task_id = tid\<rparr>"

text \<open>How the worker calls the service: the one-argument message takes \<^verbatim>\<open>poll_once\<close>.\<close>

datatype poll_call = Poll_once string | Poll_window string string

fun delivered_call :: "string list \<Rightarrow> poll_call option" where
  "delivered_call [wid] = Some (Poll_once wid)"
| "delivered_call [wid, win] = Some (Poll_window wid win)"
| "delivered_call _ = None"

text \<open>What a poll can raise in the worker.\<close>

datatype worker_error = Redis_connection_error | Redis_timeout_error | Broker_operational_error | Other_worker_error

definition recoverable :: "worker_error \<Rightarrow> bool" where
  "recoverable err \<longleftrightarrow> err \<in> {Redis_connection_error, Redis_timeout_error, Broker_operational_error}"

datatype 'r delivery = Reported 'r | Retry_in int worker_error | Failed worker_error

definition MAX_RETRIES :: nat where "MAX_RETRIES = 3"

text \<open>
  One delivery, after \<open>retries\<close> earlier ones: a closed worker raises, the recoverable errors ask Celery
  for another delivery in a minute (which re-raises once the retries are used up), all others propagate.
\<close>

definition monitor_watch :: "bool \<Rightarrow> nat \<Rightarrow> worker_error + 'r \<Rightarrow> 'r delivery" where
  "monitor_watch shut retries res =
     (if shut then Failed Other_worker_error
      else
        (case res of
           Inr r \<Rightarrow> Reported r
         | Inl err \<Rightarrow> if recoverable err \<and> retries < MAX_RETRIES then Retry_in 60 err else Failed err))"

text \<open>The deliveries of one message: \<open>polls k\<close> is what the k-th poll would do. The answer counts them.\<close>

function deliver :: "(nat \<Rightarrow> worker_error + 'r) \<Rightarrow> nat \<Rightarrow> nat \<times> 'r delivery" where
  "deliver polls k =
     (case monitor_watch False k (polls k) of
        Retry_in s err \<Rightarrow> deliver polls (Suc k)
      | d \<Rightarrow> (Suc k, d))"
  by pat_completeness auto
termination
  by (relation "measure (\<lambda>(polls, k). MAX_RETRIES - k)")
     (auto simp: monitor_watch_def split: sum.splits if_splits)

declare deliver.simps [simp del]

section \<open>Closing the worker\<close>

datatype worker_resource = Redis_client | Postgres_pool | Event_loop

record worker_process =
  wp_closed :: bool
  wp_runner :: bool
  wp_redis :: bool
  wp_pool :: bool
  wp_released :: "worker_resource list"

text \<open>
  \<^verbatim>\<open>_close_worker_resources\<close>: each \<^verbatim>\<open>finally\<close> runs although what precedes it raised. \<open>fails\<close> says which
  releases raise; the answer says whether an exception leaves the function.
\<close>

definition close_worker_resources :: "(worker_resource \<Rightarrow> bool) \<Rightarrow> worker_process \<Rightarrow> bool \<times> worker_process" where
  "close_worker_resources fails p =
     (if wp_closed p then (False, p)
      else if \<not> wp_runner p then (False, p\<lparr>wp_closed := True\<rparr>)
      else
        (let redis = (if wp_redis p then [Redis_client] else []);
             pool = (if wp_pool p then [Postgres_pool] else []);
             tried = redis @ pool @ [Event_loop]
         in (list_ex fails tried, p\<lparr>wp_closed := True, wp_released := wp_released p @ tried\<rparr>)))"

section \<open>What the queue keeps\<close>

text \<open>Identities are fresh, a window names its own task, and every live task is referred to.\<close>

definition referred :: "task_queue \<Rightarrow> queued_task \<Rightarrow> bool" where
  "referred q t \<longleftrightarrow> \<not> tq_closed q \<and>
     (case qt_window t of None \<Rightarrow> qt_id t \<in> tq_tasks q | Some w \<Rightarrow> dict_get (tq_by_window q) w = Some (qt_id t))"

definition polled_by :: "nat \<times> time \<Rightarrow> queued_task \<Rightarrow> bool" where
  "polled_by p t \<longleftrightarrow> qt_id t = fst p \<and> qt_due t \<le> snd p \<and> qt_phase t \<noteq> Waiting"

definition windows_named :: "(string, nat) pydict \<Rightarrow> queued_task list \<Rightarrow> bool" where
  "windows_named d ts \<longleftrightarrow> (\<forall>w i. dict_get d w = Some i \<longrightarrow> (\<exists>t \<in> set ts. qt_id t = i \<and> qt_window t = Some w))"

definition queue_ok :: "task_queue \<Rightarrow> bool" where
  "queue_ok q \<longleftrightarrow>
     distinct (map qt_id (tq_loop q)) \<and> (\<forall>t \<in> set (tq_loop q). qt_id t < tq_created q) \<and>
     dict_ok (tq_by_window q) \<and> windows_named (tq_by_window q) (tq_loop q) \<and>
     (\<forall>t \<in> set (tq_loop q). qt_phase t \<noteq> Ended \<longrightarrow> referred q t) \<and>
     (\<forall>p \<in> set (tq_polls q). \<exists>t \<in> set (tq_loop q). polled_by p t) \<and>
     distinct (map fst (tq_polls q))"

lemma task_of_iff:
  "distinct (map qt_id (tq_loop q)) \<Longrightarrow> task_of q i = Some t \<longleftrightarrow> t \<in> set (tq_loop q) \<and> qt_id t = i"
  by (auto simp: task_of_def find_Some_iff distinct_conv_nth in_set_conv_nth)

end
