(* ===== verification/Task_Queue_Properties.thy ===== *)
theory Task_Queue_Properties
  imports Task_Queue
begin

text \<open>
  The in-process queue under any sequence of its steps, the loop that sleeps until a poll is due, and
  the deliveries of a Celery message.
\<close>

section \<open>Invariant\<close>

lemma task_of_ok: "queue_ok q \<Longrightarrow> task_of q i = Some t \<longleftrightarrow> t \<in> set (tq_loop q) \<and> qt_id t = i"
  by (simp add: queue_ok_def task_of_iff)

lemma task_unique: "queue_ok q \<Longrightarrow> s \<in> set (tq_loop q) \<Longrightarrow> t \<in> set (tq_loop q) \<Longrightarrow> qt_id s = qt_id t \<Longrightarrow> s = t"
  by (auto simp: queue_ok_def distinct_map inj_on_def)

lemma named_task:
  "queue_ok q \<Longrightarrow> dict_get (tq_by_window q) w = Some i \<Longrightarrow> \<exists>t \<in> set (tq_loop q). qt_id t = i \<and> qt_window t = Some w"
  unfolding queue_ok_def windows_named_def by blast

lemma queue_ok_empty: "queue_ok empty_queue"
  by (simp add: queue_ok_def empty_queue_def windows_named_def)

text \<open>Phases only move forward; nothing else of a task changes.\<close>

definition later_phase :: "queued_task \<Rightarrow> queued_task \<Rightarrow> bool" where
  "later_phase s t \<longleftrightarrow> qt_id t = qt_id s \<and> qt_window t = qt_window s \<and> qt_due t = qt_due s \<and>
     (qt_phase s = Ended \<longrightarrow> qt_phase t = Ended) \<and> (qt_phase t = Waiting \<longrightarrow> qt_phase s = Waiting)"

lemma ok_forward:
  assumes ok: "queue_ok q" and f: "\<And>t. t \<in> set (tq_loop q) \<Longrightarrow> later_phase t (f t)"
    and closed: "\<And>t. t \<in> set (tq_loop q) \<Longrightarrow> qt_phase (f t) \<noteq> Ended \<Longrightarrow> referred q' t"
    and q': "tq_loop q' = map f (tq_loop q)" "tq_created q' = tq_created q" "tq_polls q' = tq_polls q" "dict_ok (tq_by_window q')"
      "\<And>w i. dict_get (tq_by_window q') w = Some i \<Longrightarrow> dict_get (tq_by_window q) w = Some i"
  shows "queue_ok q'"
proof -
  have named: "windows_named (tq_by_window q') (map f (tq_loop q))"
    unfolding windows_named_def
  proof (intro allI impI)
    fix w i assume "dict_get (tq_by_window q') w = Some i"
    from named_task [OF ok q'(5) [OF this]] obtain t where "t \<in> set (tq_loop q)" "qt_id t = i" "qt_window t = Some w"
      by blast
    with f [OF this(1)] show "\<exists>t \<in> set (map f (tq_loop q)). qt_id t = i \<and> qt_window t = Some w"
      by (auto simp: later_phase_def)
  qed
  have ids: "map (qt_id \<circ> f) (tq_loop q) = map qt_id (tq_loop q)" using f by (simp add: later_phase_def)
  have "referred q' (f t)" if "t \<in> set (tq_loop q)" "qt_phase (f t) \<noteq> Ended" for t
    using closed [OF that] f [OF that(1)] by (simp add: referred_def later_phase_def split: option.splits)
  moreover have "polled_by p t \<Longrightarrow> t \<in> set (tq_loop q) \<Longrightarrow> polled_by p (f t)" for p t
    using f by (auto simp: polled_by_def later_phase_def)
  moreover have "t \<in> set (tq_loop q) \<Longrightarrow> qt_id (f t) < tq_created q" for t
    using ok f by (auto simp: queue_ok_def later_phase_def)
  ultimately show ?thesis
    using ok named by (simp add: queue_ok_def q'(1-4) ids) blast
qed

lemma ok_create:
  assumes ok: "queue_ok q" and opened: "\<not> tq_closed q"
    and kept: "\<And>t. t \<in> set (tq_loop q) \<Longrightarrow> qt_phase t \<noteq> Ended \<Longrightarrow> referred q' t"
    and q': "tq_loop q' = tq_loop (create_task wid win due q)" "tq_created q' = Suc (tq_created q)"
      "tq_polls q' = tq_polls q" "dict_ok (tq_by_window q')"
      "tq_by_window q' = tq_by_window q \<or> (\<exists>w. win = Some w \<and> tq_by_window q' = dict_set w (tq_created q) (tq_by_window q))"
      "referred q' \<lparr>qt_id = tq_created q, qt_watch = wid, qt_window = win, qt_due = due, qt_phase = Waiting\<rparr>"
  shows "queue_ok q'"
proof -
  have "windows_named (tq_by_window q) (tq_loop q)" using ok by (simp add: queue_ok_def)
  then have named: "windows_named (tq_by_window q') (tq_loop (create_task wid win due q))"
    using q'(5) by (auto simp: windows_named_def create_task_def split: if_splits) blast+
  have "\<forall>t \<in> set (tq_loop q). qt_id t < tq_created q" using ok by (simp add: queue_ok_def)
  then show ?thesis
    using ok kept named by (auto simp: queue_ok_def q'(1-4,6) create_task_def less_Suc_eq)
qed

lemma ok_enqueue:
  assumes ok: "queue_ok q"
  shows "queue_ok (enqueue_watch_poll now wid win delay due q)"
proof -
  let ?i = "tq_created q" and ?t = "due_time now delay due"
  have ref: "t \<in> set (tq_loop q) \<Longrightarrow> qt_phase t \<noteq> Ended \<Longrightarrow> referred q t" for t using ok by (simp add: queue_ok_def)
  show ?thesis
  proof (cases win)
    case None
    have "queue_ok ((create_task wid None ?t q)\<lparr>tq_tasks := insert ?i (tq_tasks q)\<rparr>)" if "\<not> tq_closed q"
    proof (rule ok_create [of q _ wid None ?t])
      fix t assume "t \<in> set (tq_loop q)" "qt_phase t \<noteq> Ended"
      with ref [OF this] show "referred ((create_task wid None ?t q)\<lparr>tq_tasks := insert ?i (tq_tasks q)\<rparr>) t"
        by (auto simp: referred_def create_task_def split: option.splits)
    qed (use ok that in \<open>simp_all add: create_task_def referred_def queue_ok_def\<close>)
    with ok None show ?thesis by (simp add: enqueue_watch_poll_def Let_def)
  next
    case (Some w)
    let ?held = "case dict_get (tq_by_window q) w of None \<Rightarrow> False | Some j \<Rightarrow> task_live q j"
    have free: "qt_window t \<noteq> Some w" if "t \<in> set (tq_loop q)" "qt_phase t \<noteq> Ended" "\<not> ?held" for t
      using that ref [OF that(1,2)] task_of_ok [OF ok, of "qt_id t" t] by (auto simp: task_live_def referred_def)
    have "queue_ok ((create_task wid (Some w) ?t q)\<lparr>tq_by_window := dict_set w ?i (tq_by_window q)\<rparr>)"
      if "\<not> tq_closed q" "\<not> ?held"
    proof (rule ok_create [of q _ wid "Some w" ?t])
      fix t assume t: "t \<in> set (tq_loop q)" "qt_phase t \<noteq> Ended"
      with ref [OF t] free [OF t that(2)]
      show "referred ((create_task wid (Some w) ?t q)\<lparr>tq_by_window := dict_set w ?i (tq_by_window q)\<rparr>) t"
        by (auto simp: referred_def create_task_def split: option.split)
    qed (use ok that in \<open>auto simp: create_task_def referred_def queue_ok_def\<close>)
    with ok Some show ?thesis by (simp add: enqueue_watch_poll_def Let_def)
  qed
qed

lemma wake_cases:
  obtains (idle) "wake now i q = q"
  | (poll) t where "task_of q i = Some t" "qt_phase t = Waiting" "qt_due t \<le> now"
      "wake now i q = (set_phase i Polling q)\<lparr>tq_polls := tq_polls q @ [(i, now)]\<rparr>"
proof (cases "task_of q i")
  case None
  then show thesis by (intro idle) (simp add: wake_def)
next
  case (Some t)
  show thesis
  proof (cases "qt_phase t = Waiting \<and> sleep_for (qt_due t) now = None")
    case True
    then show thesis using Some by (intro poll [OF Some]) (auto simp: wake_def sleep_for_def Let_def split: if_splits)
  next
    case False
    then show thesis using Some by (intro idle) (auto simp: wake_def)
  qed
qed

lemma ok_phase:
  assumes ok: "queue_ok q" and t: "task_of q i = Some t" and phase: "qt_phase t = Waiting \<and> ph = Polling \<or> ph = Ended"
  shows "queue_ok (set_phase i ph q)"
proof -
  have only: "s = t" if "s \<in> set (tq_loop q)" "qt_id s = i" for s
    using task_unique [OF ok that(1), of t] t that(2) by (simp add: task_of_ok [OF ok])
  have "referred (set_phase i ph q) = referred q" by (rule ext) (simp add: referred_def set_phase_def split: option.split)
  moreover have "\<forall>s \<in> set (tq_loop q). qt_phase s \<noteq> Ended \<longrightarrow> referred q s" "dict_ok (tq_by_window q)"
    using ok by (simp_all add: queue_ok_def)
  ultimately show ?thesis
    using only phase
    by (intro ok_forward [OF ok, where f = "\<lambda>t. if qt_id t = i then t\<lparr>qt_phase := ph\<rparr> else t"])
       (auto simp: set_phase_def later_phase_def split: if_splits)
qed

lemma ok_wake:
  assumes ok: "queue_ok q"
  shows "queue_ok (wake now i q)"
proof (cases rule: wake_cases [of now i q])
  case idle
  with ok show ?thesis by simp
next
  case (poll t)
  let ?q = "set_phase i Polling q"
  have t: "t \<in> set (tq_loop q)" "qt_id t = i" using poll(1) by (simp_all add: task_of_ok [OF ok])
  have "i \<notin> fst ` set (tq_polls q)"
  proof
    assume "i \<in> fst ` set (tq_polls q)"
    then obtain s where "s \<in> set (tq_loop q)" "qt_id s = i" "qt_phase s \<noteq> Waiting"
      using ok by (force simp: queue_ok_def polled_by_def)
    with task_unique [OF ok this(1) t(1)] t(2) poll(2) show False by simp
  qed
  moreover have "polled_by (i, now) (t\<lparr>qt_phase := Polling\<rparr>)" "t\<lparr>qt_phase := Polling\<rparr> \<in> set (tq_loop ?q)"
    using t poll(3) by (auto simp: polled_by_def set_phase_def)
  moreover have "tq_polls ?q = tq_polls q" by (simp add: set_phase_def)
  moreover have "referred (?q\<lparr>tq_polls := tq_polls q @ [(i, now)]\<rparr>) = referred ?q" by (rule ext) (simp add: referred_def split: option.split)
  ultimately show ?thesis
    using ok_phase [OF ok poll(1), of Polling] poll(2) by (auto simp: poll(4) queue_ok_def)
qed

lemma ok_finish: "queue_ok q \<Longrightarrow> queue_ok (finish_poll i q)"
  by (simp add: finish_poll_def ok_phase split: option.split)

lemma ok_callbacks:
  assumes ok: "queue_ok q"
  shows "queue_ok (run_callbacks i q)"
proof (cases "task_of q i")
  case None
  with ok show ?thesis by (simp add: run_callbacks_def)
next
  case (Some t)
  let ?q = "run_callbacks i q"
  have "tq_loop ?q = tq_loop q" "tq_created ?q = tq_created q" "tq_polls ?q = tq_polls q" "tq_closed ?q = tq_closed q"
    "dict_ok (tq_by_window ?q)"
    using Some ok by (auto simp: run_callbacks_def queue_ok_def split: option.split)
  moreover have "dict_get (tq_by_window q) w = Some j" if "dict_get (tq_by_window ?q) w = Some j" for w j
    using that Some by (auto simp: run_callbacks_def split: option.splits if_splits)
  moreover have "referred ?q s" if s: "s \<in> set (tq_loop q)" "qt_phase s \<noteq> Ended" for s
  proof (cases "qt_phase t = Ended")
    case True
    with s have "qt_id s \<noteq> i" using task_unique [OF ok s(1), of t] Some by (auto simp: task_of_ok [OF ok])
    moreover have "referred q s" using ok s by (simp add: queue_ok_def)
    ultimately show ?thesis using Some True by (auto simp: run_callbacks_def referred_def split: option.splits)
  next
    case False
    with Some ok s show ?thesis by (simp add: run_callbacks_def queue_ok_def)
  qed
  ultimately show ?thesis
    by (intro ok_forward [OF ok, where f = "\<lambda>t. t"]) (simp_all add: later_phase_def)
qed

lemma close_ends:
  assumes ok: "queue_ok q"
  shows "t \<in> set (tq_loop (close_queue q)) \<Longrightarrow> qt_phase t = Ended"
proof -
  have "qt_id t \<in> tq_tasks q \<union> set (map snd (tq_by_window q))" if "t \<in> set (tq_loop q)" "qt_phase t \<noteq> Ended" for t
  proof -
    have "referred q t" using ok that by (simp add: queue_ok_def)
    then show ?thesis by (force simp: referred_def split: option.splits dest: map_of_SomeD)
  qed
  then show "t \<in> set (tq_loop (close_queue q)) \<Longrightarrow> qt_phase t = Ended"
    by (auto simp: close_queue_def Let_def split: if_splits)
qed

lemma ok_close:
  assumes ok: "queue_ok q"
  shows "queue_ok (close_queue q)"
proof -
  define f where "f t = (if qt_id t \<in> tq_tasks q \<union> set (map snd (tq_by_window q)) then t\<lparr>qt_phase := Ended\<rparr> else t)" for t :: queued_task
  have loop: "tq_loop (close_queue q) = map f (tq_loop q)" by (simp add: close_queue_def f_def)
  have "qt_phase (f t) = Ended" if "t \<in> set (tq_loop q)" for t using close_ends [OF ok, of "f t"] that by (simp add: loop)
  moreover have "later_phase t (f t)" for t by (simp add: later_phase_def f_def)
  ultimately show ?thesis
    by (intro ok_forward [OF ok, where f = f]) (simp_all add: loop, simp_all add: close_queue_def Let_def)
qed

lemma queue_step_ok: "queue_step q q' \<Longrightarrow> queue_ok q \<Longrightarrow> queue_ok q'"
  by (induction rule: queue_step.induct) (auto intro: ok_enqueue ok_wake ok_finish ok_callbacks ok_close)

lemma queue_runs_ok: "queue_runs q q' \<Longrightarrow> queue_ok q \<Longrightarrow> queue_ok q'"
  by (induction rule: rtranclp_induct) (auto intro: queue_step_ok)

text \<open>A closed queue stays closed and polls no more.\<close>

lemma closed_step:
  assumes "queue_step q q'" and "queue_ok q" and "tq_closed q"
  shows "tq_closed q' \<and> tq_polls q' = tq_polls q"
  using assms
proof (induction rule: queue_step.induct)
  case (step_wake q now i)
  show ?case
  proof (cases rule: wake_cases [of now i q])
    case (poll t)
    with step_wake task_of_ok [of q i t] have False by (auto simp: queue_ok_def referred_def)
    then show ?thesis ..
  qed (use step_wake in simp)
qed (auto simp: enqueue_watch_poll_def finish_poll_def set_phase_def run_callbacks_def close_queue_def Let_def split: option.splits)

lemma closed_runs:
  "queue_runs q q' \<Longrightarrow> queue_ok q \<Longrightarrow> tq_closed q \<Longrightarrow> tq_closed q' \<and> tq_polls q' = tq_polls q"
proof (induction rule: rtranclp_induct)
  case (step y z)
  with queue_runs_ok [of q y] closed_step [OF step.hyps(2)] show ?case by simp
qed simp

lemma window_names_own:
  assumes "queue_ok q" and "dict_get (tq_by_window q) w = Some i" and "task_of q i = Some t"
  shows "qt_window t = Some w"
proof -
  obtain s where "s \<in> set (tq_loop q)" "qt_id s = i" "qt_window s = Some w"
    using named_task [OF assms(1,2)] by blast
  with task_unique [OF assms(1) this(1), of t] assms show ?thesis by (simp add: task_of_ok)
qed

text \<open>
  C38. The in-process queue is safe under any interleaving of deliveries, wake-ups, ends and closing:
  one window never has two live tasks, a task polls at most once and never before it is due, a
  delivery to an open queue leaves a live task for its window, and after closing nothing ever polls.
\<close>

theorem in_process_queue_is_safe:
  assumes "queue_runs empty_queue q"
  shows "(\<forall>s t w. s \<in> set (tq_loop q) \<and> t \<in> set (tq_loop q) \<and> qt_phase s \<noteq> Ended \<and> qt_phase t \<noteq> Ended \<and>
       qt_window s = Some w \<and> qt_window t = Some w \<longrightarrow> s = t) \<and>
    distinct (map fst (tq_polls q)) \<and>
    (\<forall>(i, now) \<in> set (tq_polls q). \<exists>t \<in> set (tq_loop q). qt_id t = i \<and> qt_due t \<le> now) \<and>
    (\<forall>now wid w delay due. \<not> tq_closed q \<longrightarrow>
       (\<exists>t \<in> set (tq_loop (enqueue_watch_poll now wid (Some w) delay due q)). qt_window t = Some w \<and> qt_phase t \<noteq> Ended)) \<and>
    (\<forall>q'. queue_runs (close_queue q) q' \<longrightarrow> tq_polls q' = tq_polls q)"
proof (intro conjI allI impI)
  have ok: "queue_ok q" using queue_runs_ok [OF assms queue_ok_empty] .
  have ref: "\<And>t. t \<in> set (tq_loop q) \<Longrightarrow> qt_phase t \<noteq> Ended \<Longrightarrow> referred q t" using ok by (simp add: queue_ok_def)
  show "s = t" if "s \<in> set (tq_loop q) \<and> t \<in> set (tq_loop q) \<and> qt_phase s \<noteq> Ended \<and> qt_phase t \<noteq> Ended \<and>
       qt_window s = Some w \<and> qt_window t = Some w" for s t w
    using that ref [of s] ref [of t] task_unique [OF ok, of s t] by (auto simp: referred_def)
  show "distinct (map fst (tq_polls q))" using ok by (simp add: queue_ok_def)
  show "\<forall>(i, now) \<in> set (tq_polls q). \<exists>t \<in> set (tq_loop q). qt_id t = i \<and> qt_due t \<le> now"
    using ok by (force simp: queue_ok_def polled_by_def)
  show "\<exists>t \<in> set (tq_loop (enqueue_watch_poll now wid (Some w) delay due q)). qt_window t = Some w \<and> qt_phase t \<noteq> Ended"
    if "\<not> tq_closed q" for now wid w delay due
  proof (cases "case dict_get (tq_by_window q) w of None \<Rightarrow> False | Some j \<Rightarrow> task_live q j")
    case False
    with that show ?thesis by (auto simp: enqueue_watch_poll_def Let_def create_task_def)
  next
    case True
    then obtain j t where t: "dict_get (tq_by_window q) w = Some j" "task_of q j = Some t" "qt_phase t \<noteq> Ended"
      by (auto simp: task_live_def split: option.splits)
    have "t \<in> set (tq_loop q)" "qt_id t = j" using t(2) by (simp_all add: task_of_ok [OF ok])
    moreover have "qt_window t = Some w" using window_names_own [OF ok t(1,2)] .
    ultimately show ?thesis using that True t(3) by (auto simp: enqueue_watch_poll_def Let_def)
  qed
  show "tq_polls q' = tq_polls q" if "queue_runs (close_queue q) q'" for q'
    using closed_runs [OF that ok_close [OF ok]] by (simp add: close_queue_def Let_def)
qed

definition demo_queue :: task_queue where
  "demo_queue = enqueue_watch_poll 0 ''w1'' (Some ''w1:0'') 5 None
     (enqueue_watch_poll 0 ''w1'' (Some ''w1:0'') 0 None empty_queue)"

theorem in_process_queue_is_safe_witness:
  "length (tq_loop demo_queue) = 1 \<and> tq_polls (wake 7 0 demo_queue) = [(0, 7)] \<and>
   tq_polls (wake 9 0 (close_queue (wake 7 0 demo_queue))) = [(0, 7)]"
proof -
  have "queue_runs empty_queue (wake 7 0 demo_queue)"
    unfolding demo_queue_def by (meson queue_step.intros rtranclp.rtrancl_into_rtrancl rtranclp.rtrancl_refl)
  moreover have "queue_runs (close_queue q) (wake 9 0 (close_queue q))" for q by (blast intro: queue_step.intros)
  ultimately have "tq_polls (wake 9 0 (close_queue (wake 7 0 demo_queue))) = tq_polls (wake 7 0 demo_queue)"
    using in_process_queue_is_safe by blast
  moreover have "length (tq_loop demo_queue) = 1" "tq_polls (wake 7 0 demo_queue) = [(0, 7)]" by code_simp+
  ultimately show ?thesis by simp
qed

section \<open>The sleeping loop\<close>

lemma run_at_within:
  assumes early: "\<And>n s. sleep_for due (clk n) = Some s \<Longrightarrow> clk n + s \<le> clk (Suc n)"
    and late: "\<And>n s. sleep_for due (clk n) = Some s \<Longrightarrow> clk (Suc n) \<le> clk n + s + delay"
  shows "due - clk n \<le> int b * MAX_SLEEP \<Longrightarrow>
    \<exists>k \<le> b. run_at due clk n = Some (n + k) \<and> due \<le> clk (n + k) \<and> (0 < k \<longrightarrow> clk (n + k) \<le> due + delay)"
proof (induction b arbitrary: n)
  case 0
  then have "sleep_for due (clk n) = None" "due \<le> clk n" by (simp_all add: sleep_for_def Let_def)
  then show ?case by (simp add: run_at.simps)
next
  case (Suc b)
  show ?case
  proof (cases "sleep_for due (clk n)")
    case None
    then have "due \<le> clk n" by (simp add: sleep_for_def Let_def split: if_splits)
    with None show ?thesis by (intro exI [of _ 0]) (simp add: run_at.simps)
  next
    case (Some s)
    then have s: "s = min (due - clk n) MAX_SLEEP" "0 < due - clk n" by (auto simp: sleep_for_def Let_def split: if_splits)
    have "due - clk (Suc n) \<le> int b * MAX_SLEEP"
      using early [OF Some] Suc.prems s by (simp add: min_def algebra_simps MAX_SLEEP_def split: if_splits)
    from Suc.IH [OF this] obtain k where k: "k \<le> b" "run_at due clk (Suc n) = Some (Suc n + k)" "due \<le> clk (Suc n + k)"
      "0 < k \<longrightarrow> clk (Suc n + k) \<le> due + delay" by blast
    have "clk (n + Suc k) \<le> due + delay"
      using k(4) late [OF Some] s by (cases "k = 0") (simp_all add: min_def split: if_splits)
    with k Some show ?thesis by (intro exI [of _ "Suc k"]) (simp add: run_at.simps [of _ _ n])
  qed
qed

text \<open>
  C39. The sleeping loop ends and is punctual: when a sleep never returns early, the loop polls after at
  most one turn per started minute of waiting, never before the poll is due, and, having slept at all,
  no later than a single sleep's own lateness after it, however long the wait was.
\<close>

theorem run_at_is_punctual:
  assumes "\<And>n s. sleep_for due (clk n) = Some s \<Longrightarrow> clk n + s \<le> clk (Suc n)"
    and "\<And>n s. sleep_for due (clk n) = Some s \<Longrightarrow> clk (Suc n) \<le> clk n + s + delay"
  shows "\<exists>k. run_at due clk 0 = Some k \<and> int k * MAX_SLEEP < max 0 (due - clk 0) + MAX_SLEEP \<and>
    due \<le> clk k \<and> (0 < k \<longrightarrow> clk k \<le> due + delay)"
proof -
  define r b where "r = max 0 (due - clk 0)" and "b = nat (- ((- r) div MAX_SLEEP))"
  have "(- r) div MAX_SLEEP \<le> 0 div MAX_SLEEP" by (rule zdiv_mono1) (simp_all add: r_def MAX_SLEEP_def)
  then have b: "int b = - ((- r) div MAX_SLEEP)" by (simp add: b_def)
  have rb: "r \<le> int b * MAX_SLEEP" and "int b * MAX_SLEEP < r + MAX_SLEEP"
    unfolding b by (simp_all add: MAX_SLEEP_def; linarith)+
  then have "due - clk 0 \<le> int b * MAX_SLEEP" by (simp add: r_def)
  from run_at_within [OF assms this] obtain k where "k \<le> b" "run_at due clk 0 = Some k" "due \<le> clk k"
    "0 < k \<longrightarrow> clk k \<le> due + delay" by auto
  moreover from this(1) have "int k * MAX_SLEEP \<le> int b * MAX_SLEEP" by (simp add: MAX_SLEEP_def)
  ultimately show ?thesis using \<open>int b * MAX_SLEEP < r + MAX_SLEEP\<close> by (auto simp: r_def)
qed

theorem run_at_is_punctual_witness:
  "\<exists>k. run_at 150000000 (\<lambda>n. int n * 60000000) 0 = Some k \<and> int k * MAX_SLEEP < 150000000 + MAX_SLEEP"
proof -
  have "\<exists>k. run_at 150000000 (\<lambda>n. int n * 60000000) 0 = Some k \<and>
      int k * MAX_SLEEP < max 0 (150000000 - int 0 * 60000000) + MAX_SLEEP \<and>
      150000000 \<le> int k * 60000000 \<and> (0 < k \<longrightarrow> int k * 60000000 \<le> 150000000 + 60000000)"
    by (rule run_at_is_punctual) (auto simp: sleep_for_def MAX_SLEEP_def Let_def split: if_splits)
  then show ?thesis by auto
qed

section \<open>Deliveries\<close>

lemma deliver_from:
  "k \<le> MAX_RETRIES \<Longrightarrow> \<exists>n. fst (deliver polls k) = Suc n \<and> k \<le> n \<and> n \<le> MAX_RETRIES \<and>
     (\<forall>j. k \<le> j \<and> j < n \<longrightarrow> (\<exists>err. polls j = Inl err \<and> recoverable err)) \<and>
     (case polls n of Inr r \<Rightarrow> snd (deliver polls k) = Reported r
      | Inl err \<Rightarrow> snd (deliver polls k) = Failed err \<and> (recoverable err \<longrightarrow> n = MAX_RETRIES))"
proof (induction polls k rule: deliver.induct)
  case (1 polls k)
  show ?case
  proof (cases "\<exists>err. polls k = Inl err \<and> recoverable err \<and> k < MAX_RETRIES")
    case True
    then obtain err where err: "polls k = Inl err" "recoverable err" "k < MAX_RETRIES" by blast
    then have retry: "monitor_watch False k (polls k) = Retry_in 60 err" by (simp add: monitor_watch_def)
    then have eq: "deliver polls k = deliver polls (Suc k)" by (subst deliver.simps) simp
    from "1.IH" [OF retry] err(3) obtain n where n: "fst (deliver polls (Suc k)) = Suc n" "Suc k \<le> n" "n \<le> MAX_RETRIES"
      "\<forall>j. Suc k \<le> j \<and> j < n \<longrightarrow> (\<exists>err. polls j = Inl err \<and> recoverable err)"
      "case polls n of Inr r \<Rightarrow> snd (deliver polls (Suc k)) = Reported r
       | Inl err \<Rightarrow> snd (deliver polls (Suc k)) = Failed err \<and> (recoverable err \<longrightarrow> n = MAX_RETRIES)"
      by auto
    have "\<exists>err. polls j = Inl err \<and> recoverable err" if "k \<le> j \<and> j < n" for j
      using that n(4) err by (cases "j = k") auto
    with n show ?thesis unfolding eq by (intro exI [of _ n]) auto
  next
    case False
    with 1(2) show ?thesis
      by (intro exI [of _ k]) (auto simp: deliver.simps [of polls k] monitor_watch_def split: sum.split)
  qed
qed



text \<open>Closing the worker releases everything it opened, once, whatever fails on the way.\<close>

lemma worker_closes_once:
  "close_worker_resources fails p = (raised, p') \<Longrightarrow> wp_closed p' \<and> close_worker_resources fails' p' = (False, p') \<and>
     (\<not> wp_closed p \<and> wp_runner p \<longrightarrow> Event_loop \<in> set (wp_released p') \<and>
        (wp_redis p \<longrightarrow> Redis_client \<in> set (wp_released p')) \<and> (wp_pool p \<longrightarrow> Postgres_pool \<in> set (wp_released p')))"
  by (auto simp: close_worker_resources_def Let_def split: if_splits)

end
