(* ===== verification/Config.thy ===== *)
theory Config
  imports Booking_Service Auth_Service
begin

text \<open>
  \<^verbatim>\<open>backend/config.py\<close>: settings read from the environment, which is a function from names to optional
  values. A reader either returns its settings or fails, with the \<^verbatim>\<open>ConfigurationError\<close> it means to raise
  or with another exception that escapes it. Text is Latin-1, one character per code point. The parsers of
  URLs and time zones, \<^verbatim>\<open>urlparse\<close> and \<^verbatim>\<open>ZoneInfo\<close>, are arguments; each can raise. The texts of errors, which nothing
  reads, are shortened.
\<close>

section \<open>Readers\<close>

type_synonym environment = "string \<Rightarrow> string option"

datatype config_failure = Configuration_error string | Escaped_error

type_synonym 'a reader = "config_failure + 'a"

definition cfg_then :: "'a reader \<Rightarrow> ('a \<Rightarrow> 'b reader) \<Rightarrow> 'b reader" where
  "cfg_then m f = (case m of Inl err \<Rightarrow> Inl err | Inr x \<Rightarrow> f x)"

definition cfg_require :: "bool \<Rightarrow> string \<Rightarrow> unit reader" where
  "cfg_require ok message = (if ok then Inr () else Inl (Configuration_error message))"

text \<open>\<^verbatim>\<open>os.getenv(name, default).strip()\<close>.\<close>

definition getenv :: "environment \<Rightarrow> string \<Rightarrow> string \<Rightarrow> string" where
  "getenv env name dflt = strip (case env name of None \<Rightarrow> dflt | Some v \<Rightarrow> v)"

text \<open>\<^verbatim>\<open>(os.environ.get(name) or "").strip() or None\<close>.\<close>

definition getenv_or_none :: "environment \<Rightarrow> string \<Rightarrow> string option" where
  "getenv_or_none env name = (let v = getenv env name '''' in if v = [] then None else Some v)"

text \<open>\<^verbatim>\<open>int(text)\<close> of stripped text: a sign, then digits with single underscores between them, at most 4300.\<close>

fun digit_groups :: "bool \<Rightarrow> int \<Rightarrow> string \<Rightarrow> int option" where
  "digit_groups seen acc [] = (if seen then Some acc else None)"
| "digit_groups seen acc (c # cs) =
     (if is_digit c then digit_groups True (acc * 10 + digit_val c) cs
      else if c = CHR ''_'' \<and> seen then digit_groups False acc cs
      else None)"

definition int_of_text :: "string \<Rightarrow> int option" where
  "int_of_text s =
     (if 4300 < length (filter is_digit s) then None
      else
        (case s of
           [] \<Rightarrow> None
         | c # cs \<Rightarrow> if c = CHR ''-'' then map_option uminus (digit_groups False 0 cs)
                     else if c = CHR ''+'' then digit_groups False 0 cs
                     else digit_groups False 0 s))"

text \<open>\<^verbatim>\<open>str.isdigit\<close> on Latin-1: the decimal digits and the three superscripts, which \<^verbatim>\<open>int\<close> rejects.\<close>

definition is_digit_char :: "char \<Rightarrow> bool" where
  "is_digit_char c \<longleftrightarrow> is_digit c \<or> (of_char c :: nat) \<in> {178, 179, 185}"

definition py_isdigit :: "string \<Rightarrow> bool" where
  "py_isdigit s \<longleftrightarrow> s \<noteq> [] \<and> list_all is_digit_char s"

definition bounded_int :: "environment \<Rightarrow> string \<Rightarrow> int \<Rightarrow> bool \<Rightarrow> int reader" where
  "bounded_int env name dflt allow_zero =
     (let raw = getenv env name '''' in
      if raw = [] then Inr dflt
      else
        (case int_of_text raw of
           None \<Rightarrow> Inl (Configuration_error (name @ '' must be an integer''))
         | Some v \<Rightarrow>
             if v < 0 \<or> (v = 0 \<and> \<not> allow_zero) then Inl (Configuration_error (name @ '' must be a positive integer''))
             else Inr v))"

definition MAX_COUNT_TEXT_LENGTH :: nat where "MAX_COUNT_TEXT_LENGTH = 12"

definition bounded_count :: "environment \<Rightarrow> string \<Rightarrow> int \<Rightarrow> int \<Rightarrow> int \<Rightarrow> int reader" where
  "bounded_count env name dflt minimum maximum =
     (let raw = getenv env name '''';
          range_error = Inl (Configuration_error
            (name @ '' must be between '' @ show_int minimum @ '' and '' @ show_int maximum))
      in if raw = [] then Inr dflt
         else if MAX_COUNT_TEXT_LENGTH < length raw \<or> \<not> py_isdigit raw
         then Inl (Configuration_error (name @ '' must be an integer''))
         else
           (case int_of_text raw of
              None \<Rightarrow> Inl Escaped_error
            | Some v \<Rightarrow>
                if v < minimum
                then (if minimum \<le> 1 then Inl (Configuration_error (name @ '' must be a positive integer'')) else range_error)
                else if maximum < v then range_error
                else Inr v))"

definition bool_from_environment :: "environment \<Rightarrow> string \<Rightarrow> bool \<Rightarrow> bool reader" where
  "bool_from_environment env name dflt =
     (let v = casefold (getenv env name '''') in
      if v = [] then Inr dflt
      else if v \<in> {''1'', ''true'', ''yes'', ''on''} then Inr True
      else if v \<in> {''0'', ''false'', ''no'', ''off''} then Inr False
      else Inl (Configuration_error (name @ '' must be a boolean such as 'true' or 'false'.'')))"

text \<open>What \<^verbatim>\<open>urlparse\<close> answers, \<open>None\<close> standing for its \<^verbatim>\<open>ValueError\<close>.\<close>

record url_parts =
  url_scheme :: string
  url_netloc :: string
  url_path :: string
  url_hostname :: "string option"
  url_port :: "int option option"

type_synonym url_parser = "string \<Rightarrow> url_parts option"

definition parse_url :: "url_parser \<Rightarrow> string \<Rightarrow> url_parts reader" where
  "parse_url urlparse s = (case urlparse s of None \<Rightarrow> Inl Escaped_error | Some u \<Rightarrow> Inr u)"

text \<open>
  What \<^verbatim>\<open>ZoneInfo\<close> does with a key: \<open>Some True\<close> for a zone, \<open>Some False\<close> for its \<^verbatim>\<open>ZoneInfoNotFoundError\<close> or
  \<^verbatim>\<open>ValueError\<close>, which the readers catch, and \<open>None\<close> for any other error, such as the \<^verbatim>\<open>IsADirectoryError\<close> of a
  key that names a directory of the \<^verbatim>\<open>tzdata\<close> package.
\<close>

type_synonym zone_reader = "string \<Rightarrow> bool option"

definition require_zone :: "zone_reader \<Rightarrow> string \<Rightarrow> unit reader" where
  "require_zone known_zone zone =
     (case known_zone zone of
        None \<Rightarrow> Inl Escaped_error
      | Some ok \<Rightarrow> cfg_require ok (''Unknown RESERVATION_TIMEZONE: '' @ zone))"

section \<open>WatchSettings\<close>

record watch_settings =
  ws_timezone_name :: string
  ws_redis_url :: string
  ws_poll_interval_seconds :: int
  ws_poll_jitter_seconds :: int
  ws_max_poll_attempts :: int
  ws_dispatch_horizon_seconds :: int
  ws_provider_call_timeout_seconds :: int
  ws_provider_backoff_max_seconds :: int
  ws_mock_slot_capacity :: int
  ws_mock_slot_idle_ttl_seconds :: int
  ws_mock_booking_retention_seconds :: int
  ws_terminal_retention_seconds :: int
  ws_recovery_leader_lease_seconds :: int
  ws_recovery_sweep_seconds :: int

definition watch_settings_from_environment ::
  "url_parser \<Rightarrow> zone_reader \<Rightarrow> environment \<Rightarrow> watch_settings reader" where
  "watch_settings_from_environment urlparse known_zone env =
     (let zone = getenv env ''RESERVATION_TIMEZONE'' ''America/Toronto'';
          redis_url = getenv env ''REDIS_URL'' ''redis://localhost:6379/0'' in
      cfg_then (require_zone known_zone zone) (\<lambda>_.
      cfg_then (parse_url urlparse redis_url) (\<lambda>url.
      cfg_then (cfg_require (url_scheme url \<in> {''redis'', ''rediss'', ''unix''}) (''Invalid REDIS_URL: '' @ redis_url)) (\<lambda>_.
      cfg_then (bounded_int env ''WATCH_POLL_INTERVAL_SECONDS'' 180 False) (\<lambda>interval.
      cfg_then (cfg_require (15 \<le> interval \<and> interval \<le> 3600) ''WATCH_POLL_INTERVAL_SECONDS must be between 15 and 3600'') (\<lambda>_.
      cfg_then (bounded_int env ''WATCH_POLL_JITTER_SECONDS'' 30 True) (\<lambda>jitter.
      cfg_then (cfg_require (jitter < interval) ''WATCH_POLL_JITTER_SECONDS must be smaller than WATCH_POLL_INTERVAL_SECONDS'') (\<lambda>_.
      cfg_then (bounded_count env ''WATCH_MAX_POLL_ATTEMPTS'' 25000 1 1000000) (\<lambda>budget.
      cfg_then (bounded_count env ''WATCH_DISPATCH_HORIZON_SECONDS'' 300 30 3600) (\<lambda>horizon.
      cfg_then (bounded_count env ''WATCH_PROVIDER_CALL_TIMEOUT_SECONDS'' 45 1 45) (\<lambda>timeout.
      cfg_then (bounded_count env ''WATCH_PROVIDER_BACKOFF_MAX_SECONDS'' 3600 1 86400) (\<lambda>backoff.
      cfg_then (cfg_require (interval \<le> backoff) ''WATCH_PROVIDER_BACKOFF_MAX_SECONDS must be at least WATCH_POLL_INTERVAL_SECONDS'') (\<lambda>_.
      cfg_then (bounded_count env ''MOCK_SLOT_CAPACITY'' 10000 1 100000) (\<lambda>capacity.
      cfg_then (bounded_count env ''MOCK_SLOT_IDLE_TTL_SECONDS'' 3600 60 604800) (\<lambda>idle_ttl.
      cfg_then (bounded_count env ''MOCK_BOOKING_RETENTION_SECONDS'' 604800 604800 31536000) (\<lambda>mock_keep.
      cfg_then (bounded_count env ''WATCH_TERMINAL_RETENTION_SECONDS'' 604800 3600 31536000) (\<lambda>keep.
      cfg_then (bounded_count env ''WATCH_RECOVERY_LEADER_LEASE_SECONDS'' 30 5 300) (\<lambda>lease.
      cfg_then (bounded_count env ''WATCH_RECOVERY_SWEEP_SECONDS'' 30 5 3600) (\<lambda>sweep_every.
        Inr \<lparr>ws_timezone_name = zone, ws_redis_url = redis_url, ws_poll_interval_seconds = interval,
          ws_poll_jitter_seconds = jitter, ws_max_poll_attempts = budget,
          ws_dispatch_horizon_seconds = horizon,
          ws_provider_call_timeout_seconds = timeout,
          ws_provider_backoff_max_seconds = backoff,
          ws_mock_slot_capacity = capacity,
          ws_mock_slot_idle_ttl_seconds = idle_ttl,
          ws_mock_booking_retention_seconds = mock_keep,
          ws_terminal_retention_seconds = keep,
          ws_recovery_leader_lease_seconds = lease,
          ws_recovery_sweep_seconds = sweep_every\<rparr>)))))))))))))))))))"

definition watch_settings_ok :: "zone_reader \<Rightarrow> watch_settings \<Rightarrow> bool" where
  "watch_settings_ok known_zone s \<longleftrightarrow>
     known_zone (ws_timezone_name s) = Some True \<and> 15 \<le> ws_poll_interval_seconds s \<and> ws_poll_interval_seconds s \<le> 3600 \<and>
     0 \<le> ws_poll_jitter_seconds s \<and> ws_poll_jitter_seconds s < ws_poll_interval_seconds s \<and>
     1 \<le> ws_max_poll_attempts s \<and> ws_max_poll_attempts s \<le> 1000000 \<and>
     30 \<le> ws_dispatch_horizon_seconds s \<and> ws_dispatch_horizon_seconds s \<le> 3600 \<and>
     1 \<le> ws_provider_call_timeout_seconds s \<and> ws_provider_call_timeout_seconds s \<le> 45 \<and>
     1 \<le> ws_provider_backoff_max_seconds s \<and> ws_provider_backoff_max_seconds s \<le> 86400 \<and>
     1 \<le> ws_mock_slot_capacity s \<and> ws_mock_slot_capacity s \<le> 100000 \<and>
     60 \<le> ws_mock_slot_idle_ttl_seconds s \<and> ws_mock_slot_idle_ttl_seconds s \<le> 604800 \<and>
     604800 \<le> ws_mock_booking_retention_seconds s \<and> ws_mock_booking_retention_seconds s \<le> 31536000 \<and>
     3600 \<le> ws_terminal_retention_seconds s \<and> ws_terminal_retention_seconds s \<le> 31536000 \<and>
     5 \<le> ws_recovery_leader_lease_seconds s \<and> ws_recovery_leader_lease_seconds s \<le> 300 \<and>
     5 \<le> ws_recovery_sweep_seconds s \<and> ws_recovery_sweep_seconds s \<le> 3600 \<and>
     ws_poll_interval_seconds s \<le> ws_provider_backoff_max_seconds s"

text \<open>How the composition root and the worker build the watch service from them.\<close>

definition service_from_settings :: "watch_settings \<Rightarrow> bool \<Rightarrow> service_config" where
  "service_from_settings s history =
     make_service \<lparr>interval_seconds = of_int (ws_poll_interval_seconds s), jitter_seconds = of_int (ws_poll_jitter_seconds s)\<rparr>
       (ws_max_poll_attempts s) (of_int (ws_provider_backoff_max_seconds s)) history"

section \<open>Settings\<close>

text \<open>\<^verbatim>\<open>[A-Za-z0-9][A-Za-z0-9._:\-]{1,63}\<close>.\<close>

definition model_name_valid :: "string \<Rightarrow> bool" where
  "model_name_valid s \<longleftrightarrow> 2 \<le> length s \<and> length s \<le> 64 \<and> is_alnum (hd s) \<and>
     list_all (\<lambda>c. is_alnum c \<or> c \<in> {CHR ''.'', CHR ''_'', CHR '':'', CHR ''-''}) (tl s)"

record app_settings =
  as_openai_api_key :: string
  as_openai_model :: string
  as_watch :: watch_settings

definition app_settings_from_environment ::
  "url_parser \<Rightarrow> zone_reader \<Rightarrow> environment \<Rightarrow> app_settings reader" where
  "app_settings_from_environment urlparse known_zone env =
     (let api_key = getenv env ''OPENAI_API_KEY'' ''''; model = getenv env ''OPENAI_MODEL'' ''gpt-4o-mini'' in
      cfg_then (cfg_require (api_key \<noteq> []) ''OPENAI_API_KEY is not configured. Set it in the environment before starting the service.'') (\<lambda>_.
      cfg_then (cfg_require (model \<noteq> []) ''OPENAI_MODEL cannot be empty'') (\<lambda>_.
      cfg_then (cfg_require (model_name_valid model) (''Invalid OPENAI_MODEL name: '' @ model)) (\<lambda>_.
      cfg_then (watch_settings_from_environment urlparse known_zone env) (\<lambda>watch.
        Inr \<lparr>as_openai_api_key = api_key, as_openai_model = model, as_watch = watch\<rparr>)))))"

section \<open>PostgresSettings and CorsSettings\<close>

text \<open>\<^verbatim>\<open>redact_dsn\<close>: scheme, host, port and path; \<open>Some None\<close> as a port is the \<^verbatim>\<open>ValueError\<close> of \<^verbatim>\<open>.port\<close>.\<close>

definition redact_dsn :: "url_parser \<Rightarrow> string \<Rightarrow> string" where
  "redact_dsn urlparse dsn =
     (case urlparse dsn of
        None \<Rightarrow> ''<unparseable connection URL>''
      | Some u \<Rightarrow>
          (case url_port u of
             Some None \<Rightarrow> ''<unparseable connection URL>''
           | p \<Rightarrow>
               (let port = (case p of Some (Some n) \<Rightarrow> if n = 0 then '''' else '':'' @ show_int n | _ \<Rightarrow> '''');
                    scheme = (if url_scheme u = [] then ''unknown-scheme'' else url_scheme u);
                    host = (case url_hostname u of Some h \<Rightarrow> if h = [] then ''unknown-host'' else h | None \<Rightarrow> ''unknown-host'')
                in scheme @ ''://'' @ host @ port @ url_path u)))"

record postgres_settings =
  pg_dsn :: "string option"
  pg_pool_min_size :: int
  pg_pool_max_size :: int
  pg_statement_timeout_seconds :: int

definition postgres_enabled :: "postgres_settings \<Rightarrow> bool" where
  "postgres_enabled s \<longleftrightarrow> pg_dsn s \<noteq> None"

definition postgres_settings_from_environment :: "url_parser \<Rightarrow> environment \<Rightarrow> postgres_settings reader" where
  "postgres_settings_from_environment urlparse env =
     (case env ''POSTGRES_URL'' of
        None \<Rightarrow> Inr \<lparr>pg_dsn = None, pg_pool_min_size = 1, pg_pool_max_size = 5, pg_statement_timeout_seconds = 10\<rparr>
      | Some raw \<Rightarrow>
          (let dsn = strip raw in
           cfg_then (cfg_require (dsn \<noteq> []) ''POSTGRES_URL was set but is empty. Unset it entirely to disable the watch-history projection.'') (\<lambda>_.
           cfg_then (parse_url urlparse dsn) (\<lambda>url.
           cfg_then (cfg_require (url_scheme url \<in> {''postgres'', ''postgresql''})
             (''Invalid POSTGRES_URL: '' @ redact_dsn urlparse dsn @ ''. Expected a postgres:// or postgresql:// URL.'')) (\<lambda>_.
           cfg_then (bounded_count env ''POSTGRES_POOL_MIN_SIZE'' 1 1 64) (\<lambda>lo.
           cfg_then (bounded_count env ''POSTGRES_POOL_MAX_SIZE'' 5 1 64) (\<lambda>hi.
           cfg_then (cfg_require (lo \<le> hi) ''POSTGRES_POOL_MAX_SIZE must be at least POSTGRES_POOL_MIN_SIZE'') (\<lambda>_.
           cfg_then (bounded_count env ''POSTGRES_STATEMENT_TIMEOUT_SECONDS'' 10 1 300) (\<lambda>timeout.
             Inr \<lparr>pg_dsn = Some dsn, pg_pool_min_size = lo, pg_pool_max_size = hi,
                  pg_statement_timeout_seconds = timeout\<rparr>)))))))))"

text \<open>\<^verbatim>\<open>raw.split(",")\<close>; \<open>acc\<close> is the piece being read, reversed.\<close>

fun split_commas :: "string \<Rightarrow> string \<Rightarrow> string list" where
  "split_commas acc [] = [List.rev acc]"
| "split_commas acc (c # cs) = (if c = CHR '','' then List.rev acc # split_commas [] cs else split_commas (c # acc) cs)"

fun check_origins :: "url_parser \<Rightarrow> string list \<Rightarrow> unit reader" where
  "check_origins urlparse [] = Inr ()"
| "check_origins urlparse (x # xs) =
     cfg_then (parse_url urlparse x) (\<lambda>url.
     cfg_then (cfg_require (url_scheme url \<in> {''http'', ''https''} \<and> url_netloc url \<noteq> [])
       (''Invalid origin in FRONTEND_ORIGINS: '' @ x)) (\<lambda>_.
     cfg_then (cfg_require (url_path url \<in> {'''', ''/''})
       (''Invalid origin in FRONTEND_ORIGINS: '' @ x @ ''. An origin must not include a path.'')) (\<lambda>_.
       check_origins urlparse xs)))"

definition cors_origins_from_environment :: "url_parser \<Rightarrow> environment \<Rightarrow> string list reader" where
  "cors_origins_from_environment urlparse env =
     (case env ''FRONTEND_ORIGINS'' of
        None \<Rightarrow> Inr []
      | Some raw \<Rightarrow>
          (let origins = filter (\<lambda>x. x \<noteq> []) (map strip (split_commas [] raw)) in
           cfg_then (cfg_require (origins \<noteq> []) ''FRONTEND_ORIGINS was set but contains no origins. Unset it entirely to disable CORS.'') (\<lambda>_.
           cfg_then (check_origins urlparse origins) (\<lambda>_. Inr origins))))"

section \<open>AccountSettings and PromptThrottleSettings\<close>

record account_config =
  acs_session_ttl_seconds :: int
  acs_password_min_length :: int
  acs_password_max_length :: int
  acs_argon2_time_cost :: int
  acs_argon2_memory_cost_kib :: int
  acs_argon2_parallelism :: int
  acs_login_throttle_max_attempts :: int
  acs_login_throttle_window_seconds :: int
  acs_login_ip_throttle_max_attempts :: int

definition account_config_from_environment :: "environment \<Rightarrow> account_config reader" where
  "account_config_from_environment env =
     cfg_then (bounded_count env ''PASSWORD_MIN_LENGTH'' 8 8 128) (\<lambda>lo.
     cfg_then (bounded_count env ''PASSWORD_MAX_LENGTH'' 128 8 1024) (\<lambda>hi.
     cfg_then (cfg_require (lo \<le> hi) ''PASSWORD_MAX_LENGTH must be at least PASSWORD_MIN_LENGTH'') (\<lambda>_.
     cfg_then (bounded_count env ''SESSION_TTL_SECONDS'' 2592000 3600 7776000) (\<lambda>ttl.
     cfg_then (bounded_count env ''ARGON2_TIME_COST'' 3 1 100) (\<lambda>tcost.
     cfg_then (bounded_count env ''ARGON2_MEMORY_COST_KIB'' 65536 8192 1048576) (\<lambda>mcost.
     cfg_then (bounded_count env ''ARGON2_PARALLELISM'' 4 1 64) (\<lambda>lanes.
     cfg_then (bounded_count env ''LOGIN_THROTTLE_MAX_ATTEMPTS'' 10 1 10000) (\<lambda>tries.
     cfg_then (bounded_count env ''LOGIN_THROTTLE_WINDOW_SECONDS'' 300 10 3600) (\<lambda>window.
     cfg_then (bounded_count env ''LOGIN_IP_THROTTLE_MAX_ATTEMPTS'' 50 1 10000) (\<lambda>ip_tries.
       Inr \<lparr>acs_session_ttl_seconds = ttl,
            acs_password_min_length = lo,
            acs_password_max_length = hi,
            acs_argon2_time_cost = tcost,
            acs_argon2_memory_cost_kib = mcost,
            acs_argon2_parallelism = lanes,
            acs_login_throttle_max_attempts = tries,
            acs_login_throttle_window_seconds = window,
            acs_login_ip_throttle_max_attempts = ip_tries\<rparr>))))))))))"

definition account_config_ok :: "account_config \<Rightarrow> bool" where
  "account_config_ok s \<longleftrightarrow>
     3600 \<le> acs_session_ttl_seconds s \<and> acs_session_ttl_seconds s \<le> 7776000 \<and>
     8 \<le> acs_password_min_length s \<and> acs_password_min_length s \<le> 128 \<and>
     8 \<le> acs_password_max_length s \<and> acs_password_max_length s \<le> 1024 \<and>
     1 \<le> acs_argon2_time_cost s \<and> acs_argon2_time_cost s \<le> 100 \<and>
     8192 \<le> acs_argon2_memory_cost_kib s \<and> acs_argon2_memory_cost_kib s \<le> 1048576 \<and>
     1 \<le> acs_argon2_parallelism s \<and> acs_argon2_parallelism s \<le> 64 \<and>
     1 \<le> acs_login_throttle_max_attempts s \<and> acs_login_throttle_max_attempts s \<le> 10000 \<and>
     10 \<le> acs_login_throttle_window_seconds s \<and> acs_login_throttle_window_seconds s \<le> 3600 \<and>
     1 \<le> acs_login_ip_throttle_max_attempts s \<and> acs_login_ip_throttle_max_attempts s \<le> 10000 \<and>
     acs_password_min_length s \<le> acs_password_max_length s"

text \<open>The parts the services are built from.\<close>

definition auth_settings_of :: "account_config \<Rightarrow> account_settings" where
  "auth_settings_of s = \<lparr>session_ttl_seconds = of_int (acs_session_ttl_seconds s),
     password_min_length = acs_password_min_length s, password_max_length = acs_password_max_length s\<rparr>"

definition login_throttle_of :: "account_config \<Rightarrow> throttle_config" where
  "login_throttle_of s = \<lparr>max_events = acs_login_throttle_max_attempts s, window_seconds = of_int (acs_login_throttle_window_seconds s)\<rparr>"

record prompt_throttle_settings =
  pt_max_requests :: int
  pt_window_seconds :: int

definition prompt_throttle_from_environment :: "environment \<Rightarrow> prompt_throttle_settings reader" where
  "prompt_throttle_from_environment env =
     cfg_then (bounded_count env ''PROMPT_THROTTLE_MAX_REQUESTS'' 20 1 10000) (\<lambda>n.
     cfg_then (bounded_count env ''PROMPT_THROTTLE_WINDOW_SECONDS'' 300 10 3600) (\<lambda>w.
       Inr \<lparr>pt_max_requests = n, pt_window_seconds = w\<rparr>))"

section \<open>EmailSettings\<close>

record email_settings =
  em_host :: "string option"
  em_port :: int
  em_username :: "string option"
  em_password :: "string option"
  em_sender :: "string option"
  em_starttls :: bool
  em_timeout_seconds :: int
  em_dashboard_base_url :: string

definition email_enabled :: "email_settings \<Rightarrow> bool" where
  "email_enabled s \<longleftrightarrow> em_host s \<noteq> None"

definition rstrip_slashes :: "string \<Rightarrow> string" where
  "rstrip_slashes s = List.rev (dropWhile (\<lambda>c. c = CHR ''/'') (List.rev s))"

definition dashboard_base_url :: "url_parser \<Rightarrow> environment \<Rightarrow> string reader" where
  "dashboard_base_url urlparse env =
     (let raw = getenv env ''DASHBOARD_BASE_URL'' '''' in
      if raw = [] then Inr ''http://localhost:3000''
      else
        cfg_then (parse_url urlparse raw) (\<lambda>url.
        cfg_then (cfg_require (url_scheme url \<in> {''http'', ''https''} \<and> url_netloc url \<noteq> [])
          (''Invalid DASHBOARD_BASE_URL: '' @ raw)) (\<lambda>_. Inr (rstrip_slashes raw))))"

text \<open>The password is not stripped: \<^verbatim>\<open>os.environ.get(...) or None\<close>.\<close>

definition email_settings_from_environment :: "url_parser \<Rightarrow> environment \<Rightarrow> email_settings reader" where
  "email_settings_from_environment urlparse env =
     cfg_then (dashboard_base_url urlparse env) (\<lambda>base.
     (case getenv_or_none env ''SMTP_HOST'' of
        None \<Rightarrow> Inr \<lparr>em_host = None, em_port = 587, em_username = None, em_password = None, em_sender = None,
                     em_starttls = True, em_timeout_seconds = 10, em_dashboard_base_url = base\<rparr>
      | Some host \<Rightarrow>
          (let sender = getenv_or_none env ''SMTP_FROM''; username = getenv_or_none env ''SMTP_USERNAME'';
               password = (case env ''SMTP_PASSWORD'' of Some p \<Rightarrow> if p = [] then None else Some p | None \<Rightarrow> None) in
           cfg_then (cfg_require (sender \<noteq> None) ''SMTP_HOST is set but SMTP_FROM is not. Set the address email is sent from, or unset SMTP_HOST to disable email delivery.'') (\<lambda>_.
           cfg_then (cfg_require (username = None \<or> password \<noteq> None) ''SMTP_USERNAME is set but SMTP_PASSWORD is not. Set both to authenticate, or neither for an unauthenticated relay.'') (\<lambda>_.
           cfg_then (bounded_count env ''SMTP_PORT'' 587 1 65535) (\<lambda>port.
           cfg_then (bool_from_environment env ''SMTP_STARTTLS'' True) (\<lambda>starttls.
           cfg_then (bounded_count env ''SMTP_TIMEOUT_SECONDS'' 10 1 60) (\<lambda>timeout.
             Inr \<lparr>em_host = Some host, em_port = port, em_username = username, em_password = password, em_sender = sender,
                  em_starttls = starttls, em_timeout_seconds = timeout, em_dashboard_base_url = base\<rparr>))))))))"

text \<open>
  How long a service waits for its notifier: \<^verbatim>\<open>DEFAULT_NOTIFY_TIMEOUT_SECONDS\<close> unless the API process was
  given an email notifier, whose transport deadline it then takes over.
\<close>

definition NOTIFY_TIMEOUT_SECONDS :: int where "NOTIFY_TIMEOUT_SECONDS = 10"

definition notifier_timeout :: "email_settings option \<Rightarrow> int" where
  "notifier_timeout n = (case n of None \<Rightarrow> NOTIFY_TIMEOUT_SECONDS | Some s \<Rightarrow> em_timeout_seconds s)"

text \<open>\<^verbatim>\<open>task_soft_time_limit\<close> of a worker's task.\<close>

definition TASK_SOFT_TIME_LIMIT :: int where "TASK_SOFT_TIME_LIMIT = 60"

end
