(* ===== verification/Config_Properties.thy ===== *)
theory Config_Properties
  imports Config Booking_Properties
begin

text \<open>
  What the configuration readers guarantee: an accepted configuration satisfies every bound the services
  rely on, so that the watch service built from it meets the assumptions its theorems make; the counted
  settings read back what is written, and fail with an error of their own except on superscript digits.
\<close>

section \<open>Readers in sequence\<close>

lemma cfg_then_Inr: "cfg_then m f = Inr y \<longleftrightarrow> (\<exists>x. m = Inr x \<and> f x = Inr y)"
  by (cases m) (simp_all add: cfg_then_def)

lemma cfg_require_Inr: "cfg_require ok message = Inr u \<longleftrightarrow> ok"
  by (simp add: cfg_require_def)

lemma bounded_int_from: "bounded_int env name d z = Inr v \<Longrightarrow> 0 \<le> d \<Longrightarrow> 0 \<le> v"
  by (auto simp: bounded_int_def Let_def split: if_splits option.splits)

lemma bounded_count_from:
  "bounded_count env name d lo hi = Inr v \<Longrightarrow> lo \<le> d \<Longrightarrow> d \<le> hi \<Longrightarrow> lo \<le> v \<and> v \<le> hi"
  by (auto simp: bounded_count_def Let_def split: if_splits option.splits)

lemma require_zone_Inr: "require_zone known_zone zone = Inr u \<longleftrightarrow> known_zone zone = Some True"
  by (auto simp: require_zone_def cfg_require_def split: option.splits)

lemmas reader_simps = cfg_then_Inr cfg_require_Inr require_zone_Inr

section \<open>Accepted settings\<close>

lemma settings_facts:
  assumes "watch_settings_from_environment urlparse known_zone env = Inr s"
  shows "watch_settings_ok known_zone s"
  using assms unfolding watch_settings_from_environment_def Let_def reader_simps sum.inject(2)
  apply (elim exE conjE)
  apply (drule bounded_count_from, simp, simp)+
  apply (drule bounded_int_from, simp)+
  apply (simp only: watch_settings_ok_def)
  apply (drule sym [of _ s])
  apply (simp only: watch_settings.simps)
  done

definition service_settings_ok :: "watch_settings \<Rightarrow> service_config \<Rightarrow> bool" where
  "service_settings_ok s cfg \<longleftrightarrow>
     schedule_valid (schedule cfg) \<and> MIN_DELAY_SECONDS \<le> backoff_max_seconds cfg \<and>
     interval_seconds (schedule cfg) \<le> backoff_max_seconds cfg \<and> backoff_max_seconds cfg \<le> 86400 \<and>
     cfg_max_attempts cfg = ws_max_poll_attempts s \<and> 0 < cfg_max_attempts cfg"

lemma service_from_settings_ok:
  "watch_settings_ok known_zone s \<Longrightarrow> service_settings_ok s (service_from_settings s h)"
  by (auto simp: watch_settings_ok_def service_settings_ok_def service_from_settings_def make_service_def
      schedule_valid_def MIN_DELAY_SECONDS_def max_def)

text \<open>
  The provider and the notifier \<open>n\<close> of the API process together end before the claim they work under,
  and in a worker, which waits for its notifier by the default, before the task is interrupted.
\<close>

definition deadlines_fit :: "watch_settings \<Rightarrow> email_settings option \<Rightarrow> bool" where
  "deadlines_fit s n \<longleftrightarrow>
     of_int (ws_provider_call_timeout_seconds s + notifier_timeout n) < POLL_LEASE_SECONDS \<and>
     ws_provider_call_timeout_seconds s + NOTIFY_TIMEOUT_SECONDS < TASK_SOFT_TIME_LIMIT"

lemma email_timeout_bound:
  "email_settings_from_environment urlparse env = Inr mail \<Longrightarrow> em_timeout_seconds mail \<le> 60"
  by (auto simp: email_settings_from_environment_def reader_simps Let_def dest!: bounded_count_from split: option.splits if_splits)

lemma settings_deadlines_fit:
  assumes "watch_settings_ok known_zone s" and "\<And>mail. n = Some mail \<Longrightarrow> em_timeout_seconds mail \<le> 60"
  shows "deadlines_fit s n"
proof -
  have "ws_provider_call_timeout_seconds s \<le> 45" using assms(1) by (simp add: watch_settings_ok_def)
  moreover have "notifier_timeout n \<le> 60"
    using assms(2) by (cases n) (simp_all add: notifier_timeout_def NOTIFY_TIMEOUT_SECONDS_def)
  ultimately have "ws_provider_call_timeout_seconds s + notifier_timeout n \<le> 105" by simp
  then have "(of_int (ws_provider_call_timeout_seconds s + notifier_timeout n) :: seconds) \<le> of_int 105"
    by (simp only: of_int_le_iff)
  moreover have "(of_int 105 :: seconds) < POLL_LEASE_SECONDS" by (simp add: POLL_LEASE_SECONDS_def)
  ultimately have "of_int (ws_provider_call_timeout_seconds s + notifier_timeout n) < POLL_LEASE_SECONDS" by (rule le_less_trans)
  with \<open>ws_provider_call_timeout_seconds s \<le> 45\<close> show ?thesis
    by (simp add: deadlines_fit_def NOTIFY_TIMEOUT_SECONDS_def TASK_SOFT_TIME_LIMIT_def)
qed

text \<open>
  C17. An accepted configuration is safe to run: every setting is inside its documented range, and the watch
  service built from it has a valid schedule, a backoff ceiling that is at least one interval and at
  most a day, and the accepted, positive budget. With the log notifier as with the email notifier of any accepted
  email settings, whose transport deadline the API process takes over, the provider's deadline and the
  notifier's together end before a claim of the watch does; in a worker they end before its task is interrupted.
\<close>

theorem accepted_settings_are_safe:
  assumes "watch_settings_from_environment urlparse known_zone env = Inr s"
  shows "watch_settings_ok known_zone s \<and> service_settings_ok s (service_from_settings s history) \<and> deadlines_fit s None \<and>
    (\<forall>mail. email_settings_from_environment urlparse env = Inr mail \<longrightarrow> deadlines_fit s (Some mail))"
  using settings_facts [OF assms] service_from_settings_ok settings_deadlines_fit email_timeout_bound by blast

section \<open>Counted settings\<close>

lemma digit_groups_digit_chars:
  "list_all is_digit_char ds \<Longrightarrow> digit_groups seen acc ds = None \<longleftrightarrow> (ds = [] \<and> \<not> seen) \<or> \<not> list_all is_digit ds"
proof (induction ds arbitrary: seen acc)
  case (Cons c cs)
  have "\<not> is_digit c \<Longrightarrow> c \<noteq> CHR ''_''" using Cons.prems by (auto simp: is_digit_char_def)
  with Cons show ?case by auto
qed auto

lemma int_of_text_digit_chars:
  assumes "py_isdigit s" and "length s \<le> 4300"
  shows "int_of_text s = None \<longleftrightarrow> \<not> list_all is_digit s"
proof -
  obtain c cs where s: "s = c # cs" and all: "list_all is_digit_char s"
    using assms(1) by (cases s) (auto simp: py_isdigit_def)
  have "c \<noteq> CHR ''-''" "c \<noteq> CHR ''+''" using all by (auto simp: s is_digit_char_def is_digit_def)
  moreover have "length (filter is_digit s) \<le> 4300" using assms(2) by (rule le_trans [OF length_filter_le])
  ultimately show ?thesis
    using digit_groups_digit_chars [OF all, of False 0] by (simp add: int_of_text_def s)
qed

lemma show_nat_digits: "list_all is_digit (show_nat n)"
proof (induction n rule: show_nat.induct)
  case (1 n)
  have "is_digit (digit_char (n mod 10))" "n < 10 \<Longrightarrow> is_digit (digit_char n)"
    by (simp_all add: digit_char_def is_digit_def take_bit_eq_mod)
  with 1 show ?case by (cases "n < 10") (simp_all add: show_nat.simps [of n])
qed

lemma digit_groups_val:
  "list_all is_digit ds \<Longrightarrow> ds \<noteq> [] \<or> seen \<Longrightarrow> digit_groups seen acc ds = Some (digits_val acc ds)"
  by (induction ds arbitrary: seen acc) auto

lemma digits_val_snoc: "digits_val acc (ds @ [d]) = digits_val acc ds * 10 + digit_val d"
  by (induction ds arbitrary: acc) auto

lemma digits_val_show_nat: "digits_val 0 (show_nat n) = int n"
proof (induction n rule: show_nat.induct)
  case (1 n)
  have digit: "digit_val (digit_char m) = int m" if "m < 10" for m
    using that by (simp add: digit_val_def digit_char_def take_bit_eq_mod)
  show ?case
  proof (cases "n < 10")
    case True
    then show ?thesis by (simp add: show_nat.simps [of n] digit)
  next
    case False
    have "int (n div 10) * 10 + int (n mod 10) = int n" by presburger
    with 1 False show ?thesis by (simp add: show_nat.simps [of n] digits_val_snoc digit)
  qed
qed

lemma int_of_text_show_nat: "length (show_nat n) \<le> 4300 \<Longrightarrow> int_of_text (show_nat n) = Some (int n)"
proof -
  assume "length (show_nat n) \<le> 4300"
  then have len: "length (filter is_digit (show_nat n)) \<le> 4300" by (rule le_trans [OF length_filter_le])
  obtain c cs where s: "show_nat n = c # cs" by (cases "show_nat n") auto
  have "is_digit c" using show_nat_digits [of n] by (simp add: s)
  then have "c \<noteq> CHR ''-''" "c \<noteq> CHR ''+''" by (auto simp: is_digit_def)
  with len digit_groups_val [OF show_nat_digits [of n], of False 0] digits_val_show_nat [of n]
  show ?thesis by (simp add: int_of_text_def s)
qed

text \<open>
  A counted setting reads back what is written: any value of its range, in decimal and with blanks
  around it, is accepted as itself; whatever is accepted is in the range; and a failure is an error of
  the configuration, except that a short text of decimal and superscript digits makes \<^verbatim>\<open>int\<close> raise past it.
\<close>

theorem counted_setting_reads_back:
  assumes "lo \<le> dflt" and "dflt \<le> hi"
  shows "(\<forall>n v. lo \<le> n \<and> n \<le> hi \<and> 0 \<le> n \<and> n < 10 ^ MAX_COUNT_TEXT_LENGTH \<and> env name = Some v \<and> strip v = show_int n \<longrightarrow>
      bounded_count env name dflt lo hi = Inr n) \<and>
    (\<forall>n. bounded_count env name dflt lo hi = Inr n \<longrightarrow> lo \<le> n \<and> n \<le> hi) \<and>
    (bounded_count env name dflt lo hi = Inl Escaped_error \<longleftrightarrow>
       (let raw = getenv env name '''' in
        length raw \<le> MAX_COUNT_TEXT_LENGTH \<and> py_isdigit raw \<and> \<not> list_all is_digit raw))"
proof (intro conjI allI impI)
  fix n v assume n: "lo \<le> n \<and> n \<le> hi \<and> 0 \<le> n \<and> n < 10 ^ MAX_COUNT_TEXT_LENGTH \<and> env name = Some v \<and> strip v = show_int n"
  then have raw: "getenv env name '''' = show_nat (nat n)" by (simp add: getenv_def show_int_def)
  have "nat n < 10 ^ 12" using n by (auto simp: nat_less_iff MAX_COUNT_TEXT_LENGTH_def)
  then have len: "length (show_nat (nat n)) \<le> 12" by (rule show_nat_length) simp
  have "list_all is_digit_char (show_nat (nat n))"
    using show_nat_digits [of "nat n"] by (auto simp: list_all_iff is_digit_char_def)
  with n len int_of_text_show_nat [of "nat n"] show "bounded_count env name dflt lo hi = Inr n"
    by (simp add: bounded_count_def raw Let_def py_isdigit_def MAX_COUNT_TEXT_LENGTH_def)
next
  fix n assume "bounded_count env name dflt lo hi = Inr n"
  from bounded_count_from [OF this assms] show "lo \<le> n" "n \<le> hi" by simp_all
next
  have "int_of_text (getenv env name '''') = None \<longleftrightarrow> \<not> list_all is_digit (getenv env name '''')"
    if "length (getenv env name '''') \<le> MAX_COUNT_TEXT_LENGTH" "py_isdigit (getenv env name '''')"
    using int_of_text_digit_chars [OF that(2)] that(1) by (simp add: MAX_COUNT_TEXT_LENGTH_def)
  then show "bounded_count env name dflt lo hi = Inl Escaped_error \<longleftrightarrow>
       (let raw = getenv env name '''' in
        length raw \<le> MAX_COUNT_TEXT_LENGTH \<and> py_isdigit raw \<and> \<not> list_all is_digit raw)"
    by (auto simp: bounded_count_def Let_def py_isdigit_def split: option.splits)
qed

section \<open>An environment\<close>

definition demo_urlparse :: url_parser where
  "demo_urlparse s = Some \<lparr>url_scheme = ''redis'', url_netloc = ''localhost'', url_path = ''/0'', url_hostname = None, url_port = None\<rparr>"

definition demo_environment :: environment where
  "demo_environment = (\<lambda>_. None)(''WATCH_POLL_INTERVAL_SECONDS'' := Some '' 60 '', ''POSTGRES_POOL_MAX_SIZE'' := Some [CHR 0xB2])"

theorem accepted_settings_are_safe_witness:
  "\<exists>s. watch_settings_from_environment demo_urlparse (\<lambda>_. Some True) demo_environment = Inr s \<and> ws_poll_interval_seconds s = 60 \<and>
     service_settings_ok s (service_from_settings s True) \<and> deadlines_fit s None"
proof -
  have interval: "bounded_int demo_environment ''WATCH_POLL_INTERVAL_SECONDS'' 180 False = Inr 60" by code_simp
  have unset: "name \<noteq> ''WATCH_POLL_INTERVAL_SECONDS'' \<Longrightarrow> name \<noteq> ''POSTGRES_POOL_MAX_SIZE'' \<Longrightarrow>
      getenv demo_environment name x = strip x" for name x
    by (simp add: getenv_def demo_environment_def)
  have blank: "strip [] = []" by (simp add: strip_def)
  have jitter: "bounded_int demo_environment ''WATCH_POLL_JITTER_SECONDS'' 30 True = Inr 30"
    by (simp add: bounded_int_def unset blank)
  obtain s where s: "watch_settings_from_environment demo_urlparse (\<lambda>_. Some True) demo_environment = Inr s"
    "ws_poll_interval_seconds s = 60"
    unfolding watch_settings_from_environment_def
    by (simp add: Let_def cfg_then_def cfg_require_def require_zone_def parse_url_def demo_urlparse_def interval jitter unset blank
        bounded_count_def)
  with accepted_settings_are_safe [OF s(1), of True] show ?thesis by blast
qed

theorem counted_setting_reads_back_witness:
  "bounded_count demo_environment ''POSTGRES_POOL_MAX_SIZE'' 5 1 64 = Inl Escaped_error"
proof -
  have "length (getenv demo_environment ''POSTGRES_POOL_MAX_SIZE'' '''') \<le> MAX_COUNT_TEXT_LENGTH"
    "py_isdigit (getenv demo_environment ''POSTGRES_POOL_MAX_SIZE'' '''')"
    "\<not> list_all is_digit (getenv demo_environment ''POSTGRES_POOL_MAX_SIZE'' '''')" by code_simp+
  with counted_setting_reads_back [of 1 5 64 demo_environment "''POSTGRES_POOL_MAX_SIZE''"] show ?thesis
    by (simp add: Let_def)
qed

end
