(* ===== verification/Email_Notices.thy ===== *)
theory Email_Notices
  imports Config
begin

text \<open>
  Outbound email: the text of a notification and its transport, \<^verbatim>\<open>backend/integrations/email.py\<close>, and the
  account it goes to, \<^verbatim>\<open>backend/services/recipients.py\<close>. The en and em dashes of the texts stand as their
  UTF-8 bytes. An SMTP conversation is the list of the calls made on \<^verbatim>\<open>smtplib.SMTP\<close>; an argument says
  which of them raise.
\<close>

section \<open>compose\<close>

record composed_email =
  ce_subject :: string
  ce_body :: string

definition EN_DASH :: string where "EN_DASH = [CHR 0xE2, CHR 0x80, CHR 0x93]"
definition EM_DASH :: string where "EM_DASH = [CHR 0xE2, CHR 0x80, CHR 0x94]"
definition PARAGRAPH :: string where "PARAGRAPH = [CHR 0x0A, CHR 0x0A]"

text \<open>The slot the message is about.\<close>

definition announced_slot :: "watch \<Rightarrow> watch_event \<Rightarrow> availability_slot option" where
  "announced_slot w ev =
     (case (ev, w_booking w, found_slots w) of
        (Event_BOOKED, Some b, _) \<Rightarrow> Some (bk_slot b)
      | (Event_AVAILABILITY_FOUND, _, s # _) \<Rightarrow> Some s
      | _ \<Rightarrow> None)"

definition announced_date :: "watch \<Rightarrow> watch_event \<Rightarrow> string" where
  "announced_date w ev = (case announced_slot w ev of Some s \<Rightarrow> slot_date s | None \<Rightarrow> q_date (w_query w))"

definition announced_when :: "watch \<Rightarrow> watch_event \<Rightarrow> string" where
  "announced_when w ev =
     (let q = w_query w; d = announced_date w ev in
      case announced_slot w ev of
        Some s \<Rightarrow> d @ '' at '' @ slot_start_time s @
                  (case slot_end_time s of None \<Rightarrow> '''' | Some t \<Rightarrow> EN_DASH @ t)
      | None \<Rightarrow>
          (case q_time_window q of
             Some tw \<Rightarrow> d @ '' between '' @ tw_start tw @ '' and '' @ tw_end tw
           | None \<Rightarrow> (case q_preferred_time q of Some t \<Rightarrow> d @ '' at '' @ t | None \<Rightarrow> d)))"

definition is_simulated :: "booking_confirmation \<Rightarrow> bool" where
  "is_simulated b \<longleftrightarrow> bk_status b = MOCK_CONFIRMED \<or> bk_provider b = ''mock''"

text \<open>Subject and opening.\<close>

definition booked_copy :: "watch \<Rightarrow> string \<Rightarrow> string \<Rightarrow> string \<times> string" where
  "booked_copy w when_text party =
     (let venue = q_venue_name (w_query w); d = announced_date w Event_BOOKED in
      case w_booking w of
        None \<Rightarrow>
          (''Booking update: '' @ venue @ '' on '' @ d,
           ''A booking update has no confirmation. Check your dashboard before assuming a reservation is held.'')
      | Some b \<Rightarrow>
          if is_simulated b
          then (''Mock booking: '' @ venue @ '' on '' @ d,
                ''Dibs simulated a booking at '' @ venue @ '' for '' @ when_text @ '' ('' @ party @ '').'' @ PARAGRAPH @
                ''This is a simulation. No real table has been reserved.'' @ PARAGRAPH @
                ''Simulation reference: '' @ booking_id b)
          else (''Booked: '' @ venue @ '' on '' @ d,
                ''Dibs booked your table at '' @ venue @ '' for '' @ when_text @ '' ('' @ party @ '').'' @ PARAGRAPH @
                ''It grabbed the slot the moment it opened, so you should not need to do anything else.'' @ PARAGRAPH @
                ''Confirmation: '' @ booking_id b))"

definition found_copy :: "watch \<Rightarrow> string \<Rightarrow> string \<Rightarrow> string \<times> string" where
  "found_copy w when_text party =
     (let venue = q_venue_name (w_query w); d = announced_date w Event_AVAILABILITY_FOUND in
      if found_slots w \<noteq> [] \<and> list_all (\<lambda>s. slot_provider s = ''mock'') (found_slots w)
      then (''Mock availability: '' @ venue @ '' on '' @ d,
            ''Dibs found simulated availability at '' @ venue @ '' for '' @ when_text @ '' ('' @ party @ '').'' @ PARAGRAPH @
            ''This is a simulation. It does not indicate real table availability.'')
      else (''A table opened at '' @ venue @ '' '' @ EM_DASH @ '' '' @ d,
            ''Dibs found availability at '' @ venue @ '' for '' @ when_text @ '' ('' @ party @ '').'' @ PARAGRAPH @
            ''This watch was set to notify rather than book, so the table is not held. Move quickly.''))"

definition expired_copy :: "watch \<Rightarrow> string \<Rightarrow> string \<Rightarrow> string \<times> string" where
  "expired_copy w when_text party =
     (let venue = q_venue_name (w_query w) in
      (''Your '' @ venue @ '' watch has ended'',
       ''Dibs stopped watching '' @ venue @ '' for '' @ when_text @ '' ('' @ party @ '').'' @ PARAGRAPH @
       ''Nothing opened up before the watch reached its limit. You can start a new one any time.''))"

definition compose :: "watch \<Rightarrow> watch_event \<Rightarrow> string \<Rightarrow> composed_email" where
  "compose w ev base =
     (let when_text = announced_when w ev;
          party = ''party of '' @ show_int (q_party_size (w_query w));
          dashboard = base @ ''/watches'';
          (subject, opening) =
            (case ev of
               Event_BOOKED \<Rightarrow> booked_copy w when_text party
             | Event_AVAILABILITY_FOUND \<Rightarrow> found_copy w when_text party
             | Event_EXPIRED \<Rightarrow> expired_copy w when_text party)
      in \<lparr>ce_subject = subject,
          ce_body = opening @ PARAGRAPH @ ''See your watches: '' @ dashboard @ PARAGRAPH @ ''-- Dibs'' @ [CHR 0x0A]\<rparr>)"

section \<open>SmtplibSender\<close>

text \<open>
  A header of \<^verbatim>\<open>EmailMessage\<close> is refused with \<^verbatim>\<open>ValueError\<close> when \<^verbatim>\<open>str.splitlines\<close> finds a second line in
  it; \<open>one_line\<close> is that test for ASCII, a final line break excepted.
\<close>

definition is_line_break :: "char \<Rightarrow> bool" where
  "is_line_break c \<longleftrightarrow> (of_char c :: nat) \<in> {10, 11, 12, 13, 28, 29, 30}"

fun one_line :: "string \<Rightarrow> bool" where
  "one_line [] = True"
| "one_line (c # cs) = (if is_line_break c then cs = [] \<or> (c = CHR 0x0D \<and> cs = [CHR 0x0A]) else one_line cs)"

text \<open>
  \<^verbatim>\<open>send_message\<close> does not mail the header: it parses the To header into addresses and these are the
  envelope. That reading, \<^verbatim>\<open>email.utils.getaddresses\<close>, is the argument \<open>parse\<close>; \<open>Send_message\<close> carries the two
  headers and the envelope. Of \<open>parse\<close> the claims use only that an address which is a dot-atom on both
  sides of its \<^verbatim>\<open>@\<close> names itself (RFC 5322, addr-spec).
\<close>

datatype smtp_action =
  Connect string int int | Start_tls | Smtp_login string string
| Send_message (from_header: string) (to_header: string) (envelope: "string list") composed_email

fun dot_atom :: "bool \<Rightarrow> string \<Rightarrow> bool" where
  "dot_atom fresh [] = (\<not> fresh)"
| "dot_atom fresh (c # cs) =
     (if c = CHR ''.'' then \<not> fresh \<and> dot_atom True cs
      else (is_alnum c \<or> c \<in> {CHR ''_'', CHR ''-'', CHR ''+''}) \<and> dot_atom False cs)"

definition plain_address :: "string \<Rightarrow> bool" where
  "plain_address s \<longleftrightarrow>
     (let rest = dropWhile (\<lambda>c. c \<noteq> CHR ''@'') s
      in dot_atom True (takeWhile (\<lambda>c. c \<noteq> CHR ''@'') s) \<and> rest \<noteq> [] \<and> dot_atom True (tl rest))"

definition reads_plain_addresses :: "(string \<Rightarrow> string list) \<Rightarrow> bool" where
  "reads_plain_addresses parse \<longleftrightarrow> (\<forall>a. plain_address a \<longrightarrow> parse a = [a])"

record smtp_run =
  sr_attempted :: "smtp_action list"
  sr_raised :: bool

text \<open>Statements run in order until one raises.\<close>

fun smtp_perform :: "(smtp_action \<Rightarrow> bool) \<Rightarrow> smtp_action list \<Rightarrow> smtp_run" where
  "smtp_perform fails [] = \<lparr>sr_attempted = [], sr_raised = False\<rparr>"
| "smtp_perform fails (a # as) =
     (if fails a then \<lparr>sr_attempted = [a], sr_raised = True\<rparr>
      else (let r = smtp_perform fails as in r\<lparr>sr_attempted := a # sr_attempted r\<rparr>))"

text \<open>\<^verbatim>\<open>SmtplibSender.__init__\<close> accepts these settings only.\<close>

definition sender_accepts :: "email_settings \<Rightarrow> bool" where
  "sender_accepts cfg \<longleftrightarrow> email_enabled cfg \<and> em_sender cfg \<noteq> None"

definition text_of :: "string option \<Rightarrow> string" where
  "text_of x = (case x of None \<Rightarrow> '''' | Some s \<Rightarrow> s)"

definition smtp_script :: "(string \<Rightarrow> string list) \<Rightarrow> email_settings \<Rightarrow> string \<Rightarrow> composed_email \<Rightarrow> smtp_action list" where
  "smtp_script parse cfg recipient email =
     [Connect (text_of (em_host cfg)) (em_port cfg) (em_timeout_seconds cfg)] @
     (if em_starttls cfg then [Start_tls] else []) @
     (case (em_username cfg, em_password cfg) of (Some u, Some p) \<Rightarrow> [Smtp_login u p] | _ \<Rightarrow> []) @
     [Send_message (text_of (em_sender cfg)) recipient (parse recipient) email]"

definition send_blocking ::
  "(string \<Rightarrow> string list) \<Rightarrow> email_settings \<Rightarrow> (smtp_action \<Rightarrow> bool) \<Rightarrow> string \<Rightarrow> composed_email \<Rightarrow> smtp_run" where
  "send_blocking parse cfg fails recipient email =
     (if one_line (ce_subject email) \<and> one_line (text_of (em_sender cfg)) \<and> one_line recipient
      then smtp_perform fails (smtp_script parse cfg recipient email)
      else \<lparr>sr_attempted = [], sr_raised = True\<rparr>)"

section \<open>AccountRecipientResolver and EmailNotificationService\<close>

definition email_for_watch :: "auth_env \<Rightarrow> string \<Rightarrow> string option auth" where
  "email_for_watch e wid =
     auth_then (auth_read e (get_account_owner wid)) (\<lambda>owner.
     (case owner of
        None \<Rightarrow> auth_return None
      | Some uid \<Rightarrow> auth_then (auth_read e (get_by_id uid)) (\<lambda>u. auth_return (map_option usr_email u))))"

text \<open>\<^verbatim>\<open>EmailNotificationService.notify\<close>: the run of the transport, or nothing for a watch without a recipient.\<close>

definition email_notify ::
  "auth_env \<Rightarrow> (string \<Rightarrow> string list) \<Rightarrow> email_settings \<Rightarrow> (smtp_action \<Rightarrow> bool) \<Rightarrow> watch \<Rightarrow> watch_event \<Rightarrow> smtp_run option auth" where
  "email_notify e parse cfg fails w ev =
     auth_then (email_for_watch e (watch_id w)) (\<lambda>recipient.
     (case recipient of
        None \<Rightarrow> auth_return None
      | Some address \<Rightarrow>
          auth_return (Some (send_blocking parse cfg fails address (compose w ev (em_dashboard_base_url cfg))))))"

end
