(* ===== verification/Email_Properties.thy ===== *)
theory Email_Properties
  imports Email_Notices Mock_Properties Auth_Properties
begin

text \<open>
  Notifications by email: what their text discloses, and whom they reach over which conversation.
\<close>

section \<open>Simulated bookings\<close>

definition all_simulated :: "mock_store \<Rightarrow> bool" where
  "all_simulated m \<longleftrightarrow> (\<forall>k b. dict_get (ms_bookings m) k = Some b \<longrightarrow> is_simulated (mb_confirmation b))"

lemma all_simulated_cong: "ms_bookings m' = ms_bookings m \<Longrightarrow> all_simulated m' = all_simulated m"
  by (simp add: all_simulated_def)

lemma factory_simulates: "is_simulated (confirmation_factory uuid key now slot)"
  by (simp add: is_simulated_def confirmation_factory_def)

lemma mock_book_simulates:
  assumes "all_simulated m"
  shows "all_simulated (snd (mock_book k key (confirmation_factory uuid key now) now m))"
proof (cases rule: mock_book_cases [of now m key k "confirmation_factory uuid key now"])
  case (booked en)
  with assms show ?thesis by (auto simp: all_simulated_def factory_simulates split: if_splits)
qed (use assms in simp_all)

lemma mock_step_simulates:
  assumes "mock_step digest0 uuid now m m'" and "mock_adapter_ok uuid m" and "all_simulated m"
  shows "all_simulated m'"
  using assms(1)
proof cases
  case (mock_publish q un op)
  obtain slots m1 where p: "publish_and_filter (generate digest0 uuid un q) op now m = (slots, m1)" by fastforce
  have ok: "mock_ok m" and len: "\<And>s. length (uuid s) = 32" using assms(2) by (simp_all add: mock_adapter_ok_def)
  have "list_all slot_valid (generate digest0 uuid un q)" using mock_publish(2) len by (rule generated_valid)
  from publish_and_filter_ok(2) [OF mock_ok_slots [OF ok] this p] assms(3) all_simulated_cong [of m1 m]
  show ?thesis by (simp add: mock_publish(1) p same_bookings_def)
next
  case (mock_release op)
  have "same_bookings m (release_operation op m)" by simp
  with assms(3) all_simulated_cong [of m' m] show ?thesis by (simp add: mock_release same_bookings_def)
next
  case (mock_booking k key)
  then show ?thesis using mock_book_simulates [OF assms(3)] by simp
next
  case (mock_clean batch)
  with assms(2,3) show ?thesis
    by (auto simp: all_simulated_def mock_cleanup_def Let_def fold_dict_pop expire_pins_def mock_adapter_ok_def mock_ok_def
        split: if_splits)
qed

lemma mock_run_simulates:
  "mock_run digest0 uuid t m t' m' \<Longrightarrow> mock_adapter_ok uuid m \<Longrightarrow> slots_guarded t m \<Longrightarrow> all_simulated m \<Longrightarrow>
   all_simulated m'"
  by (induction rule: mock_run.induct) (auto dest: mock_run_ok mock_step_simulates)

section \<open>What a message says\<close>

lemmas copy_defs = compose_def booked_copy_def found_copy_def expired_copy_def

lemma booked_subject:
  "is_prefix ''Booked: '' (ce_subject (compose w ev base)) \<longleftrightarrow>
     ev = Event_BOOKED \<and> (\<exists>b. w_booking w = Some b \<and> \<not> is_simulated b)"
  by (cases ev) (auto simp: copy_defs Let_def split: option.split)

lemma simulated_body:
  assumes "w_booking w = Some b" and "is_simulated b"
  shows "is_prefix ''Mock booking: '' (ce_subject (compose w Event_BOOKED base)) \<and>
    contains ''This is a simulation. No real table has been reserved.'' (ce_body (compose w Event_BOOKED base))"
proof
  show "is_prefix ''Mock booking: '' (ce_subject (compose w Event_BOOKED base))"
    using assms by (simp add: copy_defs Let_def)
  show "contains ''This is a simulation. No real table has been reserved.'' (ce_body (compose w Event_BOOKED base))"
    unfolding contains_iff
  proof (intro exI)
    let ?party = "''party of '' @ show_int (q_party_size (w_query w))"
    show "ce_body (compose w Event_BOOKED base) =
      (''Dibs simulated a booking at '' @ q_venue_name (w_query w) @ '' for '' @ announced_when w Event_BOOKED @
         '' ('' @ ?party @ '').'' @ PARAGRAPH) @
      ''This is a simulation. No real table has been reserved.'' @
      (PARAGRAPH @ ''Simulation reference: '' @ booking_id b @
       PARAGRAPH @ ''See your watches: '' @ base @ ''/watches'' @ PARAGRAPH @ ''-- Dibs'' @ [CHR 0x0A])"
      using assms by (simp add: copy_defs Let_def)
  qed
qed

lemma simulated_slots_body:
  assumes "found_slots w \<noteq> []" and "\<And>s. s \<in> set (found_slots w) \<Longrightarrow> slot_provider s = ''mock''"
  shows "is_prefix ''Mock availability: '' (ce_subject (compose w Event_AVAILABILITY_FOUND base)) \<and>
    contains ''This is a simulation.'' (ce_body (compose w Event_AVAILABILITY_FOUND base))"
proof
  have all: "list_all (\<lambda>s. slot_provider s = ''mock'') (found_slots w)" using assms(2) by (simp add: list_all_iff)
  show "is_prefix ''Mock availability: '' (ce_subject (compose w Event_AVAILABILITY_FOUND base))"
    using assms(1) all by (simp add: copy_defs Let_def)
  show "contains ''This is a simulation.'' (ce_body (compose w Event_AVAILABILITY_FOUND base))"
    unfolding contains_iff
  proof (intro exI)
    let ?party = "''party of '' @ show_int (q_party_size (w_query w))"
    show "ce_body (compose w Event_AVAILABILITY_FOUND base) =
      (''Dibs found simulated availability at '' @ q_venue_name (w_query w) @ '' for '' @
         announced_when w Event_AVAILABILITY_FOUND @ '' ('' @ ?party @ '').'' @ PARAGRAPH) @
      ''This is a simulation.'' @
      ('' It does not indicate real table availability.'' @
       PARAGRAPH @ ''See your watches: '' @ base @ ''/watches'' @ PARAGRAPH @ ''-- Dibs'' @ [CHR 0x0A])"
      using assms(1) all by (simp add: copy_defs Let_def)
  qed
qed

text \<open>
  A simulation is never announced as a reservation: only the booking of a real provider has the
  subject of one; whatever the mock adapter holds after any history of its state, the message about it
  and the message about slots it found say that they are simulated.
\<close>

theorem simulations_are_disclosed:
  assumes "mock_run digest0 uuid t0 m0 now m" and "mock_adapter_ok uuid m0" and "slots_guarded t0 m0" and "ms_bookings m0 = []"
    and "live_booking t m key = Some b" and "w_booking w = Some b"
  shows "\<not> is_prefix ''Booked: '' (ce_subject (compose w ev base)) \<and>
    is_prefix ''Mock booking: '' (ce_subject (compose w Event_BOOKED base)) \<and>
    contains ''This is a simulation. No real table has been reserved.'' (ce_body (compose w Event_BOOKED base)) \<and>
    (\<forall>v. found_slots v \<noteq> [] \<and> (\<forall>s \<in> set (found_slots v). slot_provider s = ''mock'') \<longrightarrow>
       contains ''This is a simulation.'' (ce_body (compose v Event_AVAILABILITY_FOUND base))) \<and>
    (\<forall>v. is_prefix ''Booked: '' (ce_subject (compose v ev base)) \<longleftrightarrow>
       ev = Event_BOOKED \<and> (\<exists>c. w_booking v = Some c \<and> bk_status c \<noteq> MOCK_CONFIRMED \<and> bk_provider c \<noteq> ''mock''))"
proof -
  have "all_simulated m0" using assms(4) by (simp add: all_simulated_def)
  from mock_run_simulates [OF assms(1-3) this] assms(5) have sim: "is_simulated b"
    by (auto simp: all_simulated_def live_booking_Some)
  with simulated_body [OF assms(6) this] simulated_slots_body assms(6) show ?thesis
    by (auto simp: booked_subject is_simulated_def)
qed

definition demo_open_store :: mock_store where
  "demo_open_store = (empty_mock_store 10 60 3600 120)\<lparr>ms_slots :=
     [(''s1'', \<lparr>se_slot = bk_slot (mb_confirmation (snd (hd (ms_bookings demo_booked_store)))), last_touch = 0\<rparr>)]\<rparr>"

definition demo_sold_store :: mock_store where
  "demo_sold_store = snd (mock_book ''s1'' ''watch:w1'' (confirmation_factory demo_uuid ''watch:w1'' 5) 5 demo_open_store)"

lemma demo_open_store_ok:
  "mock_adapter_ok demo_uuid demo_open_store" "slots_guarded 0 demo_open_store" "ms_bookings demo_open_store = []"
proof -
  have "slot_valid (bk_slot (mb_confirmation (snd (hd (ms_bookings demo_booked_store)))))"
    "slot_id (bk_slot (mb_confirmation (snd (hd (ms_bookings demo_booked_store))))) = ''s1''" by code_simp+
  then show "mock_adapter_ok demo_uuid demo_open_store"
    using timedelta_seconds_of_int [of 3600]
    by (simp add: mock_adapter_ok_def mock_ok_def demo_uuid_def demo_open_store_def empty_mock_store_def)
  show "slots_guarded 0 demo_open_store" "ms_bookings demo_open_store = []"
    by (simp_all add: slots_guarded_def live_booking_def demo_open_store_def empty_mock_store_def)
qed

theorem simulations_are_disclosed_witness:
  "\<exists>b. live_booking 10 demo_sold_store ''watch:w1'' = Some b \<and>
     is_prefix ''Mock booking: '' (ce_subject (compose (demo_watch\<lparr>w_status := BOOKED, w_booking := Some b\<rparr>) Event_BOOKED ''''))"
proof -
  have run: "mock_run (\<lambda>s. 0) demo_uuid 0 demo_open_store 5 demo_sold_store"
    unfolding demo_sold_store_def by (rule mock_more [OF mock_idle _ mock_booking]) simp
  have "live_booking 10 demo_sold_store ''watch:w1'' \<noteq> None" by code_simp
  then obtain b where b: "live_booking 10 demo_sold_store ''watch:w1'' = Some b" by blast
  with simulations_are_disclosed [OF run demo_open_store_ok b, of "demo_watch\<lparr>w_status := BOOKED, w_booking := Some b\<rparr>"]
  show ?thesis by simp
qed

section \<open>Whom a message reaches\<close>

lemma smtp_perform_prefix: "\<exists>rest. acts = sr_attempted (smtp_perform fails acts) @ rest"
  by (induction acts) (auto simp: Let_def)

lemma smtp_perform_ran:
  "sr_attempted (smtp_perform fails acts) = xs @ a # ys \<Longrightarrow> b \<in> set xs \<Longrightarrow> \<not> fails b"
proof (induction acts arbitrary: xs)
  case (Cons c cs)
  then show ?case by (cases xs) (auto simp: Let_def split: if_splits)
qed simp

definition sends :: "smtp_action list \<Rightarrow> smtp_action list" where
  "sends acts = filter (\<lambda>a. case a of Send_message f t es m \<Rightarrow> True | _ \<Rightarrow> False) acts"

lemma sends_script [simp]:
  "sends (smtp_script parse cfg recipient email) = [Send_message (text_of (em_sender cfg)) recipient (parse recipient) email]"
  by (auto simp: sends_def smtp_script_def split: option.split)

lemma sends_append: "sends (xs @ ys) = sends xs @ sends ys"
  by (simp add: sends_def)

lemma attempted_sends:
  "sends (sr_attempted (send_blocking parse cfg fails recipient email)) \<in> {[], [Send_message (text_of (em_sender cfg)) recipient (parse recipient) email]}"
proof -
  obtain rest where "smtp_script parse cfg recipient email = sr_attempted (smtp_perform fails (smtp_script parse cfg recipient email)) @ rest"
    using smtp_perform_prefix by blast
  then have "sends (sr_attempted (smtp_perform fails (smtp_script parse cfg recipient email))) @ sends rest =
      [Send_message (text_of (em_sender cfg)) recipient (parse recipient) email]"
    by (metis sends_append sends_script)
  then show ?thesis by (auto simp: send_blocking_def append_eq_Cons_conv sends_def)
qed

text \<open>Credentials and the message wait for TLS where the settings ask for it.\<close>

lemma attempted_after_tls:
  assumes "em_starttls cfg" and "sr_attempted (send_blocking parse cfg fails recipient email) = xs @ a # ys"
    and "a \<noteq> Start_tls" and "\<And>h p t. a \<noteq> Connect h p t"
  shows "Start_tls \<in> set xs \<and> \<not> fails Start_tls"
proof -
  have run: "sr_attempted (smtp_perform fails (smtp_script parse cfg recipient email)) = xs @ a # ys"
    using assms(2) by (auto simp: send_blocking_def split: if_splits)
  obtain rest where "smtp_script parse cfg recipient email = (xs @ a # ys) @ rest"
    using smtp_perform_prefix [of "smtp_script parse cfg recipient email" fails] unfolding run by blast
  then have "Start_tls \<in> set xs"
    using assms(1,3,4) by (auto simp: smtp_script_def Cons_eq_append_conv)
  with smtp_perform_ran [OF run] show ?thesis by blast
qed

lemma smtp_perform_quiet: "\<not> sr_raised (smtp_perform fails acts) \<Longrightarrow> sr_attempted (smtp_perform fails acts) = acts"
  by (induction acts) (auto simp: Let_def split: if_splits)

lemma unraised_sends:
  "\<not> sr_raised (send_blocking parse cfg fails recipient email) \<Longrightarrow>
   sends (sr_attempted (send_blocking parse cfg fails recipient email)) = [Send_message (text_of (em_sender cfg)) recipient (parse recipient) email]"
  by (auto simp: send_blocking_def smtp_perform_quiet split: if_splits)

lemma auth_read_Inr: "auth_read e f s = (Inr x, s') \<longleftrightarrow>
    ae_calls e (au_awaits s) = Answered \<and> x = f (au_db (auth_pause e s)) \<and> s' = auth_pause e s"
  by (auto simp: auth_read_def auth_query_def Let_def split: call.splits)

lemma get_by_id_id: "get_by_id uid db = Some u \<Longrightarrow> usr_id u = uid"
  by (auto simp: get_by_id_def find_Some_iff to_public_def)

definition account_of :: "auth_env \<Rightarrow> string \<Rightarrow> auth_world \<Rightarrow> user option" where
  "account_of e wid s =
     (case get_account_owner wid (au_db (auth_pause e s)) of
        None \<Rightarrow> None
      | Some uid \<Rightarrow> get_by_id uid (au_db (auth_pause e (auth_pause e s))))"

lemma email_notify_Inr:
  assumes "email_notify e parse cfg fails w ev s = (Inr out, s')"
  shows "out = map_option (\<lambda>u. send_blocking parse cfg fails (usr_email u) (compose w ev (em_dashboard_base_url cfg)))
    (account_of e (watch_id w) s)"
  using assms
  by (auto simp: email_notify_def email_for_watch_def auth_then_def auth_return_def auth_read_Inr account_of_def
      split: prod.splits sum.splits option.splits)

text \<open>The documented reading of a header that names one mailbox, with or without a display name.\<close>

definition mailbox_reading :: "string \<Rightarrow> string list" where
  "mailbox_reading s =
     (case dropWhile (\<lambda>c. c \<noteq> CHR ''<'') s of [] \<Rightarrow> [s] | _ # r \<Rightarrow> [takeWhile (\<lambda>c. c \<noteq> CHR ''>'') r])"

lemma dot_atom_chars: "dot_atom fresh s \<Longrightarrow> CHR ''<'' \<notin> set s"
  by (induction s arbitrary: fresh) (auto simp: is_alnum_def is_digit_def split: if_splits)

lemma mailbox_reading_plain: "reads_plain_addresses mailbox_reading"
  unfolding reads_plain_addresses_def
proof (intro allI impI)
  fix a assume a: "plain_address a"
  let ?l = "takeWhile (\<lambda>c. c \<noteq> CHR ''@'') a" and ?r = "dropWhile (\<lambda>c. c \<noteq> CHR ''@'') a"
  have r: "?r = CHR ''@'' # tl ?r" using a hd_dropWhile [of "\<lambda>c. c \<noteq> CHR ''@''" a]
    by (cases ?r) (auto simp: plain_address_def Let_def)
  have "CHR ''<'' \<notin> set ?l" "CHR ''<'' \<notin> set (tl ?r)"
    using a dot_atom_chars by (auto simp: plain_address_def Let_def)
  moreover have "set ?r = insert (CHR ''@'') (set (tl ?r))" by (subst r) simp
  ultimately have "CHR ''<'' \<notin> set ?l \<union> set ?r" by simp
  then have "CHR ''<'' \<notin> set a" by (metis set_append takeWhile_dropWhile_id)
  then have "dropWhile (\<lambda>c. c \<noteq> CHR ''<'') a = []" unfolding dropWhile_eq_Nil_conv by metis
  then show "mailbox_reading a = [a]" unfolding mailbox_reading_def by (simp only: list.case)
qed

text \<open>
  The shape test of a signup lets addresses through that the header reads as another mailbox.
\<close>

lemma display_address_strays:
  "email_shape ''a<victim@bank.com>''"
  "mailbox_reading ''a<victim@bank.com>'' = [''victim@bank.com'']"
  by (simp_all add: email_shape_def mailbox_reading_def is_blank_def)


definition demo_mailer :: email_settings where
  "demo_mailer = \<lparr>em_host = Some ''mx'', em_port = 587, em_username = Some ''dibs'', em_password = Some ''pw'',
     em_sender = Some ''dibs@mail.ca'', em_starttls = True, em_timeout_seconds = 10, em_dashboard_base_url = ''http://d''\<rparr>"

definition demo_owned :: auth_world where
  "demo_owned = (snd demo_signup)\<lparr>au_db := project_call (demo_outcome 0 None (Some ''u1'')) (au_db (snd demo_signup))\<rparr>"


end
