(* ===== verification/Redis_Mock.thy ===== *)
theory Redis_Mock
  imports Mock_Properties Redis_Store
begin

text \<open>
  \<^verbatim>\<open>RedisMockBookingStateRepository\<close> of \<^verbatim>\<open>backend/db/repositories/mock_booking.py\<close> and the Lua scripts of
  \<^verbatim>\<open>mock_booking_scripts.py\<close>, each script an atomic function of the keys.

  \<^item> A JSON value is modelled by the object it encodes. A booking key can also hold the empty string,
    which the repository passes as the confirmation of a slot it did not find.
  \<^item> A tombstone \<^verbatim>\<open>key|milliseconds\<close> is the pair it encodes: no idempotency key of the program has a bar.
  \<^item> The sets \<^verbatim>\<open>pinop:<operation>\<close> are one list of pairs of operation and slot.
  \<^item> Native expiry of booking, tombstone and \<^verbatim>\<open>pinop\<close> keys is a step of the environment.
\<close>

section \<open>The keys\<close>

datatype booking_doc = Booking_json booking_confirmation | Empty_text

record redis_mock =
  rm_slots :: "(string, availability_slot) pydict"
  rm_all :: "(string, ms) pydict"
  rm_lru :: "(string, ms) pydict"
  rm_pin :: "(string, ms) pydict"
  rm_pinowner :: "(string, string) pydict"
  rm_pinop :: "(string \<times> string) list"
  rm_bookings :: "(string, booking_doc) pydict"
  rm_bookexp :: "(string, ms) pydict"
  rm_booked :: "(string, string \<times> ms) pydict"
  rm_tombexp :: "(string, ms) pydict"

definition empty_redis_mock :: redis_mock where
  "empty_redis_mock = \<lparr>rm_slots = [], rm_all = [], rm_lru = [], rm_pin = [], rm_pinowner = [], rm_pinop = [],
     rm_bookings = [], rm_bookexp = [], rm_booked = [], rm_tombexp = []\<rparr>"

section \<open>Pins\<close>

text \<open>\<^verbatim>\<open>ZRANGE key 0 0\<close>: the member of the lowest score, ties by member.\<close>

definition zfirst :: "(string, ms) pydict \<Rightarrow> string option" where
  "zfirst z = (case sort_key (\<lambda>(k, score). (score, k)) z of [] \<Rightarrow> None | x # _ \<Rightarrow> Some (fst x))"

text \<open>A slot that is no longer pinned goes back to the eviction index, with the score it has in \<^verbatim>\<open>all\<close>.\<close>

definition make_evictable :: "string \<Rightarrow> redis_mock \<Rightarrow> redis_mock" where
  "make_evictable sid db =
     (case (dict_get (rm_slots db) sid, dict_get (rm_all db) sid) of
        (Some _, Some score) \<Rightarrow> db\<lparr>rm_lru := dict_set sid score (rm_lru db)\<rparr>
      | _ \<Rightarrow> db)"

definition drop_owner :: "string \<Rightarrow> redis_mock \<Rightarrow> redis_mock" where
  "drop_owner sid db =
     (case dict_get (rm_pinowner db) sid of
        None \<Rightarrow> db
      | Some owner \<Rightarrow> db\<lparr>rm_pinop := removeAll (owner, sid) (rm_pinop db), rm_pinowner := dict_pop sid (rm_pinowner db)\<rparr>)"

definition unpin :: "string \<Rightarrow> redis_mock \<Rightarrow> redis_mock" where
  "unpin sid db = make_evictable sid (drop_owner sid (db\<lparr>rm_pin := dict_pop sid (rm_pin db)\<rparr>))"

definition reconcile_pins :: "ms \<Rightarrow> redis_mock \<Rightarrow> redis_mock" where
  "reconcile_pins now db = fold unpin (zrange_to now (rm_pin db)) db"

definition pin_slot :: "string \<Rightarrow> ms \<Rightarrow> string \<Rightarrow> redis_mock \<Rightarrow> redis_mock" where
  "pin_slot op until sid db =
     db\<lparr>rm_lru := dict_pop sid (rm_lru db),
        rm_pinowner := dict_set sid op (rm_pinowner db),
        rm_pinop := List.insert (op, sid)
          (case dict_get (rm_pinowner db) sid of
             None \<Rightarrow> rm_pinop db
           | Some owner \<Rightarrow> if owner = op then rm_pinop db else removeAll (owner, sid) (rm_pinop db)),
        rm_pin := dict_set sid until (rm_pin db)\<rparr>"

section \<open>PUBLISH_AND_FILTER\<close>

definition evict :: "string \<Rightarrow> redis_mock \<Rightarrow> redis_mock" where
  "evict victim db = db\<lparr>rm_lru := dict_pop victim (rm_lru db), rm_all := dict_pop victim (rm_all db),
     rm_slots := dict_pop victim (rm_slots db)\<rparr>"

text \<open>Room for one more slot: below capacity, or after evicting the oldest unpinned one.\<close>

definition make_room :: "int \<Rightarrow> redis_mock \<Rightarrow> bool \<times> redis_mock" where
  "make_room capacity db =
     (if int (length (rm_all db)) < capacity then (True, db)
      else (case zfirst (rm_lru db) of None \<Rightarrow> (False, db) | Some victim \<Rightarrow> (True, evict victim db)))"

definition publish_candidate ::
  "string \<Rightarrow> ms \<Rightarrow> ms \<Rightarrow> int \<Rightarrow> availability_slot \<Rightarrow> availability_slot list \<times> redis_mock \<Rightarrow>
   availability_slot list \<times> redis_mock" where
  "publish_candidate op now pin_ttl capacity slot st =
     (let (result, db) = st; sid = slot_id slot; pin = pin_slot op (now + pin_ttl) sid in
      if (case dict_get (rm_booked db) sid of None \<Rightarrow> False | Some (_, protected) \<Rightarrow> now < protected) then st
      else
        (case dict_get (rm_slots db) sid of
           Some stored \<Rightarrow> (result @ [stored], pin (db\<lparr>rm_all := dict_set sid now (rm_all db)\<rparr>))
         | None \<Rightarrow>
             (let (admit, db1) = make_room capacity db in
              if \<not> admit then (result, db1)
              else (result @ [slot],
                    pin (db1\<lparr>rm_slots := dict_set sid slot (rm_slots db1), rm_all := dict_set sid now (rm_all db1)\<rparr>)))))"

definition publish_script ::
  "string \<Rightarrow> ms \<Rightarrow> ms \<Rightarrow> int \<Rightarrow> availability_slot list \<Rightarrow> redis_mock \<Rightarrow> availability_slot list \<times> redis_mock" where
  "publish_script op now pin_ttl capacity candidates db =
     fold (publish_candidate op now pin_ttl capacity) candidates ([], reconcile_pins now db)"

section \<open>BOOK_SLOT\<close>

datatype book_reply = Reply_booked booking_doc | Reply_existing booking_doc | Reply_unavailable | Reply_not_found

definition book_script ::
  "string \<Rightarrow> string \<Rightarrow> booking_doc \<Rightarrow> ms \<Rightarrow> ms \<Rightarrow> redis_mock \<Rightarrow> book_reply \<times> redis_mock" where
  "book_script sid key conf protected now db =
     (let decide =
        (if (case dict_get (rm_booked db) sid of None \<Rightarrow> False | Some (tkey, until) \<Rightarrow> now < until \<and> tkey \<noteq> key)
         then (Reply_unavailable, db)
         else if dict_get (rm_slots db) sid = None then (Reply_not_found, db)
         else
           (Reply_booked conf,
            drop_owner sid
              (db\<lparr>rm_bookings := dict_set key conf (rm_bookings db),
                 rm_bookexp := dict_set key protected (rm_bookexp db),
                 rm_booked := dict_set sid (key, protected) (rm_booked db),
                 rm_tombexp := dict_set sid protected (rm_tombexp db),
                 rm_slots := dict_pop sid (rm_slots db),
                 rm_all := dict_pop sid (rm_all db),
                 rm_lru := dict_pop sid (rm_lru db),
                 rm_pin := dict_pop sid (rm_pin db)\<rparr>)))
      in case (dict_get (rm_bookings db) key, dict_get (rm_bookexp db) key) of
           (Some doc, Some until) \<Rightarrow> if now < until then (Reply_existing doc, db) else decide
         | _ \<Rightarrow> decide)"

section \<open>RELEASE_OPERATION and CLEANUP\<close>

definition release_one :: "string \<Rightarrow> string \<Rightarrow> redis_mock \<Rightarrow> redis_mock" where
  "release_one op sid db =
     (if dict_get (rm_pinowner db) sid = Some op
      then make_evictable sid
             (db\<lparr>rm_pin := dict_pop sid (rm_pin db), rm_pinowner := dict_pop sid (rm_pinowner db)\<rparr>)
      else db)"

definition pinop_members :: "string \<Rightarrow> redis_mock \<Rightarrow> string list" where
  "pinop_members op db = map snd (filter (\<lambda>x. fst x = op) (rm_pinop db))"

definition forget_pinop :: "string \<Rightarrow> redis_mock \<Rightarrow> redis_mock" where
  "forget_pinop op db = db\<lparr>rm_pinop := filter (\<lambda>x. fst x \<noteq> op) (rm_pinop db)\<rparr>"

definition mock_release_script :: "string \<Rightarrow> redis_mock \<Rightarrow> redis_mock" where
  "mock_release_script op db = forget_pinop op (fold (release_one op) (pinop_members op db) db)"

definition forget_booking :: "string \<Rightarrow> redis_mock \<Rightarrow> redis_mock" where
  "forget_booking key db = db\<lparr>rm_bookings := dict_pop key (rm_bookings db), rm_bookexp := dict_pop key (rm_bookexp db)\<rparr>"

definition forget_tombstone :: "string \<Rightarrow> redis_mock \<Rightarrow> redis_mock" where
  "forget_tombstone sid db = db\<lparr>rm_booked := dict_pop sid (rm_booked db), rm_tombexp := dict_pop sid (rm_tombexp db)\<rparr>"

definition mock_cleanup_script :: "ms \<Rightarrow> ms \<Rightarrow> int \<Rightarrow> redis_mock \<Rightarrow> cleanup_counts \<times> redis_mock" where
  "mock_cleanup_script now idle_cutoff batch db0 =
     (let db = reconcile_pins now db0;
          idle = limit_to batch (zrange_to idle_cutoff (rm_lru db));
          db1 = fold evict idle db;
          ekeys = limit_to batch (zrange_to now (rm_bookexp db1));
          db2 = fold forget_booking ekeys db1;
          etombs = limit_to batch (zrange_to now (rm_tombexp db2))
      in (\<lparr>idle_slots = int (length idle), expired_records = int (length ekeys)\<rparr>, fold forget_tombstone etombs db2))"

section \<open>The repository\<close>

record redis_mock_config =
  rc_capacity :: int
  rc_idle_ttl_ms :: ms
  rc_retention_ms :: ms
  rc_pin_ms :: ms

definition make_redis_mock :: "int \<Rightarrow> seconds \<Rightarrow> seconds \<Rightarrow> seconds \<Rightarrow> redis_mock_config" where
  "make_redis_mock capacity idle_ttl retention_s pin_s =
     \<lparr>rc_capacity = capacity, rc_idle_ttl_ms = seconds_to_ms idle_ttl, rc_retention_ms = seconds_to_ms retention_s,
      rc_pin_ms = seconds_to_ms pin_s\<rparr>"

definition redis_publish ::
  "redis_mock_config \<Rightarrow> availability_slot list \<Rightarrow> string \<Rightarrow> time \<Rightarrow> redis_mock \<Rightarrow> availability_slot list \<times> redis_mock" where
  "redis_publish cfg candidates op now = publish_script op (to_ms now) (rc_pin_ms cfg) (rc_capacity cfg) candidates"

definition redis_release_operation :: "string \<Rightarrow> redis_mock \<Rightarrow> redis_mock" where
  "redis_release_operation op = mock_release_script op"

definition redis_cleanup :: "redis_mock_config \<Rightarrow> time \<Rightarrow> int \<Rightarrow> redis_mock \<Rightarrow> cleanup_counts \<times> redis_mock" where
  "redis_cleanup cfg now = mock_cleanup_script (to_ms now) (to_ms now - rc_idle_ttl_ms cfg)"

text \<open>What a call raises: an error of the adapter, or \<^verbatim>\<open>ValidationError\<close> from decoding the empty string.\<close>

datatype mock_failure = Adapter_failure adapter_error | Invalid_document

definition decode_booking :: "booking_doc \<Rightarrow> mock_failure + booking_confirmation" where
  "decode_booking doc = (case doc of Booking_json b \<Rightarrow> Inr b | Empty_text \<Rightarrow> Inl Invalid_document)"

text \<open>\<^verbatim>\<open>get_booking\<close> reads twice; \<open>view i\<close> is the store at its i-th read.\<close>

definition redis_booking :: "string \<Rightarrow> time \<Rightarrow> (nat \<Rightarrow> redis_mock) \<Rightarrow> mock_failure + booking_confirmation option" where
  "redis_booking key now view =
     (case dict_get (rm_bookings (view 0)) key of
        None \<Rightarrow> Inr None
      | Some doc \<Rightarrow>
          (case dict_get (rm_bookexp (view 1)) key of
             None \<Rightarrow> Inr None
           | Some score \<Rightarrow>
               if score \<le> to_ms now then Inr None
               else (case decode_booking doc of Inl err \<Rightarrow> Inl err | Inr b \<Rightarrow> Inr (Some b))))"

definition redis_reconcile_booking ::
  "string \<Rightarrow> time \<Rightarrow> (nat \<Rightarrow> redis_mock) \<Rightarrow> mock_failure + reconciliation_result" where
  "redis_reconcile_booking key now view =
     (case redis_booking key now view of
        Inl err \<Rightarrow> Inl err
      | Inr (Some b) \<Rightarrow> Inr \<lparr>rec_status = Recon_CONFIRMED, rec_confirmation = Some b\<rparr>
      | Inr None \<Rightarrow> Inr \<lparr>rec_status = Recon_DEFINITIVELY_ABSENT, rec_confirmation = None\<rparr>)"

text \<open>\<^verbatim>\<open>book_slot\<close>: a read of the slot, then the script; \<open>others\<close> is what happens to the store in between.\<close>

definition redis_book_slot ::
  "redis_mock_config \<Rightarrow> (redis_mock \<Rightarrow> redis_mock) \<Rightarrow> string \<Rightarrow> string \<Rightarrow> (availability_slot \<Rightarrow> booking_confirmation) \<Rightarrow>
   time \<Rightarrow> redis_mock \<Rightarrow> (mock_failure + booking_confirmation) \<times> redis_mock" where
  "redis_book_slot cfg others sid key factory now db =
     (let conf = (case dict_get (rm_slots db) sid of None \<Rightarrow> Empty_text | Some s \<Rightarrow> Booking_json (factory s));
          (reply, db1) = book_script sid key conf (to_ms now + rc_retention_ms cfg) (to_ms now) (others db)
      in ((case reply of
             Reply_booked doc \<Rightarrow> decode_booking doc
           | Reply_existing doc \<Rightarrow> decode_booking doc
           | Reply_unavailable \<Rightarrow> Inl (Adapter_failure (Slot_Unavailable (''Mock slot is already booked: '' @ sid)))
           | Reply_not_found \<Rightarrow> Inl (Adapter_failure (Slot_Not_Found (''Unknown mock slot: '' @ sid)))), db1))"

end
