(* ===== verification/Redis_Mock_Properties.thy ===== *)
theory Redis_Mock_Properties
  imports Redis_Mock
begin

text \<open>
  The Redis mock state under any interleaving of scripts and native expiry: its indexes stay exact and
  bounded, and no slot is sold twice. A confirmation the repository read no slot for is stored as an
  empty string, which later reads cannot decode.
\<close>

section \<open>Sorted sets\<close>

lemma in_zrange: "dict_ok z \<Longrightarrow> k \<in> set (zrange_to cutoff z) \<longleftrightarrow> (\<exists>s. dict_get z k = Some s \<and> s \<le> cutoff)"
proof -
  assume ok: "dict_ok z"
  have "set (zrange_to cutoff z) = fst ` {x \<in> set z. snd x \<le> cutoff}"
    unfolding zrange_to_def by (simp add: case_prod_beta)
  then have "k \<in> set (zrange_to cutoff z) \<longleftrightarrow> (\<exists>s. (k, s) \<in> set z \<and> s \<le> cutoff)" by force
  then show ?thesis unfolding dict_get_in_set [OF ok] .
qed

lemma set_limit_to: "set (limit_to n xs) \<subseteq> set xs"
  by (auto simp: limit_to_def dest: in_set_takeD)

lemma in_limit_to: "x \<in> set (limit_to n xs) \<Longrightarrow> x \<in> set xs"
  by (rule subsetD [OF set_limit_to])

lemma zfirst_member: "zfirst z = Some k \<Longrightarrow> dict_get z k \<noteq> None"
proof -
  assume "zfirst z = Some k"
  then obtain s rest where "sort_key (\<lambda>(k, score). (score, k)) z = (k, s) # rest"
    by (auto simp: zfirst_def split: list.splits)
  then have "(k, s) \<in> set z" by (metis list.set_intros(1) set_sort)
  then show "dict_get z k \<noteq> None" by (metis map_of_eq_None_iff fst_conv imageI)
qed

lemma zfirst_None: "zfirst z = None \<longleftrightarrow> z = []"
  unfolding zfirst_def by (auto split: list.splits) (metis length_0_conv length_sort)

section \<open>The invariant\<close>

text \<open>
  The capacity count and the slots agree, a pin has its owner, and the eviction index holds exactly the
  slots that are not pinned, at the scores of the count. Every tombstone has its entry in the cleanup index.
\<close>

definition mock_cell_ok :: "availability_slot option \<Rightarrow> ms option \<Rightarrow> ms option \<Rightarrow> string option \<Rightarrow> ms option \<Rightarrow> bool" where
  "mock_cell_ok slot count pin owner lru \<longleftrightarrow> (slot = None) = (count = None) \<and> (pin = None) = (owner = None) \<and>
     (pin \<noteq> None \<longrightarrow> count \<noteq> None) \<and> lru = (if pin = None then count else None)"

definition mock_cell :: "redis_mock \<Rightarrow> string \<Rightarrow> bool" where
  "mock_cell db k = mock_cell_ok (dict_get (rm_slots db) k) (dict_get (rm_all db) k) (dict_get (rm_pin db) k)
     (dict_get (rm_pinowner db) k) (dict_get (rm_lru db) k)"

definition mock_index_ok :: "redis_mock \<Rightarrow> bool" where
  "mock_index_ok db \<longleftrightarrow> dict_ok (rm_all db) \<and> dict_ok (rm_lru db) \<and> dict_ok (rm_pin db) \<and> (\<forall>k. mock_cell db k)"

definition records_ok :: "redis_mock \<Rightarrow> bool" where
  "records_ok db \<longleftrightarrow> dict_ok (rm_bookexp db) \<and> dict_ok (rm_tombexp db) \<and>
     (\<forall>sid key until. dict_get (rm_booked db) sid = Some (key, until) \<longrightarrow> dict_get (rm_tombexp db) sid = Some until)"

text \<open>What scripts that only move slots between the indexes leave alone.\<close>

definition same_records :: "redis_mock \<Rightarrow> redis_mock \<Rightarrow> bool" where
  "same_records db db' \<longleftrightarrow> rm_bookings db' = rm_bookings db \<and> rm_bookexp db' = rm_bookexp db \<and>
     rm_booked db' = rm_booked db \<and> rm_tombexp db' = rm_tombexp db"

lemma same_records_refl [simp]: "same_records db db"
  by (simp add: same_records_def)

lemma same_records_trans: "same_records a b \<Longrightarrow> same_records b c \<Longrightarrow> same_records a c"
  by (simp add: same_records_def)

lemma same_records_frame [simp]:
  "same_records db0 (db\<lparr>rm_slots := x\<rparr>) = same_records db0 db" "same_records db0 (db\<lparr>rm_all := y\<rparr>) = same_records db0 db"
  by (simp_all add: same_records_def)

lemma mock_index_ok_empty: "mock_index_ok empty_redis_mock" "records_ok empty_redis_mock"
  by (simp_all add: mock_index_ok_def mock_cell_def mock_cell_ok_def records_ok_def empty_redis_mock_def)

section \<open>Pins\<close>

lemma drop_owner_frame [simp]:
  "rm_slots (drop_owner sid db) = rm_slots db" "rm_all (drop_owner sid db) = rm_all db"
  "rm_lru (drop_owner sid db) = rm_lru db" "rm_pin (drop_owner sid db) = rm_pin db"
  "same_records db' (drop_owner sid db) = same_records db' db"
  "dict_get (rm_pinowner (drop_owner sid db)) = (dict_get (rm_pinowner db))(sid := None)"
  by (auto simp: drop_owner_def same_records_def split: option.split)

lemma drop_owner_records [simp]:
  "rm_bookings (drop_owner sid db) = rm_bookings db" "rm_bookexp (drop_owner sid db) = rm_bookexp db"
  "rm_booked (drop_owner sid db) = rm_booked db" "rm_tombexp (drop_owner sid db) = rm_tombexp db"
  by (simp_all add: drop_owner_def split: option.split)

lemma make_evictable_frame [simp]:
  "rm_slots (make_evictable sid db) = rm_slots db" "rm_all (make_evictable sid db) = rm_all db"
  "rm_pin (make_evictable sid db) = rm_pin db" "rm_pinowner (make_evictable sid db) = rm_pinowner db"
  "rm_pinop (make_evictable sid db) = rm_pinop db" "same_records db' (make_evictable sid db) = same_records db' db"
  "dict_ok (rm_lru db) \<Longrightarrow> dict_ok (rm_lru (make_evictable sid db))"
  by (auto simp: make_evictable_def same_records_def split: option.split)

lemma make_evictable_lru:
  "dict_get (rm_lru (make_evictable sid db)) k =
     (if k = sid \<and> dict_get (rm_slots db) sid \<noteq> None \<and> dict_get (rm_all db) sid \<noteq> None then dict_get (rm_all db) sid
      else dict_get (rm_lru db) k)"
  by (auto simp: make_evictable_def split: option.split)

lemma unpin_frame [simp]:
  "rm_slots (unpin sid db) = rm_slots db" "rm_all (unpin sid db) = rm_all db"
  "rm_pin (unpin sid db) = dict_pop sid (rm_pin db)"
  "dict_get (rm_pinowner (unpin sid db)) = (dict_get (rm_pinowner db))(sid := None)"
  "same_records db' (unpin sid db) = same_records db' db"
  by (simp_all add: unpin_def) (simp add: same_records_def)

lemma mock_index_ok_unpin:
  assumes "mock_index_ok db"
  shows "mock_index_ok (unpin sid db)"
proof -
  have "mock_cell (unpin sid db) k" for k
  proof -
    have "mock_cell db k" using assms by (simp add: mock_index_ok_def)
    then show ?thesis
      by (cases "k = sid") (auto simp: mock_cell_def unpin_def make_evictable_lru mock_cell_ok_def split: if_splits)
  qed
  with assms show ?thesis by (simp add: mock_index_ok_def unpin_def)
qed

lemma fold_unpin:
  assumes "mock_index_ok db"
  shows "mock_index_ok (fold unpin sids db)" and "rm_slots (fold unpin sids db) = rm_slots db"
    and "rm_all (fold unpin sids db) = rm_all db" and "rm_pin (fold unpin sids db) = fold dict_pop sids (rm_pin db)"
    and "dict_get (rm_pinowner (fold unpin sids db)) k = (if k \<in> set sids then None else dict_get (rm_pinowner db) k)"
    and "same_records db' (fold unpin sids db) = same_records db' db"
  using assms by (induction sids arbitrary: db) (auto simp: mock_index_ok_unpin)

lemma reconcile_pins_effect:
  assumes "mock_index_ok db"
  shows "mock_index_ok (reconcile_pins now db)" and "rm_slots (reconcile_pins now db) = rm_slots db"
    and "rm_all (reconcile_pins now db) = rm_all db" and "same_records db' (reconcile_pins now db) = same_records db' db"
  using fold_unpin [OF assms] by (simp_all add: reconcile_pins_def)

section \<open>Publishing\<close>

lemma mock_index_ok_pin_slot:
  assumes "mock_index_ok db" and "dict_get (rm_all db) sid \<noteq> None"
  shows "mock_index_ok (pin_slot op until sid db)"
proof -
  have "mock_cell (pin_slot op until sid db) k" for k
  proof -
    have "mock_cell db k" using assms(1) by (simp add: mock_index_ok_def)
    with assms(2) show ?thesis by (cases "k = sid") (auto simp: mock_cell_def pin_slot_def mock_cell_ok_def)
  qed
  with assms(1) show ?thesis by (simp add: mock_index_ok_def pin_slot_def)
qed

lemma pin_slot_frame [simp]:
  "rm_slots (pin_slot op until sid db) = rm_slots db" "rm_all (pin_slot op until sid db) = rm_all db"
  "same_records db' (pin_slot op until sid db) = same_records db' db"
  by (simp_all add: pin_slot_def) (simp add: same_records_def)

lemma mock_index_ok_evict:
  assumes "mock_index_ok db" and "dict_get (rm_pin db) sid = None"
  shows "mock_index_ok (evict sid db)"
proof -
  have "mock_cell (evict sid db) k" for k
  proof -
    have "mock_cell db k" "mock_cell db sid" using assms(1) by (simp_all add: mock_index_ok_def)
    with assms(2) show ?thesis by (cases "k = sid") (auto simp: mock_cell_def evict_def mock_cell_ok_def)
  qed
  with assms(1) show ?thesis by (simp add: mock_index_ok_def evict_def)
qed

lemma cell_facts:
  "mock_cell_ok sl al pn ow lr \<Longrightarrow> (sl = None) = (al = None) \<and> (pn = None) = (ow = None) \<and>
     (lr \<noteq> None \<longrightarrow> pn = None \<and> al \<noteq> None) \<and> (pn = None \<longrightarrow> lr = al) \<and> (pn \<noteq> None \<longrightarrow> al \<noteq> None \<and> lr = None)"
  by (auto simp: mock_cell_ok_def split: if_splits)

lemma index_facts:
  "mock_index_ok db \<Longrightarrow> (dict_get (rm_slots db) k = None) = (dict_get (rm_all db) k = None) \<and>
     (dict_get (rm_pin db) k = None) = (dict_get (rm_pinowner db) k = None) \<and>
     (dict_get (rm_lru db) k \<noteq> None \<longrightarrow> dict_get (rm_pin db) k = None \<and> dict_get (rm_all db) k \<noteq> None) \<and>
     (dict_get (rm_pin db) k = None \<longrightarrow> dict_get (rm_lru db) k = dict_get (rm_all db) k) \<and>
     (dict_get (rm_pin db) k \<noteq> None \<longrightarrow> dict_get (rm_all db) k \<noteq> None \<and> dict_get (rm_lru db) k = None)"
  by (rule cell_facts) (simp add: mock_index_ok_def mock_cell_def)

lemma index_counted: "mock_index_ok db \<Longrightarrow> (dict_get (rm_slots db) k = None) = (dict_get (rm_all db) k = None)"
  by (rule index_facts [THEN conjunct1])

lemma cell_evictable: "mock_cell_ok sl al pn ow lr \<Longrightarrow> (lr \<noteq> None) = (sl \<noteq> None \<and> pn = None)"
  by (auto simp: mock_cell_ok_def split: if_splits)

lemma index_evictable:
  "mock_index_ok db \<Longrightarrow> (dict_get (rm_lru db) k \<noteq> None) = (dict_get (rm_slots db) k \<noteq> None \<and> dict_get (rm_pin db) k = None)"
  by (rule cell_evictable [where al = "dict_get (rm_all db) k" and ow = "dict_get (rm_pinowner db) k"])
    (simp add: mock_index_ok_def mock_cell_def)

lemma lru_unpinned:
  assumes "mock_index_ok db" and "dict_get (rm_lru db) k \<noteq> None"
  shows "dict_get (rm_pin db) k = None \<and> dict_get (rm_all db) k \<noteq> None"
  by (rule mp [OF index_facts [OF assms(1), THEN conjunct2, THEN conjunct2, THEN conjunct1] assms(2)])

lemma evict_frame [simp]:
  "same_records db' (evict sid db) = same_records db' db" "rm_pin (evict sid db) = rm_pin db"
  "rm_pinowner (evict sid db) = rm_pinowner db"
  by (simp_all add: evict_def same_records_def)

lemma evict_length: "dict_get (rm_all db) sid \<noteq> None \<Longrightarrow> length (rm_all (evict sid db)) < length (rm_all db)"
  by (simp add: evict_def dict_pop_length)

text \<open>The count never exceeds the capacity.\<close>

lemma make_room_effect:
  assumes "mock_index_ok db" and "int (length (rm_all db)) \<le> capacity" and "make_room capacity db = (admit, db1)"
  shows "mock_index_ok db1" and "same_records db' db1 = same_records db' db" and "int (length (rm_all db1)) \<le> capacity"
    and "admit \<Longrightarrow> int (length (rm_all db1)) < capacity" and "dict_get (rm_slots db1) k \<in> {None, dict_get (rm_slots db) k}"
proof -
  have "mock_index_ok db1 \<and> same_records db' db1 = same_records db' db \<and> int (length (rm_all db1)) \<le> capacity \<and>
      (admit \<longrightarrow> int (length (rm_all db1)) < capacity) \<and> dict_get (rm_slots db1) k \<in> {None, dict_get (rm_slots db) k}"
  proof (cases "int (length (rm_all db)) < capacity")
    case True
    with assms show ?thesis by (auto simp: make_room_def)
  next
    case full: False
    show ?thesis
    proof (cases "zfirst (rm_lru db)")
      case None
      with full assms show ?thesis by (auto simp: make_room_def)
    next
      case (Some victim)
      with full assms(3) have db1: "db1 = evict victim db" by (simp add: make_room_def)
      from lru_unpinned [OF assms(1) zfirst_member [OF Some]]
      have v: "dict_get (rm_pin db) victim = None" "dict_get (rm_all db) victim \<noteq> None" by blast+
      have "dict_get (rm_slots (evict victim db)) k \<in> {None, dict_get (rm_slots db) k}" by (simp add: evict_def)
      with mock_index_ok_evict [OF assms(1) v(1)] evict_length [OF v(2)] assms(2) show ?thesis by (simp add: db1)
    qed
  qed
  then show "mock_index_ok db1" "same_records db' db1 = same_records db' db" "int (length (rm_all db1)) \<le> capacity"
    "admit \<Longrightarrow> int (length (rm_all db1)) < capacity" "dict_get (rm_slots db1) k \<in> {None, dict_get (rm_slots db) k}"
    by blast+
qed

lemma mock_index_ok_touch:
  assumes "mock_index_ok db" and "dict_get (rm_slots db) sid \<noteq> None"
  shows "mock_index_ok (pin_slot op until sid (db\<lparr>rm_all := dict_set sid now (rm_all db)\<rparr>))"
proof -
  have "mock_cell (pin_slot op until sid (db\<lparr>rm_all := dict_set sid now (rm_all db)\<rparr>)) k" for k
  proof -
    have "mock_cell db k" "mock_cell db sid" using assms(1) by (simp_all add: mock_index_ok_def)
    with assms(2) show ?thesis by (cases "k = sid") (auto simp: mock_cell_def pin_slot_def mock_cell_ok_def)
  qed
  with assms(1) show ?thesis by (simp add: mock_index_ok_def pin_slot_def)
qed

lemma mock_index_ok_admit:
  assumes "mock_index_ok db"
  shows "mock_index_ok (pin_slot op until sid (db\<lparr>rm_slots := dict_set sid slot (rm_slots db), rm_all := dict_set sid now (rm_all db)\<rparr>))"
proof -
  have "mock_cell (pin_slot op until sid (db\<lparr>rm_slots := dict_set sid slot (rm_slots db), rm_all := dict_set sid now (rm_all db)\<rparr>)) k" for k
  proof -
    have "mock_cell db k" using assms by (simp_all add: mock_index_ok_def)
    then show ?thesis by (cases "k = sid") (auto simp: mock_cell_def pin_slot_def mock_cell_ok_def)
  qed
  with assms show ?thesis by (simp add: mock_index_ok_def pin_slot_def)
qed

definition slots_named :: "redis_mock \<Rightarrow> bool" where
  "slots_named db \<longleftrightarrow> (\<forall>k s. dict_get (rm_slots db) k = Some s \<longrightarrow> slot_id s = k)"

definition publish_ok :: "int \<Rightarrow> redis_mock \<Rightarrow> redis_mock \<Rightarrow> bool" where
  "publish_ok capacity db0 db \<longleftrightarrow> mock_index_ok db \<and> slots_named db \<and> same_records db0 db \<and> int (length (rm_all db)) \<le> capacity"

lemma publish_candidate_ok:
  assumes "publish_ok capacity db0 (snd st)"
  shows "publish_ok capacity db0 (snd (publish_candidate op now ttl capacity slot st))"
proof -
  obtain result db where st: "st = (result, db)" by fastforce
  let ?k = "slot_id slot"
  from assms have ok: "mock_index_ok db" "slots_named db" "same_records db0 db" "int (length (rm_all db)) \<le> capacity"
    by (simp_all add: publish_ok_def st)
  show ?thesis
  proof (cases "case dict_get (rm_booked db) ?k of None \<Rightarrow> False | Some (_, protected) \<Rightarrow> now < protected")
    case True
    then show ?thesis using assms by (simp add: publish_candidate_def st Let_def)
  next
    case free: False
    show ?thesis
    proof (cases "dict_get (rm_slots db) ?k")
      case (Some stored)
      then obtain score where "dict_get (rm_all db) ?k = Some score" using index_facts [OF ok(1), of ?k] by auto
      with Some free ok mock_index_ok_touch [OF ok(1), of ?k op "now + ttl" now] show ?thesis
        by (simp add: publish_candidate_def st Let_def publish_ok_def slots_named_def dict_set_length)
    next
      case None
      obtain admit db1 where room: "make_room capacity db = (admit, db1)" by fastforce
      note r = make_room_effect [OF ok(1,4) room]
      have named: "slots_named db1" using ok(2) r(5) unfolding slots_named_def by (metis insertE option.distinct(1) singletonD)
      have same: "same_records db0 db1" using ok(3) r(2) by simp
      have step: "snd (publish_candidate op now ttl capacity slot st) = (if \<not> admit then db1
          else pin_slot op (now + ttl) ?k (db1\<lparr>rm_slots := dict_set ?k slot (rm_slots db1), rm_all := dict_set ?k now (rm_all db1)\<rparr>))"
        using None free by (simp add: publish_candidate_def st Let_def room)
      show ?thesis
      proof (cases admit)
        case True
        then have "int (length (dict_set ?k now (rm_all db1))) \<le> capacity" using r(4) by (simp add: dict_set_length)
        with True same named mock_index_ok_admit [OF r(1), where op = op and until = "now + ttl" and sid = ?k and slot = slot and now = now]
        show ?thesis by (simp add: step publish_ok_def slots_named_def)
      next
        case False
        with r(1,3) same named show ?thesis by (simp add: step publish_ok_def)
      qed
    qed
  qed
qed

lemma publish_script_ok:
  assumes "mock_index_ok db" and "slots_named db" and "int (length (rm_all db)) \<le> capacity"
  shows "publish_ok capacity db (snd (publish_script op now ttl capacity candidates db))"
proof -
  have "publish_ok capacity db (snd (fold (publish_candidate op now ttl capacity) candidates st))"
    if "publish_ok capacity db (snd st)" for st
    using that
  proof (induction candidates arbitrary: st)
    case (Cons c cs)
    from Cons.IH [OF publish_candidate_ok [OF Cons.prems]] show ?case by simp
  qed simp
  moreover have "publish_ok capacity db (snd ([], reconcile_pins now db))"
    using reconcile_pins_effect [OF assms(1)] assms(2,3) by (simp add: publish_ok_def slots_named_def)
  ultimately show ?thesis unfolding publish_script_def by blast
qed

section \<open>Booking, releasing and cleaning\<close>

lemma mock_index_ok_records:
  "rm_all db' = rm_all db \<Longrightarrow> rm_lru db' = rm_lru db \<Longrightarrow> rm_pin db' = rm_pin db \<Longrightarrow> rm_slots db' = rm_slots db \<Longrightarrow>
   rm_pinowner db' = rm_pinowner db \<Longrightarrow> mock_index_ok db' = mock_index_ok db"
  by (simp add: mock_index_ok_def mock_cell_def)

lemma pinop_frame [simp]:
  "mock_index_ok (db\<lparr>rm_pinop := x\<rparr>) = mock_index_ok db" "same_records db' (db\<lparr>rm_pinop := x\<rparr>) = same_records db' db"
  by (simp_all add: mock_index_ok_def mock_cell_def same_records_def)

lemma mock_index_ok_remove:
  assumes "mock_index_ok db" and "rm_all db' = dict_pop sid (rm_all db)" "rm_lru db' = dict_pop sid (rm_lru db)"
    "rm_pin db' = dict_pop sid (rm_pin db)" "rm_slots db' = dict_pop sid (rm_slots db)"
    "dict_get (rm_pinowner db') = (dict_get (rm_pinowner db))(sid := None)"
  shows "mock_index_ok db'"
proof -
  have "mock_cell db' k" for k
  proof -
    have "mock_cell db k" using assms(1) by (simp add: mock_index_ok_def)
    with assms show ?thesis
      by (cases "k = sid") (simp add: mock_cell_def mock_cell_ok_def, simp add: mock_cell_def)
  qed
  with assms show ?thesis by (simp add: mock_index_ok_def)
qed

text \<open>The three ways a booking ends.\<close>

lemma book_script_cases:
  obtains (existing) doc until where "dict_get (rm_bookings db) key = Some doc" "dict_get (rm_bookexp db) key = Some until"
      "now < until" "book_script sid key conf protected now db = (Reply_existing doc, db)"
  | (refused) reply where "reply \<in> {Reply_unavailable, Reply_not_found}"
      "book_script sid key conf protected now db = (reply, db)"
  | (booked) db' slot where "\<And>doc until. dict_get (rm_bookings db) key = Some doc \<Longrightarrow> dict_get (rm_bookexp db) key = Some until \<Longrightarrow> until \<le> now"
      "\<And>tkey until. dict_get (rm_booked db) sid = Some (tkey, until) \<Longrightarrow> now < until \<Longrightarrow> tkey = key"
      "dict_get (rm_slots db) sid = Some slot"
      "book_script sid key conf protected now db = (Reply_booked conf, db')"
      "rm_bookings db' = dict_set key conf (rm_bookings db)" "rm_bookexp db' = dict_set key protected (rm_bookexp db)"
      "rm_booked db' = dict_set sid (key, protected) (rm_booked db)" "rm_tombexp db' = dict_set sid protected (rm_tombexp db)"
      "rm_slots db' = dict_pop sid (rm_slots db)" "rm_all db' = dict_pop sid (rm_all db)" "rm_lru db' = dict_pop sid (rm_lru db)"
      "rm_pin db' = dict_pop sid (rm_pin db)" "dict_get (rm_pinowner db') = (dict_get (rm_pinowner db))(sid := None)"
proof (cases "\<exists>doc until. dict_get (rm_bookings db) key = Some doc \<and> dict_get (rm_bookexp db) key = Some until \<and> now < until")
  case True
  then obtain doc until where "dict_get (rm_bookings db) key = Some doc" "dict_get (rm_bookexp db) key = Some until" "now < until"
    by blast
  then show thesis by (intro existing [of doc until]) (simp_all add: book_script_def Let_def)
next
  case False
  let ?taken = "case dict_get (rm_booked db) sid of None \<Rightarrow> False | Some (tkey, until) \<Rightarrow> now < until \<and> tkey \<noteq> key"
  define db1 where "db1 = db\<lparr>rm_bookings := dict_set key conf (rm_bookings db), rm_bookexp := dict_set key protected (rm_bookexp db),
     rm_booked := dict_set sid (key, protected) (rm_booked db), rm_tombexp := dict_set sid protected (rm_tombexp db),
     rm_slots := dict_pop sid (rm_slots db), rm_all := dict_pop sid (rm_all db), rm_lru := dict_pop sid (rm_lru db),
     rm_pin := dict_pop sid (rm_pin db)\<rparr>"
  have eq: "book_script sid key conf protected now db =
      (if ?taken then (Reply_unavailable, db) else if dict_get (rm_slots db) sid = None then (Reply_not_found, db)
       else (Reply_booked conf, drop_owner sid db1))"
    using False by (auto simp: book_script_def Let_def db1_def split: option.splits)
  show thesis
  proof (cases "?taken \<or> dict_get (rm_slots db) sid = None")
    case True
    with eq show thesis by (cases ?taken) (auto intro: refused)
  next
    case free: False
    then obtain slot where slot: "dict_get (rm_slots db) sid = Some slot" by blast
    show thesis
    proof (rule booked [OF _ _ slot, of "drop_owner sid db1"])
      show "until \<le> now" if "dict_get (rm_bookings db) key = Some doc" "dict_get (rm_bookexp db) key = Some until" for doc until
        using that False by (meson not_le)
      show "tkey = key" if "dict_get (rm_booked db) sid = Some (tkey, until)" "now < until" for tkey until
        using that free by auto
    qed (use eq free slot in \<open>simp_all add: db1_def\<close>)
  qed
qed

lemma mock_index_ok_book:
  assumes "mock_index_ok db"
  shows "mock_index_ok (snd (book_script sid key conf protected now db))"
proof (cases rule: book_script_cases [of db key now sid conf protected])
  case (booked db' slot)
  show ?thesis using mock_index_ok_remove [OF assms booked(10-12,9,13)] by (simp add: booked(4))
qed (use assms in auto)

lemma mock_index_ok_release_one:
  assumes "mock_index_ok db"
  shows "mock_index_ok (release_one op sid db)"
proof -
  have "mock_cell (release_one op sid db) k" for k
  proof -
    have "mock_cell db k" using assms by (simp add: mock_index_ok_def)
    then show ?thesis
      by (cases "k = sid") (auto simp: mock_cell_def release_one_def make_evictable_lru mock_cell_ok_def split: if_splits)
  qed
  with assms show ?thesis by (simp add: mock_index_ok_def release_one_def)
qed

lemma release_one_frame [simp]:
  "rm_slots (release_one op sid db) = rm_slots db" "rm_all (release_one op sid db) = rm_all db"
  "same_records db' (release_one op sid db) = same_records db' db"
  by (simp_all add: release_one_def) (simp add: same_records_def)

lemma mock_release_script_effect:
  assumes "mock_index_ok db"
  shows "mock_index_ok (mock_release_script op db)" and "rm_slots (mock_release_script op db) = rm_slots db"
    and "rm_all (mock_release_script op db) = rm_all db" and "same_records db' (mock_release_script op db) = same_records db' db"
proof -
  have "mock_index_ok (fold (release_one op) sids db) \<and> rm_slots (fold (release_one op) sids db) = rm_slots db \<and>
      rm_all (fold (release_one op) sids db) = rm_all db \<and>
      same_records db' (fold (release_one op) sids db) = same_records db' db" for sids
    using assms by (induction sids arbitrary: db) (simp_all add: mock_index_ok_release_one)
  then show "mock_index_ok (mock_release_script op db)" "rm_slots (mock_release_script op db) = rm_slots db"
    "rm_all (mock_release_script op db) = rm_all db" "same_records db' (mock_release_script op db) = same_records db' db"
    by (simp_all add: mock_release_script_def forget_pinop_def)
qed

lemma fold_evict:
  assumes "mock_index_ok db" and "\<And>k. k \<in> set sids \<Longrightarrow> dict_get (rm_pin db) k = None"
  shows "mock_index_ok (fold evict sids db)" and "rm_slots (fold evict sids db) = fold dict_pop sids (rm_slots db)"
    and "rm_all (fold evict sids db) = fold dict_pop sids (rm_all db)" and "same_records db' (fold evict sids db) = same_records db' db"
proof -
  have "mock_index_ok (fold evict sids db) \<and> rm_slots (fold evict sids db) = fold dict_pop sids (rm_slots db) \<and>
      rm_all (fold evict sids db) = fold dict_pop sids (rm_all db) \<and> same_records db' (fold evict sids db) = same_records db' db"
    using assms
  proof (induction sids arbitrary: db)
    case (Cons k ks)
    have "mock_index_ok (evict k db)" using Cons.prems by (intro mock_index_ok_evict) simp_all
    from Cons.IH [OF this] Cons.prems(2) show ?case by (simp add: evict_def same_records_def)
  qed simp
  then show "mock_index_ok (fold evict sids db)" "rm_slots (fold evict sids db) = fold dict_pop sids (rm_slots db)"
    "rm_all (fold evict sids db) = fold dict_pop sids (rm_all db)" "same_records db' (fold evict sids db) = same_records db' db"
    by blast+
qed

lemma fold_forget_booking:
  "fold forget_booking ks db =
     db\<lparr>rm_bookings := fold dict_pop ks (rm_bookings db), rm_bookexp := fold dict_pop ks (rm_bookexp db)\<rparr>"
  by (induction ks arbitrary: db) (simp_all add: forget_booking_def)

lemma fold_forget_tombstone:
  "fold forget_tombstone ks db =
     db\<lparr>rm_booked := fold dict_pop ks (rm_booked db), rm_tombexp := fold dict_pop ks (rm_tombexp db)\<rparr>"
  by (induction ks arbitrary: db) (simp_all add: forget_tombstone_def)

lemma length_fold_dict_pop: "length (fold dict_pop ks d) \<le> length d"
  by (induction ks arbitrary: d) (auto intro: order_trans [OF _ length_delete_le])

text \<open>A cleanup forgets unpinned slots, and only bookings and tombstones whose protection is over.\<close>

lemma mock_cleanup_script_effect:
  assumes "mock_index_ok db0" and "records_ok db0" and "mock_cleanup_script now cutoff batch db0 = (counts, db)"
  obtains idle ekeys etombs where "mock_index_ok db" "rm_slots db = fold dict_pop idle (rm_slots db0)"
    "rm_all db = fold dict_pop idle (rm_all db0)"
    "rm_bookings db = fold dict_pop ekeys (rm_bookings db0)" "rm_bookexp db = fold dict_pop ekeys (rm_bookexp db0)"
    "rm_booked db = fold dict_pop etombs (rm_booked db0)" "rm_tombexp db = fold dict_pop etombs (rm_tombexp db0)"
    "\<And>k. k \<in> set ekeys \<Longrightarrow> \<exists>s. dict_get (rm_bookexp db0) k = Some s \<and> s \<le> now"
    "\<And>k. k \<in> set etombs \<Longrightarrow> \<exists>s. dict_get (rm_tombexp db0) k = Some s \<and> s \<le> now"
    "idle_slots counts = int (length idle)"
proof -
  let ?db = "reconcile_pins now db0"
  note r = reconcile_pins_effect [OF assms(1), where now = now]
  define idle where "idle = limit_to batch (zrange_to cutoff (rm_lru ?db))"
  define db1 where "db1 = fold evict idle ?db"
  define ekeys where "ekeys = limit_to batch (zrange_to now (rm_bookexp db1))"
  define db2 where "db2 = fold forget_booking ekeys db1"
  define etombs where "etombs = limit_to batch (zrange_to now (rm_tombexp db2))"
  have "dict_get (rm_pin ?db) k = None" if "k \<in> set idle" for k
  proof -
    have "k \<in> set (zrange_to cutoff (rm_lru ?db))" using that unfolding idle_def by (rule in_limit_to)
    moreover have "dict_ok (rm_lru ?db)" using r(1) by (simp add: mock_index_ok_def)
    ultimately have "dict_get (rm_lru ?db) k \<noteq> None" by (auto simp: in_zrange)
    from lru_unpinned [OF r(1) this] show ?thesis by blast
  qed
  note e = fold_evict [where sids = idle, OF r(1) this, folded db1_def]
  have same: "same_records db0 db1" using e(4) [where db' = db0] r(4) [where db' = db0] by simp
  have "mock_cleanup_script now cutoff batch db0 =
      (\<lparr>idle_slots = int (length idle), expired_records = int (length ekeys)\<rparr>, fold forget_tombstone etombs db2)"
    by (simp only: mock_cleanup_script_def Let_def idle_def db1_def ekeys_def db2_def etombs_def)
  with assms(3) have db: "db = fold forget_tombstone etombs db2" and counts: "idle_slots counts = int (length idle)" by auto
  have ok: "dict_ok (rm_bookexp db0)" "dict_ok (rm_tombexp db0)" using assms(2) unfolding records_ok_def by blast+
  have ekeys: "\<exists>s. dict_get (rm_bookexp db0) k = Some s \<and> s \<le> now" if "k \<in> set ekeys" for k
  proof -
    have "rm_bookexp db1 = rm_bookexp db0" using same by (simp add: same_records_def)
    then have "k \<in> set (zrange_to now (rm_bookexp db0))" using in_limit_to [OF that [unfolded ekeys_def]] by simp
    then show ?thesis using in_zrange [OF ok(1)] by blast
  qed
  have etombs: "\<exists>s. dict_get (rm_tombexp db0) k = Some s \<and> s \<le> now" if "k \<in> set etombs" for k
  proof -
    have "rm_tombexp db2 = rm_tombexp db0" using same by (simp add: db2_def fold_forget_booking same_records_def)
    then have "k \<in> set (zrange_to now (rm_tombexp db0))" using in_limit_to [OF that [unfolded etombs_def]] by simp
    then show ?thesis using in_zrange [OF ok(2)] by blast
  qed
  show thesis
  proof (rule that [where idle = idle and ekeys = ekeys and etombs = etombs])
    have "mock_index_ok db = mock_index_ok db1"
      unfolding db db2_def by (rule mock_index_ok_records) (simp_all add: fold_forget_tombstone fold_forget_booking)
    with e(1) show "mock_index_ok db" by simp
  qed (use ekeys etombs e(2,3) r(2,3) same counts in
       \<open>simp_all add: db db2_def fold_forget_tombstone fold_forget_booking same_records_def\<close>)
qed

section \<open>Histories\<close>

definition conf_for :: "string \<Rightarrow> booking_doc \<Rightarrow> bool" where
  "conf_for sid conf \<longleftrightarrow> (case conf of Booking_json c \<Rightarrow> slot_id (bk_slot c) = sid | Empty_text \<Rightarrow> True)"

text \<open>
  One script or one native expiry. A booking or tombstone key expires an hour after its protection, so
  never before the score that ends it.
\<close>

inductive redis_mock_step :: "redis_mock_config \<Rightarrow> time \<Rightarrow> redis_mock \<Rightarrow> redis_mock \<Rightarrow> bool" for cfg where
  rm_publish: "list_all slot_valid candidates \<Longrightarrow> redis_mock_step cfg now db (snd (redis_publish cfg candidates op now db))"
| rm_book: "conf_for sid conf \<Longrightarrow> redis_mock_step cfg now db
     (snd (book_script sid key conf (to_ms now + rc_retention_ms cfg) (to_ms now) db))"
| rm_release: "redis_mock_step cfg now db (redis_release_operation op db)"
| rm_cleanup: "redis_mock_step cfg now db (snd (redis_cleanup cfg now batch db))"
| rm_pinop_expires: "redis_mock_step cfg now db (forget_pinop op db)"
| rm_booking_expires: "dict_get (rm_bookexp db) key = Some s \<Longrightarrow> s \<le> to_ms now \<Longrightarrow>
     redis_mock_step cfg now db (db\<lparr>rm_bookings := dict_pop key (rm_bookings db)\<rparr>)"
| rm_tombstone_expires: "dict_get (rm_tombexp db) sid = Some s \<Longrightarrow> s \<le> to_ms now \<Longrightarrow>
     redis_mock_step cfg now db (db\<lparr>rm_booked := dict_pop sid (rm_booked db)\<rparr>)"

inductive redis_mock_run :: "redis_mock_config \<Rightarrow> time \<Rightarrow> redis_mock \<Rightarrow> time \<Rightarrow> redis_mock \<Rightarrow> bool" for cfg where
  rm_idle: "redis_mock_run cfg t db t db"
| rm_more: "redis_mock_run cfg t db t' db' \<Longrightarrow> t' \<le> now \<Longrightarrow> redis_mock_step cfg now db' db'' \<Longrightarrow>
     redis_mock_run cfg t db now db''"

definition redis_mock_ok :: "redis_mock_config \<Rightarrow> redis_mock \<Rightarrow> bool" where
  "redis_mock_ok cfg db \<longleftrightarrow> mock_index_ok db \<and> slots_named db \<and> records_ok db \<and> int (length (rm_all db)) \<le> rc_capacity cfg"

definition redis_live :: "ms \<Rightarrow> redis_mock \<Rightarrow> string \<Rightarrow> booking_confirmation option" where
  "redis_live t db key =
     (case (dict_get (rm_bookings db) key, dict_get (rm_bookexp db) key) of
        (Some (Booking_json c), Some until) \<Rightarrow> if t < until then Some c else None
      | _ \<Rightarrow> None)"

lemma redis_live_Some:
  "redis_live t db key = Some c \<longleftrightarrow>
     (\<exists>until. dict_get (rm_bookings db) key = Some (Booking_json c) \<and> dict_get (rm_bookexp db) key = Some until \<and> t < until)"
  by (auto simp: redis_live_def split: option.splits booking_doc.splits)

definition tombstone_holds :: "ms \<Rightarrow> redis_mock \<Rightarrow> string \<Rightarrow> string \<Rightarrow> bool" where
  "tombstone_holds t db key sid \<longleftrightarrow> (\<exists>until. dict_get (rm_booked db) sid = Some (key, until) \<and> t < until)"

definition redis_guarded :: "ms \<Rightarrow> redis_mock \<Rightarrow> bool" where
  "redis_guarded start db \<longleftrightarrow>
     (\<forall>t key c. start \<le> t \<and> redis_live t db key = Some c \<longrightarrow> tombstone_holds t db key (slot_id (bk_slot c)))"

lemma redis_guardedD:
  "redis_guarded start db \<Longrightarrow> start \<le> t \<Longrightarrow> redis_live t db key = Some c \<Longrightarrow> tombstone_holds t db key (slot_id (bk_slot c))"
  unfolding redis_guarded_def by blast

lemma redis_guarded_later: "redis_guarded s db \<Longrightarrow> s \<le> t \<Longrightarrow> redis_guarded t db"
  unfolding redis_guarded_def by (meson order_trans)

lemma same_records_keeps:
  assumes "same_records db db'"
  shows "records_ok db' = records_ok db" and "redis_guarded t db' = redis_guarded t db" and "redis_live t db' = redis_live t db"
  using assms unfolding same_records_def records_ok_def redis_guarded_def redis_live_def tombstone_holds_def by simp_all

text \<open>A script that keeps the invariant of the indexes and leaves the records alone keeps everything.\<close>

lemma slots_only_step:
  assumes "redis_mock_ok cfg db" and "redis_guarded t db" and "mock_index_ok db'" "slots_named db'" "same_records db db'"
    and "int (length (rm_all db')) \<le> rc_capacity cfg"
  shows "redis_mock_ok cfg db' \<and> redis_guarded t db'"
  using assms same_records_keeps(1,2) [OF assms(5)] by (simp add: redis_mock_ok_def)

lemma slots_named_subset:
  "slots_named db \<Longrightarrow> (\<And>k s. dict_get (rm_slots db') k = Some s \<Longrightarrow> dict_get (rm_slots db) k = Some s) \<Longrightarrow> slots_named db'"
  unfolding slots_named_def by blast

lemma book_keeps:
  assumes ok: "redis_mock_ok cfg db" and guard: "redis_guarded now db" and conf: "conf_for sid conf" and ret: "now \<le> protected"
  shows "redis_mock_ok cfg (snd (book_script sid key conf protected now db)) \<and>
    redis_guarded now (snd (book_script sid key conf protected now db))"
proof (cases rule: book_script_cases [of db key now sid conf protected])
  case (booked db' slot)
  have named: "slots_named db'"
    using ok booked(9) by (auto simp: redis_mock_ok_def slots_named_def split: if_splits)
  have index: "mock_index_ok db'" using mock_index_ok_book [of db sid key conf protected now] ok booked(4) by (simp add: redis_mock_ok_def)
  have len: "int (length (rm_all db')) \<le> rc_capacity cfg"
    using ok length_delete_le [of sid "rm_all db"] by (simp add: redis_mock_ok_def booked(10))
  have rec: "records_ok db'" using ok by (simp add: redis_mock_ok_def records_ok_def booked(6-8))
  have "tombstone_holds t db' key' (slot_id (bk_slot c))" if t: "now \<le> t" and live: "redis_live t db' key' = Some c" for t key' c
  proof (cases "key' = key")
    case True
    then have "conf = Booking_json c" "t < protected" using live by (auto simp: redis_live_Some booked(5,6))
    with conf show ?thesis by (simp add: True tombstone_holds_def conf_for_def booked(7))
  next
    case False
    then have "redis_live t db key' = Some c" using live by (simp add: redis_live_def booked(5,6))
    from redis_guardedD [OF guard t this] obtain until where
      tomb: "dict_get (rm_booked db) (slot_id (bk_slot c)) = Some (key', until)" "t < until" by (auto simp: tombstone_holds_def)
    have "slot_id (bk_slot c) \<noteq> sid" using booked(2) [of key' until] tomb t False by auto
    with tomb show ?thesis by (simp add: tombstone_holds_def booked(7))
  qed
  then have "redis_guarded now db'" unfolding redis_guarded_def by blast
  with named index len rec show ?thesis by (simp add: booked(4) redis_mock_ok_def)
qed (use ok guard in auto)

lemma cleanup_keeps:
  assumes ok: "redis_mock_ok cfg db" and guard: "redis_guarded (to_ms now) db"
  shows "redis_mock_ok cfg (snd (redis_cleanup cfg now batch db)) \<and> redis_guarded (to_ms now) (snd (redis_cleanup cfg now batch db))"
proof -
  obtain counts db' where run: "mock_cleanup_script (to_ms now) (to_ms now - rc_idle_ttl_ms cfg) batch db = (counts, db')" by fastforce
  from ok have idx: "mock_index_ok db" and rec: "records_ok db" by (simp_all add: redis_mock_ok_def)
  obtain idle ekeys etombs where e: "mock_index_ok db'" "rm_slots db' = fold dict_pop idle (rm_slots db)"
    "rm_all db' = fold dict_pop idle (rm_all db)"
    "rm_bookings db' = fold dict_pop ekeys (rm_bookings db)" "rm_bookexp db' = fold dict_pop ekeys (rm_bookexp db)"
    "rm_booked db' = fold dict_pop etombs (rm_booked db)" "rm_tombexp db' = fold dict_pop etombs (rm_tombexp db)"
    and gone: "\<And>k. k \<in> set etombs \<Longrightarrow> \<exists>s. dict_get (rm_tombexp db) k = Some s \<and> s \<le> to_ms now"
    using mock_cleanup_script_effect [OF idx rec run] by metis
  have named: "slots_named db'"
    using ok by (auto simp: redis_mock_ok_def slots_named_def e(2) fold_dict_pop split: if_splits)
  have len: "int (length (rm_all db')) \<le> rc_capacity cfg"
    using ok length_fold_dict_pop [of idle "rm_all db"] by (simp add: redis_mock_ok_def e(3))
  have rec': "records_ok db'"
    using rec by (auto simp: records_ok_def e(5-7) dict_ok_fold_pop fold_dict_pop split: if_splits)
  have "tombstone_holds t db' key (slot_id (bk_slot c))" if t: "to_ms now \<le> t" and live: "redis_live t db' key = Some c" for t key c
  proof -
    have "redis_live t db key = Some c" using live by (auto simp: redis_live_Some e(4,5) fold_dict_pop split: if_splits)
    from redis_guardedD [OF guard t this] obtain until where
      tomb: "dict_get (rm_booked db) (slot_id (bk_slot c)) = Some (key, until)" "t < until" by (auto simp: tombstone_holds_def)
    then have "dict_get (rm_tombexp db) (slot_id (bk_slot c)) = Some until" using rec unfolding records_ok_def by blast
    with gone [of "slot_id (bk_slot c)"] tomb(2) t have "slot_id (bk_slot c) \<notin> set etombs" by auto
    with tomb show ?thesis by (simp add: tombstone_holds_def e(6) fold_dict_pop)
  qed
  then have "redis_guarded (to_ms now) db'" unfolding redis_guarded_def by blast
  with e(1) named len rec' show ?thesis by (simp add: redis_cleanup_def run redis_mock_ok_def)
qed

lemma redis_mock_step_keeps:
  assumes "redis_mock_step cfg now db db'" and ok: "redis_mock_ok cfg db" and guard: "redis_guarded (to_ms now) db"
    and ret: "0 \<le> rc_retention_ms cfg"
  shows "redis_mock_ok cfg db' \<and> redis_guarded (to_ms now) db'"
  using assms(1)
proof cases
  case (rm_publish candidates op)
  have "publish_ok (rc_capacity cfg) db db'"
    using publish_script_ok [of db "rc_capacity cfg"] ok by (simp add: rm_publish(1) redis_publish_def redis_mock_ok_def)
  then show ?thesis by (intro slots_only_step [OF ok guard]) (simp_all add: publish_ok_def)
next
  case (rm_book sid conf key)
  then show ?thesis using book_keeps [OF ok guard] ret by simp
next
  case (rm_release op)
  have r: "mock_index_ok db'" "rm_slots db' = rm_slots db" "rm_all db' = rm_all db" "same_records db db'"
    using mock_release_script_effect [of db, where op = op] ok by (simp_all add: rm_release redis_release_operation_def redis_mock_ok_def)
  then show ?thesis using ok by (intro slots_only_step [OF ok guard]) (simp_all add: slots_named_def redis_mock_ok_def)
next
  case (rm_cleanup batch)
  with cleanup_keeps [OF ok guard] show ?thesis by simp
next
  case (rm_pinop_expires op)
  then show ?thesis using ok
    by (intro slots_only_step [OF ok guard]) (simp_all add: forget_pinop_def slots_named_def redis_mock_ok_def)
next
  case (rm_booking_expires key s)
  have "mock_index_ok db'" using mock_index_ok_records [of db' db] ok by (simp add: rm_booking_expires(1) redis_mock_ok_def)
  moreover have "redis_live t db' k = Some c \<Longrightarrow> redis_live t db k = Some c" for t k c
    by (auto simp: redis_live_Some rm_booking_expires(1) split: if_splits)
  ultimately show ?thesis
    using ok guard by (auto simp: rm_booking_expires(1) redis_mock_ok_def slots_named_def records_ok_def redis_guarded_def tombstone_holds_def)
next
  case (rm_tombstone_expires sid s)
  have "mock_index_ok db'" using mock_index_ok_records [of db' db] ok by (simp add: rm_tombstone_expires(1) redis_mock_ok_def)
  moreover have "records_ok db'"
    using ok by (auto simp: rm_tombstone_expires(1) redis_mock_ok_def records_ok_def split: if_splits)
  moreover have "tombstone_holds t db' key (slot_id (bk_slot c))"
    if t: "to_ms now \<le> t" and live: "redis_live t db' key = Some c" for t key c
  proof -
    have "redis_live t db key = Some c" using live by (simp add: redis_live_def rm_tombstone_expires(1))
    from redis_guardedD [OF guard t this] obtain until where
      tomb: "dict_get (rm_booked db) (slot_id (bk_slot c)) = Some (key, until)" "t < until" by (auto simp: tombstone_holds_def)
    then have "dict_get (rm_tombexp db) (slot_id (bk_slot c)) = Some until"
      using ok unfolding redis_mock_ok_def records_ok_def by blast
    with rm_tombstone_expires(2,3) tomb(2) t have "slot_id (bk_slot c) \<noteq> sid" by auto
    with tomb show ?thesis by (simp add: tombstone_holds_def rm_tombstone_expires(1))
  qed
  then have "redis_guarded (to_ms now) db'" unfolding redis_guarded_def by blast
  ultimately show ?thesis using ok by (simp add: rm_tombstone_expires(1) redis_mock_ok_def slots_named_def)
qed

lemma to_ms_mono: "s \<le> t \<Longrightarrow> to_ms s \<le> to_ms t"
  by (simp add: to_ms_def zdiv_mono1)

lemma redis_mock_run_keeps:
  assumes "redis_mock_run cfg t db t' db'" and "redis_mock_ok cfg db" and "redis_guarded (to_ms t) db"
    and "0 \<le> rc_retention_ms cfg"
  shows "redis_mock_ok cfg db' \<and> redis_guarded (to_ms t') db'"
  using assms
proof (induction rule: redis_mock_run.induct)
  case (rm_more t db t' db' now db'')
  then have "redis_mock_ok cfg db'" "redis_guarded (to_ms t') db'" by blast+
  from redis_mock_step_keeps [OF rm_more.hyps(3) this(1) redis_guarded_later [OF this(2) to_ms_mono [OF rm_more.hyps(2)]]]
  show ?case using rm_more.prems by blast
qed blast

lemma empty_redis_mock_ok:
  "0 \<le> rc_capacity cfg \<Longrightarrow> redis_mock_ok cfg empty_redis_mock" "redis_guarded t empty_redis_mock"
proof -
  show "0 \<le> rc_capacity cfg \<Longrightarrow> redis_mock_ok cfg empty_redis_mock"
    using mock_index_ok_empty by (simp add: redis_mock_ok_def) (simp add: slots_named_def empty_redis_mock_def)
  show "redis_guarded t empty_redis_mock" by (simp add: redis_guarded_def redis_live_def empty_redis_mock_def)
qed

text \<open>
  C15. The shared Redis state of the mock provider is sound under any interleaving of scripts and native
  expiry: the number of published slots never exceeds the capacity, the eviction index holds exactly the
  published slots that no search has pinned, and two idempotency keys never both hold a protected
  booking of one slot.
\<close>

theorem redis_mock_is_sound:
  assumes "redis_mock_run cfg t0 empty_redis_mock now db" and "0 \<le> rc_capacity cfg" and "0 \<le> rc_retention_ms cfg"
  shows "int (card {k. dict_get (rm_slots db) k \<noteq> None}) \<le> rc_capacity cfg \<and>
    (\<forall>k. dict_get (rm_lru db) k \<noteq> None \<longleftrightarrow> dict_get (rm_slots db) k \<noteq> None \<and> dict_get (rm_pin db) k = None) \<and>
    (\<forall>t key key' c c'. to_ms now \<le> t \<and> redis_live t db key = Some c \<and> redis_live t db key' = Some c' \<and>
       slot_id (bk_slot c) = slot_id (bk_slot c') \<longrightarrow> key = key')"
proof (intro conjI allI impI)
  have ok: "redis_mock_ok cfg db" and guard: "redis_guarded (to_ms now) db"
    using redis_mock_run_keeps [OF assms(1) empty_redis_mock_ok(1) [OF assms(2)] empty_redis_mock_ok(2) assms(3)] by simp_all
  have idx: "mock_index_ok db" and len: "int (length (rm_all db)) \<le> rc_capacity cfg" using ok by (simp_all add: redis_mock_ok_def)
  have "{k. dict_get (rm_slots db) k \<noteq> None} \<subseteq> set (dict_keys (rm_all db))"
  proof
    fix k assume "k \<in> {k. dict_get (rm_slots db) k \<noteq> None}"
    then have "dict_get (rm_slots db) k \<noteq> None" by (rule CollectD)
    then have "dict_get (rm_all db) k \<noteq> None" unfolding index_counted [OF idx, of k] .
    then show "k \<in> set (dict_keys (rm_all db))" unfolding dict_keys_dom .
  qed
  from card_mono [OF _ this] card_length [of "dict_keys (rm_all db)"]
  have "card {k. dict_get (rm_slots db) k \<noteq> None} \<le> length (rm_all db)" by simp
  with len show "int (card {k. dict_get (rm_slots db) k \<noteq> None}) \<le> rc_capacity cfg" by linarith
  show "dict_get (rm_lru db) k \<noteq> None \<longleftrightarrow> dict_get (rm_slots db) k \<noteq> None \<and> dict_get (rm_pin db) k = None" for k
    by (rule index_evictable [OF idx])
  show "key = key'" if "to_ms now \<le> t \<and> redis_live t db key = Some c \<and> redis_live t db key' = Some c' \<and>
       slot_id (bk_slot c) = slot_id (bk_slot c')" for t key key' c c'
    using redis_guardedD [OF guard, of t key c] redis_guardedD [OF guard, of t key' c'] that by (auto simp: tombstone_holds_def)
qed

text \<open>The repository's booking is one of the modelled steps, whatever happened to the store since it read the slot.\<close>

lemma redis_book_slot_step:
  assumes "slots_named db" and "\<And>s. bk_slot (factory s) = s"
  shows "redis_mock_step cfg now (others db) (snd (redis_book_slot cfg others sid key factory now db))"
proof -
  define conf where "conf = (case dict_get (rm_slots db) sid of None \<Rightarrow> Empty_text | Some s \<Rightarrow> Booking_json (factory s))"
  have "conf_for sid conf" using assms by (auto simp: conf_def conf_for_def slots_named_def split: option.split)
  moreover have "snd (redis_book_slot cfg others sid key factory now db) =
      snd (book_script sid key conf (to_ms now + rc_retention_ms cfg) (to_ms now) (others db))"
    by (simp add: redis_book_slot_def Let_def conf_def split: prod.split)
  ultimately show ?thesis by (simp add: rm_book)
qed

section \<open>A confirmation of nothing\<close>

lemma book_script_fresh:
  assumes "redis_live now db key = None" "\<And>doc. dict_get (rm_bookings db) key = Some doc \<Longrightarrow> doc \<noteq> Empty_text"
    and "\<forall>tkey until. dict_get (rm_booked db) sid = Some (tkey, until) \<longrightarrow> until \<le> now"
    and "dict_get (rm_slots db) sid = Some slot"
  shows "\<exists>db'. book_script sid key conf protected now db = (Reply_booked conf, db') \<and>
    dict_get (rm_bookings db') key = Some conf \<and> dict_get (rm_bookexp db') key = Some protected \<and>
    dict_get (rm_slots db') sid = None \<and> dict_get (rm_booked db') sid = Some (key, protected)"
proof (cases rule: book_script_cases [of db key now sid conf protected])
  case (existing doc until)
  with assms(1,2) show ?thesis by (cases doc) (auto simp: redis_live_def)
next
  case (refused reply)
  have "\<not> (\<exists>tkey until. dict_get (rm_booked db) sid = Some (tkey, until) \<and> now < until)" using assms(3) by fastforce
  with refused assms(1,2,4) show ?thesis
    by (fastforce simp: book_script_def Let_def redis_live_def split: option.splits booking_doc.splits if_splits)
next
  case (booked db' slot')
  then show ?thesis by simp
qed

text \<open>
  When another search publishes the slot between the read of \<^verbatim>\<open>book_slot\<close> and its script, the script
  sells it with the empty string as its confirmation: the call raises, the slot is gone, and until the
  protection ends every read of the key, and every booking under it, raises as well.
\<close>

theorem empty_confirmation_is_sold:
  assumes "dict_get (rm_slots db) sid = None" and "dict_get (rm_slots (others db)) sid = Some slot"
    and "dict_get (rm_bookings (others db)) key = None"
    and "\<forall>tkey until. dict_get (rm_booked (others db)) sid = Some (tkey, until) \<longrightarrow> until \<le> to_ms now"
  shows "\<exists>db'. redis_book_slot cfg others sid key factory now db = (Inl Invalid_document, db') \<and>
    dict_get (rm_slots db') sid = None \<and>
    (\<forall>t. to_ms t < to_ms now + rc_retention_ms cfg \<longrightarrow>
       redis_booking key t (\<lambda>_. db') = Inl Invalid_document \<and>
       (\<forall>sid'. redis_book_slot cfg id sid' key factory t db' = (Inl Invalid_document, db')))"
proof -
  have "redis_live (to_ms now) (others db) key = None" by (simp add: redis_live_def assms(3))
  from book_script_fresh [OF this _ assms(4,2), where conf = Empty_text and protected = "to_ms now + rc_retention_ms cfg"] assms(3)
  obtain db' where db': "book_script sid key Empty_text (to_ms now + rc_retention_ms cfg) (to_ms now) (others db) = (Reply_booked Empty_text, db')"
    "dict_get (rm_bookings db') key = Some Empty_text" "dict_get (rm_bookexp db') key = Some (to_ms now + rc_retention_ms cfg)"
    "dict_get (rm_slots db') sid = None" by auto
  have "redis_book_slot cfg others sid key factory now db = (Inl Invalid_document, db')"
    by (simp add: redis_book_slot_def assms(1) db'(1) decode_booking_def)
  moreover have "redis_booking key t (\<lambda>_. db') = Inl Invalid_document"
    "redis_book_slot cfg id sid' key factory t db' = (Inl Invalid_document, db')"
    if "to_ms t < to_ms now + rc_retention_ms cfg" for t sid'
    using that by (simp_all add: redis_booking_def redis_book_slot_def book_script_def decode_booking_def db'(2,3) Let_def)
  ultimately show ?thesis using db'(4) by blast
qed

section \<open>Eviction order\<close>

definition demo_offer :: "string \<Rightarrow> availability_slot" where
  "demo_offer k = \<lparr>slot_id = k, slot_provider = ''mock'', slot_venue_name = ''Babel'', slot_venue_type = RESTAURANT,
     slot_date = ''2026-03-01'', slot_start_time = ''19:00'', slot_end_time = None, slot_party_size = 2,
     slot_max_party_size = 4, slot_available = True\<rparr>"

definition demo_redis_config :: redis_mock_config where
  "demo_redis_config = \<lparr>rc_capacity = 2, rc_idle_ttl_ms = 3600000, rc_retention_ms = 604800000, rc_pin_ms = 120000\<rparr>"

definition demo_memory :: mock_store where
  "demo_memory = \<lparr>ms_capacity = 2, ms_idle_ttl = 3600000000, ms_retention = 604800000000, ms_pin = 120000000,
     ms_slots = [], ms_tombstones = [], ms_bookings = [], ms_pins = []\<rparr>"

text \<open>
  The two stores choose different victims when touches tie, as those of one search do: the in-memory
  store evicts the slot published first, the Redis store the one whose identifier is smallest.
\<close>

theorem eviction_victims_differ:
  "dict_keys (ms_slots (snd (publish_and_filter [demo_offer ''c''] ''op2'' 1000
      (release_operation ''op1'' (snd (publish_and_filter [demo_offer ''b'', demo_offer ''a''] ''op1'' 0 demo_memory)))))) = [''a'', ''c''] \<and>
   dict_keys (rm_slots (snd (redis_publish demo_redis_config [demo_offer ''c''] ''op2'' 1000
      (redis_release_operation ''op1'' (snd (redis_publish demo_redis_config [demo_offer ''b'', demo_offer ''a''] ''op1'' 0 empty_redis_mock)))))) = [''b'', ''c'']"
  by code_simp

theorem redis_mock_is_sound_witness:
  "int (card {k. dict_get (rm_slots (snd (redis_publish demo_redis_config [demo_offer ''b'', demo_offer ''a'', demo_offer ''c''] ''op1'' 0
      empty_redis_mock))) k \<noteq> None}) \<le> 2"
proof -
  have valid: "list_all slot_valid [demo_offer ''b'', demo_offer ''a'', demo_offer ''c'']" by code_simp
  have "redis_mock_run demo_redis_config 0 empty_redis_mock 0
      (snd (redis_publish demo_redis_config [demo_offer ''b'', demo_offer ''a'', demo_offer ''c''] ''op1'' 0 empty_redis_mock))"
    by (rule rm_more [OF rm_idle _ rm_publish [OF valid]]) simp
  from redis_mock_is_sound [OF this] show ?thesis by (simp add: demo_redis_config_def)
qed

theorem empty_confirmation_is_sold_witness:
  "\<exists>db'. redis_book_slot demo_redis_config (\<lambda>x. snd (redis_publish demo_redis_config [demo_offer ''a''] ''op1'' 0 x)) ''a'' ''watch:w1''
     (confirmation_factory demo_uuid ''watch:w1'' 0) 0 empty_redis_mock = (Inl Invalid_document, db')"
proof -
  have "dict_get (rm_slots empty_redis_mock) ''a'' = None"
    "dict_get (rm_slots (snd (redis_publish demo_redis_config [demo_offer ''a''] ''op1'' 0 empty_redis_mock))) ''a'' = Some (demo_offer ''a'')"
    "dict_get (rm_bookings (snd (redis_publish demo_redis_config [demo_offer ''a''] ''op1'' 0 empty_redis_mock))) ''watch:w1'' = None"
    "dict_get (rm_booked (snd (redis_publish demo_redis_config [demo_offer ''a''] ''op1'' 0 empty_redis_mock))) ''a'' = None"
    by code_simp+
  with empty_confirmation_is_sold [of empty_redis_mock "''a''" "\<lambda>x. snd (redis_publish demo_redis_config [demo_offer ''a''] ''op1'' 0 x)"
      "demo_offer ''a''" "''watch:w1''" 0 demo_redis_config "confirmation_factory demo_uuid ''watch:w1'' 0"]
  show ?thesis by auto
qed

end
