(* ===== verification/Redis_Mock_Refinement.thy ===== *)
theory Redis_Mock_Refinement
  imports Redis_Mock_Properties
begin

text \<open>
  The Redis mock store does what the in-memory one does: on states that correspond, the same calls give the
  same answers and states that correspond again. Instants are whole milliseconds, the resolution of the
  Redis store; slots that compete for eviction were touched at different instants, and a cleanup's batch
  is not smaller than what it has to remove, because only then the order of removal cannot differ.
\<close>

section \<open>Whole milliseconds\<close>

definition aligned :: "time \<Rightarrow> bool" where
  "aligned t \<longleftrightarrow> 1000 dvd t"

lemma aligned_compare:
  assumes "aligned a" and "aligned b"
  shows "to_ms a < to_ms b \<longleftrightarrow> a < b" and "to_ms a \<le> to_ms b \<longleftrightarrow> a \<le> b" and "to_ms a = to_ms b \<longleftrightarrow> a = b"
    and "to_ms (a + b) = to_ms a + to_ms b" and "to_ms (a - b) = to_ms a - to_ms b" and "aligned (a + b)" and "aligned (a - b)"
  using assms by (auto simp: aligned_def to_ms_def elim!: dvdE simp flip: distrib_left right_diff_distrib)

section \<open>Dictionaries\<close>

lemma dict_get_filter:
  "dict_ok d \<Longrightarrow> dict_get (filter (\<lambda>(_, x). P x) d) k = (case dict_get d k of None \<Rightarrow> None | Some x \<Rightarrow> if P x then Some x else None)"
proof (induction d)
  case (Cons y d)
  obtain j x where y: "y = (j, x)" by fastforce
  from Cons.prems have "j \<notin> fst ` set d" by (simp add: y)
  then have "dict_get d j = None" by (simp add: map_of_eq_None_iff)
  with Cons show ?case by (auto simp: y split: option.splits)
qed simp

lemma dict_ok_filter: "dict_ok d \<Longrightarrow> dict_ok (filter P d)"
  by (rule distinct_map_filter)

lemma same_keys_length:
  assumes "dict_ok a" and "dict_ok b" and "\<And>k. (dict_get a k = None) = (dict_get b k = None)"
  shows "length a = length b"
proof -
  have "set (dict_keys a) = set (dict_keys b)" using assms(3) dict_keys_dom [of _ a] dict_keys_dom [of _ b] by blast
  with distinct_card [OF assms(1)] distinct_card [OF assms(2)] show ?thesis by simp
qed

section \<open>Correspondence\<close>

text \<open>The sets of pins by operation are exact as long as none of them has expired.\<close>

definition pinop_ok :: "redis_mock \<Rightarrow> bool" where
  "pinop_ok db \<longleftrightarrow> (\<forall>op k. (op, k) \<in> set (rm_pinop db) \<longleftrightarrow> dict_get (rm_pinowner db) k = Some op)"

definition aligned_store :: "mock_store \<Rightarrow> bool" where
  "aligned_store m \<longleftrightarrow> aligned (ms_idle_ttl m) \<and> aligned (ms_retention m) \<and> aligned (ms_pin m) \<and>
     (\<forall>k en. dict_get (ms_slots m) k = Some en \<longrightarrow> aligned (last_touch en)) \<and>
     (\<forall>k p. dict_get (ms_pins m) k = Some p \<longrightarrow> aligned (pin_expires_at p)) \<and>
     (\<forall>k b. dict_get (ms_bookings m) k = Some b \<longrightarrow> aligned (mb_protected_until b)) \<and>
     (\<forall>k t. dict_get (ms_tombstones m) k = Some t \<longrightarrow> aligned (tb_protected_until t))"

definition mock_dicts_ok :: "mock_store \<Rightarrow> bool" where
  "mock_dicts_ok m \<longleftrightarrow> dict_ok (ms_slots m) \<and> dict_ok (ms_pins m) \<and> dict_ok (ms_bookings m) \<and> dict_ok (ms_tombstones m)"

definition same_slots :: "mock_store \<Rightarrow> redis_mock \<Rightarrow> bool" where
  "same_slots m db \<longleftrightarrow>
     (\<forall>k. dict_get (rm_slots db) k = map_option se_slot (dict_get (ms_slots m) k)) \<and>
     (\<forall>k. dict_get (rm_all db) k = map_option (\<lambda>en. to_ms (last_touch en)) (dict_get (ms_slots m) k))"

definition same_pins :: "mock_store \<Rightarrow> redis_mock \<Rightarrow> bool" where
  "same_pins m db \<longleftrightarrow>
     (\<forall>k. dict_get (rm_pin db) k = map_option (\<lambda>p. to_ms (pin_expires_at p)) (dict_get (ms_pins m) k)) \<and>
     (\<forall>k. dict_get (rm_pinowner db) k = map_option pin_operation_id (dict_get (ms_pins m) k))"

definition same_sales :: "mock_store \<Rightarrow> redis_mock \<Rightarrow> bool" where
  "same_sales m db \<longleftrightarrow>
     (\<forall>k. dict_get (rm_bookings db) k = map_option (\<lambda>b. Booking_json (mb_confirmation b)) (dict_get (ms_bookings m) k)) \<and>
     (\<forall>k. dict_get (rm_bookexp db) k = map_option (\<lambda>b. to_ms (mb_protected_until b)) (dict_get (ms_bookings m) k)) \<and>
     (\<forall>k. dict_get (rm_booked db) k = map_option (\<lambda>t. (tb_key t, to_ms (tb_protected_until t))) (dict_get (ms_tombstones m) k)) \<and>
     (\<forall>k. dict_get (rm_tombexp db) k = map_option (\<lambda>t. to_ms (tb_protected_until t)) (dict_get (ms_tombstones m) k))"

definition same_config :: "mock_store \<Rightarrow> redis_mock_config \<Rightarrow> bool" where
  "same_config m cfg \<longleftrightarrow> rc_capacity cfg = ms_capacity m \<and> rc_idle_ttl_ms cfg = to_ms (ms_idle_ttl m) \<and>
     rc_retention_ms cfg = to_ms (ms_retention m) \<and> rc_pin_ms cfg = to_ms (ms_pin m)"

definition mock_sim :: "redis_mock_config \<Rightarrow> mock_store \<Rightarrow> redis_mock \<Rightarrow> bool" where
  "mock_sim cfg m db \<longleftrightarrow> same_config m cfg \<and> mock_dicts_ok m \<and> aligned_store m \<and> mock_index_ok db \<and> records_ok db \<and> pinop_ok db \<and>
     same_slots m db \<and> same_pins m db \<and> same_sales m db"

lemma mock_simD:
  assumes "mock_sim cfg m db"
  shows "same_config m cfg" "mock_dicts_ok m" "aligned_store m" "mock_index_ok db" "records_ok db" "pinop_ok db"
    "same_slots m db" "same_pins m db" "same_sales m db"
  using assms unfolding mock_sim_def by blast+

section \<open>Reading and booking\<close>

lemma booking_agrees:
  assumes "mock_sim cfg m db" and "aligned now"
  shows "redis_booking key now (\<lambda>_. db) = Inr (live_booking now m key)"
    and "redis_reconcile_booking key now (\<lambda>_. db) = Inr (mock_reconcile key now m)"
proof -
  have al: "\<And>b. dict_get (ms_bookings m) key = Some b \<Longrightarrow> aligned (mb_protected_until b)"
    using mock_simD(3) [OF assms(1)] by (simp add: aligned_store_def)
  have s: "dict_get (rm_bookings db) key = map_option (\<lambda>b. Booking_json (mb_confirmation b)) (dict_get (ms_bookings m) key)"
    "dict_get (rm_bookexp db) key = map_option (\<lambda>b. to_ms (mb_protected_until b)) (dict_get (ms_bookings m) key)"
    using mock_simD(9) [OF assms(1)] by (simp_all add: same_sales_def)
  show one: "redis_booking key now (\<lambda>_. db) = Inr (live_booking now m key)"
    using aligned_compare(2) [OF al assms(2)]
    by (auto simp: redis_booking_def live_booking_def s decode_booking_def split: option.split)
  show "redis_reconcile_booking key now (\<lambda>_. db) = Inr (mock_reconcile key now m)"
    by (auto simp: redis_reconcile_booking_def one live_booking_def mock_reconcile_def split: option.split)
qed

lemma pinop_ok_drop_owner: "pinop_ok db \<Longrightarrow> pinop_ok (drop_owner sid db)"
  by (auto simp: pinop_ok_def drop_owner_def split: option.splits)

definition sold :: "string \<Rightarrow> string \<Rightarrow> booking_doc \<Rightarrow> ms \<Rightarrow> redis_mock \<Rightarrow> redis_mock" where
  "sold sid key conf protected db = drop_owner sid
     (db\<lparr>rm_bookings := dict_set key conf (rm_bookings db), rm_bookexp := dict_set key protected (rm_bookexp db),
        rm_booked := dict_set sid (key, protected) (rm_booked db), rm_tombexp := dict_set sid protected (rm_tombexp db),
        rm_slots := dict_pop sid (rm_slots db), rm_all := dict_pop sid (rm_all db), rm_lru := dict_pop sid (rm_lru db),
        rm_pin := dict_pop sid (rm_pin db)\<rparr>)"

definition sold_memory :: "string \<Rightarrow> string \<Rightarrow> booking_confirmation \<Rightarrow> time \<Rightarrow> mock_store \<Rightarrow> mock_store" where
  "sold_memory sid key c until m =
     m\<lparr>ms_bookings := dict_set key \<lparr>mb_confirmation = c, mb_protected_until = until\<rparr> (ms_bookings m),
       ms_tombstones := dict_set sid \<lparr>tb_key = key, tb_protected_until = until\<rparr> (ms_tombstones m),
       ms_slots := dict_pop sid (ms_slots m), ms_pins := dict_pop sid (ms_pins m)\<rparr>"

lemma sold_agrees:
  assumes sim: "mock_sim cfg m db" and al: "aligned until"
  shows "mock_sim cfg (sold_memory sid key c until m) (sold sid key (Booking_json c) (to_ms until) db)"
proof -
  note d = mock_simD [OF sim]
  have "mock_index_ok (sold sid key (Booking_json c) (to_ms until) db)"
    by (rule mock_index_ok_remove [OF d(4)]) (simp_all add: sold_def)
  moreover have "records_ok (sold sid key (Booking_json c) (to_ms until) db)"
    using d(5) by (simp add: records_ok_def sold_def)
  moreover have "pinop_ok (sold sid key (Booking_json c) (to_ms until) db)"
    unfolding sold_def using d(6) by (intro pinop_ok_drop_owner) (simp add: pinop_ok_def)
  moreover have "same_slots (sold_memory sid key c until m) (sold sid key (Booking_json c) (to_ms until) db)"
    using d(7) by (simp add: same_slots_def sold_def sold_memory_def)
  moreover have "same_pins (sold_memory sid key c until m) (sold sid key (Booking_json c) (to_ms until) db)"
    using d(8) by (simp add: same_pins_def sold_def sold_memory_def)
  moreover have "same_sales (sold_memory sid key c until m) (sold sid key (Booking_json c) (to_ms until) db)"
    using d(9) by (simp add: same_sales_def sold_def sold_memory_def)
  moreover have "same_config (sold_memory sid key c until m) cfg" "mock_dicts_ok (sold_memory sid key c until m)"
    using d(1,2) by (simp_all add: same_config_def mock_dicts_ok_def sold_memory_def)
  moreover have "aligned_store (sold_memory sid key c until m)"
    using d(3) al by (simp add: aligned_store_def sold_memory_def)
  ultimately show ?thesis unfolding mock_sim_def by blast
qed

definition as_failure :: "adapter_error + 'a \<Rightarrow> mock_failure + 'a" where
  "as_failure x = (case x of Inl err \<Rightarrow> Inl (Adapter_failure err) | Inr y \<Rightarrow> Inr y)"

lemma book_agrees:
  assumes sim: "mock_sim cfg m db" and al: "aligned now"
    and run: "mock_book sid key factory now m = (res, m')"
  shows "\<exists>db'. redis_book_slot cfg id sid key factory now db = (as_failure res, db') \<and> mock_sim cfg m' db'"
proof -
  note d = mock_simD [OF sim]
  have bk: "dict_get (rm_bookings db) key = map_option (\<lambda>b. Booking_json (mb_confirmation b)) (dict_get (ms_bookings m) key)"
    "dict_get (rm_bookexp db) key = map_option (\<lambda>b. to_ms (mb_protected_until b)) (dict_get (ms_bookings m) key)"
    "dict_get (rm_booked db) sid = map_option (\<lambda>t. (tb_key t, to_ms (tb_protected_until t))) (dict_get (ms_tombstones m) sid)"
    using d(9) by (simp_all add: same_sales_def)
  have sl: "dict_get (rm_slots db) sid = map_option se_slot (dict_get (ms_slots m) sid)" using d(7) by (simp add: same_slots_def)
  have less: "b \<in> ran (dict_get (ms_bookings m)) \<Longrightarrow> (to_ms now < to_ms (mb_protected_until b)) = (now < mb_protected_until b)"
    "t \<in> ran (dict_get (ms_tombstones m)) \<Longrightarrow> (to_ms now < to_ms (tb_protected_until t)) = (now < tb_protected_until t)" for b t
    using d(3) aligned_compare(1) [OF al] by (auto simp: aligned_store_def ran_def)
  have ret: "to_ms now + rc_retention_ms cfg = to_ms (now + ms_retention m)" "aligned (now + ms_retention m)"
    using aligned_compare(4,6) [OF al] d(1,3) by (simp_all add: same_config_def aligned_store_def)
  show ?thesis
  proof (cases "\<exists>b. dict_get (ms_bookings m) key = Some b \<and> now < mb_protected_until b")
    case True
    then obtain b where b: "dict_get (ms_bookings m) key = Some b" "now < mb_protected_until b" by blast
    then have "to_ms now < to_ms (mb_protected_until b)" using less(1) [of b] by (auto simp: ran_def)
    with b run sim show ?thesis
      by (auto simp: mock_book_def redis_book_slot_def book_script_def bk decode_booking_def Let_def as_failure_def)
  next
    case old: False
    have fresh: "\<And>b. dict_get (ms_bookings m) key = Some b \<Longrightarrow> \<not> to_ms now < to_ms (mb_protected_until b)"
      using old less(1) by (auto simp: ran_def)
    let ?taken = "case dict_get (ms_tombstones m) sid of None \<Rightarrow> False | Some t \<Rightarrow> now < tb_protected_until t \<and> tb_key t \<noteq> key"
    have taken: "(case dict_get (rm_booked db) sid of None \<Rightarrow> False | Some (tkey, until) \<Rightarrow> to_ms now < until \<and> tkey \<noteq> key) = ?taken"
      using less(2) by (auto simp: bk(3) ran_def split: option.splits)
    have script: "book_script sid key conf protected (to_ms now) db =
        (if ?taken then (Reply_unavailable, db) else if dict_get (rm_slots db) sid = None then (Reply_not_found, db)
         else (Reply_booked conf, sold sid key conf protected db))" for conf protected
      unfolding book_script_def Let_def taken sold_def using fresh by (auto simp: bk(1,2) split: option.splits)
    have memory: "mock_book sid key factory now m =
        (if ?taken then (Inl (Slot_Unavailable (''Mock slot is already booked: '' @ sid)), m)
         else (case dict_get (ms_slots m) sid of
                 None \<Rightarrow> (Inl (Slot_Not_Found (''Unknown mock slot: '' @ sid)), m)
               | Some en \<Rightarrow> (Inr (factory (se_slot en)), sold_memory sid key (factory (se_slot en)) (now + ms_retention m) m)))"
      unfolding mock_book_def Let_def sold_memory_def using old by (auto split: option.splits)
    show ?thesis
    proof (cases "?taken \<or> dict_get (ms_slots m) sid = None")
      case True
      with run sim show ?thesis
        by (auto simp: redis_book_slot_def script memory sl Let_def as_failure_def split: if_splits option.splits)
    next
      case False
      then obtain en where en: "dict_get (ms_slots m) sid = Some en" by blast
      with False run have "res = Inr (factory (se_slot en))" "m' = sold_memory sid key (factory (se_slot en)) (now + ms_retention m) m"
        by (simp_all add: memory)
      with sold_agrees [OF sim ret(2), of sid key "factory (se_slot en)"] False en show ?thesis
        by (simp add: redis_book_slot_def script sl Let_def as_failure_def ret(1) decode_booking_def)
    qed
  qed
qed

section \<open>Releasing\<close>

lemma fold_release_one:
  assumes "mock_index_ok db"
  shows "mock_index_ok (fold (release_one op) sids db) \<and>
    rm_slots (fold (release_one op) sids db) = rm_slots db \<and> rm_all (fold (release_one op) sids db) = rm_all db \<and>
    rm_pinop (fold (release_one op) sids db) = rm_pinop db \<and>
    (\<forall>k. dict_get (rm_pin (fold (release_one op) sids db)) k =
       (if k \<in> set sids \<and> dict_get (rm_pinowner db) k = Some op then None else dict_get (rm_pin db) k)) \<and>
    (\<forall>k. dict_get (rm_pinowner (fold (release_one op) sids db)) k =
       (if k \<in> set sids \<and> dict_get (rm_pinowner db) k = Some op then None else dict_get (rm_pinowner db) k))"
  using assms
proof (induction sids arbitrary: db)
  case (Cons s sids)
  have "mock_index_ok (release_one op s db)" using Cons.prems by (rule mock_index_ok_release_one)
  from Cons.IH [OF this] show ?case by (auto simp: release_one_def)
qed simp

lemma release_agrees:
  assumes sim: "mock_sim cfg m db"
  shows "mock_sim cfg (release_operation op m) (redis_release_operation op db)"
proof -
  note d = mock_simD [OF sim]
  have members: "k \<in> set (pinop_members op db) \<longleftrightarrow> dict_get (rm_pinowner db) k = Some op" for k
    using d(6) by (force simp: pinop_members_def pinop_ok_def)
  note f = fold_release_one [OF d(4), of op "pinop_members op db", unfolded members]
  have pins: "dict_get (ms_pins (release_operation op m)) k =
      (case dict_get (ms_pins m) k of None \<Rightarrow> None | Some p \<Rightarrow> if pin_operation_id p \<noteq> op then Some p else None)" for k
    using d(2) by (simp add: release_operation_def mock_dicts_ok_def dict_get_filter)
  have frame: "rm_slots (redis_release_operation op db) = rm_slots db" "rm_all (redis_release_operation op db) = rm_all db"
    "rm_pin (redis_release_operation op db) = rm_pin (fold (release_one op) (pinop_members op db) db)"
    "rm_pinowner (redis_release_operation op db) = rm_pinowner (fold (release_one op) (pinop_members op db) db)"
    "rm_pinop (redis_release_operation op db) = filter (\<lambda>x. fst x \<noteq> op) (rm_pinop db)"
    using f by (simp_all add: redis_release_operation_def mock_release_script_def forget_pinop_def)
  have same: "same_records db (redis_release_operation op db)" "mock_index_ok (redis_release_operation op db)"
    using mock_release_script_effect(1,4) [OF d(4), where op = op] by (simp_all add: redis_release_operation_def)
  have "pinop_ok (redis_release_operation op db)"
    using d(6) f by (auto simp: pinop_ok_def frame)
  moreover have "same_pins (release_operation op m) (redis_release_operation op db)"
    using d(8) f by (auto simp: same_pins_def frame pins split: option.split)
  moreover have "same_slots (release_operation op m) (redis_release_operation op db)"
    using d(7) by (simp add: same_slots_def frame release_operation_def)
  moreover have "same_sales (release_operation op m) (redis_release_operation op db)"
    using d(9) same(1) by (simp add: same_sales_def same_records_def release_operation_def)
  moreover have "same_config (release_operation op m) cfg" "mock_dicts_ok (release_operation op m)" "aligned_store (release_operation op m)"
    using d(1-3) pins by (auto simp: same_config_def mock_dicts_ok_def aligned_store_def dict_ok_filter release_operation_def
        dict_get_filter split: option.splits if_splits)
  moreover have "records_ok (redis_release_operation op db)" using same_records_keeps(1) [OF same(1)] d(5) by simp
  ultimately show ?thesis using same(2) unfolding mock_sim_def by blast
qed

section \<open>Lapsed pins\<close>

lemma pinop_ok_unpin: "pinop_ok db \<Longrightarrow> pinop_ok (unpin sid db)"
proof -
  assume "pinop_ok db"
  then have "pinop_ok (drop_owner sid (db\<lparr>rm_pin := dict_pop sid (rm_pin db)\<rparr>))"
    by (intro pinop_ok_drop_owner) (simp add: pinop_ok_def)
  then show ?thesis by (simp add: unpin_def pinop_ok_def)
qed

lemma pinop_ok_fold_unpin: "pinop_ok db \<Longrightarrow> pinop_ok (fold unpin sids db)"
  by (induction sids arbitrary: db) (simp_all add: pinop_ok_unpin)

lemma expire_agrees:
  assumes sim: "mock_sim cfg m db" and al: "aligned now"
  shows "mock_sim cfg (expire_pins now m) (reconcile_pins (to_ms now) db)"
proof -
  note d = mock_simD [OF sim]
  note f = reconcile_pins_effect [OF d(4), where now = "to_ms now"]
  have dpin: "dict_ok (rm_pin db)" using d(4) by (simp add: mock_index_ok_def)
  have pins: "dict_get (ms_pins (expire_pins now m)) k =
      (case dict_get (ms_pins m) k of None \<Rightarrow> None | Some p \<Rightarrow> if now < pin_expires_at p then Some p else None)" for k
    using d(2) by (simp add: expire_pins_def mock_dicts_ok_def dict_get_filter)
  have al': "\<And>k p. dict_get (ms_pins m) k = Some p \<Longrightarrow> (to_ms (pin_expires_at p) \<le> to_ms now) = (\<not> now < pin_expires_at p)"
    using d(3) aligned_compare(2) [OF _ al] by (auto simp: aligned_store_def)
  have stale: "k \<in> set (zrange_to (to_ms now) (rm_pin db)) \<longleftrightarrow> (\<exists>p. dict_get (ms_pins m) k = Some p \<and> \<not> now < pin_expires_at p)" for k
    using d(8) al' by (auto simp: in_zrange [OF dpin] same_pins_def)
  have "dict_get (rm_pin (reconcile_pins (to_ms now) db)) k =
      (if k \<in> set (zrange_to (to_ms now) (rm_pin db)) then None else dict_get (rm_pin db) k)"
    "dict_get (rm_pinowner (reconcile_pins (to_ms now) db)) k =
      (if k \<in> set (zrange_to (to_ms now) (rm_pin db)) then None else dict_get (rm_pinowner db) k)" for k
    using fold_unpin(4,5) [OF d(4)] by (simp_all add: reconcile_pins_def fold_dict_pop)
  then have "same_pins (expire_pins now m) (reconcile_pins (to_ms now) db)"
    using d(8) by (auto simp: same_pins_def stale pins split: option.split)
  moreover have "same_slots (expire_pins now m) (reconcile_pins (to_ms now) db)" "same_sales (expire_pins now m) (reconcile_pins (to_ms now) db)"
    using d(7,9) f(2,3) f(4) [where db' = db] by (simp_all add: same_slots_def same_sales_def same_records_def expire_pins_def)
  moreover have "same_config (expire_pins now m) cfg" "mock_dicts_ok (expire_pins now m)" "aligned_store (expire_pins now m)"
    using d(1-3) pins by (auto simp: same_config_def mock_dicts_ok_def aligned_store_def expire_pins_def dict_ok_filter
        dict_get_filter split: option.splits if_splits)
  moreover have "records_ok (reconcile_pins (to_ms now) db)" using same_records_keeps(1) [OF f(4) [where db' = db, THEN iffD2, OF same_records_refl]] d(5) by simp
  moreover have "pinop_ok (reconcile_pins (to_ms now) db)" using pinop_ok_fold_unpin [OF d(6)] by (simp add: reconcile_pins_def)
  ultimately show ?thesis using f(1) unfolding mock_sim_def by blast
qed

section \<open>Publishing\<close>

definition with_pins :: "string \<Rightarrow> time \<Rightarrow> string list \<Rightarrow> mock_store \<Rightarrow> mock_store" where
  "with_pins op until ks m =
     m\<lparr>ms_pins := fold (\<lambda>k. dict_set k \<lparr>pin_operation_id = op, pin_expires_at = until\<rparr>) ks (ms_pins m)\<rparr>"

lemma with_pins_frame [simp]:
  "ms_slots (with_pins op until ks m) = ms_slots m" "ms_capacity (with_pins op until ks m) = ms_capacity m"
  "ms_tombstones (with_pins op until ks m) = ms_tombstones m" "ms_bookings (with_pins op until ks m) = ms_bookings m"
  "ms_pin (with_pins op until ks m) = ms_pin m" "ms_retention (with_pins op until ks m) = ms_retention m"
  "ms_idle_ttl (with_pins op until ks m) = ms_idle_ttl m"
  by (simp_all add: with_pins_def)

lemma fold_set_get: "dict_get (fold (\<lambda>k. dict_set k v) ks d) k = (if k \<in> set ks then Some v else dict_get d k)"
  by (induction ks arbitrary: d) auto

lemma with_pins_get:
  "dict_get (ms_pins (with_pins op until ks m)) k =
     (if k \<in> set ks then Some \<lparr>pin_operation_id = op, pin_expires_at = until\<rparr> else dict_get (ms_pins m) k)"
  by (simp add: with_pins_def fold_set_get)

lemma with_pins_snoc:
  "with_pins op until (ks @ [k]) m =
     (with_pins op until ks m)\<lparr>ms_pins := dict_set k \<lparr>pin_operation_id = op, pin_expires_at = until\<rparr>
       (ms_pins (with_pins op until ks m))\<rparr>"
  by (simp add: with_pins_def)

lemma with_pins_slots: "with_pins op until ks (m\<lparr>ms_slots := x\<rparr>) = (with_pins op until ks m)\<lparr>ms_slots := x\<rparr>"
  by (simp add: with_pins_def)

lemma pinop_ok_pin_slot: "pinop_ok db \<Longrightarrow> pinop_ok (pin_slot op until sid db)"
  by (auto simp: pinop_ok_def pin_slot_def split: option.splits if_splits)

text \<open>Admitting a slot, new or known, and pinning it.\<close>

lemma admit_agrees:
  assumes sim: "mock_sim cfg m db" and al: "aligned now" "aligned until"
  shows "mock_sim cfg
      (m\<lparr>ms_slots := dict_set k \<lparr>se_slot = s, last_touch = now\<rparr> (ms_slots m),
         ms_pins := dict_set k \<lparr>pin_operation_id = op, pin_expires_at = until\<rparr> (ms_pins m)\<rparr>)
      (pin_slot op (to_ms until) k
        (db\<lparr>rm_slots := dict_set k s (rm_slots db), rm_all := dict_set k (to_ms now) (rm_all db)\<rparr>))"
    (is "mock_sim cfg ?m ?db")
proof -
  note d = mock_simD [OF sim]
  have "mock_index_ok ?db" by (rule mock_index_ok_admit [OF d(4)])
  moreover have "records_ok ?db" using d(5) by (simp add: records_ok_def pin_slot_def)
  moreover have "pinop_ok ?db" using d(6) by (intro pinop_ok_pin_slot) (simp add: pinop_ok_def)
  moreover have "same_slots ?m ?db" using d(7) by (simp add: same_slots_def)
  moreover have "same_pins ?m ?db" using d(8) by (simp add: same_pins_def pin_slot_def)
  moreover have "same_sales ?m ?db" using d(9) by (simp add: same_sales_def pin_slot_def)
  moreover have "same_config ?m cfg" "mock_dicts_ok ?m" using d(1,2) by (simp_all add: same_config_def mock_dicts_ok_def)
  moreover have "aligned_store ?m" using d(3) al by (simp add: aligned_store_def)
  ultimately show ?thesis unfolding mock_sim_def by blast
qed

lemma evict_agrees:
  assumes sim: "mock_sim cfg m db" and "dict_get (rm_pin db) k = None"
  shows "mock_sim cfg (m\<lparr>ms_slots := dict_pop k (ms_slots m)\<rparr>) (evict k db)" (is "mock_sim cfg ?m ?db")
proof -
  note d = mock_simD [OF sim]
  have "mock_index_ok ?db" by (rule mock_index_ok_evict [OF d(4) assms(2)])
  moreover have "records_ok ?db" using d(5) by (simp add: records_ok_def evict_def)
  moreover have "pinop_ok ?db" using d(6) by (simp add: pinop_ok_def evict_def)
  moreover have "same_slots ?m ?db" using d(7) by (simp add: same_slots_def evict_def)
  moreover have "same_pins ?m ?db" using d(8) by (simp add: same_pins_def)
  moreover have "same_sales ?m ?db" using d(9) by (simp add: same_sales_def evict_def)
  moreover have "same_config ?m cfg" "mock_dicts_ok ?m" using d(1,2) by (simp_all add: same_config_def mock_dicts_ok_def)
  moreover have "aligned_store ?m" using d(3) by (simp add: aligned_store_def)
  ultimately show ?thesis unfolding mock_sim_def by blast
qed

text \<open>The two searches for a victim.\<close>

lemma zfirst_least:
  assumes "zfirst z = Some k"
  shows "\<exists>s. (k, s) \<in> set z \<and> (\<forall>k' s'. (k', s') \<in> set z \<longrightarrow> s \<le> s')"
proof -
  let ?f = "\<lambda>(k, score). (score, k)"
  obtain s rest where sorted: "sort_key ?f z = (k, s) # rest" using assms by (auto simp: zfirst_def split: list.splits)
  have "(k, s) \<in> set z" by (metis list.set_intros(1) set_sort sorted)
  moreover have "s \<le> s'" if "(k', s') \<in> set z" for k' s'
  proof -
    have "(k', s') \<in> set ((k, s) # rest)" using that by (metis set_sort sorted)
    have "sorted (map ?f ((k, s) # rest))" using sorted_sort_key [of ?f z] by (simp add: sorted)
    then have "\<forall>y \<in> set (map ?f ((k, s) # rest)). (s, k) \<le> y" by simp
    moreover have "(s', k') \<in> set (map ?f ((k, s) # rest))" using \<open>(k', s') \<in> set ((k, s) # rest)\<close> by force
    ultimately have "(s, k) \<le> (s', k')" by blast
    then show ?thesis by auto
  qed
  ultimately show ?thesis by blast
qed

lemma oldest_entry_None: "oldest_entry prot best d = None \<longleftrightarrow> best = None \<and> (\<forall>k \<in> set (dict_keys d). k \<in> set prot)"
  by (induction prot best d rule: oldest_entry.induct) (auto split: option.splits)

definition no_ties :: "string list \<Rightarrow> mock_store \<Rightarrow> bool" where
  "no_ties prot m \<longleftrightarrow>
     (\<forall>k k' en en'. dict_get (ms_slots m) k = Some en \<and> dict_get (ms_slots m) k' = Some en' \<and>
        k \<notin> set prot \<and> k' \<notin> set prot \<and> last_touch en = last_touch en' \<longrightarrow> k = k')"

lemma victims_agree:
  assumes sim: "mock_sim cfg m db" and ties: "no_ties prot m"
    and prot: "\<And>k. k \<in> set prot \<longleftrightarrow> dict_get (ms_pins m) k \<noteq> None"
  shows "map_option fst (oldest_entry prot None (ms_slots m)) = zfirst (rm_lru db)"
proof -
  note d = mock_simD [OF sim]
  have dok: "dict_ok (ms_slots m)" "dict_ok (rm_lru db)" using d(2,4) by (simp_all add: mock_dicts_ok_def mock_index_ok_def)
  have pin: "dict_get (rm_pin db) k = None \<longleftrightarrow> k \<notin> set prot" for k
    using d(8) prot [of k] by (simp add: same_pins_def)
  have cell: "mock_cell_ok (dict_get (rm_slots db) k) (dict_get (rm_all db) k) (dict_get (rm_pin db) k)
      (dict_get (rm_pinowner db) k) (dict_get (rm_lru db) k)" for k
    using d(4) by (simp add: mock_index_ok_def mock_cell_def)
  have lru: "dict_get (rm_lru db) k =
      (if k \<in> set prot then None else map_option (\<lambda>en. to_ms (last_touch en)) (dict_get (ms_slots m) k))" for k
    using cell [of k] pin [of k] d(7) by (auto simp: mock_cell_ok_def same_slots_def)
  show ?thesis
  proof (cases "oldest_entry prot None (ms_slots m)")
    case None
    then have all: "\<And>k. dict_get (ms_slots m) k \<noteq> None \<Longrightarrow> k \<in> set prot"
      unfolding oldest_entry_None using dict_keys_dom by metis
    have "rm_lru db = []"
    proof (rule ccontr)
      assume "rm_lru db \<noteq> []"
      then obtain k where "k \<in> set (dict_keys (rm_lru db))" by (cases "rm_lru db") auto
      then have "dict_get (rm_lru db) k \<noteq> None" unfolding dict_keys_dom .
      with lru [of k] all [of k] show False by (auto split: if_splits)
    qed
    with None show ?thesis by (simp add: zfirst_def)
  next
    case (Some x)
    obtain k t where x: "x = (k, t)" by fastforce
    from oldest_entry_spec [OF Some [unfolded x]] obtain en where
      en: "(k, en) \<in> set (ms_slots m)" "last_touch en = t" "k \<notin> set prot"
      and least: "\<And>k' en'. (k', en') \<in> set (ms_slots m) \<Longrightarrow> k' \<notin> set prot \<Longrightarrow> t \<le> last_touch en'" by auto
    have slot: "dict_get (ms_slots m) k = Some en" using en(1) dict_get_in_set [OF dok(1)] by blast
    then have "dict_get (rm_lru db) k \<noteq> None" using lru [of k] en(3) by simp
    then have "rm_lru db \<noteq> []" by auto
    then obtain v where v: "zfirst (rm_lru db) = Some v" using zfirst_None [of "rm_lru db"] by (cases "zfirst (rm_lru db)") auto
    from zfirst_least [OF v] obtain s where s: "(v, s) \<in> set (rm_lru db)" "\<And>k' s'. (k', s') \<in> set (rm_lru db) \<Longrightarrow> s \<le> s'" by blast
    have "dict_get (rm_lru db) v = Some s" using s(1) dict_get_in_set [OF dok(2)] by blast
    with lru [of v] obtain en' where en': "dict_get (ms_slots m) v = Some en'" "s = to_ms (last_touch en')" "v \<notin> set prot"
      by (cases "dict_get (ms_slots m) v") (auto split: if_splits)
    have al: "aligned (last_touch en)" "aligned (last_touch en')" using d(3) slot en'(1) unfolding aligned_store_def by blast+
    have "(k, to_ms t) \<in> set (rm_lru db)"
      using lru [of k] en(2,3) slot dict_get_in_set [OF dok(2), of k "to_ms t"] by simp
    from s(2) [OF this] en'(2) have "last_touch en' \<le> last_touch en" using aligned_compare(2) [OF al(2,1)] en(2) by simp
    moreover have "last_touch en \<le> last_touch en'" using least [of v en'] en' en(2) dict_get_in_set [OF dok(1), of v en'] by blast
    ultimately have "v = k" using ties slot en' en(3) unfolding no_ties_def by (metis order_antisym)
    with Some v show ?thesis by (simp add: x)
  qed
qed

definition pins_fresh :: "time \<Rightarrow> mock_store \<Rightarrow> bool" where
  "pins_fresh now m \<longleftrightarrow> (\<forall>k p. dict_get (ms_pins m) k = Some p \<longrightarrow> now < pin_expires_at p)"

definition publish_mid ::
  "redis_mock_config \<Rightarrow> string \<Rightarrow> time \<Rightarrow> string list \<times> availability_slot list \<times> mock_store \<Rightarrow>
   availability_slot list \<times> redis_mock \<Rightarrow> bool" where
  "publish_mid cfg op now st st' \<longleftrightarrow>
     (let (admitted, result, m) = st; (result', db) = st' in
        result' = result \<and> mock_sim cfg (with_pins op (now + ms_pin m) admitted m) db \<and> dict_ok (ms_pins m) \<and>
        pins_fresh now m \<and> no_ties (dict_keys (ms_pins m) @ admitted) m)"

lemma pinned_ids_fresh:
  assumes "pins_fresh now m" and "dict_ok (ms_pins m)"
  shows "pinned_ids now m = dict_keys (ms_pins m)"
proof -
  have "now < pin_expires_at (snd x)" if "x \<in> set (ms_pins m)" for x
  proof -
    have "dict_get (ms_pins m) (fst x) = Some (snd x)" using that assms(2) by simp
    with assms(1) show ?thesis unfolding pins_fresh_def by blast
  qed
  then have "filter (\<lambda>(_, p). now < pin_expires_at p) (ms_pins m) = ms_pins m" by (simp add: case_prod_beta filter_id_conv)
  then show ?thesis by (simp add: pinned_ids_def)
qed

lemma with_pins_admit:
  "with_pins op until (ks @ [k]) (m\<lparr>ms_slots := x\<rparr>) =
     (with_pins op until ks m)\<lparr>ms_slots := x,
        ms_pins := dict_set k \<lparr>pin_operation_id = op, pin_expires_at = until\<rparr> (ms_pins (with_pins op until ks m))\<rparr>"
  by (simp add: with_pins_def)

lemma no_ties_admit:
  assumes "no_ties prot m"
  shows "no_ties (prot @ [k]) (m\<lparr>ms_slots := dict_set k en (ms_slots m)\<rparr>)"
  using assms unfolding no_ties_def by (simp split: if_split)

lemma no_ties_pop:
  assumes "no_ties prot m"
  shows "no_ties prot (m\<lparr>ms_slots := dict_pop k (ms_slots m)\<rparr>)"
  using assms unfolding no_ties_def by (simp split: if_split)

lemma no_ties_pins [simp]: "no_ties prot (m\<lparr>ms_pins := x\<rparr>) = no_ties prot m" "no_ties prot (with_pins op until ks m) = no_ties prot m"
  by (simp_all add: no_ties_def)

text \<open>Making room in both stores.\<close>

lemma room_agrees:
  assumes sim: "mock_sim cfg (with_pins op until admitted m) db" and dok: "dict_ok (ms_pins m)" and fresh: "pins_fresh now m"
    and ties: "no_ties (dict_keys (ms_pins m) @ admitted) m"
  shows "\<exists>room m' db'. (if int (length (ms_slots m)) < ms_capacity m then (True, m)
      else evict_one (pinned_ids now m @ admitted) m) = (room, m') \<and> make_room (rc_capacity cfg) db = (room, db') \<and>
    mock_sim cfg (with_pins op until admitted m') db' \<and> (\<exists>x. m' = m\<lparr>ms_slots := x\<rparr>) \<and>
    no_ties (dict_keys (ms_pins m) @ admitted) m'"
proof -
  note d = mock_simD [OF sim]
  have dslots: "dict_ok (ms_slots m)" and dall: "dict_ok (rm_all db)" using d(2,4) by (simp_all add: mock_dicts_ok_def mock_index_ok_def)
  have "length (rm_all db) = length (ms_slots m)"
    by (rule same_keys_length [OF dall dslots]) (use d(7) in \<open>simp add: same_slots_def\<close>)
  moreover have "rc_capacity cfg = ms_capacity m" using d(1) by (simp add: same_config_def)
  ultimately have below: "int (length (rm_all db)) < rc_capacity cfg \<longleftrightarrow> int (length (ms_slots m)) < ms_capacity m" by simp
  have self: "\<exists>x. m = m\<lparr>ms_slots := x\<rparr>" by (rule exI [where x = "ms_slots m"]) simp
  show ?thesis
  proof (cases "int (length (ms_slots m)) < ms_capacity m")
    case True
    show ?thesis
      by (rule exI [where x = True], rule exI [where x = m], rule exI [where x = db])
        (use True below sim ties self in \<open>simp add: make_room_def\<close>)
  next
    case False
    let ?prot = "dict_keys (ms_pins m) @ admitted"
    have prot: "k \<in> set ?prot \<longleftrightarrow> dict_get (ms_pins (with_pins op until admitted m)) k \<noteq> None" for k
      using dict_keys_dom [of k "ms_pins m"] by (simp add: with_pins_get)
    have victims: "map_option fst (oldest_entry ?prot None (ms_slots m)) = zfirst (rm_lru db)"
      using victims_agree [OF sim _ prot] ties by simp
    show ?thesis
    proof (cases "oldest_entry ?prot None (ms_slots m)")
      case None
      have "zfirst (rm_lru db) = None" using victims None by simp
      show ?thesis
        by (rule exI [where x = False], rule exI [where x = m], rule exI [where x = db])
          (use \<open>zfirst (rm_lru db) = None\<close> None False below sim ties self in
            \<open>simp add: make_room_def evict_one_def pinned_ids_fresh [OF fresh dok]\<close>)
    next
      case (Some x)
      with victims have first: "zfirst (rm_lru db) = Some (fst x)" by simp
      have "dict_get (rm_pin db) (fst x) = None" using lru_unpinned [OF d(4) zfirst_member [OF first]] by blast
      from evict_agrees [OF sim this]
      have "mock_sim cfg (with_pins op until admitted (m\<lparr>ms_slots := dict_pop (fst x) (ms_slots m)\<rparr>)) (evict (fst x) db)"
        by (simp add: with_pins_slots)
      moreover have "evict_one (pinned_ids now m @ admitted) m = (True, m\<lparr>ms_slots := dict_pop (fst x) (ms_slots m)\<rparr>)"
        using Some by (simp add: evict_one_def pinned_ids_fresh [OF fresh dok] split: prod.split)
      ultimately show ?thesis
        using False below first no_ties_pop [OF ties] by (auto simp: make_room_def)
    qed
  qed
qed

lemma publish_step_agrees:
  assumes mid: "publish_mid cfg op now st st'" and al: "aligned now"
  shows "publish_mid cfg op now (publish_one now slot st)
    (publish_candidate op (to_ms now) (rc_pin_ms cfg) (rc_capacity cfg) slot st')"
proof -
  obtain admitted result m where st: "st = (admitted, result, m)" by (metis prod_cases3)
  obtain result' db where st': "st' = (result', db)" by fastforce
  let ?k = "slot_id slot" and ?until = "now + ms_pin m"
  from mid have same: "result' = result" and sim: "mock_sim cfg (with_pins op ?until admitted m) db"
    and dok: "dict_ok (ms_pins m)" and fresh: "pins_fresh now m" and ties: "no_ties (dict_keys (ms_pins m) @ admitted) m"
    by (simp_all add: publish_mid_def st st')
  note d = mock_simD [OF sim]
  have until: "aligned ?until" "to_ms now + rc_pin_ms cfg = to_ms ?until"
    using aligned_compare(4,6) [OF al, of "ms_pin m"] d(1,3) by (simp_all add: same_config_def aligned_store_def)
  have skip: "(case dict_get (rm_booked db) ?k of None \<Rightarrow> False | Some (_, protected) \<Rightarrow> to_ms now < protected) =
      protects now (dict_get (ms_tombstones m) ?k)"
    using d(3,9) aligned_compare(1) [OF al] by (auto simp: same_sales_def aligned_store_def protects_def split: option.split)
  have slots: "dict_get (rm_slots db) ?k = map_option se_slot (dict_get (ms_slots m) ?k)" using d(7) by (simp add: same_slots_def)
  show ?thesis
  proof (cases "protects now (dict_get (ms_tombstones m) ?k)")
    case True
    with mid skip show ?thesis by (simp add: publish_one_def publish_candidate_def st st' Let_def)
  next
    case free: False
    show ?thesis
    proof (cases "dict_get (ms_slots m) ?k")
      case (Some en)
      then have stored: "dict_get (rm_slots db) ?k = Some (se_slot en)" by (simp add: slots)
      have keep: "dict_set ?k (se_slot en) (rm_slots db) = rm_slots db" by (rule update_triv [OF stored])
      have touch: "en\<lparr>last_touch := now\<rparr> = \<lparr>se_slot = se_slot en, last_touch = now\<rparr>" by simp
      from admit_agrees [OF sim al until(1), where k = ?k and s = "se_slot en" and op = op]
      have "mock_sim cfg (with_pins op ?until (admitted @ [?k]) (m\<lparr>ms_slots := dict_set ?k (en\<lparr>last_touch := now\<rparr>) (ms_slots m)\<rparr>))
          (pin_slot op (to_ms ?until) ?k (db\<lparr>rm_all := dict_set ?k (to_ms now) (rm_all db)\<rparr>))"
        unfolding with_pins_admit touch by (simp add: keep)
      moreover have "publish_one now slot st = (admitted @ [?k], result @ [se_slot en],
          m\<lparr>ms_slots := dict_set ?k (en\<lparr>last_touch := now\<rparr>) (ms_slots m)\<rparr>)"
        using free Some by (simp add: publish_one_def st Let_def)
      moreover have "publish_candidate op (to_ms now) (rc_pin_ms cfg) (rc_capacity cfg) slot st' =
          (result @ [se_slot en], pin_slot op (to_ms ?until) ?k (db\<lparr>rm_all := dict_set ?k (to_ms now) (rm_all db)\<rparr>))"
        using free stored by (simp add: publish_candidate_def st' Let_def skip same until(2))
      moreover have "no_ties ((dict_keys (ms_pins m) @ admitted) @ [?k]) (m\<lparr>ms_slots := dict_set ?k (en\<lparr>last_touch := now\<rparr>) (ms_slots m)\<rparr>)"
        by (rule no_ties_admit [OF ties])
      ultimately show ?thesis using dok fresh by (simp add: publish_mid_def pins_fresh_def)
    next
      case gone: None
      from room_agrees [OF sim dok fresh ties] obtain room m1 db1 x where
        room: "(if int (length (ms_slots m)) < ms_capacity m then (True, m) else evict_one (pinned_ids now m @ admitted) m) = (room, m1)"
          "make_room (rc_capacity cfg) db = (room, db1)"
        and sim1: "mock_sim cfg (with_pins op ?until admitted m1) db1" and m1: "m1 = m\<lparr>ms_slots := x\<rparr>"
        and ties1: "no_ties (dict_keys (ms_pins m) @ admitted) m1" by blast
      have one: "publish_one now slot st = (if \<not> room then (admitted, result, m1)
          else (admitted @ [?k], result @ [slot], m1\<lparr>ms_slots := dict_set ?k \<lparr>se_slot = slot, last_touch = now\<rparr> (ms_slots m1)\<rparr>))"
        using free gone by (simp add: publish_one_def st Let_def room(1))
      have two: "publish_candidate op (to_ms now) (rc_pin_ms cfg) (rc_capacity cfg) slot st' = (if \<not> room then (result, db1)
          else (result @ [slot], pin_slot op (to_ms ?until) ?k
            (db1\<lparr>rm_slots := dict_set ?k slot (rm_slots db1), rm_all := dict_set ?k (to_ms now) (rm_all db1)\<rparr>)))"
        using free gone by (simp add: publish_candidate_def st' Let_def skip slots same until(2) room(2))
      show ?thesis
      proof (cases room)
        case True
        from admit_agrees [OF sim1 al until(1), where k = ?k and s = slot and op = op]
        have "mock_sim cfg (with_pins op ?until (admitted @ [?k])
            (m1\<lparr>ms_slots := dict_set ?k \<lparr>se_slot = slot, last_touch = now\<rparr> (ms_slots m1)\<rparr>))
            (pin_slot op (to_ms ?until) ?k (db1\<lparr>rm_slots := dict_set ?k slot (rm_slots db1), rm_all := dict_set ?k (to_ms now) (rm_all db1)\<rparr>))"
          unfolding with_pins_admit by simp
        moreover have "no_ties ((dict_keys (ms_pins m) @ admitted) @ [?k])
            (m1\<lparr>ms_slots := dict_set ?k \<lparr>se_slot = slot, last_touch = now\<rparr> (ms_slots m1)\<rparr>)"
          by (rule no_ties_admit [OF ties1])
        ultimately show ?thesis using True dok fresh by (simp add: one two publish_mid_def pins_fresh_def m1)
      next
        case False
        with sim1 ties1 dok fresh show ?thesis by (simp add: one two publish_mid_def pins_fresh_def m1)
      qed
    qed
  qed
qed

lemma publish_agrees:
  assumes sim: "mock_sim cfg m db" and al: "aligned now"
    and ties: "no_ties (dict_keys (ms_pins (expire_pins now m))) m"
    and run: "publish_and_filter candidates op now m = (slots, m')"
  shows "\<exists>db'. redis_publish cfg candidates op now db = (slots, db') \<and> mock_sim cfg m' db'"
proof -
  have fold: "publish_mid cfg op now (fold (publish_one now) candidates st)
      (fold (publish_candidate op (to_ms now) (rc_pin_ms cfg) (rc_capacity cfg)) candidates st')"
    if "publish_mid cfg op now st st'" for st st'
    using that
  proof (induction candidates arbitrary: st st')
    case (Cons c cs)
    from Cons.IH [OF publish_step_agrees [OF Cons.prems al]] show ?case by simp
  qed simp
  have start: "publish_mid cfg op now ([], [], expire_pins now m) ([], reconcile_pins (to_ms now) db)"
  proof -
    have "dict_ok (ms_pins (expire_pins now m))"
      using mock_simD(2) [OF sim] by (simp add: mock_dicts_ok_def expire_pins_def dict_ok_filter)
    moreover have "pins_fresh now (expire_pins now m)"
      using mock_simD(2) [OF sim] by (auto simp: pins_fresh_def expire_pins_def mock_dicts_ok_def dict_get_filter split: option.splits if_splits)
    moreover have "with_pins op (now + ms_pin (expire_pins now m)) [] (expire_pins now m) = expire_pins now m"
      by (simp add: with_pins_def)
    moreover have "no_ties (dict_keys (ms_pins (expire_pins now m))) (expire_pins now m)"
    proof -
      have "no_ties prot (expire_pins now m) = no_ties prot m" for prot by (simp add: expire_pins_def)
      with ties show ?thesis by (simp only:)
    qed
    ultimately show ?thesis using expire_agrees [OF sim al] by (simp add: publish_mid_def)
  qed
  obtain admitted result m1 where f: "fold (publish_one now) candidates ([], [], expire_pins now m) = (admitted, result, m1)"
    by (metis prod_cases3)
  obtain result' db1 where g: "redis_publish cfg candidates op now db = (result', db1)" by fastforce
  then have "fold (publish_candidate op (to_ms now) (rc_pin_ms cfg) (rc_capacity cfg)) candidates ([], reconcile_pins (to_ms now) db) = (result', db1)"
    by (simp add: redis_publish_def publish_script_def)
  with fold [OF start] f have "result' = result" "mock_sim cfg (with_pins op (now + ms_pin m1) admitted m1) db1"
    by (simp_all add: publish_mid_def)
  moreover have "slots = result" "m' = with_pins op (now + ms_pin m1) admitted m1"
    using run f by (simp_all add: publish_and_filter_def Let_def with_pins_def)
  ultimately show ?thesis using g by simp
qed

section \<open>Cleaning\<close>

lemma fold_dict_pop_filter: "fold dict_pop ks d = filter (\<lambda>x. fst x \<notin> set ks) d"
proof (induction ks arbitrary: d)
  case (Cons k ks)
  have "dict_pop k d = filter (\<lambda>x. fst x \<noteq> k) d" by (auto simp: AList.delete_eq intro: filter_cong)
  with Cons show ?case by (auto simp: filter_filter intro: filter_cong)
qed simp

lemma zrange_distinct: "dict_ok z \<Longrightarrow> distinct (zrange_to cutoff z)"
  unfolding zrange_to_def by (auto simp: distinct_map intro: inj_on_subset)

text \<open>Two batches of the same members are the same removal, if neither is cut short.\<close>

lemma batch_agrees:
  assumes "distinct xs" and "distinct ys" and "set xs = set ys" and "int (length xs) \<le> batch"
  shows "fold dict_pop (py_take batch xs) d = fold dict_pop (limit_to batch ys) d" and "length (py_take batch xs) = length (limit_to batch ys)"
    and "limit_to batch ys = ys"
proof -
  have len: "length xs = length ys" using assms(1-3) distinct_card by metis
  then have "py_take batch xs = xs" "limit_to batch ys = ys" using assms(4) by (auto simp: py_take_def limit_to_def)
  with len assms(3) show "fold dict_pop (py_take batch xs) d = fold dict_pop (limit_to batch ys) d"
    "length (py_take batch xs) = length (limit_to batch ys)" "limit_to batch ys = ys"
    by (simp_all add: fold_dict_pop_filter)
qed

lemma fold_evict_agrees:
  assumes "mock_sim cfg m db" and "\<And>k. k \<in> set ks \<Longrightarrow> dict_get (rm_pin db) k = None"
  shows "mock_sim cfg (m\<lparr>ms_slots := fold dict_pop ks (ms_slots m)\<rparr>) (fold evict ks db)"
  using assms
proof (induction ks arbitrary: m db)
  case (Cons k ks)
  have "mock_sim cfg (m\<lparr>ms_slots := dict_pop k (ms_slots m)\<rparr>) (evict k db)"
    using Cons.prems by (intro evict_agrees) simp_all
  from Cons.IH [OF this] Cons.prems(2) show ?case by simp
qed simp

lemma forget_bookings_agree:
  assumes "mock_sim cfg m db"
  shows "mock_sim cfg (m\<lparr>ms_bookings := fold dict_pop ks (ms_bookings m)\<rparr>) (fold forget_booking ks db)" (is "mock_sim cfg ?m ?db")
proof -
  note d = mock_simD [OF assms]
  have "mock_index_ok ?db" using mock_index_ok_records [of ?db db] d(4) by (simp add: fold_forget_booking)
  moreover have "records_ok ?db" using d(5) by (simp add: records_ok_def fold_forget_booking dict_ok_fold_pop)
  moreover have "pinop_ok ?db" "same_slots ?m ?db" "same_pins ?m ?db" "same_sales ?m ?db"
    using d(6-9) by (simp_all add: pinop_ok_def same_slots_def same_pins_def same_sales_def fold_forget_booking fold_dict_pop)
  moreover have "same_config ?m cfg" "mock_dicts_ok ?m" "aligned_store ?m"
    using d(1-3) by (auto simp: same_config_def mock_dicts_ok_def aligned_store_def dict_ok_fold_pop fold_dict_pop split: if_splits)
  ultimately show ?thesis unfolding mock_sim_def by blast
qed

lemma forget_tombstones_agree:
  assumes "mock_sim cfg m db"
  shows "mock_sim cfg (m\<lparr>ms_tombstones := fold dict_pop ks (ms_tombstones m)\<rparr>) (fold forget_tombstone ks db)" (is "mock_sim cfg ?m ?db")
proof -
  note d = mock_simD [OF assms]
  have "mock_index_ok ?db" using mock_index_ok_records [of ?db db] d(4) by (simp add: fold_forget_tombstone)
  moreover have "records_ok ?db"
    using d(5) by (auto simp: records_ok_def fold_forget_tombstone dict_ok_fold_pop fold_dict_pop split: if_splits)
  moreover have "pinop_ok ?db" "same_slots ?m ?db" "same_pins ?m ?db" "same_sales ?m ?db"
    using d(6-9) by (simp_all add: pinop_ok_def same_slots_def same_pins_def same_sales_def fold_forget_tombstone fold_dict_pop)
  moreover have "same_config ?m cfg" "mock_dicts_ok ?m" "aligned_store ?m"
    using d(1-3) by (auto simp: same_config_def mock_dicts_ok_def aligned_store_def dict_ok_fold_pop fold_dict_pop split: if_splits)
  ultimately show ?thesis unfolding mock_sim_def by blast
qed

definition covers :: "int \<Rightarrow> mock_store \<Rightarrow> bool" where
  "covers batch m \<longleftrightarrow> int (length (ms_slots m)) \<le> batch \<and> int (length (ms_bookings m)) \<le> batch \<and> int (length (ms_tombstones m)) \<le> batch"

lemma keys_filter: "dict_ok d \<Longrightarrow> k \<in> set (map fst (filter P d)) \<longleftrightarrow> (\<exists>x. dict_get d k = Some x \<and> P (k, x))"
proof -
  assume ok: "dict_ok d"
  have "k \<in> set (map fst (filter P d)) \<longleftrightarrow> (\<exists>x. (k, x) \<in> set d \<and> P (k, x))" by force
  then show ?thesis unfolding dict_get_in_set [OF ok] .
qed

lemma filtered_length: "int (length d) \<le> batch \<Longrightarrow> int (length (map fst (filter P d))) \<le> batch"
  using length_filter_le [of P d] by (simp, linarith)

lemma cleanup_agrees:
  assumes sim0: "mock_sim cfg m0 db0" and al: "aligned now" and cover: "covers batch m0"
    and run: "mock_cleanup now batch m0 = (counts, m')"
  shows "\<exists>db'. redis_cleanup cfg now batch db0 = (counts, db') \<and> mock_sim cfg m' db'"
proof -
  define m where "m = expire_pins now m0"
  define db where "db = reconcile_pins (to_ms now) db0"
  have sim: "mock_sim cfg m db" unfolding m_def db_def by (rule expire_agrees [OF sim0 al])
  note d = mock_simD [OF sim]
  have cov: "int (length (ms_slots m)) \<le> batch" "int (length (ms_bookings m)) \<le> batch" "int (length (ms_tombstones m)) \<le> batch"
    using cover by (simp_all add: covers_def m_def expire_pins_def)
  have dok: "dict_ok (ms_slots m)" "dict_ok (ms_bookings m)" "dict_ok (ms_tombstones m)" "dict_ok (ms_pins m)"
    "dict_ok (rm_lru db)" "dict_ok (rm_bookexp db)" "dict_ok (rm_tombexp db)"
    using d(2,4,5) by (simp_all add: mock_dicts_ok_def mock_index_ok_def records_ok_def)
  have fresh: "pins_fresh now m"
    using mock_simD(2) [OF sim0] by (auto simp: m_def pins_fresh_def expire_pins_def mock_dicts_ok_def dict_get_filter split: option.splits if_splits)
  define idle where "idle = map fst (filter (\<lambda>(k, en). k \<notin> set (pinned_ids now m) \<and> last_touch en + ms_idle_ttl m \<le> now) (ms_slots m))"
  define ridle where "ridle = zrange_to (to_ms now - rc_idle_ttl_ms cfg) (rm_lru db)"
  define keys where "keys = map fst (filter (\<lambda>(_, b). mb_protected_until b \<le> now) (ms_bookings m))"
  define tombs where "tombs = map fst (filter (\<lambda>(_, t). tb_protected_until t \<le> now) (ms_tombstones m))"
  have pinned: "k \<in> set (pinned_ids now m) \<longleftrightarrow> dict_get (rm_pin db) k \<noteq> None" for k
    using d(8) dict_keys_dom [of k "ms_pins m"] by (simp add: pinned_ids_fresh [OF fresh dok(4)] same_pins_def)
  have cell: "mock_cell_ok (dict_get (rm_slots db) k) (dict_get (rm_all db) k) (dict_get (rm_pin db) k)
      (dict_get (rm_pinowner db) k) (dict_get (rm_lru db) k)" for k
    using d(4) by (simp add: mock_index_ok_def mock_cell_def)
  have lru: "dict_get (rm_lru db) k =
      (if k \<in> set (pinned_ids now m) then None else map_option (\<lambda>en. to_ms (last_touch en)) (dict_get (ms_slots m) k))" for k
    using cell [of k] pinned [of k] d(7) by (auto simp: mock_cell_ok_def same_slots_def)
  have late: "to_ms (last_touch en) \<le> to_ms now - rc_idle_ttl_ms cfg \<longleftrightarrow> last_touch en + ms_idle_ttl m \<le> now"
    if "dict_get (ms_slots m) k = Some en" for k en
  proof -
    have a: "aligned (last_touch en)" "aligned (ms_idle_ttl m)" using d(3) that unfolding aligned_store_def by blast+
    from aligned_compare(2) [OF a(1) aligned_compare(7) [OF al a(2)]] aligned_compare(5) [OF al a(2)] d(1)
    show ?thesis by (auto simp: same_config_def)
  qed
  have same_idle: "set idle = set ridle"
  proof (rule set_eqI)
    fix k
    have "k \<in> set ridle \<longleftrightarrow> (\<exists>s. dict_get (rm_lru db) k = Some s \<and> s \<le> to_ms now - rc_idle_ttl_ms cfg)"
      unfolding ridle_def by (rule in_zrange [OF dok(5)])
    moreover have "k \<in> set idle \<longleftrightarrow> (\<exists>en. dict_get (ms_slots m) k = Some en \<and> k \<notin> set (pinned_ids now m) \<and> last_touch en + ms_idle_ttl m \<le> now)"
      unfolding idle_def by (subst keys_filter [OF dok(1)]) simp
    ultimately show "k \<in> set idle \<longleftrightarrow> k \<in> set ridle" using lru [of k] late [of k] by auto
  qed
  have dist_idle: "distinct idle" "distinct ridle"
    unfolding idle_def ridle_def by (rule distinct_map_filter [OF dok(1)], rule zrange_distinct [OF dok(5)])
  have few_idle: "int (length idle) \<le> batch" unfolding idle_def by (rule filtered_length [OF cov(1)])
  note idle = batch_agrees [OF dist_idle same_idle few_idle]
  have evictable: "dict_get (rm_pin db) k = None" if "k \<in> set (limit_to batch ridle)" for k
  proof -
    have "k \<in> set (zrange_to (to_ms now - rc_idle_ttl_ms cfg) (rm_lru db))" using in_limit_to [OF that] by (simp add: ridle_def)
    then have "dict_get (rm_lru db) k \<noteq> None" using in_zrange [OF dok(5)] by blast
    from lru_unpinned [OF d(4) this] show ?thesis by blast
  qed
  define db1 where "db1 = fold evict (limit_to batch ridle) db"
  have sim1: "mock_sim cfg (m\<lparr>ms_slots := fold dict_pop (py_take batch idle) (ms_slots m)\<rparr>) db1"
    unfolding db1_def idle(1) [where d = "ms_slots m"] by (rule fold_evict_agrees [OF sim evictable])
  have exp1: "rm_bookexp db1 = rm_bookexp db" "rm_tombexp db1 = rm_tombexp db"
    using fold_evict(4) [OF d(4) evictable, where sids = "limit_to batch ridle" and db' = db] by (simp_all add: db1_def same_records_def)
  define rkeys where "rkeys = zrange_to (to_ms now) (rm_bookexp db)"
  define rtombs where "rtombs = zrange_to (to_ms now) (rm_tombexp db)"
  have le: "dict_get (ms_bookings m) k = Some b \<Longrightarrow> (to_ms (mb_protected_until b) \<le> to_ms now) = (mb_protected_until b \<le> now)"
    "dict_get (ms_tombstones m) k = Some t \<Longrightarrow> (to_ms (tb_protected_until t) \<le> to_ms now) = (tb_protected_until t \<le> now)" for k b t
    using d(3) aligned_compare(2) [OF _ al] unfolding aligned_store_def by blast+
  have same_keys: "set keys = set rkeys"
  proof (rule set_eqI)
    fix k
    have "k \<in> set keys \<longleftrightarrow> (\<exists>b. dict_get (ms_bookings m) k = Some b \<and> mb_protected_until b \<le> now)"
      unfolding keys_def by (subst keys_filter [OF dok(2)]) simp
    then show "k \<in> set keys \<longleftrightarrow> k \<in> set rkeys"
      unfolding rkeys_def in_zrange [OF dok(6)] using le(1) [of k] d(9) by (auto simp: same_sales_def)
  qed
  have dist_keys: "distinct keys" "distinct rkeys"
    unfolding keys_def rkeys_def by (rule distinct_map_filter [OF dok(2)], rule zrange_distinct [OF dok(6)])
  have few_keys: "int (length keys) \<le> batch" unfolding keys_def by (rule filtered_length [OF cov(2)])
  note keys = batch_agrees [OF dist_keys same_keys few_keys]
  have same_tombs: "set tombs = set rtombs"
  proof (rule set_eqI)
    fix k
    have "k \<in> set tombs \<longleftrightarrow> (\<exists>t. dict_get (ms_tombstones m) k = Some t \<and> tb_protected_until t \<le> now)"
      unfolding tombs_def by (subst keys_filter [OF dok(3)]) simp
    then show "k \<in> set tombs \<longleftrightarrow> k \<in> set rtombs"
      unfolding rtombs_def in_zrange [OF dok(7)] using le(2) [of k] d(9) by (auto simp: same_sales_def)
  qed
  have dist_tombs: "distinct tombs" "distinct rtombs"
    unfolding tombs_def rtombs_def by (rule distinct_map_filter [OF dok(3)], rule zrange_distinct [OF dok(7)])
  have few_tombs: "int (length tombs) \<le> batch" unfolding tombs_def by (rule filtered_length [OF cov(3)])
  note tombs = batch_agrees [OF dist_tombs same_tombs few_tombs]
  let ?m1 = "m\<lparr>ms_slots := fold dict_pop (py_take batch idle) (ms_slots m)\<rparr>"
  define db2 where "db2 = fold forget_booking (limit_to batch rkeys) db1"
  have "mock_sim cfg (?m1\<lparr>ms_bookings := fold dict_pop (limit_to batch rkeys) (ms_bookings ?m1)\<rparr>) db2"
    unfolding db2_def by (rule forget_bookings_agree [OF sim1])
  from forget_tombstones_agree [OF this, of "limit_to batch rtombs"]
  have sim3: "mock_sim cfg (m\<lparr>ms_slots := fold dict_pop (py_take batch idle) (ms_slots m),
      ms_bookings := fold dict_pop (py_take batch keys) (ms_bookings m),
      ms_tombstones := fold dict_pop (py_take batch tombs) (ms_tombstones m)\<rparr>)
      (fold forget_tombstone (limit_to batch rtombs) db2)"
    using keys(1) [where d = "ms_bookings m"] tombs(1) [where d = "ms_tombstones m"] by simp
  have "rm_tombexp db2 = rm_tombexp db" using exp1 by (simp add: db2_def fold_forget_booking)
  then have "redis_cleanup cfg now batch db0 =
      (\<lparr>idle_slots = int (length (limit_to batch ridle)), expired_records = int (length (limit_to batch rkeys))\<rparr>,
       fold forget_tombstone (limit_to batch rtombs) db2)"
    unfolding redis_cleanup_def mock_cleanup_script_def Let_def db_def [symmetric] ridle_def [symmetric] db1_def [symmetric] exp1
      rkeys_def [symmetric] db2_def [symmetric] by (simp add: rtombs_def)
  moreover have "mock_cleanup now batch m0 =
      (\<lparr>idle_slots = int (length (py_take batch idle)), expired_records = int (length (py_take batch keys))\<rparr>,
       m\<lparr>ms_slots := fold dict_pop (py_take batch idle) (ms_slots m),
         ms_bookings := fold dict_pop (py_take batch keys) (ms_bookings m),
         ms_tombstones := fold dict_pop (py_take batch tombs) (ms_tombstones m)\<rparr>)"
    unfolding mock_cleanup_def Let_def m_def [symmetric] idle_def keys_def tombs_def by simp
  ultimately show ?thesis using run sim3 idle(2) keys(2) by auto
qed

section \<open>Histories\<close>

text \<open>The calls a client makes of either store, and what it sees of each.\<close>

datatype mock_call =
    Search "availability_slot list" string time
  | Release string
  | Book string string "availability_slot \<Rightarrow> booking_confirmation" time
  | Reconcile string time
  | Clean time int

datatype mock_answer =
    Offered "availability_slot list"
  | Released
  | Sold "mock_failure + booking_confirmation"
  | Reconciled "mock_failure + reconciliation_result"
  | Cleaned cleanup_counts

fun call_memory :: "mock_call \<Rightarrow> mock_store \<Rightarrow> mock_answer \<times> mock_store" where
  "call_memory (Search candidates op now) m = map_prod Offered id (publish_and_filter candidates op now m)"
| "call_memory (Release op) m = (Released, release_operation op m)"
| "call_memory (Book sid key factory now) m = map_prod (\<lambda>res. Sold (as_failure res)) id (mock_book sid key factory now m)"
| "call_memory (Reconcile key now) m = (Reconciled (Inr (mock_reconcile key now m)), m)"
| "call_memory (Clean now batch) m = map_prod Cleaned id (mock_cleanup now batch m)"

fun call_redis :: "redis_mock_config \<Rightarrow> mock_call \<Rightarrow> redis_mock \<Rightarrow> mock_answer \<times> redis_mock" where
  "call_redis cfg (Search candidates op now) db = map_prod Offered id (redis_publish cfg candidates op now db)"
| "call_redis cfg (Release op) db = (Released, redis_release_operation op db)"
| "call_redis cfg (Book sid key factory now) db = map_prod Sold id (redis_book_slot cfg id sid key factory now db)"
| "call_redis cfg (Reconcile key now) db = (Reconciled (redis_reconcile_booking key now (\<lambda>_. db)), db)"
| "call_redis cfg (Clean now batch) db = map_prod Cleaned id (redis_cleanup cfg now batch db)"

text \<open>When the answers cannot depend on the order of simultaneous touches or on the resolution of the clock.\<close>

fun determined :: "mock_call \<Rightarrow> mock_store \<Rightarrow> bool" where
  "determined (Search _ _ now) m \<longleftrightarrow> aligned now \<and> no_ties (dict_keys (ms_pins (expire_pins now m))) m"
| "determined (Release _) m \<longleftrightarrow> True"
| "determined (Book _ _ _ now) m \<longleftrightarrow> aligned now"
| "determined (Reconcile _ now) m \<longleftrightarrow> aligned now"
| "determined (Clean now batch) m \<longleftrightarrow> aligned now \<and> covers batch m"

fun answers :: "('c \<Rightarrow> 's \<Rightarrow> 'a \<times> 's) \<Rightarrow> 'c list \<Rightarrow> 's \<Rightarrow> 'a list \<times> 's" where
  "answers call [] s = ([], s)"
| "answers call (c # cs) s = (let (a, s') = call c s; (rest, s'') = answers call cs s' in (a # rest, s''))"

fun all_determined :: "mock_call list \<Rightarrow> mock_store \<Rightarrow> bool" where
  "all_determined [] m \<longleftrightarrow> True"
| "all_determined (c # cs) m \<longleftrightarrow> determined c m \<and> all_determined cs (snd (call_memory c m))"

lemma call_agrees:
  assumes sim: "mock_sim cfg m db" and ok: "determined c m" and run: "call_memory c m = (a, m')"
  shows "\<exists>db'. call_redis cfg c db = (a, db') \<and> mock_sim cfg m' db'"
proof (cases c)
  case (Search candidates op now)
  obtain slots m1 where p: "publish_and_filter candidates op now m = (slots, m1)" by fastforce
  from publish_agrees [OF sim _ _ this] ok Search run p show ?thesis by auto
next
  case (Release op)
  then show ?thesis using release_agrees [OF sim, of op] run by auto
next
  case (Book sid key factory now)
  obtain res m1 where p: "mock_book sid key factory now m = (res, m1)" by fastforce
  from book_agrees [OF sim _ this] ok Book run p show ?thesis by auto
next
  case (Reconcile key now)
  then show ?thesis using booking_agrees(2) [OF sim, of now key] sim ok run by auto
next
  case (Clean now batch)
  obtain counts m1 where p: "mock_cleanup now batch m = (counts, m1)" by fastforce
  from cleanup_agrees [OF sim _ _ this] ok Clean run p show ?thesis by auto
qed

text \<open>
  C14. Whatever searches, releases, bookings, reconciliations and cleanups a client makes, the Redis store
  answers them as the in-memory store does, when the stores correspond at the start, instants are whole
  milliseconds, no two evictable slots were touched at one instant when a search runs and no cleanup's
  batch cuts short what it has to remove; and the two stores correspond again at the end.
\<close>

theorem redis_mock_refines_memory:
  assumes "mock_sim cfg m db" and "all_determined calls m"
  shows "fst (answers (call_redis cfg) calls db) = fst (answers call_memory calls m) \<and>
    mock_sim cfg (snd (answers call_memory calls m)) (snd (answers (call_redis cfg) calls db))"
  using assms
proof (induction calls arbitrary: m db)
  case (Cons c cs)
  obtain a m' where run: "call_memory c m = (a, m')" by fastforce
  from call_agrees [OF Cons.prems(1) _ run] Cons.prems(2) obtain db' where r: "call_redis cfg c db = (a, db')" "mock_sim cfg m' db'"
    by auto
  from Cons.IH [OF r(2)] Cons.prems(2) run r(1) show ?case by (simp add: case_prod_beta)
qed simp

lemma empty_stores_correspond: "mock_sim demo_redis_config demo_memory empty_redis_mock"
  using mock_index_ok_empty
  by (simp add: mock_sim_def same_config_def mock_dicts_ok_def aligned_store_def pinop_ok_def same_slots_def same_pins_def
      same_sales_def demo_memory_def demo_redis_config_def empty_redis_mock_def aligned_def to_ms_def)

theorem redis_mock_refines_memory_witness:
  "fst (answers (call_redis demo_redis_config)
      [Search [demo_offer ''a''] ''op1'' 0, Book ''a'' ''watch:w1'' (confirmation_factory demo_uuid ''watch:w1'' 1000) 1000,
       Release ''op1'', Search [demo_offer ''a'', demo_offer ''b''] ''op2'' 2000, Reconcile ''watch:w1'' 3000, Clean 4000 10] empty_redis_mock) =
   fst (answers call_memory
      [Search [demo_offer ''a''] ''op1'' 0, Book ''a'' ''watch:w1'' (confirmation_factory demo_uuid ''watch:w1'' 1000) 1000,
       Release ''op1'', Search [demo_offer ''a'', demo_offer ''b''] ''op2'' 2000, Reconcile ''watch:w1'' 3000, Clean 4000 10] demo_memory)"
proof -
  have few: "no_ties prot m" if "length (ms_slots m) \<le> 1" for prot m
    using that by (cases "ms_slots m") (auto simp: no_ties_def)
  let ?calls = "[Search [demo_offer ''a''] ''op1'' 0, Book ''a'' ''watch:w1'' (confirmation_factory demo_uuid ''watch:w1'' 1000) 1000,
       Release ''op1'', Search [demo_offer ''a'', demo_offer ''b''] ''op2'' 2000, Reconcile ''watch:w1'' 3000, Clean 4000 10]"
  let ?m = "\<lambda>n. snd (answers call_memory (take n ?calls) demo_memory)"
  have "length (ms_slots (?m 0)) \<le> 1" "length (ms_slots (?m 3)) \<le> 1" "covers 10 (?m 5)" by code_simp+
  with few have "all_determined ?calls demo_memory" by (simp add: aligned_def case_prod_beta)
  from redis_mock_refines_memory [OF empty_stores_correspond this] show ?thesis by blast
qed

end
