(* ===== verification/Migrations.thy ===== *)
theory Migrations
  imports Text_Utils
begin

text \<open>
  Schema migrations, \<^verbatim>\<open>backend/db/postgres.py\<close>: which files are migrations and in what order, and the runner
  that applies the pending ones in one transaction under an advisory lock. What a statement does to the
  tables is an argument, \<open>exec\<close>; a statement that raises is \<open>None\<close>. The bookkeeping table
  \<^verbatim>\<open>schema_migrations\<close> is touched by the runner only. Several replicas start at once: \<open>runner_step\<close>
  interleaves their statements as the database does, each transaction on its own copy.
\<close>

section \<open>Discovery\<close>

record migration =
  mg_version :: string
  mg_sql :: string

record dir_entry =
  de_name :: string
  de_is_file :: bool
  de_text :: string

text \<open>\<^verbatim>\<open>Path.suffix\<close> and \<^verbatim>\<open>Path.stem\<close>: a dot that is neither the first nor the last character.\<close>

definition last_dot :: "string \<Rightarrow> nat option" where
  "last_dot name =
     (let ext = takeWhile (\<lambda>c. c \<noteq> CHR ''.'') (List.rev name); n = length name - Suc (length ext)
      in if length ext < length name \<and> ext \<noteq> [] \<and> 0 < n then Some n else None)"

definition path_suffix :: "string \<Rightarrow> string" where
  "path_suffix name = (case last_dot name of None \<Rightarrow> '''' | Some n \<Rightarrow> drop n name)"

definition path_stem :: "string \<Rightarrow> string" where
  "path_stem name = (case last_dot name of None \<Rightarrow> name | Some n \<Rightarrow> take n name)"

definition discover_migrations :: "dir_entry list option \<Rightarrow> migration list" where
  "discover_migrations dir =
     (case dir of
        None \<Rightarrow> []
      | Some entries \<Rightarrow>
          map (\<lambda>f. \<lparr>mg_version = path_stem (de_name f), mg_sql = de_text f\<rparr>)
            (filter (\<lambda>f. de_is_file f \<and> path_suffix (de_name f) = ''.sql'') (sort_key de_name entries)))"

section \<open>One run\<close>

record 'd sql_db =
  sm_table :: bool
  sm_versions :: "string list"
  sm_data :: 'd

text \<open>The version is a primary key: a second row of it raises.\<close>

definition apply_migration :: "(string \<Rightarrow> 'd \<Rightarrow> 'd option) \<Rightarrow> migration \<Rightarrow> 'd sql_db \<Rightarrow> 'd sql_db option" where
  "apply_migration exec m db =
     (case exec (mg_sql m) (sm_data db) of
        None \<Rightarrow> None
      | Some d \<Rightarrow> if mg_version m \<in> set (sm_versions db) then None
                  else Some (db\<lparr>sm_data := d, sm_versions := sm_versions db @ [mg_version m]\<rparr>))"

fun apply_pending ::
  "(string \<Rightarrow> 'd \<Rightarrow> 'd option) \<Rightarrow> string list \<Rightarrow> migration list \<Rightarrow> string list \<Rightarrow> 'd sql_db \<Rightarrow>
   (string list \<times> 'd sql_db) option" where
  "apply_pending exec already [] applied db = Some (applied, db)"
| "apply_pending exec already (m # ms) applied db =
     (if mg_version m \<in> set already then apply_pending exec already ms applied db
      else (case apply_migration exec m db of
              None \<Rightarrow> None
            | Some db' \<Rightarrow> apply_pending exec already ms (applied @ [mg_version m]) db'))"

definition ensure_table :: "'d sql_db \<Rightarrow> 'd sql_db" where
  "ensure_table db = db\<lparr>sm_table := True\<rparr>"

text \<open>\<^verbatim>\<open>MigrationRunner.run\<close>: the versions it applied, or a raised error and a transaction rolled back.\<close>

definition migration_run ::
  "(string \<Rightarrow> 'd \<Rightarrow> 'd option) \<Rightarrow> migration list \<Rightarrow> 'd sql_db \<Rightarrow> string list option \<times> 'd sql_db" where
  "migration_run exec ms db =
     (let db1 = ensure_table db in
      case apply_pending exec (sm_versions db1) ms [] db1 of
        None \<Rightarrow> (None, db)
      | Some (applied, db') \<Rightarrow> (Some applied, db'))"

section \<open>Replicas\<close>

text \<open>A replica is between runs, inside its transaction, or done with the result of its last run.\<close>

datatype 'd runner =
  Idle
| Migrating "string list" "migration list" "string list" "'d sql_db"
| Reported "string list option"

record 'd cluster =
  cl_db :: "'d sql_db"
  cl_lock :: "nat option"
  cl_runners :: "nat \<Rightarrow> 'd runner"

definition runner_at :: "nat \<Rightarrow> 'd runner \<Rightarrow> 'd cluster \<Rightarrow> 'd cluster" where
  "runner_at r x c = c\<lparr>cl_runners := (cl_runners c)(r := x)\<rparr>"

text \<open>
  The lock is granted to one transaction and held until it ends; a statement acts on the transaction's
  copy; a statement that raises, a crash or a lost connection ends it without effect. Each replica has
  the files of its own release.
\<close>

inductive runner_step ::
  "(string \<Rightarrow> 'd \<Rightarrow> 'd option) \<Rightarrow> (nat \<Rightarrow> migration list) \<Rightarrow> 'd cluster \<Rightarrow> 'd cluster \<Rightarrow> bool" for exec files where
  rs_lock: "cl_lock c = None \<Longrightarrow> cl_runners c r = Idle \<Longrightarrow>
    runner_step exec files c
      ((runner_at r (Migrating (sm_versions (cl_db c)) (files r) [] (ensure_table (cl_db c))) c)\<lparr>cl_lock := Some r\<rparr>)"
| rs_skip: "cl_runners c r = Migrating already (m # ms) applied db \<Longrightarrow> mg_version m \<in> set already \<Longrightarrow>
    runner_step exec files c (runner_at r (Migrating already ms applied db) c)"
| rs_apply: "cl_runners c r = Migrating already (m # ms) applied db \<Longrightarrow> mg_version m \<notin> set already \<Longrightarrow>
    apply_migration exec m db = Some db' \<Longrightarrow>
    runner_step exec files c (runner_at r (Migrating already ms (applied @ [mg_version m]) db') c)"
| rs_raise: "cl_runners c r = Migrating already (m # ms) applied db \<Longrightarrow> mg_version m \<notin> set already \<Longrightarrow>
    apply_migration exec m db = None \<Longrightarrow>
    runner_step exec files c ((runner_at r (Reported None) c)\<lparr>cl_lock := None\<rparr>)"
| rs_commit: "cl_runners c r = Migrating already [] applied db \<Longrightarrow>
    runner_step exec files c ((runner_at r (Reported (Some applied)) c)\<lparr>cl_lock := None, cl_db := db\<rparr>)"
| rs_crash: "cl_runners c r = Migrating already ms applied db \<Longrightarrow>
    runner_step exec files c ((runner_at r Idle c)\<lparr>cl_lock := None\<rparr>)"
| rs_restart: "cl_runners c r = Reported res \<Longrightarrow> runner_step exec files c (runner_at r Idle c)"

abbreviation runner_steps ::
  "(string \<Rightarrow> 'd \<Rightarrow> 'd option) \<Rightarrow> (nat \<Rightarrow> migration list) \<Rightarrow> 'd cluster \<Rightarrow> 'd cluster \<Rightarrow> bool" where
  "runner_steps exec files \<equiv> (runner_step exec files)\<^sup>*\<^sup>*"

definition fresh_cluster :: "'d sql_db \<Rightarrow> 'd cluster" where
  "fresh_cluster db = \<lparr>cl_db = db, cl_lock = None, cl_runners = (\<lambda>_. Idle)\<rparr>"

section \<open>What a run does\<close>

fun exec_all :: "(string \<Rightarrow> 'd \<Rightarrow> 'd option) \<Rightarrow> migration list \<Rightarrow> 'd \<Rightarrow> 'd option" where
  "exec_all exec [] d = Some d"
| "exec_all exec (m # ms) d = (case exec (mg_sql m) d of None \<Rightarrow> None | Some d' \<Rightarrow> exec_all exec ms d')"

lemma exec_all_append: "exec_all exec (xs @ ys) d = (case exec_all exec xs d of None \<Rightarrow> None | Some d' \<Rightarrow> exec_all exec ys d')"
  by (induction xs arbitrary: d) (simp_all split: option.split)

definition pending :: "string list \<Rightarrow> migration list \<Rightarrow> migration list" where
  "pending already ms = filter (\<lambda>m. mg_version m \<notin> set already) ms"

lemma pending_simps [simp]:
  "pending already [] = []"
  "pending already (m # ms) = (if mg_version m \<in> set already then pending already ms else m # pending already ms)"
  by (simp_all add: pending_def)

lemma apply_migration_Some:
  "apply_migration exec m db = Some db' \<longleftrightarrow>
     (\<exists>d. exec (mg_sql m) (sm_data db) = Some d \<and> mg_version m \<notin> set (sm_versions db) \<and>
       db' = db\<lparr>sm_data := d, sm_versions := sm_versions db @ [mg_version m]\<rparr>)"
  by (auto simp: apply_migration_def split: option.split)

lemma apply_pending_Some:
  assumes "apply_pending exec already ms applied db = Some (res, db')" and "distinct (sm_versions db)"
  shows "res = applied @ map mg_version (pending already ms)"
    and "sm_versions db' = sm_versions db @ map mg_version (pending already ms)" and "distinct (sm_versions db')"
    and "exec_all exec (pending already ms) (sm_data db) = Some (sm_data db')" and "sm_table db' = sm_table db"
proof -
  have "res = applied @ map mg_version (pending already ms) \<and>
      sm_versions db' = sm_versions db @ map mg_version (pending already ms) \<and> distinct (sm_versions db') \<and>
      exec_all exec (pending already ms) (sm_data db) = Some (sm_data db') \<and> sm_table db' = sm_table db"
    using assms
  proof (induction ms arbitrary: applied db)
    case (Cons m ms)
    show ?case
    proof (cases "mg_version m \<in> set already")
      case True
      with Cons.prems(1) have "apply_pending exec already ms applied db = Some (res, db')" by simp
      note * = Cons.IH [OF this Cons.prems(2)]
      have "pending already (m # ms) = pending already ms" using True by simp
      then show ?thesis using * by metis
    next
      case False
      with Cons.prems(1) obtain db1 where one: "apply_migration exec m db = Some db1"
        and rest: "apply_pending exec already ms (applied @ [mg_version m]) db1 = Some (res, db')"
        by (auto split: option.splits)
      from one Cons.prems(2) have "distinct (sm_versions db1)" by (auto simp: apply_migration_Some)
      note * = Cons.IH [OF rest this]
      have "pending already (m # ms) = m # pending already ms" using False by simp
      moreover obtain d where "exec (mg_sql m) (sm_data db) = Some d"
        "db1 = db\<lparr>sm_data := d, sm_versions := sm_versions db @ [mg_version m]\<rparr>"
        using one by (auto simp: apply_migration_Some)
      ultimately show ?thesis using * by (elim conjE) (simp del: distinct_append)
    qed
  qed simp
  then show "res = applied @ map mg_version (pending already ms)"
    "sm_versions db' = sm_versions db @ map mg_version (pending already ms)" "distinct (sm_versions db')"
    "exec_all exec (pending already ms) (sm_data db) = Some (sm_data db')" "sm_table db' = sm_table db" by blast+
qed

lemma migration_run_cases:
  assumes "migration_run exec ms db = (res, db')" and "distinct (sm_versions db)"
  shows "(res = None \<and> db' = db) \<or>
    (res = Some (map mg_version (pending (sm_versions db) ms)) \<and> distinct (sm_versions db') \<and>
     sm_versions db' = sm_versions db @ map mg_version (pending (sm_versions db) ms) \<and> sm_table db' \<and>
     exec_all exec (pending (sm_versions db) ms) (sm_data db) = Some (sm_data db'))"
proof (cases "apply_pending exec (sm_versions db) ms [] (ensure_table db)")
  case None
  with assms(1) show ?thesis by (simp add: migration_run_def ensure_table_def)
next
  case (Some x)
  obtain applied db1 where x: "x = (applied, db1)" by fastforce
  have run: "res = Some applied" "db' = db1"
    using assms(1) Some by (simp_all add: migration_run_def Let_def x) (simp_all add: ensure_table_def)
  have "distinct (sm_versions (ensure_table db))" using assms(2) by (simp add: ensure_table_def)
  from apply_pending_Some [OF Some [unfolded x] this] show ?thesis
    by (simp add: run ensure_table_def)
qed

lemma migration_run_Some:
  assumes "migration_run exec ms db = (Some applied, db')" and "distinct (sm_versions db)"
  shows "distinct (sm_versions db')" and "sm_versions db' = sm_versions db @ map mg_version (pending (sm_versions db) ms)"
    and "exec_all exec (pending (sm_versions db) ms) (sm_data db) = Some (sm_data db')"
proof -
  have "distinct (sm_versions db') \<and> sm_versions db' = sm_versions db @ map mg_version (pending (sm_versions db) ms) \<and>
      exec_all exec (pending (sm_versions db) ms) (sm_data db) = Some (sm_data db')"
    using migration_run_cases [OF assms]
  proof
    assume "Some applied = None \<and> db' = db"
    then show ?thesis by simp
  qed blast
  then show "distinct (sm_versions db')" "sm_versions db' = sm_versions db @ map mg_version (pending (sm_versions db) ms)"
    "exec_all exec (pending (sm_versions db) ms) (sm_data db) = Some (sm_data db')" by blast+
qed

section \<open>Starts in parallel\<close>

text \<open>The transaction that holds the lock goes on to what a run from the committed state gives.\<close>

definition on_course :: "(string \<Rightarrow> 'd \<Rightarrow> 'd option) \<Rightarrow> migration list \<Rightarrow> 'd sql_db \<Rightarrow> 'd runner \<Rightarrow> bool" where
  "on_course exec ms db x \<longleftrightarrow>
     (\<exists>already rest applied w. x = Migrating already rest applied w \<and>
        apply_pending exec already rest applied w = apply_pending exec (sm_versions db) ms [] (ensure_table db))"

fun migrating :: "'d runner \<Rightarrow> bool" where
  "migrating (Migrating _ _ _ _) = True"
| "migrating Idle = False"
| "migrating (Reported _) = False"

definition cluster_ok :: "(string \<Rightarrow> 'd \<Rightarrow> 'd option) \<Rightarrow> (nat \<Rightarrow> migration list) \<Rightarrow> 'd cluster \<Rightarrow> bool" where
  "cluster_ok exec files c \<longleftrightarrow>
     (case cl_lock c of
        None \<Rightarrow> \<forall>r. \<not> migrating (cl_runners c r)
      | Some r \<Rightarrow> on_course exec (files r) (cl_db c) (cl_runners c r) \<and> (\<forall>s. s \<noteq> r \<longrightarrow> \<not> migrating (cl_runners c s)))"

lemma cluster_ok_holder:
  assumes "cluster_ok exec files c" and "cl_runners c r = Migrating already ms applied db"
  shows "cl_lock c = Some r" and "\<And>s. s \<noteq> r \<Longrightarrow> \<not> migrating (cl_runners c s)"
    and "apply_pending exec already ms applied db = apply_pending exec (sm_versions (cl_db c)) (files r) [] (ensure_table (cl_db c))"
proof -
  have "cl_lock c \<noteq> None"
  proof
    assume "cl_lock c = None"
    with assms(1) have "\<not> migrating (cl_runners c r)" by (simp add: cluster_ok_def)
    with assms(2) show False by simp
  qed
  then obtain s where s: "cl_lock c = Some s" by blast
  have "s = r"
  proof (rule ccontr)
    assume "s \<noteq> r"
    with assms s have "\<not> migrating (cl_runners c r)" by (auto simp: cluster_ok_def)
    with assms(2) show False by simp
  qed
  with assms s show "cl_lock c = Some r" "\<And>s. s \<noteq> r \<Longrightarrow> \<not> migrating (cl_runners c s)"
    "apply_pending exec already ms applied db = apply_pending exec (sm_versions (cl_db c)) (files r) [] (ensure_table (cl_db c))"
    by (auto simp: cluster_ok_def on_course_def)
qed

lemma cluster_ok_free:
  assumes "cluster_ok exec files c" and "cl_runners c r = Migrating already ms applied db" and "\<not> migrating x"
  shows "cluster_ok exec files ((runner_at r x c)\<lparr>cl_lock := None\<rparr>)"
    "cluster_ok exec files ((runner_at r x c)\<lparr>cl_lock := None, cl_db := db'\<rparr>)"
  using cluster_ok_holder(2) [OF assms(1,2)] assms(3) by (auto simp: cluster_ok_def runner_at_def)

lemma cluster_ok_on:
  assumes "cluster_ok exec files c" and "cl_runners c r = Migrating already ms applied db"
    and "apply_pending exec already' ms' applied' db' = apply_pending exec already ms applied db"
  shows "cluster_ok exec files (runner_at r (Migrating already' ms' applied' db') c)"
  using cluster_ok_holder [OF assms(1,2)] assms(3) by (auto simp: cluster_ok_def runner_at_def on_course_def)

lemma runner_step_ok: "runner_step exec files c c' \<Longrightarrow> cluster_ok exec files c \<Longrightarrow> cluster_ok exec files c'"
proof (induction rule: runner_step.induct)
  case (rs_lock c r)
  then show ?case by (auto simp: cluster_ok_def runner_at_def on_course_def)
next
  case (rs_restart c r res)
  then show ?case by (auto simp: cluster_ok_def runner_at_def on_course_def split: option.splits)
qed (auto intro: cluster_ok_on cluster_ok_free)

text \<open>Every step leaves the committed state alone or is the commit of a whole run.\<close>

definition reports_kept :: "'d cluster \<Rightarrow> 'd cluster \<Rightarrow> nat set \<Rightarrow> bool" where
  "reports_kept c c' new \<longleftrightarrow>
     (\<forall>r res. cl_runners c' r = Reported (Some res) \<longrightarrow> cl_runners c r = Reported (Some res) \<or> r \<in> new)"

lemma runner_step_commits:
  assumes "runner_step exec files c c'" and "cluster_ok exec files c"
  shows "(cl_db c' = cl_db c \<and> reports_kept c c' {}) \<or>
    (\<exists>r applied. migration_run exec (files r) (cl_db c) = (Some applied, cl_db c') \<and> reports_kept c c' {r})"
  using assms
proof (induction rule: runner_step.induct)
  case (rs_commit c r already applied db)
  from cluster_ok_holder(3) [OF rs_commit(2,1)]
  have "apply_pending exec (sm_versions (cl_db c)) (files r) [] (ensure_table (cl_db c)) = Some (applied, db)" by simp
  then have "migration_run exec (files r) (cl_db c) = (Some applied, db)"
    by (simp add: migration_run_def Let_def) (simp add: ensure_table_def)
  then have "migration_run exec (files r) (cl_db c) = (Some applied, cl_db ((runner_at r (Reported (Some applied)) c)\<lparr>cl_lock := None, cl_db := db\<rparr>)) \<and>
      reports_kept c ((runner_at r (Reported (Some applied)) c)\<lparr>cl_lock := None, cl_db := db\<rparr>) {r}"
    by (simp add: reports_kept_def runner_at_def)
  then show ?case by blast
qed (simp_all add: runner_at_def reports_kept_def)

definition covered_by :: "migration list \<Rightarrow> string list \<Rightarrow> bool" where
  "covered_by ms versions \<longleftrightarrow> mg_version ` set ms \<subseteq> set versions"

lemma covered_pending: "covered_by ms (already @ map mg_version (pending already ms))"
  by (auto simp: covered_by_def pending_def)

lemma covered_mono: "covered_by ms vs \<Longrightarrow> covered_by ms (vs @ ws)"
  by (auto simp: covered_by_def)

text \<open>The migrations committed so far, in order.\<close>

definition logged :: "(string \<Rightarrow> 'd \<Rightarrow> 'd option) \<Rightarrow> (nat \<Rightarrow> migration list) \<Rightarrow> 'd sql_db \<Rightarrow> 'd cluster \<Rightarrow> migration list \<Rightarrow> bool" where
  "logged exec files db0 c hist \<longleftrightarrow>
     sm_versions (cl_db c) = sm_versions db0 @ map mg_version hist \<and> distinct (sm_versions (cl_db c)) \<and>
     exec_all exec hist (sm_data db0) = Some (sm_data (cl_db c)) \<and> set hist \<subseteq> (\<Union>r. set (files r)) \<and>
     (\<forall>r res. cl_runners c r = Reported (Some res) \<longrightarrow> covered_by (files r) (sm_versions (cl_db c))) \<and>
     (\<forall>ms. files = (\<lambda>_. ms) \<and> sm_versions db0 = [] \<longrightarrow> hist = [] \<or> hist = ms)"

lemma run_logged:
  assumes "logged exec files db0 c hist" and "migration_run exec (files r) (cl_db c) = (Some applied, cl_db c')"
    and "reports_kept c c' {r}"
  shows "logged exec files db0 c' (hist @ pending (sm_versions (cl_db c)) (files r))"
proof -
  let ?new = "pending (sm_versions (cl_db c)) (files r)"
  note l = assms(1) [unfolded logged_def]
  from l have "distinct (sm_versions (cl_db c))" by blast
  note run = migration_run_Some [OF assms(2) this]
  have "exec_all exec (hist @ ?new) (sm_data db0) = Some (sm_data (cl_db c'))" using l run(3) by (simp add: exec_all_append)
  moreover have "set ?new \<subseteq> (\<Union>r. set (files r))" by (auto simp: pending_def)
  moreover have "covered_by (files s) (sm_versions (cl_db c'))" if "cl_runners c' s = Reported (Some res)" for s res
  proof (cases "s = r")
    case True
    then show ?thesis unfolding run(2) using covered_pending by simp
  next
    case False
    with assms(3) that have "cl_runners c s = Reported (Some res)" by (auto simp: reports_kept_def)
    with l show ?thesis unfolding run(2) by (intro covered_mono) blast
  qed
  moreover have "hist @ ?new = [] \<or> hist @ ?new = ms" if same: "files = (\<lambda>_. ms)" "sm_versions db0 = []" for ms
  proof -
    have vs: "sm_versions (cl_db c) = map mg_version hist" using l same(2) by simp
    from l same have "hist = [] \<or> hist = ms" by blast
    then show ?thesis
    proof
      assume "hist = []"
      then show ?thesis by (simp add: vs same(1) pending_def)
    next
      assume "hist = ms"
      then have "?new = []" by (simp add: vs same(1) pending_def filter_empty_conv)
      with \<open>hist = ms\<close> show ?thesis by simp
    qed
  qed
  moreover have "set hist \<subseteq> (\<Union>r. set (files r))" "sm_versions (cl_db c) = sm_versions db0 @ map mg_version hist" using l by blast+
  ultimately show ?thesis using run(1,2) unfolding logged_def by auto
qed

lemma step_logged:
  assumes "runner_step exec files c c'" and "cluster_ok exec files c" and "logged exec files db0 c hist"
  shows "\<exists>log'. logged exec files db0 c' log'"
  using runner_step_commits [OF assms(1,2)]
proof (elim disjE exE conjE)
  assume same: "cl_db c' = cl_db c" and "reports_kept c c' {}"
  with assms(3) have "logged exec files db0 c' hist" unfolding logged_def reports_kept_def same by blast
  then show ?thesis ..
next
  fix r applied
  assume "migration_run exec (files r) (cl_db c) = (Some applied, cl_db c')" "reports_kept c c' {r}"
  from run_logged [OF assms(3) this] show ?thesis ..
qed

lemma steps_logged:
  assumes "runner_steps exec files (fresh_cluster db0) c" and "distinct (sm_versions db0)"
  shows "cluster_ok exec files c \<and> (\<exists>hist. logged exec files db0 c hist)"
  using assms(1)
proof (induction rule: rtranclp_induct)
  case base
  have "logged exec files db0 (fresh_cluster db0) []" using assms(2) by (simp add: logged_def fresh_cluster_def)
  then show ?case by (auto simp: cluster_ok_def fresh_cluster_def)
next
  case (step c c')
  then show ?case using runner_step_ok step_logged by blast
qed

text \<open>
  C23. However many replicas start at once, run different releases, fail or crash, the database is always
  the result of whole migration files executed one after another, each version at most once; a replica
  that reports success finds every file of its own applied; and with one release on an empty database
  either none of its files is applied or all of them, in the order of their names.
\<close>

theorem migrations_applied_once:
  assumes "runner_steps exec (\<lambda>r. discover_migrations (dirs r)) (fresh_cluster db0) c" and "distinct (sm_versions db0)"
  shows "\<exists>hist. sm_versions (cl_db c) = sm_versions db0 @ map mg_version hist \<and> distinct (sm_versions (cl_db c)) \<and>
    exec_all exec hist (sm_data db0) = Some (sm_data (cl_db c)) \<and>
    set hist \<subseteq> (\<Union>r. set (discover_migrations (dirs r))) \<and>
    (\<forall>r res. cl_runners c r = Reported (Some res) \<longrightarrow>
       mg_version ` set (discover_migrations (dirs r)) \<subseteq> set (sm_versions (cl_db c))) \<and>
    (\<forall>d. dirs = (\<lambda>_. d) \<and> sm_versions db0 = [] \<longrightarrow> hist = [] \<or> hist = discover_migrations d)"
proof -
  from steps_logged [OF assms] obtain hist where hist: "logged exec (\<lambda>r. discover_migrations (dirs r)) db0 c hist" by blast
  have "hist = [] \<or> hist = discover_migrations d" if "dirs = (\<lambda>_. d)" "sm_versions db0 = []" for d
    using hist that unfolding logged_def by blast
  with hist show ?thesis unfolding logged_def covered_by_def by (intro exI [of _ hist]) blast
qed

text \<open>Two replicas start together; the first crashes inside its transaction, the second finishes.\<close>

definition demo_directory :: "dir_entry list option" where
  "demo_directory = Some [\<lparr>de_name = ''0002_accounts.sql'', de_is_file = True, de_text = ''b''\<rparr>,
     \<lparr>de_name = ''README.md'', de_is_file = True, de_text = ''x''\<rparr>,
     \<lparr>de_name = ''0001_watch_history.sql'', de_is_file = True, de_text = ''a''\<rparr>]"

definition demo_exec :: "string \<Rightarrow> string list \<Rightarrow> string list option" where
  "demo_exec sql d = (if sql = ''b'' \<and> ''a'' \<notin> set d then None else Some (d @ [sql]))"

definition demo_tables :: "string list sql_db" where
  "demo_tables = \<lparr>sm_table = False, sm_versions = [], sm_data = []\<rparr>"

lemma demo_migrations:
  "discover_migrations demo_directory =
     [\<lparr>mg_version = ''0001_watch_history'', mg_sql = ''a''\<rparr>, \<lparr>mg_version = ''0002_accounts'', mg_sql = ''b''\<rparr>]"
  by code_simp

lemma demo_second_run:
  "apply_migration demo_exec \<lparr>mg_version = ''0001_watch_history'', mg_sql = ''a''\<rparr> (ensure_table demo_tables) =
     Some \<lparr>sm_table = True, sm_versions = [''0001_watch_history''], sm_data = [''a'']\<rparr>"
  "apply_migration demo_exec \<lparr>mg_version = ''0002_accounts'', mg_sql = ''b''\<rparr>
     \<lparr>sm_table = True, sm_versions = [''0001_watch_history''], sm_data = [''a'']\<rparr> =
     Some \<lparr>sm_table = True, sm_versions = [''0001_watch_history'', ''0002_accounts''], sm_data = [''a'', ''b'']\<rparr>"
  by code_simp+

text \<open>A replica inside its transaction can finish it.\<close>

lemma runner_finishes:
  assumes "apply_pending exec already ms applied w = Some (res, db')" and "cl_runners c r = Migrating already ms applied w"
  shows "\<exists>c'. runner_steps exec files c c' \<and> cl_runners c' r = Reported (Some res) \<and> cl_db c' = db'"
  using assms
proof (induction ms arbitrary: applied w c)
  case Nil
  have "runner_step exec files c ((runner_at r (Reported (Some applied)) c)\<lparr>cl_lock := None, cl_db := w\<rparr>)"
    using Nil(2) by (rule rs_commit)
  with Nil(1) show ?case by (auto simp: runner_at_def intro!: exI [of _ "(runner_at r (Reported (Some applied)) c)\<lparr>cl_lock := None, cl_db := w\<rparr>"])
next
  case (Cons m ms)
  have "\<exists>applied' w'. runner_step exec files c (runner_at r (Migrating already ms applied' w') c) \<and>
      apply_pending exec already ms applied' w' = Some (res, db')"
  proof (cases "mg_version m \<in> set already")
    case True
    then show ?thesis using rs_skip [OF Cons.prems(2) True] Cons.prems(1) by auto
  next
    case False
    then obtain w1 where "apply_migration exec m w = Some w1"
      "apply_pending exec already ms (applied @ [mg_version m]) w1 = Some (res, db')"
      using Cons.prems(1) by (auto split: option.splits)
    then show ?thesis using rs_apply [OF Cons.prems(2) False] by blast
  qed
  then obtain applied' w' where step: "runner_step exec files c (runner_at r (Migrating already ms applied' w') c)"
    and rest: "apply_pending exec already ms applied' w' = Some (res, db')" by blast
  have "cl_runners (runner_at r (Migrating already ms applied' w') c) r = Migrating already ms applied' w'"
    by (simp add: runner_at_def)
  from Cons.IH [OF rest this] step show ?case by (blast intro: converse_rtranclp_into_rtranclp)
qed

theorem migrations_applied_once_witness:
  "\<exists>c. runner_steps demo_exec (\<lambda>_. discover_migrations demo_directory) (fresh_cluster demo_tables) c \<and>
     cl_runners c 1 = Reported (Some [''0001_watch_history'', ''0002_accounts'']) \<and> distinct (sm_versions (cl_db c)) \<and>
     mg_version ` set (discover_migrations demo_directory) \<subseteq> set (sm_versions (cl_db c))"
proof -
  let ?files = "\<lambda>_ :: nat. discover_migrations demo_directory" and ?c0 = "fresh_cluster demo_tables"
  let ?start = "Migrating [] (discover_migrations demo_directory) [] (ensure_table demo_tables)"
  let ?c1 = "(runner_at 0 ?start ?c0)\<lparr>cl_lock := Some 0\<rparr>"
  let ?c2 = "(runner_at 0 Idle ?c1)\<lparr>cl_lock := None\<rparr>"
  let ?c3 = "(runner_at 1 ?start ?c2)\<lparr>cl_lock := Some 1\<rparr>"
  have "runner_step demo_exec ?files ?c0 ?c1"
    using rs_lock [of ?c0 0 demo_exec ?files] by (simp add: fresh_cluster_def runner_at_def demo_tables_def)
  moreover have "runner_step demo_exec ?files ?c1 ?c2"
    by (rule rs_crash [where already = "[]" and ms = "discover_migrations demo_directory" and applied = "[]" and db = "ensure_table demo_tables"])
      (simp add: runner_at_def)
  moreover have "runner_step demo_exec ?files ?c2 ?c3"
    using rs_lock [of ?c2 1 demo_exec ?files] by (simp add: fresh_cluster_def runner_at_def demo_tables_def)
  ultimately have run: "runner_steps demo_exec ?files ?c0 ?c3" by auto
  have "apply_pending demo_exec [] (discover_migrations demo_directory) [] (ensure_table demo_tables) =
      Some ([''0001_watch_history'', ''0002_accounts''],
        \<lparr>sm_table = True, sm_versions = [''0001_watch_history'', ''0002_accounts''], sm_data = [''a'', ''b'']\<rparr>)"
    by (simp add: demo_migrations demo_second_run)
  from runner_finishes [OF this, of ?c3 1 ?files] obtain c where c: "runner_steps demo_exec ?files ?c3 c"
    "cl_runners c 1 = Reported (Some [''0001_watch_history'', ''0002_accounts''])" by (auto simp: runner_at_def)
  with run have "runner_steps demo_exec ?files ?c0 c" by simp
  with migrations_applied_once [of demo_exec "\<lambda>_. demo_directory" demo_tables c] c(2) show ?thesis
    by (auto simp: demo_tables_def)
qed

end
