(* ===== verification/Startup.thy ===== *)
theory Startup
  imports Config Recovery Migrations
begin

text \<open>
  The composition root, \<^verbatim>\<open>backend/main.py\<close>: \<^verbatim>\<open>create_app\<close> and the lifespan, which decide what a process is
  made of. \<open>app_state\<close> holds what \<^verbatim>\<open>app.state\<close> is bound to; objects of which several can exist, the in-memory
  mock state and the in-process queue, carry a number. The services themselves are modelled in their own
  theories. What the outside answers while the process starts is the record \<open>boot\<close>.
\<close>

section \<open>What can be bound\<close>

record mock_limits =
  ml_capacity :: int
  ml_idle_ttl :: int
  ml_retention :: int

text \<open>
  What lives in Redis is where it lives: the URL the client was made for and the prefix of the keys, then
  the limits. Processes whose bindings agree in the first two work on the same keys of the same server. A Celery
  queue is the URL of its broker.
\<close>

datatype mock_binding = Local_mock nat mock_limits | Shared_mock string string mock_limits

datatype watch_store_binding = Local_watches | Shared_watches string string int

datatype queue_binding = Local_queue nat | Celery_tasks string

datatype throttle_binding = Local_throttle throttle_config | Shared_throttle throttle_config string

record service_binding =
  sb_store :: watch_store_binding
  sb_adapter :: mock_binding
  sb_queue :: queue_binding
  sb_recorder :: bool
  sb_notifier :: "email_settings option"
  sb_notify_timeout :: int
  sb_timezone :: "string option"
  sb_config :: service_config
  sb_provider_timeout :: int

record recovery_binding =
  rb_store :: watch_store_binding
  rb_queue :: queue_binding
  rb_mock :: mock_binding
  rb_service :: service_binding
  rb_distributed :: bool
  rb_lease_seconds :: int
  rb_horizon_seconds :: int
  rb_schedule :: poll_schedule

record app_state =
  ap_watch_settings :: "watch_settings option"
  ap_watch_error :: "string option"
  ap_settings :: "app_settings option"
  ap_settings_error :: "string option"
  ap_pool :: bool
  ap_recorder :: bool
  ap_accounts :: "account_config option"
  ap_login_throttle :: "throttle_binding option"
  ap_login_ip_throttle :: "throttle_binding option"
  ap_prompt_throttle :: throttle_binding
  ap_notifier :: "email_settings option"
  ap_notify_timeout :: int
  ap_redis :: bool
  ap_store :: watch_store_binding
  ap_mock :: mock_binding
  ap_booking_adapter :: mock_binding
  ap_service :: service_binding
  ap_queue :: queue_binding
  ap_queue_mode :: string
  ap_recovery :: "recovery_binding option"
  ap_sweeping :: bool
  ap_readiness :: tracker
  ap_open_queues :: "nat set"
  ap_made :: nat

section \<open>The outside\<close>

datatype pool_answer = Pool_open | Pool_refused | Pool_raised

text \<open>What \<^verbatim>\<open>asyncpg.create_pool\<close> does: it answers a pool or \<^verbatim>\<open>None\<close>, or raises an error of the system or
  the server, or any other.\<close>

datatype connect_answer = Connected | No_pool | Server_error | Other_error

record boot =
  bt_env :: environment
  bt_urlparse :: url_parser
  bt_zone :: zone_reader
  bt_connect :: connect_answer
  bt_migrations :: "string list option"
  bt_redis_installed :: bool
  bt_client_raises :: bool
  bt_ping_raises :: bool
  bt_close_raises :: bool
  bt_hasher_raises :: bool
  bt_cluster :: "bool option"
  bt_celery_installed :: bool
  bt_first_pass :: recovery_outcome
  bt_now :: time

text \<open>What escapes \<^verbatim>\<open>create_app\<close> or the lifespan and keeps the process from starting.\<close>

datatype startup_failure =
  Settings_error_escaped | Pool_error_escaped | Migration_error_escaped | Hasher_error_escaped | Client_error_escaped

type_synonym starting = "startup_failure + app_state"

definition start_then :: "starting \<Rightarrow> (app_state \<Rightarrow> starting) \<Rightarrow> starting" where
  "start_then m f = (case m of Inl err \<Rightarrow> Inl err | Inr a \<Rightarrow> f a)"

text \<open>\<^verbatim>\<open>try: ... except ConfigurationError\<close>.\<close>

definition configured :: "'a reader \<Rightarrow> (string \<Rightarrow> starting) \<Rightarrow> ('a \<Rightarrow> starting) \<Rightarrow> starting" where
  "configured m degraded f =
     (case m of
        Inl (Configuration_error message) \<Rightarrow> degraded message
      | Inl Escaped_error \<Rightarrow> Inl Settings_error_escaped
      | Inr x \<Rightarrow> f x)"

section \<open>Building services\<close>

definition DEFAULT_POLL_SCHEDULE :: poll_schedule where
  "DEFAULT_POLL_SCHEDULE = \<lparr>interval_seconds = 180, jitter_seconds = 30\<rparr>"

definition bind_mock_adapter :: "mock_binding \<Rightarrow> app_state \<Rightarrow> app_state" where
  "bind_mock_adapter m a = a\<lparr>ap_mock := m, ap_booking_adapter := m\<rparr>"

text \<open>\<^verbatim>\<open>_build_watch_service\<close>: \<open>None\<close> for the queue builds one in the process.\<close>

definition build_watch_service ::
  "watch_store_binding \<Rightarrow> service_config \<Rightarrow> string option \<Rightarrow> queue_binding option \<Rightarrow> int \<Rightarrow> app_state \<Rightarrow> app_state" where
  "build_watch_service store cfg zone queue timeout a =
     (let (q, a1) = (case queue of
                       Some q \<Rightarrow> (q, a)
                     | None \<Rightarrow> (Local_queue (ap_made a),
                                a\<lparr>ap_queue_mode := ''asyncio'', ap_made := Suc (ap_made a),
                                  ap_open_queues := insert (ap_made a) (ap_open_queues a)\<rparr>))
      in a1\<lparr>ap_queue := q,
            ap_service := \<lparr>sb_store = store, sb_adapter = ap_booking_adapter a, sb_queue = q, sb_recorder = ap_recorder a,
              sb_notifier = ap_notifier a, sb_notify_timeout = ap_notify_timeout a, sb_timezone = zone,
              sb_config = cfg, sb_provider_timeout = timeout\<rparr>\<rparr>)"

text \<open>\<^verbatim>\<open>await app.state.watch_queue.close()\<close>.\<close>

definition close_bound_queue :: "app_state \<Rightarrow> app_state" where
  "close_bound_queue a =
     (case ap_queue a of Local_queue i \<Rightarrow> a\<lparr>ap_open_queues := ap_open_queues a - {i}\<rparr> | Celery_tasks _ \<Rightarrow> a)"

section \<open>create_app\<close>

definition DEFAULT_MOCK_LIMITS :: mock_limits where
  "DEFAULT_MOCK_LIMITS = \<lparr>ml_capacity = 10000, ml_idle_ttl = 3600, ml_retention = 604800\<rparr>"

definition DEFAULT_PROMPT_THROTTLE :: prompt_throttle_settings where
  "DEFAULT_PROMPT_THROTTLE = \<lparr>pt_max_requests = 20, pt_window_seconds = 300\<rparr>"

definition prompt_throttle_of :: "prompt_throttle_settings \<Rightarrow> throttle_config" where
  "prompt_throttle_of s = \<lparr>max_events = pt_max_requests s, window_seconds = of_int (pt_window_seconds s)\<rparr>"

text \<open>The state before the first service is built; \<open>th\<close> is the prompt throttle.\<close>

definition blank_app :: "throttle_config \<Rightarrow> app_state" where
  "blank_app th =
     (let mock = Local_mock 0 DEFAULT_MOCK_LIMITS;
          cfg = make_service DEFAULT_POLL_SCHEDULE 25000 3600 False
      in build_watch_service Local_watches cfg None None 45
           (bind_mock_adapter mock
             \<lparr>ap_watch_settings = None, ap_watch_error = None, ap_settings = None, ap_settings_error = None,
              ap_pool = False, ap_recorder = False, ap_accounts = None, ap_login_throttle = None,
              ap_login_ip_throttle = None, ap_prompt_throttle = Local_throttle th, ap_notifier = None,
              ap_notify_timeout = 10, ap_redis = False, ap_store = Local_watches, ap_mock = mock,
              ap_booking_adapter = mock,
              ap_service = \<lparr>sb_store = Local_watches, sb_adapter = mock, sb_queue = Local_queue 0, sb_recorder = False,
                sb_notifier = None, sb_notify_timeout = 10, sb_timezone = None, sb_config = cfg, sb_provider_timeout = 45\<rparr>,
              ap_queue = Local_queue 0, ap_queue_mode = ''asyncio'', ap_recovery = None, ap_sweeping = False,
              ap_readiness = new_tracker, ap_open_queues = {}, ap_made = 1\<rparr>))"

text \<open>A bad origin list turns CORS off, a bad throttle setting turns the defaults on.\<close>

definition create_app :: "boot \<Rightarrow> starting" where
  "create_app b =
     (let cors = cors_origins_from_environment (bt_urlparse b) (bt_env b);
          build = (\<lambda>s. Inr (blank_app (prompt_throttle_of s)))
      in if cors = Inl Escaped_error then Inl Settings_error_escaped
         else configured (prompt_throttle_from_environment (bt_env b)) (\<lambda>_. build DEFAULT_PROMPT_THROTTLE) build)"

section \<open>_attach_postgres\<close>

text \<open>\<^verbatim>\<open>create_pool\<close>: \<open>Pool_refused\<close> is its \<^verbatim>\<open>ConfigurationError\<close>.\<close>

definition create_pool :: "postgres_settings \<Rightarrow> connect_answer \<Rightarrow> pool_answer" where
  "create_pool s answer =
     (if pg_dsn s = None then Pool_refused
      else (case answer of
              Connected \<Rightarrow> Pool_open
            | No_pool \<Rightarrow> Pool_refused
            | Server_error \<Rightarrow> Pool_refused
            | Other_error \<Rightarrow> Pool_raised))"

definition login_ip_throttle_of :: "account_config \<Rightarrow> throttle_config" where
  "login_ip_throttle_of s = \<lparr>max_events = acs_login_ip_throttle_max_attempts s, window_seconds = of_int (acs_login_throttle_window_seconds s)\<rparr>"

text \<open>
  Building the hasher computes the dummy hash; an argon2 error there is not a \<^verbatim>\<open>ConfigurationError\<close> and
  passes the handler.
\<close>

definition attach_accounts :: "boot \<Rightarrow> app_state \<Rightarrow> starting" where
  "attach_accounts b a =
     configured (account_config_from_environment (bt_env b)) (\<lambda>_. Inr a)
       (\<lambda>s. if bt_hasher_raises b then Inl Hasher_error_escaped
            else Inr (a\<lparr>ap_accounts := Some s, ap_login_throttle := Some (Local_throttle (login_throttle_of s)),
                        ap_login_ip_throttle := Some (Local_throttle (login_ip_throttle_of s))\<rparr>))"

definition attach_email :: "boot \<Rightarrow> app_state \<Rightarrow> starting" where
  "attach_email b a =
     configured (email_settings_from_environment (bt_urlparse b) (bt_env b)) (\<lambda>_. Inr a)
       (\<lambda>s. Inr (if email_enabled s then a\<lparr>ap_notifier := Some s, ap_notify_timeout := em_timeout_seconds s\<rparr> else a))"

text \<open>
  The pool and the migrations are tried for \<^verbatim>\<open>ConfigurationError\<close> only; a statement of a migration raises an
  error of the driver.
\<close>

definition attach_postgres :: "boot \<Rightarrow> app_state \<Rightarrow> starting" where
  "attach_postgres b a =
     configured (postgres_settings_from_environment (bt_urlparse b) (bt_env b)) (\<lambda>_. Inr a)
       (\<lambda>s. if \<not> postgres_enabled s then Inr a
            else (case create_pool s (bt_connect b) of
                    Pool_refused \<Rightarrow> Inr a
                  | Pool_raised \<Rightarrow> Inl Pool_error_escaped
                  | Pool_open \<Rightarrow>
                      (case bt_migrations b of
                         None \<Rightarrow> Inl Migration_error_escaped
                       | Some applied \<Rightarrow>
                           start_then (attach_accounts b (a\<lparr>ap_pool := True, ap_recorder := True\<rparr>)) (attach_email b))))"

section \<open>_attach_redis\<close>

definition schedule_of :: "watch_settings \<Rightarrow> poll_schedule" where
  "schedule_of s = \<lparr>interval_seconds = of_int (ws_poll_interval_seconds s), jitter_seconds = of_int (ws_poll_jitter_seconds s)\<rparr>"

definition mock_limits_of :: "watch_settings \<Rightarrow> mock_limits" where
  "mock_limits_of s = \<lparr>ml_capacity = ws_mock_slot_capacity s, ml_idle_ttl = ws_mock_slot_idle_ttl_seconds s,
     ml_retention = ws_mock_booking_retention_seconds s\<rparr>"

definition build_from_settings :: "watch_settings \<Rightarrow> queue_binding option \<Rightarrow> app_state \<Rightarrow> app_state" where
  "build_from_settings s queue a =
     build_watch_service (ap_store a) (service_from_settings s (ap_recorder a)) (Some (ws_timezone_name s)) queue
       (ws_provider_call_timeout_seconds s) a"

text \<open>\<^verbatim>\<open>_share_throttles_through_redis\<close>: the limit is kept.\<close>

definition share_throttle :: "string \<Rightarrow> throttle_binding \<Rightarrow> throttle_binding" where
  "share_throttle name t = (case t of Local_throttle c \<Rightarrow> Shared_throttle c name | Shared_throttle c n \<Rightarrow> Shared_throttle c n)"

definition share_throttles :: "app_state \<Rightarrow> app_state" where
  "share_throttles a =
     a\<lparr>ap_prompt_throttle := share_throttle ''prompt'' (ap_prompt_throttle a),
       ap_login_throttle := map_option (share_throttle ''login-email'') (ap_login_throttle a),
       ap_login_ip_throttle := map_option (share_throttle ''login-ip'') (ap_login_ip_throttle a)\<rparr>"

text \<open>\<^verbatim>\<open>_start_recovery\<close>: the coordinator over what is bound now, its first pass, and the follow-up loop.\<close>

definition start_recovery :: "boot \<Rightarrow> watch_settings \<Rightarrow> bool \<Rightarrow> app_state \<Rightarrow> app_state" where
  "start_recovery b s distributed a =
     a\<lparr>ap_recovery := Some \<lparr>rb_store = ap_store a, rb_queue = ap_queue a, rb_mock = ap_mock a, rb_service = ap_service a,
         rb_distributed = distributed, rb_lease_seconds = ws_recovery_leader_lease_seconds s,
         rb_horizon_seconds = ws_dispatch_horizon_seconds s, rb_schedule = schedule_of s\<rparr>,
       ap_readiness := record_recovery_outcome (bt_now b) (bt_first_pass b) (ap_readiness a),
       ap_sweeping := True\<rparr>"

text \<open>\<^verbatim>\<open>ping\<close> of \<^verbatim>\<open>backend/db/database.py\<close>; \<^verbatim>\<open>_redis_cluster_enabled\<close>: a server that cannot tell is taken for a single node.\<close>

definition ping :: "boot \<Rightarrow> bool" where
  "ping b \<longleftrightarrow> \<not> bt_ping_raises b"

definition redis_cluster_enabled :: "boot \<Rightarrow> bool" where
  "redis_cluster_enabled b \<longleftrightarrow> bt_cluster b = Some True"

text \<open>
  \<^verbatim>\<open>KEY_PREFIX\<close> and \<^verbatim>\<open>MOCK_KEY_PREFIX\<close>; the broker of \<^verbatim>\<open>backend/workers/celery_app.py\<close>, which reads the variable
  without stripping it.
\<close>

definition KEY_PREFIX :: string where "KEY_PREFIX = ''dibs:watch''"
definition MOCK_KEY_PREFIX :: string where "MOCK_KEY_PREFIX = ''dibs:mock''"

definition broker_url :: "environment \<Rightarrow> string" where
  "broker_url env = (case env ''REDIS_URL'' of None \<Rightarrow> ''redis://localhost:6379/0'' | Some url \<Rightarrow> url)"

text \<open>The repositories over a client made by \<^verbatim>\<open>create_redis_client\<close>.\<close>

definition redis_watches :: "string \<Rightarrow> watch_settings \<Rightarrow> watch_store_binding" where
  "redis_watches url s = Shared_watches url KEY_PREFIX (ws_terminal_retention_seconds s)"

definition redis_mock_state :: "string \<Rightarrow> watch_settings \<Rightarrow> mock_binding" where
  "redis_mock_state url s = Shared_mock url MOCK_KEY_PREFIX (mock_limits_of s)"

definition attach_local :: "watch_settings \<Rightarrow> app_state \<Rightarrow> app_state" where
  "attach_local s a =
     (let a1 = bind_mock_adapter (Local_mock (ap_made a) (mock_limits_of s)) (a\<lparr>ap_made := Suc (ap_made a)\<rparr>)
      in build_from_settings s None (close_bound_queue a1))"

definition upgrade_to_redis :: "boot \<Rightarrow> watch_settings \<Rightarrow> app_state \<Rightarrow> app_state" where
  "upgrade_to_redis b s a =
     (let queue = (if bt_celery_installed b then Some (Celery_tasks (broker_url (bt_env b))) else None);
          a1 = close_bound_queue (a\<lparr>ap_queue_mode := if bt_celery_installed b then ''celery'' else ''asyncio''\<rparr>);
          a2 = (share_throttles (a1\<lparr>ap_redis := True\<rparr>))\<lparr>ap_store := redis_watches (ws_redis_url s) s\<rparr>
      in build_from_settings s queue (bind_mock_adapter (redis_mock_state (ws_redis_url s) s) a2))"

definition attach_redis :: "boot \<Rightarrow> app_state \<Rightarrow> starting" where
  "attach_redis b a =
     (case ap_watch_settings a of
        None \<Rightarrow> Inr a
      | Some s \<Rightarrow>
          (let a1 = attach_local s a in
           if \<not> bt_redis_installed b then Inr (start_recovery b s False a1)
           else if bt_client_raises b then Inl Client_error_escaped
           else if \<not> ping b \<or> redis_cluster_enabled b
           then (if bt_close_raises b then Inl Client_error_escaped else Inr (start_recovery b s False a1))
           else Inr (start_recovery b s True (upgrade_to_redis b s a1))))"

section \<open>lifespan\<close>

definition read_watch_settings :: "boot \<Rightarrow> app_state \<Rightarrow> starting" where
  "read_watch_settings b a =
     configured (watch_settings_from_environment (bt_urlparse b) (bt_zone b) (bt_env b))
       (\<lambda>message. Inr (a\<lparr>ap_watch_settings := None, ap_watch_error := Some message\<rparr>))
       (\<lambda>s. Inr (a\<lparr>ap_watch_settings := Some s, ap_watch_error := None\<rparr>))"

definition read_app_settings :: "boot \<Rightarrow> app_state \<Rightarrow> starting" where
  "read_app_settings b a =
     configured (app_settings_from_environment (bt_urlparse b) (bt_zone b) (bt_env b))
       (\<lambda>message. Inr (a\<lparr>ap_settings := None, ap_settings_error := Some message\<rparr>))
       (\<lambda>s. Inr (a\<lparr>ap_settings := Some s, ap_settings_error := None\<rparr>))"

definition start_app :: "boot \<Rightarrow> starting" where
  "start_app b =
     start_then (create_app b) (\<lambda>a.
     start_then (read_watch_settings b a) (\<lambda>a.
     start_then (read_app_settings b a) (\<lambda>a.
     start_then (attach_postgres b a) (attach_redis b))))"

text \<open>After the \<^verbatim>\<open>yield\<close>: recovery is stopped before the queue and the clients are closed.\<close>

definition stop_recovery :: "app_state \<Rightarrow> app_state" where
  "stop_recovery a = a\<lparr>ap_sweeping := False, ap_recovery := None\<rparr>"

definition stop_app :: "app_state \<Rightarrow> app_state" where
  "stop_app a = close_bound_queue (stop_recovery a)"

text \<open>The follow-up loop: a pass that raises, \<open>None\<close>, is logged and leaves the loop running.\<close>

fun recovery_sweep_loop :: "(time \<times> recovery_outcome option) list \<Rightarrow> tracker \<Rightarrow> tracker" where
  "recovery_sweep_loop [] t = t"
| "recovery_sweep_loop ((now, res) # passes) t =
     recovery_sweep_loop passes (case res of None \<Rightarrow> t | Some ro \<Rightarrow> record_recovery_outcome now ro t)"

section \<open>What the routes ask of the state\<close>

text \<open>\<^verbatim>\<open>get_watch_service\<close>: the retained error, the service, or a \<^verbatim>\<open>RuntimeError\<close> for a start that did not finish.\<close>

datatype dependency_error = Dependency_configuration string | Startup_incomplete | Dependency_escaped_error

definition get_watch_service :: "app_state \<Rightarrow> dependency_error + service_binding" where
  "get_watch_service a =
     (case ap_watch_error a of
        Some message \<Rightarrow> Inl (Dependency_configuration message)
      | None \<Rightarrow> if ap_watch_settings a = None then Inl Startup_incomplete else Inr (ap_service a))"

text \<open>\<^verbatim>\<open>get_orchestrator\<close>, for an engine that is not built yet: the settings it is built from.\<close>

definition get_orchestrator :: "boot \<Rightarrow> app_state \<Rightarrow> dependency_error + app_settings" where
  "get_orchestrator b a =
     (case ap_settings a of
        Some s \<Rightarrow> Inr s
      | None \<Rightarrow>
          (case app_settings_from_environment (bt_urlparse b) (bt_zone b) (bt_env b) of
             Inl (Configuration_error message) \<Rightarrow> Inl (Dependency_configuration message)
           | Inl Escaped_error \<Rightarrow> Inl Dependency_escaped_error
           | Inr s \<Rightarrow> Inr s))"

definition queue_readiness :: "app_state \<Rightarrow> readiness" where
  "queue_readiness a =
     (if ap_queue_mode a = ''asyncio''
      then (case ap_queue a of
              Local_queue i \<Rightarrow> if i \<in> ap_open_queues a then READY else DEGRADED
            | Celery_tasks _ \<Rightarrow> DEGRADED)
      else queue_state (ap_readiness a))"

record health_report =
  hl_config_error :: bool
  hl_watch_store :: string
  hl_watch_queue :: string
  hl_queue :: readiness
  hl_recovery :: readiness
  hl_history :: readiness

definition health :: "app_state \<Rightarrow> health_report" where
  "health a = \<lparr>hl_config_error = (ap_settings_error a \<noteq> None),
     hl_watch_store = (if ap_redis a then ''redis'' else ''memory''), hl_watch_queue = ap_queue_mode a,
     hl_queue = queue_readiness a, hl_recovery = recovery_state (ap_readiness a),
     hl_history = history_state (ap_readiness a)\<rparr>"

end
