(* ===== verification/Startup_Properties.thy ===== *)
theory Startup_Properties
  imports Startup
begin

text \<open>
  What a started process is made of, and what keeps it from starting: every optional part degrades on a
  configuration error, whatever is bound is bound to one store, one mock state and one open queue, and
  the recovery pass works on exactly those.
\<close>

section \<open>Stages of the start\<close>

lemma start_then_Inr: "start_then m f = Inr a \<longleftrightarrow> (\<exists>a'. m = Inr a' \<and> f a' = Inr a)"
  by (cases m) (simp_all add: start_then_def)

lemma configured_Inr:
  "configured m degraded f = Inr a \<longleftrightarrow>
     (\<exists>x. m = Inr x \<and> f x = Inr a) \<or> (\<exists>message. m = Inl (Configuration_error message) \<and> degraded message = Inr a)"
  by (auto simp: configured_def split: sum.splits config_failure.splits)

text \<open>Before Redis: everything is local, the one open queue is bound, nothing recovers.\<close>

definition local_app :: "app_state \<Rightarrow> bool" where
  "local_app a \<longleftrightarrow>
     \<not> ap_redis a \<and> ap_store a = Local_watches \<and> ap_recovery a = None \<and> \<not> ap_sweeping a \<and> ap_queue_mode a = ''asyncio'' \<and>
     (\<exists>i n l. ap_queue a = Local_queue i \<and> ap_open_queues a = {i} \<and> ap_mock a = Local_mock n l) \<and>
     ap_booking_adapter a = ap_mock a \<and> sb_adapter (ap_service a) = ap_mock a \<and>
     sb_store (ap_service a) = ap_store a \<and> sb_queue (ap_service a) = ap_queue a \<and>
     (\<exists>c. ap_prompt_throttle a = Local_throttle c) \<and>
     (\<forall>t. ap_login_throttle a = Some t \<longrightarrow> (\<exists>c. t = Local_throttle c)) \<and>
     (\<forall>t. ap_login_ip_throttle a = Some t \<longrightarrow> (\<exists>c. t = Local_throttle c))"

lemma blank_local: "local_app (blank_app th)"
  by (simp add: local_app_def blank_app_def build_watch_service_def bind_mock_adapter_def Let_def)

lemma create_app_local: "create_app b = Inr a \<Longrightarrow> local_app a \<and> ap_watch_error a = None \<and> ap_watch_settings a = None"
  using blank_local
  by (auto simp: create_app_def configured_Inr Let_def split: if_splits)
    (simp_all add: blank_app_def build_watch_service_def bind_mock_adapter_def Let_def)

lemma local_app_frame:
  "local_app (a\<lparr>ap_watch_settings := s, ap_watch_error := err\<rparr>) = local_app a"
  "local_app (a\<lparr>ap_settings := x, ap_settings_error := err\<rparr>) = local_app a"
  "local_app (a\<lparr>ap_pool := p, ap_recorder := r\<rparr>) = local_app a"
  "local_app (a\<lparr>ap_notifier := n, ap_notify_timeout := t\<rparr>) = local_app a"
  "local_app a \<Longrightarrow> local_app (a\<lparr>ap_accounts := acc, ap_login_throttle := Some (Local_throttle c), ap_login_ip_throttle := Some (Local_throttle c')\<rparr>)"
  by (simp_all add: local_app_def)

lemma read_settings_local:
  "read_watch_settings b a = Inr a' \<Longrightarrow> local_app a \<Longrightarrow> local_app a'"
  "read_app_settings b a = Inr a' \<Longrightarrow> local_app a \<Longrightarrow> local_app a'"
  by (auto simp: read_watch_settings_def read_app_settings_def configured_Inr local_app_frame)

definition same_watch :: "app_state \<Rightarrow> app_state \<Rightarrow> bool" where
  "same_watch a a' \<longleftrightarrow> ap_watch_settings a' = ap_watch_settings a \<and> ap_watch_error a' = ap_watch_error a"

lemma attach_accounts_local:
  assumes "attach_accounts b a = Inr a'" shows "same_watch a a'" and "local_app a \<Longrightarrow> local_app a'"
  using assms unfolding attach_accounts_def configured_Inr by (auto simp: same_watch_def local_app_frame split: if_splits)

lemma attach_email_local:
  assumes "attach_email b a = Inr a'" shows "same_watch a a'" and "local_app a \<Longrightarrow> local_app a'"
  using assms unfolding attach_email_def configured_Inr by (auto simp: same_watch_def local_app_frame split: if_splits)

lemma attach_postgres_Inr:
  assumes "attach_postgres b a = Inr a'"
  obtains "a' = a" | a1 where "attach_accounts b (a\<lparr>ap_pool := True, ap_recorder := True\<rparr>) = Inr a1" "attach_email b a1 = Inr a'"
  using assms unfolding attach_postgres_def configured_Inr
  by (auto simp: start_then_Inr split: if_splits pool_answer.splits option.splits)

lemma attach_postgres_local:
  assumes "attach_postgres b a = Inr a'" shows "same_watch a a'" and "local_app a \<Longrightarrow> local_app a'"
proof -
  have "same_watch a a' \<and> (local_app a \<longrightarrow> local_app a')"
    using assms
  proof (cases rule: attach_postgres_Inr)
    case 1
    then show ?thesis by (simp add: same_watch_def)
  next
    case (2 a1)
    from attach_accounts_local [OF 2(1)] attach_email_local [OF 2(2)] show ?thesis
      by (simp add: same_watch_def local_app_frame)
  qed
  then show "same_watch a a'" "local_app a \<Longrightarrow> local_app a'" by blast+
qed

section \<open>Redis and recovery\<close>

lemma attach_local_facts:
  assumes "local_app a"
  shows "local_app (attach_local s a)"
    and "ap_watch_settings (attach_local s a) = ap_watch_settings a" "ap_watch_error (attach_local s a) = ap_watch_error a"
    and "sb_recorder (ap_service (attach_local s a)) = ap_recorder (attach_local s a)"
    "sb_notifier (ap_service (attach_local s a)) = ap_notifier (attach_local s a)"
    "sb_config (ap_service (attach_local s a)) = service_from_settings s (ap_recorder (attach_local s a))"
  using assms
  by (auto simp: local_app_def attach_local_def build_from_settings_def build_watch_service_def bind_mock_adapter_def
      close_bound_queue_def Let_def)

text \<open>What every finished start has in common.\<close>

definition wired :: "app_state \<Rightarrow> bool" where
  "wired a \<longleftrightarrow>
     ap_booking_adapter a = ap_mock a \<and> sb_adapter (ap_service a) = ap_mock a \<and>
     sb_store (ap_service a) = ap_store a \<and> sb_queue (ap_service a) = ap_queue a \<and>
     ap_open_queues a = (case ap_queue a of Local_queue i \<Rightarrow> {i} | Celery_tasks _ \<Rightarrow> {}) \<and>
     (ap_queue_mode a = ''asyncio'' \<longleftrightarrow> (\<exists>i. ap_queue a = Local_queue i)) \<and>
     (ap_redis a \<longleftrightarrow> ap_store a \<noteq> Local_watches) \<and> (ap_redis a \<longleftrightarrow> (\<exists>url p l. ap_mock a = Shared_mock url p l)) \<and>
     ((\<nexists>i. ap_queue a = Local_queue i) \<longrightarrow> ap_redis a) \<and>
     (\<forall>t \<in> {ap_prompt_throttle a} \<union> set_option (ap_login_throttle a) \<union> set_option (ap_login_ip_throttle a).
        ap_redis a \<longleftrightarrow> (\<exists>c name. t = Shared_throttle c name))"

definition recovers :: "app_state \<Rightarrow> bool" where
  "recovers a \<longleftrightarrow>
     (case ap_recovery a of
        None \<Rightarrow> False
      | Some rb \<Rightarrow> rb_store rb = ap_store a \<and> rb_queue rb = ap_queue a \<and> rb_mock rb = ap_mock a \<and>
          rb_service rb = ap_service a \<and> rb_distributed rb = ap_redis a \<and> ap_sweeping a)"

lemma local_wired: "local_app a \<Longrightarrow> wired a"
  by (auto simp: local_app_def wired_def)

lemma start_recovery_facts:
  "wired (start_recovery b s distributed a) = wired a"
  "distributed = ap_redis a \<Longrightarrow> recovers (start_recovery b s distributed a)"
  "ap_watch_settings (start_recovery b s distributed a) = ap_watch_settings a"
  "ap_watch_error (start_recovery b s distributed a) = ap_watch_error a"
  "ap_service (start_recovery b s distributed a) = ap_service a" "ap_recorder (start_recovery b s distributed a) = ap_recorder a"
  "ap_notifier (start_recovery b s distributed a) = ap_notifier a"
  by (simp_all add: start_recovery_def wired_def recovers_def)

lemma upgrade_facts:
  assumes "local_app a"
  shows "wired (upgrade_to_redis b s a)" and "ap_redis (upgrade_to_redis b s a)"
    and "ap_watch_settings (upgrade_to_redis b s a) = ap_watch_settings a"
    "ap_watch_error (upgrade_to_redis b s a) = ap_watch_error a"
    and "sb_recorder (ap_service (upgrade_to_redis b s a)) = ap_recorder (upgrade_to_redis b s a)"
    "sb_notifier (ap_service (upgrade_to_redis b s a)) = ap_notifier (upgrade_to_redis b s a)"
    "sb_config (ap_service (upgrade_to_redis b s a)) = service_from_settings s (ap_recorder (upgrade_to_redis b s a))"
  using assms
  by (auto simp: local_app_def wired_def upgrade_to_redis_def build_from_settings_def build_watch_service_def
      bind_mock_adapter_def close_bound_queue_def share_throttles_def share_throttle_def redis_watches_def redis_mock_state_def Let_def)

lemma attach_redis_facts:
  assumes "attach_redis b a = Inr a'" and "local_app a"
  shows "wired a'" and "ap_watch_settings a' = ap_watch_settings a" "ap_watch_error a' = ap_watch_error a"
    and "\<And>s. ap_watch_settings a = Some s \<Longrightarrow> recovers a' \<and> sb_recorder (ap_service a') = ap_recorder a' \<and>
      sb_notifier (ap_service a') = ap_notifier a' \<and> sb_config (ap_service a') = service_from_settings s (ap_recorder a')"
    and "ap_watch_settings a = None \<Longrightarrow> a' = a"
proof -
  have loc: "\<not> ap_redis (attach_local s a)" for s using attach_local_facts(1) [OF assms(2)] by (simp add: local_app_def)
  note facts = start_recovery_facts attach_local_facts [OF assms(2)] upgrade_facts [OF attach_local_facts(1) [OF assms(2)]]
    local_wired [OF attach_local_facts(1) [OF assms(2)]] loc
  from assms show "wired a'" "ap_watch_settings a' = ap_watch_settings a" "ap_watch_error a' = ap_watch_error a"
    "\<And>s. ap_watch_settings a = Some s \<Longrightarrow> recovers a' \<and> sb_recorder (ap_service a') = ap_recorder a' \<and>
      sb_notifier (ap_service a') = ap_notifier a' \<and> sb_config (ap_service a') = service_from_settings s (ap_recorder a')"
    "ap_watch_settings a = None \<Longrightarrow> a' = a"
    by (auto simp: attach_redis_def Let_def facts local_wired split: option.splits if_splits)
qed

section \<open>The start as a whole\<close>

lemma start_app_Inr:
  assumes "start_app b = Inr a"
  obtains a1 a2 a3 a4 where "create_app b = Inr a1" "read_watch_settings b a1 = Inr a2" "read_app_settings b a2 = Inr a3"
    "attach_postgres b a3 = Inr a4" "attach_redis b a4 = Inr a" "local_app a1" "local_app a4"
    "ap_watch_settings a4 = ap_watch_settings a2" "ap_watch_error a4 = ap_watch_error a2"
proof -
  from assms obtain a1 a2 a3 a4 where s: "create_app b = Inr a1" "read_watch_settings b a1 = Inr a2"
    "read_app_settings b a2 = Inr a3" "attach_postgres b a3 = Inr a4" "attach_redis b a4 = Inr a"
    by (auto simp: start_app_def start_then_Inr)
  have a1: "local_app a1" using create_app_local [OF s(1)] by blast
  have a3: "local_app a3" using read_settings_local(1) [OF s(2) a1] read_settings_local(2) [OF s(3)] by blast
  have "ap_watch_settings a3 = ap_watch_settings a2" "ap_watch_error a3 = ap_watch_error a2"
    using s(3) by (auto simp: read_app_settings_def configured_Inr)
  with attach_postgres_local [OF s(4)] a3 that [OF s a1] show ?thesis by (simp add: same_watch_def)
qed

text \<open>
  C20. A process that starts works on one world: bookings, watches and recovery share one mock state, one
  watch store and one queue, the only one left open; the stores, the throttles and the leader lease are
  shared through Redis all together or not at all; the routes reach the watch service exactly when the
  watch settings were accepted, built from those settings, and recovery then runs over that service;
  otherwise they answer with the retained error; and stopping closes the queue.
\<close>

theorem startup_binds_one_world:
  assumes "start_app b = Inr a"
  shows "wired a \<and> ap_open_queues (stop_app a) = {} \<and> ap_recovery (stop_app a) = None \<and>
    (case watch_settings_from_environment (bt_urlparse b) (bt_zone b) (bt_env b) of
       Inr s \<Rightarrow> recovers a \<and> get_watch_service a = Inr (ap_service a) \<and>
         sb_config (ap_service a) = service_from_settings s (ap_recorder a) \<and> sb_notifier (ap_service a) = ap_notifier a
     | Inl err \<Rightarrow> \<not> ap_redis a \<and> ap_recovery a = None \<and>
         (\<exists>message. err = Configuration_error message \<and> get_watch_service a = Inl (Dependency_configuration message)))"
proof -
  obtain a1 a2 a3 a4 where s: "read_watch_settings b a1 = Inr a2" "attach_redis b a4 = Inr a" "local_app a4"
    "ap_watch_settings a4 = ap_watch_settings a2" "ap_watch_error a4 = ap_watch_error a2"
    using start_app_Inr [OF assms] by metis
  note r = attach_redis_facts [OF s(2,3)]
  have stop: "ap_open_queues (stop_app a) = {} \<and> ap_recovery (stop_app a) = None"
    using r(1) by (auto simp: wired_def stop_app_def stop_recovery_def close_bound_queue_def split: queue_binding.splits)
  show ?thesis
  proof (cases "watch_settings_from_environment (bt_urlparse b) (bt_zone b) (bt_env b)")
    case (Inr ws)
    with s(1) have a2: "ap_watch_settings a2 = Some ws" "ap_watch_error a2 = None"
      by (auto simp: read_watch_settings_def configured_def)
    with r(4) [of ws] s(4) have "recovers a" "sb_config (ap_service a) = service_from_settings ws (ap_recorder a)"
      "sb_notifier (ap_service a) = ap_notifier a" by simp_all
    moreover have "get_watch_service a = Inr (ap_service a)"
      using r(2,3) s(4,5) a2 by (simp add: get_watch_service_def)
    ultimately show ?thesis using r(1) stop Inr by simp
  next
    case (Inl err)
    with s(1) obtain message where m: "err = Configuration_error message" "ap_watch_settings a2 = None" "ap_watch_error a2 = Some message"
      by (auto simp: read_watch_settings_def configured_Inr)
    with r(5) s(4) have "a = a4" by simp
    with s(3,5) m r(1) stop Inl show ?thesis by (auto simp: get_watch_service_def local_app_def)
  qed
qed

text \<open>A reader of settings that raises something else than \<^verbatim>\<open>ConfigurationError\<close>.\<close>

abbreviation escapes :: "'a reader \<Rightarrow> bool" where
  "escapes m \<equiv> m = Inl Escaped_error"

definition postgres_wanted :: "boot \<Rightarrow> bool" where
  "postgres_wanted b \<longleftrightarrow> (case postgres_settings_from_environment (bt_urlparse b) (bt_env b) of
     Inr s \<Rightarrow> postgres_enabled s | Inl _ \<Rightarrow> False)"

definition accepted :: "'a reader \<Rightarrow> bool" where
  "accepted m \<longleftrightarrow> (case m of Inr _ \<Rightarrow> True | Inl _ \<Rightarrow> False)"

lemma configured_starts:
  assumes "\<And>message. \<exists>a. degraded message = Inr a"
  shows "(\<exists>a. configured m degraded f = Inr a) \<longleftrightarrow> \<not> escapes m \<and> (\<forall>x. m = Inr x \<longrightarrow> (\<exists>a. f x = Inr a))"
  using assms by (auto simp: configured_def split: sum.splits config_failure.splits)

lemma create_app_starts:
  "(\<exists>a. create_app b = Inr a) \<longleftrightarrow>
     \<not> escapes (cors_origins_from_environment (bt_urlparse b) (bt_env b)) \<and> \<not> escapes (prompt_throttle_from_environment (bt_env b))"
  unfolding create_app_def Let_def by (auto simp: configured_starts)

lemma attach_postgres_starts:
  "(\<exists>a'. attach_postgres b a = Inr a') \<longleftrightarrow>
     \<not> escapes (postgres_settings_from_environment (bt_urlparse b) (bt_env b)) \<and>
     (postgres_wanted b \<longrightarrow> bt_connect b \<noteq> Other_error \<and>
        (bt_connect b = Connected \<longrightarrow> bt_migrations b \<noteq> None \<and> \<not> escapes (account_config_from_environment (bt_env b)) \<and>
           \<not> (accepted (account_config_from_environment (bt_env b)) \<and> bt_hasher_raises b) \<and>
           \<not> escapes (email_settings_from_environment (bt_urlparse b) (bt_env b))))"
proof -
  have mail: "(\<exists>a'. attach_email b x = Inr a') \<longleftrightarrow> \<not> escapes (email_settings_from_environment (bt_urlparse b) (bt_env b))" for x
    unfolding attach_email_def by (simp add: configured_starts)
  have acc: "(\<exists>a'. attach_accounts b x = Inr a') \<longleftrightarrow> \<not> escapes (account_config_from_environment (bt_env b)) \<and>
      \<not> (accepted (account_config_from_environment (bt_env b)) \<and> bt_hasher_raises b)" for x
    unfolding attach_accounts_def by (subst configured_starts) (auto simp: accepted_def split: sum.splits)
  have both: "(\<exists>a'. start_then (attach_accounts b x) (attach_email b) = Inr a') \<longleftrightarrow>
      \<not> escapes (account_config_from_environment (bt_env b)) \<and>
      \<not> (accepted (account_config_from_environment (bt_env b)) \<and> bt_hasher_raises b) \<and> \<not> escapes (email_settings_from_environment (bt_urlparse b) (bt_env b))" for x
    unfolding start_then_Inr using acc [of x] mail by blast
  show ?thesis
    unfolding attach_postgres_def
    by (subst configured_starts) (auto simp: postgres_wanted_def both create_pool_def postgres_enabled_def split: sum.splits pool_answer.splits connect_answer.splits option.splits)
qed

text \<open>The Redis client fails a start on being made, or on being closed where it is of no use.\<close>

definition redis_client_fails :: "boot \<Rightarrow> bool" where
  "redis_client_fails b \<longleftrightarrow>
     bt_redis_installed b \<and> (bt_client_raises b \<or> (bt_ping_raises b \<or> bt_cluster b = Some True) \<and> bt_close_raises b)"

lemma attach_redis_starts:
  "(\<exists>a'. attach_redis b a = Inr a') \<longleftrightarrow> \<not> (ap_watch_settings a \<noteq> None \<and> redis_client_fails b)"
  by (auto simp: attach_redis_def redis_client_fails_def ping_def redis_cluster_enabled_def Let_def split: option.splits)


section \<open>A start\<close>

definition demo_boot :: boot where
  "demo_boot = \<lparr>bt_env = (\<lambda>_. None),
     bt_urlparse = (\<lambda>_. Some \<lparr>url_scheme = ''redis'', url_netloc = ''localhost'', url_path = ''/0'', url_hostname = None, url_port = None\<rparr>),
     bt_zone = (\<lambda>_. Some True), bt_connect = Server_error, bt_migrations = None, bt_redis_installed = True, bt_client_raises = False,
     bt_ping_raises = False, bt_close_raises = False, bt_hasher_raises = False, bt_cluster = None, bt_celery_installed = True, bt_first_pass = no_pass False 0 False, bt_now = 0\<rparr>"

lemma demo_boot_counted: "bounded_count (bt_env demo_boot) name d lo hi = Inr d" "bounded_int (bt_env demo_boot) name d z = Inr d"
  by (simp_all add: bounded_count_def bounded_int_def getenv_def demo_boot_def strip_def)

lemma demo_boot_settings:
  "\<exists>s. watch_settings_from_environment (bt_urlparse demo_boot) (bt_zone demo_boot) (bt_env demo_boot) = Inr s"
  unfolding watch_settings_from_environment_def
  by (simp add: Let_def cfg_then_def cfg_require_def demo_boot_counted) (simp add: parse_url_def require_zone_def cfg_require_def demo_boot_def)

lemma demo_boot_starts: "\<exists>a. start_app demo_boot = Inr a"
proof -
  have env: "bt_env demo_boot = (\<lambda>_. None)" by (simp add: demo_boot_def)
  have "cors_origins_from_environment (bt_urlparse demo_boot) (bt_env demo_boot) = Inr []"
    "prompt_throttle_from_environment (bt_env demo_boot) = Inr \<lparr>pt_max_requests = 20, pt_window_seconds = 300\<rparr>"
    by (simp add: cors_origins_from_environment_def env)
      (simp add: prompt_throttle_from_environment_def demo_boot_counted cfg_then_def)
  then obtain a1 where a1: "create_app demo_boot = Inr a1"
    by (simp add: create_app_def configured_def)
  obtain a2 where a2: "read_watch_settings demo_boot a1 = Inr a2"
    using demo_boot_settings by (auto simp: read_watch_settings_def configured_def)
  obtain a3 where a3: "read_app_settings demo_boot a2 = Inr a3"
    by (auto simp: read_app_settings_def app_settings_from_environment_def env getenv_def strip_def cfg_then_def
        cfg_require_def configured_def)
  obtain a4 where a4: "attach_postgres demo_boot a3 = Inr a4"
    by (simp add: attach_postgres_def postgres_settings_from_environment_def env configured_def postgres_enabled_def)
  have "\<exists>a. attach_redis demo_boot a4 = Inr a" unfolding attach_redis_starts by (simp add: redis_client_fails_def demo_boot_def)
  with a1 a2 a3 a4 show ?thesis by (simp add: start_app_def start_then_def)
qed

theorem startup_binds_one_world_witness:
  "\<exists>a. start_app demo_boot = Inr a \<and> wired a \<and> recovers a \<and> get_watch_service a = Inr (ap_service a) \<and> ap_open_queues (stop_app a) = {}"
proof -
  obtain a s where a: "start_app demo_boot = Inr a"
    and s: "watch_settings_from_environment (bt_urlparse demo_boot) (bt_zone demo_boot) (bt_env demo_boot) = Inr s"
    using demo_boot_starts demo_boot_settings by blast
  from startup_binds_one_world [OF a] s a show ?thesis by auto
qed

end
