(* ===== verification/Worker_Startup.thy ===== *)
theory Worker_Startup
  imports Startup_Properties
begin

text \<open>
  The Celery worker's own composition, \<^verbatim>\<open>backend/workers/tasks/monitor_watch.py\<close>, and how it agrees with the
  one of the API process: both must work on the same watches and the same mock state, under the same policy.
\<close>

section \<open>build_watch_service\<close>

text \<open>What escapes the factories; their caches keep values, not exceptions.\<close>

datatype worker_failure = Worker_misconfigured string | Worker_settings_error | Worker_client_error

definition worker_settings :: "boot \<Rightarrow> worker_failure + watch_settings" where
  "worker_settings b =
     (case watch_settings_from_environment (bt_urlparse b) (bt_zone b) (bt_env b) of
        Inl (Configuration_error message) \<Rightarrow> Inl (Worker_misconfigured message)
      | Inl Escaped_error \<Rightarrow> Inl Worker_settings_error
      | Inr s \<Rightarrow> Inr s)"

text \<open>\<^verbatim>\<open>_postgres_pool\<close>: whatever connecting raises leaves the worker without a pool.\<close>

definition worker_pool :: "boot \<Rightarrow> worker_failure + bool" where
  "worker_pool b =
     (case postgres_settings_from_environment (bt_urlparse b) (bt_env b) of
        Inl (Configuration_error message) \<Rightarrow> Inr False
      | Inl Escaped_error \<Rightarrow> Inl Worker_settings_error
      | Inr s \<Rightarrow> Inr (postgres_enabled s \<and> create_pool s (bt_connect b) = Pool_open))"

definition worker_notifier :: "boot \<Rightarrow> bool \<Rightarrow> worker_failure + email_settings option" where
  "worker_notifier b pool =
     (if \<not> pool then Inr None
      else (case email_settings_from_environment (bt_urlparse b) (bt_env b) of
              Inl (Configuration_error message) \<Rightarrow> Inr None
            | Inl Escaped_error \<Rightarrow> Inl Worker_settings_error
            | Inr s \<Rightarrow> Inr (if email_enabled s then Some s else None)))"

text \<open>
  Everything in Redis goes through one client made for the URL of the settings. The notifier's deadline is
  not passed on and stays at its default, ten seconds.
\<close>

definition worker_service :: "boot \<Rightarrow> worker_failure + service_binding" where
  "worker_service b =
     (case worker_settings b of
        Inl err \<Rightarrow> Inl err
      | Inr s \<Rightarrow>
          (case worker_pool b of
             Inl err \<Rightarrow> Inl err
           | Inr pool \<Rightarrow>
               if bt_client_raises b then Inl Worker_client_error
               else (case worker_notifier b pool of
                       Inl err \<Rightarrow> Inl err
                     | Inr notifier \<Rightarrow>
                         Inr \<lparr>sb_store = redis_watches (ws_redis_url s) s, sb_adapter = redis_mock_state (ws_redis_url s) s,
                              sb_queue = Celery_tasks (broker_url (bt_env b)), sb_recorder = pool, sb_notifier = notifier,
                              sb_notify_timeout = NOTIFY_TIMEOUT_SECONDS,
                              sb_timezone = Some (ws_timezone_name s), sb_config = service_from_settings s pool,
                              sb_provider_timeout = ws_provider_call_timeout_seconds s\<rparr>)))"

section \<open>Agreement with the API\<close>

lemma worker_service_Inr:
  assumes "worker_service b = Inr w"
  obtains s where "watch_settings_from_environment (bt_urlparse b) (bt_zone b) (bt_env b) = Inr s"
    "worker_pool b = Inr (sb_recorder w)" "worker_notifier b (sb_recorder w) = Inr (sb_notifier w)"
    "sb_store w = redis_watches (ws_redis_url s) s" "sb_adapter w = redis_mock_state (ws_redis_url s) s"
    "sb_queue w = Celery_tasks (broker_url (bt_env b))" "sb_notify_timeout w = notifier_timeout None" "sb_timezone w = Some (ws_timezone_name s)"
    "sb_config w = service_from_settings s (sb_recorder w)" "sb_provider_timeout w = ws_provider_call_timeout_seconds s"
  using assms by (auto simp: worker_service_def worker_settings_def notifier_timeout_def split: sum.splits config_failure.splits if_splits)

text \<open>What an upgraded process is built from.\<close>

definition from_settings :: "boot \<Rightarrow> watch_settings \<Rightarrow> app_state \<Rightarrow> bool" where
  "from_settings b s a \<longleftrightarrow>
     ap_store a = redis_watches (ws_redis_url s) s \<and> ap_mock a = redis_mock_state (ws_redis_url s) s \<and>
     (if bt_celery_installed b then ap_queue a = Celery_tasks (broker_url (bt_env b)) else \<exists>i. ap_queue a = Local_queue i) \<and>
     sb_timezone (ap_service a) = Some (ws_timezone_name s) \<and>
     sb_provider_timeout (ap_service a) = ws_provider_call_timeout_seconds s \<and>
     sb_notify_timeout (ap_service a) = ap_notify_timeout a"

lemma upgrade_from_settings: "from_settings b s (upgrade_to_redis b s a)"
  by (simp add: from_settings_def upgrade_to_redis_def build_from_settings_def build_watch_service_def bind_mock_adapter_def
      close_bound_queue_def share_throttles_def Let_def split: queue_binding.split)

definition same_postgres :: "app_state \<Rightarrow> app_state \<Rightarrow> bool" where
  "same_postgres a a' \<longleftrightarrow> ap_recorder a' = ap_recorder a \<and> ap_notifier a' = ap_notifier a \<and> ap_notify_timeout a' = ap_notify_timeout a"

lemma attach_redis_frame:
  assumes "attach_redis b a = Inr a'" and "local_app a"
  shows "same_postgres a a'" and "ap_redis a' \<Longrightarrow> ap_watch_settings a = Some s \<Longrightarrow> from_settings b s a'"
proof -
  have frame: "same_postgres x (attach_local s x)" "same_postgres x (upgrade_to_redis b s x)"
    "same_postgres x (start_recovery b s d x)" "from_settings b s (start_recovery b s d x) = from_settings b s x"
    "ap_redis (start_recovery b s d x) = ap_redis x" for x s d
    by (simp_all add: same_postgres_def attach_local_def upgrade_to_redis_def start_recovery_def build_from_settings_def
        build_watch_service_def bind_mock_adapter_def close_bound_queue_def share_throttles_def from_settings_def Let_def
        split: queue_binding.split)
  have trans: "same_postgres x y \<Longrightarrow> same_postgres y z \<Longrightarrow> same_postgres x z" for x y z by (simp add: same_postgres_def)
  have loc: "\<not> ap_redis (attach_local s a)" for s
    using attach_local_facts(1) [OF assms(2)] by (simp add: local_app_def)
  have "same_postgres a a' \<and> (ap_redis a' \<and> ap_watch_settings a = Some s \<longrightarrow> from_settings b s a')"
  proof (cases "ap_watch_settings a")
    case None
    with assms(1) show ?thesis by (simp add: attach_redis_def same_postgres_def)
  next
    case (Some ws)
    with assms(1) consider "a' = start_recovery b ws False (attach_local ws a)"
      | "a' = start_recovery b ws True (upgrade_to_redis b ws (attach_local ws a))"
      by (auto simp: attach_redis_def Let_def split: if_splits)
    then show ?thesis
    proof cases
      case 1
      have "same_postgres a a'" unfolding 1 by (rule trans [OF frame(1,3)])
      moreover have "\<not> ap_redis a'" unfolding 1 frame(5) by (rule loc)
      ultimately show ?thesis by blast
    next
      case 2
      have "same_postgres a a'" unfolding 2 by (rule trans [OF frame(1) trans [OF frame(2,3)]])
      moreover have "from_settings b ws a'" unfolding 2 frame(4) by (rule upgrade_from_settings)
      ultimately show ?thesis using Some by auto
    qed
  qed
  then show "same_postgres a a'" "ap_redis a' \<Longrightarrow> ap_watch_settings a = Some s \<Longrightarrow> from_settings b s a'" by blast+
qed

text \<open>Before PostgreSQL is attached nothing records or notifies.\<close>

lemma unattached:
  assumes "create_app b = Inr a1" "read_watch_settings b a1 = Inr a2" "read_app_settings b a2 = Inr a3"
  shows "\<not> ap_recorder a3 \<and> ap_notifier a3 = None \<and> ap_notify_timeout a3 = 10"
  using assms
  by (auto simp: create_app_def read_watch_settings_def read_app_settings_def configured_Inr Let_def blank_app_def
      build_watch_service_def bind_mock_adapter_def split: if_splits)

lemma attach_postgres_notifier:
  assumes "attach_postgres b a = Inr a'" and "\<not> ap_recorder a \<and> ap_notifier a = None \<and> ap_notify_timeout a = 10"
  shows "worker_notifier b (ap_recorder a') = Inr (ap_notifier a')" and "ap_notify_timeout a' = notifier_timeout (ap_notifier a')"
proof -
  have acc: "same_postgres x y" if "attach_accounts b x = Inr y" for x y
    using that by (auto simp: attach_accounts_def configured_Inr same_postgres_def split: if_splits)
  have "worker_notifier b (ap_recorder a') = Inr (ap_notifier a') \<and> ap_notify_timeout a' = notifier_timeout (ap_notifier a')"
    using assms(1)
  proof (cases rule: attach_postgres_Inr)
    case 1
    with assms(2) show ?thesis by (simp add: worker_notifier_def notifier_timeout_def NOTIFY_TIMEOUT_SECONDS_def)
  next
    case (2 a1)
    from acc [OF 2(1)] assms(2) have "ap_recorder a1" "ap_notifier a1 = None" "ap_notify_timeout a1 = 10"
      by (simp_all add: same_postgres_def)
    then show ?thesis
    proof (cases "email_settings_from_environment (bt_urlparse b) (bt_env b)")
      case (Inl err)
      with 2(2) \<open>ap_notifier a1 = None\<close> \<open>ap_notify_timeout a1 = 10\<close> show ?thesis
        by (cases err) (simp_all add: attach_email_def configured_def worker_notifier_def notifier_timeout_def NOTIFY_TIMEOUT_SECONDS_def)
    next
      case (Inr settings)
      with 2(2) have "a' = (if email_enabled settings then a1\<lparr>ap_notifier := Some settings, ap_notify_timeout := em_timeout_seconds settings\<rparr> else a1)"
        by (simp add: attach_email_def configured_def)
      with \<open>ap_recorder a1\<close> \<open>ap_notifier a1 = None\<close> \<open>ap_notify_timeout a1 = 10\<close> Inr show ?thesis
        by (simp add: worker_notifier_def notifier_timeout_def NOTIFY_TIMEOUT_SECONDS_def)
    qed
  qed
  then show "worker_notifier b (ap_recorder a') = Inr (ap_notifier a')" "ap_notify_timeout a' = notifier_timeout (ap_notifier a')" by blast+
qed

text \<open>The two processes come by their pool in the same way.\<close>

lemma attach_postgres_pool:
  assumes "attach_postgres b a = Inr a'" and "\<not> ap_recorder a"
  shows "worker_pool b = Inr (ap_recorder a')"
proof -
  have acc: "ap_recorder y = ap_recorder x" if "attach_accounts b x = Inr y \<or> attach_email b x = Inr y" for x y
    using that by (auto simp: attach_accounts_def attach_email_def configured_Inr split: if_splits)
  show ?thesis
  proof (cases "postgres_settings_from_environment (bt_urlparse b) (bt_env b)")
    case (Inl err)
    with assms show ?thesis by (cases err) (simp_all add: attach_postgres_def worker_pool_def configured_def)
  next
    case (Inr s)
    show ?thesis
    proof (cases "postgres_enabled s \<and> create_pool s (bt_connect b) = Pool_open")
      case True
      with Inr assms(1) obtain a1 where "attach_accounts b (a\<lparr>ap_pool := True, ap_recorder := True\<rparr>) = Inr a1" "attach_email b a1 = Inr a'"
        by (auto simp: attach_postgres_def configured_def start_then_Inr split: option.splits)
      with acc [of "a\<lparr>ap_pool := True, ap_recorder := True\<rparr>" a1] acc [of a1 a'] Inr True show ?thesis
        by (simp add: worker_pool_def)
    next
      case False
      with Inr assms have "\<not> ap_recorder a'"
        by (auto simp: attach_postgres_def configured_def split: if_splits pool_answer.splits)
      with Inr False show ?thesis by (simp add: worker_pool_def)
    qed
  qed
qed

text \<open>
  C22. An API process on Redis and a worker with the same environment work on the same watches and the same mock
  state, that is the same keys of the server at the same URL under the same limits, with one zone, one
  provider deadline and one pacing; with Celery installed the API publishes to the broker the worker
  publishes to, otherwise it polls in its own process; and when PostgreSQL answers both alike, they
  agree on recording outcomes (the API's recorder also tracks its readiness), on the whole policy and on the
  notifier. They differ in the notifier's deadline: the API waits as long as the SMTP timeout, the worker
  always ten seconds.
\<close>

theorem worker_agrees_with_api:
  assumes "start_app b = Inr a" and "ap_redis a" and "worker_service b' = Inr w"
    and "bt_env b' = bt_env b" "bt_urlparse b' = bt_urlparse b" "bt_zone b' = bt_zone b"
  shows "(\<exists>url keep limits. sb_store w = Shared_watches url ''dibs:watch'' keep \<and> sb_adapter w = Shared_mock url ''dibs:mock'' limits \<and>
        ap_store a = sb_store w \<and> ap_mock a = sb_adapter w \<and> sb_store (ap_service a) = sb_store w \<and> sb_adapter (ap_service a) = sb_adapter w) \<and>
    (if bt_celery_installed b then sb_queue w = sb_queue (ap_service a) else \<exists>i. sb_queue (ap_service a) = Local_queue i) \<and>
    sb_timezone w = sb_timezone (ap_service a) \<and>
    sb_provider_timeout w = sb_provider_timeout (ap_service a) \<and>
    schedule (sb_config w) = schedule (sb_config (ap_service a)) \<and>
    (bt_connect b' = bt_connect b \<longrightarrow> sb_recorder w = sb_recorder (ap_service a) \<and> sb_config w = sb_config (ap_service a) \<and>
       sb_notifier w = sb_notifier (ap_service a)) \<and>
    sb_notify_timeout w = notifier_timeout None \<and> sb_notify_timeout (ap_service a) = notifier_timeout (ap_notifier a)"
proof -
  obtain a1 a2 a3 a4 where s: "create_app b = Inr a1" "read_watch_settings b a1 = Inr a2" "read_app_settings b a2 = Inr a3"
    "attach_postgres b a3 = Inr a4" "attach_redis b a4 = Inr a" "local_app a4"
    "ap_watch_settings a4 = ap_watch_settings a2"
    using start_app_Inr [OF assms(1)] by metis
  have same: "worker_notifier b' p = worker_notifier b p" for p by (simp add: worker_notifier_def assms(4,5))
  with worker_service_Inr [OF assms(3)] obtain ws where w: "watch_settings_from_environment (bt_urlparse b) (bt_zone b) (bt_env b) = Inr ws"
    "worker_pool b' = Inr (sb_recorder w)" "worker_notifier b (sb_recorder w) = Inr (sb_notifier w)"
    "sb_store w = redis_watches (ws_redis_url ws) ws" "sb_adapter w = redis_mock_state (ws_redis_url ws) ws"
    "sb_queue w = Celery_tasks (broker_url (bt_env b))"
    "sb_notify_timeout w = notifier_timeout None" "sb_timezone w = Some (ws_timezone_name ws)"
    "sb_config w = service_from_settings ws (sb_recorder w)" "sb_provider_timeout w = ws_provider_call_timeout_seconds ws"
    unfolding assms(4-6) by metis
  have "ap_watch_settings a4 = Some ws"
    using s(2,7) w(1) by (auto simp: read_watch_settings_def configured_def)
  note r = attach_redis_facts(4) [OF s(5,6) this] attach_redis_frame(1) [OF s(5,6)] attach_redis_frame(2) [OF s(5,6) assms(2) this]
    attach_redis_facts(1) [OF s(5,6)]
  note n = attach_postgres_notifier [OF s(4) unattached [OF s(1-3)]]
  have "sb_recorder w = sb_recorder (ap_service a) \<and> sb_notifier w = sb_notifier (ap_service a)" if "bt_connect b' = bt_connect b"
  proof -
    have "worker_pool b' = worker_pool b" unfolding worker_pool_def assms(4,5) that ..
    with w(2) attach_postgres_pool [OF s(4)] unattached [OF s(1-3)] have "sb_recorder w = ap_recorder a4" by simp
    with w(3) n(1) r(1,2) show ?thesis by (simp add: same_postgres_def)
  qed
  with w r n(2) show ?thesis
    by (simp add: from_settings_def same_postgres_def service_from_settings_def make_service_def wired_def redis_watches_def
        redis_mock_state_def KEY_PREFIX_def MOCK_KEY_PREFIX_def)
qed

lemma worker_demo_wired:
  assumes "start_app b = Inr a" and "watch_settings_from_environment (bt_urlparse b) (bt_zone b) (bt_env b) = Inr s"
  shows "wired a \<and> recovers a \<and> sb_recorder (ap_service a) = ap_recorder a"
proof -
  obtain a1 a2 a4 where st: "read_watch_settings b a1 = Inr a2" "attach_redis b a4 = Inr a" "local_app a4"
    "ap_watch_settings a4 = ap_watch_settings a2" using start_app_Inr [OF assms(1)] by metis
  with assms(2) have "ap_watch_settings a4 = Some s" by (auto simp: read_watch_settings_def configured_def)
  with attach_redis_facts [OF st(2,3)] show ?thesis by blast
qed

theorem worker_agrees_with_api_witness:
  "\<exists>a w. start_app demo_boot = Inr a \<and> worker_service demo_boot = Inr w \<and> sb_store w = ap_store a \<and> sb_adapter w = ap_mock a \<and>
     sb_queue w = ap_queue a \<and> sb_recorder w = ap_recorder a"
proof -
  obtain a s where a: "start_app demo_boot = Inr a"
    and s: "watch_settings_from_environment (bt_urlparse demo_boot) (bt_zone demo_boot) (bt_env demo_boot) = Inr s"
    using demo_boot_starts demo_boot_settings by blast
  have env: "bt_env demo_boot = (\<lambda>_. None)" by (simp add: demo_boot_def)
  have "worker_settings demo_boot = Inr s" by (simp only: worker_settings_def s sum.case)
  moreover have pool: "worker_pool demo_boot = Inr False"
    by (simp add: worker_pool_def postgres_settings_from_environment_def env postgres_enabled_def)
  moreover have "\<not> bt_client_raises demo_boot" by (simp add: demo_boot_def)
  ultimately have "\<exists>w. worker_service demo_boot = Inr w" by (simp add: worker_service_def worker_notifier_def)
  moreover have "ap_redis a"
  proof -
    obtain a1 a2 a4 where st: "read_watch_settings demo_boot a1 = Inr a2" "attach_redis demo_boot a4 = Inr a" "local_app a4"
      "ap_watch_settings a4 = ap_watch_settings a2" using start_app_Inr [OF a] by metis
    with s have "ap_watch_settings a4 = Some s" by (auto simp: read_watch_settings_def configured_def)
    with st(2) have "a = start_recovery demo_boot s True (upgrade_to_redis demo_boot s (attach_local s a4))"
      by (simp add: attach_redis_def Let_def ping_def redis_cluster_enabled_def demo_boot_def)
    moreover have "ap_redis (upgrade_to_redis demo_boot s (attach_local s a4))"
      by (rule upgrade_facts(2) [OF attach_local_facts(1) [OF st(3)]])
    ultimately show ?thesis by (simp add: start_recovery_def)
  qed
  moreover have "wired a" "recovers a" "sb_recorder (ap_service a) = ap_recorder a" using worker_demo_wired [OF a s] by blast+
  moreover have "bt_celery_installed demo_boot" by (simp add: demo_boot_def)
  ultimately show ?thesis using a worker_agrees_with_api [OF a _ _ refl refl refl] by (auto simp: wired_def)
qed

end
