(* ===== verification/Prompt_Routes.thy ===== *)
theory Prompt_Routes
  imports Startup Api_Routes
begin

text \<open>
  The prompt endpoints and the error responses of \<^verbatim>\<open>backend/main.py\<close>. A prompt costs money, so every
  request passes a throttle before the language model is asked; a route also answers the prompts it sent to
  the model. An exception becomes the response of the first class of its method resolution order that has
  a handler.
\<close>

section \<open>Error responses\<close>

datatype exception_class =
  Configuration_class | Past_date_class | Provider_unavailable_class | Provider_class
| Slot_not_found_class | Slot_unavailable_class | Adapter_class
| Email_taken_class | Invalid_credentials_class | Authentication_required_class
| Invalid_email_class | Password_policy_class | Auth_validation_class | Auth_class
| Accounts_unavailable_class | Ownership_unavailable_class | Rate_limited_class | Too_many_logins_class
| Runtime_error_class | Value_error_class | Exception_class

fun mro :: "exception_class \<Rightarrow> exception_class list" where
  "mro Provider_unavailable_class = [Provider_unavailable_class, Provider_class, Runtime_error_class, Exception_class]"
| "mro Slot_not_found_class = [Slot_not_found_class, Adapter_class, Runtime_error_class, Exception_class]"
| "mro Slot_unavailable_class = [Slot_unavailable_class, Adapter_class, Runtime_error_class, Exception_class]"
| "mro Past_date_class = [Past_date_class, Value_error_class, Exception_class]"
| "mro Invalid_email_class = [Invalid_email_class, Auth_validation_class, Auth_class, Exception_class]"
| "mro Password_policy_class = [Password_policy_class, Auth_validation_class, Auth_class, Exception_class]"
| "mro Too_many_logins_class = [Too_many_logins_class, Rate_limited_class, Exception_class]"
| "mro Rate_limited_class = [Rate_limited_class, Exception_class]"
| "mro Auth_class = [Auth_class, Exception_class]"
| "mro Email_taken_class = [Email_taken_class, Auth_class, Exception_class]"
| "mro Invalid_credentials_class = [Invalid_credentials_class, Auth_class, Exception_class]"
| "mro Authentication_required_class = [Authentication_required_class, Auth_class, Exception_class]"
| "mro Auth_validation_class = [Auth_validation_class, Auth_class, Exception_class]"
| "mro Runtime_error_class = [Runtime_error_class, Exception_class]"
| "mro Value_error_class = [Value_error_class, Exception_class]"
| "mro Exception_class = [Exception_class]"
| "mro c = [c, Runtime_error_class, Exception_class]"

definition exception_handlers :: "(exception_class \<times> int) list" where
  "exception_handlers =
     [(Configuration_class, 503), (Past_date_class, 422), (Provider_unavailable_class, 503), (Provider_class, 502),
      (Slot_not_found_class, 404), (Slot_unavailable_class, 409), (Adapter_class, 502),
      (Email_taken_class, 409), (Invalid_credentials_class, 401), (Authentication_required_class, 401),
      (Auth_validation_class, 422), (Accounts_unavailable_class, 503), (Ownership_unavailable_class, 503),
      (Rate_limited_class, 429)]"

definition status_of :: "exception_class \<Rightarrow> int" where
  "status_of c = (case List.map_filter (map_of exception_handlers) (mro c) of [] \<Rightarrow> 500 | st # _ \<Rightarrow> st)"

section \<open>The throttle of the prompt endpoints\<close>

record prompt_request =
  pq_prompt :: string
  pq_client_header :: "string option"
  pq_peer :: "string option"
  pq_origin :: "string option"
  pq_at :: seconds
  pq_token :: string

definition prompt_caller :: "prompt_request \<Rightarrow> string" where
  "prompt_caller r =
     (case extract_client_id (pq_client_header r) of
        Some c \<Rightarrow> c
      | None \<Rightarrow> (case pq_peer r of Some host \<Rightarrow> host | None \<Rightarrow> ''-''))"

definition prompt_key :: "prompt_request \<Rightarrow> string" where
  "prompt_key r = throttle_key (prompt_caller r) (pq_origin r)"

record limiter_state =
  ls_local :: windows
  ls_shared :: zstore

text \<open>\<open>outcome\<close> is what becomes of the call to Redis.\<close>

definition enforce_prompt_throttle ::
  "throttle_binding \<Rightarrow> call \<Rightarrow> prompt_request \<Rightarrow> limiter_state \<Rightarrow> admission \<times> limiter_state" where
  "enforce_prompt_throttle th outcome r ls =
     (case th of
        Local_throttle c \<Rightarrow>
          (let (a, w) = throttle_consume c (pq_at r) (pq_token r) (prompt_key r) (ls_local ls) in (a, ls\<lparr>ls_local := w\<rparr>))
      | Shared_throttle c name \<Rightarrow>
          (let (a, db) = redis_consume c name outcome (pq_at r) (pq_token r) (prompt_key r) (ls_shared ls) in (a, ls\<lparr>ls_shared := db\<rparr>)))"

section \<open>The routes\<close>

datatype prompt_failure = Prompt_limited | Provider_failed provider_error | Execution_failed execution_error

type_synonym model_client = "string \<Rightarrow> local_time \<Rightarrow> client_answer"

definition parse_route ::
  "throttle_binding \<Rightarrow> call \<Rightarrow> model_client \<Rightarrow> local_time \<Rightarrow> prompt_request \<Rightarrow> limiter_state \<Rightarrow>
   (prompt_failure + reservation_intent) \<times> string list \<times> limiter_state" where
  "parse_route th outcome client ref r ls =
     (let (a, ls') = enforce_prompt_throttle th outcome r ls in
      if a = Refused then (Inl Prompt_limited, [], ls')
      else ((case parse_prompt client (pq_prompt r) ref of Inl err \<Rightarrow> Inl (Provider_failed err) | Inr i \<Rightarrow> Inr i),
            [pq_prompt r], ls'))"

definition parse_and_book ::
  "(string \<Rightarrow> string) \<Rightarrow> 'p env \<Rightarrow> service_config \<Rightarrow> throttle_binding \<Rightarrow> call \<Rightarrow> model_client \<Rightarrow> local_time \<Rightarrow>
   user option \<Rightarrow> prompt_request \<Rightarrow> limiter_state \<Rightarrow> 'p world \<Rightarrow>
   (prompt_failure + execution_result) \<times> string list \<times> limiter_state \<times> 'p world" where
  "parse_and_book sha256hex e cfg th outcome client ref u r ls s =
     (let (res, sent, ls') = parse_route th outcome client ref r ls in
      case res of
        Inl err \<Rightarrow> (Inl err, sent, ls', s)
      | Inr i \<Rightarrow>
          (case prompt_execute sha256hex e cfg i (extract_client_id (pq_client_header r)) (map_option usr_id u) s of
             (Inl err, s') \<Rightarrow> (Inl (Execution_failed err), sent, ls', s')
           | (Inr x, s') \<Rightarrow> (Inr x, sent, ls', s')))"

text \<open>The class an exception of these routes belongs to.\<close>

definition adapter_class :: "adapter_error \<Rightarrow> exception_class" where
  "adapter_class err =
     (case err of Slot_Not_Found _ \<Rightarrow> Slot_not_found_class | Slot_Unavailable _ \<Rightarrow> Slot_unavailable_class | _ \<Rightarrow> Adapter_class)"

definition service_class :: "service_error \<Rightarrow> exception_class" where
  "service_class err =
     (case err of
        Past_Reservation_Date \<Rightarrow> Past_date_class
      | Ownership_Unavailable \<Rightarrow> Ownership_unavailable_class
      | Model_Error _ \<Rightarrow> Value_error_class
      | Provider_Failure a \<Rightarrow> adapter_class a
      | _ \<Rightarrow> Exception_class)"

definition prompt_class :: "prompt_failure \<Rightarrow> exception_class" where
  "prompt_class err =
     (case err of
        Prompt_limited \<Rightarrow> Rate_limited_class
      | Provider_failed (Provider_unavailable _) \<Rightarrow> Provider_unavailable_class
      | Provider_failed (Provider_error _) \<Rightarrow> Provider_class
      | Execution_failed (Adapter_raised a) \<Rightarrow> adapter_class a
      | Execution_failed (Watch_raised e) \<Rightarrow> service_class e
      | Execution_failed Bad_intent \<Rightarrow> Value_error_class
      | Execution_failed (Bad_policy _) \<Rightarrow> Value_error_class)"

section \<open>Many requests\<close>

text \<open>Requests served in order; for each, what the throttle said and what was sent to the model.\<close>

fun serve_prompts ::
  "throttle_binding \<Rightarrow> model_client \<Rightarrow> local_time \<Rightarrow> prompt_request list \<Rightarrow> limiter_state \<Rightarrow>
   (prompt_request \<times> admission \<times> string list) list" where
  "serve_prompts th client ref [] ls = []"
| "serve_prompts th client ref (r # rs) ls =
     (let (a, _) = enforce_prompt_throttle th Answered r ls;
          (_, sent, ls') = parse_route th Answered client ref r ls
      in (r, a, sent) # serve_prompts th client ref rs ls')"

end
