(* ===== verification/Prompt_Properties.thy ===== *)
theory Prompt_Properties
  imports Prompt_Routes Throttle_Limits Intent_Properties
begin

text \<open>
  What the prompt endpoints cost: a refused request never reaches the language model, and one caller
  reaches it at most the configured number of times in a window. The bound is the one of the locale
  \<open>window_limiter\<close>, through its two interpretations.
\<close>

section \<open>Responses\<close>

lemma handled_statuses:
  "map status_of [Configuration_class, Provider_unavailable_class, Provider_class, Adapter_class] = [503, 503, 502, 502]"
  "map status_of [Slot_not_found_class, Slot_unavailable_class, Past_date_class, Ownership_unavailable_class] = [404, 409, 422, 503]"
  "map status_of [Email_taken_class, Invalid_credentials_class, Authentication_required_class, Auth_class] = [409, 401, 401, 500]"
  "map status_of [Invalid_email_class, Password_policy_class, Too_many_logins_class, Value_error_class] = [422, 422, 429, 500]"
  by code_simp+

section \<open>What a caller spends\<close>

definition spent :: "(prompt_request \<times> admission \<times> string list) list \<Rightarrow> admissions" where
  "spent outs = List.map_filter (\<lambda>(r, a, _). case a of Admitted t \<Rightarrow> Some (pq_at r, prompt_key r, t) | _ \<Rightarrow> None) outs"

lemma spent_simps [simp]:
  "spent [] = []"
  "spent ((r, a, sent) # outs) = (case a of Admitted t \<Rightarrow> (pq_at r, prompt_key r, t) # spent outs | _ \<Rightarrow> spent outs)"
  by (simp_all add: spent_def map_filter_def split: admission.split)

definition to_request :: "prompt_request \<Rightarrow> request" where
  "to_request r = Consume (pq_at r) (prompt_key r) (pq_token r)"

lemma parse_route_state: "snd (snd (parse_route th outcome client ref r ls)) = snd (enforce_prompt_throttle th outcome r ls)"
  by (simp add: parse_route_def case_prod_beta)

lemma parse_route_sent:
  "fst (snd (parse_route th outcome client ref r ls)) =
     (if fst (enforce_prompt_throttle th outcome r ls) = Refused then [] else [pq_prompt r])"
  by (simp add: parse_route_def case_prod_beta)

lemma serve_prompts_Cons:
  "serve_prompts th client ref (r # rs) ls =
     (r, fst (enforce_prompt_throttle th Answered r ls),
      (if fst (enforce_prompt_throttle th Answered r ls) = Refused then [] else [pq_prompt r])) #
     serve_prompts th client ref rs (snd (enforce_prompt_throttle th Answered r ls))"
  using parse_route_state [of th Answered client ref r ls] parse_route_sent [of th Answered client ref r ls]
  by (simp add: case_prod_beta)

lemma serve_Cons: "serve consume release (q # qs) st = serve consume release qs (serve_one consume release q st)"
  by (simp add: serve_def)

lemma local_spending:
  "snd (serve (throttle_consume c) release (map to_request rs) (ls_local ls, lg)) =
     lg @ spent (serve_prompts (Local_throttle c) client ref rs ls)"
proof (induction rs arbitrary: ls lg)
  case (Cons r rs)
  obtain a w where run: "throttle_consume c (pq_at r) (pq_token r) (prompt_key r) (ls_local ls) = (a, w)" by fastforce
  have "ls_local (ls\<lparr>ls_local := w\<rparr>) = w" by simp
  with Cons.IH [of "ls\<lparr>ls_local := w\<rparr>"] show ?case
    by (cases a) (simp_all add: serve_Cons serve_prompts_Cons to_request_def serve_one_def enforce_prompt_throttle_def run
        del: serve_prompts.simps)
qed (simp add: serve_def)

lemma shared_spending:
  "snd (serve (redis_consume c name Answered) release (map to_request rs) (ls_shared ls, lg)) =
     lg @ spent (serve_prompts (Shared_throttle c name) client ref rs ls)"
proof (induction rs arbitrary: ls lg)
  case (Cons r rs)
  obtain a db where run: "redis_consume c name Answered (pq_at r) (pq_token r) (prompt_key r) (ls_shared ls) = (a, db)" by fastforce
  have "ls_shared (ls\<lparr>ls_shared := db\<rparr>) = db" by simp
  with Cons.IH [of "ls\<lparr>ls_shared := db\<rparr>"] show ?case
    by (cases a) (simp_all add: serve_Cons serve_prompts_Cons to_request_def serve_one_def enforce_prompt_throttle_def run
        del: serve_prompts.simps)
qed (simp add: serve_def)

text \<open>Requests of one caller in the window that ends at \<open>till\<close> that reached the model and were counted.\<close>

definition asked_model ::
  "seconds \<Rightarrow> string \<Rightarrow> seconds \<Rightarrow> (prompt_request \<times> admission \<times> string list) list \<Rightarrow> (prompt_request \<times> admission \<times> string list) list" where
  "asked_model width key till outs =
     filter (\<lambda>(r, a, sent). sent \<noteq> [] \<and> a \<noteq> Untracked \<and> prompt_key r = key \<and> till - width < pq_at r \<and> pq_at r \<le> till) outs"

lemma asked_model_spent:
  "length (asked_model width key till (serve_prompts th client ref rs ls)) =
     length (in_window width key till (spent (serve_prompts th client ref rs ls)))"
proof (induction rs arbitrary: ls)
  case (Cons r rs)
  show ?case unfolding serve_prompts_Cons
    by (cases "fst (enforce_prompt_throttle th Answered r ls)")
      (use Cons.IH [of "snd (enforce_prompt_throttle th Answered r ls)"] in \<open>simp_all add: asked_model_def in_window_def\<close>)
qed (simp add: asked_model_def in_window_def)

definition allowance :: "throttle_binding \<Rightarrow> int" where
  "allowance th = (case th of Local_throttle c \<Rightarrow> max 1 (max_events c) | Shared_throttle c _ \<Rightarrow> max 0 (max_events c))"

definition window_of :: "throttle_binding \<Rightarrow> seconds" where
  "window_of th = (case th of Local_throttle c \<Rightarrow> window_seconds c | Shared_throttle c _ \<Rightarrow> window_seconds c)"

definition empty_limiter :: limiter_state where
  "empty_limiter = \<lparr>ls_local = [], ls_shared = []\<rparr>"

lemma served_sent:
  "(r, a, sent) \<in> set (serve_prompts th client ref rs ls) \<Longrightarrow> sent = (if a = Refused then [] else [pq_prompt r])"
proof (induction rs arbitrary: ls)
  case (Cons q rs)
  then show ?case unfolding serve_prompts_Cons by auto
qed simp

lemma shared_tracks: "(r, a, sent) \<in> set (serve_prompts (Shared_throttle c name) client ref rs ls) \<Longrightarrow> a \<noteq> Untracked"
proof (induction rs arbitrary: ls)
  case (Cons q rs)
  have "fst (enforce_prompt_throttle (Shared_throttle c name) Answered q ls) \<noteq> Untracked"
    by (simp add: enforce_prompt_throttle_def redis_consume_def case_prod_beta)
  with Cons show ?case unfolding serve_prompts_Cons by auto
qed simp

text \<open>
  C24. Spending is limited: of the requests of one caller in any window, at most the configured number reach
  the language model and are counted, a refused one never reaches it, every other one sends its prompt
  once, and through Redis every request is counted, by all processes together.
\<close>

theorem prompt_spending_is_limited:
  assumes "sorted (map pq_at reqs)" and "distinct (map pq_token reqs)"
  shows "int (length (asked_model (window_of th) key till (serve_prompts th client ref reqs empty_limiter))) \<le> allowance th \<and>
    (\<forall>r a sent. (r, a, sent) \<in> set (serve_prompts th client ref reqs empty_limiter) \<longrightarrow>
       sent = (if a = Refused then [] else [pq_prompt r]) \<and> (a = Untracked \<longrightarrow> (\<exists>c. th = Local_throttle c)))"
proof (intro conjI allI impI)
  have reqs: "sorted (map request_time (map to_request reqs))" "distinct (concat (map request_tokens (map to_request reqs)))"
    using assms by (simp_all add: to_request_def comp_def concat_map_singleton)
  show "int (length (asked_model (window_of th) key till (serve_prompts th client ref reqs empty_limiter))) \<le> allowance th"
  proof (cases th)
    case (Local_throttle c)
    have "int (length (in_window (window_seconds c) key till
        (snd (serve (throttle_consume c) (throttle_release c) (map to_request reqs) (ls_local empty_limiter, []))))) \<le> max 0 (max 1 (max_events c))"
      by (rule sliding.admissions_bounded [OF _ _ reqs]) (simp_all add: empty_limiter_def sliding_ok_def sliding_held_def)
    then show ?thesis
      unfolding local_spending [where lg = "[]" and client = client and ref = ref]
      by (simp add: asked_model_spent Local_throttle allowance_def window_of_def)
  next
    case (Shared_throttle c name)
    have "int (length (in_window (window_seconds c) key till
        (snd (serve (redis_consume c name Answered) (redis_release name Answered) (map to_request reqs) (ls_shared empty_limiter, []))))) \<le> max 0 (max_events c)"
      by (rule shared.admissions_bounded [OF _ _ reqs]) (simp_all add: empty_limiter_def redis_ok_def redis_held_def)
    then show ?thesis
      unfolding shared_spending [where lg = "[]" and client = client and ref = ref]
      by (simp add: asked_model_spent Shared_throttle allowance_def window_of_def)
  qed
next
  fix r a sent assume "(r, a, sent) \<in> set (serve_prompts th client ref reqs empty_limiter)"
  then show "sent = (if a = Refused then [] else [pq_prompt r])" by (rule served_sent)
next
  fix r a sent assume mem: "(r, a, sent) \<in> set (serve_prompts th client ref reqs empty_limiter)" and "a = Untracked"
  with shared_tracks show "\<exists>c. th = Local_throttle c" by (cases th) blast+
qed

definition demo_prompt :: "seconds \<Rightarrow> string \<Rightarrow> prompt_request" where
  "demo_prompt t token = \<lparr>pq_prompt = ''Book Babel tonight'', pq_client_header = Some ''client-1'', pq_peer = Some ''10.0.0.1'',
     pq_origin = None, pq_at = t, pq_token = token\<rparr>"

theorem prompt_spending_is_limited_witness:
  "int (length (asked_model 60 ''client-1|-'' 20
     (serve_prompts (Shared_throttle \<lparr>max_events = 2, window_seconds = 60\<rparr> ''prompt'') (\<lambda>_ _. Rate_limited) demo_local
        [demo_prompt 0 ''t1'', demo_prompt 10 ''t2'', demo_prompt 20 ''t3''] empty_limiter))) \<le> 2"
proof -
  let ?reqs = "[demo_prompt 0 ''t1'', demo_prompt 10 ''t2'', demo_prompt 20 ''t3'']"
  have "sorted (map pq_at ?reqs)" "distinct (map pq_token ?reqs)" by (simp_all add: demo_prompt_def)
  from prompt_spending_is_limited [OF this, of "Shared_throttle \<lparr>max_events = 2, window_seconds = 60\<rparr> ''prompt''" "''client-1|-''" 20
      "\<lambda>_ _. Rate_limited" demo_local] show ?thesis
    by (simp add: window_of_def allowance_def)
qed

end
