(* ===== verification/Spec2Isabelle.thy ===== *)
theory Spec2Isabelle
  imports Store_Properties Store_Coordination Service_Creation Throttle_Limits Recovery_Properties Readiness
    Redis_Properties Api_Properties Task_Queue_Properties Config_Properties Email_Properties Redis_Mock_Refinement
    Worker_Startup Prompt_Properties
begin

text \<open>
  Verification development of the Dibs backend (\<^verbatim>\<open>src/backend\<close>), the server that watches restaurants for
  a table and books it.

  \<^bold>\<open>The program.\<close> A request arrives over HTTP, as a form or as a prompt that a language model turns into an
  extraction. The orchestrator validates it into an intent; the booking service searches, books at once, or
  creates a \<^emph>\<open>watch\<close>. A watch is a document with a runtime sidecar in a store that all processes share (in
  memory, or on Redis through Lua scripts). Queues wake a worker for each cadence window of a watch; the
  worker claims the window with a fencing token, asks the provider, books, and commits the outcome with the
  successor window in one atomic step. A dispatcher and a recovery pass under a leader lease republish what
  a crash lost. Terminal watches are projected into PostgreSQL and announced by email.

  \<^bold>\<open>Modelling.\<close> State is a record passed along; a method under a lock and a Lua script are one function of the
  state. A coroutine that awaits is a function of an environment: at each await the environment may change
  the shared state, and the theorems quantify over every environment that keeps to the operations of the
  stores. What a call raises is the left side of a sum. Instants are integers in microseconds, durations are
  rationals in seconds, the Redis stores count milliseconds. Python dictionaries keep insertion order
  (\<^verbatim>\<open>pydict\<close> of \<^theory_text>\<open>Dibs_Prelude\<close>). Definitions compute, so instances are evaluated by the simplifier.

  \<^bold>\<open>Theories and the code they model\<close> (paths below \<^verbatim>\<open>src/backend\<close>):

  \<^item> Shared: \<^theory_text>\<open>Dibs_Prelude\<close> (dictionaries, rendering of numbers, the collections the proofs rewrite with),
    \<^theory_text>\<open>Calendar\<close> (the part of \<^verbatim>\<open>datetime\<close> in use, dates as a \<^verbatim>\<open>linorder\<close>), \<^theory_text>\<open>Text_Utils\<close> (string methods).
  \<^item> Data: \<^theory_text>\<open>Reservation_Models\<close> (\<^verbatim>\<open>models/reservation.py\<close>), \<^theory_text>\<open>Watch_Models\<close> (\<^verbatim>\<open>models/watch.py\<close>,
    \<^verbatim>\<open>models/watch_runtime.py\<close>), with the validators as predicates.
  \<^item> Policy: \<^theory_text>\<open>Watch_Policy\<close> (\<^verbatim>\<open>workers/scheduler.py\<close>, \<^verbatim>\<open>services/watch_policy.py\<close>): pacing and budgets.
  \<^item> The watch store. \<^theory_text>\<open>Watch_Decisions\<close> (\<^verbatim>\<open>db/repositories/watch_decisions.py\<close>); \<^theory_text>\<open>Watch_Repository\<close> (the in-memory
    store of \<^verbatim>\<open>db/repositories/watches.py\<close>); \<^theory_text>\<open>Watch_Cell\<close>, the abstract specification: a family of cells, a step
    relation and the locale \<open>watch_store\<close>, in which fencing, single commit, finality and single announcement
    are proved once; \<^theory_text>\<open>Watch_Protocol\<close> (its interpretation by the in-memory store), \<^theory_text>\<open>Watch_Schedule\<close>,
    \<^theory_text>\<open>Scenario\<close>, \<^theory_text>\<open>Store_Properties\<close>, \<^theory_text>\<open>Store_Coordination\<close>.
  \<^item> The watch store on Redis. \<^theory_text>\<open>Redis_Store\<close> (\<^verbatim>\<open>db/repositories/watch_scripts.py\<close> and the decoding around it),
    \<^theory_text>\<open>Redis_Client\<close> (\<^verbatim>\<open>RedisWatchRepository\<close>, one read or script per await), \<^theory_text>\<open>Redis_Protocol\<close> (every script is a
    step of the cell), \<^theory_text>\<open>Redis_History\<close> (histories with native expiry; the second interpretation of
    \<open>watch_store\<close>), \<^theory_text>\<open>Redis_Properties\<close>.
  \<^item> Providers. \<^theory_text>\<open>Adapter_Contract\<close> (\<^verbatim>\<open>integrations/base.py\<close>, the locale \<open>reservation_adapter\<close>), \<^theory_text>\<open>Holidays\<close> and
    \<^theory_text>\<open>Venues\<close> (\<^verbatim>\<open>data/venues.py\<close>), \<^theory_text>\<open>Slot_Generation\<close> and \<^theory_text>\<open>Mock_Adapter\<close> (\<^verbatim>\<open>integrations/mock_booking.py\<close>, its
    interpretation), \<^theory_text>\<open>Mock_State\<close> (the in-memory store of \<^verbatim>\<open>db/repositories/mock_booking.py\<close>), \<^theory_text>\<open>Mock_Properties\<close>.
  \<^item> The mock state on Redis. \<^theory_text>\<open>Redis_Mock\<close> (\<^verbatim>\<open>db/repositories/mock_booking_scripts.py\<close> and
    \<^verbatim>\<open>RedisMockBookingStateRepository\<close>), \<^theory_text>\<open>Redis_Mock_Properties\<close> (its invariant), \<^theory_text>\<open>Redis_Mock_Refinement\<close> (it
    answers every history as the in-memory store does).
  \<^item> The watch service. \<^theory_text>\<open>Service_World\<close>, \<^theory_text>\<open>Watch_Service\<close> and \<^theory_text>\<open>Watch_Lifecycle\<close> (\<^verbatim>\<open>services/watch_service.py\<close>),
    \<^theory_text>\<open>Service_Facts\<close>, \<^theory_text>\<open>Service_Sound\<close> and \<^theory_text>\<open>Service_Polls\<close> (the locale \<open>watch_service\<close>: a poll under any interference),
    \<^theory_text>\<open>Deployment\<close> (its interpretation on the mock provider), \<^theory_text>\<open>Service_Properties\<close>, \<^theory_text>\<open>Service_Creation\<close>.
  \<^item> Dispatch and recovery. \<^theory_text>\<open>Dispatcher\<close> (\<^verbatim>\<open>workers/dispatcher.py\<close>), \<^theory_text>\<open>Recovery\<close> (\<^verbatim>\<open>services/watch_recovery.py\<close>,
    \<^verbatim>\<open>services/readiness.py\<close>), \<^theory_text>\<open>Recovery_Properties\<close>, \<^theory_text>\<open>Readiness\<close>; \<^theory_text>\<open>Task_Queue\<close> (\<^verbatim>\<open>workers/queue.py\<close>,
    \<^verbatim>\<open>workers/tasks/monitor_watch.py\<close>), \<^theory_text>\<open>Task_Queue_Properties\<close>.
  \<^item> Requests. \<^theory_text>\<open>Intents\<close> (\<^verbatim>\<open>orchestrator/\<close>: schemas, validator, router, engine, providers), \<^theory_text>\<open>Intent_Properties\<close>;
    \<^theory_text>\<open>Booking_Service\<close> (\<^verbatim>\<open>services/booking_service.py\<close>), \<^theory_text>\<open>Booking_Properties\<close>; \<^theory_text>\<open>Throttle\<close>
    (\<^verbatim>\<open>services/throttle.py\<close>), \<^theory_text>\<open>Throttle_Limits\<close> (the locale \<open>window_limiter\<close> and its two interpretations).
  \<^item> Accounts and the API. \<^theory_text>\<open>Account_Db\<close> (\<^verbatim>\<open>db/repositories/accounts.py\<close>, \<^verbatim>\<open>watch_history.py\<close>), \<^theory_text>\<open>Auth_Service\<close>
    (\<^verbatim>\<open>services/auth_service.py\<close>, \<^verbatim>\<open>password.py\<close>), \<^theory_text>\<open>Api_Routes\<close> (\<^verbatim>\<open>api/client_identity.py\<close>, \<^verbatim>\<open>dependencies.py\<close>,
    \<^verbatim>\<open>routes/\<close>), each with its \<^verbatim>\<open>_Properties\<close> theory.
  \<^item> Settings and email. \<^theory_text>\<open>Config\<close> (\<^verbatim>\<open>config.py\<close>) and \<^theory_text>\<open>Config_Properties\<close>, which derive the bounds the services
    assume; \<^theory_text>\<open>Email_Notices\<close> (\<^verbatim>\<open>integrations/email.py\<close>, \<^verbatim>\<open>services/recipients.py\<close>) and \<^theory_text>\<open>Email_Properties\<close>.

  \<^item> The process. \<^theory_text>\<open>Migrations\<close> (\<^verbatim>\<open>db/postgres.py\<close>: replicas that migrate at once, as a step relation),
    \<^theory_text>\<open>Startup\<close> (\<^verbatim>\<open>main.py\<close>: \<^verbatim>\<open>create_app\<close>, the lifespan and what it binds), \<^theory_text>\<open>Startup_Properties\<close>, \<^theory_text>\<open>Worker_Startup\<close> (what the Celery
    worker is built from, \<^verbatim>\<open>workers/tasks/monitor_watch.py\<close>); \<^theory_text>\<open>Prompt_Routes\<close>
    (the prompt endpoints and the error responses of \<^verbatim>\<open>main.py\<close>) and \<^theory_text>\<open>Prompt_Properties\<close>.

  \<^bold>\<open>What the theorems show.\<close> For both watch stores: an owner with an older token can neither commit nor book,
  a window is committed once, a terminal watch never changes and announces one event; both implement
  the cells of \<^theory_text>\<open>Watch_Cell\<close>. For the service: a poll never raises, changes the store only by its methods and
  announces exactly what it commits, whatever others do at its awaits; creation is durable before it is
  published; backoff is the capped exponential. For the mock provider: no slot is sold twice, under any
  interleaving, on either store. For requests: a validated intent is valid and lies ahead, and the idempotency
  key identifies the request. For accounts: only the password opens, a failure does not tell which addresses
  exist, ownership is never lost to a later claim. For queues and limits: no duplicate live window, bounded
  deliveries, at most the allowance of events in a window. For settings and email: an accepted configuration
  meets the assumptions of the services, and a message reaches its owner only and discloses a simulation.
  For the process: whatever starts works on one store, one mock state and one open queue, and a worker on
  the same ones as the API; migrations are
  applied once however many replicas start; and a caller reaches the paid model a bounded number of times.

  Some theorems show where the code departs from its design: a Redis cancellation can overtake a booking or
  write back a stale document (\<^theory_text>\<open>Redis_Properties\<close>), an outage forgets a recorded cancellation
  (\<^theory_text>\<open>Service_Properties\<close>), an empty confirmation can be sold (\<^theory_text>\<open>Redis_Mock_Properties\<close>), a malformed window hides
  a past time (\<^theory_text>\<open>Intent_Properties\<close>), a late creation record loses the browser of a watch
  (\<^theory_text>\<open>Account_Db_Properties\<close>), a request cancelled twice leaks a hashing slot (\<^theory_text>\<open>Auth_Properties\<close>), a failing
  migration aborts the start instead of disabling the history (\<^theory_text>\<open>Startup_Properties\<close>).

  \<^bold>\<open>Loops.\<close> Loops over data are structural. Those over a bounded number of rounds keep the bound of the code
  (five rounds of a cancellation, the batches of recovery and cleanup). The loop that derives the backoff
  exponent is a \<^verbatim>\<open>while_option\<close>, proved to end for a positive interval; the loop that sleeps until a poll is due
  is a partial function, proved to return within one round per started minute.

  \<^bold>\<open>Parameters.\<close> SHA-256, UUIDv5, argon2 and random draws, the zone database, URL parsing, the answer of the
  language model, and which call of a client of Redis, SMTP or a provider fails, are arguments. What the code
  relies on (a hash that is injective on the values in use, a verifier that accepts the hash it made) is a
  named hypothesis, and each theorem with one has an instance with a concrete function.

  \<^bold>\<open>Not modelled.\<close> FastAPI's routing, serialisation and CORS middleware; \<^verbatim>\<open>workers/celery_app.py\<close> (options of
  the Celery library); the SQL text itself, beyond what each statement does to the tables; logging. All of it is
  calls into libraries that are not part of the source. JSON documents are modelled by the values they
  encode, and names of venues are ASCII, so Unicode normalisation does not occur.
\<close>

end
